(* ===== verification/Prelude.thy ===== *)
theory Prelude
  imports Main
begin

section \<open>Prelude: time, errors, folds with errors, and table operations\<close>

text \<open>
  What every component of the development shares.

  \<^item> Time: a timestamp is an integer number of microseconds, the resolution of Python's
    \<open>datetime\<close>; \<open>timedelta\<close> values are differences of timestamps.
  \<^item> Errors: a Python exception is a value of \<open>py_error\<close>, a computation that may raise has
    type \<open>py_error + 'a\<close>, and a loop whose body may raise is \<open>fold_res\<close>.
  \<^item> Tables: an SQL table is the list of its rows; the statements the source issues are
    \<open>update_where\<close> (UPDATE ... WHERE), \<open>filter\<close>/\<open>take\<close> (SELECT ... WHERE ... LIMIT) and
    \<open>find\<close> (SELECT ... fetchone).

  The collections \<open>table_simps\<close> and \<open>frame_simps\<close> hold the rewrite rules that component
  proofs pass to the simplifier.
\<close>

named_theorems table_simps \<open>rewriting table operations\<close>
named_theorems frame_simps \<open>what an operation leaves unchanged\<close>

subsection \<open>Time\<close>

type_synonym time = int

definition seconds :: "int \<Rightarrow> time" where
  "seconds n = n * 1000000"

definition minutes :: "int \<Rightarrow> time" where
  "minutes n = seconds (n * 60)"

definition hours :: "int \<Rightarrow> time" where
  "hours n = minutes (n * 60)"

definition days :: "int \<Rightarrow> time" where
  "days n = hours (n * 24)"

lemma seconds_mono [simp]: "seconds a \<le> seconds b \<longleftrightarrow> a \<le> b"
  by (simp add: seconds_def)

lemma seconds_less [simp]: "seconds a < seconds b \<longleftrightarrow> a < b"
  by (simp add: seconds_def)

lemma seconds_0 [simp]: "seconds 0 = 0"
  by (simp add: seconds_def)

lemma seconds_pos [simp]: "0 < seconds a \<longleftrightarrow> 0 < a"
  by (simp add: seconds_def zero_less_mult_iff)

lemma seconds_nonneg [simp]: "0 \<le> seconds a \<longleftrightarrow> 0 \<le> a"
  by (simp add: seconds_def zero_le_mult_iff)

lemma minutes_mono [simp]: "minutes a \<le> minutes b \<longleftrightarrow> a \<le> b"
  by (simp add: minutes_def)

lemma minutes_nonneg [simp]: "0 \<le> minutes a \<longleftrightarrow> 0 \<le> a"
  by (simp add: minutes_def zero_le_mult_iff)

lemma minutes_pos [simp]: "0 < minutes a \<longleftrightarrow> 0 < a"
  by (simp add: minutes_def zero_less_mult_iff)

subsection \<open>Exceptions as values\<close>

text \<open>
  \<open>CronError\<close> and \<open>RedisError\<close> stand for whatever the third-party cron library and the Redis
  client raise, \<open>DataError\<close> for a value the database does not store, \<open>IntegrityError\<close> for a violated
  constraint, \<open>PendingRollbackError\<close> for a session used after an earlier statement of it failed; the
  other constructors are Python's own exception classes.
\<close>

datatype py_error = IndexError | KeyError | ValueError | TypeError | AttributeError | RuntimeError
  | CronError | RedisError | DataError | IntegrityError | PendingRollbackError | OverflowError
  | HttpError | MultipleResultsFound

text \<open>
  A \<open>for\<close> loop whose body updates a state and may raise: the first exception ends the loop.
\<close>

fun fold_res :: "('a \<Rightarrow> 's \<Rightarrow> 'e + 's) \<Rightarrow> 'a list \<Rightarrow> 's \<Rightarrow> 'e + 's" where
  "fold_res f [] s = Inr s"
| "fold_res f (x # xs) s = (case f x s of Inl e \<Rightarrow> Inl e | Inr s' \<Rightarrow> fold_res f xs s')"

lemma fold_res_append:
  "fold_res f (xs @ ys) s =
     (case fold_res f xs s of Inl e \<Rightarrow> Inl e | Inr s' \<Rightarrow> fold_res f ys s')"
  by (induction xs arbitrary: s) (auto split: sum.splits)

text \<open>A loop invariant: kept by the body at every element, it holds when the loop ends.\<close>

lemma fold_res_invariant:
  assumes "fold_res f xs s = Inr s'"
    and "I s"
    and "\<And>x s s'. x \<in> set xs \<Longrightarrow> I s \<Longrightarrow> f x s = Inr s' \<Longrightarrow> I s'"
  shows "I s'"
  using assms
proof (induction xs arbitrary: s)
  case Nil
  then show ?case by simp
next
  case (Cons x xs)
  from Cons.prems(1) obtain s1 where s1: "f x s = Inr s1" and rest: "fold_res f xs s1 = Inr s'"
    by (auto split: sum.splits)
  from Cons.prems(2,3) s1 have "I s1" by auto
  with rest show ?case by (rule Cons.IH) (use Cons.prems(3) in auto)
qed

text \<open>A body that never raises gives a loop that never raises, and is a plain \<open>fold\<close>.\<close>

lemma fold_res_total:
  assumes "\<And>x s. x \<in> set xs \<Longrightarrow> f x s = Inr (g x s)"
  shows "fold_res f xs s = Inr (fold g xs s)"
  using assms by (induction xs arbitrary: s) auto

text \<open>A body that raises at some reachable element makes the loop raise.\<close>

lemma fold_res_raises:
  assumes "x \<in> set xs" and "\<And>s. \<exists>e. f x s = Inl e"
  shows "\<exists>e. fold_res f xs s = Inl e"
  using assms
proof (induction xs arbitrary: s)
  case Nil
  then show ?case by simp
next
  case (Cons y ys)
  show ?case
  proof (cases "f y s")
    case (Inl e)
    then show ?thesis by simp
  next
    case (Inr s1)
    with Cons.prems have "x \<in> set ys"
      by (metis Inl_Inr_False set_ConsD)
    with Inr Cons show ?thesis by auto
  qed
qed

text \<open>An invariant of a plain \<open>fold\<close>.\<close>

lemma fold_invariant_mem:
  assumes "I s" and "\<And>x s. x \<in> set xs \<Longrightarrow> I s \<Longrightarrow> I (f x s)"
  shows "I (fold f xs s)"
  using assms by (induction xs arbitrary: s) auto

subsection \<open>Python indexing and slicing\<close>

text \<open>
  \<open>xs[i]\<close>: a negative index counts from the end, an index out of range raises.
\<close>

definition py_index :: "'a list \<Rightarrow> int \<Rightarrow> py_error + 'a" where
  "py_index xs i =
     (if 0 \<le> i \<and> i < int (length xs) then Inr (xs ! nat i)
      else if - int (length xs) \<le> i \<and> i < 0 then Inr (xs ! nat (int (length xs) + i))
      else Inl IndexError)"

lemma py_index_Nil [simp]: "py_index [] i = Inl IndexError"
  by (simp add: py_index_def)

lemma py_index_in_range:
  "0 \<le> i \<Longrightarrow> i < int (length xs) \<Longrightarrow> py_index xs i = Inr (xs ! nat i)"
  by (simp add: py_index_def)

text \<open>The clamped index \<open>min(i, len(xs) - 1)\<close> of the backoff computations.\<close>

lemma py_index_clamped:
  assumes "xs \<noteq> []" and "0 \<le> i"
  shows "py_index xs (min i (int (length xs) - 1)) =
    Inr (xs ! min (nat i) (length xs - 1))"
proof -
  let ?j = "min i (int (length xs) - 1)"
  have "0 < length xs" using assms(1) by simp
  then have "0 \<le> ?j" and "?j < int (length xs)" using assms(2) by auto
  then have "py_index xs ?j = Inr (xs ! nat ?j)" by (rule py_index_in_range)
  moreover have "nat ?j = min (nat i) (length xs - 1)"
    using \<open>0 < length xs\<close> assms(2) by (cases "length xs") (auto simp: min_def)
  ultimately show ?thesis by simp
qed

lemma clamped_nth_mem:
  "xs \<noteq> [] \<Longrightarrow> xs ! min n (length xs - 1) \<in> set xs"
  by (rule nth_mem) (metis length_greater_0_conv diff_less less_one min_less_iff_disj)

subsection \<open>Tables\<close>

definition update_where :: "('r \<Rightarrow> bool) \<Rightarrow> ('r \<Rightarrow> 'r) \<Rightarrow> 'r list \<Rightarrow> 'r list" where
  "update_where p f rows = map (\<lambda>r. if p r then f r else r) rows"

lemma update_where_Nil [simp]: "update_where p f [] = []"
  by (simp add: update_where_def)

lemma update_where_Cons [simp]:
  "update_where p f (r # rs) = (if p r then f r else r) # update_where p f rs"
  by (simp add: update_where_def)

lemma update_where_append [simp]:
  "update_where p f (xs @ ys) = update_where p f xs @ update_where p f ys"
  by (simp add: update_where_def)

lemma length_update_where [simp]: "length (update_where p f rows) = length rows"
  by (simp add: update_where_def)

lemma update_where_none:
  "(\<And>r. r \<in> set rows \<Longrightarrow> \<not> p r) \<Longrightarrow> update_where p f rows = rows"
  by (induction rows) auto

lemma set_update_where:
  "set (update_where p f rows) = {if p r then f r else r | r. r \<in> set rows}"
  by (auto simp: update_where_def)

text \<open>
  A column no assignment of the UPDATE touches is unchanged in every row, so the primary
  keys, and every unique constraint over untouched columns, survive.
\<close>

lemma map_update_where [table_simps]:
  "(\<And>r. key (f r) = key r) \<Longrightarrow> map key (update_where p f rows) = map key rows"
  by (induction rows) auto

lemma find_update_where_eq:
  assumes "\<And>r. key (f r) = key r"
  shows "find (\<lambda>r. key r = k) (update_where (\<lambda>r. key r = k \<and> q r) f rows) =
    map_option (\<lambda>r. if q r then f r else r) (find (\<lambda>r. key r = k) rows)"
  using assms by (induction rows) auto

lemma find_update_where_same:
  assumes "\<And>r. key (f r) = key r"
  shows "find (\<lambda>r. key r = k) (update_where (\<lambda>r. key r = k) f rows) =
    map_option f (find (\<lambda>r. key r = k) rows)"
  using assms by (induction rows) auto

lemma find_update_where_other:
  assumes "\<And>r. key (f r) = key r" and "\<And>r. p r \<Longrightarrow> key r \<noteq> k"
  shows "find (\<lambda>r. key r = k) (update_where p f rows) = find (\<lambda>r. key r = k) rows"
  using assms by (induction rows) auto

lemma find_SomeD: "find p rows = Some r \<Longrightarrow> r \<in> set rows \<and> p r"
  by (auto simp: find_Some_iff)

lemma find_key_distinct:
  "distinct (map key rows) \<Longrightarrow> r \<in> set rows \<Longrightarrow> find (\<lambda>x. key x = key r) rows = Some r"
  by (induction rows) (auto simp: image_iff)

lemma find_append [table_simps]:
  "find p (xs @ ys) = (case find p xs of None \<Rightarrow> find p ys | Some r \<Rightarrow> Some r)"
  by (induction xs) auto

subsection \<open>The contract of a keyed table\<close>

text \<open>
  What a client of a table relies on: rows are addressed by a key, an assignment keeps the
  key of the row it changes. The provider of the contract gives the key column and one
  assignment; the client gets lookup-after-update laws and uniqueness of keys.
\<close>

locale keyed_update =
  fixes key :: "'r \<Rightarrow> 'k"
    and upd :: "'r \<Rightarrow> 'r"
  assumes upd_key: "key (upd r) = key r"
begin

lemma keys_kept: "map key (update_where p upd rows) = map key rows"
  by (rule map_update_where) (rule upd_key)

lemma lookup_same:
  "find (\<lambda>r. key r = k) (update_where (\<lambda>r. key r = k) upd rows) =
   map_option upd (find (\<lambda>r. key r = k) rows)"
  by (rule find_update_where_same) (rule upd_key)

lemma lookup_guarded:
  "find (\<lambda>r. key r = k) (update_where (\<lambda>r. key r = k \<and> q r) upd rows) =
   map_option (\<lambda>r. if q r then upd r else r) (find (\<lambda>r. key r = k) rows)"
  by (rule find_update_where_eq) (rule upd_key)

lemma lookup_other:
  "k' \<noteq> k \<Longrightarrow>
   find (\<lambda>r. key r = k') (update_where (\<lambda>r. key r = k \<and> q r) upd rows) =
   find (\<lambda>r. key r = k') rows"
  by (rule find_update_where_other) (auto simp: upd_key)

end

text \<open>
  The contract of a batch loop: the body for a selected row \<open>d\<close> assigns to the row with the key
  of \<open>d\<close>. On a table with unique keys the whole loop is then one simultaneous assignment.
\<close>

locale row_batch =
  fixes key :: "'r \<Rightarrow> 'k"
    and upd :: "'r \<Rightarrow> 'r \<Rightarrow> 'r"
  assumes upd_key: "key (upd d r) = key r"
begin

lemma batch_simultaneous:
  assumes "distinct (map key rows)" and "set ds \<subseteq> set rows" and "distinct ds"
  shows "fold (\<lambda>d. update_where (\<lambda>r. key r = key d) (upd d)) ds rows =
    map (\<lambda>r. if r \<in> set ds then upd r r else r) rows"
  using assms(2,3)
proof (induction ds rule: rev_induct)
  case Nil
  then show ?case by simp
next
  case (snoc d ds)
  have one: "(if key (if r \<in> set ds then upd r r else r) = key d
        then upd d (if r \<in> set ds then upd r r else r) else if r \<in> set ds then upd r r else r) =
      (if r = d \<or> r \<in> set ds then upd r r else r)" if "r \<in> set rows" for r
  proof -
    have "key r = key d \<longleftrightarrow> r = d"
      using assms(1) that snoc.prems(1) by (auto simp: distinct_map dest: inj_onD)
    then show ?thesis using snoc.prems(2) by (auto simp: upd_key)
  qed
  from snoc show ?case by (simp add: update_where_def one)
qed

end

end
