(* ===== verification/Datamodel.thy ===== *)
theory Datamodel
  imports Prelude
begin

section \<open>The database tables, the Redis store and the queue\<close>

text \<open>
  The rows of the tables of \<open>src/app/models\<close> as records, column by column; the columns with a
  CHECK constraint over a set of words are datatypes with one constructor per word; a nullable
  column is an \<open>option\<close>. The \<open>world\<close> record is everything the handlers and the worker read and
  write: the tables, the Redis store, the arq queue and the list of messages sent to the outside
  (e-mails and webhook posts).

  A UUID is a natural number; the first day of a month is its year and month. SQLAlchemy's \<open>onupdate=func.now()\<close> on \<open>updated_at\<close> is written
  out in every assignment that does not set the column itself.
\<close>

type_synonym uuid = nat

subsection \<open>JSON documents\<close>

text \<open>A floating-point number is kept by its printed form; the model never computes with it.\<close>

datatype json = JNull | JBool bool | JInt int | JFloat string | JStr string
  | JList "json list" | JObj "(string \<times> json) list"

subsection \<open>Cues\<close>

datatype cue_state = CueActive | CuePaused | CueCompleted | CueFailed
datatype schedule_type = Once | Recurring
datatype transport = Webhook | WorkerPull
datatype verification_mode = VNone | RequireExternalId | RequireResultUrl | RequireArtifacts | Manual

text \<open>The \<open>on_failure\<close> object; an absent key is \<open>None\<close>.\<close>

record on_failure_cfg =
  of_email :: "bool option"
  of_webhook :: "string option"
  of_pause :: "bool option"

record cue =
  cue_id :: string
  cue_user_id :: uuid
  cue_name :: string
  cue_description :: "string option"
  cue_status :: cue_state
  cue_schedule_type :: schedule_type
  cue_schedule_cron :: "string option"
  cue_schedule_at :: "time option"
  cue_schedule_timezone :: string
  cue_callback_url :: "string option"
  cue_callback_method :: string
  cue_callback_transport :: transport
  cue_callback_headers :: "(string \<times> string) list"
  cue_payload :: json
  cue_retry_max_attempts :: int
  cue_retry_backoff_minutes :: "int list"
  cue_next_run :: "time option"
  cue_last_run :: "time option"
  cue_run_count :: int
  cue_fired_count :: int
  cue_on_failure :: "on_failure_cfg option"
  cue_verification_mode :: "verification_mode option"
  cue_created_at :: time
  cue_updated_at :: time

subsection \<open>Executions\<close>

datatype exec_state = Pending | Delivering | Success | Failed | Retrying | RetryReady | Missed
  | PendingOutcome | OutcomeTimeout

datatype outcome_state = ReportedSuccess | ReportedFailure | VerifiedSuccess
  | VerificationFailed | VerificationPending

datatype validation_state = Valid | Invalid

record execution =
  ex_id :: uuid
  ex_cue_id :: string
  ex_scheduled_for :: time
  ex_status :: exec_state
  ex_http_status :: "int option"
  ex_response_body :: "string option"
  ex_attempts :: int
  ex_next_retry :: "time option"
  ex_error_message :: "string option"
  ex_started_at :: "time option"
  ex_delivered_at :: "time option"
  ex_last_attempt_at :: "time option"
  ex_claimed_by_worker :: "string option"
  ex_claimed_at :: "time option"
  ex_outcome_success :: "bool option"
  ex_outcome_result :: "string option"
  ex_outcome_error :: "string option"
  ex_outcome_metadata :: "json option"
  ex_outcome_recorded_at :: "time option"
  ex_outcome_deadline_seconds :: "int option"
  ex_outcome_deadline_at :: "time option"
  ex_outcome_state :: "outcome_state option"
  ex_last_heartbeat_at :: "time option"
  ex_live_claim_session_token :: "string option"
  ex_live_claimed_at :: "time option"
  ex_triggered_by :: "string option"
  ex_evidence_external_id :: "string option"
  ex_evidence_result_url :: "string option"
  ex_evidence_result_ref :: "string option"
  ex_evidence_result_type :: "string option"
  ex_evidence_summary :: "string option"
  ex_evidence_validation_state :: "validation_state option"
  ex_evidence_produced_at :: "time option"
  ex_evidence_artifacts :: "json option"
  ex_evidence_metadata :: "json option"
  ex_created_at :: time
  ex_updated_at :: time

text \<open>A freshly inserted row: the given columns, every other one at its column default.\<close>

definition new_execution :: "uuid \<Rightarrow> string \<Rightarrow> time \<Rightarrow> string option \<Rightarrow> json option \<Rightarrow> time \<Rightarrow> execution" where
  "new_execution i c sched trig meta now =
     \<lparr> ex_id = i, ex_cue_id = c, ex_scheduled_for = sched, ex_status = Pending,
       ex_http_status = None, ex_response_body = None, ex_attempts = 0, ex_next_retry = None,
       ex_error_message = None, ex_started_at = None, ex_delivered_at = None,
       ex_last_attempt_at = None, ex_claimed_by_worker = None, ex_claimed_at = None,
       ex_outcome_success = None, ex_outcome_result = None, ex_outcome_error = None,
       ex_outcome_metadata = meta, ex_outcome_recorded_at = None,
       ex_outcome_deadline_seconds = None, ex_outcome_deadline_at = None,
       ex_outcome_state = None, ex_last_heartbeat_at = None,
       ex_live_claim_session_token = None, ex_live_claimed_at = None, ex_triggered_by = trig,
       ex_evidence_external_id = None, ex_evidence_result_url = None,
       ex_evidence_result_ref = None, ex_evidence_result_type = None,
       ex_evidence_summary = None, ex_evidence_validation_state = None,
       ex_evidence_produced_at = None, ex_evidence_artifacts = None,
       ex_evidence_metadata = None, ex_created_at = now, ex_updated_at = now \<rparr>"

subsection \<open>The dispatch outbox and the arq queue\<close>

datatype task_type = Deliver | Retry | DeliverMessage | RetryMessage

text \<open>
  The JSON payload of a cue task. Keys that some writer leaves out, and that the reader
  fetches with a default, are options.
\<close>

record cue_task =
  p_cue_id :: string
  p_cue_name :: string
  p_user_id :: "uuid option"
  p_execution_id :: uuid
  p_scheduled_for :: time
  p_callback_url :: "string option"
  p_callback_method :: string
  p_callback_headers :: "(string \<times> string) list"
  p_payload :: json
  p_retry_max_attempts :: "int option"
  p_retry_backoff_minutes :: "int list option"
  p_monthly_execution_limit :: "int option"
  p_webhook_secret :: string

record message_task =
  m_message_id :: string
  m_to_agent_id :: string
  m_webhook_url :: "string option"
  m_attempt :: "int option"

datatype task_payload = CueTask cue_task | MessageTask message_task

record outbox_row =
  ob_id :: nat
  ob_execution_id :: "uuid option"
  ob_cue_id :: "string option"
  ob_task_type :: task_type
  ob_payload :: task_payload
  ob_dispatched :: bool
  ob_dispatch_attempts :: int
  ob_last_dispatch_error :: "string option"
  ob_scheduled_at :: "time option"
  ob_created_at :: time

datatype task_name = DeliverWebhookTask | RetryWebhookTask | DeliverMessageTask | RetryMessageTask

subsection \<open>Users, workers, agents, messages, alerts, usage\<close>

record user =
  usr_id :: uuid
  usr_email :: string
  usr_plan :: string
  usr_active_cue_limit :: int
  usr_monthly_execution_limit :: int
  usr_monthly_message_limit :: int
  usr_rate_limit_per_minute :: int
  usr_slug :: string
  usr_api_key_hash :: string
  usr_api_key_prefix :: string
  usr_api_key_encrypted :: "string option"
  usr_webhook_secret :: string
  usr_alert_webhook_url :: "string option"
  usr_alert_webhook_secret :: "string option"
  usr_external_owner :: "string option"

text \<open>\<open>src/app/models/device_code.py\<close>: one sign-in attempt of a device.\<close>

datatype device_state = DevPending | DevEmailSent | DevApproved | DevClaimed | DevExpired

record device_code =
  dev_id :: uuid
  dev_device_code :: string
  dev_email :: "string option"
  dev_status :: device_state
  dev_api_key_plaintext :: "string option"
  dev_verification_token :: "string option"
  dev_session_token :: "string option"
  dev_user_id :: "uuid option"
  dev_expires_at :: time
  dev_created_at :: time

record worker =
  wk_user_id :: uuid
  wk_worker_id :: string
  wk_handlers :: "string list option"
  wk_last_heartbeat :: time
  wk_created_at :: time

record agent =
  ag_id :: string
  ag_user_id :: uuid
  ag_slug :: string
  ag_display_name :: string
  ag_webhook_url :: "string option"
  ag_webhook_secret :: "string option"
  ag_metadata :: json
  ag_status :: string
  ag_last_seen_at :: "time option"
  ag_deleted_at :: "time option"
  ag_created_at :: time
  ag_updated_at :: time

datatype session_transport = IpcTransport | PollTransport

record live_session =
  ls_id :: uuid
  ls_agent_id :: string
  ls_label :: string
  ls_cue_id :: string
  ls_task_name :: string
  ls_is_default :: bool
  ls_attached_at :: "time option"
  ls_detached_at :: "time option"
  ls_last_heartbeat :: "time option"
  ls_last_claim_at :: "time option"
  ls_monitor_version :: "string option"
  ls_session_token :: "string option"
  ls_ipc_session_token :: "string option"
  ls_transport :: session_transport
  ls_daemon_id :: "uuid option"
  ls_last_reconciled_at :: "time option"
  ls_created_at :: time

datatype delivery_state = MQueued | MDelivering | MRetryReady | MDelivered | MRead | MClaimed
  | MAcked | MExpired | MFailed

record message =
  msg_id :: string
  msg_user_id :: uuid
  msg_from_agent_id :: string
  msg_to_agent_id :: string
  msg_thread_id :: string
  msg_reply_to :: "string option"
  msg_subject :: "string option"
  msg_body :: string
  msg_preview :: string
  msg_priority :: int
  msg_expects_reply :: bool
  msg_reply_to_agent_id :: "string option"
  msg_delivery_state :: delivery_state
  msg_metadata :: json
  msg_idempotency_key :: "string option"
  msg_idempotency_fingerprint :: "string option"
  msg_created_at :: time
  msg_delivered_at :: "time option"
  msg_read_at :: "time option"
  msg_acked_at :: "time option"
  msg_failed_at :: "time option"
  msg_delivering_started_at :: "time option"
  msg_send_at :: "time option"
  msg_expires_at :: time
  msg_dispatch_priority_bucket :: int
  msg_dispatch_error :: "string option"
  msg_correlation_id :: "string option"

record event =
  ev_id :: nat
  ev_event_type :: string
  ev_recipient_agent_id :: string
  ev_payload :: json
  ev_emitted_at :: time
  ev_idempotency_key :: "string option"
  ev_digested_at :: "time option"

datatype delivery_target = PullTarget | WebhookTarget

record subscription =
  sub_id :: uuid
  sub_subscriber_agent_id :: string
  sub_event_type :: string
  sub_delivery_target :: delivery_target
  sub_webhook_url :: "string option"
  sub_webhook_secret :: "string option"
  sub_last_dispatched_event_id :: "nat option"
  sub_last_dispatched_at :: "time option"
  sub_last_acked_event_id :: "nat option"
  sub_consecutive_failures :: int
  sub_paused_until :: "time option"
  sub_inline_body :: bool
  sub_created_at :: time
  sub_detached_at :: "time option"

datatype alert_type = AlertOutcomeTimeout | AlertVerificationFailed | AlertConsecutiveFailures
datatype severity = Info | Warning | Critical

record alert =
  al_id :: uuid
  al_user_id :: uuid
  al_cue_id :: "string option"
  al_execution_id :: "uuid option"
  al_type :: alert_type
  al_severity :: severity
  al_message :: string
  al_metadata :: "json option"
  al_acknowledged :: bool
  al_created_at :: time

record usage_row =
  us_user_id :: uuid
  us_month_start :: "int \<times> int"
  us_execution_count :: int

record message_usage_row =
  um_user_id :: uuid
  um_month_start :: "int \<times> int"
  um_message_count :: int

subsection \<open>Redis keys and values\<close>

text \<open>
  One constructor per key template of the source (\<open>usage:{user_id}:{month}\<close>,
  \<open>grace:{user_id}\<close>, ...), so distinct templates and distinct fields give distinct keys.
  A value is a word, a decimal number, an ISO timestamp or a sorted set (members with their
  scores); an entry has an optional expiry.
\<close>

text \<open>What the authentication cache holds of a user (\<open>AuthenticatedUser\<close> of \<open>src/app/auth.py\<close>).\<close>

record authenticated_user =
  au_id :: uuid
  au_email :: string
  au_plan :: string
  au_active_cue_limit :: int
  au_monthly_execution_limit :: int
  au_rate_limit_per_minute :: int

datatype redis_key = KUsage uuid "int \<times> int" | KGrace uuid | KFailureEmail uuid | KConcurrent uuid
  | KWorkerAlert uuid string | KWorkerOfflineEmail string | KPollerLeader | KPollerLastRun
  | KPollerCuesProcessed | KPollerCycleDurationMs
  | KMsgQuota uuid "int \<times> int" | KMsgRate uuid | KMsgPriorityHigh uuid | KMsgInboundPriority string string
  | KAuthz uuid uuid string | KDebounce string
  | KAuth string | KRotated string | KSession uuid | KAuthLimit string string | KRateLimit string | KEcho string

datatype redis_val = RStr string | RInt int | RTime time | RZset "(string \<times> time) list" | RUser authenticated_user

type_synonym redis_store = "redis_key \<Rightarrow> (redis_val \<times> time option) option"

subsection \<open>What leaves the system\<close>

datatype effect =
    FailureEmail uuid string string string uuid string
      \<comment> \<open>user, address, cue id, cue name, execution, error text\<close>
  | FailureWebhook string string string int "int option" string time
      \<comment> \<open>URL, cue id, cue name, attempts, last HTTP status, error text, time\<close>
  | WorkerDownEmail string string int nat
      \<comment> \<open>address, worker id, minutes offline, pending executions\<close>
  | AlertPost string uuid
      \<comment> \<open>URL, alert id\<close>
  | EventsPost uuid "nat list" bool
      \<comment> \<open>subscription, event ids, whether the answer was 2xx\<close>
  | MagicLinkEmail string string string
      \<comment> \<open>address, token, device code\<close>
  | SecretChangedEmail string
      \<comment> \<open>address\<close>

record world =
  cues :: "cue list"
  executions :: "execution list"
  outbox :: "outbox_row list"
  outbox_seq :: nat
  workers :: "worker list"
  users :: "user list"
  agents :: "agent list"
  live_sessions :: "live_session list"
  messages :: "message list"
  events :: "event list"
  event_seq :: nat
  subscriptions :: "subscription list"
  alerts :: "alert list"
  usage_monthly :: "usage_row list"
  usage_messages :: "message_usage_row list"
  device_codes :: "device_code list"
  redis :: redis_store
  queue :: "(task_name \<times> task_payload) list"
  sent :: "effect list"

text \<open>An empty system, from which the concrete examples of the development start.\<close>

definition empty_world :: world where
  "empty_world = \<lparr> cues = [], executions = [], outbox = [], outbox_seq = 1, workers = [],
     users = [], agents = [], live_sessions = [], messages = [],
     events = [], event_seq = 1, subscriptions = [], alerts = [], usage_monthly = [], usage_messages = [],
     device_codes = [], redis = (\<lambda>_. None), queue = [], sent = [] \<rparr>"

subsection \<open>Row access\<close>

definition get_cue_row :: "world \<Rightarrow> string \<Rightarrow> cue option" where
  "get_cue_row w c = find (\<lambda>r. cue_id r = c) (cues w)"

definition get_exec_row :: "world \<Rightarrow> uuid \<Rightarrow> execution option" where
  "get_exec_row w e = find (\<lambda>r. ex_id r = e) (executions w)"

definition get_user_row :: "world \<Rightarrow> uuid \<Rightarrow> user option" where
  "get_user_row w u = find (\<lambda>r. usr_id r = u) (users w)"

definition update_cue_row :: "string \<Rightarrow> (cue \<Rightarrow> cue) \<Rightarrow> world \<Rightarrow> world" where
  "update_cue_row c f w = w\<lparr>cues := update_where (\<lambda>r. cue_id r = c) f (cues w)\<rparr>"

definition update_exec_row :: "uuid \<Rightarrow> (execution \<Rightarrow> execution) \<Rightarrow> world \<Rightarrow> world" where
  "update_exec_row e f w = w\<lparr>executions := update_where (\<lambda>r. ex_id r = e) f (executions w)\<rparr>"

text \<open>INSERT INTO dispatch_outbox: the next serial id, not yet dispatched.\<close>

definition insert_outbox ::
  "uuid option \<Rightarrow> string option \<Rightarrow> task_type \<Rightarrow> task_payload \<Rightarrow> time option \<Rightarrow> time \<Rightarrow> world \<Rightarrow> world" where
  "insert_outbox e c t p sched now w =
     w\<lparr>outbox := outbox w @ [\<lparr>ob_id = outbox_seq w, ob_execution_id = e, ob_cue_id = c,
          ob_task_type = t, ob_payload = p, ob_dispatched = False, ob_dispatch_attempts = 0,
          ob_last_dispatch_error = None, ob_scheduled_at = sched, ob_created_at = now\<rparr>],
       outbox_seq := outbox_seq w + 1\<rparr>"

lemma update_cue_row_frame [simp, frame_simps]:
  "executions (update_cue_row c f w) = executions w"
  "outbox (update_cue_row c f w) = outbox w"
  "outbox_seq (update_cue_row c f w) = outbox_seq w"
  "workers (update_cue_row c f w) = workers w"
  "users (update_cue_row c f w) = users w"
  "agents (update_cue_row c f w) = agents w"
  "live_sessions (update_cue_row c f w) = live_sessions w"
  "messages (update_cue_row c f w) = messages w"
  "events (update_cue_row c f w) = events w"
  "event_seq (update_cue_row c f w) = event_seq w"
  "subscriptions (update_cue_row c f w) = subscriptions w"
  "usage_messages (update_cue_row c f w) = usage_messages w"
  "alerts (update_cue_row c f w) = alerts w"
  "usage_monthly (update_cue_row c f w) = usage_monthly w"
  "redis (update_cue_row c f w) = redis w"
  "queue (update_cue_row c f w) = queue w"
  "sent (update_cue_row c f w) = sent w"
  by (simp_all add: update_cue_row_def)

lemma update_exec_row_frame [simp, frame_simps]:
  "cues (update_exec_row e f w) = cues w"
  "outbox (update_exec_row e f w) = outbox w"
  "outbox_seq (update_exec_row e f w) = outbox_seq w"
  "workers (update_exec_row e f w) = workers w"
  "users (update_exec_row e f w) = users w"
  "agents (update_exec_row e f w) = agents w"
  "live_sessions (update_exec_row e f w) = live_sessions w"
  "messages (update_exec_row e f w) = messages w"
  "events (update_exec_row e f w) = events w"
  "event_seq (update_exec_row e f w) = event_seq w"
  "subscriptions (update_exec_row e f w) = subscriptions w"
  "usage_messages (update_exec_row e f w) = usage_messages w"
  "alerts (update_exec_row e f w) = alerts w"
  "usage_monthly (update_exec_row e f w) = usage_monthly w"
  "redis (update_exec_row e f w) = redis w"
  "queue (update_exec_row e f w) = queue w"
  "sent (update_exec_row e f w) = sent w"
  by (simp_all add: update_exec_row_def)

lemma insert_outbox_frame [simp, frame_simps]:
  "cues (insert_outbox e c t p s now w) = cues w"
  "executions (insert_outbox e c t p s now w) = executions w"
  "workers (insert_outbox e c t p s now w) = workers w"
  "users (insert_outbox e c t p s now w) = users w"
  "agents (insert_outbox e c t p s now w) = agents w"
  "live_sessions (insert_outbox e c t p s now w) = live_sessions w"
  "messages (insert_outbox e c t p s now w) = messages w"
  "events (insert_outbox e c t p s now w) = events w"
  "event_seq (insert_outbox e c t p s now w) = event_seq w"
  "subscriptions (insert_outbox e c t p s now w) = subscriptions w"
  "usage_messages (insert_outbox e c t p s now w) = usage_messages w"
  "alerts (insert_outbox e c t p s now w) = alerts w"
  "redis (insert_outbox e c t p s now w) = redis w"
  "queue (insert_outbox e c t p s now w) = queue w"
  "sent (insert_outbox e c t p s now w) = sent w"
  by (simp_all add: insert_outbox_def)

lemma get_exec_row_cong: "executions w' = executions w \<Longrightarrow> get_exec_row w' e = get_exec_row w e"
  by (simp add: get_exec_row_def)

lemma get_cue_row_cong: "cues w' = cues w \<Longrightarrow> get_cue_row w' c = get_cue_row w c"
  by (simp add: get_cue_row_def)

lemma get_exec_row_frame [simp]:
  "get_exec_row (update_cue_row c f w) e = get_exec_row w e"
  "get_exec_row (insert_outbox x c' t p s now w) e = get_exec_row w e"
  by (simp_all add: get_exec_row_def)

lemma get_cue_row_frame [simp]:
  "get_cue_row (update_exec_row e f w) c = get_cue_row w c"
  "get_cue_row (insert_outbox x c' t p s now w) c = get_cue_row w c"
  by (simp_all add: get_cue_row_def)

lemma get_exec_row_update:
  assumes "\<And>r. ex_id (f r) = ex_id r"
  shows "get_exec_row (update_exec_row e f w) e' =
    (if e' = e then map_option f (get_exec_row w e) else get_exec_row w e')"
  using assms unfolding get_exec_row_def update_exec_row_def
  by (auto simp: find_update_where_same intro!: find_update_where_other)

lemma get_cue_row_update:
  assumes "\<And>r. cue_id (f r) = cue_id r"
  shows "get_cue_row (update_cue_row c f w) c' =
    (if c' = c then map_option f (get_cue_row w c) else get_cue_row w c')"
  using assms unfolding get_cue_row_def update_cue_row_def
  by (auto simp: find_update_where_same intro!: find_update_where_other)

lemma get_exec_row_SomeD:
  "get_exec_row w e = Some r \<Longrightarrow> r \<in> set (executions w) \<and> ex_id r = e"
  unfolding get_exec_row_def by (drule find_SomeD) auto

lemma get_cue_row_SomeD:
  "get_cue_row w c = Some r \<Longrightarrow> r \<in> set (cues w) \<and> cue_id r = c"
  unfolding get_cue_row_def by (drule find_SomeD) auto

subsection \<open>The unique constraints of the execution table\<close>

text \<open>
  The primary key, and the constraint \<open>idx_executions_dedup\<close> on
  (\<open>cue_id\<close>, \<open>scheduled_for\<close>): one execution per cue and firing time.
\<close>

definition exec_slot :: "execution \<Rightarrow> string \<times> time" where
  "exec_slot e = (ex_cue_id e, ex_scheduled_for e)"

definition exec_keys_ok :: "world \<Rightarrow> bool" where
  "exec_keys_ok w \<longleftrightarrow> distinct (map ex_id (executions w)) \<and> distinct (map exec_slot (executions w))"

lemma exec_slot_update [simp]:
  "exec_slot (new_execution i c s t m now) = (c, s)"
  by (simp add: exec_slot_def new_execution_def)

lemma new_execution_sel [simp]:
  "ex_id (new_execution i c s t m now) = i"
  "ex_cue_id (new_execution i c s t m now) = c"
  "ex_scheduled_for (new_execution i c s t m now) = s"
  "ex_status (new_execution i c s t m now) = Pending"
  "ex_attempts (new_execution i c s t m now) = 0"
  "ex_triggered_by (new_execution i c s t m now) = t"
  "ex_outcome_recorded_at (new_execution i c s t m now) = None"
  "ex_live_claimed_at (new_execution i c s t m now) = None"
  "ex_claimed_by_worker (new_execution i c s t m now) = None"
  by (simp_all add: new_execution_def)

subsection \<open>Contract of an assignment to execution rows\<close>

text \<open>
  Every UPDATE the source runs on executions leaves the primary key and the slot of the
  deduplication constraint alone; that is what keeps both constraints true.
\<close>

locale exec_update = keyed_update ex_id upd for upd :: "execution \<Rightarrow> execution" +
  assumes upd_slot: "exec_slot (upd r) = exec_slot r"
begin

lemma keys_ok_where:
  "exec_keys_ok (w\<lparr>executions := update_where p upd (executions w)\<rparr>) \<longleftrightarrow> exec_keys_ok w"
  by (simp add: exec_keys_ok_def map_update_where upd_key upd_slot)

lemma keys_ok_row: "exec_keys_ok (update_exec_row e upd w) \<longleftrightarrow> exec_keys_ok w"
  by (simp add: exec_keys_ok_def update_exec_row_def map_update_where upd_key upd_slot)

lemma get_row:
  "get_exec_row (update_exec_row e upd w) e' =
   (if e' = e then map_option upd (get_exec_row w e) else get_exec_row w e')"
  by (rule get_exec_row_update) (rule upd_key)

lemma get_where:
  "get_exec_row (w\<lparr>executions := update_where (\<lambda>r. ex_id r = e \<and> q r) upd (executions w)\<rparr>) e' =
   (if e' = e then map_option (\<lambda>r. if q r then upd r else r) (get_exec_row w e)
    else get_exec_row w e')"
  by (simp add: get_exec_row_def lookup_guarded lookup_other)

end

lemma exec_keys_ok_frame: "executions w' = executions w \<Longrightarrow> exec_keys_ok w' \<longleftrightarrow> exec_keys_ok w"
  by (simp add: exec_keys_ok_def)

lemma exec_keys_ok_cue_row [simp]: "exec_keys_ok (update_cue_row c f w) \<longleftrightarrow> exec_keys_ok w"
  by (rule exec_keys_ok_frame) simp

lemma exec_keys_ok_outbox [simp]: "exec_keys_ok (insert_outbox e c t p s now w) \<longleftrightarrow> exec_keys_ok w"
  by (rule exec_keys_ok_frame) simp

lemma get_exec_row_mem:
  "exec_keys_ok w \<Longrightarrow> r \<in> set (executions w) \<Longrightarrow> get_exec_row w (ex_id r) = Some r"
  unfolding exec_keys_ok_def get_exec_row_def by (rule find_key_distinct) auto

text \<open>INSERT of an execution: both constraints are checked.\<close>

definition insert_execution :: "execution \<Rightarrow> world \<Rightarrow> py_error + world" where
  "insert_execution x w =
     (if ex_id x \<in> set (map ex_id (executions w)) \<or> exec_slot x \<in> set (map exec_slot (executions w))
      then Inl IntegrityError
      else Inr (w\<lparr>executions := executions w @ [x]\<rparr>))"

lemma insert_execution_keys:
  "insert_execution x w = Inr w' \<Longrightarrow> exec_keys_ok w \<Longrightarrow> exec_keys_ok w'"
  by (auto simp: insert_execution_def exec_keys_ok_def split: if_splits)

lemma insert_execution_get:
  assumes "insert_execution x w = Inr w'"
  shows "get_exec_row w' e = (if e = ex_id x then Some x else get_exec_row w e)"
proof -
  from assms have "executions w' = executions w @ [x]" and "ex_id x \<notin> ex_id ` set (executions w)"
    by (auto simp: insert_execution_def split: if_splits)
  moreover from this(2) have "find (\<lambda>r. ex_id r = ex_id x) (executions w) = None"
    by (simp add: find_None_iff image_iff) metis
  ultimately show ?thesis by (auto simp: get_exec_row_def find_append split: option.split)
qed

lemma insert_execution_frame:
  "insert_execution x w = Inr w' \<Longrightarrow> executions w' = executions w @ [x] \<and> cues w' = cues w \<and> outbox w' = outbox w
     \<and> users w' = users w \<and> workers w' = workers w"
  by (auto simp: insert_execution_def split: if_splits)

text \<open>A simultaneous assignment that keeps ids and slots.\<close>

lemma exec_batch_keys:
  assumes "executions w' = map f (executions w)"
    and "\<And>r. ex_id (f r) = ex_id r" and "\<And>r. exec_slot (f r) = exec_slot r"
  shows "exec_keys_ok w' \<longleftrightarrow> exec_keys_ok w"
  using assms by (simp add: exec_keys_ok_def o_def)

lemma exec_batch_row:
  assumes "executions w' = map f (executions w)"
    and "\<And>r. ex_id (f r) = ex_id r" and "\<And>r. exec_slot (f r) = exec_slot r"
    and "exec_keys_ok w" and "r \<in> set (executions w)"
  shows "get_exec_row w' (ex_id r) = Some (f r)"
proof -
  have "exec_keys_ok w'" using exec_batch_keys [OF assms(1-3)] assms(4) by simp
  from get_exec_row_mem [OF this, of "f r"] show ?thesis using assms by simp
qed

subsection \<open>Example rows\<close>

text \<open>A recurring webhook cue and its worker variant, from which the concrete examples are built.\<close>

definition example_cue :: cue where
  "example_cue = \<lparr>cue_id = ''cue_1'', cue_user_id = 7, cue_name = ''n'', cue_description = None,
     cue_status = CueActive, cue_schedule_type = Recurring, cue_schedule_cron = Some ''* * * * *'',
     cue_schedule_at = None, cue_schedule_timezone = ''UTC'', cue_callback_url = Some ''https://h/'',
     cue_callback_method = ''POST'', cue_callback_transport = Webhook, cue_callback_headers = [],
     cue_payload = JObj [], cue_retry_max_attempts = 3, cue_retry_backoff_minutes = [1, 5, 15],
     cue_next_run = Some 100, cue_last_run = None, cue_run_count = 0, cue_fired_count = 0,
     cue_on_failure = None, cue_verification_mode = None, cue_created_at = 0, cue_updated_at = 0\<rparr>"

definition worker_cue :: cue where
  "worker_cue = example_cue\<lparr>cue_callback_transport := WorkerPull, cue_callback_url := None\<rparr>"

subsection \<open>Preorders on worlds\<close>

text \<open>
  A relation that says what an operation leaves alone is a preorder on worlds; one that a loop body
  respects is respected by the loop.
\<close>

locale world_preorder =
  fixes R :: "world \<Rightarrow> world \<Rightarrow> bool"
  assumes same: "R w w"
    and chain: "R u v \<Longrightarrow> R v w \<Longrightarrow> R u w"
begin

lemma if_frame: "R w x \<Longrightarrow> R w y \<Longrightarrow> R w (if b then x else y)"
  by simp

lemma fold_frame: "(\<And>x s. R s (f x s)) \<Longrightarrow> R s (fold f xs s)"
  by (induction xs arbitrary: s) (auto intro: same chain)

lemma fold_pair_frame: "(\<And>x n s. R s (snd (f x (n, s)))) \<Longrightarrow> R s (snd (fold f xs (n, s)))"
proof (induction xs arbitrary: n s)
  case (Cons x xs)
  from chain [OF Cons.prems [of s x n] Cons.IH [OF Cons.prems, of _ "fst (f x (n, s))"]] show ?case by simp
qed (simp add: same)

lemma run_frame: "(\<And>v v'. S v v' \<Longrightarrow> R v v') \<Longrightarrow> S\<^sup>*\<^sup>* w w' \<Longrightarrow> R w w'"
  by (rotate_tac, induction rule: rtranclp_induct) (auto intro: same chain)

end

end
