(* ===== verification/Redis.thy ===== *)
theory Redis
  imports Datamodel
begin

section \<open>The Redis commands the source issues\<close>

text \<open>
  Redis is a key-value store whose entries may expire: an entry with expiry \<open>x\<close> is there
  exactly while the clock is before \<open>x\<close>. The commands below are the documented behaviour of
  GET, SET with EX, SET with NX and EX, EXPIRE, INCR and DECR, each at the clock reading it runs at. They are what the leader lock, the
  usage counters, the grace period and the e-mail rate limits of the source stand on.

  The locale \<open>expiring_store\<close> is the contract those components rely on; it is interpreted on
  the operations below at the end of the theory.
\<close>

definition live :: "time \<Rightarrow> (redis_val \<times> time option) option \<Rightarrow> bool" where
  "live now e = (case e of None \<Rightarrow> False | Some (_, None) \<Rightarrow> True | Some (_, Some x) \<Rightarrow> now < x)"

definition redis_get :: "redis_store \<Rightarrow> time \<Rightarrow> redis_key \<Rightarrow> redis_val option" where
  "redis_get r now k = (if live now (r k) then map_option fst (r k) else None)"

definition redis_set_ex :: "redis_key \<Rightarrow> redis_val \<Rightarrow> int \<Rightarrow> time \<Rightarrow> redis_store \<Rightarrow> redis_store" where
  "redis_set_ex k v ttl now r = r(k := Some (v, Some (now + seconds ttl)))"

text \<open>SET with NX and EX: the returned flag says whether the key was set.\<close>

definition redis_set_nx :: "redis_key \<Rightarrow> redis_val \<Rightarrow> int \<Rightarrow> time \<Rightarrow> redis_store \<Rightarrow> bool \<times> redis_store" where
  "redis_set_nx k v ttl now r =
     (if live now (r k) then (False, r) else (True, redis_set_ex k v ttl now r))"

definition redis_expire :: "redis_key \<Rightarrow> int \<Rightarrow> time \<Rightarrow> redis_store \<Rightarrow> redis_store" where
  "redis_expire k ttl now r =
     (case r k of
        Some (v, _) \<Rightarrow> if live now (r k) then r(k := Some (v, Some (now + seconds ttl))) else r
      | None \<Rightarrow> r)"

text \<open>
  INCR and DECR: an absent key counts as 0 and gets no expiry, an existing one keeps its
  expiry; a value that is not a number is an error.
\<close>

definition redis_add :: "int \<Rightarrow> redis_key \<Rightarrow> time \<Rightarrow> redis_store \<Rightarrow> py_error + (int \<times> redis_store)" where
  "redis_add d k now r =
     (if live now (r k) then
        (case r k of
           Some (RInt n, x) \<Rightarrow> Inr (n + d, r(k := Some (RInt (n + d), x)))
         | _ \<Rightarrow> Inl RedisError)
      else Inr (d, r(k := Some (RInt d, None))))"

abbreviation redis_incr :: "redis_key \<Rightarrow> time \<Rightarrow> redis_store \<Rightarrow> py_error + (int \<times> redis_store)" where
  "redis_incr \<equiv> redis_add 1"

abbreviation redis_decr :: "redis_key \<Rightarrow> time \<Rightarrow> redis_store \<Rightarrow> py_error + (int \<times> redis_store)" where
  "redis_decr \<equiv> redis_add (- 1)"

lemma live_None [simp]: "\<not> live now None"
  by (simp add: live_def)

lemma live_Some_None [simp]: "live now (Some (v, None))"
  by (simp add: live_def)

lemma live_Some_Some [simp]: "live now (Some (v, Some x)) \<longleftrightarrow> now < x"
  by (simp add: live_def)

lemma redis_get_None_iff: "redis_get r now k = None \<longleftrightarrow> \<not> live now (r k)"
  by (cases "r k") (auto simp: redis_get_def)

lemma live_earlier: "live t e \<Longrightarrow> s \<le> t \<Longrightarrow> live s e"
  by (auto simp: live_def split: option.splits prod.splits)

subsection \<open>The contract of an expiring store\<close>

locale expiring_store =
  fixes get :: "'s \<Rightarrow> time \<Rightarrow> 'k \<Rightarrow> 'v option"
    and set_ex :: "'k \<Rightarrow> 'v \<Rightarrow> int \<Rightarrow> time \<Rightarrow> 's \<Rightarrow> 's"
    and set_nx :: "'k \<Rightarrow> 'v \<Rightarrow> int \<Rightarrow> time \<Rightarrow> 's \<Rightarrow> bool \<times> 's"
  assumes get_set: "get (set_ex k v ttl now r) t k = (if t < now + seconds ttl then Some v else None)"
    and get_set_other: "k' \<noteq> k \<Longrightarrow> get (set_ex k v ttl now r) t k' = get r t k'"
    and set_nx: "set_nx k v ttl now r =
      (if get r now k = None then (True, set_ex k v ttl now r) else (False, r))"
begin

text \<open>A key that has just been set with a positive lifetime is there.\<close>

lemma get_after_set: "0 < ttl \<Longrightarrow> get (set_ex k v ttl now r) now k = Some v"
  by (simp add: get_set)

lemma set_nx_wins: "set_nx k v ttl now r = (True, r') \<Longrightarrow> 0 < ttl \<Longrightarrow> get r' now k = Some v"
  by (auto simp: set_nx get_set split: if_splits)

lemma set_nx_loses: "set_nx k v ttl now r = (False, r') \<Longrightarrow> r' = r \<and> get r now k \<noteq> None"
  by (auto simp: set_nx split: if_splits)

text \<open>Of two SET NX on one key within the lifetime of the first, the second loses.\<close>

lemma set_nx_exclusive:
  assumes "set_nx k v ttl now r = (True, r')" and "t < now + seconds ttl"
  shows "set_nx k v' ttl' t r' = (False, r')"
proof -
  from assms(1) have "r' = set_ex k v ttl now r"
    by (auto simp: set_nx split: if_splits)
  with assms(2) have "get r' t k = Some v" by (simp add: get_set)
  then show ?thesis by (simp add: set_nx)
qed

end

interpretation rs: expiring_store redis_get redis_set_ex redis_set_nx
proof (unfold_locales, goal_cases)
  case (1 k v ttl now r t)
  show ?case by (simp add: redis_get_def redis_set_ex_def)
next
  case (2 k' k v ttl now r t)
  then show ?case by (simp add: redis_get_def redis_set_ex_def)
next
  case (3 k v ttl now r)
  show ?case by (simp add: redis_set_nx_def redis_get_None_iff)
qed

end
