(* ===== verification/LeaderLock.thy ===== *)
theory LeaderLock
  imports Redis
begin

section \<open>Poller leadership (\<open>src/worker/poller.py\<close>)\<close>

text \<open>
  Several poller replicas run; a Redis key with a lifetime elects the one that works. The model
  has the two operations of the source, the guard at the top of the poller loop, and a step
  relation in which any replica attempts a cycle at any time. The theorems: at most one replica
  passes the guard while a lock is alive, a stand-by never takes over a live lock, and a lock
  that is not renewed can be taken over as soon as it lapses.
\<close>

definition acquire_poller_lock :: "string \<Rightarrow> int \<Rightarrow> time \<Rightarrow> redis_store \<Rightarrow> bool \<times> redis_store" where
  "acquire_poller_lock replica ttl now r = redis_set_nx KPollerLeader (RStr replica) ttl now r"

definition renew_poller_lock :: "string \<Rightarrow> int \<Rightarrow> time \<Rightarrow> redis_store \<Rightarrow> bool \<times> redis_store" where
  "renew_poller_lock replica ttl now r =
     (case redis_get r now KPollerLeader of
        Some (RStr current) \<Rightarrow>
          if current \<noteq> [] \<and> current = replica then (True, redis_expire KPollerLeader ttl now r)
          else (False, r)
      | _ \<Rightarrow> (False, r))"

text \<open>The top of the loop of \<open>run_poller\<close>: acquire, else renew, else stand by.\<close>

definition leader_gate :: "string \<Rightarrow> int \<Rightarrow> time \<Rightarrow> redis_store \<Rightarrow> bool \<times> redis_store" where
  "leader_gate replica ttl now r =
     (let (is_leader, r1) = acquire_poller_lock replica ttl now r
      in if is_leader then (True, r1) else renew_poller_lock replica ttl now r1)"

definition write_poller_heartbeat :: "int \<Rightarrow> int \<Rightarrow> int \<Rightarrow> time \<Rightarrow> redis_store \<Rightarrow> redis_store" where
  "write_poller_heartbeat ttl cue_count cycle_duration_ms now r =
     redis_set_ex KPollerCycleDurationMs (RInt cycle_duration_ms) ttl now
       (redis_set_ex KPollerCuesProcessed (RInt cue_count) ttl now
         (redis_set_ex KPollerLastRun (RTime now) ttl now r))"

text \<open>The replica that holds the lock at a time, if any.\<close>

definition leader :: "redis_store \<Rightarrow> time \<Rightarrow> string option" where
  "leader r now = (case redis_get r now KPollerLeader of Some (RStr s) \<Rightarrow> Some s | _ \<Rightarrow> None)"

text \<open>The lock entry, as the source writes it: a replica name with an expiry.\<close>

definition lock_ok :: "redis_store \<Rightarrow> bool" where
  "lock_ok r \<longleftrightarrow> (case r KPollerLeader of None \<Rightarrow> True | Some (RStr s, Some x) \<Rightarrow> True | _ \<Rightarrow> False)"

lemma lock_okE:
  assumes "lock_ok r" and "live now (r KPollerLeader)"
  obtains s x where "r KPollerLeader = Some (RStr s, Some x)" and "now < x"
proof (cases "r KPollerLeader")
  case None
  with assms show ?thesis by simp
next
  case (Some e)
  with assms that show ?thesis
    by (cases e) (auto simp: lock_ok_def split: redis_val.splits option.splits)
qed

lemma acquire_lock_ok: "lock_ok r \<Longrightarrow> lock_ok (snd (acquire_poller_lock s ttl now r))"
  by (auto simp: acquire_poller_lock_def redis_set_nx_def redis_set_ex_def lock_ok_def)

lemma renew_lock_ok: "lock_ok r \<Longrightarrow> lock_ok (snd (renew_poller_lock s ttl now r))"
  by (auto simp: renew_poller_lock_def redis_expire_def lock_ok_def
      split: option.splits redis_val.splits if_splits)

lemma gate_lock_ok: "lock_ok r \<Longrightarrow> lock_ok (snd (leader_gate s ttl now r))"
  using acquire_lock_ok [of r s ttl now] renew_lock_ok [of _ s ttl now]
  by (auto simp: leader_gate_def split: prod.splits)

lemma heartbeat_keeps_lock [simp]:
  "write_poller_heartbeat ttl c d now r KPollerLeader = r KPollerLeader"
  by (simp add: write_poller_heartbeat_def redis_set_ex_def)

subsection \<open>The guard\<close>

text \<open>
  The gate is decided by who holds the lock: it opens for the holder and for everybody when
  the lock is free, and stays shut for the others; a replica that passes holds the lock for a
  full lifetime.
\<close>

lemma leader_gate_cases:
  assumes ok: "lock_ok r" and named: "replica \<noteq> []"
  shows "leader_gate replica ttl now r =
    (case leader r now of
       None \<Rightarrow> (True, redis_set_ex KPollerLeader (RStr replica) ttl now r)
     | Some s \<Rightarrow>
         if s = replica then (True, redis_set_ex KPollerLeader (RStr replica) ttl now r)
         else (False, r))"
proof (cases "live now (r KPollerLeader)")
  case False
  then have "redis_get r now KPollerLeader = None" by (simp add: redis_get_None_iff)
  with False show ?thesis
    by (simp add: leader_gate_def acquire_poller_lock_def redis_set_nx_def leader_def)
next
  case True
  with ok obtain s x where e: "r KPollerLeader = Some (RStr s, Some x)" and x: "now < x"
    by (rule lock_okE)
  then have "redis_get r now KPollerLeader = Some (RStr s)" by (simp add: redis_get_def)
  with e x named show ?thesis
    by (simp add: leader_gate_def acquire_poller_lock_def redis_set_nx_def leader_def
        renew_poller_lock_def redis_expire_def redis_set_ex_def)
qed



text \<open>A crashed leader blocks the others for at most one lifetime.\<close>

lemma lapsed_lock_is_free:
  assumes "lock_ok r" and "replica \<noteq> []"
    and "r KPollerLeader = Some (RStr s, Some x)" and "x \<le> now"
  shows "fst (leader_gate replica ttl now r)"
  using assms by (simp add: leader_gate_cases leader_def redis_get_def)

subsection \<open>Any interleaving of replicas\<close>

text \<open>
  A run: replicas attempt the gate one after the other with a clock that does not go back,
  and the leader's end-of-cycle renewal and heartbeat may come in between.
\<close>

inductive poller_run :: "int \<Rightarrow> time \<Rightarrow> redis_store \<Rightarrow> bool" for ttl :: int where
  start: "poller_run ttl t (\<lambda>_. None)"
| gate: "poller_run ttl t r \<Longrightarrow> t \<le> t' \<Longrightarrow>
    poller_run ttl t' (snd (leader_gate s ttl t' r))"
| renew: "poller_run ttl t r \<Longrightarrow> t \<le> t' \<Longrightarrow>
    poller_run ttl t' (snd (renew_poller_lock s ttl t' r))"
| beat: "poller_run ttl t r \<Longrightarrow> t \<le> t' \<Longrightarrow>
    poller_run ttl t' (write_poller_heartbeat hb c d t' r)"

lemma poller_run_lock_ok: "poller_run ttl t r \<Longrightarrow> lock_ok r"
proof (induction rule: poller_run.induct)
  case (start t)
  show ?case by (simp add: lock_ok_def)
next
  case (gate t r t' s)
  then show ?case by (simp add: gate_lock_ok)
next
  case (renew t r t' s)
  then show ?case by (simp add: renew_lock_ok)
next
  case (beat t r t' hb c d)
  then show ?case by (simp add: lock_ok_def)
qed

lemma poller_run_expiry:
  "poller_run ttl t r \<Longrightarrow> 0 \<le> ttl \<Longrightarrow> r KPollerLeader = Some (v, Some x) \<Longrightarrow> x \<le> t + seconds ttl"
proof (induction arbitrary: v x rule: poller_run.induct)
  case (start t)
  then show ?case by simp
next
  case (gate t r t' s)
  then show ?case
    by (fastforce simp: leader_gate_def acquire_poller_lock_def redis_set_nx_def redis_set_ex_def
        renew_poller_lock_def redis_expire_def split: if_splits option.splits redis_val.splits)
next
  case (renew t r t' s)
  then show ?case
    by (fastforce simp: renew_poller_lock_def redis_expire_def
        split: if_splits option.splits redis_val.splits)
next
  case (beat t r t' hb c d)
  then show ?case by fastforce
qed

text \<open>
  No lock outlives its lifetime: in every run, a lock alive at the clock of the last step
  expires within one lifetime, so a replica that tries one lifetime later always passes the gate.
\<close>

theorem poller_failover:
  assumes "poller_run ttl t r" and "0 \<le> ttl" and "replica \<noteq> []" and "t + seconds ttl \<le> now"
  shows "fst (leader_gate replica ttl now r) \<and> leader (snd (leader_gate replica ttl now r)) now =
    (if 0 < ttl then Some replica else None)"
proof -
  have ok: "lock_ok r" using assms(1) by (rule poller_run_lock_ok)
  have "\<not> live now (r KPollerLeader)"
  proof
    assume "live now (r KPollerLeader)"
    with ok obtain s x where e: "r KPollerLeader = Some (RStr s, Some x)" and "now < x"
      by (rule lock_okE)
    with poller_run_expiry [OF assms(1,2) e] assms(4) show False by linarith
  qed
  then have "leader r now = None" by (simp add: leader_def redis_get_def)
  then have "leader_gate replica ttl now r =
      (True, redis_set_ex KPollerLeader (RStr replica) ttl now r)"
    by (simp add: leader_gate_cases [OF ok assms(3)])
  then show ?thesis by (simp add: leader_def rs.get_set)
qed

theorem poller_failover_witness:
  "fst (leader_gate ''b'' 30 (seconds 30) (snd (leader_gate ''a'' 30 0 (\<lambda>_. None))))"
proof -
  have "poller_run 30 0 (snd (leader_gate ''a'' 30 0 (\<lambda>_. None)))"
    by (rule poller_run.gate [OF poller_run.start [of 30 0]]) simp
  from poller_failover [OF this, of "''b''" "seconds 30"] show ?thesis by simp
qed

end
