(* ===== verification/PyText.thy ===== *)
theory PyText
  imports Prelude
begin

section \<open>Python text: decimal numbers, whitespace, case, UTF-8 length, ISO timestamps\<close>

text \<open>
  What the source uses of \<open>str\<close>, \<open>int\<close> and \<open>datetime.isoformat\<close>. A \<open>string\<close> is a list of
  8-bit characters, read as the code points 0 to 255.
\<close>

abbreviation code_of :: "char \<Rightarrow> nat" where
  "code_of c \<equiv> of_char c"

subsection \<open>Digits and printed numbers\<close>

definition is_digit :: "char \<Rightarrow> bool" where
  "is_digit c \<longleftrightarrow> 48 \<le> code_of c \<and> code_of c \<le> 57"

definition digit_val :: "char \<Rightarrow> int" where
  "digit_val c = int (code_of c) - 48"

definition digit_char :: "nat \<Rightarrow> char" where
  "digit_char d = char_of (d + 48)"

fun nat_str :: "nat \<Rightarrow> string" where
  "nat_str n = (if n < 10 then [digit_char n] else nat_str (n div 10) @ [digit_char (n mod 10)])"

declare nat_str.simps [simp del]

text \<open>\<open>str(n)\<close> of a Python integer.\<close>

definition int_str :: "int \<Rightarrow> string" where
  "int_str n = (if n < 0 then CHR ''-'' # nat_str (nat (- n)) else nat_str (nat n))"

lemma digit_char_facts:
  assumes "d < 10"
  shows "is_digit (digit_char d)" "digit_val (digit_char d) = int d"
  using assms by (simp_all add: is_digit_def digit_val_def digit_char_def)

lemma nat_str_digits: "list_all is_digit (nat_str n)"
  by (induction n rule: nat_str.induct) (subst nat_str.simps, simp add: digit_char_facts)

lemma nat_str_nonempty [simp]: "nat_str n \<noteq> []"
  by (subst nat_str.simps) simp

lemma nat_str_value: "foldl (\<lambda>a c. 10 * a + digit_val c) 0 (nat_str n) = int n"
proof (induction n rule: nat_str.induct)
  case (1 n)
  show ?case
  proof (cases "n < 10")
    case True
    then show ?thesis by (subst nat_str.simps) (simp add: digit_char_facts)
  next
    case False
    with 1 have "foldl (\<lambda>a c. 10 * a + digit_val c) 0 (nat_str (n div 10)) = int (n div 10)"
      by simp
    then have "foldl (\<lambda>a c. 10 * a + digit_val c) 0 (nat_str n) =
        10 * int (n div 10) + int (n mod 10)"
      using False by (subst nat_str.simps) (simp add: digit_char_facts)
    also have "\<dots> = int (10 * (n div 10) + n mod 10)"
      by (simp only: of_nat_add of_nat_mult of_nat_numeral)
    also have "\<dots> = int n" by (simp only: mult_div_mod_eq)
    finally show ?thesis .
  qed
qed

subsection \<open>Whitespace\<close>

definition is_space :: "char \<Rightarrow> bool" where
  "is_space c \<longleftrightarrow> (let n = code_of c in (9 \<le> n \<and> n \<le> 13) \<or> (28 \<le> n \<and> n \<le> 32) \<or> n = 133 \<or> n = 160)"

definition strip :: "string \<Rightarrow> string" where
  "strip s = rev (dropWhile is_space (rev (dropWhile is_space s)))"

lemma digit_not_space: "is_digit c \<Longrightarrow> \<not> is_space c"
  by (auto simp: is_digit_def is_space_def Let_def)

lemma strip_no_space:
  assumes "s \<noteq> []" and "\<not> is_space (hd s)" and "\<not> is_space (last s)"
  shows "strip s = s"
proof -
  have "dropWhile is_space s = s" using assms(1,2) by (cases s) auto
  moreover have "dropWhile is_space (rev s) = rev s"
    using assms(1,3) by (cases s rule: rev_cases) auto
  ultimately show ?thesis by (simp add: strip_def)
qed

subsection \<open>Parsing numbers\<close>

text \<open>
  \<open>int(s)\<close>: surrounding whitespace is dropped, a sign may follow, then decimal digits with
  single underscores between digits; \<open>None\<close> is the ValueError.
\<close>

fun digits_val :: "int \<Rightarrow> string \<Rightarrow> int option" where
  "digits_val acc [] = Some acc"
| "digits_val acc (c # cs) =
     (if is_digit c then digits_val (10 * acc + digit_val c) cs
      else if c = CHR ''_'' then
        (case cs of [] \<Rightarrow> None
         | d # ds \<Rightarrow> if is_digit d then digits_val (10 * acc + digit_val d) ds else None)
      else None)"

definition unsigned_val :: "string \<Rightarrow> int option" where
  "unsigned_val s = (case s of [] \<Rightarrow> None | c # _ \<Rightarrow> if is_digit c then digits_val 0 s else None)"

definition py_int :: "string \<Rightarrow> int option" where
  "py_int s =
     (case strip s of
        [] \<Rightarrow> None
      | c # cs \<Rightarrow>
          if c = CHR ''-'' then map_option uminus (unsigned_val cs)
          else if c = CHR ''+'' then unsigned_val cs
          else unsigned_val (c # cs))"

lemma digits_val_all_digits:
  "list_all is_digit s \<Longrightarrow> digits_val acc s = Some (foldl (\<lambda>a c. 10 * a + digit_val c) acc s)"
  by (induction s arbitrary: acc) auto

lemma unsigned_val_nat_str: "unsigned_val (nat_str n) = Some (int n)"
proof -
  obtain c cs where s: "nat_str n = c # cs" by (metis nat_str_nonempty neq_Nil_conv)
  moreover have "list_all is_digit (nat_str n)" by (rule nat_str_digits)
  ultimately show ?thesis
    using nat_str_value [of n] digits_val_all_digits [of "nat_str n" 0]
    by (simp add: unsigned_val_def)
qed

lemma nat_str_last_digit: "is_digit (last (nat_str n))"
  using nat_str_digits [of n] nat_str_nonempty [of n] by (simp add: list_all_iff)

lemma nat_str_hd_digit: "is_digit (hd (nat_str n))"
  using nat_str_digits [of n] nat_str_nonempty [of n] by (simp add: list_all_iff)

lemma py_int_int_str: "py_int (int_str n) = Some n"
proof (cases "n < 0")
  case True
  have "strip (CHR ''-'' # nat_str (nat (- n))) = CHR ''-'' # nat_str (nat (- n))"
    by (rule strip_no_space)
      (simp_all add: digit_not_space nat_str_last_digit, simp add: is_space_def)
  with True show ?thesis
    by (simp add: py_int_def int_str_def unsigned_val_nat_str)
next
  case False
  have st: "strip (nat_str (nat n)) = nat_str (nat n)"
    by (rule strip_no_space)
      (auto simp: digit_not_space nat_str_last_digit nat_str_hd_digit)
  obtain c cs where s: "nat_str (nat n) = c # cs" by (metis nat_str_nonempty neq_Nil_conv)
  have "is_digit c" using nat_str_hd_digit [of "nat n"] s by simp
  then have "c \<noteq> CHR ''-''" and "c \<noteq> CHR ''+''" by (auto simp: is_digit_def)
  with False s st show ?thesis
    using unsigned_val_nat_str [of "nat n"] by (simp add: py_int_def int_str_def)
qed

subsection \<open>Case, prefixes, UTF-8 length\<close>

text \<open>
  \<open>str.lower()\<close> and \<open>str.upper()\<close> on the letters of the ASCII range, which is what the source
  compares the results with.
\<close>

definition lower_char :: "char \<Rightarrow> char" where
  "lower_char c = (if 65 \<le> code_of c \<and> code_of c \<le> 90 then char_of (code_of c + 32) else c)"

definition upper_char :: "char \<Rightarrow> char" where
  "upper_char c = (if 97 \<le> code_of c \<and> code_of c \<le> 122 then char_of (code_of c - 32) else c)"

definition lower :: "string \<Rightarrow> string" where
  "lower s = map lower_char s"

definition upper :: "string \<Rightarrow> string" where
  "upper s = map upper_char s"

definition starts_with :: "string \<Rightarrow> string \<Rightarrow> bool" where
  "starts_with p s \<longleftrightarrow> take (length p) s = p"

text \<open>\<open>len(s.encode("utf-8"))\<close>: code points below 128 take one byte, the others here two.\<close>

definition utf8_len :: "string \<Rightarrow> nat" where
  "utf8_len s = sum_list (map (\<lambda>c. if code_of c < 128 then 1 else 2) s)"

lemma utf8_len_bounds: "length s \<le> utf8_len s \<and> utf8_len s \<le> 2 * length s"
  by (induction s) (auto simp: utf8_len_def)

text \<open>\<open>s.split(sep)\<close> for a one-character separator: always at least one piece.\<close>

fun split_on :: "char \<Rightarrow> string \<Rightarrow> string list" where
  "split_on sep [] = [[]]"
| "split_on sep (c # cs) =
     (if c = sep then [] # split_on sep cs
      else (case split_on sep cs of p # ps \<Rightarrow> (c # p) # ps | [] \<Rightarrow> [[c]]))"

lemma split_on_nonempty [simp]: "split_on sep s \<noteq> []"
  by (induction s) (auto split: list.split)

lemma split_on_no_sep: "p \<in> set (split_on sep s) \<Longrightarrow> sep \<notin> set p"
  by (induction s arbitrary: p) (auto split: list.splits if_splits)

subsection \<open>ISO timestamps\<close>

text \<open>
  The calendar date of a day number (days since 1970-01-01) in the proleptic Gregorian
  calendar, counted in eras of 400 years that start on the first of March.
\<close>

definition civil_date :: "int \<Rightarrow> int \<times> int \<times> int" where
  "civil_date day =
     (let z = day + 719468; era = z div 146097; doe = z mod 146097;
          yoe = (doe - doe div 1460 + doe div 36524 - doe div 146096) div 365;
          doy = doe - (365 * yoe + yoe div 4 - yoe div 100);
          mp = (5 * doy + 2) div 153;
          d = doy - (153 * mp + 2) div 5 + 1;
          m = (if mp < 10 then mp + 3 else mp - 9)
      in (yoe + era * 400 + (if m \<le> 2 then 1 else 0), m, d))"

lemma civil_date_examples:
  "civil_date 0 = (1970, 1, 1)" "civil_date 59 = (1970, 3, 1)" "civil_date 19782 = (2024, 2, 29)"
  "civil_date 19783 = (2024, 3, 1)" "civil_date (- 1) = (1969, 12, 31)"
  by code_simp+

definition pad :: "nat \<Rightarrow> int \<Rightarrow> string" where
  "pad n i = (let s = int_str i in replicate (n - length s) (CHR ''0'') @ s)"

text \<open>\<open>isoformat()\<close> of an aware UTC datetime: microseconds appear only when they are not 0.\<close>

definition isoformat :: "time \<Rightarrow> string" where
  "isoformat t =
     (let (y, m, d) = civil_date (t div days 1); s = t mod days 1; us = t mod 1000000
      in pad 4 y @ ''-'' @ pad 2 m @ ''-'' @ pad 2 d @ ''T'' @ pad 2 (s div hours 1) @ '':'' @
         pad 2 (s mod hours 1 div minutes 1) @ '':'' @ pad 2 (s mod minutes 1 div seconds 1) @
         (if us = 0 then '''' else ''.'' @ pad 6 us) @ ''+00:00'')"

lemma isoformat_example: "isoformat (seconds 1709164801 + 250) = ''2024-02-29T00:00:01.000250+00:00''"
  by code_simp

end
