(* ===== verification/Usage.thy ===== *)
theory Usage
  imports Redis PyText
begin

section \<open>Monthly execution quota (\<open>src/app/services/usage_service.py\<close>)\<close>

text \<open>
  The execution counter lives twice: in Postgres (\<open>usage_monthly\<close>, the source of truth) and in
  Redis (a cache). The model has the counter read with its fallback, the increment with its
  write-through, and the limit check with its grace period. Every Redis call may fail, which is
  the argument \<open>up\<close> (Redis answers); the Postgres statement of the increment may fail, which is the
  argument \<open>pg_ok\<close>; a missing database session is \<open>session = False\<close>.
\<close>

subsection \<open>The current month\<close>

text \<open>\<open>datetime.now(timezone.utc)\<close> cut to its year and month.\<close>

definition current_month_start :: "time \<Rightarrow> int \<times> int" where
  "current_month_start now = (case civil_date (now div days 1) of (y, m, d) \<Rightarrow> (y, m))"

subsection \<open>Reading the counter\<close>

definition usage_row_of :: "world \<Rightarrow> uuid \<Rightarrow> int \<times> int \<Rightarrow> usage_row option" where
  "usage_row_of w u m = find (\<lambda>r. (us_user_id r, us_month_start r) = (u, m)) (usage_monthly w)"

text \<open>The count in Postgres; no row reads as 0.\<close>

definition pg_usage :: "world \<Rightarrow> uuid \<Rightarrow> int \<times> int \<Rightarrow> int" where
  "pg_usage w u m = (case usage_row_of w u m of None \<Rightarrow> 0 | Some r \<Rightarrow> us_execution_count r)"

definition get_monthly_usage :: "bool \<Rightarrow> bool \<Rightarrow> uuid \<Rightarrow> time \<Rightarrow> world \<Rightarrow> int \<times> world" where
  "get_monthly_usage up session u now w =
     (let m = current_month_start now; k = KUsage u m;
          cached = (if up then (case redis_get (redis w) now k of Some (RInt n) \<Rightarrow> Some n | _ \<Rightarrow> None)
                    else None)
      in case cached of
           Some n \<Rightarrow> (n, w)
         | None \<Rightarrow>
             if session then
               (let count = pg_usage w u m
                in (count, if up then w\<lparr>redis := redis_set_ex k (RInt count) 86400 now (redis w)\<rparr> else w))
             else (0, w))"

definition warm_usage_cache :: "bool \<Rightarrow> uuid \<Rightarrow> time \<Rightarrow> world \<Rightarrow> int \<times> world" where
  "warm_usage_cache up u now w =
     (let m = current_month_start now; count = pg_usage w u m
      in (count, if up then w\<lparr>redis := redis_set_ex (KUsage u m) (RInt count) 86400 now (redis w)\<rparr>
                 else w))"

subsection \<open>Incrementing it\<close>

text \<open>INSERT ... ON CONFLICT (user_id, month_start) DO UPDATE SET execution_count + 1.\<close>

definition upsert_usage :: "uuid \<Rightarrow> int \<times> int \<Rightarrow> usage_row list \<Rightarrow> usage_row list" where
  "upsert_usage u m rows =
     (if \<exists>r \<in> set rows. (us_user_id r, us_month_start r) = (u, m)
      then update_where (\<lambda>r. (us_user_id r, us_month_start r) = (u, m))
             (\<lambda>r. r\<lparr>us_execution_count := us_execution_count r + 1\<rparr>) rows
      else rows @ [\<lparr>us_user_id = u, us_month_start = m, us_execution_count = 1\<rparr>])"

definition increment_usage :: "bool \<Rightarrow> bool \<Rightarrow> uuid \<Rightarrow> time \<Rightarrow> world \<Rightarrow> world" where
  "increment_usage up pg_ok u now w =
     (let m = current_month_start now; k = KUsage u m;
          w1 = (if up then
                  (case redis_incr k now (redis w) of
                     Inl e \<Rightarrow> w
                   | Inr (_, r) \<Rightarrow> w\<lparr>redis := redis_expire k (35 * 86400) now r\<rparr>)
                else w)
      in if pg_ok then
           (let w2 = w1\<lparr>usage_monthly := upsert_usage u m (usage_monthly w1)\<rparr>
            in if up then
                 w2\<lparr>redis := redis_set_ex k (RInt (pg_usage w2 u m)) (35 * 86400) now (redis w2)\<rparr>
               else w2)
         else w1)"

subsection \<open>The limit check\<close>

record limit_check =
  allowed :: bool
  over_limit :: bool
  grace_active :: bool
  usage :: int

definition check_execution_limit ::
  "bool \<Rightarrow> bool \<Rightarrow> uuid \<Rightarrow> int \<Rightarrow> time \<Rightarrow> world \<Rightarrow> py_error + (limit_check \<times> world)" where
  "check_execution_limit up session u monthly_limit now w =
     (let (n, w1) = get_monthly_usage up session u now w
      in if n < monthly_limit then
           Inr (\<lparr>allowed = True, over_limit = False, grace_active = False, usage = n\<rparr>, w1)
         else if \<not> up then
           Inr (\<lparr>allowed = False, over_limit = True, grace_active = False, usage = n\<rparr>, w1)
         else
           (case redis_get (redis w1) now (KGrace u) of
              None \<Rightarrow>
                Inr (\<lparr>allowed = True, over_limit = True, grace_active = True, usage = n\<rparr>,
                     w1\<lparr>redis := redis_set_ex (KGrace u) (RTime now) 86400 now (redis w1)\<rparr>)
            | Some (RTime grace_dt) \<Rightarrow>
                if now - grace_dt \<le> seconds 86400 then
                  Inr (\<lparr>allowed = True, over_limit = True, grace_active = True, usage = n\<rparr>, w1)
                else
                  Inr (\<lparr>allowed = False, over_limit = True, grace_active = False, usage = n\<rparr>, w1)
            | Some _ \<Rightarrow> Inl ValueError))"

subsection \<open>Counter laws\<close>

abbreviation usage_key :: "usage_row \<Rightarrow> uuid \<times> (int \<times> int)" where
  "usage_key r \<equiv> (us_user_id r, us_month_start r)"

lemma upsert_usage_lookup:
  "find (\<lambda>r. usage_key r = k) (upsert_usage u m rows) =
   (if k = (u, m) then
      Some (case find (\<lambda>r. usage_key r = k) rows of
         None \<Rightarrow> \<lparr>us_user_id = u, us_month_start = m, us_execution_count = 1\<rparr>
       | Some r \<Rightarrow> r\<lparr>us_execution_count := us_execution_count r + 1\<rparr>)
    else find (\<lambda>r. usage_key r = k) rows)"
proof (cases "\<exists>r \<in> set rows. usage_key r = (u, m)")
  case True
  let ?f = "\<lambda>r. r\<lparr>us_execution_count := us_execution_count r + 1\<rparr>"
  have up: "upsert_usage u m rows = update_where (\<lambda>r. usage_key r = (u, m)) ?f rows"
    using True unfolding upsert_usage_def by (rule if_P)
  show ?thesis
  proof (cases "k = (u, m)")
    case same: True
    have "find (\<lambda>r. usage_key r = k) rows \<noteq> None"
      using True same by (auto simp: find_None_iff)
    then obtain r where "find (\<lambda>r. usage_key r = k) rows = Some r" by blast
    with same up show ?thesis
      using find_update_where_same [of usage_key ?f k rows] by simp
  next
    case False
    with up show ?thesis
      using find_update_where_other [of usage_key ?f "\<lambda>r. usage_key r = (u, m)" k rows] by simp
  qed
next
  case False
  then have none: "find (\<lambda>r. usage_key r = (u, m)) rows = None"
    by (auto simp: find_None_iff)
  have up: "upsert_usage u m rows =
      rows @ [\<lparr>us_user_id = u, us_month_start = m, us_execution_count = 1\<rparr>]"
    using False unfolding upsert_usage_def by (rule if_not_P)
  show ?thesis
  proof (cases "k = (u, m)")
    case True
    show ?thesis using none by (simp add: True up find_append)
  next
    case diff: False
    then show ?thesis by (auto simp: up find_append split: option.split)
  qed
qed

lemma pg_usage_upsert:
  "pg_usage (w\<lparr>usage_monthly := upsert_usage u m (usage_monthly w)\<rparr>) u' m' =
   pg_usage w u' m' + (if (u', m') = (u, m) then 1 else 0)"
  unfolding pg_usage_def usage_row_of_def
  using upsert_usage_lookup [of "(u', m')" u m "usage_monthly w"]
  by (cases "find (\<lambda>r. usage_key r = (u', m')) (usage_monthly w)") auto

lemma pg_usage_redis [simp]: "pg_usage (w\<lparr>redis := r\<rparr>) u m = pg_usage w u m"
  by (simp add: pg_usage_def usage_row_of_def)

lemma increment_usage_pg:
  "pg_usage (increment_usage up pg_ok u now w) u' m =
   pg_usage w u' m + (if pg_ok \<and> u' = u \<and> m = current_month_start now then 1 else 0)"
  by (auto simp: increment_usage_def Let_def pg_usage_upsert split: sum.splits prod.splits)

text \<open>
  The cache is coherent when a live cached number is the one in Postgres.
\<close>

definition cache_coherent :: "world \<Rightarrow> time \<Rightarrow> uuid \<Rightarrow> bool" where
  "cache_coherent w now u \<longleftrightarrow>
     (\<forall>n. redis_get (redis w) now (KUsage u (current_month_start now)) = Some (RInt n) \<longrightarrow>
          n = pg_usage w u (current_month_start now))"

lemma get_monthly_usage_coherent:
  "cache_coherent w now u \<Longrightarrow>
   fst (get_monthly_usage up True u now w) = pg_usage w u (current_month_start now)"
  by (auto simp: get_monthly_usage_def cache_coherent_def Let_def
      split: option.splits redis_val.splits if_splits)

lemma increment_usage_coherent: "cache_coherent (increment_usage True True u now w) now u"
  by (auto simp: cache_coherent_def increment_usage_def Let_def rs.get_set
      split: sum.splits prod.splits)

text \<open>
  Write-through accounting: whatever the cache held before, after an increment with both
  stores available the next read returns exactly one more than the durable count before it, so
  \<open>n\<close> deliveries in a month are counted as \<open>n\<close>.
\<close>

theorem increment_then_read:
  "fst (get_monthly_usage True True u now
      (((\<lambda>w. increment_usage True True u now w) ^^ Suc n) w)) =
   pg_usage w u (current_month_start now) + int (Suc n)"
proof -
  let ?m = "current_month_start now"
  have "pg_usage (((\<lambda>w. increment_usage True True u now w) ^^ k) w) u ?m =
      pg_usage w u ?m + int k" for k
    by (induction k) (simp_all add: increment_usage_pg)
  moreover have "cache_coherent (((\<lambda>w. increment_usage True True u now w) ^^ Suc n) w) now u"
    by (simp add: increment_usage_coherent)
  ultimately show ?thesis by (simp only: get_monthly_usage_coherent)
qed

subsection \<open>The grace period\<close>

text \<open>
  The grace entry as the check writes it: the time it was created, alive for 24 hours.
\<close>

definition grace_ok :: "redis_store \<Rightarrow> uuid \<Rightarrow> bool" where
  "grace_ok r u \<longleftrightarrow>
     (case r (KGrace u) of
        None \<Rightarrow> True
      | Some (RTime g, Some x) \<Rightarrow> x = g + seconds 86400
      | _ \<Rightarrow> False)"

lemma get_monthly_usage_grace [simp]:
  "redis (snd (get_monthly_usage up session u now w)) (KGrace u') = redis w (KGrace u')"
  by (simp add: get_monthly_usage_def Let_def redis_set_ex_def
      split: option.splits redis_val.splits)

lemma grace_ok_get:
  assumes "grace_ok r u" and "redis_get r now (KGrace u) = Some v"
  obtains g where "v = RTime g" and "now < g + seconds 86400"
proof -
  from assms(2) obtain x where e: "r (KGrace u) = Some (v, x)" and l: "live now (r (KGrace u))"
    by (auto simp: redis_get_def split: if_splits)
  with assms(1) obtain g where "v = RTime g" and "x = Some (g + seconds 86400)"
    by (cases v; cases x) (auto simp: grace_ok_def)
  with e l that show thesis by simp
qed

lemma check_execution_limit_grace_ok:
  assumes "grace_ok (redis w) u'"
    and "check_execution_limit up session u limit now w = Inr (c, w')"
  shows "grace_ok (redis w') u'"
proof -
  let ?w1 = "snd (get_monthly_usage up session u now w)"
  from assms(2) have "redis w' = redis ?w1
      \<or> redis w' = redis_set_ex (KGrace u) (RTime now) 86400 now (redis ?w1)"
    by (auto simp: check_execution_limit_def split: prod.splits if_splits option.splits redis_val.splits)
  with assms(1) show ?thesis
    by (auto simp: grace_ok_def redis_set_ex_def)
qed

text \<open>
  The hard block behind the grace period is unreachable. The entry that records the start
  of the grace period expires after the same 24 hours the check compares with, so a grace entry
  that is still readable is never older than 24 hours, and once it has expired the next check
  starts a new grace period. With Redis answering, every delivery of a user whose grace
  entry was written by this code is allowed, however far the user is over the limit; with Redis
  not answering, deliveries over the limit are blocked.
\<close>

theorem execution_limit_decision:
  assumes "grace_ok (redis w) u"
  shows "\<exists>c w'. check_execution_limit up session u limit now w = Inr (c, w')
    \<and> (allowed c \<longleftrightarrow> up \<or> fst (get_monthly_usage up session u now w) < limit)
    \<and> (over_limit c \<longleftrightarrow> limit \<le> fst (get_monthly_usage up session u now w))
    \<and> grace_ok (redis w') u"
proof -
  obtain n w1 where g: "get_monthly_usage up session u now w = (n, w1)"
    by (cases "get_monthly_usage up session u now w")
  then have "redis w1 (KGrace u) = redis w (KGrace u)"
    by (metis get_monthly_usage_grace snd_conv)
  with assms have ok1: "grace_ok (redis w1) u" by (simp add: grace_ok_def)
  have "\<exists>c w'. check_execution_limit up session u limit now w = Inr (c, w')
      \<and> (allowed c \<longleftrightarrow> up \<or> n < limit) \<and> (over_limit c \<longleftrightarrow> limit \<le> n)"
  proof (cases "redis_get (redis w1) now (KGrace u)")
    case None
    then show ?thesis by (simp add: check_execution_limit_def g)
  next
    case (Some v)
    with ok1 obtain t where "v = RTime t" and "now < t + seconds 86400"
      by (rule grace_ok_get)
    with Some show ?thesis by (simp add: check_execution_limit_def g)
  qed
  then obtain c w' where c: "check_execution_limit up session u limit now w = Inr (c, w')"
      and ac: "allowed c \<longleftrightarrow> up \<or> n < limit" and oc: "over_limit c \<longleftrightarrow> limit \<le> n" by blast
  have "grace_ok (redis w') u" using assms c by (rule check_execution_limit_grace_ok)
  with c ac oc g show ?thesis by auto
qed

theorem execution_limit_decision_witness:
  "\<exists>c w'. check_execution_limit True True 7 10 (seconds 200000)
     (empty_world\<lparr>usage_monthly := [\<lparr>us_user_id = 7, us_month_start = (1970, 1),
        us_execution_count = 1000\<rparr>]\<rparr>) = Inr (c, w') \<and> allowed c \<and> over_limit c"
proof -
  let ?w = "empty_world\<lparr>usage_monthly := [\<lparr>us_user_id = 7, us_month_start = (1970, 1),
        us_execution_count = 1000\<rparr>]\<rparr>"
  have m: "current_month_start (seconds 200000) = (1970, 1)"
    by code_simp
  have ok: "grace_ok (redis ?w) 7" by (simp add: grace_ok_def empty_world_def)
  have n: "fst (get_monthly_usage True True 7 (seconds 200000) ?w) = 1000"
    by (simp add: get_monthly_usage_def m empty_world_def redis_get_def pg_usage_def
        usage_row_of_def Let_def)
  show ?thesis
    using execution_limit_decision [OF ok, of True True 10 "seconds 200000"] n by auto
qed

end
