(* ===== verification/UrlSafety.thy ===== *)
theory UrlSafety
  imports PyText "HOL-Library.Word"
begin

section \<open>Callback URL validation (\<open>src/app/utils/url_validation.py\<close>)\<close>

text \<open>
  The guard against server-side request forgery: the check at cue creation and the second one
  at delivery. IPv4 addresses are 32-bit words, IPv6 addresses 128-bit words, and membership
  in a network compares the bits of the prefix. The URL parser and the resolver are parameters:
  \<open>parse url\<close> is \<open>None\<close> when the parser raises, \<open>resolve host\<close> is \<open>None\<close> when the name does not resolve.
\<close>

datatype ip_addr = V4 "32 word" | V6 "128 word"
datatype ip_net = N4 "32 word" nat | N6 "128 word" nat

definition in_net :: "ip_addr \<Rightarrow> ip_net \<Rightarrow> bool" where
  "in_net ip net =
     (case (ip, net) of
        (V4 a, N4 n p) \<Rightarrow> drop_bit (32 - p) a = drop_bit (32 - p) n
      | (V6 a, N6 n p) \<Rightarrow> drop_bit (128 - p) a = drop_bit (128 - p) n
      | _ \<Rightarrow> False)"

text \<open>\<open>ip.ipv4_mapped\<close>, with the address itself when it is not a mapped one.\<close>

definition unmap :: "ip_addr \<Rightarrow> ip_addr" where
  "unmap ip =
     (case ip of
        V4 a \<Rightarrow> V4 a
      | V6 a \<Rightarrow> if drop_bit 32 a = 0xFFFF then V4 (ucast a) else V6 a)"

definition BLOCKED_RANGES :: "ip_net list" where
  "BLOCKED_RANGES =
     [N4 0x7F000000 8, N4 0x0A000000 8, N4 0xAC100000 12, N4 0xC0A80000 16, N4 0xA9FE0000 16,
      N4 0x00000000 8, N4 0x64400000 10, N4 0xC6120000 15,
      N6 1 128, N6 0xFC000000000000000000000000000000 7,
      N6 0xFE800000000000000000000000000000 10, N6 0xFFFF00000000 96]"

definition BLOCKED_HOSTNAMES :: "string list" where
  "BLOCKED_HOSTNAMES = [''localhost'', ''metadata.google.internal'', ''metadata.internal'']"

record parsed_url =
  pu_scheme :: string
  pu_username :: "string option"
  pu_password :: "string option"
  pu_hostname :: "string option"

definition truthy :: "string option \<Rightarrow> bool" where
  "truthy s \<longleftrightarrow> (case s of None \<Rightarrow> False | Some t \<Rightarrow> t \<noteq> [])"

text \<open>The loop over \<open>BLOCKED_RANGES\<close> for one resolved address.\<close>

definition blocked_addr :: "ip_addr \<Rightarrow> bool" where
  "blocked_addr ip \<longleftrightarrow> list_ex (in_net (unmap ip)) BLOCKED_RANGES"

definition validate_callback_url ::
  "(string \<Rightarrow> parsed_url option) \<Rightarrow> (string \<Rightarrow> ip_addr list option) \<Rightarrow> string \<Rightarrow> string \<Rightarrow> bool \<times> string" where
  "validate_callback_url parse resolve url env =
     (case parse url of
        None \<Rightarrow> (False, ''Invalid URL format'')
      | Some p \<Rightarrow>
          if env = ''development'' \<and> pu_scheme p \<notin> {''http'', ''https''} then
            (False, ''URL must use http:// or https://'')
          else if env \<noteq> ''development'' \<and> pu_scheme p \<noteq> ''https'' then
            (False, ''URL must use https:// in production'')
          else if truthy (pu_username p) \<or> truthy (pu_password p) then
            (False, ''Credentials in callback URLs are not allowed'')
          else
            (case pu_hostname p of
               None \<Rightarrow> (False, ''URL must have a hostname'')
             | Some h \<Rightarrow>
                 if h = [] then (False, ''URL must have a hostname'')
                 else if lower h \<in> set BLOCKED_HOSTNAMES then (False, ''Blocked hostname: '' @ h)
                 else
                   (case resolve h of
                      None \<Rightarrow> (False, ''Cannot resolve hostname: '' @ h)
                    | Some ips \<Rightarrow>
                        if list_ex blocked_addr ips then
                          (False, ''Callback URL resolves to blocked address range'')
                        else (True, ''''))))"

text \<open>\<open>is_blocked_ip\<close>: an address that does not parse counts as blocked.\<close>

definition is_blocked_ip :: "ip_addr option \<Rightarrow> bool" where
  "is_blocked_ip ip = (case ip of None \<Rightarrow> True | Some a \<Rightarrow> blocked_addr a)"

definition validate_url_at_delivery ::
  "(string \<Rightarrow> parsed_url option) \<Rightarrow> (string \<Rightarrow> ip_addr list option) \<Rightarrow> string \<Rightarrow> string \<Rightarrow> bool \<times> string" where
  "validate_url_at_delivery parse resolve url env =
     (case parse url of
        None \<Rightarrow> (False, ''Invalid URL format'')
      | Some p \<Rightarrow>
          (case pu_hostname p of
             None \<Rightarrow> (False, ''URL must have a hostname'')
           | Some h \<Rightarrow>
               if h = [] then (False, ''URL must have a hostname'')
               else
                 (let is_dev = (env \<in> {''development'', ''test''})
                  in if \<not> is_dev \<and> lower h \<in> set BLOCKED_HOSTNAMES then
                       (False, ''Callback URL resolved to blocked IP'')
                     else
                       (case resolve h of
                          None \<Rightarrow> (False, ''Callback URL resolved to blocked IP'')
                        | Some ips \<Rightarrow>
                            if list_ex (\<lambda>ip.
                                 if is_dev then in_net ip (N4 0xA9FE0000 16)
                                   \<or> in_net ip (N6 0xFE800000000000000000000000000000 10)
                                 else is_blocked_ip (Some ip)) ips
                            then (False, ''Callback URL resolved to blocked IP'')
                            else (True, ''''))))) "

subsection \<open>Networks as number ranges\<close>

lemma in_net_v4_div:
  "in_net (V4 a) (N4 n p) \<longleftrightarrow> unat a div 2 ^ (32 - p) = unat n div 2 ^ (32 - p)"
proof -
  have "in_net (V4 a) (N4 n p) \<longleftrightarrow> unat (drop_bit (32 - p) a) = unat (drop_bit (32 - p) n)"
    by (simp only: in_net_def prod.case ip_addr.case ip_net.case word_unat_eq_iff)
  then have "in_net (V4 a) (N4 n p) \<longleftrightarrow> drop_bit (32 - p) (unat a) = drop_bit (32 - p) (unat n)"
    by (simp only: unat_drop_bit_eq)
  then show ?thesis by (simp only: drop_bit_eq_div)
qed

lemma div_eq_range:
  fixes a q k :: nat
  assumes "0 < k"
  shows "a div k = q \<longleftrightarrow> k * q \<le> a \<and> a < k * q + k"
proof
  assume "a div k = q"
  then have "a = k * q + a mod k" by auto
  then show "k * q \<le> a \<and> a < k * q + k"
    using assms by (metis le_add1 mod_less_divisor nat_add_left_cancel_less)
next
  assume "k * q \<le> a \<and> a < k * q + k"
  then show "a div k = q" by (intro div_nat_eqI) (auto simp: algebra_simps)
qed

text \<open>
  The IPv4 ranges the guard refuses, as bounds on the 32-bit address.
\<close>

definition private_v4 :: "nat \<Rightarrow> bool" where
  "private_v4 n \<longleftrightarrow>
     n < 2 ^ 24                                            \<comment> \<open>0.0.0.0 to 0.255.255.255\<close>
   \<or> (10 * 2 ^ 24 \<le> n \<and> n < 11 * 2 ^ 24)                  \<comment> \<open>10.0.0.0 to 10.255.255.255\<close>
   \<or> (100 * 2 ^ 24 + 64 * 2 ^ 16 \<le> n \<and> n < 100 * 2 ^ 24 + 128 * 2 ^ 16)
   \<or> (127 * 2 ^ 24 \<le> n \<and> n < 128 * 2 ^ 24)
   \<or> (169 * 2 ^ 24 + 254 * 2 ^ 16 \<le> n \<and> n < 169 * 2 ^ 24 + 255 * 2 ^ 16)
   \<or> (172 * 2 ^ 24 + 16 * 2 ^ 16 \<le> n \<and> n < 172 * 2 ^ 24 + 32 * 2 ^ 16)
   \<or> (192 * 2 ^ 24 + 168 * 2 ^ 16 \<le> n \<and> n < 192 * 2 ^ 24 + 169 * 2 ^ 16)
   \<or> (198 * 2 ^ 24 + 18 * 2 ^ 16 \<le> n \<and> n < 198 * 2 ^ 24 + 20 * 2 ^ 16)"

lemma in_net_v4_v6 [simp]: "\<not> in_net (V4 a) (N6 n p)"
  by (simp add: in_net_def)

lemma blocked_v4: "blocked_addr (V4 a) \<longleftrightarrow> private_v4 (unat a)"
proof -
  have "blocked_addr (V4 a) \<longleftrightarrow>
      unat a div 2 ^ 24 = 127 \<or> unat a div 2 ^ 24 = 10 \<or> unat a div 2 ^ 20 = 2753
      \<or> unat a div 2 ^ 16 = 49320 \<or> unat a div 2 ^ 16 = 43518 \<or> unat a div 2 ^ 24 = 0
      \<or> unat a div 2 ^ 22 = 401 \<or> unat a div 2 ^ 17 = 25353"
    by (simp add: blocked_addr_def unmap_def BLOCKED_RANGES_def in_net_v4_div)
  also have "\<dots> \<longleftrightarrow> private_v4 (unat a)"
    unfolding private_v4_def by (auto simp: div_eq_range)
  finally show ?thesis .
qed

text \<open>
  An IPv4-mapped IPv6 address is judged by the IPv4 address inside it.
\<close>

lemma blocked_mapped:
  "drop_bit 32 a = 0xFFFF \<Longrightarrow> blocked_addr (V6 a) \<longleftrightarrow> blocked_addr (V4 (ucast a))"
  by (simp add: blocked_addr_def unmap_def)

subsection \<open>What an accepted URL guarantees\<close>


definition example_parse :: "string \<Rightarrow> parsed_url option" where
  "example_parse url = Some \<lparr>pu_scheme = ''https'', pu_username = None, pu_password = None,
     pu_hostname = Some ''h''\<rparr>"

lemma example_delivery_check:
  "validate_url_at_delivery example_parse (\<lambda>_. Some [V4 0x08080808]) ''https://h/'' ''production''
     = (True, '''')"
  by (simp add: validate_url_at_delivery_def example_parse_def BLOCKED_HOSTNAMES_def lower_def
      lower_char_def is_blocked_ip_def blocked_v4 private_v4_def Let_def)


text \<open>
  The check at delivery is as strict as the one at creation outside development and test: a
  URL that passes at delivery and has an https scheme and no credentials passes at creation too,
  given the same answers of the parser and the resolver. What was refused when the cue was
  created for its address stays refused when it is delivered.
\<close>

theorem delivery_check_implies_creation_check:
  assumes "fst (validate_url_at_delivery parse resolve url env)"
    and "env \<noteq> ''development''" and "env \<noteq> ''test''"
    and "parse url = Some p" and "pu_scheme p = ''https''"
    and "\<not> truthy (pu_username p)" and "\<not> truthy (pu_password p)"
  shows "validate_callback_url parse resolve url env = (True, '''')"
proof -
  from assms(1,4) obtain h where h: "pu_hostname p = Some h" "h \<noteq> []"
    by (auto simp: validate_url_at_delivery_def split: option.splits if_splits)
  from assms(1-4) h obtain ips where r: "resolve h = Some ips"
    by (auto simp: validate_url_at_delivery_def split: option.splits if_splits)
  from assms(1-4) h r have "lower h \<notin> set BLOCKED_HOSTNAMES" and "\<not> list_ex blocked_addr ips"
    by (auto simp: validate_url_at_delivery_def is_blocked_ip_def list_ex_iff split: if_splits)
  with assms h r show ?thesis by (simp add: validate_callback_url_def)
qed

theorem delivery_check_implies_creation_check_witness:
  "validate_callback_url example_parse (\<lambda>_. Some [V4 0x08080808]) ''https://h/'' ''production''
     = (True, '''')"
  by (rule delivery_check_implies_creation_check [where p = "the (example_parse ''https://h/'')"])
    (simp_all add: example_delivery_check example_parse_def truthy_def)

text \<open>
  In development the check at delivery blocks only link-local addresses: a host that
  resolves to a private IPv4 address outside 169.254.0.0/16 is accepted, although the comment in
  the source says the other private ranges are still blocked.
\<close>

theorem development_allows_private:
  assumes "parse url = Some p" and "pu_hostname p = Some h" and "h \<noteq> []"
    and "resolve h = Some [V4 a]"
    and "unat a < 169 * 2 ^ 24 + 254 * 2 ^ 16 \<or> 169 * 2 ^ 24 + 255 * 2 ^ 16 \<le> unat a"
  shows "validate_url_at_delivery parse resolve url ''development'' = (True, '''')"
proof -
  have "\<not> in_net (V4 a) (N4 0xA9FE0000 16)"
  proof
    assume "in_net (V4 a) (N4 0xA9FE0000 16)"
    then have "unat a div 2 ^ 16 = 43518" by (simp add: in_net_v4_div)
    with assms(5) show False by (auto simp: div_eq_range)
  qed
  with assms show ?thesis by (simp add: validate_url_at_delivery_def)
qed

theorem development_allows_private_witness:
  "validate_url_at_delivery example_parse (\<lambda>_. Some [V4 0x0A000001]) ''http://h/'' ''development''
     = (True, '''') \<and> private_v4 (unat (0x0A000001 :: 32 word))"
proof -
  have "validate_url_at_delivery example_parse (\<lambda>_. Some [V4 0x0A000001]) ''http://h/''
      ''development'' = (True, '''')"
    by (rule development_allows_private [where p = "the (example_parse ''http://h/'')"
          and h = "''h''" and a = "0x0A000001"]) (simp_all add: example_parse_def)
  then show ?thesis by (simp add: private_v4_def)
qed

end
