(* ===== verification/Json.thy ===== *)
theory Json
  imports PyText Datamodel "HOL-Library.Char_ord" "HOL-Library.List_Lexorder"
begin

section \<open>Printing JSON documents\<close>

text \<open>
  \<open>json.dumps\<close> with the default separators and its two options the source uses: \<open>ensure_ascii\<close>
  (escape everything above code point 127) and \<open>sort_keys\<close> (members ordered by key, code point by
  code point). A \<open>json\<close> value stands for what the source passes to it: dictionaries with
  string keys, lists, strings, numbers, booleans and None.
\<close>

definition hex_digit :: "nat \<Rightarrow> char" where
  "hex_digit d = (if d < 10 then char_of (d + 48) else char_of (d + 87))"

definition json_char :: "bool \<Rightarrow> char \<Rightarrow> string" where
  "json_char ensure_ascii c =
     (let n = code_of c in
      if n = 34 then [CHR 0x5C, CHR 0x22]
      else if n = 92 then [CHR 0x5C, CHR 0x5C]
      else if n = 10 then [CHR 0x5C, CHR ''n'']
      else if n = 13 then [CHR 0x5C, CHR ''r'']
      else if n = 9 then [CHR 0x5C, CHR ''t'']
      else if n = 8 then [CHR 0x5C, CHR ''b'']
      else if n = 12 then [CHR 0x5C, CHR ''f'']
      else if n < 32 \<or> ensure_ascii \<and> 127 < n
        then [CHR 0x5C, CHR ''u'', CHR ''0'', CHR ''0'', hex_digit (n div 16), hex_digit (n mod 16)]
      else [c])"

definition json_str :: "bool \<Rightarrow> string \<Rightarrow> string" where
  "json_str ensure_ascii s = [CHR 0x22] @ concat (map (json_char ensure_ascii) s) @ [CHR 0x22]"

fun intercalate :: "string \<Rightarrow> string list \<Rightarrow> string" where
  "intercalate sep [] = []"
| "intercalate sep [x] = x"
| "intercalate sep (x # y # ys) = x @ sep @ intercalate sep (y # ys)"

fun json_dumps :: "bool \<Rightarrow> bool \<Rightarrow> json \<Rightarrow> string" where
  "json_dumps ea sk JNull = ''null''"
| "json_dumps ea sk (JBool b) = (if b then ''true'' else ''false'')"
| "json_dumps ea sk (JInt i) = int_str i"
| "json_dumps ea sk (JFloat f) = f"
| "json_dumps ea sk (JStr s) = json_str ea s"
| "json_dumps ea sk (JList vs) = ''['' @ intercalate '', '' (map (json_dumps ea sk) vs) @ '']''"
| "json_dumps ea sk (JObj kvs) =
     (let members = map (\<lambda>(k, v). (k, json_dumps ea sk v)) kvs;
          ordered = (if sk then sort_key fst members else members)
      in ''{'' @ intercalate '', '' (map (\<lambda>(k, v). json_str ea k @ '': '' @ v) ordered) @ ''}'')"

text \<open>\<open>len(json.dumps(...).encode("utf-8"))\<close>.\<close>

definition json_size :: "bool \<Rightarrow> json \<Rightarrow> nat" where
  "json_size ensure_ascii j = utf8_len (json_dumps ensure_ascii False j)"

lemma json_dumps_example:
  "json_dumps True True (JObj [(''b'', JList [JInt 1, JNull]), (''a'', JStr [CHR 0x22])]) =
   ''{'' @ [CHR 0x22] @ ''a'' @ [CHR 0x22] @ '': '' @ [CHR 0x22, CHR 0x5C, CHR 0x22, CHR 0x22] @ '', '' @
   [CHR 0x22] @ ''b'' @ [CHR 0x22] @ '': [1, null]}''"
  by code_simp

lemma sort_key_unique:
  assumes "distinct (map f xs)" and "distinct (map f ys)" and "set xs = set ys"
  shows "sort_key f xs = sort_key f ys"
proof (rule map_inj_on)
  have "distinct (map f (sort_key f zs))" if "distinct (map f zs)" for zs
    using that by (simp add: distinct_map)
  then show "map f (sort_key f xs) = map f (sort_key f ys)"
    using assms by (intro sorted_distinct_set_unique) auto
  show "inj_on f (set (sort_key f xs) \<union> set (sort_key f ys))"
    using assms by (simp add: distinct_map)
qed

text \<open>With \<open>sort_keys\<close> the printed text does not depend on the order of the members.\<close>

lemma json_dumps_member_order:
  assumes "distinct (map fst kvs)" and "distinct (map fst kvs')" and "set kvs = set kvs'"
  shows "json_dumps ea True (JObj kvs) = json_dumps ea True (JObj kvs')"
proof -
  let ?m = "map (\<lambda>(k, v). (k, json_dumps ea True v))"
  have fsts: "map fst (?m zs) = map fst zs" for zs by (simp add: o_def split_def)
  have "sort_key fst (?m kvs) = sort_key fst (?m kvs')"
    by (rule sort_key_unique) (use assms in \<open>simp_all only: fsts set_map\<close>)
  then show ?thesis by simp
qed

subsection \<open>Null bytes\<close>

text \<open>The check of \<open>src/app/services/cue_service.py\<close>: PostgreSQL stores no null byte.\<close>

definition has_nul :: "string \<Rightarrow> bool" where
  "has_nul s \<longleftrightarrow> CHR 0x00 \<in> set s"

fun contains_null_byte :: "json \<Rightarrow> bool" where
  "contains_null_byte (JStr s) = has_nul s"
| "contains_null_byte (JObj kvs) = list_ex (\<lambda>(k, v). has_nul k \<or> contains_null_byte v) kvs"
| "contains_null_byte (JList vs) = list_ex contains_null_byte vs"
| "contains_null_byte _ = False"

subsection \<open>Reading documents\<close>

text \<open>Truth value of a decoded document, and \<open>d.get(key)\<close> of a dictionary.\<close>

definition json_truthy :: "json \<Rightarrow> bool" where
  "json_truthy j = (case j of JNull \<Rightarrow> False | JBool b \<Rightarrow> b | JInt i \<Rightarrow> i \<noteq> 0
     | JFloat f \<Rightarrow> f \<noteq> ''0.0'' \<and> f \<noteq> ''-0.0'' | JStr s \<Rightarrow> s \<noteq> [] | JList vs \<Rightarrow> vs \<noteq> [] | JObj kvs \<Rightarrow> kvs \<noteq> [])"

definition json_get :: "json \<Rightarrow> string \<Rightarrow> json option" where
  "json_get j k = (case j of JObj kvs \<Rightarrow> map_of kvs k | _ \<Rightarrow> None)"

subsection \<open>What a handler answers\<close>

text \<open>
  A result, an error answer (its code and HTTP status), or an exception, which the framework
  turns into status 500 after the transaction is rolled back.
\<close>

datatype 'a reply = Reply 'a | Refused string int | Raised py_error

text \<open>ORDER BY a time column DESC; rows with equal times come in some order, here the reverse of the table's.\<close>

definition newest_first :: "('r \<Rightarrow> time) \<Rightarrow> 'r list \<Rightarrow> 'r list" where
  "newest_first created rows = rev (sort_key created rows)"

text \<open>LIMIT and OFFSET.\<close>

definition page :: "nat \<Rightarrow> nat \<Rightarrow> 'r list \<Rightarrow> 'r list" where
  "page limit offset rows = take limit (drop offset rows)"

lemma set_newest_first [simp]: "set (newest_first f rows) = set rows"
  by (simp add: newest_first_def)

lemma length_newest_first [simp]: "length (newest_first f rows) = length rows"
  by (simp add: newest_first_def)

end
