(* ===== verification/WebhookDelivery.thy ===== *)
theory WebhookDelivery
  imports UrlSafety Json
begin

section \<open>Signing and posting a webhook (\<open>src/app/utils/signing.py\<close>, \<open>src/app/services/webhook.py\<close>)\<close>

text \<open>
  One delivery attempt: the body, the signature headers, the second URL check, the HTTP call
  and the verdict. HMAC-SHA256, the URL parser, the resolver and the HTTP
  client are parameters, bundled in the record \<open>net\<close>.
\<close>

record http_request =
  rq_method :: string
  rq_url :: string
  rq_headers :: "(string \<times> string) list"
  rq_body :: "json option"

datatype http_answer = HttpResponse int string | HttpTimeout | HttpConnectError | HttpFailure string

record net =
  net_env :: string
  net_parse :: "string \<Rightarrow> parsed_url option"
  net_resolve :: "string \<Rightarrow> ip_addr list option"
  net_http :: "http_request \<Rightarrow> http_answer"
  net_hmac :: "string \<Rightarrow> string \<Rightarrow> string"

subsection \<open>Signatures\<close>

definition sign_payload :: "net \<Rightarrow> time \<Rightarrow> json \<Rightarrow> string \<Rightarrow> string \<times> string" where
  "sign_payload n now payload secret =
     (let timestamp = int_str (now div seconds 1);
          signed_content = timestamp @ ''.'' @ json_dumps True True payload
      in (timestamp, ''v1='' @ net_hmac n secret signed_content))"

definition verify_signature :: "net \<Rightarrow> time \<Rightarrow> json \<Rightarrow> string \<Rightarrow> string \<Rightarrow> string \<Rightarrow> int \<Rightarrow> bool" where
  "verify_signature n now payload secret timestamp signature tolerance_seconds =
     (case py_int timestamp of
        None \<Rightarrow> False
      | Some ts \<Rightarrow>
          if \<bar>now - seconds ts\<bar> > seconds tolerance_seconds then False
          else ''v1='' @ net_hmac n secret (timestamp @ ''.'' @ json_dumps True True payload) = signature)"


definition example_net :: net where
  "example_net = \<lparr>net_env = ''production'', net_parse = example_parse,
     net_resolve = (\<lambda>_. Some [V4 0x08080808]), net_http = (\<lambda>_. HttpResponse 200 ''ok''),
     net_hmac = (\<lambda>k m. k @ m)\<rparr>"


text \<open>
  The signature is canonical: it depends on the members of the payload object, not on the
  order in which they are stored. (JSONB columns do not keep that order, so the payload signed
  by the sender and the one read back differ in it.)
\<close>

theorem signature_ignores_member_order:
  assumes "distinct (map fst kvs)" and "distinct (map fst kvs')" and "set kvs = set kvs'"
  shows "sign_payload n now (JObj kvs) secret = sign_payload n now (JObj kvs') secret
    \<and> verify_signature n now (JObj kvs) secret ts sig tol = verify_signature n now (JObj kvs') secret ts sig tol"
  unfolding sign_payload_def verify_signature_def json_dumps_member_order [OF assms] by simp

theorem signature_ignores_member_order_witness:
  "sign_payload example_net 0 (JObj [(''b'', JInt 1), (''a'', JNull)]) ''k'' =
   sign_payload example_net 0 (JObj [(''a'', JNull), (''b'', JInt 1)]) ''k''"
  using signature_ignores_member_order [of "[(''b'', JInt 1), (''a'', JNull)]" "[(''a'', JNull), (''b'', JInt 1)]"]
  by (simp add: insert_commute)

subsection \<open>Headers\<close>

text \<open>\<open>d.update(kvs)\<close> on a dictionary: an existing key keeps its place, a new one is appended.\<close>

definition dict_put :: "'k \<Rightarrow> 'v \<Rightarrow> ('k \<times> 'v) list \<Rightarrow> ('k \<times> 'v) list" where
  "dict_put k v d =
     (if k \<in> fst ` set d then update_where (\<lambda>(k', _). k' = k) (\<lambda>(k', _). (k', v)) d
      else d @ [(k, v)])"

definition dict_update :: "('k \<times> 'v) list \<Rightarrow> ('k \<times> 'v) list \<Rightarrow> ('k \<times> 'v) list" where
  "dict_update d kvs = fold (\<lambda>(k, v) d. dict_put k v d) kvs d"

lemma map_of_assign:
  "map_of (update_where (\<lambda>(k', _). k' = k) (\<lambda>(k', _). (k', v)) d) x =
   (if x = k \<and> k \<in> fst ` set d then Some v else map_of d x)"
  by (induction d) (auto, metis fst_conv image_eqI)

lemma map_of_dict_put: "map_of (dict_put k v d) = (map_of d)(k \<mapsto> v)"
proof (cases "k \<in> fst ` set d")
  case True
  then show ?thesis by (auto simp: dict_put_def map_of_assign fun_eq_iff)
next
  case False
  then have "map_of d k = None" by (simp add: map_of_eq_None_iff)
  with False show ?thesis by (auto simp: dict_put_def fun_eq_iff map_add_def split: option.split)
qed

lemma map_of_dict_update: "map_of (dict_update d kvs) = map_of d ++ map_of (rev kvs)"
  unfolding dict_update_def
  by (induction kvs arbitrary: d) (auto simp: map_of_dict_put map_add_upd_left)

subsection \<open>The attempt\<close>

definition meaningful_error :: "int \<Rightarrow> string" where
  "meaningful_error status_code =
     (if status_code = 404 then ''Webhook endpoint not found (404)''
      else if status_code = 408 then ''Webhook endpoint timed out''
      else if status_code = 500 then ''Webhook endpoint returned server error (500)''
      else if 400 \<le> status_code \<and> status_code < 500 then
        ''Webhook endpoint rejected request ('' @ int_str status_code @ '')''
      else if 500 \<le> status_code \<and> status_code < 600 then
        ''Webhook endpoint server error ('' @ int_str status_code @ '')''
      else ''Webhook delivery failed ('' @ int_str status_code @ '')'')"

definition webhook_body :: "cue_task \<Rightarrow> int \<Rightarrow> json" where
  "webhook_body p attempt =
     JObj [(''execution_id'', JStr (nat_str (p_execution_id p))), (''cue_id'', JStr (p_cue_id p)),
       (''name'', JStr (p_cue_name p)), (''scheduled_for'', JStr (isoformat (p_scheduled_for p))),
       (''attempt'', JInt attempt), (''payload'', p_payload p)]"

definition webhook_headers :: "net \<Rightarrow> time \<Rightarrow> cue_task \<Rightarrow> int \<Rightarrow> (string \<times> string) list" where
  "webhook_headers n now p attempt =
     (let (timestamp, signature) = sign_payload n now (webhook_body p attempt) (p_webhook_secret p);
          headers =
            [(''Content-Type'', ''application/json''), (''X-CueAPI-Signature'', signature),
             (''X-CueAPI-Timestamp'', timestamp), (''X-CueAPI-Cue-Id'', p_cue_id p),
             (''X-CueAPI-Execution-Id'', nat_str (p_execution_id p)),
             (''X-CueAPI-Scheduled-For'', isoformat (p_scheduled_for p)),
             (''X-CueAPI-Attempt'', int_str attempt), (''User-Agent'', ''CueAPI/1.0'')]
      in dict_update headers (p_callback_headers p))"

definition webhook_request :: "net \<Rightarrow> time \<Rightarrow> string \<Rightarrow> cue_task \<Rightarrow> int \<Rightarrow> http_request" where
  "webhook_request n now url p attempt =
     (let m = upper (p_callback_method p);
          body = webhook_body p attempt
      in \<lparr>rq_method = (if m \<in> {''GET'', ''PUT'', ''PATCH''} then m else ''POST''),
          rq_url = url, rq_headers = webhook_headers n now p attempt,
          rq_body = (if m = ''GET'' then None else Some body)\<rparr>)"

text \<open>
  The triple of the source: success, HTTP status, response or error text. A missing URL (the
  column is NULL for worker cues) parses to an address without a host name.
\<close>

definition deliver_webhook ::
  "net \<Rightarrow> time \<Rightarrow> cue_task \<Rightarrow> int \<Rightarrow> bool \<times> int option \<times> string option" where
  "deliver_webhook n now p attempt =
     (case p_callback_url p of
        None \<Rightarrow> (False, None, Some ''URL must have a hostname'')
      | Some url \<Rightarrow>
          (let (is_valid, ssrf_error) = validate_url_at_delivery (net_parse n) (net_resolve n) url (net_env n)
           in if \<not> is_valid then (False, None, Some ssrf_error)
              else
                (case net_http n (webhook_request n now url p attempt) of
                   HttpResponse status body \<Rightarrow>
                     if 200 \<le> status \<and> status < 300 then (True, Some status, Some (take 2000 body))
                     else (False, Some status, Some (meaningful_error status))
                 | HttpTimeout \<Rightarrow> (False, None, Some ''Webhook endpoint timed out'')
                 | HttpConnectError \<Rightarrow> (False, None, Some ''Could not connect to webhook endpoint'')
                 | HttpFailure e \<Rightarrow> (False, None, Some (take 500 e)))))"

lemma deliver_webhook_text: "\<exists>t. snd (snd (deliver_webhook n now p attempt)) = Some t"
  by (auto simp: deliver_webhook_def split: option.splits prod.splits http_answer.splits)

text \<open>
  A delivery counts as successful exactly when the URL passes the check at delivery time and
  the endpoint answers with a status from 200 to 299; no request is sent to a URL that fails
  the check, whatever the HTTP client would answer.
\<close>

theorem deliver_webhook_success_iff:
  "fst (deliver_webhook n now p attempt) \<longleftrightarrow>
     (\<exists>url status body. p_callback_url p = Some url
        \<and> fst (validate_url_at_delivery (net_parse n) (net_resolve n) url (net_env n))
        \<and> net_http n (webhook_request n now url p attempt) = HttpResponse status body
        \<and> 200 \<le> status \<and> status < 300)"
  by (auto simp: deliver_webhook_def split: option.splits prod.splits http_answer.splits)

text \<open>
  A custom header replaces the server's header of the same name, the signature and the
  timestamp included: the merged headers are the server's overridden by the custom ones. The
  comment in the source excludes the signature headers from this; the code does not.
\<close>

theorem custom_headers_override_signature:
  assumes "distinct (map fst (p_callback_headers p))"
    and "(k, v) \<in> set (p_callback_headers p)"
  shows "map_of (webhook_headers n now p attempt) k = Some v"
proof -
  have "map_of (rev (p_callback_headers p)) k = Some v"
    using assms by (simp add: rev_map [symmetric])
  then show ?thesis
    by (simp add: webhook_headers_def map_of_dict_update map_add_Some_iff split: prod.splits)
qed

definition example_task :: cue_task where
  "example_task = \<lparr>p_cue_id = ''cue_1'', p_cue_name = ''n'', p_user_id = Some 7,
     p_execution_id = 11, p_scheduled_for = 0, p_callback_url = Some ''https://h/'',
     p_callback_method = ''POST'', p_callback_headers = [(''X-CueAPI-Signature'', ''forged'')],
     p_payload = JObj [], p_retry_max_attempts = Some 3, p_retry_backoff_minutes = Some [1, 5, 15],
     p_monthly_execution_limit = Some 300, p_webhook_secret = ''whsec''\<rparr>"

theorem custom_headers_override_signature_witness:
  "map_of (webhook_headers example_net 0 example_task 1) ''X-CueAPI-Signature'' = Some ''forged''"
  by (rule custom_headers_override_signature) (simp_all add: example_task_def)

end
