(* ===== verification/ExecTasks.thy ===== *)
theory ExecTasks
  imports Usage WebhookDelivery
begin

section \<open>The webhook delivery tasks (\<open>src/worker/tasks.py\<close>)\<close>

text \<open>
  The arq tasks \<open>deliver_webhook_task\<close> and \<open>retry_webhook_task\<close> with everything they call: the
  conditional claim, the success and failure handlers, and the escalation by e-mail and
  webhook. A task is the composition of two phases that run in separate database transactions:
  claiming (with the quota check before it for first deliveries) and finishing (after the HTTP
  call). Each phase takes its own clock reading.
\<close>

text \<open>What the outside answers, and how the process is configured.\<close>

record env =
  e_net :: net
  e_has_redis :: bool             \<comment> \<open>the worker context holds a Redis client\<close>
  e_redis_up :: bool              \<comment> \<open>Redis answers\<close>
  e_pg_ok :: bool                 \<comment> \<open>the usage upsert succeeds\<close>
  e_resend_key :: bool            \<comment> \<open>RESEND_API_KEY is set\<close>
  e_mail_ok :: "nat \<Rightarrow> bool"   \<comment> \<open>the n-th try of sending an e-mail succeeds\<close>

subsection \<open>Test cues (\<open>src/app/services/email_service.py\<close>)\<close>

definition TEST_CUE_PREFIXES :: "string list" where
  "TEST_CUE_PREFIXES = [''argus-'', ''test-'', ''verify-'', ''verify-production-'',
     ''verify-diag-'', ''e2e-'', ''test-cueapi-core-'', ''cueapi-core-test-'']"

definition is_test_cue :: "string \<Rightarrow> bool" where
  "is_test_cue nm =
     (if nm = [] then False
      else list_ex (\<lambda>prefix. starts_with prefix (lower nm)) TEST_CUE_PREFIXES)"

subsection \<open>Escalation\<close>

definition send_failure_email ::
  "env \<Rightarrow> uuid \<Rightarrow> string \<Rightarrow> string \<Rightarrow> uuid \<Rightarrow> string \<Rightarrow> time \<Rightarrow> world \<Rightarrow> world" where
  "send_failure_email env user_id c_id c_name execution_id error_message now w =
     (if is_test_cue c_name then w
      else if \<not> e_redis_up env then w
      else
        (case redis_incr (KFailureEmail user_id) now (redis w) of
           Inl e \<Rightarrow> w
         | Inr (count, r) \<Rightarrow>
             (let w1 = w\<lparr>redis := (if count = 1 then redis_expire (KFailureEmail user_id) 3600 now r else r)\<rparr>
              in if count > 10 then w1
                 else
                   (case get_user_row w1 user_id of
                      None \<Rightarrow> w1
                    | Some u \<Rightarrow>
                        if usr_email u = [] then w1
                        else if e_resend_key env then
                          (if e_mail_ok env 0 \<or> e_mail_ok env 1 then
                             w1\<lparr>sent := sent w1 @ [FailureEmail user_id (usr_email u) c_id c_name
                                   execution_id (take 500 error_message)]\<rparr>
                           else w1)
                        else w1))))"

text \<open>The POST is best effort: the answer is only logged.\<close>

definition send_failure_webhook ::
  "string \<Rightarrow> string \<Rightarrow> string \<Rightarrow> int \<Rightarrow> int option \<Rightarrow> string \<Rightarrow> time \<Rightarrow> world \<Rightarrow> world" where
  "send_failure_webhook url c_id c_name attempts last_http_status last_error failed_at w =
     w\<lparr>sent := sent w @ [FailureWebhook url c_id c_name attempts last_http_status
         (take 500 last_error) failed_at]\<rparr>"

text \<open>The three settings of \<open>on_failure\<close> with their defaults.\<close>

definition on_failure_email :: "on_failure_cfg option \<Rightarrow> bool" where
  "on_failure_email cfg =
     (case cfg of None \<Rightarrow> True | Some c \<Rightarrow> (case of_email c of None \<Rightarrow> True | Some b \<Rightarrow> b))"

definition on_failure_webhook :: "on_failure_cfg option \<Rightarrow> string option" where
  "on_failure_webhook cfg =
     (case cfg of None \<Rightarrow> None
      | Some c \<Rightarrow> (case of_webhook c of Some u \<Rightarrow> if u = [] then None else Some u | None \<Rightarrow> None))"

definition on_failure_pause :: "on_failure_cfg option \<Rightarrow> bool" where
  "on_failure_pause cfg =
     (case cfg of None \<Rightarrow> False | Some c \<Rightarrow> (case of_pause c of None \<Rightarrow> False | Some b \<Rightarrow> b))"

definition name_or_id :: "cue \<Rightarrow> string" where
  "name_or_id c = (if cue_name c = [] then cue_id c else cue_name c)"

subsection \<open>Claiming\<close>

definition claim_row :: "time \<Rightarrow> execution \<Rightarrow> execution" where
  "claim_row now r = r\<lparr>ex_status := Delivering,
     ex_started_at := (case ex_started_at r of None \<Rightarrow> Some now | Some s \<Rightarrow> Some s),
     ex_updated_at := now\<rparr>"

definition claim_execution :: "uuid \<Rightarrow> exec_state \<Rightarrow> time \<Rightarrow> world \<Rightarrow> bool \<times> world" where
  "claim_execution e expected_status now w =
     (list_ex (\<lambda>r. ex_id r = e \<and> ex_status r = expected_status) (executions w),
      w\<lparr>executions := update_where (\<lambda>r. ex_id r = e \<and> ex_status r = expected_status)
          (claim_row now) (executions w)\<rparr>)"

subsection \<open>Finishing\<close>

definition success_row :: "int option \<Rightarrow> string option \<Rightarrow> int \<Rightarrow> time \<Rightarrow> execution \<Rightarrow> execution" where
  "success_row http_status response_body attempt now r =
     r\<lparr>ex_status := Success, ex_http_status := http_status, ex_response_body := response_body,
       ex_delivered_at := Some now, ex_last_attempt_at := Some now, ex_attempts := attempt,
       ex_next_retry := None, ex_updated_at := now\<rparr>"

definition handle_success ::
  "env \<Rightarrow> uuid \<Rightarrow> int option \<Rightarrow> string option \<Rightarrow> int \<Rightarrow> string \<Rightarrow> uuid option \<Rightarrow> time \<Rightarrow> world \<Rightarrow> world" where
  "handle_success env e http_status response_body attempt c user_id now w =
     (let w1 = update_exec_row e (success_row http_status response_body attempt now) w;
          w2 = update_cue_row c (\<lambda>r. r\<lparr>cue_last_run := Some now, cue_updated_at := now\<rparr>) w1;
          w3 = (case get_cue_row w2 c of
                  Some r \<Rightarrow> if cue_schedule_type r = Once
                     then update_cue_row c (\<lambda>r. r\<lparr>cue_status := CueCompleted, cue_updated_at := now\<rparr>) w2
                     else w2
                | None \<Rightarrow> w2)
      in case user_id of
           Some u \<Rightarrow> if e_has_redis env then increment_usage (e_redis_up env) (e_pg_ok env) u now w3 else w3
         | None \<Rightarrow> w3)"

definition retry_backoff :: "int list \<Rightarrow> int \<Rightarrow> py_error + int" where
  "retry_backoff backoff_minutes attempt =
     (if backoff_minutes = [] then Inr 1
      else py_index backoff_minutes (min (attempt - 1) (int (length backoff_minutes) - 1)))"

definition retrying_row :: "int option \<Rightarrow> string \<Rightarrow> int \<Rightarrow> time \<Rightarrow> time \<Rightarrow> execution \<Rightarrow> execution" where
  "retrying_row http_status error_message attempt next_retry now r =
     r\<lparr>ex_status := Retrying, ex_http_status := http_status, ex_error_message := Some error_message,
       ex_last_attempt_at := Some now, ex_attempts := attempt, ex_next_retry := Some next_retry,
       ex_updated_at := now\<rparr>"

definition failed_row :: "int option \<Rightarrow> string \<Rightarrow> int \<Rightarrow> time \<Rightarrow> execution \<Rightarrow> execution" where
  "failed_row http_status error_message attempt now r =
     r\<lparr>ex_status := Failed, ex_http_status := http_status, ex_error_message := Some error_message,
       ex_last_attempt_at := Some now, ex_attempts := attempt, ex_next_retry := None,
       ex_updated_at := now\<rparr>"

text \<open>
  The status changes of the cue after the last failed attempt: a one-time cue becomes failed,
  a recurring one is paused when \<open>on_failure.pause\<close> asks for it.
\<close>

definition fail_cue :: "cue option \<Rightarrow> string \<Rightarrow> time \<Rightarrow> world \<Rightarrow> world" where
  "fail_cue row c now w =
     (case row of
        None \<Rightarrow> w
      | Some r \<Rightarrow>
          (let w1 = (if cue_schedule_type r = Once
                     then update_cue_row c (\<lambda>r. r\<lparr>cue_status := CueFailed, cue_updated_at := now\<rparr>) w else w)
           in if on_failure_pause (cue_on_failure r) \<and> cue_schedule_type r \<noteq> Once
              then update_cue_row c (\<lambda>r. r\<lparr>cue_status := CuePaused, cue_next_run := None, cue_updated_at := now\<rparr>) w1
              else w1))"

definition notify_failure ::
  "env \<Rightarrow> cue option \<Rightarrow> string \<Rightarrow> uuid \<Rightarrow> int \<Rightarrow> int option \<Rightarrow> string \<Rightarrow> time \<Rightarrow> world \<Rightarrow> world" where
  "notify_failure env row c e attempt http_status error_message now w =
     (case row of
        None \<Rightarrow> w
      | Some r \<Rightarrow>
          (let w1 = (if on_failure_email (cue_on_failure r)
                     then send_failure_email env (cue_user_id r) c (name_or_id r) e error_message now w
                     else w)
           in case on_failure_webhook (cue_on_failure r) of
                Some url \<Rightarrow> send_failure_webhook url c (name_or_id r) attempt http_status error_message now w1
              | None \<Rightarrow> w1))"

definition handle_failure ::
  "env \<Rightarrow> uuid \<Rightarrow> int option \<Rightarrow> string \<Rightarrow> int \<Rightarrow> string \<Rightarrow> int \<Rightarrow> int list \<Rightarrow> time \<Rightarrow> world \<Rightarrow> py_error + world" where
  "handle_failure env e http_status error_message attempt c retry_max_attempts retry_backoff_minutes now w =
     (if attempt < retry_max_attempts then
        (case retry_backoff retry_backoff_minutes attempt of
           Inl err \<Rightarrow> Inl err
         | Inr backoff \<Rightarrow>
             Inr (update_exec_row e (retrying_row http_status error_message attempt
                    (now + minutes backoff) now) w))
      else
        (let w1 = update_exec_row e (failed_row http_status error_message attempt now) w;
             w2 = update_cue_row c (\<lambda>r. r\<lparr>cue_last_run := Some now, cue_updated_at := now\<rparr>) w1;
             row = get_cue_row w2 c
         in Inr (notify_failure env row c e attempt http_status error_message now
                   (fail_cue row c now w2))))"

subsection \<open>The tasks\<close>

text \<open>\<open>response_text or "Unknown error"\<close>.\<close>

definition error_text :: "string option \<Rightarrow> string" where
  "error_text t = (case t of Some s \<Rightarrow> if s = [] then ''Unknown error'' else s | None \<Rightarrow> ''Unknown error'')"

definition blocked_row :: "time \<Rightarrow> execution \<Rightarrow> execution" where
  "blocked_row now r = r\<lparr>ex_status := Failed,
     ex_error_message := Some ''Monthly execution limit reached'',
     ex_last_attempt_at := Some now, ex_updated_at := now\<rparr>"

text \<open>The quota check of a first delivery: whether the task goes on.\<close>

definition quota_gate :: "env \<Rightarrow> cue_task \<Rightarrow> time \<Rightarrow> world \<Rightarrow> py_error + (bool \<times> world)" where
  "quota_gate env p now w =
     (case p_user_id p of
        None \<Rightarrow> Inr (True, w)
      | Some u \<Rightarrow>
          if \<not> e_has_redis env then Inr (True, w)
          else
            (let monthly_limit = (case p_monthly_execution_limit p of None \<Rightarrow> 0 | Some l \<Rightarrow> l)
             in if monthly_limit > 0 then
                  (case check_execution_limit (e_redis_up env) True u monthly_limit now w of
                     Inl err \<Rightarrow> Inl err
                   | Inr (check, w1) \<Rightarrow>
                       if allowed check then Inr (True, w1)
                       else Inr (False, update_exec_row (p_execution_id p) (blocked_row now) w1))
                else Inr (True, w)))"

text \<open>The claim, and the number of the attempt read back after it.\<close>

definition claim_attempt :: "cue_task \<Rightarrow> exec_state \<Rightarrow> time \<Rightarrow> world \<Rightarrow> int option \<times> world" where
  "claim_attempt p expected now w =
     (let (claimed, w1) = claim_execution (p_execution_id p) expected now w
      in if claimed then
           (Some ((case get_exec_row w1 (p_execution_id p) of Some r \<Rightarrow> ex_attempts r | None \<Rightarrow> 0) + 1), w1)
         else (None, w1))"

definition finish_attempt ::
  "env \<Rightarrow> cue_task \<Rightarrow> int \<Rightarrow> bool \<times> int option \<times> string option \<Rightarrow> time \<Rightarrow> world \<Rightarrow> py_error + world" where
  "finish_attempt env p attempt result now w =
     (let (success, http_status, response_text) = result;
          w1 = update_cue_row (p_cue_id p)
                 (\<lambda>r. r\<lparr>cue_run_count := cue_run_count r + 1, cue_updated_at := now\<rparr>) w
      in if success then
           Inr (handle_success env (p_execution_id p) http_status response_text attempt (p_cue_id p)
                  (p_user_id p) now w1)
         else
           handle_failure env (p_execution_id p) http_status (error_text response_text) attempt (p_cue_id p)
             (case p_retry_max_attempts p of None \<Rightarrow> 3 | Some m \<Rightarrow> m)
             (case p_retry_backoff_minutes p of None \<Rightarrow> [1, 5, 15] | Some b \<Rightarrow> b) now w1)"

definition deliver_webhook_task :: "env \<Rightarrow> cue_task \<Rightarrow> time \<Rightarrow> time \<Rightarrow> world \<Rightarrow> py_error + world" where
  "deliver_webhook_task env p now done w =
     (case quota_gate env p now w of
        Inl err \<Rightarrow> Inl err
      | Inr (go_on, w1) \<Rightarrow>
          if \<not> go_on then Inr w1
          else
            (case claim_attempt p Pending now w1 of
               (None, w2) \<Rightarrow> Inr w2
             | (Some attempt, w2) \<Rightarrow>
                 finish_attempt env p attempt (deliver_webhook (e_net env) now p attempt) done w2))"

definition retry_webhook_task :: "env \<Rightarrow> cue_task \<Rightarrow> time \<Rightarrow> time \<Rightarrow> world \<Rightarrow> py_error + world" where
  "retry_webhook_task env p now done w =
     (case claim_attempt p RetryReady now w of
        (None, w1) \<Rightarrow> Inr w1
      | (Some attempt, w1) \<Rightarrow>
          finish_attempt env p attempt (deliver_webhook (e_net env) now p attempt) done w1)"

subsection \<open>Row assignments meet the contract\<close>

interpretation claim_upd: exec_update "claim_row now" for now
  by unfold_locales (simp_all add: claim_row_def exec_slot_def)

interpretation success_upd: exec_update "success_row http body attempt now" for http body attempt now
  by unfold_locales (simp_all add: success_row_def exec_slot_def)

interpretation retrying_upd: exec_update "retrying_row http err attempt next now" for http err attempt "next" now
  by unfold_locales (simp_all add: retrying_row_def exec_slot_def)

interpretation failed_upd: exec_update "failed_row http err attempt now" for http err attempt now
  by unfold_locales (simp_all add: failed_row_def exec_slot_def)

interpretation blocked_upd: exec_update "blocked_row now" for now
  by unfold_locales (simp_all add: blocked_row_def exec_slot_def)

subsection \<open>Frames\<close>

lemma executions_increment_usage [simp, frame_simps]:
  "executions (increment_usage up ok u now w) = executions w"
  "outbox (increment_usage up ok u now w) = outbox w"
  "cues (increment_usage up ok u now w) = cues w"
  by (simp_all add: increment_usage_def Let_def split: sum.split)

lemma get_monthly_usage_frame [simp, frame_simps]:
  "executions (snd (get_monthly_usage up s u now w)) = executions w"
  "outbox (snd (get_monthly_usage up s u now w)) = outbox w"
  "cues (snd (get_monthly_usage up s u now w)) = cues w"
  by (simp_all add: get_monthly_usage_def Let_def split: option.splits redis_val.splits)

lemma check_execution_limit_frame:
  assumes "check_execution_limit up s u l now w = Inr (c, w')"
  shows "executions w' = executions w \<and> outbox w' = outbox w \<and> cues w' = cues w"
proof -
  obtain n w1 where g: "get_monthly_usage up s u now w = (n, w1)"
    by (cases "get_monthly_usage up s u now w")
  then have "executions w1 = executions w" "outbox w1 = outbox w" "cues w1 = cues w"
    using get_monthly_usage_frame [of up s u now w] by auto
  with assms g show ?thesis
    by (auto simp: check_execution_limit_def split: if_splits option.splits redis_val.splits)
qed

lemma send_failure_email_frame [simp, frame_simps]:
  "executions (send_failure_email env u c n e m now w) = executions w"
  "outbox (send_failure_email env u c n e m now w) = outbox w"
  "cues (send_failure_email env u c n e m now w) = cues w"
  by (simp_all add: send_failure_email_def Let_def split: sum.split prod.split option.split)

lemma send_failure_webhook_frame [simp, frame_simps]:
  "executions (send_failure_webhook url c n a h m t w) = executions w"
  "outbox (send_failure_webhook url c n a h m t w) = outbox w"
  "cues (send_failure_webhook url c n a h m t w) = cues w"
  by (simp_all add: send_failure_webhook_def)

lemma fail_cue_frame [simp, frame_simps]:
  "executions (fail_cue row c now w) = executions w"
  "outbox (fail_cue row c now w) = outbox w"
  by (simp_all add: fail_cue_def Let_def split: option.split)

lemma notify_failure_frame [simp, frame_simps]:
  "executions (notify_failure env row c e a h m now w) = executions w"
  "outbox (notify_failure env row c e a h m now w) = outbox w"
  "cues (notify_failure env row c e a h m now w) = cues w"
  by (simp_all add: notify_failure_def Let_def split: option.split)

lemma handle_success_executions:
  "executions (handle_success env e h b a c u now w) =
   executions (update_exec_row e (success_row h b a now) w)"
  by (simp add: handle_success_def Let_def split: option.split)

lemma handle_failure_executions:
  assumes "handle_failure env e h m a c mx bs now w = Inr w'"
  shows "executions w' = executions (update_exec_row e
      (if a < mx then retrying_row h m a
         (now + minutes (case retry_backoff bs a of Inr b \<Rightarrow> b | Inl _ \<Rightarrow> 0)) now
       else failed_row h m a now) w)"
  using assms by (auto simp: handle_failure_def Let_def split: if_splits sum.splits)

subsection \<open>Claims exclude each other\<close>

lemma claim_execution_get:
  "get_exec_row (snd (claim_execution e s now w)) e' =
   (if e' = e then map_option (\<lambda>r. if ex_status r = s then claim_row now r else r) (get_exec_row w e)
    else get_exec_row w e')"
  by (simp add: claim_execution_def claim_upd.get_where)

lemma claim_execution_won:
  assumes "exec_keys_ok w"
  shows "fst (claim_execution e s now w) \<longleftrightarrow> map_option ex_status (get_exec_row w e) = Some s"
proof
  assume "fst (claim_execution e s now w)"
  then obtain r where "r \<in> set (executions w)" "ex_id r = e" "ex_status r = s"
    by (auto simp: claim_execution_def list_ex_iff)
  with get_exec_row_mem [OF assms] show "map_option ex_status (get_exec_row w e) = Some s" by auto
next
  assume "map_option ex_status (get_exec_row w e) = Some s"
  then show "fst (claim_execution e s now w)"
    by (auto simp: claim_execution_def list_ex_iff dest: get_exec_row_SomeD)
qed

lemma claim_execution_lost:
  "\<not> fst (claim_execution e s now w) \<Longrightarrow> snd (claim_execution e s now w) = w"
  by (auto simp: claim_execution_def list_ex_iff intro!: world.equality update_where_none)

lemma claim_execution_keys_ok [simp]:
  "exec_keys_ok (snd (claim_execution e s now w)) \<longleftrightarrow> exec_keys_ok w"
  by (simp add: claim_execution_def claim_upd.keys_ok_where)

text \<open>Workers racing for one execution, one claim after the other in any order of arrival.\<close>

fun claim_race :: "uuid \<Rightarrow> exec_state \<Rightarrow> time list \<Rightarrow> world \<Rightarrow> bool list \<times> world" where
  "claim_race e s [] w = ([], w)"
| "claim_race e s (t # ts) w =
     (let (b, w1) = claim_execution e s t w; (bs, w2) = claim_race e s ts w1 in (b # bs, w2))"

lemma claim_race_no_winner:
  "exec_keys_ok w \<Longrightarrow> map_option ex_status (get_exec_row w e) \<noteq> Some s \<Longrightarrow>
   claim_race e s ts w = (replicate (length ts) False, w)"
proof (induction ts)
  case Nil
  then show ?case by simp
next
  case (Cons t ts)
  have "\<not> fst (claim_execution e s t w)"
    using Cons.prems by (simp add: claim_execution_won)
  moreover from this have "snd (claim_execution e s t w) = w" by (rule claim_execution_lost)
  ultimately have "claim_execution e s t w = (False, w)" by (metis (full_types) prod.collapse)
  with Cons show ?case by simp
qed

text \<open>
  One winner per claim race: when any number of workers try to claim one execution from the
  same expected status, in any order, exactly one of them wins if the execution is in that
  status, and none otherwise; the winner is the first to arrive and the row ends in
  \<open>delivering\<close>.
\<close>

theorem claim_race_one_winner:
  assumes "exec_keys_ok w" and "s \<noteq> Delivering" and "get_exec_row w e = Some r"
  shows "claim_race e s (t # ts) w =
    (if ex_status r = s
     then (True # replicate (length ts) False, snd (claim_execution e s t w))
     else (False # replicate (length ts) False, w))"
proof (cases "ex_status r = s")
  case True
  let ?w1 = "snd (claim_execution e s t w)"
  have won: "fst (claim_execution e s t w)"
    using assms True by (simp add: claim_execution_won)
  have "get_exec_row ?w1 e = Some (claim_row t r)"
    using assms(3) True by (simp add: claim_execution_get)
  then have "map_option ex_status (get_exec_row ?w1 e) \<noteq> Some s"
    using assms(2) by (simp add: claim_row_def)
  then have "claim_race e s ts ?w1 = (replicate (length ts) False, ?w1)"
    using assms(1) by (simp add: claim_race_no_winner)
  with won True show ?thesis by (simp add: case_prod_unfold Let_def)
next
  case False
  with assms have "claim_race e s (t # ts) w = (replicate (length (t # ts)) False, w)"
    by (intro claim_race_no_winner) auto
  with False show ?thesis by simp
qed

definition example_world :: world where
  "example_world = empty_world\<lparr>executions := [new_execution 11 ''cue_1'' 0 None None 0]\<rparr>"

lemma example_world_facts:
  "exec_keys_ok example_world"
  "get_exec_row example_world 11 = Some (new_execution 11 ''cue_1'' 0 None None 0)"
  by (simp_all add: example_world_def exec_keys_ok_def get_exec_row_def)

theorem claim_race_one_winner_witness:
  "fst (claim_race 11 Pending [5, 6, 7] example_world) = [True, False, False]"
  using claim_race_one_winner [OF example_world_facts(1) _ example_world_facts(2), of Pending 5 "[6, 7]"]
  by simp

subsection \<open>What an attempt does to its execution\<close>

text \<open>
  The specification of one finished attempt: the backoff table is read at the attempt number,
  its last entry serving every later attempt; an empty table means one minute.
\<close>

definition backoff_for :: "int list \<Rightarrow> int \<Rightarrow> int" where
  "backoff_for bs attempt = (if bs = [] then 1 else bs ! min (nat (attempt - 1)) (length bs - 1))"

definition max_attempts_of :: "cue_task \<Rightarrow> int" where
  "max_attempts_of p = (case p_retry_max_attempts p of None \<Rightarrow> 3 | Some m \<Rightarrow> m)"

definition backoff_of :: "cue_task \<Rightarrow> int list" where
  "backoff_of p = (case p_retry_backoff_minutes p of None \<Rightarrow> [1, 5, 15] | Some b \<Rightarrow> b)"

definition attempt_spec ::
  "cue_task \<Rightarrow> bool \<times> int option \<times> string option \<Rightarrow> int \<Rightarrow> time \<Rightarrow> execution \<Rightarrow> execution" where
  "attempt_spec p result attempt now =
     (case result of (ok, http, resp) \<Rightarrow>
        if ok then success_row http resp attempt now
        else if attempt < max_attempts_of p then
          retrying_row http (error_text resp) attempt
            (now + minutes (backoff_for (backoff_of p) attempt)) now
        else failed_row http (error_text resp) attempt now)"

lemma retry_backoff_spec: "1 \<le> attempt \<Longrightarrow> retry_backoff bs attempt = Inr (backoff_for bs attempt)"
  using py_index_clamped [of bs "attempt - 1"] by (simp add: retry_backoff_def backoff_for_def)

lemma finish_attempt_executions:
  assumes "1 \<le> attempt"
  shows "\<exists>w'. finish_attempt env p attempt result now w = Inr w' \<and>
    executions w' = executions (update_exec_row (p_execution_id p) (attempt_spec p result attempt now) w)"
proof -
  obtain ok http resp where r: "result = (ok, http, resp)" by (cases result)
  show ?thesis
  proof (cases ok)
    case True
    then show ?thesis
      by (simp add: finish_attempt_def r attempt_spec_def handle_success_executions update_exec_row_def)
  next
    case False
    then show ?thesis
      using assms
      by (simp add: finish_attempt_def r attempt_spec_def handle_failure_def retry_backoff_spec
          max_attempts_of_def backoff_of_def update_exec_row_def Let_def)
  qed
qed

lemma attempt_spec_id [simp]: "ex_id (attempt_spec p result attempt now r) = ex_id r"
  and attempt_spec_slot [simp]: "exec_slot (attempt_spec p result attempt now r) = exec_slot r"
  by (simp_all add: attempt_spec_def success_row_def retrying_row_def failed_row_def exec_slot_def
      split: prod.split)

interpretation attempt_upd: exec_update "attempt_spec p result attempt now" for p result attempt now
  by unfold_locales simp_all

lemma claim_then_finish:
  assumes "exec_keys_ok w" and "get_exec_row w (p_execution_id p) = Some r"
    and "ex_status r = s" and "0 \<le> ex_attempts r"
  shows "\<exists>w1. claim_attempt p s now w = (Some (ex_attempts r + 1), w1) \<and>
    (\<exists>w'. finish_attempt env p (ex_attempts r + 1) result t w1 = Inr w' \<and>
       (\<forall>e. get_exec_row w' e =
          (if e = p_execution_id p
           then Some (attempt_spec p result (ex_attempts r + 1) t (claim_row now r))
           else get_exec_row w e)))"
proof -
  let ?e = "p_execution_id p" and ?w1 = "snd (claim_execution (p_execution_id p) s now w)"
  have won: "fst (claim_execution ?e s now w)"
    using assms by (simp add: claim_execution_won)
  have row: "get_exec_row ?w1 ?e = Some (claim_row now r)"
    using assms by (simp add: claim_execution_get)
  have claim: "claim_attempt p s now w = (Some (ex_attempts r + 1), ?w1)"
    using won row by (simp add: claim_attempt_def claim_row_def case_prod_unfold Let_def)
  obtain w' where fin: "finish_attempt env p (ex_attempts r + 1) result t ?w1 = Inr w'"
      and ex: "executions w' = executions (update_exec_row ?e
        (attempt_spec p result (ex_attempts r + 1) t) ?w1)"
    using finish_attempt_executions [of "ex_attempts r + 1" env p result t ?w1] assms(4) by auto
  have "get_exec_row w' e = (if e = ?e then Some (attempt_spec p result (ex_attempts r + 1) t
      (claim_row now r)) else get_exec_row w e)" for e
    using get_exec_row_cong [OF ex, of e] assms(2,3)
    by (simp add: attempt_upd.get_row claim_execution_get)
  with claim fin show ?thesis by blast
qed

text \<open>
  C16. The delivery task meets its specification: for a pending execution that passes the quota
  check, the task returns, the execution row is exactly the claimed row updated by the
  verdict of the HTTP call (success; or retrying at now plus the backoff of this attempt while the
  attempt number is below the maximum; or failed), the attempt number is one more than before, and
  no other execution changes.
\<close>

theorem deliver_task_refines_spec:
  assumes "exec_keys_ok w" and "get_exec_row w (p_execution_id p) = Some r"
    and "ex_status r = Pending" and "0 \<le> ex_attempts r"
    and "quota_gate env p now w = Inr (True, w1)"
  shows "\<exists>w'. deliver_webhook_task env p now done w = Inr w' \<and>
    (\<forall>e. get_exec_row w' e =
       (if e = p_execution_id p
        then Some (attempt_spec p (deliver_webhook (e_net env) now p (ex_attempts r + 1))
               (ex_attempts r + 1) done (claim_row now r))
        else get_exec_row w e))"
proof -
  have fr: "executions w1 = executions w"
    using assms(5) by (auto simp: quota_gate_def Let_def dest: check_execution_limit_frame
        split: option.splits if_splits sum.splits prod.splits)
  have ok1: "exec_keys_ok w1" using assms(1) exec_keys_ok_frame [OF fr] by simp
  have get1: "get_exec_row w1 e = get_exec_row w e" for e by (rule get_exec_row_cong [OF fr])
  obtain w2 w' where "claim_attempt p Pending now w1 = (Some (ex_attempts r + 1), w2)"
    and "finish_attempt env p (ex_attempts r + 1)
        (deliver_webhook (e_net env) now p (ex_attempts r + 1)) done w2 = Inr w'"
    and "\<forall>e. get_exec_row w' e = (if e = p_execution_id p
        then Some (attempt_spec p (deliver_webhook (e_net env) now p (ex_attempts r + 1))
               (ex_attempts r + 1) done (claim_row now r))
        else get_exec_row w1 e)"
    using claim_then_finish [OF ok1, of p r Pending now env
        "deliver_webhook (e_net env) now p (ex_attempts r + 1)" "done"] assms(2-4) get1 by auto
  with assms(5) get1 show ?thesis by (simp add: deliver_webhook_task_def)
qed

definition example_env :: env where
  "example_env = \<lparr>e_net = example_net, e_has_redis = False, e_redis_up = True, e_pg_ok = True,
     e_resend_key = True, e_mail_ok = (\<lambda>_. True)\<rparr>"

theorem deliver_task_refines_spec_witness:
  "\<exists>w'. deliver_webhook_task example_env example_task 10 20 example_world = Inr w' \<and>
     get_exec_row w' 11 = Some (attempt_spec example_task
        (deliver_webhook example_net 10 example_task 1) 1 20
        (claim_row 10 (new_execution 11 ''cue_1'' 0 None None 0)))"
proof -
  have q: "quota_gate example_env example_task 10 example_world = Inr (True, example_world)"
    by (simp add: quota_gate_def example_env_def example_task_def)
  have e: "p_execution_id example_task = 11" by (simp add: example_task_def)
  from deliver_task_refines_spec [OF example_world_facts(1) _ _ _ q, of _ 20]
  show ?thesis by (auto simp: e example_world_facts(2)) (auto simp: example_env_def)
qed

text \<open>
  The retry task meets the same specification from the status \<open>retry_ready\<close>.
\<close>

theorem retry_task_refines_spec:
  assumes "exec_keys_ok w" and "get_exec_row w (p_execution_id p) = Some r"
    and "ex_status r = RetryReady" and "0 \<le> ex_attempts r"
  shows "\<exists>w'. retry_webhook_task env p now done w = Inr w' \<and>
    (\<forall>e. get_exec_row w' e =
       (if e = p_execution_id p
        then Some (attempt_spec p (deliver_webhook (e_net env) now p (ex_attempts r + 1))
               (ex_attempts r + 1) done (claim_row now r))
        else get_exec_row w e))"
  using claim_then_finish [OF assms, of now env
      "deliver_webhook (e_net env) now p (ex_attempts r + 1)" "done"]
  by (auto simp: retry_webhook_task_def)

definition retry_world :: world where
  "retry_world = empty_world\<lparr>executions :=
     [(new_execution 11 ''cue_1'' 0 None None 0)\<lparr>ex_status := RetryReady, ex_attempts := 2\<rparr>]\<rparr>"

theorem retry_task_refines_spec_witness:
  "\<exists>w'. retry_webhook_task example_env example_task 10 20 retry_world = Inr w' \<and>
     map_option ex_attempts (get_exec_row w' 11) = Some 3"
proof -
  have e: "p_execution_id example_task = 11" by (simp add: example_task_def)
  have ok: "exec_keys_ok retry_world" by (simp add: retry_world_def exec_keys_ok_def)
  have g: "get_exec_row retry_world (p_execution_id example_task) =
      Some ((new_execution 11 ''cue_1'' 0 None None 0)\<lparr>ex_status := RetryReady, ex_attempts := 2\<rparr>)"
    by (simp add: retry_world_def get_exec_row_def e)
  from retry_task_refines_spec [OF ok g, of example_env 10 20] show ?thesis
    by (auto simp: e attempt_spec_def success_row_def retrying_row_def failed_row_def split: prod.split)
qed



end
