(* ===== verification/Scheduler.thy ===== *)
theory Scheduler
  imports ExecTasks
begin

section \<open>Polling due cues, retries and the outbox (\<open>src/worker/poller.py\<close>)\<close>

text \<open>
  The poller's three producing loops. A batch is one database transaction: it reads the rows
  that are due and not locked by another transaction (\<open>FOR UPDATE SKIP LOCKED\<close>, the predicate
  \<open>locked\<close>), ordered and limited as in the source, and folds the loop body over that snapshot;
  an exception aborts the transaction, so nothing of the batch remains.

  The cron library with its time zones is the parameter \<open>cron\<close>: \<open>cron expr tz base\<close> is the next
  firing time after \<open>base\<close>, \<open>None\<close> when the library raises. \<open>ids i\<close> is the UUID generated for
  the i-th cue of a batch.
\<close>

type_synonym cron_fn = "string \<Rightarrow> string \<Rightarrow> time \<Rightarrow> time option"

definition get_next_run_for_cron :: "cron_fn \<Rightarrow> string \<Rightarrow> string \<Rightarrow> time option \<Rightarrow> time \<Rightarrow> time option" where
  "get_next_run_for_cron cron expression tz after now =
     cron expression tz (case after of Some a \<Rightarrow> a | None \<Rightarrow> now)"

subsection \<open>Due cues\<close>

definition cue_is_due :: "time \<Rightarrow> cue \<Rightarrow> bool" where
  "cue_is_due now c \<longleftrightarrow> cue_status c = CueActive
     \<and> (case cue_next_run c of Some t \<Rightarrow> t \<le> now | None \<Rightarrow> False)"

definition due_cues :: "(string \<Rightarrow> bool) \<Rightarrow> time \<Rightarrow> nat \<Rightarrow> world \<Rightarrow> cue list" where
  "due_cues locked now batch_size w =
     take batch_size (sort_key (\<lambda>c. the (cue_next_run c))
       (filter (\<lambda>c. cue_is_due now c \<and> \<not> locked (cue_id c)) (cues w)))"

definition deliver_payload :: "cue \<Rightarrow> uuid \<Rightarrow> time \<Rightarrow> int \<Rightarrow> string \<Rightarrow> cue_task" where
  "deliver_payload c e scheduled_for monthly_limit secret =
     \<lparr>p_cue_id = cue_id c, p_cue_name = cue_name c, p_user_id = Some (cue_user_id c),
      p_execution_id = e, p_scheduled_for = scheduled_for, p_callback_url = cue_callback_url c,
      p_callback_method = cue_callback_method c, p_callback_headers = cue_callback_headers c,
      p_payload = cue_payload c, p_retry_max_attempts = Some (cue_retry_max_attempts c),
      p_retry_backoff_minutes = Some (cue_retry_backoff_minutes c),
      p_monthly_execution_limit = Some monthly_limit, p_webhook_secret = secret\<rparr>"

text \<open>INSERT INTO executions ... ON CONFLICT (cue_id, scheduled_for) DO NOTHING.\<close>

definition slot_taken :: "world \<Rightarrow> string \<Rightarrow> time \<Rightarrow> bool" where
  "slot_taken w c t \<longleftrightarrow> (c, t) \<in> set (map exec_slot (executions w))"

definition fire_due_cue :: "time \<Rightarrow> cue \<Rightarrow> uuid \<Rightarrow> time \<Rightarrow> world \<Rightarrow> world" where
  "fire_due_cue now c e scheduled_for w =
     (if slot_taken w (cue_id c) scheduled_for then w
      else
        (let w1 = w\<lparr>executions := executions w @ [new_execution e (cue_id c) scheduled_for None None now]\<rparr>;
             w2 = update_cue_row (cue_id c)
                    (\<lambda>r. r\<lparr>cue_fired_count := cue_fired_count r + 1, cue_updated_at := now\<rparr>) w1
         in if cue_callback_transport c = WorkerPull then w2
            else
              (let user_row = get_user_row w2 (cue_user_id c);
                   monthly_limit = (case user_row of Some u \<Rightarrow> usr_monthly_execution_limit u | None \<Rightarrow> 0);
                   secret = (case user_row of Some u \<Rightarrow> usr_webhook_secret u | None \<Rightarrow> '''')
               in insert_outbox (Some e) (Some (cue_id c)) Deliver
                    (CueTask (deliver_payload c e scheduled_for monthly_limit secret)) None now w2)))"

definition next_run_after :: "cron_fn \<Rightarrow> time \<Rightarrow> cue \<Rightarrow> time \<Rightarrow> py_error + time option" where
  "next_run_after cron now c scheduled_for =
     (case (cue_schedule_type c, cue_schedule_cron c) of
        (Recurring, Some expr) \<Rightarrow>
          if expr = [] then Inr None
          else (case get_next_run_for_cron cron expr (cue_schedule_timezone c) (Some scheduled_for) now of
                  Some t \<Rightarrow> Inr (Some t) | None \<Rightarrow> Inl CronError)
      | _ \<Rightarrow> Inr None)"

text \<open>The body of the loop over the due cues.\<close>

definition process_due_cue :: "cron_fn \<Rightarrow> time \<Rightarrow> cue \<times> uuid \<Rightarrow> world \<Rightarrow> py_error + world" where
  "process_due_cue cron now ce w =
     (let (c, e) = ce; scheduled_for = the (cue_next_run c);
          w1 = fire_due_cue now c e scheduled_for w
      in case next_run_after cron now c scheduled_for of
           Inl err \<Rightarrow> Inl err
         | Inr next \<Rightarrow>
             Inr (update_cue_row (cue_id c) (\<lambda>r. r\<lparr>cue_next_run := next, cue_updated_at := now\<rparr>) w1))"

definition process_cue_batch ::
  "cron_fn \<Rightarrow> (string \<Rightarrow> bool) \<Rightarrow> (nat \<Rightarrow> uuid) \<Rightarrow> time \<Rightarrow> nat \<Rightarrow> world \<Rightarrow> py_error + (nat \<times> world)" where
  "process_cue_batch cron locked ids now batch_size w =
     (let due = due_cues locked now batch_size w
      in case fold_res (process_due_cue cron now) (zip due (map ids [0..<length due])) w of
           Inl err \<Rightarrow> Inl err
         | Inr w' \<Rightarrow> Inr (length due, w'))"

definition MAX_DRAIN_ITERATIONS :: nat where
  "MAX_DRAIN_ITERATIONS = 20"

text \<open>
  The drain loop; batch \<open>k\<close> sees its own clock, locks and UUIDs. When a batch raises, the
  batches before it are committed, so the exception comes with the world they left.
\<close>

fun drain_loop ::
  "cron_fn \<Rightarrow> (nat \<Rightarrow> string \<Rightarrow> bool) \<Rightarrow> (nat \<Rightarrow> nat \<Rightarrow> uuid) \<Rightarrow> (nat \<Rightarrow> time) \<Rightarrow> nat \<Rightarrow> nat \<Rightarrow> nat \<Rightarrow> nat \<Rightarrow> world
   \<Rightarrow> (py_error \<times> world) + (nat \<times> world)" where
  "drain_loop cron locked ids clock batch_size k 0 processed w = Inr (processed, w)"
| "drain_loop cron locked ids clock batch_size k (Suc left) processed w =
     (case process_cue_batch cron (locked k) (ids k) (clock k) batch_size w of
        Inl err \<Rightarrow> Inl (err, w)
      | Inr (count, w') \<Rightarrow>
          if count < batch_size then Inr (processed + count, w')
          else drain_loop cron locked ids clock batch_size (Suc k) left (processed + count) w')"

definition poll_due_cues ::
  "cron_fn \<Rightarrow> (nat \<Rightarrow> string \<Rightarrow> bool) \<Rightarrow> (nat \<Rightarrow> nat \<Rightarrow> uuid) \<Rightarrow> (nat \<Rightarrow> time) \<Rightarrow> nat \<Rightarrow> world
   \<Rightarrow> (py_error \<times> world) + (nat \<times> world)" where
  "poll_due_cues cron locked ids clock batch_size w =
     drain_loop cron locked ids clock batch_size 0 MAX_DRAIN_ITERATIONS 0 w"

subsection \<open>Due retries\<close>

definition retry_is_due :: "time \<Rightarrow> execution \<Rightarrow> bool" where
  "retry_is_due now e \<longleftrightarrow> ex_status e = Retrying
     \<and> (case ex_next_retry e of Some t \<Rightarrow> t \<le> now | None \<Rightarrow> False)"

definition due_retries :: "(uuid \<Rightarrow> bool) \<Rightarrow> time \<Rightarrow> nat \<Rightarrow> world \<Rightarrow> execution list" where
  "due_retries locked now batch_size w =
     take batch_size (filter (\<lambda>e. retry_is_due now e \<and> \<not> locked (ex_id e)) (executions w))"

definition retry_payload :: "cue \<Rightarrow> uuid \<Rightarrow> time \<Rightarrow> string \<Rightarrow> cue_task" where
  "retry_payload c e scheduled_for secret =
     \<lparr>p_cue_id = cue_id c, p_cue_name = cue_name c, p_user_id = Some (cue_user_id c),
      p_execution_id = e, p_scheduled_for = scheduled_for, p_callback_url = cue_callback_url c,
      p_callback_method = cue_callback_method c, p_callback_headers = cue_callback_headers c,
      p_payload = cue_payload c, p_retry_max_attempts = Some (cue_retry_max_attempts c),
      p_retry_backoff_minutes = Some (cue_retry_backoff_minutes c),
      p_monthly_execution_limit = None, p_webhook_secret = secret\<rparr>"

definition retry_ready_row :: "time \<Rightarrow> execution \<Rightarrow> execution" where
  "retry_ready_row now r = r\<lparr>ex_status := RetryReady, ex_updated_at := now\<rparr>"

text \<open>The body of the loop: an execution whose cue is gone is skipped.\<close>

definition process_retry :: "time \<Rightarrow> execution \<Rightarrow> nat \<times> world \<Rightarrow> nat \<times> world" where
  "process_retry now e cw =
     (let (count, w) = cw in
      case get_cue_row w (ex_cue_id e) of
        None \<Rightarrow> (count, w)
      | Some c \<Rightarrow>
          (let secret = (case get_user_row w (cue_user_id c) of Some u \<Rightarrow> usr_webhook_secret u | None \<Rightarrow> '''');
               w1 = insert_outbox (Some (ex_id e)) (Some (ex_cue_id e)) Retry
                      (CueTask (retry_payload c (ex_id e) (ex_scheduled_for e) secret)) None now w
           in (count + 1, update_exec_row (ex_id e) (retry_ready_row now) w1)))"

definition poll_retries :: "(uuid \<Rightarrow> bool) \<Rightarrow> time \<Rightarrow> nat \<Rightarrow> world \<Rightarrow> nat \<times> world" where
  "poll_retries locked now batch_size w =
     fold (process_retry now) (due_retries locked now batch_size w) (0, w)"

subsection \<open>Dispatching the outbox\<close>

definition row_is_due :: "time \<Rightarrow> outbox_row \<Rightarrow> bool" where
  "row_is_due now r \<longleftrightarrow> \<not> ob_dispatched r
     \<and> (case ob_scheduled_at r of None \<Rightarrow> True | Some t \<Rightarrow> t \<le> now)"

definition due_rows :: "(nat \<Rightarrow> bool) \<Rightarrow> time \<Rightarrow> nat \<Rightarrow> world \<Rightarrow> outbox_row list" where
  "due_rows locked now batch_size w =
     take batch_size (sort_key ob_created_at
       (filter (\<lambda>r. row_is_due now r \<and> \<not> locked (ob_id r)) (outbox w)))"

definition task_name_of :: "task_type \<Rightarrow> task_name" where
  "task_name_of t =
     (case t of Deliver \<Rightarrow> DeliverWebhookTask | Retry \<Rightarrow> RetryWebhookTask
      | DeliverMessage \<Rightarrow> DeliverMessageTask | RetryMessage \<Rightarrow> RetryMessageTask)"

definition update_outbox_row :: "nat \<Rightarrow> (outbox_row \<Rightarrow> outbox_row) \<Rightarrow> world \<Rightarrow> world" where
  "update_outbox_row i f w = w\<lparr>outbox := update_where (\<lambda>r. ob_id r = i) f (outbox w)\<rparr>"

text \<open>
  The body of the loop. \<open>enqueue row\<close> is \<open>None\<close> when the queue takes the job and the text of the
  exception otherwise; a failed row stays undispatched with its attempt counted.
\<close>

definition dispatch_row ::
  "(outbox_row \<Rightarrow> string option) \<Rightarrow> outbox_row \<Rightarrow> nat \<times> world \<Rightarrow> nat \<times> world" where
  "dispatch_row enqueue row cw =
     (let (count, w) = cw in
      case enqueue row of
        None \<Rightarrow>
          (count + 1,
           update_outbox_row (ob_id row) (\<lambda>r. r\<lparr>ob_dispatched := True\<rparr>)
             (w\<lparr>queue := queue w @ [(task_name_of (ob_task_type row), ob_payload row)]\<rparr>))
      | Some err \<Rightarrow>
          (count,
           update_outbox_row (ob_id row)
             (\<lambda>r. r\<lparr>ob_dispatch_attempts := ob_dispatch_attempts r + 1,
                    ob_last_dispatch_error := Some (take 500 err)\<rparr>) w))"

definition dispatch_outbox ::
  "(outbox_row \<Rightarrow> string option) \<Rightarrow> (nat \<Rightarrow> bool) \<Rightarrow> time \<Rightarrow> nat \<Rightarrow> world \<Rightarrow> nat \<times> world" where
  "dispatch_outbox enqueue locked now batch_size w =
     fold (dispatch_row enqueue) (due_rows locked now batch_size w) (0, w)"

text \<open>Old dispatched rows are deleted.\<close>

definition cleanup_outbox :: "int \<Rightarrow> time \<Rightarrow> world \<Rightarrow> nat \<times> world" where
  "cleanup_outbox retention_days now w =
     (let cutoff = now - days retention_days;
          kept = filter (\<lambda>r. \<not> (ob_dispatched r \<and> ob_created_at r < cutoff)) (outbox w)
      in (length (outbox w) - length kept, w\<lparr>outbox := kept\<rparr>))"

subsection \<open>Frames of the loop bodies\<close>

lemma get_user_row_frame [simp]:
  "get_user_row (update_cue_row c f w) u = get_user_row w u"
  "get_user_row (update_exec_row e g w) u = get_user_row w u"
  by (simp_all add: get_user_row_def)

lemma fire_due_cue_executions:
  "executions (fire_due_cue now c e t w) = executions w @
     (if slot_taken w (cue_id c) t then [] else [new_execution e (cue_id c) t None None now])"
  by (simp add: fire_due_cue_def Let_def)

lemma fire_due_cue_cues:
  "get_cue_row (fire_due_cue now c e t w) c' =
     (if c' = cue_id c \<and> \<not> slot_taken w (cue_id c) t
      then map_option (\<lambda>r. r\<lparr>cue_fired_count := cue_fired_count r + 1, cue_updated_at := now\<rparr>)
             (get_cue_row w c')
      else get_cue_row w c')"
  by (simp add: fire_due_cue_def Let_def get_cue_row_update)
    (simp add: get_cue_row_def)

lemma process_due_cue_cases:
  assumes "process_due_cue cron now (c, e) w = Inr w'"
  obtains "next" where "next_run_after cron now c (the (cue_next_run c)) = Inr next"
    and "w' = update_cue_row (cue_id c) (\<lambda>r. r\<lparr>cue_next_run := next, cue_updated_at := now\<rparr>)
           (fire_due_cue now c e (the (cue_next_run c)) w)"
  using assms by (auto simp: process_due_cue_def Let_def split: sum.splits)

lemma process_due_cue_executions:
  assumes "process_due_cue cron now (c, e) w = Inr w'"
  shows "executions w' = executions w @
     (if slot_taken w (cue_id c) (the (cue_next_run c)) then []
      else [new_execution e (cue_id c) (the (cue_next_run c)) None None now])"
  using assms by (rule process_due_cue_cases) (simp add: fire_due_cue_executions)

lemma process_due_cue_outbox:
  assumes "process_due_cue cron now (c, e) w = Inr w'"
    and "\<not> slot_taken w (cue_id c) (the (cue_next_run c))" and "cue_callback_transport c = Webhook"
  shows "\<exists>o' \<in> set (outbox w'). ob_execution_id o' = Some e \<and> ob_task_type o' = Deliver"
  using assms(1)
  by (rule process_due_cue_cases) (use assms(2,3) in \<open>simp add: fire_due_cue_def insert_outbox_def Let_def\<close>)

lemma process_due_cue_outbox_mono:
  assumes "process_due_cue cron now ce w = Inr w'"
  shows "set (outbox w) \<subseteq> set (outbox w')"
proof -
  obtain c e where ce: "ce = (c, e)" by (cases ce)
  from assms [unfolded ce] show ?thesis
    by (rule process_due_cue_cases) (auto simp: fire_due_cue_def insert_outbox_def Let_def)
qed

lemma process_due_cue_row:
  assumes "process_due_cue cron now (c, e) w = Inr w'"
  shows "get_cue_row w' c' =
    (if c' = cue_id c then
       map_option (\<lambda>r. r\<lparr>cue_fired_count := cue_fired_count r +
              (if slot_taken w (cue_id c) (the (cue_next_run c)) then 0 else 1),
            cue_next_run := (case next_run_after cron now c (the (cue_next_run c)) of
            Inr n \<Rightarrow> n | Inl _ \<Rightarrow> None), cue_updated_at := now\<rparr>) (get_cue_row w c')
     else get_cue_row w c')"
  using assms
  by (rule process_due_cue_cases)
    (simp add: get_cue_row_update fire_due_cue_cues option.map_comp o_def)

subsection \<open>Deduplication\<close>

lemma fold_process_executions:
  assumes "fold_res (process_due_cue cron now) ps w = Inr w'"
  shows "\<exists>news. executions w' = executions w @ news \<and>
    set news \<subseteq> (\<lambda>(c, e). new_execution e (cue_id c) (the (cue_next_run c)) None None now) ` set ps"
  using assms
proof (induction ps arbitrary: w)
  case Nil
  then show ?case by simp
next
  case (Cons p ps)
  obtain c e where p: "p = (c, e)" by (cases p)
  from Cons.prems obtain w1 where w1: "process_due_cue cron now (c, e) w = Inr w1"
    and rest: "fold_res (process_due_cue cron now) ps w1 = Inr w'"
    by (auto simp: p split: sum.splits)
  from Cons.IH [OF rest] obtain news where "executions w' = executions w1 @ news"
    and "set news \<subseteq> (\<lambda>(c, e). new_execution e (cue_id c) (the (cue_next_run c)) None None now) ` set ps"
    by blast
  with process_due_cue_executions [OF w1] show ?case by (auto simp: p)
qed

lemma fold_process_keys_ok:
  assumes "fold_res (process_due_cue cron now) ps w = Inr w'" and "exec_keys_ok w"
    and "distinct (map snd ps)" and "set (map snd ps) \<inter> set (map ex_id (executions w)) = {}"
  shows "exec_keys_ok w'"
  using assms
proof (induction ps arbitrary: w)
  case Nil
  then show ?case by simp
next
  case (Cons p ps)
  obtain c e where p: "p = (c, e)" by (cases p)
  from Cons.prems obtain w1 where w1: "process_due_cue cron now (c, e) w = Inr w1"
    and rest: "fold_res (process_due_cue cron now) ps w1 = Inr w'"
    by (auto simp: p split: sum.splits)
  note ex = process_due_cue_executions [OF w1]
  have "exec_keys_ok w1"
    using Cons.prems(2,4) ex by (auto simp: exec_keys_ok_def p slot_taken_def)
  moreover have "set (map snd ps) \<inter> set (map ex_id (executions w1)) = {}"
    using Cons.prems(3,4) ex by (auto simp: p)
  ultimately show ?case using rest Cons.IH Cons.prems(3) by auto
qed

lemma process_cue_batch_fold:
  assumes "process_cue_batch cron locked ids now n w = Inr (count, w')"
  shows "fold_res (process_due_cue cron now)
      (zip (due_cues locked now n w) (map ids [0..<length (due_cues locked now n w)])) w = Inr w'"
    and "count = length (due_cues locked now n w)"
  using assms by (auto simp: process_cue_batch_def Let_def split: sum.splits)

text \<open>
  C6. No double firing: a batch of the cue poller keeps both unique constraints of the execution
  table, for any set of rows locked by other transactions, provided the generated UUIDs are
  pairwise different and unused. In particular no cue ever has two executions for one firing
  time, however often it is polled.
\<close>

theorem cue_batch_deduplicates:
  assumes "process_cue_batch cron locked ids now n w = Inr (count, w')"
    and "exec_keys_ok w" and "inj ids" and "\<And>i. ids i \<notin> set (map ex_id (executions w))"
  shows "exec_keys_ok w'"
proof (rule fold_process_keys_ok [OF process_cue_batch_fold(1) [OF assms(1)] assms(2)])
  let ?k = "length (due_cues locked now n w)"
  have snds: "map snd (zip (due_cues locked now n w) (map ids [0..<?k])) = map ids [0..<?k]"
    by simp
  show "distinct (map snd (zip (due_cues locked now n w) (map ids [0..<?k])))"
    unfolding snds using assms(3) by (simp add: distinct_map inj_on_def inj_def)
  show "set (map snd (zip (due_cues locked now n w) (map ids [0..<?k])))
      \<inter> set (map ex_id (executions w)) = {}"
    unfolding snds using assms(4) by auto
qed

definition every_minute :: cron_fn where
  "every_minute expr tz base = Some (base + minutes 1)"

definition polled_world :: world where
  "polled_world = empty_world\<lparr>cues := [example_cue]\<rparr>"

lemma polled_world_due: "due_cues (\<lambda>_. False) 200 500 polled_world = [example_cue]"
  by (simp add: due_cues_def polled_world_def empty_world_def cue_is_due_def example_cue_def)

lemma polled_world_batch:
  "\<exists>w'. process_cue_batch every_minute (\<lambda>_. False) (\<lambda>i. 40 + i) 200 500 polled_world = Inr (1, w')"
  by (simp add: process_cue_batch_def polled_world_due process_due_cue_def next_run_after_def
      example_cue_def get_next_run_for_cron_def every_minute_def Let_def)

theorem cue_batch_deduplicates_witness:
  "\<exists>w'. process_cue_batch every_minute (\<lambda>_. False) (\<lambda>i. 40 + i) 200 500 polled_world = Inr (1, w')
     \<and> exec_keys_ok w'"
proof -
  from polled_world_batch obtain w' where
    b: "process_cue_batch every_minute (\<lambda>_. False) (\<lambda>i. 40 + i) 200 500 polled_world = Inr (1, w')"
    by blast
  have "exec_keys_ok polled_world" by (simp add: polled_world_def empty_world_def exec_keys_ok_def)
  from cue_batch_deduplicates [OF b this] have "exec_keys_ok w'"
    by (simp add: inj_def polled_world_def empty_world_def)
  with b show ?thesis by blast
qed

subsection \<open>The transactional outbox\<close>

text \<open>
  Every pending execution of a webhook cue has its delivery row: the invariant that no fired job
  is lost between the tables.
\<close>

definition webhook_covered :: "world \<Rightarrow> bool" where
  "webhook_covered w \<longleftrightarrow>
     (\<forall>x \<in> set (executions w). \<forall>c. ex_status x = Pending \<longrightarrow>
        get_cue_row w (ex_cue_id x) = Some c \<longrightarrow> cue_callback_transport c = Webhook \<longrightarrow>
        (\<exists>o' \<in> set (outbox w). ob_execution_id o' = Some (ex_id x) \<and> ob_task_type o' = Deliver))"

definition same_transport :: "world \<Rightarrow> world \<Rightarrow> bool" where
  "same_transport w w' \<longleftrightarrow>
     (\<forall>c. map_option cue_callback_transport (get_cue_row w' c) =
          map_option cue_callback_transport (get_cue_row w c))"

lemma process_due_cue_transport:
  assumes "process_due_cue cron now ce w = Inr w'"
  shows "same_transport w w'"
proof -
  obtain c e where "ce = (c, e)" by (cases ce)
  with assms show ?thesis
    by (auto simp: same_transport_def process_due_cue_row option.map_comp o_def)
qed

lemma same_transport_trans: "same_transport a b \<Longrightarrow> same_transport b c \<Longrightarrow> same_transport a c"
  by (simp add: same_transport_def)

lemma process_due_cue_covered:
  assumes step: "process_due_cue cron now (c, e) w = Inr w'" and cov: "webhook_covered w"
    and tr: "map_option cue_callback_transport (get_cue_row w (cue_id c)) = Some (cue_callback_transport c)"
  shows "webhook_covered w'"
  unfolding webhook_covered_def
proof (intro ballI allI impI)
  fix x d
  assume x: "x \<in> set (executions w')" "ex_status x = Pending"
    and d: "get_cue_row w' (ex_cue_id x) = Some d" "cue_callback_transport d = Webhook"
  have same: "same_transport w w'" using step by (rule process_due_cue_transport)
  have sub: "set (outbox w) \<subseteq> set (outbox w')" using step by (rule process_due_cue_outbox_mono)
  show "\<exists>o' \<in> set (outbox w'). ob_execution_id o' = Some (ex_id x) \<and> ob_task_type o' = Deliver"
  proof (cases "x \<in> set (executions w)")
    case True
    from same [unfolded same_transport_def, rule_format, of "ex_cue_id x"] d
    obtain d0 where "get_cue_row w (ex_cue_id x) = Some d0" "cue_callback_transport d0 = Webhook"
      by (cases "get_cue_row w (ex_cue_id x)") simp_all
    with cov True x(2) sub show ?thesis unfolding webhook_covered_def by blast
  next
    case False
    with x(1) process_due_cue_executions [OF step]
    have new: "x = new_execution e (cue_id c) (the (cue_next_run c)) None None now"
      and free: "\<not> slot_taken w (cue_id c) (the (cue_next_run c))"
      by (auto split: if_splits)
    from same [unfolded same_transport_def, rule_format, of "cue_id c"] d tr new
    have "cue_callback_transport c = Webhook" by simp
    with process_due_cue_outbox [OF step free] new show ?thesis by simp
  qed
qed

lemma due_cues_subset: "set (due_cues locked now n w) \<subseteq> set (cues w)"
  by (auto simp: due_cues_def dest: in_set_takeD)

lemma get_cue_row_mem:
  "distinct (map cue_id (cues w)) \<Longrightarrow> c \<in> set (cues w) \<Longrightarrow> get_cue_row w (cue_id c) = Some c"
  unfolding get_cue_row_def by (rule find_key_distinct)



subsection \<open>Every due cue fires and moves on\<close>

lemma fold_process_other:
  assumes "fold_res (process_due_cue cron now) ps w = Inr w'" and "c' \<notin> cue_id ` fst ` set ps"
  shows "get_cue_row w' c' = get_cue_row w c'"
proof (rule fold_res_invariant [OF assms(1)])
  fix x s s'
  assume x: "x \<in> set ps" and "get_cue_row s c' = get_cue_row w c'"
    and "process_due_cue cron now x s = Inr s'"
  moreover obtain c e where "x = (c, e)" by (cases x)
  moreover from calculation x assms(2) have "c' \<noteq> cue_id c" by force
  ultimately show "get_cue_row s' c' = get_cue_row w c'"
    by (simp add: process_due_cue_row)
qed simp

lemma slot_taken_mono:
  "executions w' = executions w @ news \<Longrightarrow> slot_taken w c t \<Longrightarrow> slot_taken w' c t"
  by (auto simp: slot_taken_def)

lemma fold_process_fires:
  assumes "fold_res (process_due_cue cron now) ps w = Inr w'" and "(c, e) \<in> set ps"
    and "distinct (map (cue_id \<circ> fst) ps)" and "get_cue_row w (cue_id c) = Some r"
  shows "\<exists>r' n. get_cue_row w' (cue_id c) = Some r'
    \<and> next_run_after cron now c (the (cue_next_run c)) = Inr n \<and> cue_next_run r' = n
    \<and> slot_taken w' (cue_id c) (the (cue_next_run c))"
  using assms
proof (induction ps arbitrary: w r)
  case Nil
  then show ?case by simp
next
  case (Cons p ps)
  obtain d i where p: "p = (d, i)" by (cases p)
  from Cons.prems obtain w1 where w1: "process_due_cue cron now (d, i) w = Inr w1"
    and rest: "fold_res (process_due_cue cron now) ps w1 = Inr w'"
    by (auto simp: p split: sum.splits)
  show ?case
  proof (cases "(c, e) = p")
    case True
    then have dc: "d = c" "i = e" using p by auto
    from w1 [unfolded dc] obtain n where n: "next_run_after cron now c (the (cue_next_run c)) = Inr n"
      by (rule process_due_cue_cases)
    have "cue_id c \<notin> cue_id ` fst ` set ps"
      using Cons.prems(3) dc p by (auto simp: image_comp)
    then have same: "get_cue_row w' (cue_id c) = get_cue_row w1 (cue_id c)"
      by (rule fold_process_other [OF rest])
    have "slot_taken w1 (cue_id c) (the (cue_next_run c))"
      using process_due_cue_executions [OF w1] dc by (auto simp: slot_taken_def)
    moreover obtain news where "executions w' = executions w1 @ news"
      using fold_process_executions [OF rest] by blast
    ultimately have "slot_taken w' (cue_id c) (the (cue_next_run c))" using slot_taken_mono by blast
    with same n show ?thesis
      using Cons.prems(4) by (simp add: process_due_cue_row [OF w1] dc)
  next
    case False
    with Cons.prems(2) have mem: "(c, e) \<in> set ps" by simp
    with Cons.prems(3) p have "cue_id d \<noteq> cue_id c" by (force simp: image_iff)
    then have "get_cue_row w1 (cue_id c) = Some r"
      using Cons.prems(4) by (simp add: process_due_cue_row [OF w1])
    with Cons.IH [OF rest mem] Cons.prems(3) show ?thesis by simp
  qed
qed

lemma due_cues_distinct:
  assumes "distinct (map cue_id (cues w))"
  shows "distinct (map cue_id (due_cues locked now n w))"
proof -
  have "distinct (map cue_id (sort_key (\<lambda>c. the (cue_next_run c))
      (filter (\<lambda>c. cue_is_due now c \<and> \<not> locked (cue_id c)) (cues w))))"
    using assms by (simp add: distinct_map inj_on_def)
  then show ?thesis unfolding due_cues_def by (metis distinct_take take_map)
qed

text \<open>
  C7. Progress of the poller: in a committed batch every selected cue gets an execution for its
  firing time, and its next run is afterwards empty (a one-time cue, or a recurring one with no
  cron expression) or strictly later than the firing time, given that the cron library answers with a later
  time. So a one-time cue is never selected again by its schedule, and a recurring one never
  twice for the same time.
\<close>

theorem cue_batch_fires_and_advances:
  assumes "process_cue_batch cron locked ids now n w = Inr (count, w')"
    and "distinct (map cue_id (cues w))"
    and "\<And>expr tz base t. cron expr tz base = Some t \<Longrightarrow> base < t"
    and "c \<in> set (due_cues locked now n w)"
  shows "slot_taken w' (cue_id c) (the (cue_next_run c))
    \<and> (\<exists>c'. get_cue_row w' (cue_id c) = Some c'
         \<and> (case cue_next_run c' of
              None \<Rightarrow> True
            | Some t \<Rightarrow> cue_schedule_type c = Recurring \<and> the (cue_next_run c) < t))"
proof -
  let ?due = "due_cues locked now n w"
  let ?ps = "zip ?due (map ids [0..<length ?due])"
  obtain e where mem: "(c, e) \<in> set ?ps"
    using assms(4) by (metis in_set_impl_in_set_zip1 length_map length_upt diff_zero)
  have "map (cue_id \<circ> fst) ?ps = map cue_id ?due"
    by (simp add: map_map [symmetric] del: map_map)
  then have dist: "distinct (map (cue_id \<circ> fst) ?ps)"
    using due_cues_distinct [OF assms(2)] by simp
  have "get_cue_row w (cue_id c) = Some c"
    using assms(2) due_cues_subset [THEN subsetD, OF assms(4)] by (rule get_cue_row_mem)
  from fold_process_fires [OF process_cue_batch_fold(1) [OF assms(1)] mem dist this]
  obtain r' m where "get_cue_row w' (cue_id c) = Some r'" "cue_next_run r' = m"
    and m: "next_run_after cron now c (the (cue_next_run c)) = Inr m"
    and "slot_taken w' (cue_id c) (the (cue_next_run c))" by blast
  moreover from m assms(3) have "case m of None \<Rightarrow> True
      | Some t \<Rightarrow> cue_schedule_type c = Recurring \<and> the (cue_next_run c) < t"
    by (auto simp: next_run_after_def get_next_run_for_cron_def
        split: schedule_type.splits option.splits if_splits)
  ultimately show ?thesis by auto
qed

theorem cue_batch_fires_and_advances_witness:
  "\<exists>w'. process_cue_batch every_minute (\<lambda>_. False) (\<lambda>i. 40 + i) 200 500 polled_world = Inr (1, w')
     \<and> slot_taken w' ''cue_1'' 100"
proof -
  from polled_world_batch obtain w' where
    b: "process_cue_batch every_minute (\<lambda>_. False) (\<lambda>i. 40 + i) 200 500 polled_world = Inr (1, w')"
    by blast
  have c: "cue_id example_cue = ''cue_1''" "cue_next_run example_cue = Some 100"
    by (simp_all add: example_cue_def)
  have "distinct (map cue_id (cues polled_world))" by (simp add: polled_world_def)
  from cue_batch_fires_and_advances [OF b this, of example_cue] have "slot_taken w' ''cue_1'' 100"
    by (simp add: polled_world_due c every_minute_def)
  with b show ?thesis by blast
qed

subsection \<open>Dispatching: what reaches the queue, what stays\<close>

definition dispatched_as :: "(outbox_row \<Rightarrow> string option) \<Rightarrow> outbox_row \<Rightarrow> outbox_row \<Rightarrow> outbox_row" where
  "dispatched_as enqueue row r =
     (case enqueue row of
        None \<Rightarrow> r\<lparr>ob_dispatched := True\<rparr>
      | Some err \<Rightarrow> r\<lparr>ob_dispatch_attempts := ob_dispatch_attempts r + 1,
                     ob_last_dispatch_error := Some (take 500 err)\<rparr>)"

interpretation dispatch_batch: row_batch ob_id "dispatched_as enqueue" for enqueue
  by unfold_locales (simp add: dispatched_as_def split: option.splits)

lemma dispatch_row_step:
  "outbox (snd (dispatch_row enqueue d (n, w))) =
     update_where (\<lambda>r. ob_id r = ob_id d) (dispatched_as enqueue d) (outbox w)"
  "queue (snd (dispatch_row enqueue d (n, w))) = queue w @
     (if enqueue d = None then [(task_name_of (ob_task_type d), ob_payload d)] else [])"
  "fst (dispatch_row enqueue d (n, w)) = n + (if enqueue d = None then 1 else 0)"
  by (cases "enqueue d"; simp add: dispatch_row_def update_outbox_row_def dispatched_as_def [abs_def])+

lemma fold_dispatch_rows:
  "outbox (snd (fold (dispatch_row enqueue) ds (n, w))) =
     fold (\<lambda>d. update_where (\<lambda>r. ob_id r = ob_id d) (dispatched_as enqueue d)) ds (outbox w)"
  "queue (snd (fold (dispatch_row enqueue) ds (n, w))) =
     queue w @ map (\<lambda>r. (task_name_of (ob_task_type r), ob_payload r)) (filter (\<lambda>r. enqueue r = None) ds)"
  "fst (fold (dispatch_row enqueue) ds (n, w)) = n + length (filter (\<lambda>r. enqueue r = None) ds)"
proof (induction ds arbitrary: n w)
  case (Cons d ds)
  { case 1 show ?case
      by (cases "dispatch_row enqueue d (n, w)") (use Cons.IH(1) dispatch_row_step [of enqueue d n w] in simp) }
  { case 2 show ?case
      by (cases "dispatch_row enqueue d (n, w)") (use Cons.IH(2) dispatch_row_step [of enqueue d n w] in simp) }
  { case 3 show ?case
      by (cases "dispatch_row enqueue d (n, w)") (use Cons.IH(3) dispatch_row_step [of enqueue d n w] in simp) }
qed simp_all

lemma due_rows_subset: "set (due_rows locked now n w) \<subseteq> set (outbox w)"
  by (auto simp: due_rows_def dest: in_set_takeD)

lemma due_rows_distinct: "distinct (outbox w) \<Longrightarrow> distinct (due_rows locked now n w)"
  by (simp add: due_rows_def)

text \<open>
  C9. The outbox loses nothing: for every behaviour of the queue, a dispatch cycle appends to the
  queue exactly one job for each selected row the queue accepted, in creation order, with the
  task its type stands for; it marks exactly those rows dispatched, counts one more attempt on
  the rows the queue refused, which stay undispatched for the next cycle, and leaves every
  other row as it was. The returned number is the number of jobs queued.
\<close>

theorem dispatch_outbox_exact:
  assumes "distinct (map ob_id (outbox w))" and "dispatch_outbox enqueue locked now n w = (count, w')"
  shows "queue w' = queue w @ map (\<lambda>r. (task_name_of (ob_task_type r), ob_payload r))
             (filter (\<lambda>r. enqueue r = None) (due_rows locked now n w))
    \<and> outbox w' = map (\<lambda>r. if r \<in> set (due_rows locked now n w) then
          (case enqueue r of
             None \<Rightarrow> r\<lparr>ob_dispatched := True\<rparr>
           | Some err \<Rightarrow> r\<lparr>ob_dispatch_attempts := ob_dispatch_attempts r + 1,
                          ob_last_dispatch_error := Some (take 500 err)\<rparr>)
          else r) (outbox w)
    \<and> count = length (queue w') - length (queue w)"
proof -
  let ?ds = "due_rows locked now n w"
  have w': "w' = snd (fold (dispatch_row enqueue) ?ds (0, w))"
    and count: "count = fst (fold (dispatch_row enqueue) ?ds (0, w))"
    using assms(2) by (simp_all add: dispatch_outbox_def)
  have "distinct ?ds" using assms(1) by (simp add: distinct_map due_rows_distinct)
  from dispatch_batch.batch_simultaneous [OF assms(1) due_rows_subset this, of enqueue]
  show ?thesis unfolding w' count fold_dispatch_rows by (simp add: dispatched_as_def cong: if_cong)
qed

definition message_row :: "nat \<Rightarrow> outbox_row" where
  "message_row i = \<lparr>ob_id = i, ob_execution_id = None, ob_cue_id = None, ob_task_type = DeliverMessage,
     ob_payload = MessageTask \<lparr>m_message_id = ''msg_1'', m_to_agent_id = ''agt_1'',
       m_webhook_url = None, m_attempt = None\<rparr>,
     ob_dispatched = False, ob_dispatch_attempts = 0, ob_last_dispatch_error = None,
     ob_scheduled_at = None, ob_created_at = 10\<rparr>"

definition outbox_world :: world where
  "outbox_world = empty_world\<lparr>outbox := [message_row 3, message_row 4]\<rparr>"

definition flaky_queue :: "outbox_row \<Rightarrow> string option" where
  "flaky_queue r = (if ob_id r = 4 then Some ''down'' else None)"

theorem dispatch_outbox_exact_witness:
  "let w' = snd (dispatch_outbox flaky_queue (\<lambda>_. False) 100 500 outbox_world) in
     map fst (queue w') = [DeliverMessageTask]
     \<and> map ob_dispatched (outbox w') = [True, False]
     \<and> map ob_dispatch_attempts (outbox w') = [0, 1]"
proof -
  let ?w' = "snd (dispatch_outbox flaky_queue (\<lambda>_. False) 100 500 outbox_world)"
  have d: "distinct (map ob_id (outbox outbox_world))" by (simp add: outbox_world_def message_row_def)
  have due: "due_rows (\<lambda>_. False) 100 500 outbox_world = [message_row 3, message_row 4]"
    by (simp add: due_rows_def outbox_world_def row_is_due_def message_row_def)
  from dispatch_outbox_exact [OF d, of flaky_queue "\<lambda>_. False" 100 500] show ?thesis
    by (cases "dispatch_outbox flaky_queue (\<lambda>_. False) 100 500 outbox_world")
      (simp add: due, simp add: outbox_world_def empty_world_def flaky_queue_def message_row_def task_name_of_def)
qed

text \<open>
  Retention never drops work: the clean-up keeps every row that has not been dispatched, and
  every row it deletes was dispatched and is older than the retention period.
\<close>

lemma cleanup_keeps_undispatched:
  "outbox (snd (cleanup_outbox d now w)) =
     filter (\<lambda>r. ob_dispatched r \<longrightarrow> now - days d \<le> ob_created_at r) (outbox w)
   \<and> fst (cleanup_outbox d now w) =
     length (filter (\<lambda>r. ob_dispatched r \<and> ob_created_at r < now - days d) (outbox w))"
proof -
  have "length (filter (\<lambda>r. ob_dispatched r \<and> ob_created_at r < now - days d) rs) =
      length rs - length (filter (\<lambda>r. \<not> (ob_dispatched r \<and> ob_created_at r < now - days d)) rs)"
    for rs :: "outbox_row list"
    using sum_length_filter_compl [of "\<lambda>r. ob_dispatched r \<and> ob_created_at r < now - days d" rs] by linarith
  then show ?thesis by (auto simp: cleanup_outbox_def Let_def not_less intro!: filter_cong)
qed

subsection \<open>Due retries are queued once\<close>

interpretation retry_batch: row_batch ex_id "\<lambda>d r. if q d then retry_ready_row now r else r" for now q
  by unfold_locales (simp add: retry_ready_row_def)

lemma process_retry_cues [simp]:
  "get_cue_row (snd (process_retry now e (k, w))) c = get_cue_row w c"
  by (simp add: process_retry_def Let_def split: option.splits)

abbreviation retry_view :: "outbox_row \<Rightarrow> uuid option \<times> task_type \<times> bool \<times> time option" where
  "retry_view r \<equiv> (ob_execution_id r, ob_task_type r, ob_dispatched r, ob_scheduled_at r)"

lemma process_retry_step:
  "executions (snd (process_retry now d (k, w))) = update_where (\<lambda>r. ex_id r = ex_id d)
     (\<lambda>r. if get_cue_row w (ex_cue_id d) \<noteq> None then retry_ready_row now r else r) (executions w)"
  "map retry_view (outbox (snd (process_retry now d (k, w)))) = map retry_view (outbox w) @
     (if get_cue_row w (ex_cue_id d) \<noteq> None then [(Some (ex_id d), Retry, False, None)] else [])"
  by (cases "get_cue_row w (ex_cue_id d)";
      simp add: process_retry_def Let_def update_exec_row_def update_where_def insert_outbox_def)+

lemma fold_process_retry:
  "executions (snd (fold (process_retry now) ds (k, w))) =
     fold (\<lambda>d. update_where (\<lambda>r. ex_id r = ex_id d)
        (\<lambda>r. if get_cue_row w (ex_cue_id d) \<noteq> None then retry_ready_row now r else r)) ds (executions w)"
  "map retry_view (outbox (snd (fold (process_retry now) ds (k, w)))) =
     map retry_view (outbox w) @
     map (\<lambda>d. (Some (ex_id d), Retry, False, None)) (filter (\<lambda>d. get_cue_row w (ex_cue_id d) \<noteq> None) ds)"
proof (induction ds arbitrary: k w)
  case (Cons d ds)
  { case 1 show ?case
      by (cases "process_retry now d (k, w)")
        (use Cons.IH(1) process_retry_step [of now d k w] process_retry_cues [of now d k w] in simp) }
  { case 2 show ?case
      by (cases "process_retry now d (k, w)")
        (use Cons.IH(2) process_retry_step [of now d k w] process_retry_cues [of now d k w] in simp) }
qed simp_all

lemma due_retries_subset: "set (due_retries locked now n w) \<subseteq> set (executions w)"
  by (auto simp: due_retries_def dest: in_set_takeD)

text \<open>
  A due retry is queued exactly once: a retry cycle turns every selected execution whose cue
  still exists into \<open>retry_ready\<close> and appends one undispatched, immediately due retry row for it,
  in the order selected; every other execution is untouched. A second cycle started on the
  result selects none of the queued ones again.
\<close>

theorem poll_retries_exact:
  assumes "exec_keys_ok w" and "poll_retries locked now n w = (count, w')"
    and picked_def: "picked = filter (\<lambda>e. get_cue_row w (ex_cue_id e) \<noteq> None) (due_retries locked now n w)"
  shows "executions w' = map (\<lambda>e. if e \<in> set picked then retry_ready_row now e else e) (executions w)
    \<and> map retry_view (outbox w') =
      map retry_view (outbox w) @
      map (\<lambda>e. (Some (ex_id e), Retry, False, None)) picked
    \<and> (\<forall>e \<in> set (due_retries locked2 now2 n2 w'). ex_id e \<notin> ex_id ` set picked)"
proof -
  let ?ds = "due_retries locked now n w"
  have w': "w' = snd (fold (process_retry now) ?ds (0, w))"
    using assms(2) by (simp add: poll_retries_def)
  have ids: "distinct (map ex_id (executions w))" using assms(1) by (simp add: exec_keys_ok_def)
  then have "distinct (executions w)" by (simp add: distinct_map)
  then have "distinct ?ds" by (simp add: due_retries_def)
  from retry_batch.batch_simultaneous [OF ids due_retries_subset this]
  have ex: "executions w' = map (\<lambda>e. if e \<in> set picked then retry_ready_row now e else e) (executions w)"
    unfolding w' fold_process_retry by (simp add: picked_def)
  have "ex_id e \<notin> ex_id ` set picked" if e: "e \<in> set (due_retries locked2 now2 n2 w')" for e
  proof
    assume "ex_id e \<in> ex_id ` set picked"
    then obtain p where p: "p \<in> set picked" "ex_id e = ex_id p" by blast
    then have mem: "p \<in> set (executions w)"
      using due_retries_subset [THEN subsetD, of p locked now n w] by (simp add: picked_def)
    have "e \<in> set (executions w')" by (rule due_retries_subset [THEN subsetD, OF e])
    then obtain x where x: "x \<in> set (executions w)" "e = (if x \<in> set picked then retry_ready_row now x else x)"
      unfolding ex by auto
    then have "ex_id x = ex_id p" using p(2) by (simp add: retry_ready_row_def split: if_splits)
    with ids x(1) mem have "x = p" by (auto simp: distinct_map dest: inj_onD)
    with x(2) p(1) have "ex_status e = RetryReady" by (simp add: retry_ready_row_def)
    moreover have "ex_status e = Retrying"
      using e by (auto simp: due_retries_def retry_is_due_def dest: in_set_takeD)
    ultimately show False by simp
  qed
  with ex show ?thesis unfolding w' fold_process_retry by (simp add: picked_def)
qed

definition waiting_world :: world where
  "waiting_world = polled_world\<lparr>executions :=
     [(new_execution 11 ''cue_1'' 50 None None 0)\<lparr>ex_status := Retrying, ex_next_retry := Some 90\<rparr>,
      (new_execution 12 ''cue_1'' 60 None None 0)\<lparr>ex_status := Retrying, ex_next_retry := Some 900\<rparr>]\<rparr>"

theorem poll_retries_exact_witness:
  "let w' = snd (poll_retries (\<lambda>_. False) 100 500 waiting_world) in
     map ex_status (executions w') = [RetryReady, Retrying]
     \<and> map ob_execution_id (outbox w') = [Some 11]"
proof -
  let ?e = "(new_execution 11 ''cue_1'' 50 None None 0)\<lparr>ex_status := Retrying, ex_next_retry := Some 90\<rparr>"
  obtain count w' where p: "poll_retries (\<lambda>_. False) 100 500 waiting_world = (count, w')"
    by (cases "poll_retries (\<lambda>_. False) 100 500 waiting_world")
  have keys: "exec_keys_ok waiting_world"
    by (simp add: exec_keys_ok_def waiting_world_def exec_slot_def)
  have due: "[?e] = filter (\<lambda>e. get_cue_row waiting_world (ex_cue_id e) \<noteq> None)
      (due_retries (\<lambda>_. False) 100 500 waiting_world)"
    by (simp add: due_retries_def retry_is_due_def waiting_world_def get_cue_row_def polled_world_def
        example_cue_def)
  note exact = poll_retries_exact [OF keys p due]
  have ex: "map ex_status (executions w') = [RetryReady, Retrying]"
    unfolding conjunct1 [OF exact] by (simp add: waiting_world_def retry_ready_row_def new_execution_def)
  from exact have "map retry_view (outbox w')
      = [(Some 11, Retry, False, None)]"
    by (simp add: waiting_world_def polled_world_def empty_world_def)
  from arg_cong [OF this, of "map fst"] have "map ob_execution_id (outbox w') = [Some 11]"
    by (simp add: o_def)
  with ex p show ?thesis by simp
qed

end
