(* ===== verification/Recovery.thy ===== *)
theory Recovery
  imports Scheduler
begin

section \<open>Recovery of stuck work (\<open>src/worker/poller.py\<close>)\<close>

text \<open>
  The safety nets of the poller: executions stuck in \<open>delivering\<close>, claims of workers that went
  away, worker executions nobody claimed, and the alert for offline workers. Each function is
  one transaction (an exception undoes it) followed, where the source does so, by the escalation
  of the final failures.

  A SELECT without ORDER BY returns its rows in table order. \<open>start\<close> is the clock reading that
  gives the cutoff, \<open>now\<close> the one taken inside the transaction.
\<close>

subsection \<open>Escalation outside the delivery tasks\<close>

definition run_on_failure_escalation ::
  "env \<Rightarrow> time \<Rightarrow> string \<times> uuid \<times> string \<Rightarrow> world \<Rightarrow> world" where
  "run_on_failure_escalation env now esc w =
     (let (c, e, error_message) = esc in
      case get_cue_row w c of
        None \<Rightarrow> w
      | Some r \<Rightarrow>
          (let w1 = (if on_failure_pause (cue_on_failure r) \<and> cue_schedule_type r \<noteq> Once
                     then update_cue_row c
                       (\<lambda>r. r\<lparr>cue_status := CuePaused, cue_next_run := None, cue_updated_at := now\<rparr>) w
                     else w);
               w2 = (if on_failure_email (cue_on_failure r)
                     then send_failure_email env (cue_user_id r) c (name_or_id r) e error_message now w1
                     else w1)
           in case on_failure_webhook (cue_on_failure r) of
                Some url \<Rightarrow> send_failure_webhook url c (name_or_id r) 0 None error_message now w2
              | None \<Rightarrow> w2))"

subsection \<open>Executions stuck in delivering\<close>

definition is_stale :: "time \<Rightarrow> execution \<Rightarrow> bool" where
  "is_stale cutoff e \<longleftrightarrow> ex_status e = Delivering \<and> ex_updated_at e < cutoff"

definition stale_executions :: "(uuid \<Rightarrow> bool) \<Rightarrow> time \<Rightarrow> world \<Rightarrow> execution list" where
  "stale_executions locked cutoff w =
     take 100 (filter (\<lambda>e. is_stale cutoff e \<and> \<not> locked (ex_id e)) (executions w))"

definition recovered_row :: "int \<Rightarrow> time \<Rightarrow> time \<Rightarrow> execution \<Rightarrow> execution" where
  "recovered_row stale_seconds next_retry now r =
     r\<lparr>ex_status := Retrying, ex_next_retry := Some next_retry,
       ex_error_message := Some (''Recovered from stale delivering state after '' @ int_str stale_seconds @ ''s''),
       ex_updated_at := now\<rparr>"

definition exhausted_msg :: "int \<Rightarrow> string" where
  "exhausted_msg stale_seconds =
     ''Failed: stuck in delivering for >'' @ int_str stale_seconds @ ''s, max attempts exhausted''"

definition exhausted_row :: "int \<Rightarrow> time \<Rightarrow> execution \<Rightarrow> execution" where
  "exhausted_row stale_seconds now r =
     r\<lparr>ex_status := Failed, ex_error_message := Some (exhausted_msg stale_seconds),
       ex_next_retry := None, ex_updated_at := now\<rparr>"

definition recover_stale_row ::
  "int \<Rightarrow> time \<Rightarrow> execution \<Rightarrow> world \<times> (string \<times> uuid \<times> string) list
   \<Rightarrow> py_error + world \<times> (string \<times> uuid \<times> string) list" where
  "recover_stale_row stale_seconds now e st =
     (let (w, escalations) = st;
          row = get_cue_row w (ex_cue_id e);
          max_attempts = (case row of Some c \<Rightarrow> cue_retry_max_attempts c | None \<Rightarrow> 3);
          backoff_minutes = (case row of Some c \<Rightarrow> cue_retry_backoff_minutes c | None \<Rightarrow> [1, 5, 15])
      in if ex_attempts e < max_attempts then
           (case py_index backoff_minutes (min (ex_attempts e) (int (length backoff_minutes) - 1)) of
              Inl err \<Rightarrow> Inl err
            | Inr backoff \<Rightarrow>
                Inr (update_exec_row (ex_id e) (recovered_row stale_seconds (now + minutes backoff) now) w,
                     escalations))
         else
           (let w1 = update_exec_row (ex_id e) (exhausted_row stale_seconds now) w;
                w2 = (case row of
                        Some c \<Rightarrow> if cue_schedule_type c = Once
                          then update_cue_row (ex_cue_id e)
                                 (\<lambda>r. r\<lparr>cue_status := CueFailed, cue_updated_at := now\<rparr>) w1
                          else w1
                      | None \<Rightarrow> w1)
            in Inr (w2, escalations @ [(ex_cue_id e, ex_id e, exhausted_msg stale_seconds)])))"

definition recover_stale_executions ::
  "env \<Rightarrow> int \<Rightarrow> (uuid \<Rightarrow> bool) \<Rightarrow> time \<Rightarrow> time \<Rightarrow> world \<Rightarrow> py_error + nat \<times> world" where
  "recover_stale_executions env stale_seconds locked start now w =
     (let stale = stale_executions locked (start - seconds stale_seconds) w
      in case fold_res (recover_stale_row stale_seconds now) stale (w, []) of
           Inl err \<Rightarrow> Inl err
         | Inr (w1, escalations) \<Rightarrow>
             Inr (length stale, fold (run_on_failure_escalation env now) escalations w1))"

subsection \<open>Claims of lost workers\<close>

text \<open>
  The SELECT joins the cue, so an execution whose cue is gone is not found. The rows are not
  locked: the selection and the updates read different states of the database when another
  transaction commits in between, and are two operations here.
\<close>

definition claim_expired :: "time \<Rightarrow> world \<Rightarrow> execution \<Rightarrow> bool" where
  "claim_expired claim_cutoff w e \<longleftrightarrow> ex_status e = Delivering
     \<and> (case get_cue_row w (ex_cue_id e) of Some c \<Rightarrow> cue_callback_transport c = WorkerPull | None \<Rightarrow> False)
     \<and> (case ex_claimed_at e of Some t \<Rightarrow> t < claim_cutoff | None \<Rightarrow> False)
     \<and> ex_claimed_by_worker e \<noteq> None"

definition stale_claims :: "time \<Rightarrow> world \<Rightarrow> execution list" where
  "stale_claims claim_cutoff w = take 100 (filter (claim_expired claim_cutoff w) (executions w))"

definition claim_worker :: "world \<Rightarrow> execution \<Rightarrow> worker option" where
  "claim_worker w e =
     (case get_cue_row w (ex_cue_id e) of
        None \<Rightarrow> None
      | Some c \<Rightarrow> find (\<lambda>k. wk_user_id k = cue_user_id c \<and> Some (wk_worker_id k) = ex_claimed_by_worker e)
                    (workers w))"

definition worker_lost :: "time \<Rightarrow> world \<Rightarrow> execution \<Rightarrow> bool" where
  "worker_lost heartbeat_cutoff w e =
     (case claim_worker w e of None \<Rightarrow> True | Some k \<Rightarrow> wk_last_heartbeat k < heartbeat_cutoff)"

definition reset_row :: "time \<Rightarrow> execution \<Rightarrow> execution" where
  "reset_row now r =
     r\<lparr>ex_status := Pending, ex_claimed_by_worker := None, ex_claimed_at := None, ex_started_at := None,
       ex_error_message := Some ''Reset: worker heartbeat stale and claim lease expired'',
       ex_updated_at := now\<rparr>"

definition reset_claim :: "time \<Rightarrow> time \<Rightarrow> execution \<Rightarrow> nat \<times> world \<Rightarrow> nat \<times> world" where
  "reset_claim heartbeat_cutoff now e cw =
     (let (count, w) = cw
      in if worker_lost heartbeat_cutoff w e
         then (count + 1, update_exec_row (ex_id e) (reset_row now) w)
         else (count, w))"

definition reset_claims :: "int \<Rightarrow> time \<Rightarrow> execution list \<Rightarrow> world \<Rightarrow> nat \<times> world" where
  "reset_claims heartbeat_timeout now stale w =
     fold (reset_claim (now - seconds heartbeat_timeout) now) stale (0, w)"

definition recover_stale_worker_claims :: "int \<Rightarrow> int \<Rightarrow> time \<Rightarrow> world \<Rightarrow> nat \<times> world" where
  "recover_stale_worker_claims heartbeat_timeout claim_timeout now w =
     reset_claims heartbeat_timeout now (stale_claims (now - seconds claim_timeout) w) w"

subsection \<open>Worker executions nobody claims\<close>

definition unclaimed_msg :: string where
  "unclaimed_msg = ''No worker claimed this execution within timeout window''"

definition is_unclaimed :: "time \<Rightarrow> world \<Rightarrow> execution \<Rightarrow> bool" where
  "is_unclaimed cutoff w e \<longleftrightarrow> ex_status e = Pending
     \<and> (case get_cue_row w (ex_cue_id e) of Some c \<Rightarrow> cue_callback_transport c = WorkerPull | None \<Rightarrow> False)
     \<and> ex_created_at e < cutoff \<and> ex_claimed_by_worker e = None"

definition missed_row :: "time \<Rightarrow> execution \<Rightarrow> execution" where
  "missed_row now r = r\<lparr>ex_status := Missed, ex_error_message := Some unclaimed_msg, ex_updated_at := now\<rparr>"

definition miss_execution :: "time \<Rightarrow> execution \<Rightarrow> world \<Rightarrow> world" where
  "miss_execution now e w =
     (let w1 = update_exec_row (ex_id e) (missed_row now) w
      in case get_cue_row w1 (ex_cue_id e) of
           Some c \<Rightarrow> if cue_schedule_type c = Once
             then update_cue_row (ex_cue_id e) (\<lambda>r. r\<lparr>cue_status := CueFailed, cue_updated_at := now\<rparr>) w1
             else w1
         | None \<Rightarrow> w1)"

definition unclaimed_executions :: "time \<Rightarrow> world \<Rightarrow> execution list" where
  "unclaimed_executions cutoff w = take 100 (filter (is_unclaimed cutoff w) (executions w))"

definition fail_unclaimed_worker_executions :: "env \<Rightarrow> int \<Rightarrow> time \<Rightarrow> world \<Rightarrow> nat \<times> world" where
  "fail_unclaimed_worker_executions env unclaimed_timeout now w =
     (let unclaimed = unclaimed_executions (now - seconds unclaimed_timeout) w;
          w1 = fold (miss_execution now) unclaimed w
      in (length unclaimed,
          fold (run_on_failure_escalation env now) (map (\<lambda>e. (ex_cue_id e, ex_id e, unclaimed_msg)) unclaimed) w1))"

subsection \<open>Offline workers\<close>

text \<open>
  \<open>if already_alerted\<close>: a stored value counts when it is not the empty string. An exception of
  Redis leaves the function; the loop may have sent e-mails and set keys before it, so the world
  is returned with the exception.
\<close>

definition redis_flag :: "redis_store \<Rightarrow> time \<Rightarrow> redis_key \<Rightarrow> bool" where
  "redis_flag r now k = (case redis_get r now k of None \<Rightarrow> False | Some (RStr s) \<Rightarrow> s \<noteq> [] | Some _ \<Rightarrow> True)"

definition pending_for_user :: "world \<Rightarrow> uuid \<Rightarrow> nat" where
  "pending_for_user w u =
     length (filter (\<lambda>e. ex_status e = Pending
        \<and> (case get_cue_row w (ex_cue_id e) of
             Some c \<Rightarrow> cue_user_id c = u \<and> cue_callback_transport c = WorkerPull | None \<Rightarrow> False))
        (executions w))"

definition alert_worker :: "env \<Rightarrow> time \<Rightarrow> worker \<Rightarrow> nat \<times> world \<Rightarrow> nat \<times> world" where
  "alert_worker env now k cw =
     (let (alerts_sent, w) = cw; u = wk_user_id k; i = wk_worker_id k in
      if redis_flag (redis w) now (KWorkerAlert u i) then (alerts_sent, w)
      else
        (case get_user_row w u of
           None \<Rightarrow> (alerts_sent, w)
         | Some usr \<Rightarrow>
             if usr_email usr = [] then (alerts_sent, w)
             else if redis_flag (redis w) now (KWorkerOfflineEmail i) then (alerts_sent, w)
             else
               (let r1 = redis_set_ex (KWorkerOfflineEmail i) (RStr ''1'') 3600 now (redis w);
                    mail = e_resend_key env \<and> e_mail_ok env 0;
                    r2 = redis_set_ex (KWorkerAlert u i) (RStr ''1'') 3600 now r1;
                    w1 = w\<lparr>redis := r2\<rparr>
                in if mail
                   then (alerts_sent + 1,
                         w1\<lparr>sent := sent w1 @ [WorkerDownEmail (usr_email usr) i
                              ((now - wk_last_heartbeat k) div minutes 1) (pending_for_user w u)]\<rparr>)
                   else (alerts_sent, w1))))"

definition check_worker_health :: "env \<Rightarrow> int \<Rightarrow> time \<Rightarrow> world \<Rightarrow> py_error + nat \<times> world" where
  "check_worker_health env offline_threshold now w =
     (let stale = filter (\<lambda>k. wk_last_heartbeat k < now - seconds offline_threshold) (workers w)
      in if stale \<noteq> [] \<and> \<not> e_redis_up env then Inl RedisError
         else Inr (fold (alert_worker env now) stale (0, w)))"

subsection \<open>Contracts of the assignments\<close>

interpretation recovered_upd: exec_update "recovered_row s n now" for s n now
  by unfold_locales (simp_all add: recovered_row_def exec_slot_def)

interpretation exhausted_upd: exec_update "exhausted_row s now" for s now
  by unfold_locales (simp_all add: exhausted_row_def exec_slot_def)

interpretation reset_upd: exec_update "reset_row now" for now
  by unfold_locales (simp_all add: reset_row_def exec_slot_def)

interpretation missed_upd: exec_update "missed_row now" for now
  by unfold_locales (simp_all add: missed_row_def exec_slot_def)

lemma run_on_failure_escalation_frame [simp, frame_simps]:
  "executions (run_on_failure_escalation env now esc w) = executions w"
  "outbox (run_on_failure_escalation env now esc w) = outbox w"
  by (cases esc; simp add: run_on_failure_escalation_def Let_def split: option.split)+

lemma fold_escalation_frame [simp, frame_simps]:
  "executions (fold (run_on_failure_escalation env now) escs w) = executions w"
  "outbox (fold (run_on_failure_escalation env now) escs w) = outbox w"
  by (induction escs arbitrary: w) simp_all

subsection \<open>Every stuck execution is recovered\<close>

text \<open>
  The specification of recovery, read off the retry configuration of the cue: another attempt
  while the budget lasts, failure after it.
\<close>

definition retry_cfg :: "cue option \<Rightarrow> int \<times> int list" where
  "retry_cfg row = (case row of Some c \<Rightarrow> (cue_retry_max_attempts c, cue_retry_backoff_minutes c)
     | None \<Rightarrow> (3, [1, 5, 15]))"

definition stale_outcome :: "int \<Rightarrow> time \<Rightarrow> int \<times> int list \<Rightarrow> int \<Rightarrow> execution \<Rightarrow> execution" where
  "stale_outcome stale_seconds now cfg n r =
     (if n < fst cfg
      then recovered_row stale_seconds (now + minutes (snd cfg ! min (nat n) (length (snd cfg) - 1))) now r
      else exhausted_row stale_seconds now r)"

interpretation stale_batch: row_batch ex_id "\<lambda>d. stale_outcome s now (cfg (ex_cue_id d)) (ex_attempts d)"
  for s now cfg
  by unfold_locales (simp add: stale_outcome_def recovered_row_def exhausted_row_def)

lemma stale_outcome_keys [simp]:
  "ex_id (stale_outcome s now cfg n r) = ex_id r" "exec_slot (stale_outcome s now cfg n r) = exec_slot r"
  by (simp_all add: stale_outcome_def recovered_upd.upd_key recovered_upd.upd_slot exhausted_upd.upd_key
      exhausted_upd.upd_slot)

lemma retry_cfg_update [simp]:
  "retry_cfg (get_cue_row (update_cue_row c (\<lambda>r. r\<lparr>cue_status := s, cue_updated_at := t\<rparr>) w) c') =
   retry_cfg (get_cue_row w c')"
  by (simp add: get_cue_row_update retry_cfg_def split: option.split)

lemma recover_stale_row_cfg:
  assumes "retry_cfg (get_cue_row w (ex_cue_id e)) = (m, b)"
  shows "ex_attempts e < m \<Longrightarrow> recover_stale_row s now e (w, esc) =
      (case py_index b (min (ex_attempts e) (int (length b) - 1)) of
         Inl err \<Rightarrow> Inl err
       | Inr backoff \<Rightarrow> Inr (update_exec_row (ex_id e) (recovered_row s (now + minutes backoff) now) w, esc))"
    and "\<not> ex_attempts e < m \<Longrightarrow> \<exists>w' esc'. recover_stale_row s now e (w, esc) = Inr (w', esc')
      \<and> executions w' = executions (update_exec_row (ex_id e) (exhausted_row s now) w)
      \<and> (\<forall>c. retry_cfg (get_cue_row w' c) = retry_cfg (get_cue_row w c)) \<and> outbox w' = outbox w"
  using assms
  by (cases "get_cue_row w (ex_cue_id e)"; simp add: recover_stale_row_def Let_def retry_cfg_def [of None]
      retry_cfg_def [of "Some x" for x])+

lemma recover_stale_row_step:
  assumes "snd (retry_cfg (get_cue_row w (ex_cue_id e))) \<noteq> []" and "0 \<le> ex_attempts e"
  shows "\<exists>w' esc'. recover_stale_row s now e (w, esc) = Inr (w', esc')
    \<and> executions w' = update_where (\<lambda>r. ex_id r = ex_id e)
        (stale_outcome s now (retry_cfg (get_cue_row w (ex_cue_id e))) (ex_attempts e)) (executions w)
    \<and> (\<forall>c. retry_cfg (get_cue_row w' c) = retry_cfg (get_cue_row w c)) \<and> outbox w' = outbox w"
proof -
  obtain m b where cfg: "retry_cfg (get_cue_row w (ex_cue_id e)) = (m, b)"
    by (cases "retry_cfg (get_cue_row w (ex_cue_id e))")
  show ?thesis
  proof (cases "ex_attempts e < m")
    case True
    with assms cfg recover_stale_row_cfg(1) [OF cfg True] show ?thesis
      by (simp add: py_index_clamped stale_outcome_def [abs_def], simp add: update_exec_row_def)
  next
    case False
    with cfg recover_stale_row_cfg(2) [OF cfg False] show ?thesis
      by (simp add: stale_outcome_def [abs_def] update_exec_row_def)
  qed
qed

lemma fold_recover_stale:
  assumes "\<And>d. d \<in> set ds \<Longrightarrow> snd (retry_cfg (get_cue_row w (ex_cue_id d))) \<noteq> [] \<and> 0 \<le> ex_attempts d"
  shows "\<exists>w' esc'. fold_res (recover_stale_row s now) ds (w, esc) = Inr (w', esc')
    \<and> executions w' = fold (\<lambda>d. update_where (\<lambda>r. ex_id r = ex_id d)
        (stale_outcome s now (retry_cfg (get_cue_row w (ex_cue_id d))) (ex_attempts d))) ds (executions w)
    \<and> outbox w' = outbox w"
  using assms
proof (induction ds arbitrary: w esc)
  case Nil
  then show ?case by simp
next
  case (Cons d ds)
  from Cons.prems [of d] recover_stale_row_step [of w d s now esc]
  obtain w1 esc1 where step: "recover_stale_row s now d (w, esc) = Inr (w1, esc1)"
    and ex: "executions w1 = update_where (\<lambda>r. ex_id r = ex_id d)
        (stale_outcome s now (retry_cfg (get_cue_row w (ex_cue_id d))) (ex_attempts d)) (executions w)"
    and cfg: "\<And>c. retry_cfg (get_cue_row w1 c) = retry_cfg (get_cue_row w c)" and ob: "outbox w1 = outbox w"
    by auto
  from Cons.IH [of w1 esc1] Cons.prems cfg show ?case by (simp add: step ex ob)
qed

lemma stale_executions_subset: "set (stale_executions locked cutoff w) \<subseteq> set (executions w)"
  by (auto simp: stale_executions_def dest: in_set_takeD)

lemma recover_stale_executions_map:
  assumes "exec_keys_ok w" and "\<And>r. r \<in> set (executions w) \<Longrightarrow> 0 \<le> ex_attempts r"
    and "\<And>c. c \<in> set (cues w) \<Longrightarrow> cue_retry_backoff_minutes c \<noteq> []"
  shows "\<exists>w'. recover_stale_executions env s locked start now w =
        Inr (length (stale_executions locked (start - seconds s) w), w')
    \<and> executions w' = map (\<lambda>e. if e \<in> set (stale_executions locked (start - seconds s) w)
        then stale_outcome s now (retry_cfg (get_cue_row w (ex_cue_id e))) (ex_attempts e) e else e) (executions w)
    \<and> outbox w' = outbox w"
proof -
  let ?ds = "stale_executions locked (start - seconds s) w"
  have ids: "distinct (map ex_id (executions w))" using assms(1) by (simp add: exec_keys_ok_def)
  then have "distinct ?ds" by (simp add: stale_executions_def distinct_map)
  note batch = stale_batch.batch_simultaneous [OF ids stale_executions_subset this]
  have "snd (retry_cfg (get_cue_row w c)) \<noteq> []" for c
    using assms(3) by (auto simp: retry_cfg_def split: option.split dest: get_cue_row_SomeD)
  with assms(2) stale_executions_subset have ok: "d \<in> set ?ds \<Longrightarrow>
      snd (retry_cfg (get_cue_row w (ex_cue_id d))) \<noteq> [] \<and> 0 \<le> ex_attempts d" for d
    by blast
  from fold_recover_stale [of ?ds w s now "[]"] ok
  obtain w1 esc where "fold_res (recover_stale_row s now) ?ds (w, []) = Inr (w1, esc)"
    and "executions w1 = fold (\<lambda>d. update_where (\<lambda>r. ex_id r = ex_id d)
        (stale_outcome s now (retry_cfg (get_cue_row w (ex_cue_id d))) (ex_attempts d))) ?ds (executions w)"
    and "outbox w1 = outbox w" by auto
  with batch show ?thesis by (simp add: recover_stale_executions_def Let_def)
qed

text \<open>
  Nothing stays stuck: when every cue has a non-empty backoff list, recovery succeeds and
  turns every selected execution that has been \<open>delivering\<close> beyond the threshold into \<open>retrying\<close>
  with the backoff of its attempt number while its budget lasts, and into \<open>failed\<close> otherwise; every
  other execution, and the outbox, are unchanged.
\<close>

theorem stale_recovery_exact:
  assumes "exec_keys_ok w" and "\<And>r. r \<in> set (executions w) \<Longrightarrow> 0 \<le> ex_attempts r"
    and "\<And>c. c \<in> set (cues w) \<Longrightarrow> cue_retry_backoff_minutes c \<noteq> []"
  shows "\<exists>w'. recover_stale_executions env s locked start now w =
        Inr (length (stale_executions locked (start - seconds s) w), w')
    \<and> executions w' = map (\<lambda>e. if e \<in> set (stale_executions locked (start - seconds s) w)
        then stale_outcome s now (retry_cfg (get_cue_row w (ex_cue_id e))) (ex_attempts e) e else e) (executions w)
    \<and> outbox w' = outbox w"
  using assms by (rule recover_stale_executions_map)

definition stuck_world :: "int list \<Rightarrow> world" where
  "stuck_world backoff = empty_world\<lparr>cues := [example_cue\<lparr>cue_retry_backoff_minutes := backoff\<rparr>],
     executions := [(new_execution 11 ''cue_1'' 50 None None 0)\<lparr>ex_status := Delivering, ex_attempts := 2\<rparr>,
                    (new_execution 12 ''cue_1'' 60 None None 0)\<lparr>ex_status := Delivering, ex_attempts := 3\<rparr>,
                    (new_execution 13 ''cue_1'' 70 None None (minutes 10))\<lparr>ex_status := Delivering\<rparr>]\<rparr>"

theorem stale_recovery_exact_witness:
  "\<exists>n w'. recover_stale_executions example_env 300 (\<lambda>_. False) (minutes 10) (minutes 10) (stuck_world [1, 5]) = Inr (n, w')
     \<and> map ex_status (executions w') = [Retrying, Failed, Delivering]"
proof -
  let ?w = "stuck_world [1, 5]"
  have keys: "exec_keys_ok ?w" by (simp add: exec_keys_ok_def stuck_world_def exec_slot_def)
  have stale: "stale_executions (\<lambda>_. False) (minutes 10 - seconds 300) ?w = take 2 (executions ?w)"
    by (simp add: stale_executions_def stuck_world_def is_stale_def new_execution_def minutes_def seconds_def)
  have nonneg: "\<And>r. r \<in> set (executions ?w) \<Longrightarrow> 0 \<le> ex_attempts r"
    by (auto simp: stuck_world_def)
  have backoff: "\<And>c. c \<in> set (cues ?w) \<Longrightarrow> cue_retry_backoff_minutes c \<noteq> []"
    by (simp add: stuck_world_def)
  from stale_recovery_exact [OF keys, of example_env 300 "\<lambda>_. False" "minutes 10" "minutes 10"]
  obtain n w' where r: "recover_stale_executions example_env 300 (\<lambda>_. False) (minutes 10) (minutes 10) ?w = Inr (n, w')"
    and ex: "executions w' = map (\<lambda>e. if e \<in> set (take 2 (executions ?w))
      then stale_outcome 300 (minutes 10) (retry_cfg (get_cue_row ?w (ex_cue_id e))) (ex_attempts e) e else e) (executions ?w)"
    unfolding stale using nonneg backoff by blast
  have "map ex_status (executions w') = [Retrying, Failed, Delivering]"
    unfolding ex by (simp add: stuck_world_def get_cue_row_def example_cue_def retry_cfg_def stale_outcome_def
        recovered_row_def exhausted_row_def new_execution_def)
  with r show ?thesis by (intro exI conjI)
qed

text \<open>
  One cue with an empty backoff list blocks recovery for everybody: if any selected execution
  has budget left and its cue an empty \<open>retry_backoff_minutes\<close>, then the whole batch raises
  \<open>IndexError\<close> and, being one transaction, recovers nothing. (The delivery task guards this case.)
\<close>

theorem stale_recovery_empty_backoff_raises:
  assumes "e \<in> set (stale_executions locked (start - seconds s) w)"
    and "\<And>u. u \<in> set (stale_executions locked (start - seconds s) w) \<Longrightarrow>
      0 \<le> ex_attempts u \<and> (snd (retry_cfg (get_cue_row w (ex_cue_id u))) = [] \<longrightarrow>
        ex_attempts u < fst (retry_cfg (get_cue_row w (ex_cue_id u))))"
    and "snd (retry_cfg (get_cue_row w (ex_cue_id e))) = []"
  shows "recover_stale_executions env s locked start now w = Inl IndexError"
proof -
  have raises: "recover_stale_row s now d (v, esc) = Inl IndexError"
    if "snd (retry_cfg (get_cue_row v (ex_cue_id d))) = []" "ex_attempts d < fst (retry_cfg (get_cue_row v (ex_cue_id d)))"
    for d v esc
    using that by (cases "get_cue_row v (ex_cue_id d)") (simp_all add: recover_stale_row_def Let_def retry_cfg_def)
  have "fold_res (recover_stale_row s now) ds (v, esc) = Inl IndexError"
    if "e \<in> set ds" "\<And>c. retry_cfg (get_cue_row v c) = retry_cfg (get_cue_row w c)"
      and "set ds \<subseteq> set (stale_executions locked (start - seconds s) w)" for ds v esc
    using that
  proof (induction ds arbitrary: v esc)
    case (Cons d ds)
    show ?case
    proof (cases "snd (retry_cfg (get_cue_row w (ex_cue_id d))) = []")
      case True
      then show ?thesis using raises [of v d esc] assms(2) [of d] Cons.prems(2,3) by simp
    next
      case False
      with assms(3) Cons.prems(1) have mem: "e \<in> set ds" by auto
      from False assms(2) [of d] Cons.prems(2,3) recover_stale_row_step [of v d s now esc]
      obtain v1 esc1 where "recover_stale_row s now d (v, esc) = Inr (v1, esc1)"
        and "\<And>c. retry_cfg (get_cue_row v1 c) = retry_cfg (get_cue_row v c)" by auto
      with Cons.IH [OF mem, of v1 esc1] Cons.prems(2,3) show ?thesis by simp
    qed
  qed simp
  from this [OF assms(1)] show ?thesis by (simp add: recover_stale_executions_def Let_def)
qed

theorem stale_recovery_empty_backoff_raises_witness:
  "recover_stale_executions example_env 300 (\<lambda>_. False) (minutes 10) (minutes 10)
     ((stuck_world [])\<lparr>executions := take 1 (executions (stuck_world []))\<rparr>) = Inl IndexError"
proof -
  let ?w = "(stuck_world [])\<lparr>executions := take 1 (executions (stuck_world []))\<rparr>"
  let ?e = "(new_execution 11 ''cue_1'' 50 None None 0)\<lparr>ex_status := Delivering, ex_attempts := 2\<rparr>"
  have ds: "stale_executions (\<lambda>_. False) (minutes 10 - seconds 300) ?w = [?e]"
    by (simp add: stale_executions_def stuck_world_def is_stale_def new_execution_def minutes_def seconds_def)
  have cfg: "retry_cfg (get_cue_row ?w (ex_cue_id ?e)) = (3, [])" "ex_attempts ?e = 2"
    by (simp_all add: stuck_world_def get_cue_row_def example_cue_def retry_cfg_def)
  show ?thesis
    by (rule stale_recovery_empty_backoff_raises [of ?e]) (use ds cfg in \<open>auto\<close>)
qed

subsection \<open>Worker leases\<close>

interpretation reset_batch: row_batch ex_id "\<lambda>d r. if q d then reset_row now r else r" for q now
  by unfold_locales (simp add: reset_row_def)

lemma worker_lost_cong: "cues w' = cues w \<Longrightarrow> workers w' = workers w \<Longrightarrow> worker_lost h w' e = worker_lost h w e"
  by (simp add: worker_lost_def claim_worker_def get_cue_row_def cong: option.case_cong)

lemma fold_reset_claim:
  "executions (snd (fold (reset_claim h now) ds (n, w))) =
     fold (\<lambda>d. update_where (\<lambda>r. ex_id r = ex_id d)
        (\<lambda>r. if worker_lost h w d then reset_row now r else r)) ds (executions w)"
proof (induction ds arbitrary: n w)
  case (Cons d ds)
  let ?w1 = "snd (reset_claim h now d (n, w))"
  have "worker_lost h ?w1 e = worker_lost h w e" for e
    by (rule worker_lost_cong) (simp_all add: reset_claim_def)
  moreover have "executions ?w1 = update_where (\<lambda>r. ex_id r = ex_id d)
      (\<lambda>r. if worker_lost h w d then reset_row now r else r) (executions w)"
    by (simp add: reset_claim_def update_exec_row_def) (simp add: update_where_def)
  ultimately show ?case
    using Cons.IH [of "fst (reset_claim h now d (n, w))" ?w1] by simp
qed simp

lemma stale_claims_subset: "set (stale_claims cutoff w) \<subseteq> set (executions w)"
  by (auto simp: stale_claims_def dest: in_set_takeD)

lemma recover_stale_worker_claims_map:
  assumes "exec_keys_ok w"
  shows "executions (snd (recover_stale_worker_claims ht ct now w)) =
    map (\<lambda>e. if e \<in> set (stale_claims (now - seconds ct) w) \<and> worker_lost (now - seconds ht) w e
      then reset_row now e else e) (executions w)"
proof -
  let ?ds = "stale_claims (now - seconds ct) w"
  have ids: "distinct (map ex_id (executions w))" using assms by (simp add: exec_keys_ok_def)
  then have "distinct ?ds" by (simp add: stale_claims_def distinct_map)
  from reset_batch.batch_simultaneous [OF ids stale_claims_subset this]
  show ?thesis
    unfolding recover_stale_worker_claims_def reset_claims_def fold_reset_claim by (auto intro: map_cong)
qed

text \<open>
  A claim is taken back only from a lost worker: recovery resets exactly the selected
  executions whose worker is unknown or silent for longer than the heartbeat timeout, and every
  execution it changes was \<open>delivering\<close> for a worker cue with a claim older than the lease. A worker
  that keeps its heartbeat keeps its claims, however long its handler runs.
\<close>

theorem worker_claim_reset_needs_both:
  assumes "exec_keys_ok w" and "recover_stale_worker_claims ht ct now w = (n, w')"
  shows "executions w' = map (\<lambda>e. if e \<in> set (stale_claims (now - seconds ct) w)
            \<and> worker_lost (now - seconds ht) w e then reset_row now e else e) (executions w)
    \<and> (\<forall>e \<in> set (executions w). get_exec_row w' (ex_id e) \<noteq> Some e \<longrightarrow>
          ex_status e = Delivering
          \<and> (\<exists>t. ex_claimed_at e = Some t \<and> t < now - seconds ct)
          \<and> (\<forall>k. claim_worker w e = Some k \<longrightarrow> wk_last_heartbeat k < now - seconds ht))"
proof -
  let ?ds = "stale_claims (now - seconds ct) w"
  from recover_stale_worker_claims_map [OF assms(1), of ht ct now] assms(2)
  have ex: "executions w' = map (\<lambda>e. if e \<in> set ?ds \<and> worker_lost (now - seconds ht) w e
      then reset_row now e else e) (executions w)" by simp
  have same: "get_exec_row w' (ex_id e) = Some e"
    if "e \<in> set (executions w)" "\<not> (e \<in> set ?ds \<and> worker_lost (now - seconds ht) w e)" for e
    using exec_batch_row [OF ex _ _ assms(1) that(1)] that(2) reset_upd.upd_key reset_upd.upd_slot by simp
  have picked: "ex_status e = Delivering \<and> (\<exists>t. ex_claimed_at e = Some t \<and> t < now - seconds ct)"
    if "e \<in> set ?ds" for e
    using that by (auto simp: stale_claims_def claim_expired_def dest!: in_set_takeD split: option.splits)
  have lost: "claim_worker w e = Some k \<Longrightarrow> wk_last_heartbeat k < now - seconds ht"
    if "worker_lost (now - seconds ht) w e" for e k
    using that by (simp add: worker_lost_def)
  show ?thesis using ex same picked lost by blast
qed

definition claimed_world :: "time \<Rightarrow> world" where
  "claimed_world heartbeat = empty_world\<lparr>cues := [worker_cue],
     executions := [(new_execution 11 ''cue_1'' 50 None None 0)\<lparr>ex_status := Delivering,
        ex_claimed_by_worker := Some ''wk'', ex_claimed_at := Some 0\<rparr>],
     workers := [\<lparr>wk_user_id = 7, wk_worker_id = ''wk'', wk_handlers = None,
        wk_last_heartbeat = heartbeat, wk_created_at = 0\<rparr>]\<rparr>"

theorem worker_claim_reset_needs_both_witness:
  "map ex_status (executions (snd (recover_stale_worker_claims 180 900 (minutes 16) (claimed_world 0)))) = [Pending]
   \<and> map ex_status (executions (snd (recover_stale_worker_claims 180 900 (minutes 16) (claimed_world (minutes 15))))) = [Delivering]"
proof -
  have keys: "exec_keys_ok (claimed_world h)" for h by (simp add: exec_keys_ok_def claimed_world_def)
  have reset: "executions (snd (recover_stale_worker_claims 180 900 (minutes 16) (claimed_world h))) =
      map (\<lambda>e. if e \<in> set (stale_claims (minutes 16 - seconds 900) (claimed_world h))
            \<and> worker_lost (minutes 16 - seconds 180) (claimed_world h) e then reset_row (minutes 16) e else e)
        (executions (claimed_world h))" for h
    using worker_claim_reset_needs_both [OF keys [of h], of 180 900 "minutes 16"]
    by (cases "recover_stale_worker_claims 180 900 (minutes 16) (claimed_world h)") simp
  show ?thesis
    unfolding reset by (simp add: claimed_world_def stale_claims_def claim_expired_def worker_lost_def claim_worker_def
      get_cue_row_def worker_cue_def example_cue_def reset_row_def minutes_def seconds_def)
qed

text \<open>
  The other safety net ignores leases and heartbeats: whatever the table of workers holds, in
  particular a worker that is alive, an execution it claimed is moved to \<open>retrying\<close> by the recovery of
  stuck executions as soon as its row has not been updated for the staleness threshold (300
  seconds by default, against a lease of 900).
\<close>

theorem stale_recovery_ignores_heartbeats:
  assumes "exec_keys_ok w" and "\<And>r. r \<in> set (executions w) \<Longrightarrow> 0 \<le> ex_attempts r"
    and "\<And>c. c \<in> set (cues w) \<Longrightarrow> cue_retry_backoff_minutes c \<noteq> []"
    and "e \<in> set (stale_executions locked (start - seconds s) w)"
    and "ex_attempts e < fst (retry_cfg (get_cue_row w (ex_cue_id e)))"
  shows "\<exists>n w'. recover_stale_executions env s locked start now (w\<lparr>workers := ks\<rparr>) = Inr (n, w')
    \<and> map_option ex_status (get_exec_row w' (ex_id e)) = Some Retrying"
proof -
  let ?w = "w\<lparr>workers := ks\<rparr>"
  have keys: "exec_keys_ok ?w" using assms(1) by (simp add: exec_keys_ok_def)
  have sel: "stale_executions locked (start - seconds s) ?w = stale_executions locked (start - seconds s) w"
    and row: "\<And>c. get_cue_row ?w c = get_cue_row w c"
    by (simp_all add: stale_executions_def get_cue_row_def)
  from recover_stale_executions_map [OF keys, of env s locked start now] assms(2,3)
  obtain n w' where r: "recover_stale_executions env s locked start now ?w = Inr (n, w')"
    and ex: "executions w' = map (\<lambda>e. if e \<in> set (stale_executions locked (start - seconds s) w)
        then stale_outcome s now (retry_cfg (get_cue_row w (ex_cue_id e))) (ex_attempts e) e else e) (executions w)"
    unfolding sel row by auto
  have mem: "e \<in> set (executions w)" using assms(4) stale_executions_subset by blast
  have "get_exec_row w' (ex_id e) =
      Some (stale_outcome s now (retry_cfg (get_cue_row w (ex_cue_id e))) (ex_attempts e) e)"
    using exec_batch_row [OF ex _ _ assms(1) mem] assms(4) stale_outcome_keys by simp
  with r assms(5) show ?thesis by (simp add: stale_outcome_def recovered_row_def)
qed

theorem stale_recovery_ignores_heartbeats_witness:
  "\<exists>n w'. recover_stale_executions example_env 300 (\<lambda>_. False) (minutes 6) (minutes 6)
       ((claimed_world 0)\<lparr>workers := workers (claimed_world (minutes 6))\<rparr>) = Inr (n, w')
     \<and> map_option ex_status (get_exec_row w' 11) = Some Retrying"
proof -
  let ?e = "(new_execution 11 ''cue_1'' 50 None None 0)\<lparr>ex_status := Delivering,
        ex_claimed_by_worker := Some ''wk'', ex_claimed_at := Some 0\<rparr>"
  let ?w = "claimed_world 0"
  have keys: "exec_keys_ok ?w" by (simp add: exec_keys_ok_def claimed_world_def)
  have nonneg: "r \<in> set (executions ?w) \<Longrightarrow> 0 \<le> ex_attempts r" for r by (simp add: claimed_world_def)
  have backoff: "c \<in> set (cues ?w) \<Longrightarrow> cue_retry_backoff_minutes c \<noteq> []" for c
    by (simp add: claimed_world_def worker_cue_def example_cue_def)
  have sel: "?e \<in> set (stale_executions (\<lambda>_. False) (minutes 6 - seconds 300) ?w)"
    by (simp add: stale_executions_def claimed_world_def is_stale_def new_execution_def minutes_def seconds_def)
  have budget: "ex_attempts ?e < fst (retry_cfg (get_cue_row ?w (ex_cue_id ?e)))"
    by (simp add: claimed_world_def get_cue_row_def worker_cue_def example_cue_def retry_cfg_def)
  from stale_recovery_ignores_heartbeats [OF keys nonneg backoff sel budget,
      of example_env "minutes 6" "workers (claimed_world (minutes 6))"]
  show ?thesis by simp
qed

subsection \<open>Offline alerts\<close>

text \<open>
  The offline e-mail is limited to one per worker name and hour, across users: once an alert
  went out for a worker, no worker with the same name raises another one within the hour, also
  when it belongs to a different user (whose own cooldown key is not set).
\<close>

theorem offline_alert_once_per_hour:
  assumes "alert_worker env now k (n, w) = (n + 1, w1)" and "wk_worker_id k2 = wk_worker_id k"
    and "now \<le> t" and "t < now + seconds 3600"
  shows "alert_worker env2 t k2 (m, w1) = (m, w1)"
proof -
  from assms(1) have r: "redis w1 = redis_set_ex (KWorkerAlert (wk_user_id k) (wk_worker_id k)) (RStr ''1'') 3600 now
      (redis_set_ex (KWorkerOfflineEmail (wk_worker_id k)) (RStr ''1'') 3600 now (redis w))"
    by (auto simp: alert_worker_def Let_def split: if_splits option.splits)
  have "redis_get (redis w1) t (KWorkerOfflineEmail (wk_worker_id k)) = Some (RStr ''1'')"
    unfolding r using assms(4) by (simp add: rs.get_set_other rs.get_set)
  then have "redis_flag (redis w1) t (KWorkerOfflineEmail (wk_worker_id k2))"
    using assms(2) by (simp add: redis_flag_def)
  then show ?thesis by (simp add: alert_worker_def Let_def split: option.split)
qed

definition two_tenants :: world where
  "two_tenants = empty_world\<lparr>users := map (\<lambda>i. \<lparr>usr_id = i, usr_email = (if i = 7 then ''a@b'' else ''c@d''), usr_plan = ''free'',
     usr_active_cue_limit = 10, usr_monthly_execution_limit = 300, usr_monthly_message_limit = 100,
     usr_rate_limit_per_minute = 60, usr_slug = (if i = 7 then ''s'' else ''t''), usr_api_key_hash = (if i = 7 then ''h'' else ''k''), usr_api_key_prefix = ''cue_sk_'',
     usr_api_key_encrypted = None, usr_webhook_secret = ''w'',
     usr_alert_webhook_url = None, usr_alert_webhook_secret = None, usr_external_owner = None\<rparr>) [7, 8]\<rparr>"

definition silent_worker :: "uuid \<Rightarrow> worker" where
  "silent_worker u = \<lparr>wk_user_id = u, wk_worker_id = ''wk'', wk_handlers = None,
     wk_last_heartbeat = 0, wk_created_at = 0\<rparr>"

theorem offline_alert_once_per_hour_witness:
  "\<exists>w1. alert_worker (example_env\<lparr>e_resend_key := True, e_mail_ok := \<lambda>_. True\<rparr>) (minutes 10) (silent_worker 7) (0, two_tenants) = (1, w1)
     \<and> alert_worker example_env (minutes 20) (silent_worker 8) (1, w1) = (1, w1)"
proof -
  let ?env = "example_env\<lparr>e_resend_key := True, e_mail_ok := \<lambda>_. True\<rparr>"
  obtain w1 where w1: "alert_worker ?env (minutes 10) (silent_worker 7) (0, two_tenants) = (0 + 1, w1)"
    by (simp add: alert_worker_def silent_worker_def two_tenants_def empty_world_def redis_flag_def redis_get_def
        get_user_row_def Let_def)
  have "minutes 20 < minutes 10 + seconds 3600" "minutes 10 \<le> minutes 20"
    by (simp_all add: minutes_def seconds_def)
  with offline_alert_once_per_hour [OF w1, of "silent_worker 8" "minutes 20" example_env 1] w1
  show ?thesis by (simp add: silent_worker_def)
qed

end
