(* ===== verification/Alerts.thy ===== *)
theory Alerts
  imports WebhookDelivery
begin

section \<open>Alerts (\<open>src/app/services/alert_service.py\<close>, \<open>alert_webhook.py\<close>, \<open>src/app/routers/alerts.py\<close>)\<close>

text \<open>
  Persisting an alert unless a matching one is recent, posting it to the user's alert webhook,
  the streak of failures, and the listing. The delivery task is detached in the source and only
  sends; here it runs at the point where it is created.
\<close>

definition DEDUP_WINDOW_SECONDS :: int where
  "DEDUP_WINDOW_SECONDS = 300"

definition CONSECUTIVE_FAILURE_THRESHOLD :: nat where
  "CONSECUTIVE_FAILURE_THRESHOLD = 3"

definition alert_type_str :: "alert_type \<Rightarrow> string" where
  "alert_type_str t = (case t of AlertOutcomeTimeout \<Rightarrow> ''outcome_timeout''
     | AlertVerificationFailed \<Rightarrow> ''verification_failed''
     | AlertConsecutiveFailures \<Rightarrow> ''consecutive_failures'')"

definition severity_str :: "severity \<Rightarrow> string" where
  "severity_str s = (case s of Info \<Rightarrow> ''info'' | Warning \<Rightarrow> ''warning'' | Critical \<Rightarrow> ''critical'')"

subsection \<open>Delivery\<close>

definition alert_payload :: "alert \<Rightarrow> json" where
  "alert_payload a =
     JObj [(''alert_id'', JStr (nat_str (al_id a))), (''alert_type'', JStr (alert_type_str (al_type a))),
       (''severity'', JStr (severity_str (al_severity a))), (''message'', JStr (al_message a)),
       (''execution_id'', (case al_execution_id a of Some e \<Rightarrow> JStr (nat_str e) | None \<Rightarrow> JNull)),
       (''cue_id'', (case al_cue_id a of Some c \<Rightarrow> JStr c | None \<Rightarrow> JNull)),
       (''created_at'', JStr (isoformat (al_created_at a))),
       (''metadata'', (case al_metadata a of Some m \<Rightarrow> m | None \<Rightarrow> JObj []))]"

definition alert_request :: "net \<Rightarrow> time \<Rightarrow> alert \<Rightarrow> string \<Rightarrow> string \<Rightarrow> http_request" where
  "alert_request n now a url secret =
     (let payload = alert_payload a; (timestamp, signature) = sign_payload n now payload secret
      in \<lparr>rq_method = ''POST'', rq_url = url,
          rq_headers = [(''Content-Type'', ''application/json''), (''X-CueAPI-Signature'', signature),
            (''X-CueAPI-Timestamp'', timestamp), (''X-CueAPI-Alert-Id'', nat_str (al_id a)),
            (''X-CueAPI-Alert-Type'', alert_type_str (al_type a)), (''User-Agent'', ''CueAPI/1.0'')],
          rq_body = Some payload\<rparr>)"

definition deliver_alert ::
  "net \<Rightarrow> time \<Rightarrow> alert \<Rightarrow> string option \<Rightarrow> string option \<Rightarrow> world \<Rightarrow> bool \<times> world" where
  "deliver_alert n now a alert_webhook_url alert_webhook_secret w =
     (if \<not> truthy alert_webhook_url then (False, w)
      else if \<not> truthy alert_webhook_secret then (False, w)
      else
        (let url = the alert_webhook_url; secret = the alert_webhook_secret in
         if \<not> fst (validate_url_at_delivery (net_parse n) (net_resolve n) url (net_env n)) then (False, w)
         else
           (let w1 = w\<lparr>sent := sent w @ [AlertPost url (al_id a)]\<rparr>
            in case net_http n (alert_request n now a url secret) of
                 HttpResponse code _ \<Rightarrow> (200 \<le> code \<and> code < 300, w1)
               | _ \<Rightarrow> (False, w1))))"

subsection \<open>Creation\<close>

text \<open>The filter of the duplicate query: the execution if one is given, else the cue if one is given.\<close>

definition alert_matches :: "uuid \<Rightarrow> alert_type \<Rightarrow> uuid option \<Rightarrow> string option \<Rightarrow> alert \<Rightarrow> bool" where
  "alert_matches u ty e c a \<longleftrightarrow> al_user_id a = u \<and> al_type a = ty
     \<and> (case e of Some _ \<Rightarrow> al_execution_id a = e
        | None \<Rightarrow> (case c of Some _ \<Rightarrow> al_cue_id a = c | None \<Rightarrow> True))"

definition recent_duplicate_exists ::
  "uuid \<Rightarrow> alert_type \<Rightarrow> uuid option \<Rightarrow> string option \<Rightarrow> time \<Rightarrow> world \<Rightarrow> bool" where
  "recent_duplicate_exists u ty e c now w =
     list_ex (\<lambda>a. alert_matches u ty e c a \<and> now - seconds DEDUP_WINDOW_SECONDS < al_created_at a) (alerts w)"

definition create_alert ::
  "net \<Rightarrow> uuid \<Rightarrow> uuid \<Rightarrow> alert_type \<Rightarrow> string \<Rightarrow> severity \<Rightarrow> string option \<Rightarrow> uuid option \<Rightarrow> json option
   \<Rightarrow> bool \<Rightarrow> time \<Rightarrow> world \<Rightarrow> alert option \<times> world" where
  "create_alert n i user_id alert_type message severity cue execution metadata schedule_delivery now w =
     (if recent_duplicate_exists user_id alert_type execution cue now w then (None, w)
      else
        (let a = \<lparr>al_id = i, al_user_id = user_id, al_cue_id = cue, al_execution_id = execution,
               al_type = alert_type, al_severity = severity, al_message = message,
               al_metadata = metadata, al_acknowledged = False, al_created_at = now\<rparr>;
             w1 = w\<lparr>alerts := alerts w @ [a]\<rparr>
         in if schedule_delivery then
              (let row = get_user_row w1 user_id;
                   url = (case row of Some u \<Rightarrow> usr_alert_webhook_url u | None \<Rightarrow> None);
                   secret = (case row of Some u \<Rightarrow> usr_alert_webhook_secret u | None \<Rightarrow> None)
               in (Some a, if truthy url then snd (deliver_alert n now a url secret w1) else w1))
            else (Some a, w1)))"

subsection \<open>Failure streaks\<close>

definition completed_history :: "world \<Rightarrow> string \<Rightarrow> exec_state list" where
  "completed_history w c =
     map ex_status (newest_first ex_created_at
       (filter (\<lambda>e. ex_cue_id e = c \<and> ex_status e \<in> {Success, Failed}) (executions w)))"

definition count_consecutive_failures :: "world \<Rightarrow> string \<Rightarrow> nat" where
  "count_consecutive_failures w c =
     length (takeWhile (\<lambda>s. s = Failed) (take (CONSECUTIVE_FAILURE_THRESHOLD + 5) (completed_history w c)))"

subsection \<open>Listing\<close>

record alert_page =
  ap_alerts :: "alert list"
  ap_total :: nat
  ap_limit :: nat
  ap_offset :: nat

definition list_alerts :: "world \<Rightarrow> uuid \<Rightarrow> string option \<Rightarrow> time option \<Rightarrow> nat \<Rightarrow> nat \<Rightarrow> alert_page" where
  "list_alerts w u ty since limit offset =
     (let rows = filter (\<lambda>a. al_user_id a = u
            \<and> (truthy ty \<longrightarrow> Some (alert_type_str (al_type a)) = ty)
            \<and> (case since of Some t \<Rightarrow> t \<le> al_created_at a | None \<Rightarrow> True)) (alerts w)
      in \<lparr>ap_alerts = page limit offset (newest_first al_created_at rows),
          ap_total = length rows, ap_limit = limit, ap_offset = offset\<rparr>)"

definition get_alerts :: "world \<Rightarrow> uuid \<Rightarrow> string option \<Rightarrow> time option \<Rightarrow> nat \<Rightarrow> nat \<Rightarrow> alert_page reply" where
  "get_alerts w u ty since limit offset =
     (if \<not> (1 \<le> limit \<and> limit \<le> 100) then Refused ''validation_error'' 422
      else if truthy ty \<and> the ty \<notin> {''outcome_timeout'', ''verification_failed'', ''consecutive_failures''}
      then Refused ''invalid_filter'' 400
      else Reply (list_alerts w u ty since limit offset))"

subsection \<open>Frames\<close>

lemma deliver_alert_frame [simp, frame_simps]:
  "executions (snd (deliver_alert n now a url s w)) = executions w"
  "cues (snd (deliver_alert n now a url s w)) = cues w"
  "outbox (snd (deliver_alert n now a url s w)) = outbox w"
  "alerts (snd (deliver_alert n now a url s w)) = alerts w"
  by (simp_all add: deliver_alert_def Let_def split: http_answer.split)

lemma create_alert_frame [simp, frame_simps]:
  "executions (snd (create_alert n i u ty m sv c e md sd now w)) = executions w"
  "cues (snd (create_alert n i u ty m sv c e md sd now w)) = cues w"
  "outbox (snd (create_alert n i u ty m sv c e md sd now w)) = outbox w"
  by (simp_all add: create_alert_def Let_def)

lemma create_alert_alerts:
  "alerts (snd (create_alert n i u ty m sv c e md sd now w)) = alerts w @
     (if recent_duplicate_exists u ty e c now w then []
      else [\<lparr>al_id = i, al_user_id = u, al_cue_id = c, al_execution_id = e, al_type = ty, al_severity = sv,
             al_message = m, al_metadata = md, al_acknowledged = False, al_created_at = now\<rparr>])"
  by (simp add: create_alert_def Let_def)

subsection \<open>The window of silence\<close>

text \<open>
  An alert \<open>b\<close> that follows a matching alert \<open>a\<close> in the table came at least the window later.
\<close>

definition alerts_spaced :: "world \<Rightarrow> bool" where
  "alerts_spaced w \<longleftrightarrow> sorted_wrt (\<lambda>a b.
     alert_matches (al_user_id b) (al_type b) (al_execution_id b) (al_cue_id b) a \<longrightarrow>
       al_created_at a + seconds DEDUP_WINDOW_SECONDS \<le> al_created_at b) (alerts w)"

text \<open>
  No alert storm: creating alerts keeps the invariant that two matching alerts (the same user
  and type, and the same execution, or the same cue when no execution is given) are at least
  five minutes apart, whatever the order and times of the calls.
\<close>

theorem create_alert_keeps_spacing:
  assumes "alerts_spaced w"
  shows "alerts_spaced (snd (create_alert n i u ty m sv c e md sd now w))"
  using assms
  by (auto simp: alerts_spaced_def create_alert_alerts sorted_wrt_append recent_duplicate_exists_def list_ex_iff)

theorem create_alert_keeps_spacing_witness:
  "alerts_spaced (snd (create_alert example_net 40 7 AlertConsecutiveFailures ''m'' Warning (Some ''cue_1'') (Some 11)
     None True 100 empty_world))"
  using create_alert_keeps_spacing [of empty_world] by (simp add: alerts_spaced_def empty_world_def)

text \<open>
  The window works per execution, not per cue: an alert for an execution that has none of that
  type yet is always created, however many alerts of the type the same cue has within the
  window. Each further failing execution of a cue therefore raises its own
  \<open>consecutive_failures\<close> alert.
\<close>

theorem alert_not_collapsed_across_executions:
  assumes "\<And>a. a \<in> set (alerts w) \<Longrightarrow> al_execution_id a \<noteq> Some e"
  shows "length (alerts (snd (create_alert n i u ty m sv c (Some e) md sd now w))) = length (alerts w) + 1"
  using assms by (auto simp: create_alert_alerts recent_duplicate_exists_def list_ex_iff alert_matches_def)

definition raise_failure_alert :: "uuid \<Rightarrow> uuid \<Rightarrow> time \<Rightarrow> world \<Rightarrow> world" where
  "raise_failure_alert i e now w = snd (create_alert example_net i 7 AlertConsecutiveFailures ''m'' Warning
     (Some ''cue_1'') (Some e) None False now w)"

theorem alert_not_collapsed_across_executions_witness:
  "length (alerts (raise_failure_alert 41 12 101 (raise_failure_alert 40 11 100 empty_world))) = 2"
proof -
  let ?w1 = "raise_failure_alert 40 11 100 empty_world"
  have one: "map al_execution_id (alerts ?w1) = [Some 11]"
    by (simp add: raise_failure_alert_def create_alert_alerts recent_duplicate_exists_def empty_world_def)
  have other: "al_execution_id a \<noteq> Some 12" if "a \<in> set (alerts ?w1)" for a
    using one that by (cases "alerts ?w1") auto
  have "length (alerts (raise_failure_alert 41 12 101 ?w1)) = length (alerts ?w1) + 1"
    unfolding raise_failure_alert_def
    by (rule alert_not_collapsed_across_executions) (use other in \<open>simp add: raise_failure_alert_def\<close>)
  with arg_cong [OF one, of length] show ?thesis by simp
qed

subsection \<open>The streak\<close>

lemma takeWhile_ge_iff: "k \<le> length (takeWhile P xs) \<longleftrightarrow> k \<le> length xs \<and> list_all P (take k xs)"
proof (induction xs arbitrary: k)
  case (Cons x xs)
  then show ?case by (cases k) auto
qed simp

text \<open>
  The alarm is exact: the streak reaches the threshold precisely when the cue has at least
  three completed executions and the three newest of them failed; the streak is never counted
  beyond eight.
\<close>

theorem streak_reaches_threshold_iff:
  "(CONSECUTIVE_FAILURE_THRESHOLD \<le> count_consecutive_failures w c \<longleftrightarrow>
      3 \<le> length (completed_history w c) \<and> list_all (\<lambda>s. s = Failed) (take 3 (completed_history w c)))
   \<and> count_consecutive_failures w c \<le> 8"
proof -
  let ?h = "completed_history w c"
  have "length (takeWhile (\<lambda>s. s = Failed) (take 8 ?h)) \<le> length (take 8 ?h)"
    by (rule length_takeWhile_le)
  then show ?thesis
    by (simp add: count_consecutive_failures_def CONSECUTIVE_FAILURE_THRESHOLD_def takeWhile_ge_iff)
qed

end
