(* ===== verification/Outcome.thy ===== *)
theory Outcome
  imports Alerts
begin

section \<open>Recording outcomes (\<open>src/app/services/outcome_service.py\<close>)\<close>

text \<open>
  The write-once outcome of an execution, the state computed from the verification policy of the
  cue and the evidence, the completion of worker executions, and the alerts that follow. The
  execution row is locked by the SELECT, so the first part is one atomic step.

  A flushed row that the database refuses (a text longer than its column, a null byte) raises and
  rolls the transaction back.
\<close>

record outcome_request =
  oc_success :: bool
  oc_result :: "string option"
  oc_error :: "string option"
  oc_metadata :: "json option"
  oc_external_id :: "string option"
  oc_result_url :: "string option"
  oc_result_ref :: "string option"
  oc_result_type :: "string option"
  oc_summary :: "string option"
  oc_artifacts :: "json list option"

text \<open>The length limits of the request schema.\<close>

definition within :: "nat \<Rightarrow> string option \<Rightarrow> bool" where
  "within n s = (case s of None \<Rightarrow> True | Some t \<Rightarrow> length t \<le> n)"

definition outcome_request_ok :: "outcome_request \<Rightarrow> bool" where
  "outcome_request_ok b \<longleftrightarrow> within 2000 (oc_result b) \<and> within 2000 (oc_error b)
     \<and> within 500 (oc_external_id b) \<and> within 500 (oc_result_ref b) \<and> within 100 (oc_result_type b)
     \<and> within 500 (oc_summary b)"

record outcome_response =
  or_execution_id :: uuid
  or_outcome_recorded :: bool
  or_outcome_state :: "outcome_state option"

definition nonempty :: "'a list option \<Rightarrow> bool" where
  "nonempty v = (case v of None \<Rightarrow> False | Some xs \<Rightarrow> xs \<noteq> [])"

text \<open>The widths of the text columns, and no null byte anywhere.\<close>

definition outcome_storable :: "outcome_request \<Rightarrow> bool" where
  "outcome_storable b \<longleftrightarrow> within 255 (oc_external_id b) \<and> within 255 (oc_result_ref b)
     \<and> within 50 (oc_result_type b)
     \<and> list_all (\<lambda>s. case s of None \<Rightarrow> True | Some t \<Rightarrow> \<not> has_nul t)
         [oc_result b, oc_error b, oc_external_id b, oc_result_url b, oc_result_ref b, oc_result_type b,
          map_option (take 500) (oc_summary b)]
     \<and> (case oc_metadata b of None \<Rightarrow> True | Some m \<Rightarrow> \<not> contains_null_byte m)
     \<and> (case oc_artifacts b of None \<Rightarrow> True | Some a \<Rightarrow> \<not> contains_null_byte (JList a))"

definition outcome_state_of :: "verification_mode \<Rightarrow> outcome_request \<Rightarrow> outcome_state \<times> validation_state option" where
  "outcome_state_of m b =
     (if \<not> oc_success b then (ReportedFailure, None)
      else (case m of
        VNone \<Rightarrow> (ReportedSuccess, None)
      | Manual \<Rightarrow> (VerificationPending, None)
      | RequireExternalId \<Rightarrow>
          if nonempty (oc_external_id b) then (VerifiedSuccess, Some Valid) else (VerificationFailed, Some Invalid)
      | RequireResultUrl \<Rightarrow>
          if oc_result_url b \<noteq> None then (VerifiedSuccess, Some Valid) else (VerificationFailed, Some Invalid)
      | RequireArtifacts \<Rightarrow>
          if nonempty (oc_artifacts b) then (VerifiedSuccess, Some Valid) else (VerificationFailed, Some Invalid)))"

text \<open>The columns assigned for every transport.\<close>

definition outcome_row :: "verification_mode \<Rightarrow> outcome_request \<Rightarrow> time \<Rightarrow> execution \<Rightarrow> execution" where
  "outcome_row m b now r =
     (let (state, validation) = outcome_state_of m b;
          r1 = r\<lparr>ex_outcome_success := Some (oc_success b), ex_outcome_result := oc_result b,
            ex_outcome_error := oc_error b, ex_outcome_metadata := oc_metadata b,
            ex_outcome_recorded_at := Some now,
            ex_evidence_external_id :=
              (if nonempty (oc_external_id b) then oc_external_id b else ex_evidence_external_id r),
            ex_evidence_result_url :=
              (if oc_result_url b \<noteq> None then oc_result_url b else ex_evidence_result_url r),
            ex_evidence_result_ref :=
              (if nonempty (oc_result_ref b) then oc_result_ref b else ex_evidence_result_ref r),
            ex_evidence_result_type :=
              (if nonempty (oc_result_type b) then oc_result_type b else ex_evidence_result_type r),
            ex_evidence_summary :=
              (if nonempty (oc_summary b) then map_option (take 500) (oc_summary b) else ex_evidence_summary r),
            ex_evidence_artifacts :=
              (if nonempty (oc_artifacts b) then map_option JList (oc_artifacts b) else ex_evidence_artifacts r),
            ex_evidence_produced_at :=
              (if nonempty (oc_external_id b) \<or> oc_result_url b \<noteq> None \<or> nonempty (oc_artifacts b)
               then Some now else ex_evidence_produced_at r)\<rparr>
      in r1\<lparr>ex_outcome_state := Some state,
            ex_evidence_validation_state :=
              (case validation of Some v \<Rightarrow> Some v | None \<Rightarrow> ex_evidence_validation_state r),
            ex_updated_at := now\<rparr>)"

text \<open>For the worker transport the outcome completes the execution.\<close>

definition completion_row :: "outcome_request \<Rightarrow> time \<Rightarrow> execution \<Rightarrow> execution" where
  "completion_row b now r =
     (if oc_success b then r\<lparr>ex_status := Success, ex_delivered_at := Some now, ex_updated_at := now\<rparr>
      else r\<lparr>ex_status := Failed, ex_error_message := oc_error b, ex_updated_at := now\<rparr>)"

definition complete_cue :: "schedule_type \<Rightarrow> bool \<Rightarrow> time \<Rightarrow> string \<Rightarrow> world \<Rightarrow> world" where
  "complete_cue ty success now c w =
     (let w1 = update_cue_row c (\<lambda>r. r\<lparr>cue_last_run := Some now, cue_run_count := cue_run_count r + 1,
                 cue_updated_at := now\<rparr>) w
      in if ty = Once
         then update_cue_row c (\<lambda>r. r\<lparr>cue_status := (if success then CueCompleted else CueFailed),
                cue_updated_at := now\<rparr>) w1
         else w1)"

definition transport_str :: "transport \<Rightarrow> string" where
  "transport_str t = (case t of Webhook \<Rightarrow> ''webhook'' | WorkerPull \<Rightarrow> ''worker'')"

text \<open>The alerts after the commit; \<open>ids\<close> are the UUIDs drawn for them.\<close>

definition outcome_alerts ::
  "net \<Rightarrow> uuid \<times> uuid \<Rightarrow> uuid \<Rightarrow> uuid \<Rightarrow> cue \<Rightarrow> outcome_request \<Rightarrow> outcome_state \<Rightarrow> time \<Rightarrow> world \<Rightarrow> world" where
  "outcome_alerts n ids u e c b state now w =
     (let w1 = (if state = VerificationFailed
                then snd (create_alert n (fst ids) u AlertVerificationFailed
                  (''Execution '' @ nat_str e @ '' reported success but failed verification (required evidence missing).'')
                  Warning (Some (cue_id c)) (Some e)
                  (Some (JObj [(''outcome_state'', JStr ''verification_failed''),
                     (''transport'', JStr (transport_str (cue_callback_transport c)))])) True now w)
                else w)
      in if \<not> oc_success b then
           (let streak = count_consecutive_failures w1 (cue_id c)
            in if CONSECUTIVE_FAILURE_THRESHOLD \<le> streak
               then snd (create_alert n (snd ids) u AlertConsecutiveFailures
                 (''Cue '' @ cue_id c @ '' has '' @ nat_str streak @ '' consecutive failed executions.'')
                 Warning (Some (cue_id c)) (Some e)
                 (Some (JObj [(''consecutive_failures'', JInt (int streak))])) True now w1)
               else w1)
         else w1)"

definition record_outcome ::
  "net \<Rightarrow> uuid \<times> uuid \<Rightarrow> uuid \<Rightarrow> uuid \<Rightarrow> outcome_request \<Rightarrow> time \<Rightarrow> time \<Rightarrow> world \<Rightarrow> outcome_response reply \<times> world" where
  "record_outcome n ids user_id e b now later w =
     (case get_exec_row w e of
        None \<Rightarrow> (Refused ''execution_not_found'' 404, w)
      | Some r \<Rightarrow>
        (case get_cue_row w (ex_cue_id r) of
           None \<Rightarrow> (Refused ''execution_not_found'' 404, w)
         | Some c \<Rightarrow>
           if cue_user_id c \<noteq> user_id then (Refused ''execution_not_found'' 404, w)
           else if ex_outcome_recorded_at r \<noteq> None then (Refused ''outcome_already_recorded'' 409, w)
           else if (case oc_metadata b of None \<Rightarrow> False | Some m \<Rightarrow> 10240 < json_size True m)
             then (Refused ''metadata_too_large'' 400, w)
           else if \<not> outcome_storable b then (Raised DataError, w)
           else
             (let mode = (case cue_verification_mode c of Some m \<Rightarrow> m | None \<Rightarrow> VNone);
                  worker = (cue_callback_transport c = WorkerPull);
                  w1 = update_exec_row e (\<lambda>x. (if worker then completion_row b now else id) (outcome_row mode b now x)) w;
                  w2 = (if worker then complete_cue (cue_schedule_type c) (oc_success b) now (ex_cue_id r) w1 else w1);
                  state = fst (outcome_state_of mode b);
                  w3 = outcome_alerts n ids user_id e c b state later w2
              in (Reply \<lparr>or_execution_id = e, or_outcome_recorded = True, or_outcome_state = Some state\<rparr>, w3))))"

subsection \<open>Contracts and frames\<close>

definition recorded_row :: "bool \<Rightarrow> verification_mode \<Rightarrow> outcome_request \<Rightarrow> time \<Rightarrow> execution \<Rightarrow> execution" where
  "recorded_row worker m b now x = (if worker then completion_row b now else id) (outcome_row m b now x)"

lemma outcome_row_sel [simp]:
  "ex_id (outcome_row m b now r) = ex_id r" "ex_cue_id (outcome_row m b now r) = ex_cue_id r"
  "ex_scheduled_for (outcome_row m b now r) = ex_scheduled_for r"
  "ex_status (outcome_row m b now r) = ex_status r"
  "ex_created_at (outcome_row m b now r) = ex_created_at r"
  "ex_outcome_recorded_at (outcome_row m b now r) = Some now"
  "ex_outcome_state (outcome_row m b now r) = Some (fst (outcome_state_of m b))"
  "ex_outcome_success (outcome_row m b now r) = Some (oc_success b)"
  "ex_evidence_validation_state (outcome_row m b now r) =
     (case snd (outcome_state_of m b) of Some v \<Rightarrow> Some v | None \<Rightarrow> ex_evidence_validation_state r)"
  by (simp_all add: outcome_row_def Let_def split_def)

lemma completion_row_sel [simp]:
  "ex_id (completion_row b now r) = ex_id r" "ex_cue_id (completion_row b now r) = ex_cue_id r"
  "ex_scheduled_for (completion_row b now r) = ex_scheduled_for r"
  "ex_status (completion_row b now r) = (if oc_success b then Success else Failed)"
  "ex_outcome_recorded_at (completion_row b now r) = ex_outcome_recorded_at r"
  "ex_outcome_state (completion_row b now r) = ex_outcome_state r"
  "ex_outcome_success (completion_row b now r) = ex_outcome_success r"
  "ex_evidence_validation_state (completion_row b now r) = ex_evidence_validation_state r"
  by (simp_all add: completion_row_def)

interpretation recorded_upd: exec_update "recorded_row worker m b now" for worker m b now
  by unfold_locales (simp_all add: recorded_row_def exec_slot_def)

lemma outcome_alerts_frame [simp, frame_simps]:
  "executions (outcome_alerts n ids u e c b s now w) = executions w"
  "cues (outcome_alerts n ids u e c b s now w) = cues w"
  "outbox (outcome_alerts n ids u e c b s now w) = outbox w"
  by (simp_all add: outcome_alerts_def Let_def)

lemma get_cue_row_outcome_alerts [simp]:
  "get_cue_row (outcome_alerts n ids u e c b s now w) c' = get_cue_row w c'"
  by (rule get_cue_row_cong) simp

lemma complete_cue_frame [simp, frame_simps]:
  "executions (complete_cue ty s now c w) = executions w"
  "outbox (complete_cue ty s now c w) = outbox w"
  by (simp_all add: complete_cue_def Let_def)

lemma complete_cue_row:
  "get_cue_row (complete_cue ty s now c w) c' =
     (if c' = c then map_option (\<lambda>r. r\<lparr>cue_last_run := Some now, cue_run_count := cue_run_count r + 1,
          cue_status := (if ty = Once then (if s then CueCompleted else CueFailed) else cue_status r),
          cue_updated_at := now\<rparr>) (get_cue_row w c) else get_cue_row w c')"
  by (cases "get_cue_row w c") (auto simp: complete_cue_def Let_def get_cue_row_update)

text \<open>An accepted report: everything the handler checked, and the rows it left.\<close>

lemma record_outcome_accepted:
  assumes "record_outcome n ids u e b now later w = (Reply resp, w')"
  obtains r c m where "get_exec_row w e = Some r" "get_cue_row w (ex_cue_id r) = Some c" "cue_user_id c = u"
    "ex_outcome_recorded_at r = None" "outcome_storable b"
    "m = (case cue_verification_mode c of Some m \<Rightarrow> m | None \<Rightarrow> VNone)"
    "executions w' = executions (update_exec_row e (recorded_row (cue_callback_transport c = WorkerPull) m b now) w)"
    "\<And>c'. get_cue_row w' c' = (if cue_callback_transport c = WorkerPull
        then get_cue_row (complete_cue (cue_schedule_type c) (oc_success b) now (ex_cue_id r) w) c'
        else get_cue_row w c')"
    "or_outcome_state resp = Some (fst (outcome_state_of m b))"
proof -
  from assms obtain r c where rc: "get_exec_row w e = Some r" "get_cue_row w (ex_cue_id r) = Some c" "cue_user_id c = u"
    "ex_outcome_recorded_at r = None" "outcome_storable b"
    and nb: "\<not> (case oc_metadata b of None \<Rightarrow> False | Some m \<Rightarrow> 10240 < json_size True m)"
    by (auto simp: record_outcome_def split: option.splits if_splits)
  define m where "m = (case cue_verification_mode c of Some m \<Rightarrow> m | None \<Rightarrow> VNone)"
  let ?w1 = "update_exec_row e (recorded_row (cue_callback_transport c = WorkerPull) m b now) w"
  let ?w2 = "if cue_callback_transport c = WorkerPull
    then complete_cue (cue_schedule_type c) (oc_success b) now (ex_cue_id r) ?w1 else ?w1"
  from assms rc nb have w': "w' = outcome_alerts n ids u e c b (fst (outcome_state_of m b)) later ?w2"
    and resp: "or_outcome_state resp = Some (fst (outcome_state_of m b))"
    by (auto simp: record_outcome_def Let_def recorded_row_def [abs_def] m_def [symmetric])
  show thesis
    by (rule that [OF rc m_def _ _ resp]) (simp_all add: w' complete_cue_row)
qed

subsection \<open>Write-once\<close>

text \<open>
  An outcome is written once: after an accepted report every later report on the execution,
  by any user, with any body and at any time, is refused and changes nothing at all.
\<close>

theorem outcome_write_once:
  assumes "record_outcome n ids u e b now later w = (Reply resp, w')"
  shows "\<exists>code status. record_outcome n2 ids2 u2 e b2 now2 later2 w' = (Refused code status, w')"
proof -
  from assms obtain r m and c :: cue where r: "get_exec_row w e = Some r"
    and ex: "executions w' = executions (update_exec_row e (recorded_row (cue_callback_transport c = WorkerPull) m b now) w)"
    by (rule record_outcome_accepted) blast
  have "get_exec_row w' e = Some (recorded_row (cue_callback_transport c = WorkerPull) m b now r)"
    using r by (simp add: get_exec_row_cong [OF ex] recorded_upd.get_row)
  then show ?thesis
    by (simp add: record_outcome_def recorded_row_def split: option.split)
qed

definition report_world :: "cue \<Rightarrow> world" where
  "report_world c = empty_world\<lparr>cues := [c], executions := [new_execution 11 ''cue_1'' 50 None None 0]\<rparr>"

definition plain_report :: "bool \<Rightarrow> outcome_request" where
  "plain_report success = \<lparr>oc_success = success, oc_result = None, oc_error = None, oc_metadata = None,
     oc_external_id = None, oc_result_url = None, oc_result_ref = None, oc_result_type = None,
     oc_summary = None, oc_artifacts = None\<rparr>"

lemma report_accepted:
  assumes "cue_id c = ''cue_1''" and "cue_user_id c = 7"
  shows "\<exists>resp w'. record_outcome example_net (40, 41) 7 11 (plain_report success) 100 101 (report_world c) = (Reply resp, w')"
  using assms by (simp add: record_outcome_def report_world_def get_exec_row_def get_cue_row_def plain_report_def
      outcome_storable_def within_def Let_def)

lemma example_cue_keys:
  "cue_id worker_cue = ''cue_1''" "cue_user_id worker_cue = 7" "cue_id example_cue = ''cue_1''" "cue_user_id example_cue = 7"
  by (simp_all add: worker_cue_def example_cue_def)

theorem outcome_write_once_witness:
  "\<exists>resp w' code status.
     record_outcome example_net (40, 41) 7 11 (plain_report True) 100 101 (report_world worker_cue) = (Reply resp, w')
     \<and> record_outcome example_net (42, 43) 7 11 (plain_report False) 200 201 w' = (Refused code status, w')"
  using report_accepted [OF example_cue_keys(1,2), of True]
    outcome_write_once [of example_net "(40, 41)" 7 11 "plain_report True" 100 101 "report_world worker_cue"] by blast

subsection \<open>The verification policy\<close>

text \<open>
  What a mode asks for: \<open>None\<close> when no evidence is required, otherwise whether the report holds it.
\<close>

definition required_evidence :: "verification_mode \<Rightarrow> outcome_request \<Rightarrow> bool option" where
  "required_evidence m b = (case m of VNone \<Rightarrow> None | Manual \<Rightarrow> None
     | RequireExternalId \<Rightarrow> Some (nonempty (oc_external_id b))
     | RequireResultUrl \<Rightarrow> Some (oc_result_url b \<noteq> None)
     | RequireArtifacts \<Rightarrow> Some (nonempty (oc_artifacts b)))"


definition url_cue :: cue where
  "url_cue = example_cue\<lparr>cue_verification_mode := Some RequireResultUrl\<rparr>"


subsection \<open>Completion\<close>

text \<open>
  The transport decides who completes an execution: for a worker cue an accepted report makes
  the execution \<open>success\<close> or \<open>failed\<close> as reported, counts exactly one run of the cue and turns a
  one-time cue \<open>completed\<close> or \<open>failed\<close>; for a webhook cue neither the execution status nor any cue
  changes. All other executions are untouched.
\<close>

theorem outcome_completes_worker_execution:
  assumes "record_outcome n ids u e b now later w = (Reply resp, w')"
    and "get_exec_row w e = Some r" and "get_cue_row w (ex_cue_id r) = Some c"
  shows "(\<exists>r' c'. get_exec_row w' e = Some r' \<and> get_cue_row w' (ex_cue_id r) = Some c'
        \<and> (if cue_callback_transport c = WorkerPull then
             ex_status r' = (if oc_success b then Success else Failed)
             \<and> cue_run_count c' = cue_run_count c + 1
             \<and> cue_status c' = (if cue_schedule_type c = Once then (if oc_success b then CueCompleted else CueFailed)
                               else cue_status c)
           else ex_status r' = ex_status r \<and> c' = c))
    \<and> (\<forall>e'. e' \<noteq> e \<longrightarrow> get_exec_row w' e' = get_exec_row w e')"
proof -
  from assms(1) obtain r0 c0 m where r0: "get_exec_row w e = Some r0" "get_cue_row w (ex_cue_id r0) = Some c0"
    and ex: "executions w' = executions (update_exec_row e (recorded_row (cue_callback_transport c0 = WorkerPull) m b now) w)"
    and cue: "\<And>c'. get_cue_row w' c' = (if cue_callback_transport c0 = WorkerPull
        then get_cue_row (complete_cue (cue_schedule_type c0) (oc_success b) now (ex_cue_id r0) w) c'
        else get_cue_row w c')"
    by (rule record_outcome_accepted) blast
  from r0 assms(2,3) have same: "r0 = r" "c0 = c" by auto
  have rows: "get_exec_row w' e' = (if e' = e then Some (recorded_row (cue_callback_transport c = WorkerPull) m b now r)
      else get_exec_row w e')" for e'
    using assms(2) by (simp add: get_exec_row_cong [OF ex] recorded_upd.get_row same)
  show ?thesis
    unfolding rows using cue [of "ex_cue_id r"] assms(3) by (simp add: same complete_cue_row recorded_row_def)
qed

theorem outcome_completes_worker_execution_witness:
  "\<exists>resp w'. record_outcome example_net (40, 41) 7 11 (plain_report True) 100 101 (report_world worker_cue) = (Reply resp, w')
     \<and> map_option ex_status (get_exec_row w' 11) = Some Success"
proof -
  from report_accepted [OF example_cue_keys(1,2), of True] obtain resp w' where
    a: "record_outcome example_net (40, 41) 7 11 (plain_report True) 100 101 (report_world worker_cue) = (Reply resp, w')"
    by blast
  have "get_exec_row (report_world worker_cue) 11 = Some (new_execution 11 ''cue_1'' 50 None None 0)"
    "get_cue_row (report_world worker_cue) (ex_cue_id (new_execution 11 ''cue_1'' 50 None None 0)) = Some worker_cue"
    by (simp_all add: report_world_def get_exec_row_def get_cue_row_def example_cue_keys)
  from outcome_completes_worker_execution [OF a this] a show ?thesis
    by (auto simp: plain_report_def worker_cue_def)
qed

text \<open>
  The request schema is wider than the table: a report that passes validation but whose
  external id is longer than 255 characters (the schema allows 500) is answered by a server
  error, and the outcome is not recorded.
\<close>

theorem outcome_long_external_id_raises:
  assumes "get_exec_row w e = Some r" and "get_cue_row w (ex_cue_id r) = Some c" and "cue_user_id c = u"
    and "ex_outcome_recorded_at r = None" and "oc_metadata b = None"
    and "oc_external_id b = Some s" and "255 < length s"
  shows "record_outcome n ids u e b now later w = (Raised DataError, w)"
  using assms by (simp add: record_outcome_def outcome_storable_def within_def)

theorem outcome_long_external_id_raises_witness:
  "let b = (plain_report True)\<lparr>oc_external_id := Some (replicate 300 (CHR ''x''))\<rparr> in
     outcome_request_ok b
     \<and> record_outcome example_net (40, 41) 7 11 b 100 101 (report_world worker_cue) = (Raised DataError, report_world worker_cue)"
proof -
  let ?b = "(plain_report True)\<lparr>oc_external_id := Some (replicate 300 (CHR ''x''))\<rparr>"
  have "record_outcome example_net (40, 41) 7 11 ?b 100 101 (report_world worker_cue) = (Raised DataError, report_world worker_cue)"
    by (rule outcome_long_external_id_raises [where r = "new_execution 11 ''cue_1'' 50 None None 0" and c = worker_cue
          and s = "replicate 300 (CHR ''x'')"])
      (simp_all add: report_world_def get_exec_row_def get_cue_row_def example_cue_keys plain_report_def)
  then show ?thesis by (simp add: outcome_request_ok_def plain_report_def within_def)
qed

end
