(* ===== verification/ExecutionApi.thy ===== *)
theory ExecutionApi
  imports Recovery Outcome
begin

section \<open>The execution and worker endpoints (\<open>src/app/routers/executions.py\<close>, \<open>workers.py\<close>)\<close>

text \<open>
  Listing, claiming, heartbeats, replay, verification, evidence and live-claim attestation of
  executions, and the registry of workers. A handler takes the authenticated user's id, its
  arguments, the clock and the world; a refused or failed request leaves the world alone because
  the session is closed without a commit. \<open>onupdate\<close> of \<open>updated_at\<close> is written out.
\<close>

definition WORKER_CLAIM_TIMEOUT_SECONDS :: int where
  "WORKER_CLAIM_TIMEOUT_SECONDS = 900"

text \<open>The SELECT ... JOIN cues ... WHERE executions.id = e AND cues.user_id = u of all handlers.\<close>

definition owned_exec :: "world \<Rightarrow> uuid \<Rightarrow> uuid \<Rightarrow> (execution \<times> cue) option" where
  "owned_exec w u e =
     (case get_exec_row w e of
        None \<Rightarrow> None
      | Some r \<Rightarrow> (case get_cue_row w (ex_cue_id r) of
                    None \<Rightarrow> None
                  | Some c \<Rightarrow> if cue_user_id c = u then Some (r, c) else None))"

subsection \<open>Listing\<close>

definition exec_state_str :: "exec_state \<Rightarrow> string" where
  "exec_state_str s = (case s of Pending \<Rightarrow> ''pending'' | Delivering \<Rightarrow> ''delivering'' | Success \<Rightarrow> ''success''
     | Failed \<Rightarrow> ''failed'' | Retrying \<Rightarrow> ''retrying'' | RetryReady \<Rightarrow> ''retry_ready'' | Missed \<Rightarrow> ''missed''
     | PendingOutcome \<Rightarrow> ''pending_outcome'' | OutcomeTimeout \<Rightarrow> ''outcome_timeout'')"

definition outcome_state_str :: "outcome_state \<Rightarrow> string" where
  "outcome_state_str s = (case s of ReportedSuccess \<Rightarrow> ''reported_success'' | ReportedFailure \<Rightarrow> ''reported_failure''
     | VerifiedSuccess \<Rightarrow> ''verified_success'' | VerificationFailed \<Rightarrow> ''verification_failed''
     | VerificationPending \<Rightarrow> ''verification_pending'')"

record outcome_detail =
  od_success :: "bool option"
  od_result :: "string option"
  od_error :: "string option"
  od_metadata :: "json option"
  od_recorded_at :: time

record execution_response =
  er_id :: uuid
  er_cue_id :: string
  er_scheduled_for :: time
  er_status :: exec_state
  er_http_status :: "int option"
  er_attempts :: int
  er_error_message :: "string option"
  er_started_at :: "time option"
  er_delivered_at :: "time option"
  er_last_attempt_at :: "time option"
  er_outcome :: "outcome_detail option"
  er_created_at :: time
  er_updated_at :: time

definition execution_to_response :: "execution \<Rightarrow> execution_response" where
  "execution_to_response x =
     \<lparr>er_id = ex_id x, er_cue_id = ex_cue_id x, er_scheduled_for = ex_scheduled_for x, er_status = ex_status x,
      er_http_status = ex_http_status x, er_attempts = ex_attempts x, er_error_message = ex_error_message x,
      er_started_at = ex_started_at x, er_delivered_at = ex_delivered_at x,
      er_last_attempt_at = ex_last_attempt_at x,
      er_outcome = (case ex_outcome_recorded_at x of None \<Rightarrow> None
        | Some t \<Rightarrow> Some \<lparr>od_success = ex_outcome_success x, od_result = ex_outcome_result x,
            od_error = ex_outcome_error x, od_metadata = ex_outcome_metadata x, od_recorded_at = t\<rparr>),
      er_created_at = ex_created_at x, er_updated_at = ex_updated_at x\<rparr>"

record execution_page =
  ep_executions :: "execution_response list"
  ep_total :: nat
  ep_limit :: nat
  ep_offset :: nat
  ep_has_more :: bool
  ep_oldest_claimed_at :: "time option"

text \<open>\<open>MIN\<close> of a nullable column.\<close>

definition min_time :: "time list \<Rightarrow> time option" where
  "min_time ts = (case ts of [] \<Rightarrow> None | t # rest \<Rightarrow> Some (fold min rest t))"

definition listed_exec ::
  "world \<Rightarrow> uuid \<Rightarrow> string option \<Rightarrow> string option \<Rightarrow> string list option \<Rightarrow> string option \<Rightarrow> string option \<Rightarrow> execution \<Rightarrow> bool" where
  "listed_exec w u cue status status_list worker_id outcome_state x \<longleftrightarrow>
     (case get_cue_row w (ex_cue_id x) of Some c \<Rightarrow> cue_user_id c = u | None \<Rightarrow> False)
     \<and> (truthy cue \<longrightarrow> Some (ex_cue_id x) = cue)
     \<and> (truthy status \<longrightarrow> Some (exec_state_str (ex_status x)) = status)
     \<and> (case status_list of Some ss \<Rightarrow> exec_state_str (ex_status x) \<in> set ss | None \<Rightarrow> True)
     \<and> (truthy worker_id \<longrightarrow> ex_claimed_by_worker x = worker_id)
     \<and> (truthy outcome_state \<longrightarrow> map_option outcome_state_str (ex_outcome_state x) = outcome_state)"

definition list_executions ::
  "world \<Rightarrow> uuid \<Rightarrow> string option \<Rightarrow> string option \<Rightarrow> string option \<Rightarrow> string option \<Rightarrow> string option \<Rightarrow> nat \<Rightarrow> nat
   \<Rightarrow> execution_page reply" where
  "list_executions w u cue status status_in worker_id outcome_state limit offset =
     (if \<not> (1 \<le> limit \<and> limit \<le> 100) then Refused ''validation_error'' 422
      else if truthy status \<and> truthy status_in then Refused ''conflicting_filters'' 400
      else
        (let status_list = (if truthy status_in
               then Some (filter (\<lambda>s. s \<noteq> []) (map strip (split_on (CHR '','') (the status_in)))) else None)
         in if status_list = Some [] then Refused ''invalid_status_in'' 400
            else
              (let rows = filter (listed_exec w u cue status status_list worker_id outcome_state) (executions w);
                   total = length rows
               in Reply \<lparr>ep_executions = map execution_to_response (page limit offset (newest_first ex_created_at rows)),
                    ep_total = total, ep_limit = limit, ep_offset = offset, ep_has_more = (offset + limit < total),
                    ep_oldest_claimed_at = min_time (List.map_filter ex_claimed_at rows)\<rparr>)))"

definition get_execution :: "world \<Rightarrow> uuid \<Rightarrow> uuid \<Rightarrow> execution_response reply" where
  "get_execution w u e =
     (case owned_exec w u e of None \<Rightarrow> Refused ''execution_not_found'' 404
      | Some (r, _) \<Rightarrow> Reply (execution_to_response r))"

subsection \<open>Claimable executions\<close>

record claimable_execution =
  ce_execution_id :: uuid
  ce_cue_id :: string
  ce_cue_name :: string
  ce_task :: "string option"
  ce_scheduled_for :: time
  ce_payload :: json
  ce_attempt :: int

definition worker_exec :: "world \<Rightarrow> uuid \<Rightarrow> execution \<Rightarrow> bool" where
  "worker_exec w u x = (case get_cue_row w (ex_cue_id x) of
     Some c \<Rightarrow> cue_user_id c = u \<and> cue_callback_transport c = WorkerPull | None \<Rightarrow> False)"

text \<open>
  The response field \<open>task\<close> is an optional string: another JSON value in the payload is a validation
  error, raised while the answer is built.
\<close>

fun claimable_answers :: "world \<Rightarrow> string option \<Rightarrow> execution list \<Rightarrow> py_error + claimable_execution list" where
  "claimable_answers w task [] = Inr []"
| "claimable_answers w task (x # xs) =
     (case get_cue_row w (ex_cue_id x) of
        None \<Rightarrow> claimable_answers w task xs
      | Some c \<Rightarrow>
          (let task_name = json_get (cue_payload c) ''task'' in
           if truthy task \<and> task_name \<noteq> map_option JStr task then claimable_answers w task xs
           else if (case task_name of None \<Rightarrow> False | Some JNull \<Rightarrow> False | Some (JStr _) \<Rightarrow> False | Some _ \<Rightarrow> True)
             then Inl ValueError
           else
             (case claimable_answers w task xs of
                Inl err \<Rightarrow> Inl err
              | Inr rest \<Rightarrow>
                  Inr (\<lparr>ce_execution_id = ex_id x, ce_cue_id = ex_cue_id x, ce_cue_name = cue_name c,
                     ce_task = (case task_name of Some (JStr t) \<Rightarrow> Some t | _ \<Rightarrow> None),
                     ce_scheduled_for = ex_scheduled_for x, ce_payload = cue_payload c,
                     ce_attempt = ex_attempts x\<rparr> # rest))))"

definition claimable_rows :: "world \<Rightarrow> uuid \<Rightarrow> execution list" where
  "claimable_rows w u = take 50 (sort_key ex_scheduled_for
     (filter (\<lambda>x. worker_exec w u x \<and> ex_status x \<in> {Pending, RetryReady}) (executions w)))"

definition get_claimable :: "world \<Rightarrow> uuid \<Rightarrow> string option \<Rightarrow> claimable_execution list reply" where
  "get_claimable w u task =
     (case claimable_answers w task (claimable_rows w u) of Inl err \<Rightarrow> Raised err | Inr es \<Rightarrow> Reply es)"

subsection \<open>Claims\<close>

record claim_response =
  cr_claimed :: bool
  cr_execution_id :: uuid
  cr_lease_seconds :: int

definition worker_claim_row :: "string \<Rightarrow> time \<Rightarrow> execution \<Rightarrow> execution" where
  "worker_claim_row worker_id now r =
     r\<lparr>ex_status := Delivering, ex_claimed_by_worker := Some worker_id, ex_claimed_at := Some now,
       ex_started_at := Some now, ex_last_attempt_at := Some now, ex_attempts := ex_attempts r + 1,
       ex_updated_at := now\<rparr>"

text \<open>The subquery of the claim: the pending worker execution with the earliest firing time.\<close>

definition next_claim :: "world \<Rightarrow> uuid \<Rightarrow> uuid option" where
  "next_claim w u =
     (case sort_key ex_scheduled_for (filter (\<lambda>x. worker_exec w u x \<and> ex_status x = Pending) (executions w)) of
        [] \<Rightarrow> None | x # _ \<Rightarrow> Some (ex_id x))"

text \<open>The UPDATE itself is addressed by id alone.\<close>

definition apply_claim :: "string \<Rightarrow> uuid option \<Rightarrow> time \<Rightarrow> world \<Rightarrow> claim_response reply \<times> world" where
  "apply_claim worker_id target now w =
     (case target of
        None \<Rightarrow> (Refused ''claim_failed'' 409, w)
      | Some e \<Rightarrow>
          if get_exec_row w e = None then (Refused ''claim_failed'' 409, w)
          else (Reply \<lparr>cr_claimed = True, cr_execution_id = e, cr_lease_seconds = WORKER_CLAIM_TIMEOUT_SECONDS\<rparr>,
                update_exec_row e (worker_claim_row worker_id now) w))"

definition worker_id_ok :: "string \<Rightarrow> bool" where
  "worker_id_ok i \<longleftrightarrow> 1 \<le> length i \<and> length i \<le> 255"

definition claim_next_execution :: "uuid \<Rightarrow> string \<Rightarrow> time \<Rightarrow> world \<Rightarrow> claim_response reply \<times> world" where
  "claim_next_execution u worker_id now w =
     (if \<not> worker_id_ok worker_id then (Refused ''validation_error'' 422, w)
      else if has_nul worker_id then (Raised DataError, w)
      else apply_claim worker_id (next_claim w u) now w)"

definition claim_one_execution :: "uuid \<Rightarrow> uuid \<Rightarrow> string \<Rightarrow> time \<Rightarrow> world \<Rightarrow> claim_response reply \<times> world" where
  "claim_one_execution u e worker_id now w =
     (if \<not> worker_id_ok worker_id then (Refused ''validation_error'' 422, w)
      else if has_nul worker_id then (Raised DataError, w)
      else if list_ex (\<lambda>x. ex_id x = e \<and> ex_status x = Pending \<and> worker_exec w u x) (executions w)
        then (Reply \<lparr>cr_claimed = True, cr_execution_id = e, cr_lease_seconds = WORKER_CLAIM_TIMEOUT_SECONDS\<rparr>,
              w\<lparr>executions := update_where (\<lambda>x. ex_id x = e \<and> ex_status x = Pending \<and> worker_exec w u x)
                   (worker_claim_row worker_id now) (executions w)\<rparr>)
      else (Refused ''claim_failed'' 409, w))"

subsection \<open>Execution heartbeat\<close>

definition heartbeat_row :: "time \<Rightarrow> execution \<Rightarrow> execution" where
  "heartbeat_row now r = r\<lparr>ex_last_heartbeat_at := Some now, ex_updated_at := now\<rparr>"

text \<open>The answer is the time until which the caller is told its lease is extended.\<close>

definition execution_heartbeat :: "uuid \<Rightarrow> uuid \<Rightarrow> string option \<Rightarrow> time \<Rightarrow> world \<Rightarrow> time reply \<times> world" where
  "execution_heartbeat u e x_worker_id now w =
     (case owned_exec w u e of
        None \<Rightarrow> (Refused ''execution_not_found'' 404, w)
      | Some (r, _) \<Rightarrow>
          if ex_status r \<noteq> Delivering then (Refused ''execution_not_claiming'' 409, w)
          else if truthy x_worker_id \<and> truthy (ex_claimed_by_worker r) \<and> x_worker_id \<noteq> ex_claimed_by_worker r
            then (Refused ''not_execution_owner'' 403, w)
          else (Reply (now + seconds WORKER_CLAIM_TIMEOUT_SECONDS), update_exec_row e (heartbeat_row now) w))"

subsection \<open>Replay\<close>

definition manual_payload :: "cue \<Rightarrow> uuid \<Rightarrow> uuid \<Rightarrow> time \<Rightarrow> string \<Rightarrow> cue_task" where
  "manual_payload c u e scheduled_for ws =
     \<lparr>p_cue_id = cue_id c, p_cue_name = cue_name c, p_user_id = Some u, p_execution_id = e,
      p_scheduled_for = scheduled_for, p_callback_url = cue_callback_url c,
      p_callback_method = cue_callback_method c, p_callback_headers = cue_callback_headers c,
      p_payload = cue_payload c, p_retry_max_attempts = Some (cue_retry_max_attempts c),
      p_retry_backoff_minutes = Some (if cue_retry_backoff_minutes c = [] then [1, 5, 15]
                                     else cue_retry_backoff_minutes c),
      p_monthly_execution_limit = None, p_webhook_secret = ws\<rparr>"

text \<open>A new execution of a cue and, for a webhook cue with a URL, its delivery row.\<close>

definition start_execution ::
  "cue \<Rightarrow> uuid \<Rightarrow> uuid \<Rightarrow> time \<Rightarrow> string \<Rightarrow> json option \<Rightarrow> time option \<Rightarrow> time \<Rightarrow> world \<Rightarrow> uuid reply \<times> world" where
  "start_execution c u i scheduled_for triggered_by meta scheduled_at now w =
     (case insert_execution (new_execution i (cue_id c) scheduled_for (Some triggered_by) meta now) w of
        Inl err \<Rightarrow> (Raised err, w)
      | Inr w1 \<Rightarrow>
          (Reply i,
           if cue_callback_transport c = Webhook \<and> truthy (cue_callback_url c) then
             (let ws = (case get_user_row w1 u of Some usr \<Rightarrow> usr_webhook_secret usr | None \<Rightarrow> '''')
              in insert_outbox (Some i) (Some (cue_id c)) Deliver (CueTask (manual_payload c u i scheduled_for ws))
                   scheduled_at now w1)
           else w1))"

definition replay_execution :: "uuid \<Rightarrow> uuid \<Rightarrow> uuid \<Rightarrow> time \<Rightarrow> world \<Rightarrow> uuid reply \<times> world" where
  "replay_execution u e new_exec_id now w =
     (case owned_exec w u e of
        None \<Rightarrow> (Refused ''execution_not_found'' 404, w)
      | Some (r, c) \<Rightarrow>
          if ex_status r \<notin> {Success, Failed, Missed, OutcomeTimeout} then (Refused ''execution_in_flight'' 409, w)
          else start_execution c u new_exec_id now ''replay'' None None now w)"

subsection \<open>Verification\<close>

record verify_request =
  vr_valid :: bool
  vr_reason :: "string option"

definition verify_row :: "verify_request \<Rightarrow> time \<Rightarrow> execution \<Rightarrow> execution" where
  "verify_row b now r =
     (if vr_valid b
      then r\<lparr>ex_outcome_state := Some VerifiedSuccess, ex_evidence_validation_state := Some Valid, ex_updated_at := now\<rparr>
      else r\<lparr>ex_outcome_state := Some VerificationFailed, ex_evidence_validation_state := Some Invalid,
            ex_evidence_summary :=
              (if truthy (vr_reason b) then
                 (let truncated = take 500 (the (vr_reason b)) in
                  if truthy (ex_evidence_summary r)
                  then Some (take 500 (the (ex_evidence_summary r) @ '' | verification rejected: '' @ truncated))
                  else Some truncated)
               else ex_evidence_summary r),
            ex_updated_at := now\<rparr>)"

definition verify_execution ::
  "uuid \<Rightarrow> uuid \<Rightarrow> verify_request option \<Rightarrow> time \<Rightarrow> world \<Rightarrow> outcome_state reply \<times> world" where
  "verify_execution u e body now w =
     (case owned_exec w u e of
        None \<Rightarrow> (Refused ''execution_not_found'' 404, w)
      | Some (r, _) \<Rightarrow>
          if ex_outcome_state r \<notin> {Some ReportedSuccess, Some ReportedFailure, Some VerificationPending}
          then (Refused ''invalid_state'' 409, w)
          else
            (let b = (case body of Some b \<Rightarrow> b | None \<Rightarrow> \<lparr>vr_valid = True, vr_reason = None\<rparr>);
                 r' = verify_row b now r
             in if (case ex_evidence_summary r' of Some s \<Rightarrow> has_nul s | None \<Rightarrow> False) then (Raised DataError, w)
                else (Reply (if vr_valid b then VerifiedSuccess else VerificationFailed),
                      update_exec_row e (verify_row b now) w)))"

definition pending_row :: "time \<Rightarrow> execution \<Rightarrow> execution" where
  "pending_row now r = r\<lparr>ex_outcome_state := Some VerificationPending, ex_updated_at := now\<rparr>"

definition mark_verification_pending :: "uuid \<Rightarrow> uuid \<Rightarrow> time \<Rightarrow> world \<Rightarrow> outcome_state reply \<times> world" where
  "mark_verification_pending u e now w =
     (case owned_exec w u e of
        None \<Rightarrow> (Refused ''Not Found'' 404, w)
      | Some (r, _) \<Rightarrow>
          if ex_outcome_recorded_at r = None then (Refused ''no_outcome'' 409, w)
          else (Reply VerificationPending, update_exec_row e (pending_row now) w))"

subsection \<open>Evidence\<close>

text \<open>
  The body is an arbitrary dictionary. \<open>pystr\<close> is Python's \<open>str()\<close> on a decoded document (the
  identity on strings). A value of another type bound to a text column is a \<open>DataError\<close>.
\<close>

definition body_get :: "(string \<times> json) list \<Rightarrow> string \<Rightarrow> json option" where
  "body_get body k = (case map_of body k of Some v \<Rightarrow> if json_truthy v then Some v else None | None \<Rightarrow> None)"

definition text_column :: "nat \<Rightarrow> json option \<Rightarrow> bool" where
  "text_column width v = (case v of None \<Rightarrow> True | Some (JStr s) \<Rightarrow> length s \<le> width \<and> \<not> has_nul s | Some _ \<Rightarrow> False)"

definition put_text :: "json option \<Rightarrow> string option \<Rightarrow> string option" where
  "put_text v old = (case v of Some (JStr s) \<Rightarrow> Some s | _ \<Rightarrow> old)"

definition evidence_storable :: "(json \<Rightarrow> string) \<Rightarrow> (string \<times> json) list \<Rightarrow> bool" where
  "evidence_storable pystr body \<longleftrightarrow> text_column 255 (body_get body ''external_id'')
     \<and> text_column 255 (body_get body ''result_ref'') \<and> text_column 50 (body_get body ''result_type'')
     \<and> (case body_get body ''result_url'' of Some v \<Rightarrow> \<not> has_nul (pystr v) | None \<Rightarrow> True)
     \<and> (case body_get body ''summary'' of Some v \<Rightarrow> \<not> has_nul (take 500 (pystr v)) | None \<Rightarrow> True)
     \<and> (case body_get body ''artifacts'' of Some v \<Rightarrow> \<not> contains_null_byte v | None \<Rightarrow> True)
     \<and> (case body_get body ''metadata'' of Some v \<Rightarrow> \<not> contains_null_byte v | None \<Rightarrow> True)"

definition evidence_row :: "(json \<Rightarrow> string) \<Rightarrow> (string \<times> json) list \<Rightarrow> time \<Rightarrow> execution \<Rightarrow> execution" where
  "evidence_row pystr body now r =
     r\<lparr>ex_evidence_external_id := put_text (body_get body ''external_id'') (ex_evidence_external_id r),
       ex_evidence_result_url := (case body_get body ''result_url'' of Some v \<Rightarrow> Some (pystr v)
          | None \<Rightarrow> ex_evidence_result_url r),
       ex_evidence_result_ref := put_text (body_get body ''result_ref'') (ex_evidence_result_ref r),
       ex_evidence_result_type := put_text (body_get body ''result_type'') (ex_evidence_result_type r),
       ex_evidence_summary := (case body_get body ''summary'' of Some v \<Rightarrow> Some (take 500 (pystr v))
          | None \<Rightarrow> ex_evidence_summary r),
       ex_evidence_artifacts := (case body_get body ''artifacts'' of Some v \<Rightarrow> Some v | None \<Rightarrow> ex_evidence_artifacts r),
       ex_evidence_metadata := (case body_get body ''metadata'' of Some v \<Rightarrow> Some v | None \<Rightarrow> ex_evidence_metadata r),
       ex_updated_at := now\<rparr>"

definition append_evidence ::
  "(json \<Rightarrow> string) \<Rightarrow> uuid \<Rightarrow> uuid \<Rightarrow> (string \<times> json) list \<Rightarrow> time \<Rightarrow> world \<Rightarrow> outcome_state option reply \<times> world" where
  "append_evidence pystr u e body now w =
     (case owned_exec w u e of
        None \<Rightarrow> (Refused ''execution_not_found'' 404, w)
      | Some (r, _) \<Rightarrow>
          if ex_outcome_recorded_at r = None then (Refused ''no_outcome'' 409, w)
          else if \<not> evidence_storable pystr body then (Raised DataError, w)
          else (Reply (ex_outcome_state r), update_exec_row e (evidence_row pystr body now) w))"

subsection \<open>Live-claim attestation\<close>

datatype live_claim = LiveIdempotent time | LiveConflict | LiveFresh time

text \<open>The classification, with the row it leaves.\<close>

definition live_claim_row :: "string \<Rightarrow> time \<Rightarrow> execution \<Rightarrow> execution" where
  "live_claim_row token now r =
     r\<lparr>ex_live_claim_session_token := Some token, ex_live_claimed_at := Some now, ex_updated_at := now\<rparr>"

definition resolve_live_claim_attestation :: "execution \<Rightarrow> string \<Rightarrow> time \<Rightarrow> live_claim" where
  "resolve_live_claim_attestation r session_token now =
     (case ex_live_claimed_at r of
        Some t \<Rightarrow> if ex_live_claim_session_token r = Some session_token then LiveIdempotent t else LiveConflict
      | None \<Rightarrow> LiveFresh now)"

text \<open>The write of the commit: the row with the primary key of the loaded object.\<close>

definition commit_live_claim :: "uuid \<Rightarrow> string \<Rightarrow> live_claim \<Rightarrow> world \<Rightarrow> time reply \<times> world" where
  "commit_live_claim e session_token verdict w =
     (case verdict of
        LiveIdempotent t \<Rightarrow> (Reply t, w)
      | LiveConflict \<Rightarrow> (Refused ''already_attested'' 409, w)
      | LiveFresh now \<Rightarrow>
          if 128 < length session_token \<or> has_nul session_token then (Raised DataError, w)
          else (Reply now, update_exec_row e (live_claim_row session_token now) w))"

definition live_claim_execution :: "uuid \<Rightarrow> uuid \<Rightarrow> string \<Rightarrow> time \<Rightarrow> world \<Rightarrow> time reply \<times> world" where
  "live_claim_execution u e session_token now w =
     (case owned_exec w u e of
        None \<Rightarrow> (Refused ''execution_not_found'' 404, w)
      | Some (r, _) \<Rightarrow> commit_live_claim e session_token (resolve_live_claim_attestation r session_token now) w)"

subsection \<open>The worker registry\<close>

definition worker_heartbeat :: "uuid \<Rightarrow> string \<Rightarrow> string list option \<Rightarrow> time \<Rightarrow> world \<Rightarrow> time reply \<times> world" where
  "worker_heartbeat u i handlers now w =
     (if 255 < length i then (Refused ''validation_error'' 422, w)
      else if has_nul i \<or> (case handlers of Some hs \<Rightarrow> list_ex has_nul hs | None \<Rightarrow> False) then (Raised DataError, w)
      else
        (Reply now,
         if list_ex (\<lambda>k. wk_user_id k = u \<and> wk_worker_id k = i) (workers w)
         then w\<lparr>workers := update_where (\<lambda>k. wk_user_id k = u \<and> wk_worker_id k = i)
                (\<lambda>k. k\<lparr>wk_handlers := handlers, wk_last_heartbeat := now\<rparr>) (workers w)\<rparr>
         else w\<lparr>workers := workers w @ [\<lparr>wk_user_id = u, wk_worker_id = i, wk_handlers = handlers,
                wk_last_heartbeat = now, wk_created_at = now\<rparr>]\<rparr>))"

record worker_info =
  wi_worker_id :: string
  wi_last_heartbeat :: time
  wi_seconds_since :: int
  wi_status :: string
  wi_handlers :: "string list option"
  wi_registered_since :: time

text \<open>\<open>int(delta.total_seconds())\<close> cuts towards zero.\<close>

definition whole_seconds :: "time \<Rightarrow> int" where
  "whole_seconds d = (if 0 \<le> d then d div seconds 1 else - ((- d) div seconds 1))"

definition heartbeat_status :: "int \<Rightarrow> string" where
  "heartbeat_status seconds_ago =
     (if seconds_ago < 180 then ''active'' else if seconds_ago < 900 then ''stale'' else ''dead'')"

definition list_workers :: "uuid \<Rightarrow> time \<Rightarrow> world \<Rightarrow> worker_info list" where
  "list_workers u now w =
     map (\<lambda>k. let seconds_ago = whole_seconds (now - wk_last_heartbeat k)
              in \<lparr>wi_worker_id = wk_worker_id k, wi_last_heartbeat = wk_last_heartbeat k,
                  wi_seconds_since = seconds_ago, wi_status = heartbeat_status seconds_ago,
                  wi_handlers = wk_handlers k, wi_registered_since = wk_created_at k\<rparr>)
       (newest_first wk_last_heartbeat (filter (\<lambda>k. wk_user_id k = u) (workers w)))"

definition delete_worker :: "uuid \<Rightarrow> string \<Rightarrow> world \<Rightarrow> unit reply \<times> world" where
  "delete_worker u i w =
     (if list_ex (\<lambda>k. wk_user_id k = u \<and> wk_worker_id k = i) (workers w)
      then (Reply (), w\<lparr>workers := filter (\<lambda>k. \<not> (wk_user_id k = u \<and> wk_worker_id k = i)) (workers w)\<rparr>)
      else (Refused ''worker_not_found'' 404, w))"

subsection \<open>Contracts of the assignments\<close>

interpretation worker_claim_upd: exec_update "worker_claim_row i now" for i now
  by unfold_locales (simp_all add: worker_claim_row_def exec_slot_def)

interpretation heartbeat_upd: exec_update "heartbeat_row now" for now
  by unfold_locales (simp_all add: heartbeat_row_def exec_slot_def)

interpretation verify_upd: exec_update "verify_row b now" for b now
  by unfold_locales (simp_all add: verify_row_def exec_slot_def)

interpretation pending_upd: exec_update "pending_row now" for now
  by unfold_locales (simp_all add: pending_row_def exec_slot_def)

interpretation evidence_upd: exec_update "evidence_row pystr body now" for pystr body now
  by unfold_locales (simp_all add: evidence_row_def exec_slot_def)

interpretation live_claim_upd: exec_update "live_claim_row token now" for token now
  by unfold_locales (simp_all add: live_claim_row_def exec_slot_def)

lemma owned_exec_SomeD:
  "owned_exec w u e = Some (r, c) \<Longrightarrow> get_exec_row w e = Some r \<and> get_cue_row w (ex_cue_id r) = Some c \<and> cue_user_id c = u"
  by (auto simp: owned_exec_def split: option.splits if_splits)

subsection \<open>Claims are exclusive and in order\<close>

lemma sort_key_head:
  assumes "sort_key f xs = y # ys"
  shows "y \<in> set xs" and "x \<in> set xs \<Longrightarrow> f y \<le> f x"
proof -
  have "set xs = set (y # ys)" by (metis assms set_sort)
  then show "y \<in> set xs" by simp
  have "sorted (map f (y # ys))" by (metis assms sorted_sort_key)
  then show "f y \<le> f x" if "x \<in> set xs"
    using that \<open>set xs = set (y # ys)\<close> by auto
qed

lemma next_claim_SomeD:
  assumes "next_claim w u = Some e"
  obtains x where "x \<in> set (executions w)" "ex_id x = e" "worker_exec w u x" "ex_status x = Pending"
    "\<And>y. y \<in> set (executions w) \<Longrightarrow> worker_exec w u y \<Longrightarrow> ex_status y = Pending \<Longrightarrow>
       ex_scheduled_for x \<le> ex_scheduled_for y"
proof -
  let ?p = "filter (\<lambda>x. worker_exec w u x \<and> ex_status x = Pending) (executions w)"
  from assms obtain x ys where s: "sort_key ex_scheduled_for ?p = x # ys" "ex_id x = e"
    by (auto simp: next_claim_def split: list.splits)
  from sort_key_head(1) [OF s(1)] sort_key_head(2) [OF s(1)] s(2) show thesis
    by (intro that [of x]) auto
qed

lemma next_claim_None_iff:
  "next_claim w u = None \<longleftrightarrow> (\<forall>x \<in> set (executions w). \<not> (worker_exec w u x \<and> ex_status x = Pending))"
proof -
  let ?p = "filter (\<lambda>x. worker_exec w u x \<and> ex_status x = Pending) (executions w)"
  have "next_claim w u = None \<longleftrightarrow> sort_key ex_scheduled_for ?p = []"
    by (simp add: next_claim_def split: list.split)
  also have "\<dots> \<longleftrightarrow> ?p = []" by (simp only: set_empty [symmetric] set_sort)
  finally show ?thesis by (simp add: filter_empty_conv)
qed

lemma claim_next_cases:
  assumes "claim_next_execution u i now w = (Reply resp, w')"
  shows "next_claim w u = Some (cr_execution_id resp)"
    and "w' = update_exec_row (cr_execution_id resp) (worker_claim_row i now) w"
  using assms by (auto simp: claim_next_execution_def apply_claim_def split: if_splits option.splits)

lemma not_pending_not_claimable:
  assumes "exec_keys_ok w" and "get_exec_row w e = Some r" and "ex_status r \<noteq> Pending"
  shows "fst (claim_one_execution u e i now w) \<noteq> Reply resp" and "next_claim w u \<noteq> Some e"
proof -
  have only: "ex_status x \<noteq> Pending" if "x \<in> set (executions w)" "ex_id x = e" for x
    using get_exec_row_mem [OF assms(1) that(1)] that(2) assms(2,3) by simp
  then show "fst (claim_one_execution u e i now w) \<noteq> Reply resp"
    by (auto simp: claim_one_execution_def list_ex_iff)
  show "next_claim w u \<noteq> Some e"
    using only by (auto elim: next_claim_SomeD)
qed


definition worker_world :: world where
  "worker_world = empty_world\<lparr>cues := [worker_cue],
     executions := [new_execution 11 ''cue_1'' 60 None None 0, new_execution 12 ''cue_1'' 50 None None 0]\<rparr>"


text \<open>
  The UPDATE of \<open>POST /claim\<close> is addressed by the id the subquery found and does not test the
  status again. Two requests whose subqueries read the same state therefore both succeed with
  the same execution; exclusiveness rests on their statements not overlapping.
\<close>

lemma claim_next_overlap:
  assumes "next_claim w u = Some e" and "get_exec_row w e = Some r"
  shows "\<exists>w1 w2 resp. apply_claim i1 (next_claim w u) t1 w = (Reply resp, w1)
    \<and> apply_claim i2 (next_claim w u) t2 w1 = (Reply resp, w2)
    \<and> map_option ex_claimed_by_worker (get_exec_row w2 e) = Some (Some i2)"
  using assms by (simp add: apply_claim_def worker_claim_upd.get_row worker_claim_row_def)

text \<open>
  \<open>GET /claimable\<close> also lists executions in \<open>retry_ready\<close>, which no claim accepts.
\<close>

lemma retry_ready_listed_not_claimable:
  assumes "exec_keys_ok w" and "x \<in> set (claimable_rows w u)" and "ex_status x = RetryReady"
  shows "fst (claim_one_execution u2 (ex_id x) i now w) \<noteq> Reply resp" and "next_claim w u2 \<noteq> Some (ex_id x)"
proof -
  have "x \<in> set (executions w)" using assms(2) by (auto simp: claimable_rows_def dest: in_set_takeD)
  from get_exec_row_mem [OF assms(1) this] have row: "get_exec_row w (ex_id x) = Some x" .
  have "ex_status x \<noteq> Pending" using assms(3) by simp
  from not_pending_not_claimable [OF assms(1) row this]
  show "fst (claim_one_execution u2 (ex_id x) i now w) \<noteq> Reply resp" "next_claim w u2 \<noteq> Some (ex_id x)" by auto
qed

text \<open>One cue whose payload has a \<open>task\<close> that is not a string makes the whole listing fail.\<close>

lemma claimable_poisoned:
  assumes "x \<in> set xs" and "get_cue_row w (ex_cue_id x) = Some c"
    and "json_get (cue_payload c) ''task'' = Some (JInt n)"
  shows "claimable_answers w None xs = Inl ValueError"
  using assms(1)
proof (induction xs)
  case (Cons y ys)
  show ?case
  proof (cases "y = x")
    case True
    with assms show ?thesis by (simp add: truthy_def)
  next
    case False
    with Cons show ?thesis by (auto simp: truthy_def Let_def split: option.splits json.splits)
  qed
qed simp

subsection \<open>The execution heartbeat and the lease\<close>

lemma heartbeat_keeps_claim:
  "ex_status (heartbeat_row t r) = ex_status r" "ex_claimed_at (heartbeat_row t r) = ex_claimed_at r"
  "ex_claimed_by_worker (heartbeat_row t r) = ex_claimed_by_worker r" "ex_cue_id (heartbeat_row t r) = ex_cue_id r"
  by (simp_all add: heartbeat_row_def)

text \<open>
  The heartbeat of an execution does not extend its lease: although it answers with a lease
  extended to 900 seconds from now, the recovery of worker claims, at any later time and with
  any timeouts, resets exactly the same executions as if no heartbeat had been sent. (It reads
  the time of the claim and the heartbeat of the worker process.)
\<close>

theorem heartbeat_does_not_extend_lease:
  assumes "exec_keys_ok w" and "execution_heartbeat u e x t w = (Reply until, w1)"
  shows "until = t + seconds 900
    \<and> map ex_status (executions (snd (recover_stale_worker_claims ht ct now w1))) =
      map ex_status (executions (snd (recover_stale_worker_claims ht ct now w)))"
proof -
  let ?f = "\<lambda>r. if ex_id r = e then heartbeat_row t r else r"
  from assms(2) have w1: "w1 = update_exec_row e (heartbeat_row t) w" and until: "until = t + seconds 900"
    by (auto simp: execution_heartbeat_def WORKER_CLAIM_TIMEOUT_SECONDS_def split: option.splits if_splits)
  have ex: "executions w1 = map ?f (executions w)"
    by (simp add: w1 update_exec_row_def update_where_def)
  have rows: "get_cue_row w1 c = get_cue_row w c" for c by (simp add: w1)
  have expired: "claim_expired c w1 (?f r) = claim_expired c w r" for c r
    by (simp add: claim_expired_def rows heartbeat_keeps_claim)
  have lost: "worker_lost c w1 (?f r) = worker_lost c w r" for c r
    by (simp add: worker_lost_def claim_worker_def rows heartbeat_keeps_claim w1 cong: option.case_cong)
  have sel: "stale_claims c w1 = map ?f (stale_claims c w)" for c
    by (simp add: stale_claims_def ex filter_map o_def expired take_map)
  have inj: "inj_on ?f (set (executions w))"
  proof (rule inj_onI)
    fix a b
    assume ab: "a \<in> set (executions w)" "b \<in> set (executions w)" "?f a = ?f b"
    from arg_cong [OF ab(3), of ex_id] have "ex_id a = ex_id b"
      by (simp add: heartbeat_upd.upd_key if_distrib [of ex_id] cong: if_cong)
    with ab(1,2) assms(1) show "a = b" by (auto simp: exec_keys_ok_def distinct_map dest: inj_onD)
  qed
  have mem: "?f r \<in> set (stale_claims c w1) \<longleftrightarrow> r \<in> set (stale_claims c w)" if "r \<in> set (executions w)" for c r
    unfolding sel set_map using inj that stale_claims_subset by (rule inj_on_image_mem_iff)
  have keys: "exec_keys_ok w1" using assms(1) by (simp add: w1 heartbeat_upd.keys_ok_row)
  have "ex_status (if ?f r \<in> set (stale_claims c w1) \<and> worker_lost h w1 (?f r) then reset_row now (?f r) else ?f r) =
      ex_status (if r \<in> set (stale_claims c w) \<and> worker_lost h w r then reset_row now r else r)"
    if "r \<in> set (executions w)" for c h r
    unfolding mem [OF that] lost by (simp add: reset_row_def heartbeat_keeps_claim)
  then show ?thesis
    unfolding recover_stale_worker_claims_map [OF keys] recover_stale_worker_claims_map [OF assms(1)] ex map_map
    using until by (simp add: o_def)
qed

theorem heartbeat_does_not_extend_lease_witness:
  "\<exists>until w1. execution_heartbeat 7 11 (Some ''wk'') (minutes 15) (claimed_world 0) = (Reply until, w1)
     \<and> until = minutes 30
     \<and> map ex_status (executions (snd (recover_stale_worker_claims 180 900 (minutes 16) w1))) = [Pending]"
proof -
  have keys: "exec_keys_ok (claimed_world 0)" by (simp add: exec_keys_ok_def claimed_world_def)
  obtain until w1 where h: "execution_heartbeat 7 11 (Some ''wk'') (minutes 15) (claimed_world 0) = (Reply until, w1)"
    by (simp add: execution_heartbeat_def owned_exec_def get_exec_row_def get_cue_row_def claimed_world_def
        worker_cue_def example_cue_def)
  have "map ex_status (executions (snd (recover_stale_worker_claims 180 900 (minutes 16) (claimed_world 0)))) = [Pending]"
    unfolding recover_stale_worker_claims_map [OF keys]
    by (simp add: claimed_world_def stale_claims_def claim_expired_def worker_lost_def claim_worker_def
        get_cue_row_def worker_cue_def example_cue_def reset_row_def minutes_def seconds_def)
  with heartbeat_does_not_extend_lease [OF keys h, of 180 900 "minutes 16"] h show ?thesis
    by (simp add: minutes_def seconds_def)
qed

subsection \<open>Live-claim attestation\<close>

text \<open>
  The attestation is write-once for requests that follow each other: after a successful
  live claim with a token, the same token is acknowledged again with the same time and any
  other token is refused with 409, and neither changes anything.
\<close>

theorem live_claim_write_once:
  assumes "live_claim_execution u e token now w = (Reply t, w')"
  shows "live_claim_execution u e token now2 w' = (Reply t, w')
    \<and> (token2 \<noteq> token \<longrightarrow> live_claim_execution u e token2 now2 w' = (Refused ''already_attested'' 409, w'))"
proof -
  from assms obtain r c where own: "owned_exec w u e = Some (r, c)"
    and fin: "commit_live_claim e token (resolve_live_claim_attestation r token now) w = (Reply t, w')"
    by (auto simp: live_claim_execution_def split: option.splits)
  obtain r' where own': "owned_exec w' u e = Some (r', c)" "ex_live_claimed_at r' = Some t"
    "ex_live_claim_session_token r' = Some token"
  proof (cases "ex_live_claimed_at r")
    case None
    with fin have "w' = update_exec_row e (live_claim_row token now) w" "t = now"
      by (auto simp: resolve_live_claim_attestation_def commit_live_claim_def split: if_splits)
    with owned_exec_SomeD [OF own] show ?thesis
      by (intro that [of "live_claim_row token now r"])
        (simp_all add: owned_exec_def live_claim_upd.get_row live_claim_row_def)
  next
    case (Some s)
    with fin have "w' = w" "t = s" "ex_live_claim_session_token r = Some token"
      by (auto simp: resolve_live_claim_attestation_def commit_live_claim_def split: if_splits)
    with own Some show ?thesis by (intro that [of r]) simp_all
  qed
  then show ?thesis
    by (simp add: live_claim_execution_def resolve_live_claim_attestation_def commit_live_claim_def)
qed

theorem live_claim_write_once_witness:
  "\<exists>t w'. live_claim_execution 7 11 ''a'' 100 worker_world = (Reply t, w')
     \<and> live_claim_execution 7 11 ''b'' 101 w' = (Refused ''already_attested'' 409, w')"
proof -
  obtain t w' where l: "live_claim_execution 7 11 ''a'' 100 worker_world = (Reply t, w')"
    by (simp add: live_claim_execution_def owned_exec_def get_exec_row_def get_cue_row_def worker_world_def
        worker_cue_def example_cue_def resolve_live_claim_attestation_def commit_live_claim_def has_nul_def)
  from live_claim_write_once [OF l, of 101 "''b''"] l show ?thesis by auto
qed

text \<open>
  The row is read without a lock: two requests that both read it before either commits are both
  accepted, and the attestation of the one that commits last remains.
\<close>

lemma live_claim_overlap:
  assumes "get_exec_row w e = Some r" and "ex_live_claimed_at r = None"
    and "length a \<le> 128" and "length b \<le> 128" and "\<not> has_nul a" and "\<not> has_nul b"
  shows "\<exists>w1 w2. commit_live_claim e a (resolve_live_claim_attestation r a t1) w = (Reply t1, w1)
    \<and> commit_live_claim e b (resolve_live_claim_attestation r b t2) w1 = (Reply t2, w2)
    \<and> map_option ex_live_claim_session_token (get_exec_row w2 e) = Some (Some b)"
  using assms
  by (simp add: resolve_live_claim_attestation_def commit_live_claim_def live_claim_upd.get_row live_claim_row_def)

end
