(* ===== verification/CueService.thy ===== *)
theory CueService
  imports ExecutionApi
begin

section \<open>Cues (\<open>src/app/services/cue_service.py\<close>, \<open>src/app/routers/cues.py\<close>, \<open>src/app/schemas/cue.py\<close>)\<close>

text \<open>
  Creation, update, deletion, listing and manual firing of cues. A handler that answers with an
  error returns before the commit and its session is discarded, so the world is unchanged even
  though the loaded row was already assigned to.

  \<open>site\<close> bundles the configuration and the third-party code the handlers call: the cron library
  (\<open>st_cron_ok\<close>: the expression parses; \<open>st_cron\<close>: the next firing time, \<open>None\<close> when it raises), the
  time zone table, the URL parser and the resolver.
\<close>

record site =
  st_env :: string
  st_disable_quota :: bool
  st_cron_ok :: "string \<Rightarrow> bool"
  st_cron :: cron_fn
  st_tz_ok :: "string \<Rightarrow> bool"
  st_parse :: "string \<Rightarrow> parsed_url option"
  st_resolve :: "string \<Rightarrow> ip_addr list option"

subsection \<open>Requests\<close>

record schedule_create =
  sc_type :: string
  sc_cron :: "string option"
  sc_at :: "time option"
  sc_timezone :: string

record callback_create =
  cb_url :: "string option"
  cb_method :: string
  cb_headers :: "(string \<times> string) list option"
  cb_transport :: "string option"

record retry_config =
  rc_max_attempts :: int
  rc_backoff_minutes :: "int list"

record on_failure_config =
  fc_email :: bool
  fc_webhook :: "string option"
  fc_pause :: bool

record cue_create =
  cc_name :: string
  cc_description :: "string option"
  cc_schedule :: schedule_create
  cc_callback :: "callback_create option"
  cc_transport :: string
  cc_payload :: "json option"
  cc_retry :: "retry_config option"
  cc_on_failure :: "on_failure_config option"
  cc_verification :: "verification_mode option"

record cue_update =
  cu_name :: "string option"
  cu_description :: "string option"
  cu_status :: "string option"
  cu_schedule :: "schedule_create option"
  cu_callback :: "callback_create option"
  cu_payload :: "json option"
  cu_retry :: "retry_config option"
  cu_on_failure :: "on_failure_config option"
  cu_verification :: "verification_mode option"

definition default_retry :: retry_config where
  "default_retry = \<lparr>rc_max_attempts = 3, rc_backoff_minutes = [1, 5, 15]\<rparr>"

definition retry_config_ok :: "retry_config option \<Rightarrow> bool" where
  "retry_config_ok r = (case r of None \<Rightarrow> True | Some c \<Rightarrow> 1 \<le> rc_max_attempts c \<and> rc_max_attempts c \<le> 10)"

text \<open>
  The model validator: \<open>None\<close> for a request the schema rejects, otherwise the request with the
  callback a worker cue gets by default.
\<close>

definition validate_transport :: "cue_create \<Rightarrow> cue_create option" where
  "validate_transport d =
     (if (case cc_callback d of Some b \<Rightarrow> truthy (cb_transport b) | None \<Rightarrow> False) then None
      else if cc_transport d \<notin> {''webhook'', ''worker''} then None
      else if cc_transport d = ''webhook'' then
        (case cc_callback d of None \<Rightarrow> None | Some b \<Rightarrow> if cb_url b = None then None else Some d)
      else if cc_callback d = None
        then Some (d\<lparr>cc_callback := Some \<lparr>cb_url = None, cb_method = ''POST'', cb_headers = None,
                      cb_transport = Some ''worker''\<rparr>\<rparr>)
      else Some d)"

definition cue_create_ok :: "cue_create \<Rightarrow> cue_create option" where
  "cue_create_ok d =
     (if 255 < length (cc_name d) \<or> \<not> retry_config_ok (cc_retry d) then None else validate_transport d)"

definition cue_update_ok :: "cue_update \<Rightarrow> bool" where
  "cue_update_ok d \<longleftrightarrow> cu_status d \<in> {None, Some ''active'', Some ''paused''} \<and> retry_config_ok (cu_retry d)"

subsection \<open>Checks shared by creation and update\<close>

definition get_next_run :: "site \<Rightarrow> string \<Rightarrow> string \<Rightarrow> time \<Rightarrow> py_error + time" where
  "get_next_run s expression tz now =
     (case st_cron s expression tz now of Some t \<Rightarrow> Inr t | None \<Rightarrow> Inl CronError)"

datatype 'a check = Pass 'a | Error string int | Boom py_error

text \<open>Time zone, type, and the next run the schedule gives.\<close>

definition check_schedule :: "site \<Rightarrow> schedule_create \<Rightarrow> time \<Rightarrow> (schedule_type \<times> time) option check" where
  "check_schedule s d now =
     (if \<not> st_tz_ok s (sc_timezone d) then Error ''invalid_timezone'' 422
      else if sc_type d = ''recurring'' then
        (if \<not> truthy (sc_cron d) then Error ''invalid_schedule'' 400
         else if \<not> st_cron_ok s (the (sc_cron d)) then Error ''invalid_schedule'' 400
         else (case get_next_run s (the (sc_cron d)) (sc_timezone d) now of
                 Inl err \<Rightarrow> Boom err | Inr t \<Rightarrow> Pass (Some (Recurring, t))))
      else if sc_type d = ''once'' then
        (case sc_at d of
           None \<Rightarrow> Error ''invalid_schedule'' 400
         | Some at \<Rightarrow> if at \<le> now then Error ''invalid_schedule'' 400 else Pass (Some (Once, at)))
      else Pass None)"

definition check_payload :: "json \<Rightarrow> unit check" where
  "check_payload payload =
     (if contains_null_byte payload then Error ''invalid_payload'' 400
      else if 1048576 < json_size False payload then Error ''invalid_payload_size'' 400
      else Pass ())"

definition check_url :: "site \<Rightarrow> string \<Rightarrow> unit check" where
  "check_url s url =
     (if fst (validate_callback_url (st_parse s) (st_resolve s) url (st_env s)) then Pass ()
      else Error ''invalid_callback_url'' 400)"

text \<open>What the table stores: the widths of the text columns and no null bytes.\<close>

definition cue_storable :: "cue \<Rightarrow> bool" where
  "cue_storable c \<longleftrightarrow> length (cue_name c) \<le> 255 \<and> length (cue_schedule_timezone c) \<le> 50
     \<and> length (cue_callback_method c) \<le> 10
     \<and> (case cue_schedule_cron c of Some x \<Rightarrow> length x \<le> 100 \<and> \<not> has_nul x | None \<Rightarrow> True)
     \<and> \<not> has_nul (cue_name c) \<and> \<not> has_nul (cue_schedule_timezone c) \<and> \<not> has_nul (cue_callback_method c)
     \<and> (case cue_description c of Some x \<Rightarrow> \<not> has_nul x | None \<Rightarrow> True)
     \<and> (case cue_callback_url c of Some x \<Rightarrow> \<not> has_nul x | None \<Rightarrow> True)
     \<and> list_all (\<lambda>(k, v). \<not> has_nul k \<and> \<not> has_nul v) (cue_callback_headers c)
     \<and> (case cue_on_failure c of Some f \<Rightarrow> (case of_webhook f of Some x \<Rightarrow> \<not> has_nul x | None \<Rightarrow> True) | None \<Rightarrow> True)"

text \<open>The CHECK constraint on the method and the unique constraints.\<close>

definition valid_callback_method :: "string \<Rightarrow> bool" where
  "valid_callback_method m \<longleftrightarrow> m \<in> {''POST'', ''GET'', ''PUT'', ''PATCH''}"

definition cue_name_taken :: "world \<Rightarrow> uuid \<Rightarrow> string \<Rightarrow> string option \<Rightarrow> bool" where
  "cue_name_taken w u nm own =
     list_ex (\<lambda>c. cue_user_id c = u \<and> cue_name c = nm \<and> Some (cue_id c) \<noteq> own) (cues w)"

subsection \<open>Creation\<close>

definition active_cues :: "world \<Rightarrow> uuid \<Rightarrow> nat" where
  "active_cues w u = length (filter (\<lambda>c. cue_user_id c = u \<and> cue_status c \<in> {CueActive, CuePaused}) (cues w))"

definition no_active_workers :: "world \<Rightarrow> uuid \<Rightarrow> time \<Rightarrow> bool" where
  "no_active_workers w u now \<longleftrightarrow>
     \<not> list_ex (\<lambda>k. wk_user_id k = u \<and> now - seconds 180 \<le> wk_last_heartbeat k) (workers w)"

definition stored_on_failure :: "on_failure_config option \<Rightarrow> on_failure_cfg" where
  "stored_on_failure f = (case f of
     Some c \<Rightarrow> \<lparr>of_email = Some (fc_email c), of_webhook = fc_webhook c, of_pause = Some (fc_pause c)\<rparr>
   | None \<Rightarrow> \<lparr>of_email = Some True, of_webhook = None, of_pause = Some False\<rparr>)"

definition new_cue :: "string \<Rightarrow> uuid \<Rightarrow> cue_create \<Rightarrow> schedule_type \<Rightarrow> time \<Rightarrow> time \<Rightarrow> cue" where
  "new_cue i u d ty next_run now =
     (let retry = (case cc_retry d of Some r \<Rightarrow> r | None \<Rightarrow> default_retry)
      in \<lparr>cue_id = i, cue_user_id = u, cue_name = cc_name d, cue_description = cc_description d,
          cue_status = CueActive, cue_schedule_type = ty, cue_schedule_cron = sc_cron (cc_schedule d),
          cue_schedule_at = (if ty = Once then sc_at (cc_schedule d) else None),
          cue_schedule_timezone = sc_timezone (cc_schedule d),
          cue_callback_url = (case cc_callback d of
             Some b \<Rightarrow> if truthy (cb_url b) then cb_url b else None | None \<Rightarrow> None),
          cue_callback_method = (case cc_callback d of Some b \<Rightarrow> cb_method b | None \<Rightarrow> ''POST''),
          cue_callback_transport = (if cc_transport d = ''worker'' then WorkerPull else Webhook),
          cue_callback_headers = (case cc_callback d of
             Some b \<Rightarrow> (case cb_headers b of Some hs \<Rightarrow> hs | None \<Rightarrow> []) | None \<Rightarrow> []),
          cue_payload = (case cc_payload d of Some p \<Rightarrow> p | None \<Rightarrow> JObj []),
          cue_retry_max_attempts = rc_max_attempts retry, cue_retry_backoff_minutes = rc_backoff_minutes retry,
          cue_next_run = Some next_run, cue_last_run = None, cue_run_count = 0, cue_fired_count = 0,
          cue_on_failure = Some (stored_on_failure (cc_on_failure d)),
          cue_verification_mode = cc_verification d, cue_created_at = now, cue_updated_at = now\<rparr>)"

text \<open>
  The answer is the stored cue and whether the warning about missing workers is attached. An
  integrity error of the insert, whatever the constraint, is reported as a duplicate name.
\<close>

definition insert_cue :: "cue \<Rightarrow> bool \<Rightarrow> world \<Rightarrow> (cue \<times> bool) reply \<times> world" where
  "insert_cue c warning w =
     (if \<not> cue_storable c then (Raised DataError, w)
      else if cue_name_taken w (cue_user_id c) (cue_name c) None \<or> cue_id c \<in> cue_id ` set (cues w)
           \<or> \<not> valid_callback_method (cue_callback_method c)
        then (Refused ''duplicate_cue_name'' 409, w)
      else (Reply (c, warning), w\<lparr>cues := cues w @ [c]\<rparr>))"

definition create_cue :: "site \<Rightarrow> user \<Rightarrow> string \<Rightarrow> cue_create \<Rightarrow> time \<Rightarrow> world \<Rightarrow> (cue \<times> bool) reply \<times> world" where
  "create_cue s u i d now w =
     (if cue_name_taken w (usr_id u) (cc_name d) None then (Refused ''duplicate_cue_name'' 409, w)
      else if \<not> st_disable_quota s \<and> usr_active_cue_limit u \<le> int (active_cues w (usr_id u))
        then (Refused ''cue_limit_exceeded'' 403, w)
      else
        (let webhook = (cc_transport d = ''webhook'');
             url = (case cc_callback d of Some b \<Rightarrow> (case cb_url b of Some x \<Rightarrow> x | None \<Rightarrow> ''None'') | None \<Rightarrow> ''None'');
             warning = (\<not> webhook \<and> no_active_workers w (usr_id u) now);
             payload = (case cc_payload d of Some p \<Rightarrow> p | None \<Rightarrow> JObj [])
         in case (if webhook then check_url s url else Pass ()) of
              Error code st \<Rightarrow> (Refused code st, w) | Boom err \<Rightarrow> (Raised err, w)
            | Pass _ \<Rightarrow>
              (case check_payload payload of
                 Error code st \<Rightarrow> (Refused code st, w) | Boom err \<Rightarrow> (Raised err, w)
               | Pass _ \<Rightarrow>
                 (case check_schedule s (cc_schedule d) now of
                    Error code st \<Rightarrow> (Refused code st, w) | Boom err \<Rightarrow> (Raised err, w)
                  | Pass None \<Rightarrow> (Refused ''invalid_schedule'' 400, w)
                  | Pass (Some (ty, next_run)) \<Rightarrow>
                    (case (case cc_on_failure d of
                             Some f \<Rightarrow> if truthy (fc_webhook f) then check_url s (the (fc_webhook f)) else Pass ()
                           | None \<Rightarrow> Pass ()) of
                       Error code st \<Rightarrow> (Refused code st, w) | Boom err \<Rightarrow> (Raised err, w)
                     | Pass _ \<Rightarrow> insert_cue (new_cue i (usr_id u) d ty next_run now) warning w)))))"

subsection \<open>Update\<close>

definition apply_basic :: "cue_update \<Rightarrow> cue \<Rightarrow> cue" where
  "apply_basic d c =
     c\<lparr>cue_name := (case cu_name d of Some n \<Rightarrow> n | None \<Rightarrow> cue_name c),
       cue_description := (case cu_description d of Some x \<Rightarrow> Some x | None \<Rightarrow> cue_description c)\<rparr>"

definition apply_callback :: "site \<Rightarrow> cue_update \<Rightarrow> cue \<Rightarrow> cue check" where
  "apply_callback s d c =
     (case cu_callback d of
        None \<Rightarrow> Pass c
      | Some b \<Rightarrow>
          (case (if cue_callback_transport c = Webhook \<and> cb_url b \<noteq> None then check_url s (the (cb_url b)) else Pass ()) of
             Error code st \<Rightarrow> Error code st | Boom err \<Rightarrow> Boom err
           | Pass _ \<Rightarrow>
               Pass (c\<lparr>cue_callback_url := (case cb_url b of Some x \<Rightarrow> Some x | None \<Rightarrow> cue_callback_url c),
                      cue_callback_method := cb_method b,
                      cue_callback_headers := (case cb_headers b of Some hs \<Rightarrow> hs | None \<Rightarrow> [])\<rparr>)))"

definition apply_payload :: "cue_update \<Rightarrow> cue \<Rightarrow> cue check" where
  "apply_payload d c =
     (case cu_payload d of
        None \<Rightarrow> Pass c
      | Some p \<Rightarrow> (case check_payload p of Error code st \<Rightarrow> Error code st | Boom err \<Rightarrow> Boom err
                   | Pass _ \<Rightarrow> Pass (c\<lparr>cue_payload := p\<rparr>)))"

definition apply_policy :: "cue_update \<Rightarrow> cue \<Rightarrow> cue" where
  "apply_policy d c =
     (let c1 = (case cu_retry d of None \<Rightarrow> c
                | Some r \<Rightarrow> c\<lparr>cue_retry_max_attempts := rc_max_attempts r,
                             cue_retry_backoff_minutes := rc_backoff_minutes r\<rparr>)
      in case cu_verification d of None \<Rightarrow> c1 | Some m \<Rightarrow> c1\<lparr>cue_verification_mode := Some m\<rparr>)"

definition apply_on_failure :: "site \<Rightarrow> cue_update \<Rightarrow> cue \<Rightarrow> cue check" where
  "apply_on_failure s d c =
     (case cu_on_failure d of
        None \<Rightarrow> Pass c
      | Some f \<Rightarrow>
          (case (if truthy (fc_webhook f) then check_url s (the (fc_webhook f)) else Pass ()) of
             Error code st \<Rightarrow> Error code st | Boom err \<Rightarrow> Boom err
           | Pass _ \<Rightarrow> Pass (c\<lparr>cue_on_failure := Some (stored_on_failure (Some f))\<rparr>)))"

definition apply_schedule :: "site \<Rightarrow> cue_update \<Rightarrow> time \<Rightarrow> cue \<Rightarrow> cue check" where
  "apply_schedule s d now c =
     (case cu_schedule d of
        None \<Rightarrow> Pass c
      | Some sc \<Rightarrow>
          (case check_schedule s sc now of
             Error code st \<Rightarrow> Error code st | Boom err \<Rightarrow> Boom err
           | Pass None \<Rightarrow> Pass c
           | Pass (Some (Recurring, t)) \<Rightarrow>
               Pass (c\<lparr>cue_schedule_type := Recurring, cue_schedule_cron := sc_cron sc, cue_schedule_at := None,
                      cue_schedule_timezone := sc_timezone sc, cue_next_run := Some t\<rparr>)
           | Pass (Some (Once, t)) \<Rightarrow>
               Pass (c\<lparr>cue_schedule_type := Once, cue_schedule_cron := None, cue_schedule_at := Some t,
                      cue_schedule_timezone := sc_timezone sc, cue_next_run := Some t\<rparr>)))"

definition apply_status :: "site \<Rightarrow> cue_update \<Rightarrow> time \<Rightarrow> cue \<Rightarrow> cue check" where
  "apply_status s d now c =
     (if cu_status d = Some ''paused'' then Pass (c\<lparr>cue_status := CuePaused, cue_next_run := None\<rparr>)
      else if cu_status d = Some ''active'' then
        (let c1 = c\<lparr>cue_status := CueActive\<rparr> in
         if cue_schedule_type c = Recurring \<and> truthy (cue_schedule_cron c) then
           (case get_next_run s (the (cue_schedule_cron c)) (cue_schedule_timezone c) now of
              Inl err \<Rightarrow> Boom err | Inr t \<Rightarrow> Pass (c1\<lparr>cue_next_run := Some t\<rparr>))
         else if cue_schedule_type c = Once \<and> cue_schedule_at c \<noteq> None
           then Pass (c1\<lparr>cue_next_run := cue_schedule_at c\<rparr>)
         else Pass c1)
      else Pass c)"

definition check_bind :: "'a check \<Rightarrow> ('a \<Rightarrow> 'b check) \<Rightarrow> 'b check" where
  "check_bind m f = (case m of Pass x \<Rightarrow> f x | Error code st \<Rightarrow> Error code st | Boom err \<Rightarrow> Boom err)"

definition changed_cue :: "site \<Rightarrow> cue_update \<Rightarrow> time \<Rightarrow> cue \<Rightarrow> cue check" where
  "changed_cue s d now c =
     check_bind (apply_callback s d (apply_basic d c)) (\<lambda>c1.
     check_bind (apply_payload d c1) (\<lambda>c2.
     check_bind (apply_on_failure s d (apply_policy d c2)) (\<lambda>c3.
     check_bind (apply_schedule s d now c3) (apply_status s d now))))"

definition owned_cue :: "world \<Rightarrow> uuid \<Rightarrow> string \<Rightarrow> cue option" where
  "owned_cue w u c = (case get_cue_row w c of
     Some r \<Rightarrow> if cue_user_id r = u then Some r else None | None \<Rightarrow> None)"

text \<open>The commit is not guarded: a violated constraint is an exception here.\<close>

definition update_cue :: "site \<Rightarrow> uuid \<Rightarrow> string \<Rightarrow> cue_update \<Rightarrow> time \<Rightarrow> world \<Rightarrow> cue reply \<times> world" where
  "update_cue s u i d now w =
     (case owned_cue w u i of
        None \<Rightarrow> (Refused ''cue_not_found'' 404, w)
      | Some c \<Rightarrow>
          (case changed_cue s d now c of
             Error code st \<Rightarrow> (Refused code st, w)
           | Boom err \<Rightarrow> (Raised err, w)
           | Pass c' \<Rightarrow>
               (let c'' = c'\<lparr>cue_updated_at := now\<rparr>
                in if \<not> cue_storable c'' then (Raised DataError, w)
                   else if cue_name_taken w u (cue_name c'') (Some i) \<or> \<not> valid_callback_method (cue_callback_method c'')
                     then (Raised IntegrityError, w)
                   else (Reply c'', update_cue_row i (\<lambda>_. c'') w))))"

subsection \<open>Deletion, listing, reading\<close>

definition delete_cue :: "uuid \<Rightarrow> string \<Rightarrow> world \<Rightarrow> unit reply \<times> world" where
  "delete_cue u i w =
     (case owned_cue w u i of
        None \<Rightarrow> (Refused ''cue_not_found'' 404, w)
      | Some _ \<Rightarrow> (Reply (), w\<lparr>cues := filter (\<lambda>c. cue_id c \<noteq> i) (cues w)\<rparr>))"

definition cue_state_str :: "cue_state \<Rightarrow> string" where
  "cue_state_str s = (case s of CueActive \<Rightarrow> ''active'' | CuePaused \<Rightarrow> ''paused''
     | CueCompleted \<Rightarrow> ''completed'' | CueFailed \<Rightarrow> ''failed'')"

text \<open>The answer: the page and the total.\<close>

definition list_cues :: "world \<Rightarrow> uuid \<Rightarrow> string option \<Rightarrow> nat \<Rightarrow> nat \<Rightarrow> (cue list \<times> nat) reply" where
  "list_cues w u status limit offset =
     (if \<not> (1 \<le> limit \<and> limit \<le> 100) then Refused ''validation_error'' 422
      else
        (let rows = filter (\<lambda>c. cue_user_id c = u \<and> (truthy status \<longrightarrow> Some (cue_state_str (cue_status c)) = status)) (cues w)
         in Reply (page limit offset (newest_first cue_created_at rows), length rows)))"

definition get_cue :: "world \<Rightarrow> uuid \<Rightarrow> string \<Rightarrow> nat \<Rightarrow> nat \<Rightarrow> (cue \<times> execution_response list \<times> nat) reply" where
  "get_cue w u i execution_limit execution_offset =
     (case owned_cue w u i of
        None \<Rightarrow> Refused ''cue_not_found'' 404
      | Some c \<Rightarrow>
          (let rows = filter (\<lambda>e. ex_cue_id e = i) (executions w)
           in Reply (c, map execution_to_response (page execution_limit execution_offset (newest_first ex_created_at rows)),
                length rows)))"

subsection \<open>Manual firing\<close>

definition build_ipc_delivery_metadata :: "world \<Rightarrow> string \<Rightarrow> json option" where
  "build_ipc_delivery_metadata w i =
     (if list_ex (\<lambda>l. ls_cue_id l = i \<and> ls_transport l = IpcTransport \<and> ls_detached_at l = None) (live_sessions w)
      then Some (JObj [(''delivery_mode_requested'', JStr ''ipc'')]) else None)"

definition fire_cue :: "uuid \<Rightarrow> string \<Rightarrow> time option \<Rightarrow> uuid \<Rightarrow> time \<Rightarrow> world \<Rightarrow> uuid reply \<times> world" where
  "fire_cue u i send_at execution_id now w =
     (case owned_cue w u i of
        None \<Rightarrow> (Refused ''cue_not_found'' 404, w)
      | Some c \<Rightarrow>
          (let effective_scheduled_for = (case send_at of Some t \<Rightarrow> if now < t then t else now | None \<Rightarrow> now);
               is_scheduled = (now < effective_scheduled_for)
           in start_execution c u execution_id effective_scheduled_for ''manual_fire''
                (build_ipc_delivery_metadata w i)
                (if is_scheduled then Some effective_scheduled_for else None) now w))"

subsection \<open>The unique constraints of the cue table\<close>

definition cue_keys_ok :: "world \<Rightarrow> bool" where
  "cue_keys_ok w \<longleftrightarrow> distinct (map cue_id (cues w)) \<and> distinct (map (\<lambda>c. (cue_user_id c, cue_name c)) (cues w))"

lemma insert_cue_cases:
  assumes "insert_cue c b w = (Reply (c', b'), w')"
  shows "c' = c" "b' = b" "w' = w\<lparr>cues := cues w @ [c]\<rparr>" "cue_storable c"
    "\<not> cue_name_taken w (cue_user_id c) (cue_name c) None" "cue_id c \<notin> cue_id ` set (cues w)"
    "valid_callback_method (cue_callback_method c)"
  using assms by (auto simp: insert_cue_def split: if_splits)

lemma insert_cue_keys:
  assumes "insert_cue c b w = (Reply r, w')" and "cue_keys_ok w"
  shows "cue_keys_ok w'"
proof -
  obtain c' b' where r: "r = (c', b')" by (cases r)
  note ins = insert_cue_cases [OF assms(1) [unfolded r]]
  from ins(5) have "(cue_user_id c, cue_name c) \<notin> (\<lambda>c. (cue_user_id c, cue_name c)) ` set (cues w)"
    by (auto simp: cue_name_taken_def list_ex_iff)
  with ins(3,6) assms(2) show ?thesis by (simp add: cue_keys_ok_def)
qed

lemma check_url_Pass: "check_url s url = Pass x \<longleftrightarrow> fst (validate_callback_url (st_parse s) (st_resolve s) url (st_env s))"
  by (simp add: check_url_def)

lemma check_schedule_future:
  assumes "check_schedule s d now = Pass (Some (ty, t))"
    and "\<And>expr tz base t. st_cron s expr tz base = Some t \<Longrightarrow> base < t"
  shows "now < t" and "ty = Recurring \<longleftrightarrow> sc_type d = ''recurring''"
  using assms
  by (auto simp: check_schedule_def get_next_run_def split: if_splits option.splits sum.splits)

lemma create_cue_cases:
  assumes "create_cue s u i d now w = (Reply r, w')"
  obtains ty t b where "insert_cue (new_cue i (usr_id u) d ty t now) b w = (Reply r, w')"
    "check_schedule s (cc_schedule d) now = Pass (Some (ty, t))"
    "\<not> st_disable_quota s \<Longrightarrow> int (active_cues w (usr_id u)) < usr_active_cue_limit u"
    "\<And>x. cc_transport d = ''webhook'' \<Longrightarrow> cc_callback d = Some x \<Longrightarrow> cb_url x \<noteq> None \<Longrightarrow>
       fst (validate_callback_url (st_parse s) (st_resolve s) (the (cb_url x)) (st_env s))"
    "\<And>f. cc_on_failure d = Some f \<Longrightarrow> truthy (fc_webhook f) \<Longrightarrow>
       fst (validate_callback_url (st_parse s) (st_resolve s) (the (fc_webhook f)) (st_env s))"
proof -
  from assms have q: "\<not> st_disable_quota s \<Longrightarrow> int (active_cues w (usr_id u)) < usr_active_cue_limit u"
    by (auto simp: create_cue_def split: if_splits)
  from assms obtain ty t b where c: "insert_cue (new_cue i (usr_id u) d ty t now) b w = (Reply r, w')"
    "check_schedule s (cc_schedule d) now = Pass (Some (ty, t))"
    by (auto simp: create_cue_def Let_def split: if_splits check.splits option.splits)
  have url: "fst (validate_callback_url (st_parse s) (st_resolve s) (the (cb_url x)) (st_env s))"
    if "cc_transport d = ''webhook''" "cc_callback d = Some x" "cb_url x \<noteq> None" for x
    using assms that by (auto simp: create_cue_def Let_def check_url_def split: if_splits check.splits option.splits)
  have hook: "fst (validate_callback_url (st_parse s) (st_resolve s) (the (fc_webhook f)) (st_env s))"
    if "cc_on_failure d = Some f" "truthy (fc_webhook f)" for f
    using assms that by (auto simp: create_cue_def Let_def check_url_def [of s "the (fc_webhook f)"]
        split: if_splits check.splits option.splits)
  from that [OF c q url hook] show thesis .
qed

text \<open>
  C38. Creating a cue: an accepted request adds exactly one cue, active, owned by the caller, with a
  next run strictly in the future (the cron library answering with later times), within the
  caller's cue limit, with a name no other cue of the caller has; its callback URL (for the
  webhook transport) and its failure webhook passed the address check.
\<close>

theorem create_cue_sound:
  assumes "create_cue s u i d now w = (Reply (c, warning), w')" and "cue_keys_ok w"
    and "\<And>expr tz base t. st_cron s expr tz base = Some t \<Longrightarrow> base < t"
  shows "cues w' = cues w @ [c] \<and> cue_keys_ok w' \<and> cue_user_id c = usr_id u \<and> cue_status c = CueActive
    \<and> (\<exists>t. cue_next_run c = Some t \<and> now < t)
    \<and> (\<not> st_disable_quota s \<longrightarrow> int (active_cues w (usr_id u)) < usr_active_cue_limit u)
    \<and> (cue_callback_transport c = Webhook \<and> cc_transport d = ''webhook'' \<longrightarrow>
        (\<forall>url. cue_callback_url c = Some url \<longrightarrow>
           fst (validate_callback_url (st_parse s) (st_resolve s) url (st_env s))))
    \<and> (\<forall>url. on_failure_webhook (cue_on_failure c) = Some url \<longrightarrow>
           fst (validate_callback_url (st_parse s) (st_resolve s) url (st_env s)))"
proof -
  from assms(1) obtain ty t b where ins: "insert_cue (new_cue i (usr_id u) d ty t now) b w = (Reply (c, warning), w')"
    and sched: "check_schedule s (cc_schedule d) now = Pass (Some (ty, t))"
    and quota: "\<not> st_disable_quota s \<Longrightarrow> int (active_cues w (usr_id u)) < usr_active_cue_limit u"
    and url: "\<And>x. cc_transport d = ''webhook'' \<Longrightarrow> cc_callback d = Some x \<Longrightarrow> cb_url x \<noteq> None \<Longrightarrow>
       fst (validate_callback_url (st_parse s) (st_resolve s) (the (cb_url x)) (st_env s))"
    and hook: "\<And>f. cc_on_failure d = Some f \<Longrightarrow> truthy (fc_webhook f) \<Longrightarrow>
       fst (validate_callback_url (st_parse s) (st_resolve s) (the (fc_webhook f)) (st_env s))"
    by (rule create_cue_cases) blast
  note c = insert_cue_cases [OF ins]
  have keys: "cue_keys_ok w'" using ins assms(2) by (rule insert_cue_keys)
  have "now < t" using check_schedule_future(1) [OF sched assms(3)] .
  moreover have "fst (validate_callback_url (st_parse s) (st_resolve s) x (st_env s))"
    if "cc_transport d = ''webhook''" "cue_callback_url c = Some x" for x
    using that url by (auto simp: c(1) new_cue_def Let_def split: option.splits if_splits)
  moreover have "fst (validate_callback_url (st_parse s) (st_resolve s) x (st_env s))"
    if "on_failure_webhook (cue_on_failure c) = Some x" for x
    using that hook by (auto simp: c(1) new_cue_def Let_def stored_on_failure_def on_failure_webhook_def truthy_def
        split: option.splits if_splits)
  moreover have "cue_user_id c = usr_id u" "cue_status c = CueActive" "cue_next_run c = Some t"
    by (simp_all add: c(1) new_cue_def Let_def)
  ultimately show ?thesis using keys quota c(1,3) by auto
qed

definition example_site :: site where
  "example_site = \<lparr>st_env = ''production'', st_disable_quota = False, st_cron_ok = (\<lambda>_. True),
     st_cron = every_minute, st_tz_ok = (\<lambda>_. True), st_parse = example_parse,
     st_resolve = (\<lambda>_. Some [V4 0x08080808])\<rparr>"

definition example_request :: cue_create where
  "example_request = \<lparr>cc_name = ''job'', cc_description = None,
     cc_schedule = \<lparr>sc_type = ''recurring'', sc_cron = Some ''* * * * *'', sc_at = None, sc_timezone = ''UTC''\<rparr>,
     cc_callback = Some \<lparr>cb_url = Some ''https://h/'', cb_method = ''POST'', cb_headers = None, cb_transport = None\<rparr>,
     cc_transport = ''webhook'', cc_payload = None, cc_retry = None, cc_on_failure = None, cc_verification = None\<rparr>"

lemma example_site_cron: "st_cron example_site expr tz base = Some t \<Longrightarrow> base < t"
  by (auto simp: example_site_def every_minute_def)

lemma example_url_ok:
  "fst (validate_callback_url (st_parse example_site) (st_resolve example_site) url (st_env example_site))"
  by (simp add: example_site_def validate_callback_url_def example_parse_def truthy_def BLOCKED_HOSTNAMES_def
      lower_def lower_char_def blocked_v4 private_v4_def)

lemma example_created:
  "\<exists>c w'. create_cue example_site (hd (users two_tenants)) ''cue_9'' example_request 100 two_tenants = (Reply (c, False), w')"
proof -
  have "check_url example_site url = Pass ()" for url
    using example_url_ok [of url] by (simp add: check_url_def)
  moreover have "check_payload (JObj []) = Pass ()"
    by (simp add: check_payload_def json_size_def utf8_len_def)
  ultimately show ?thesis
    by (simp add: create_cue_def example_request_def two_tenants_def empty_world_def cue_name_taken_def active_cues_def
        check_schedule_def get_next_run_def truthy_def Let_def)
      (simp add: example_site_def every_minute_def insert_cue_def new_cue_def cue_storable_def has_nul_def
        stored_on_failure_def valid_callback_method_def cue_name_taken_def truthy_def Let_def)
qed

theorem create_cue_sound_witness:
  "\<exists>c w' t. create_cue example_site (hd (users two_tenants)) ''cue_9'' example_request 100 two_tenants = (Reply (c, False), w')
     \<and> cue_next_run c = Some t \<and> 100 < t"
proof -
  from example_created obtain c w' where
    e: "create_cue example_site (hd (users two_tenants)) ''cue_9'' example_request 100 two_tenants = (Reply (c, False), w')"
    by blast
  have "cue_keys_ok two_tenants" by (simp add: cue_keys_ok_def two_tenants_def empty_world_def)
  from create_cue_sound [OF e this] example_site_cron have "\<exists>t. cue_next_run c = Some t \<and> 100 < t" by blast
  with e show ?thesis by blast
qed

text \<open>
  An integrity error of the insert is reported as a duplicate name, also when the name is free
  and the method is what the table refuses.
\<close>

lemma bad_method_reported_as_duplicate:
  assumes "\<not> valid_callback_method (cue_callback_method c)" and "cue_storable c"
  shows "insert_cue c b w = (Refused ''duplicate_cue_name'' 409, w)"
  using assms by (simp add: insert_cue_def)

subsection \<open>Updating\<close>

lemma check_bind_Pass: "check_bind m f = Pass y \<longleftrightarrow> (\<exists>x. m = Pass x \<and> f x = Pass y)"
  by (cases m) (simp_all add: check_bind_def)

lemma apply_keys:
  "apply_callback s d c = Pass c1 \<Longrightarrow> cue_id c1 = cue_id c \<and> cue_user_id c1 = cue_user_id c"
  "apply_payload d c = Pass c1 \<Longrightarrow> cue_id c1 = cue_id c \<and> cue_user_id c1 = cue_user_id c"
  "apply_on_failure s d c = Pass c1 \<Longrightarrow> cue_id c1 = cue_id c \<and> cue_user_id c1 = cue_user_id c"
  "apply_schedule s d now c = Pass c1 \<Longrightarrow> cue_id c1 = cue_id c \<and> cue_user_id c1 = cue_user_id c"
  "apply_status s d now c = Pass c1 \<Longrightarrow> cue_id c1 = cue_id c \<and> cue_user_id c1 = cue_user_id c"
  by (auto simp: apply_callback_def apply_payload_def apply_on_failure_def apply_schedule_def apply_status_def Let_def
      split: option.splits check.splits if_splits prod.splits schedule_type.splits sum.splits)

lemma changed_cue_keys:
  assumes "changed_cue s d now c = Pass c'"
  shows "cue_id c' = cue_id c \<and> cue_user_id c' = cue_user_id c"
proof -
  from assms obtain c1 c2 c3 c4 where "apply_callback s d (apply_basic d c) = Pass c1" "apply_payload d c1 = Pass c2"
    "apply_on_failure s d (apply_policy d c2) = Pass c3" "apply_schedule s d now c3 = Pass c4"
    "apply_status s d now c4 = Pass c'"
    by (auto simp: changed_cue_def check_bind_Pass)
  then show ?thesis
    by (auto dest!: apply_keys simp: apply_basic_def apply_policy_def Let_def split: option.splits)
qed

lemma update_cue_cases:
  assumes "update_cue s u i d now w = (Reply c', w')"
  obtains c where "owned_cue w u i = Some c" "w' = update_cue_row i (\<lambda>_. c') w" "cue_id c' = cue_id c"
    "cue_user_id c' = cue_user_id c" "cue_id c = i" "cue_user_id c = u" "\<not> cue_name_taken w u (cue_name c') (Some i)"
    "\<exists>c0. changed_cue s d now c = Pass c0 \<and> c' = c0\<lparr>cue_updated_at := now\<rparr>"
proof -
  from assms obtain c c0 where own: "owned_cue w u i = Some c" and ch: "changed_cue s d now c = Pass c0"
    and c': "c' = c0\<lparr>cue_updated_at := now\<rparr>" "w' = update_cue_row i (\<lambda>_. c') w"
    "\<not> cue_name_taken w u (cue_name c') (Some i)"
    by (auto simp: update_cue_def Let_def split: option.splits check.splits if_splits)
  have "cue_id c = i" "cue_user_id c = u"
    using own by (auto simp: owned_cue_def dest: get_cue_row_SomeD split: option.splits if_splits)
  with own ch c' changed_cue_keys [OF ch] show thesis by (intro that [of c]) auto
qed

lemma cue_row_replaced:
  assumes "owned_cue w u i = Some c" and "cue_id c' = i"
  shows "get_cue_row (update_cue_row i (\<lambda>_. c') w) i = Some c'"
proof -
  from assms(1) obtain r where "find (\<lambda>r. cue_id r = i) (cues w) = Some r"
    by (auto simp: owned_cue_def get_cue_row_def split: option.splits if_splits)
  moreover have "find (\<lambda>r. cue_id r = i) rows = Some r \<Longrightarrow>
      find (\<lambda>r. cue_id r = i) (update_where (\<lambda>r. cue_id r = i) (\<lambda>_. c') rows) = Some c'" for rows
    using assms(2) by (induction rows) (auto split: if_splits)
  ultimately show ?thesis by (simp add: get_cue_row_def update_cue_row_def)
qed

text \<open>
  Pausing stops the schedule: after an accepted update that pauses a cue, no poll selects the
  cue at any time, for any set of locked rows and any batch size, as long as its row stays as it
  is.
\<close>

theorem pause_stops_firing:
  assumes "update_cue s u i d now w = (Reply c', w')" and "cu_status d = Some ''paused''" and "cue_keys_ok w"
  shows "\<forall>c \<in> set (due_cues locked t n w'). cue_id c \<noteq> i"
proof
  fix c
  assume due: "c \<in> set (due_cues locked t n w')"
  from assms(1) obtain c0 where own: "owned_cue w u i = Some c0" and w': "w' = update_cue_row i (\<lambda>_. c') w"
    and i: "cue_id c' = i" and ch: "\<exists>c1. changed_cue s d now c0 = Pass c1 \<and> c' = c1\<lparr>cue_updated_at := now\<rparr>"
    by (rule update_cue_cases) auto
  from ch assms(2) have paused: "cue_status c' = CuePaused"
    by (auto simp: changed_cue_def check_bind_Pass apply_status_def)
  have mem: "c \<in> set (cues w')" using due_cues_subset due by blast
  have active: "cue_status c = CueActive"
    using due by (auto simp: due_cues_def cue_is_due_def dest: in_set_takeD)
  show "cue_id c \<noteq> i"
  proof
    assume "cue_id c = i"
    with mem have "c = c'" using i by (auto simp: w' update_cue_row_def set_update_where split: if_splits)
    with paused active show False by simp
  qed
qed

definition pause_request :: cue_update where
  "pause_request = \<lparr>cu_name = None, cu_description = None, cu_status = Some ''paused'', cu_schedule = None,
     cu_callback = None, cu_payload = None, cu_retry = None, cu_on_failure = None, cu_verification = None\<rparr>"

theorem pause_stops_firing_witness:
  "\<exists>c' w'. update_cue example_site 7 ''cue_1'' pause_request 150 polled_world = (Reply c', w')
     \<and> (\<forall>c \<in> set (due_cues (\<lambda>_. False) 200 500 w'). cue_id c \<noteq> ''cue_1'')"
proof -
  obtain c' w' where u: "update_cue example_site 7 ''cue_1'' pause_request 150 polled_world = (Reply c', w')"
    by (simp add: update_cue_def owned_cue_def get_cue_row_def polled_world_def example_cue_def pause_request_def
        changed_cue_def check_bind_def apply_callback_def apply_basic_def apply_payload_def apply_on_failure_def
        apply_policy_def apply_schedule_def apply_status_def cue_storable_def has_nul_def cue_name_taken_def
        valid_callback_method_def Let_def)
  have "cu_status pause_request = Some ''paused''" "cue_keys_ok polled_world"
    by (simp_all add: pause_request_def cue_keys_ok_def polled_world_def)
  from pause_stops_firing [OF u this] u show ?thesis by blast
qed

text \<open>Renaming a cue to a name in use raises instead of answering 409.\<close>

lemma rename_to_taken_name_raises:
  assumes "owned_cue w u i = Some c" and "changed_cue s d now c = Pass c'"
    and "cue_storable (c'\<lparr>cue_updated_at := now\<rparr>)" and "cue_name_taken w u (cue_name c') (Some i)"
  shows "update_cue s u i d now w = (Raised IntegrityError, w)"
  using assms by (simp add: update_cue_def Let_def)

subsection \<open>Manual firing\<close>

lemma start_execution_cases:
  assumes "start_execution c u i t trig meta at now w = (Reply r, w')"
  obtains w1 where "r = i" "insert_execution (new_execution i (cue_id c) t (Some trig) meta now) w = Inr w1"
    "executions w' = executions w1" "cues w' = cues w"
    "cue_callback_transport c = Webhook \<and> truthy (cue_callback_url c) \<Longrightarrow>
       \<exists>row. outbox w' = outbox w @ [row] \<and> ob_execution_id row = Some i \<and> ob_task_type row = Deliver
         \<and> \<not> ob_dispatched row \<and> ob_scheduled_at row = at"
    "\<not> (cue_callback_transport c = Webhook \<and> truthy (cue_callback_url c)) \<Longrightarrow> outbox w' = outbox w"
  using assms
  by (auto simp: start_execution_def insert_execution_def insert_outbox_def Let_def split: if_splits)

text \<open>
  A scheduled fire waits: an accepted fire of a webhook cue creates one pending execution for
  the effective time and one delivery row for it, and that row is due exactly from the requested
  time on when it lies in the future, and at once otherwise. Nothing else in either table
  changes.
\<close>

theorem fire_cue_gated:
  assumes "fire_cue u i send_at e now w = (Reply r, w')" and "owned_cue w u i = Some c"
    and "cue_callback_transport c = Webhook" and "truthy (cue_callback_url c)"
  shows "\<exists>x row. executions w' = executions w @ [x] \<and> ex_id x = e \<and> ex_status x = Pending
    \<and> ex_scheduled_for x = (case send_at of Some t \<Rightarrow> max t now | None \<Rightarrow> now)
    \<and> outbox w' = outbox w @ [row] \<and> ob_execution_id row = Some e \<and> ob_task_type row = Deliver
    \<and> (\<forall>t \<ge> now. row_is_due t row \<longleftrightarrow> (case send_at of Some s \<Rightarrow> s \<le> t | None \<Rightarrow> True))"
proof -
  let ?eff = "case send_at of Some t \<Rightarrow> if now < t then t else now | None \<Rightarrow> now"
  from assms(1,2) have st: "start_execution c u e ?eff ''manual_fire'' (build_ipc_delivery_metadata w i)
      (if now < ?eff then Some ?eff else None) now w = (Reply r, w')"
    by (simp add: fire_cue_def Let_def)
  from st obtain w1 where
    ins: "insert_execution (new_execution e (cue_id c) ?eff (Some ''manual_fire'') (build_ipc_delivery_metadata w i) now) w = Inr w1"
    and ex: "executions w' = executions w1"
    and ob: "\<exists>row. outbox w' = outbox w @ [row] \<and> ob_execution_id row = Some e \<and> ob_task_type row = Deliver
      \<and> \<not> ob_dispatched row \<and> ob_scheduled_at row = (if now < ?eff then Some ?eff else None)"
    by (rule start_execution_cases) (use assms(3,4) in blast)
  from ob obtain row where row: "outbox w' = outbox w @ [row]" "ob_execution_id row = Some e" "ob_task_type row = Deliver"
    "\<not> ob_dispatched row" "ob_scheduled_at row = (if now < ?eff then Some ?eff else None)" by blast
  have due: "row_is_due t row \<longleftrightarrow> (case send_at of Some s \<Rightarrow> s \<le> t | None \<Rightarrow> True)" if "now \<le> t" for t
    using that by (auto simp: row_is_due_def row(4,5) split: option.split)
  have "executions w1 = executions w @ [new_execution e (cue_id c) ?eff (Some ''manual_fire'') (build_ipc_delivery_metadata w i) now]"
    using insert_execution_frame [OF ins] by blast
  with ex row(1-3) due show ?thesis
    by (intro exI conjI) (auto simp: max_def split: option.split)
qed

theorem fire_cue_gated_witness:
  "\<exists>r w' row. fire_cue 7 ''cue_1'' (Some 900) 40 100 polled_world = (Reply r, w') \<and> outbox w' = [row]
     \<and> \<not> row_is_due 899 row \<and> row_is_due 900 row"
proof -
  have own: "owned_cue polled_world 7 ''cue_1'' = Some example_cue"
    by (simp add: owned_cue_def get_cue_row_def polled_world_def example_cue_def)
  have c: "cue_callback_transport example_cue = Webhook" "truthy (cue_callback_url example_cue)"
    by (simp_all add: example_cue_def truthy_def)
  obtain r w' where f: "fire_cue 7 ''cue_1'' (Some 900) 40 100 polled_world = (Reply r, w')"
    by (simp add: fire_cue_def own Let_def)
      (simp add: start_execution_def insert_execution_def polled_world_def empty_world_def)
  have "outbox polled_world = []" by (simp add: polled_world_def empty_world_def)
  with fire_cue_gated [OF f own c] f show ?thesis by (auto simp: polled_world_def empty_world_def)
qed

end
