(* ===== verification/Lifecycle.thy ===== *)
theory Lifecycle
  imports LeaderLock CueService
begin

section \<open>The system as a state machine\<close>

text \<open>
  Every operation of the previous theories as a step of one relation: the endpoints, called by an
  authenticated user, and the steps of the poller and of the task worker. The invariants of the
  tables and the promises that hold along every run are proved by rule induction on it.

  What an operation may do to the executions is abstracted by \<open>exec_evolves\<close>: it rewrites rows
  without touching their keys or a recorded outcome, and appends rows.
\<close>

subsection \<open>How execution rows evolve\<close>

definition outcome_of :: "execution \<Rightarrow> bool option \<times> string option \<times> string option \<times> json option \<times> time option" where
  "outcome_of r = (ex_outcome_success r, ex_outcome_result r, ex_outcome_error r, ex_outcome_metadata r,
     ex_outcome_recorded_at r)"

definition row_evolves :: "execution \<Rightarrow> execution \<Rightarrow> bool" where
  "row_evolves r r' \<longleftrightarrow> ex_id r' = ex_id r \<and> exec_slot r' = exec_slot r
     \<and> (ex_outcome_recorded_at r \<noteq> None \<longrightarrow> outcome_of r' = outcome_of r)"

definition attempts_ok :: "world \<Rightarrow> bool" where
  "attempts_ok w \<longleftrightarrow> list_all (\<lambda>r. 0 \<le> ex_attempts r) (executions w)"

text \<open>\<open>P\<close> marks the rows the operation may change.\<close>

definition exec_evolves :: "(execution \<Rightarrow> bool) \<Rightarrow> world \<Rightarrow> world \<Rightarrow> bool" where
  "exec_evolves P w w' \<longleftrightarrow>
     (\<exists>f news. executions w' = map f (executions w) @ news
        \<and> (\<forall>r \<in> set (executions w). row_evolves r (f r) \<and> (P r \<or> f r = r)))
     \<and> (exec_keys_ok w \<longrightarrow> exec_keys_ok w') \<and> (attempts_ok w \<longrightarrow> attempts_ok w')"

abbreviation evolves :: "world \<Rightarrow> world \<Rightarrow> bool" where
  "evolves \<equiv> exec_evolves (\<lambda>_. True)"

lemma row_evolves_refl [simp]: "row_evolves r r"
  by (simp add: row_evolves_def)

lemma row_evolves_trans: "row_evolves a b \<Longrightarrow> row_evolves b c \<Longrightarrow> row_evolves a c"
  by (auto simp: row_evolves_def outcome_of_def)

lemma exec_evolves_same:
  assumes "executions w' = executions w"
  shows "exec_evolves P w w'"
proof -
  have "executions w' = map id (executions w) @ []" using assms by simp
  then show ?thesis
    unfolding exec_evolves_def using assms exec_keys_ok_frame [OF assms]
    by (intro conjI exI [of _ id] exI [of _ "[]"]) (simp_all add: attempts_ok_def)
qed

lemma exec_evolves_weaken: "exec_evolves P w w' \<Longrightarrow> evolves w w'"
  by (auto simp: exec_evolves_def)

lemma exec_evolves_cong:
  assumes "exec_evolves P w w1" and "executions w' = executions w1"
  shows "exec_evolves P w w'"
proof -
  have "exec_keys_ok w' = exec_keys_ok w1" by (rule exec_keys_ok_frame [OF assms(2)])
  with assms show ?thesis by (simp add: exec_evolves_def attempts_ok_def)
qed

lemma evolves_trans:
  assumes "evolves a b" and "evolves b c"
  shows "evolves a c"
proof -
  from assms(1) obtain f news where f: "executions b = map f (executions a) @ news"
    "\<forall>r \<in> set (executions a). row_evolves r (f r)" by (auto simp: exec_evolves_def)
  from assms(2) obtain g news' where g: "executions c = map g (executions b) @ news'"
    "\<forall>r \<in> set (executions b). row_evolves r (g r)" by (auto simp: exec_evolves_def)
  have "executions c = map (g \<circ> f) (executions a) @ (map g news @ news')" using f(1) g(1) by simp
  moreover have "\<forall>r \<in> set (executions a). row_evolves r ((g \<circ> f) r)"
    using f g(2) by (auto intro: row_evolves_trans)
  ultimately show ?thesis using assms unfolding exec_evolves_def by blast
qed

lemma fold_evolves:
  assumes "\<And>x s. evolves s (f x s)"
  shows "evolves s (fold f xs s)"
proof (induction xs arbitrary: s)
  case Nil
  show ?case by (simp add: exec_evolves_same)
next
  case (Cons x xs)
  from evolves_trans [OF assms Cons.IH] show ?case by simp
qed

lemma fold_pair_evolves:
  assumes "\<And>x n s. evolves s (snd (f x (n, s)))"
  shows "evolves s (snd (fold f xs (n, s)))"
proof (induction xs arbitrary: n s)
  case Nil
  show ?case by (simp add: exec_evolves_same)
next
  case (Cons x xs)
  from evolves_trans [OF assms [of s x n] Cons.IH [of _ "fst (f x (n, s))"]] show ?case by simp
qed

lemma exec_evolves_where:
  assumes "\<And>r. r \<in> set (executions w) \<Longrightarrow> p r \<Longrightarrow> row_evolves r (f r) \<and> P r"
    and "\<And>r. r \<in> set (executions w) \<Longrightarrow> p r \<Longrightarrow> 0 \<le> ex_attempts r \<Longrightarrow> 0 \<le> ex_attempts (f r)"
  shows "exec_evolves P w (w\<lparr>executions := update_where p f (executions w)\<rparr>)"
proof -
  let ?g = "\<lambda>r. if p r then f r else r" and ?w' = "w\<lparr>executions := update_where p f (executions w)\<rparr>"
  have ev: "row_evolves r (?g r) \<and> (P r \<or> ?g r = r)" if "r \<in> set (executions w)" for r
    using assms(1) [OF that] by simp
  have ids: "map ex_id (executions ?w') = map ex_id (executions w)"
    and slots: "map exec_slot (executions ?w') = map exec_slot (executions w)"
    using ev by (auto simp: update_where_def row_evolves_def)
  have "exec_keys_ok ?w' \<longleftrightarrow> exec_keys_ok w"
    unfolding exec_keys_ok_def ids slots ..
  moreover have "attempts_ok w \<longrightarrow> attempts_ok ?w'"
    using assms(2) by (auto simp: attempts_ok_def list_all_iff set_update_where)
  moreover have "executions ?w' = map ?g (executions w) @ []" by (simp add: update_where_def)
  ultimately show ?thesis unfolding exec_evolves_def using ev by blast
qed

lemma exec_evolves_row:
  assumes "\<And>r. r \<in> set (executions w) \<Longrightarrow> ex_id r = e \<Longrightarrow> row_evolves r (f r) \<and> P r"
    and "\<And>r. 0 \<le> ex_attempts r \<Longrightarrow> 0 \<le> ex_attempts (f r)"
  shows "exec_evolves P w (update_exec_row e f w)"
  unfolding update_exec_row_def by (rule exec_evolves_where) (use assms in auto)

lemma exec_evolves_insert:
  assumes "insert_execution x w = Inr w'" and "0 \<le> ex_attempts x"
  shows "exec_evolves P w w'"
proof -
  have "executions w' = map id (executions w) @ [x]" using insert_execution_frame [OF assms(1)] by simp
  moreover have "attempts_ok w \<longrightarrow> attempts_ok w'"
    using insert_execution_frame [OF assms(1)] assms(2) by (simp add: attempts_ok_def)
  moreover have "exec_keys_ok w \<longrightarrow> exec_keys_ok w'" using insert_execution_keys [OF assms(1)] by blast
  ultimately show ?thesis
    unfolding exec_evolves_def by (intro conjI exI [of _ id] exI [of _ "[x]"]) simp_all
qed

text \<open>What evolution means for the row with a given id.\<close>

lemma exec_evolves_row_kept:
  assumes "exec_evolves P w w'" and "exec_keys_ok w" and "get_exec_row w e = Some r"
  shows "\<exists>r'. get_exec_row w' e = Some r' \<and> row_evolves r r' \<and> (P r \<or> r' = r)"
proof -
  from assms(1) obtain f news where f: "executions w' = map f (executions w) @ news"
    "\<forall>r \<in> set (executions w). row_evolves r (f r) \<and> (P r \<or> f r = r)" by (auto simp: exec_evolves_def)
  from assms(3) have r: "r \<in> set (executions w)" "ex_id r = e" by (auto dest: get_exec_row_SomeD)
  have "exec_keys_ok w'" using assms(1,2) by (simp add: exec_evolves_def)
  moreover have "f r \<in> set (executions w')" using f(1) r(1) by simp
  ultimately have "get_exec_row w' (ex_id (f r)) = Some (f r)" by (rule get_exec_row_mem)
  with f(2) r show ?thesis by (auto simp: row_evolves_def)
qed

subsection \<open>The contract of an assignment that leaves outcomes alone\<close>

locale lifecycle_update = exec_update upd for upd :: "execution \<Rightarrow> execution" +
  assumes upd_outcome: "outcome_of (upd r) = outcome_of r"
    and upd_attempts: "0 \<le> ex_attempts r \<Longrightarrow> 0 \<le> ex_attempts (upd r)"
begin

lemma row_ok: "row_evolves r (upd r)"
  by (simp add: row_evolves_def upd_key upd_slot upd_outcome)

lemma evolves_where:
  assumes "\<And>r. r \<in> set (executions w) \<Longrightarrow> p r \<Longrightarrow> P r"
  shows "exec_evolves P w (w\<lparr>executions := update_where p upd (executions w)\<rparr>)"
  by (rule exec_evolves_where) (simp_all add: row_ok upd_attempts assms)

lemma evolves_row:
  assumes "\<And>r. r \<in> set (executions w) \<Longrightarrow> ex_id r = e \<Longrightarrow> P r"
  shows "exec_evolves P w (update_exec_row e upd w)"
  by (rule exec_evolves_row) (simp_all add: row_ok upd_attempts assms)

end

interpretation claim_life: lifecycle_update "claim_row now" for now
  by unfold_locales (simp_all add: claim_row_def outcome_of_def)

interpretation blocked_life: lifecycle_update "blocked_row now" for now
  by unfold_locales (simp_all add: blocked_row_def outcome_of_def)

interpretation retry_ready_life: lifecycle_update "retry_ready_row now" for now
  by unfold_locales (simp_all add: retry_ready_row_def outcome_of_def exec_slot_def)

interpretation recovered_life: lifecycle_update "recovered_row s n now" for s n now
  by unfold_locales (simp_all add: recovered_row_def outcome_of_def)

interpretation exhausted_life: lifecycle_update "exhausted_row s now" for s now
  by unfold_locales (simp_all add: exhausted_row_def outcome_of_def)

interpretation reset_life: lifecycle_update "reset_row now" for now
  by unfold_locales (simp_all add: reset_row_def outcome_of_def)

interpretation missed_life: lifecycle_update "missed_row now" for now
  by unfold_locales (simp_all add: missed_row_def outcome_of_def)

interpretation worker_claim_life: lifecycle_update "worker_claim_row i now" for i now
  by unfold_locales (simp_all add: worker_claim_row_def outcome_of_def)

interpretation heartbeat_life: lifecycle_update "heartbeat_row now" for now
  by unfold_locales (simp_all add: heartbeat_row_def outcome_of_def)

interpretation verify_life: lifecycle_update "verify_row b now" for b now
  by unfold_locales (simp_all add: verify_row_def outcome_of_def)

interpretation pending_life: lifecycle_update "pending_row now" for now
  by unfold_locales (simp_all add: pending_row_def outcome_of_def)

interpretation evidence_life: lifecycle_update "evidence_row pystr body now" for pystr body now
  by unfold_locales (simp_all add: evidence_row_def outcome_of_def)

interpretation live_claim_life: lifecycle_update "live_claim_row token now" for token now
  by unfold_locales (simp_all add: live_claim_row_def outcome_of_def)

lemma attempt_rows_evolve:
  "row_evolves r (success_row h b a now r)" "row_evolves r (retrying_row h m a n now r)"
  "row_evolves r (failed_row h m a now r)"
  by (simp_all add: row_evolves_def success_row_def retrying_row_def failed_row_def outcome_of_def exec_slot_def)

subsection \<open>The worker's tasks\<close>

lemma handle_success_evolves:
  assumes "0 \<le> a"
  shows "evolves w (handle_success env e h b a c u now w)"
  by (rule exec_evolves_cong [OF _ handle_success_executions])
    (rule exec_evolves_row, simp_all add: attempt_rows_evolve, simp add: success_row_def assms)

lemma handle_failure_evolves:
  assumes "handle_failure env e h m a c mx bs now w = Inr w'" and "0 \<le> a"
  shows "evolves w w'"
proof (cases "a < mx")
  case True
  with assms(1) obtain n where "w' = update_exec_row e (retrying_row h m a n now) w"
    by (auto simp: handle_failure_def split: sum.splits)
  then show ?thesis
    by (auto intro!: exec_evolves_row simp: attempt_rows_evolve) (simp add: retrying_row_def assms(2))
next
  case False
  with assms(1) have "executions w' = executions (update_exec_row e (failed_row h m a now) w)"
    by (auto simp: handle_failure_def Let_def)
  with _ show ?thesis
    by (rule exec_evolves_cong)
      (auto intro!: exec_evolves_row simp: attempt_rows_evolve, simp add: failed_row_def assms(2))
qed

lemma finish_attempt_evolves:
  assumes "finish_attempt env p a res now w = Inr w'" and "0 \<le> a"
  shows "evolves w w'"
proof -
  let ?w1 = "update_cue_row (p_cue_id p) (\<lambda>r. r\<lparr>cue_run_count := cue_run_count r + 1, cue_updated_at := now\<rparr>) w"
  obtain s h t where res: "res = (s, h, t)" by (cases res)
  have "evolves w ?w1" by (simp add: exec_evolves_same)
  moreover have "evolves ?w1 w'"
    using assms by (cases s) (auto simp: finish_attempt_def res Let_def intro: handle_success_evolves handle_failure_evolves)
  ultimately show ?thesis by (rule evolves_trans)
qed

lemma claim_attempt_evolves: "evolves w (snd (claim_attempt p st now w))"
  by (auto simp: claim_attempt_def claim_execution_def Let_def intro!: claim_life.evolves_where)

lemma claim_attempt_nonneg:
  assumes "claim_attempt p st now w = (Some a, w')" and "attempts_ok w"
  shows "0 \<le> a"
proof -
  have "attempts_ok w'"
    using claim_attempt_evolves [of w p st now] assms by (simp add: exec_evolves_def)
  then have "0 \<le> ex_attempts r" if "get_exec_row w' e = Some r" for e r
    using that by (auto simp: attempts_ok_def list_all_iff dest: get_exec_row_SomeD)
  moreover have "a = (case get_exec_row w' (p_execution_id p) of Some r \<Rightarrow> ex_attempts r | None \<Rightarrow> 0) + 1"
    using assms(1) by (auto simp: claim_attempt_def Let_def split: prod.splits if_splits)
  ultimately show ?thesis by (auto split: option.splits)
qed

lemma claimed_attempt_evolves:
  assumes "claim_attempt p st now w = (Some a, w1)" and "finish_attempt env p a res t w1 = Inr w'" and "attempts_ok w"
  shows "evolves w w'"
  using evolves_trans [of w w1 w'] claim_attempt_evolves [of w p st now] finish_attempt_evolves [OF assms(2)]
    claim_attempt_nonneg [OF assms(1,3)] assms(1) by simp

lemma quota_gate_evolves:
  assumes "quota_gate env p now w = Inr (b, w')"
  shows "evolves w w'"
proof -
  have "executions w' = executions w \<or> (\<exists>w1. executions w1 = executions w
      \<and> w' = update_exec_row (p_execution_id p) (blocked_row now) w1)"
    using assms check_execution_limit_frame
    by (fastforce simp: quota_gate_def Let_def split: option.splits if_splits sum.splits prod.splits)
  then show ?thesis
  proof
    assume "executions w' = executions w"
    then show ?thesis by (rule exec_evolves_same)
  next
    assume "\<exists>w1. executions w1 = executions w \<and> w' = update_exec_row (p_execution_id p) (blocked_row now) w1"
    then obtain w1 where w1: "executions w1 = executions w" "w' = update_exec_row (p_execution_id p) (blocked_row now) w1"
      by blast
    have "evolves w w1" using w1(1) by (rule exec_evolves_same)
    moreover have "evolves w1 w'" unfolding w1(2) by (rule blocked_life.evolves_row) simp
    ultimately show ?thesis by (rule evolves_trans)
  qed
qed

lemma deliver_task_evolves:
  assumes "deliver_webhook_task env p now t w = Inr w'" and "attempts_ok w"
  shows "evolves w w'"
proof -
  from assms(1) obtain b w1 where g: "quota_gate env p now w = Inr (b, w1)"
    by (auto simp: deliver_webhook_task_def split: sum.splits)
  have q: "evolves w w1" using g by (rule quota_gate_evolves)
  then have ok: "attempts_ok w1" using assms(2) by (simp add: exec_evolves_def)
  have "evolves w1 w'"
  proof (cases "b \<and> fst (claim_attempt p Pending now w1) \<noteq> None")
    case True
    then obtain a w2 where "claim_attempt p Pending now w1 = (Some a, w2)"
      by (cases "claim_attempt p Pending now w1") auto
    with True assms(1) g ok show ?thesis
      by (auto simp: deliver_webhook_task_def intro: claimed_attempt_evolves)
  next
    case False
    with assms(1) g have "w' = w1 \<or> w' = snd (claim_attempt p Pending now w1)"
      by (cases "claim_attempt p Pending now w1") (auto simp: deliver_webhook_task_def split: if_splits)
    then show ?thesis using claim_attempt_evolves exec_evolves_same by metis
  qed
  with q show ?thesis by (rule evolves_trans)
qed

lemma retry_task_evolves:
  assumes "retry_webhook_task env p now t w = Inr w'" and "attempts_ok w"
  shows "evolves w w'"
proof (cases "claim_attempt p RetryReady now w")
  case (Pair a w1)
  show ?thesis
  proof (cases a)
    case None
    with assms(1) Pair have "w' = snd (claim_attempt p RetryReady now w)" by (simp add: retry_webhook_task_def)
    then show ?thesis by (simp add: claim_attempt_evolves)
  next
    case (Some k)
    with assms Pair show ?thesis by (auto simp: retry_webhook_task_def intro: claimed_attempt_evolves)
  qed
qed

subsection \<open>The poller's steps\<close>

lemma cue_batch_evolves:
  assumes "process_cue_batch cron locked ids now n w = Inr (k, w')"
    and "inj ids" and "\<And>i. ids i \<notin> set (map ex_id (executions w))"
  shows "evolves w w'"
proof -
  let ?ps = "zip (due_cues locked now n w) (map ids [0..<length (due_cues locked now n w)])"
  note fold = process_cue_batch_fold(1) [OF assms(1)]
  from fold_process_executions [OF fold] obtain news where ex: "executions w' = executions w @ news"
    and news: "set news \<subseteq> (\<lambda>(c, e). new_execution e (cue_id c) (the (cue_next_run c)) None None now) ` set ?ps"
    by blast
  have "attempts_ok w \<longrightarrow> attempts_ok w'"
    using news by (auto simp: attempts_ok_def list_all_iff ex)
  moreover have "exec_keys_ok w \<longrightarrow> exec_keys_ok w'"
  proof
    assume "exec_keys_ok w"
    with fold show "exec_keys_ok w'"
    proof (rule fold_process_keys_ok)
      have snds: "map snd ?ps = map ids [0..<length (due_cues locked now n w)]" by simp
      show "distinct (map snd ?ps)" unfolding snds using assms(2) by (simp add: distinct_map inj_on_def inj_def)
      show "set (map snd ?ps) \<inter> set (map ex_id (executions w)) = {}" unfolding snds using assms(3) by auto
    qed
  qed
  ultimately show ?thesis
    unfolding exec_evolves_def using ex by (intro conjI exI [of _ id] exI [of _ news]) simp_all
qed

lemma poll_retries_evolves: "evolves w (snd (poll_retries locked now n w))"
  unfolding poll_retries_def
proof (rule fold_pair_evolves)
  fix x k s
  show "evolves s (snd (process_retry now x (k, s)))"
  proof (cases "get_cue_row s (ex_cue_id x)")
    case None
    then show ?thesis by (simp add: process_retry_def exec_evolves_same)
  next
    case (Some c)
    let ?s1 = "insert_outbox (Some (ex_id x)) (Some (ex_cue_id x)) Retry (CueTask (retry_payload c (ex_id x) (ex_scheduled_for x)
        (case get_user_row s (cue_user_id c) of Some u \<Rightarrow> usr_webhook_secret u | None \<Rightarrow> ''''))) None now s"
    have "evolves s ?s1" by (simp add: exec_evolves_same)
    moreover have "evolves ?s1 (update_exec_row (ex_id x) (retry_ready_row now) ?s1)"
      by (rule retry_ready_life.evolves_row) simp
    ultimately show ?thesis using Some by (simp add: process_retry_def Let_def evolves_trans)
  qed
qed

lemma dispatch_outbox_executions: "executions (snd (dispatch_outbox q locked now n w)) = executions w"
proof -
  have "executions (snd (fold (dispatch_row q) ds (k, w))) = executions w" for ds k
    by (induction ds arbitrary: k w)
      (simp_all add: dispatch_row_def update_outbox_row_def split: option.split)
  then show ?thesis by (simp add: dispatch_outbox_def)
qed

lemma recover_stale_row_evolves:
  assumes "recover_stale_row s now e (w, esc) = Inr (w', esc')"
  shows "evolves w w'"
proof -
  have "(\<exists>n. w' = update_exec_row (ex_id e) (recovered_row s n now) w)
      \<or> executions w' = executions (update_exec_row (ex_id e) (exhausted_row s now) w)"
    using assms by (auto simp: recover_stale_row_def Let_def split: if_splits sum.splits option.splits)
  then show ?thesis
  proof
    assume "\<exists>n. w' = update_exec_row (ex_id e) (recovered_row s n now) w"
    then show ?thesis by (auto intro: recovered_life.evolves_row)
  next
    assume "executions w' = executions (update_exec_row (ex_id e) (exhausted_row s now) w)"
    with exhausted_life.evolves_row show ?thesis by (rule exec_evolves_cong) simp
  qed
qed

lemma recover_stale_evolves:
  assumes "recover_stale_executions env s locked start now w = Inr (n, w')"
  shows "evolves w w'"
proof -
  from assms obtain w1 esc where fold: "fold_res (recover_stale_row s now)
      (stale_executions locked (start - seconds s) w) (w, []) = Inr (w1, esc)"
    and ex: "executions w' = executions w1"
    by (auto simp: recover_stale_executions_def Let_def split: sum.splits)
  have "evolves w (fst (w1, esc))"
  proof (rule fold_res_invariant [OF fold])
    show "evolves w (fst (w, []))" by (simp add: exec_evolves_same)
    fix x st st'
    assume "evolves w (fst st)" and "recover_stale_row s now x st = Inr st'"
    then show "evolves w (fst st')"
      by (cases st; cases st') (auto dest: recover_stale_row_evolves intro: evolves_trans)
  qed
  with ex show ?thesis by (simp add: exec_evolves_cong)
qed

lemma recover_claims_evolves: "evolves w (snd (recover_stale_worker_claims ht ct now w))"
  unfolding recover_stale_worker_claims_def reset_claims_def
  by (rule fold_pair_evolves)
    (auto simp: reset_claim_def exec_evolves_same intro!: reset_life.evolves_row)

lemma fail_unclaimed_evolves: "evolves w (snd (fail_unclaimed_worker_executions env t now w))"
proof -
  have miss: "evolves s (miss_execution now x s)" for x s
  proof (rule exec_evolves_cong)
    show "evolves s (update_exec_row (ex_id x) (missed_row now) s)" by (rule missed_life.evolves_row) simp
    show "executions (miss_execution now x s) = executions (update_exec_row (ex_id x) (missed_row now) s)"
      by (simp add: miss_execution_def Let_def split: option.split)
  qed
  have "evolves w (fold (miss_execution now) (unclaimed_executions (now - seconds t) w) w)"
    by (rule fold_evolves) (rule miss)
  from exec_evolves_cong [OF this] show ?thesis
    by (simp add: fail_unclaimed_worker_executions_def Let_def)
qed

lemma check_worker_health_executions:
  assumes "check_worker_health env t now w = Inr (n, w')"
  shows "executions w' = executions w" "cues w' = cues w"
proof -
  have "executions (snd (fold (alert_worker env now) ks (k, w))) = executions w
      \<and> cues (snd (fold (alert_worker env now) ks (k, w))) = cues w" for ks k
  proof (induction ks arbitrary: k w)
    case (Cons x ks)
    obtain k1 w1 where step: "alert_worker env now x (k, w) = (k1, w1)"
      by (cases "alert_worker env now x (k, w)")
    then have "executions w1 = executions w" "cues w1 = cues w"
      by (auto simp: alert_worker_def Let_def split: if_splits option.splits)
    with Cons.IH [of k1 w1] step show ?case by simp
  qed simp
  with assms show "executions w' = executions w" "cues w' = cues w"
    by (auto simp: check_worker_health_def Let_def split: if_splits) (metis snd_conv)+
qed

subsection \<open>The endpoints\<close>

text \<open>The rows a user may change: the executions of that user's cues.\<close>

definition own_row :: "world \<Rightarrow> uuid \<Rightarrow> execution \<Rightarrow> bool" where
  "own_row w u r = (case get_cue_row w (ex_cue_id r) of Some c \<Rightarrow> cue_user_id c = u | None \<Rightarrow> False)"

lemma owned_exec_own_row:
  assumes "exec_keys_ok w" and "owned_exec w u e = Some (r, c)" and "x \<in> set (executions w)" and "ex_id x = e"
  shows "x = r" and "own_row w u x"
proof -
  show x: "x = r" using get_exec_row_mem [OF assms(1,3)] owned_exec_SomeD [OF assms(2)] assms(4) by simp
  show "own_row w u x" using owned_exec_SomeD [OF assms(2)] by (simp add: x own_row_def)
qed

lemma worker_exec_own_row: "worker_exec w u r \<Longrightarrow> own_row w u r"
  by (auto simp: worker_exec_def own_row_def split: option.splits)

lemma record_outcome_evolves:
  assumes "exec_keys_ok w"
  shows "exec_evolves (own_row w u) w (snd (record_outcome n ids u e b now later w))"
proof (cases "record_outcome n ids u e b now later w")
  case (Pair rep w')
  show ?thesis
  proof (cases rep)
    case (Reply resp)
    from Pair Reply obtain r m and c :: cue where r: "get_exec_row w e = Some r" "get_cue_row w (ex_cue_id r) = Some c"
      "cue_user_id c = u" "ex_outcome_recorded_at r = None"
      and ex: "executions w' = executions (update_exec_row e (recorded_row (cue_callback_transport c = WorkerPull) m b now) w)"
      by (metis record_outcome_accepted)
    have "exec_evolves (own_row w u) w (update_exec_row e (recorded_row (cue_callback_transport c = WorkerPull) m b now) w)"
    proof (rule exec_evolves_row)
      fix x
      assume "x \<in> set (executions w)" "ex_id x = e"
      with r(1) assms have x: "x = r" using get_exec_row_mem [OF assms] by fastforce
      show "row_evolves x (recorded_row (cue_callback_transport c = WorkerPull) m b now x) \<and> own_row w u x"
        using r by (simp add: x row_evolves_def recorded_upd.upd_key recorded_upd.upd_slot own_row_def)
    next
      fix x :: execution
      assume "0 \<le> ex_attempts x"
      then show "0 \<le> ex_attempts (recorded_row (cue_callback_transport c = WorkerPull) m b now x)"
        by (simp add: recorded_row_def completion_row_def outcome_row_def Let_def split_def)
    qed
    with ex Pair show ?thesis by (simp add: exec_evolves_cong)
  qed (use Pair in \<open>auto simp: record_outcome_def Let_def exec_evolves_same split: option.splits if_splits\<close>)
qed

lemma claim_one_evolves: "exec_evolves (own_row w u) w (snd (claim_one_execution u e i now w))"
  by (auto simp: claim_one_execution_def exec_evolves_same intro!: worker_claim_life.evolves_where worker_exec_own_row)

lemma claim_next_evolves:
  assumes "exec_keys_ok w"
  shows "exec_evolves (own_row w u) w (snd (claim_next_execution u i now w))"
proof (cases "next_claim w u")
  case None
  then show ?thesis by (simp add: claim_next_execution_def apply_claim_def exec_evolves_same)
next
  case (Some e)
  then obtain x where x: "x \<in> set (executions w)" "ex_id x = e" "worker_exec w u x"
    by (auto elim: next_claim_SomeD)
  have "own_row w u y" if "y \<in> set (executions w)" "ex_id y = e" for y
    using get_exec_row_mem [OF assms x(1)] get_exec_row_mem [OF assms that(1)] x(2,3) that(2)
    by (auto intro: worker_exec_own_row)
  then have "exec_evolves (own_row w u) w (update_exec_row e (worker_claim_row i now) w)"
    by (rule worker_claim_life.evolves_row)
  with Some show ?thesis by (simp add: claim_next_execution_def apply_claim_def exec_evolves_same)
qed

text \<open>The handlers that load the caller's execution and assign to it.\<close>

lemma owned_handlers_evolve:
  assumes "exec_keys_ok w"
  shows "exec_evolves (own_row w u) w (snd (execution_heartbeat u e x now w))"
    and "exec_evolves (own_row w u) w (snd (verify_execution u e vb now w))"
    and "exec_evolves (own_row w u) w (snd (mark_verification_pending u e now w))"
    and "exec_evolves (own_row w u) w (snd (append_evidence pystr u e body now w))"
    and "exec_evolves (own_row w u) w (snd (live_claim_execution u e tok now w))"
proof -
  have own: "own_row w u y" if "owned_exec w u e = Some (r, c)" "y \<in> set (executions w)" "ex_id y = e" for r c y
    using owned_exec_own_row(2) [OF assms that] .
  show "exec_evolves (own_row w u) w (snd (execution_heartbeat u e x now w))"
    by (auto simp: execution_heartbeat_def exec_evolves_same split: option.split
        intro!: heartbeat_life.evolves_row own)
  show "exec_evolves (own_row w u) w (snd (verify_execution u e vb now w))"
    by (auto simp: verify_execution_def Let_def exec_evolves_same split: option.split
        intro!: verify_life.evolves_row own)
  show "exec_evolves (own_row w u) w (snd (mark_verification_pending u e now w))"
    by (auto simp: mark_verification_pending_def exec_evolves_same split: option.split
        intro!: pending_life.evolves_row own)
  show "exec_evolves (own_row w u) w (snd (append_evidence pystr u e body now w))"
    by (auto simp: append_evidence_def exec_evolves_same split: option.split
        intro!: evidence_life.evolves_row own)
  show "exec_evolves (own_row w u) w (snd (live_claim_execution u e tok now w))"
    by (auto simp: live_claim_execution_def commit_live_claim_def exec_evolves_same split: option.split live_claim.split
        intro!: live_claim_life.evolves_row own)
qed

lemma start_execution_evolves: "exec_evolves P w (snd (start_execution c u i t trig meta at now w))"
proof (cases "insert_execution (new_execution i (cue_id c) t (Some trig) meta now) w")
  case (Inl err)
  then show ?thesis by (simp add: start_execution_def exec_evolves_same)
next
  case (Inr w1)
  from exec_evolves_insert [OF this] have "exec_evolves P w w1" by simp
  then show ?thesis by (rule exec_evolves_cong) (simp add: start_execution_def Inr Let_def)
qed

lemma replay_evolves: "exec_evolves P w (snd (replay_execution u e i now w))"
  by (auto simp: replay_execution_def exec_evolves_same start_execution_evolves split: option.split)

lemma fire_cue_evolves: "exec_evolves P w (snd (fire_cue u c s i now w))"
  by (auto simp: fire_cue_def Let_def exec_evolves_same start_execution_evolves split: option.split)

lemma cue_handlers_executions:
  "executions (snd (create_cue s usr i d now w)) = executions w"
  "executions (snd (update_cue s u i d2 now w)) = executions w"
  "executions (snd (delete_cue u i w)) = executions w"
  by (auto simp: create_cue_def insert_cue_def update_cue_def delete_cue_def Let_def split: check.split option.split)

subsection \<open>The step relations\<close>

text \<open>A request of the user \<open>u\<close>; refused requests are steps that change nothing.\<close>

inductive api_step :: "uuid \<Rightarrow> world \<Rightarrow> world \<Rightarrow> bool" where
  outcome: "api_step u w (snd (record_outcome n ids u e b now later w))"
| claim_next: "api_step u w (snd (claim_next_execution u i now w))"
| claim_one: "api_step u w (snd (claim_one_execution u e i now w))"
| heartbeat: "api_step u w (snd (execution_heartbeat u e x now w))"
| replay: "api_step u w (snd (replay_execution u e i now w))"
| verify: "api_step u w (snd (verify_execution u e vb now w))"
| pending: "api_step u w (snd (mark_verification_pending u e now w))"
| evidence: "api_step u w (snd (append_evidence pystr u e body now w))"
| live_claim: "api_step u w (snd (live_claim_execution u e tok now w))"
| create: "usr_id usr = u \<Longrightarrow> api_step u w (snd (create_cue s usr c d now w))"
| update: "api_step u w (snd (update_cue s u c d2 now w))"
| delete: "api_step u w (snd (delete_cue u c w))"
| fire: "api_step u w (snd (fire_cue u c at i now w))"
| worker: "api_step u w (snd (worker_heartbeat u k hs now w))"
| unregister: "api_step u w (snd (delete_worker u k w))"

text \<open>A step of the poller or of the task worker; one that raises is rolled back.\<close>

inductive system_step :: "world \<Rightarrow> world \<Rightarrow> bool" where
  poll: "process_cue_batch cron locked ids now n w = Inr (k, w') \<Longrightarrow> inj ids \<Longrightarrow>
     (\<And>i. ids i \<notin> set (map ex_id (executions w))) \<Longrightarrow> system_step w w'"
| retries: "system_step w (snd (poll_retries locked2 now n w))"
| dispatch: "system_step w (snd (dispatch_outbox q locked3 now n w))"
| stale: "recover_stale_executions env s locked2 start now w = Inr (k, w') \<Longrightarrow> system_step w w'"
| claims: "system_step w (snd (recover_stale_worker_claims ht ct now w))"
| unclaimed: "system_step w (snd (fail_unclaimed_worker_executions env t now w))"
| health: "check_worker_health env t now w = Inr (k, w') \<Longrightarrow> system_step w w'"
| cleanup: "system_step w (snd (cleanup_outbox d now w))"
| deliver: "deliver_webhook_task env p now t w = Inr w' \<Longrightarrow> system_step w w'"
| retry: "retry_webhook_task env p now t w = Inr w' \<Longrightarrow> system_step w w'"

definition step :: "world \<Rightarrow> world \<Rightarrow> bool" where
  "step w w' \<longleftrightarrow> (\<exists>u. api_step u w w') \<or> system_step w w'"

inductive_cases api_stepE: "api_step u w w'"
inductive_cases system_stepE: "system_step w w'"

lemma worker_handlers_frame:
  "executions (snd (worker_heartbeat u k hs now w)) = executions w" "executions (snd (delete_worker u k w)) = executions w"
  "cues (snd (worker_heartbeat u k hs now w)) = cues w" "cues (snd (delete_worker u k w)) = cues w"
  by (simp_all add: worker_heartbeat_def delete_worker_def)

lemma api_step_evolves:
  assumes "api_step u w w'" and "exec_keys_ok w"
  shows "exec_evolves (own_row w u) w w'"
  using assms
  by (induction rule: api_step.induct)
    (simp_all add: record_outcome_evolves claim_next_evolves claim_one_evolves owned_handlers_evolve replay_evolves
      fire_cue_evolves exec_evolves_same cue_handlers_executions worker_handlers_frame)

lemma system_step_evolves:
  assumes "system_step w w'" and "attempts_ok w"
  shows "evolves w w'"
  using assms
proof (induction rule: system_step.induct)
  case (poll cron locked ids now n w k w')
  then show ?case by (intro cue_batch_evolves) auto
qed (auto intro: poll_retries_evolves recover_stale_evolves recover_claims_evolves fail_unclaimed_evolves
    deliver_task_evolves retry_task_evolves exec_evolves_same
    simp: dispatch_outbox_executions check_worker_health_executions cleanup_outbox_def Let_def)

lemma step_evolves: "step w w' \<Longrightarrow> exec_keys_ok w \<Longrightarrow> attempts_ok w \<Longrightarrow> evolves w w'"
  unfolding step_def using api_step_evolves exec_evolves_weaken system_step_evolves by blast

subsection \<open>Keys of the cue table\<close>

definition cue_key :: "cue \<Rightarrow> string \<times> uuid \<times> string" where
  "cue_key c = (cue_id c, cue_user_id c, cue_name c)"

definition keeps_cue_keys :: "world \<Rightarrow> world \<Rightarrow> bool" where
  "keeps_cue_keys w w' \<longleftrightarrow> map cue_key (cues w') = map cue_key (cues w)"

lemma keeps_cue_keys_same: "cues w' = cues w \<Longrightarrow> keeps_cue_keys w w'"
  by (simp add: keeps_cue_keys_def)

lemma keeps_cue_keys_trans: "keeps_cue_keys a b \<Longrightarrow> keeps_cue_keys b c \<Longrightarrow> keeps_cue_keys a c"
  by (simp add: keeps_cue_keys_def)

lemma keeps_cue_keys_update:
  "keeps_cue_keys w w1 \<Longrightarrow> (\<And>r. cue_key (f r) = cue_key r) \<Longrightarrow> keeps_cue_keys w (update_cue_row c f w1)"
  by (simp add: keeps_cue_keys_def update_cue_row_def map_update_where)

lemma keeps_cue_keys_ok:
  assumes "keeps_cue_keys w w'"
  shows "cue_keys_ok w' \<longleftrightarrow> cue_keys_ok w"
proof -
  have ids: "map cue_id (cues v) = map fst (map cue_key (cues v))"
    and nms: "map (\<lambda>c. (cue_user_id c, cue_name c)) (cues v) = map snd (map cue_key (cues v))" for v
    by (simp_all add: cue_key_def o_def)
  show ?thesis
    unfolding cue_keys_ok_def ids [of w] ids [of w'] nms [of w] nms [of w']
    using assms by (simp only: keeps_cue_keys_def)
qed

lemma fold_keeps_cue_keys: "(\<And>x s. keeps_cue_keys s (f x s)) \<Longrightarrow> keeps_cue_keys s (fold f xs s)"
  by (induction xs arbitrary: s) (auto intro: keeps_cue_keys_same keeps_cue_keys_trans)

lemma keeps_cue_keys_frame:
  assumes "cues w' = cues w1" and "keeps_cue_keys w w1"
  shows "keeps_cue_keys w w'"
  using assms by (simp add: keeps_cue_keys_def)

lemma process_due_cue_keeps:
  assumes "process_due_cue cron now ce w = Inr w'"
  shows "keeps_cue_keys w w'"
proof -
  obtain c e where ce: "ce = (c, e)" by (cases ce)
  have "keeps_cue_keys w (fire_due_cue now c e t w)" for t
    by (auto simp: fire_due_cue_def Let_def cue_key_def keeps_cue_keys_same
        intro!: keeps_cue_keys_update keeps_cue_keys_frame [OF insert_outbox_frame(1)])
  then show ?thesis
    using assms [unfolded ce] by (elim process_due_cue_cases) (auto simp: cue_key_def intro!: keeps_cue_keys_update)
qed

lemma escalation_keeps: "keeps_cue_keys w (run_on_failure_escalation env now esc w)"
proof -
  obtain c e m where esc: "esc = (c, e, m)" by (cases esc)
  have "cues (run_on_failure_escalation env now esc w) = cues w \<or>
      cues (run_on_failure_escalation env now esc w) = cues (update_cue_row c
         (\<lambda>r. r\<lparr>cue_status := CuePaused, cue_next_run := None, cue_updated_at := now\<rparr>) w)"
    by (simp add: run_on_failure_escalation_def esc Let_def split: option.split)
  then show ?thesis
    by (auto simp: keeps_cue_keys_def cue_key_def update_cue_row_def map_update_where)
qed

lemma recover_stale_row_keeps:
  assumes "recover_stale_row s now e (w, esc) = Inr (w', esc')"
  shows "keeps_cue_keys w w'"
  using assms
  by (auto simp: recover_stale_row_def Let_def cue_key_def keeps_cue_keys_same intro!: keeps_cue_keys_update
      split: if_splits sum.splits option.splits)

lemma recover_stale_keeps:
  assumes "recover_stale_executions env s locked start now w = Inr (n, w')"
  shows "keeps_cue_keys w w'"
proof -
  from assms obtain w1 esc where fold: "fold_res (recover_stale_row s now)
      (stale_executions locked (start - seconds s) w) (w, []) = Inr (w1, esc)"
    and w': "w' = fold (run_on_failure_escalation env now) esc w1"
    by (auto simp: recover_stale_executions_def Let_def split: sum.splits)
  have "keeps_cue_keys w (fst (w1, esc))"
  proof (rule fold_res_invariant [OF fold])
    fix x st st'
    assume "keeps_cue_keys w (fst st)" and "recover_stale_row s now x st = Inr st'"
    then show "keeps_cue_keys w (fst st')"
      by (cases st; cases st') (auto dest: recover_stale_row_keeps intro: keeps_cue_keys_trans)
  qed (simp add: keeps_cue_keys_same)
  moreover have "keeps_cue_keys w1 w'" unfolding w' by (rule fold_keeps_cue_keys) (rule escalation_keeps)
  ultimately show ?thesis by (auto intro: keeps_cue_keys_trans)
qed

lemma fail_unclaimed_keeps: "keeps_cue_keys w (snd (fail_unclaimed_worker_executions env t now w))"
proof -
  have "keeps_cue_keys s (miss_execution now x s)" for x s
    by (auto simp: miss_execution_def Let_def cue_key_def keeps_cue_keys_same intro!: keeps_cue_keys_update
        split: option.split)
  then show ?thesis
    unfolding fail_unclaimed_worker_executions_def Let_def snd_conv
    by (intro keeps_cue_keys_trans [OF fold_keeps_cue_keys fold_keeps_cue_keys] escalation_keeps)
qed

lemma finish_attempt_keeps:
  assumes "finish_attempt env p a res now w = Inr w'"
  shows "keeps_cue_keys w w'"
proof -
  have success: "keeps_cue_keys v (handle_success env e h b k c u now v)" for v e h b k c u
    by (auto simp: handle_success_def Let_def cue_key_def keeps_cue_keys_same
        intro!: keeps_cue_keys_update keeps_cue_keys_frame [OF executions_increment_usage(3)] split: option.split)
  have fail: "keeps_cue_keys v (fail_cue row c now v)" for v row c
    by (auto simp: fail_cue_def Let_def cue_key_def keeps_cue_keys_same intro!: keeps_cue_keys_update
        split: option.split)
  have failure: "keeps_cue_keys v v'" if "handle_failure env e h m k c mx bs now v = Inr v'" for v e h m k c mx bs v'
  proof -
    let ?v2 = "update_cue_row c (\<lambda>r. r\<lparr>cue_last_run := Some now, cue_updated_at := now\<rparr>)
      (update_exec_row e (failed_row h m k now) v)"
    have "keeps_cue_keys v ?v2" by (auto simp: cue_key_def keeps_cue_keys_same intro!: keeps_cue_keys_update)
    from keeps_cue_keys_trans [OF this fail] that show ?thesis
      by (auto simp: handle_failure_def Let_def keeps_cue_keys_same
          intro: keeps_cue_keys_frame [OF notify_failure_frame(3)] split: if_splits sum.splits)
  qed
  let ?w1 = "update_cue_row (p_cue_id p) (\<lambda>r. r\<lparr>cue_run_count := cue_run_count r + 1, cue_updated_at := now\<rparr>) w"
  have "keeps_cue_keys w ?w1" by (auto simp: cue_key_def keeps_cue_keys_same intro!: keeps_cue_keys_update)
  moreover have "keeps_cue_keys ?w1 w'"
    using assms by (auto simp: finish_attempt_def Let_def split: prod.splits if_splits intro: success failure)
  ultimately show ?thesis by (rule keeps_cue_keys_trans)
qed

lemma claim_attempt_cues: "cues (snd (claim_attempt p st now w)) = cues w"
  by (simp add: claim_attempt_def claim_execution_def Let_def)

lemma quota_gate_cues: "quota_gate env p now w = Inr (b, w') \<Longrightarrow> cues w' = cues w"
  by (auto simp: quota_gate_def Let_def dest: check_execution_limit_frame
      split: option.splits if_splits sum.splits prod.splits)

lemma retry_task_keeps:
  assumes "retry_webhook_task env p now t w = Inr w'"
  shows "keeps_cue_keys w w'"
proof -
  obtain a w1 where c: "claim_attempt p RetryReady now w = (a, w1)" by (cases "claim_attempt p RetryReady now w")
  have "keeps_cue_keys w w1" using claim_attempt_cues [of p RetryReady now w] c by (simp add: keeps_cue_keys_same)
  then show ?thesis
    using assms c by (auto simp: retry_webhook_task_def split: option.splits
        intro: keeps_cue_keys_trans finish_attempt_keeps)
qed

lemma deliver_task_keeps:
  assumes "deliver_webhook_task env p now t w = Inr w'"
  shows "keeps_cue_keys w w'"
proof -
  from assms obtain b w1 where g: "quota_gate env p now w = Inr (b, w1)"
    by (auto simp: deliver_webhook_task_def split: sum.splits)
  obtain a w2 where c: "claim_attempt p Pending now w1 = (a, w2)" by (cases "claim_attempt p Pending now w1")
  have "keeps_cue_keys w w1" using quota_gate_cues [OF g] by (simp add: keeps_cue_keys_same)
  moreover have "keeps_cue_keys w1 w2" using claim_attempt_cues [of p Pending now w1] c by (simp add: keeps_cue_keys_same)
  ultimately show ?thesis
    using assms g c by (auto simp: deliver_webhook_task_def split: option.splits if_splits
        intro: keeps_cue_keys_trans finish_attempt_keeps)
qed

lemma system_step_keeps: "system_step w w' \<Longrightarrow> keeps_cue_keys w w'"
proof (induction rule: system_step.induct)
  case (poll cron locked ids now n w k w')
  have "keeps_cue_keys w w'"
    by (rule fold_res_invariant [OF process_cue_batch_fold(1) [OF poll(1)]])
      (auto intro: keeps_cue_keys_same keeps_cue_keys_trans process_due_cue_keeps)
  then show ?case .
next
  case (retries w locked2 now n)
  have "cues (snd (fold (process_retry now) ds (k, w))) = cues w" for ds k
    by (induction ds arbitrary: k w) (simp_all add: process_retry_def Let_def split: option.split)
  then show ?case by (simp add: poll_retries_def keeps_cue_keys_same)
next
  case (dispatch w q locked3 now n)
  have "cues (snd (fold (dispatch_row q) ds (k, w))) = cues w" for ds k
    by (induction ds arbitrary: k w) (simp_all add: dispatch_row_def update_outbox_row_def split: option.split)
  then show ?case by (simp add: dispatch_outbox_def keeps_cue_keys_same)
next
  case (claims w ht ct now)
  have "cues (snd (fold (reset_claim h now) ds (k, w))) = cues w" for ds k h
    by (induction ds arbitrary: k w) (simp_all add: reset_claim_def)
  then show ?case by (simp add: recover_stale_worker_claims_def reset_claims_def keeps_cue_keys_same)
qed (auto intro: recover_stale_keeps fail_unclaimed_keeps deliver_task_keeps retry_task_keeps keeps_cue_keys_same
    dest: check_worker_health_executions simp: cleanup_outbox_def Let_def)

subsection \<open>What a request does to cues\<close>

text \<open>The cues of other users stay as they are.\<close>

definition foreign_cues_kept :: "uuid \<Rightarrow> world \<Rightarrow> world \<Rightarrow> bool" where
  "foreign_cues_kept u w w' \<longleftrightarrow>
     (\<forall>c row. get_cue_row w c = Some row \<longrightarrow> cue_user_id row \<noteq> u \<longrightarrow> get_cue_row w' c = Some row)"

lemma foreign_cues_same: "cues w' = cues w \<Longrightarrow> foreign_cues_kept u w w'"
  by (simp add: foreign_cues_kept_def get_cue_row_def)

lemma update_cue_row_other:
  assumes "c' \<noteq> c" and "\<And>r. cue_id r = c \<Longrightarrow> cue_id (f r) = c"
  shows "get_cue_row (update_cue_row c f w) c' = get_cue_row w c'"
proof -
  have "find (\<lambda>r. cue_id r = c') (update_where (\<lambda>r. cue_id r = c) f rows) = find (\<lambda>r. cue_id r = c') rows" for rows
    using assms by (induction rows) auto
  then show ?thesis by (simp add: get_cue_row_def update_cue_row_def)
qed

lemma record_outcome_cues:
  "foreign_cues_kept u w (snd (record_outcome n ids u e b now later w))"
  "keeps_cue_keys w (snd (record_outcome n ids u e b now later w))"
proof -
  let ?w' = "snd (record_outcome n ids u e b now later w)"
  have "cues ?w' = cues w \<or> (\<exists>r c ty s. get_exec_row w e = Some r \<and> get_cue_row w (ex_cue_id r) = Some c
      \<and> cue_user_id c = u \<and> cues ?w' = cues (complete_cue ty s now (ex_cue_id r) (w\<lparr>executions := executions ?w'\<rparr>)))"
    by (auto simp: record_outcome_def Let_def complete_cue_def update_cue_row_def split: option.split)
  then have "foreign_cues_kept u w ?w' \<and> keeps_cue_keys w ?w'"
  proof
    assume "cues ?w' = cues w"
    then show ?thesis by (simp add: foreign_cues_same keeps_cue_keys_same)
  next
    assume "\<exists>r c ty s. get_exec_row w e = Some r \<and> get_cue_row w (ex_cue_id r) = Some c
      \<and> cue_user_id c = u \<and> cues ?w' = cues (complete_cue ty s now (ex_cue_id r) (w\<lparr>executions := executions ?w'\<rparr>))"
    then obtain r :: execution and c ty s where c: "get_cue_row w (ex_cue_id r) = Some c" "cue_user_id c = u"
      and cues': "cues ?w' = cues (complete_cue ty s now (ex_cue_id r) (w\<lparr>executions := executions ?w'\<rparr>))" by blast
    have "foreign_cues_kept u w ?w'"
      using c by (auto simp: foreign_cues_kept_def get_cue_row_cong [OF cues'] complete_cue_row)
        (simp_all add: get_cue_row_def)
    moreover have "keeps_cue_keys w ?w'"
      by (rule keeps_cue_keys_frame [OF cues'])
        (auto simp: complete_cue_def Let_def cue_key_def keeps_cue_keys_same intro!: keeps_cue_keys_update)
    ultimately show ?thesis by blast
  qed
  then show "foreign_cues_kept u w ?w'" "keeps_cue_keys w ?w'" by auto
qed

lemma create_cue_effect:
  assumes "usr_id usr = u"
  shows "foreign_cues_kept u w (snd (create_cue s usr i d now w))"
    and "cue_keys_ok w \<Longrightarrow> cue_keys_ok (snd (create_cue s usr i d now w))"
proof -
  obtain rep w' where c: "create_cue s usr i d now w = (rep, w')" by (cases "create_cue s usr i d now w")
  have "foreign_cues_kept u w w' \<and> (cue_keys_ok w \<longrightarrow> cue_keys_ok w')"
  proof (cases rep)
    case (Reply r)
    from c [unfolded Reply] obtain ty t b where
      ins: "insert_cue (new_cue i (usr_id usr) d ty t now) b w = (Reply r, w')"
      by (rule create_cue_cases) blast
    obtain c' b' where r: "r = (c', b')" by (cases r)
    from insert_cue_cases(3) [OF ins [unfolded r]] have "foreign_cues_kept u w w'"
      by (auto simp: foreign_cues_kept_def get_cue_row_def find_append)
    with insert_cue_keys [OF ins] show ?thesis by blast
  next
    case (Refused code st)
    with c have "w' = w"
      by (auto simp: create_cue_def insert_cue_def Let_def split: if_splits check.splits option.splits)
    then show ?thesis by (simp add: foreign_cues_same)
  next
    case (Raised err)
    with c have "w' = w"
      by (auto simp: create_cue_def insert_cue_def Let_def split: if_splits check.splits option.splits)
    then show ?thesis by (simp add: foreign_cues_same)
  qed
  with c show "foreign_cues_kept u w (snd (create_cue s usr i d now w))"
    "cue_keys_ok w \<Longrightarrow> cue_keys_ok (snd (create_cue s usr i d now w))" by auto
qed

lemma replace_cue_keys:
  assumes "cue_keys_ok w" and "cue_id c' = i" and "cue_user_id c' = u" and "\<not> cue_name_taken w u (cue_name c') (Some i)"
  shows "cue_keys_ok (update_cue_row i (\<lambda>_. c') w)"
proof -
  let ?g = "\<lambda>r. if cue_id r = i then c' else r"
  let ?nm = "\<lambda>c. (cue_user_id c, cue_name c)"
  have ids: "map cue_id (map ?g (cues w)) = map cue_id (cues w)" using assms(2) by auto
  have inj: "inj_on (\<lambda>c. ?nm (?g c)) (set (cues w))"
  proof (rule inj_onI)
    fix a b
    assume a: "a \<in> set (cues w)" and b: "b \<in> set (cues w)" and eq: "?nm (?g a) = ?nm (?g b)"
    have free: "x \<in> set (cues w) \<Longrightarrow> cue_id x \<noteq> i \<Longrightarrow> ?nm x \<noteq> ?nm c'" for x
      using assms(3,4) by (auto simp: cue_name_taken_def list_ex_iff)
    have "cue_id a = i \<longleftrightarrow> cue_id b = i"
      using eq free [OF a] free [OF b] by (auto split: if_splits)
    with eq have "cue_id a = cue_id b \<or> ?nm a = ?nm b" by (auto split: if_splits)
    with assms(1) a b show "a = b" by (auto simp: cue_keys_ok_def distinct_map dest: inj_onD)
  qed
  have "distinct (cues w)" using assms(1) by (simp add: cue_keys_ok_def distinct_map)
  then have "distinct (map ?nm (map ?g (cues w)))"
    using inj unfolding map_map distinct_map o_def by blast
  moreover have "distinct (map cue_id (map ?g (cues w)))" unfolding ids using assms(1) by (simp add: cue_keys_ok_def)
  ultimately show ?thesis
    by (simp only: cue_keys_ok_def update_cue_row_def update_where_def world.select_convs world.update_convs
        world.surjective simp_thms) (simp add: cue_keys_ok_def)
qed

lemma update_cue_effect:
  "foreign_cues_kept u w (snd (update_cue s u i d now w))"
  "cue_keys_ok w \<Longrightarrow> cue_keys_ok (snd (update_cue s u i d now w))"
proof -
  obtain rep w' where up: "update_cue s u i d now w = (rep, w')" by (cases "update_cue s u i d now w")
  have "foreign_cues_kept u w w' \<and> (cue_keys_ok w \<longrightarrow> cue_keys_ok w')"
  proof (cases rep)
    case (Reply c')
    with up obtain c where own: "owned_cue w u i = Some c" and w': "w' = update_cue_row i (\<lambda>_. c') w"
      and keys: "cue_id c' = i" "cue_user_id c' = u" "\<not> cue_name_taken w u (cue_name c') (Some i)"
      by (auto elim: update_cue_cases)
    have "foreign_cues_kept u w w'"
      unfolding foreign_cues_kept_def
    proof (intro allI impI)
      fix x row
      assume row: "get_cue_row w x = Some row" "cue_user_id row \<noteq> u"
      have "x \<noteq> i" using own row by (auto simp: owned_cue_def split: if_splits)
      then show "get_cue_row w' x = Some row"
        using row(1) keys(1) by (simp add: w' update_cue_row_other)
    qed
    with replace_cue_keys [OF _ keys] show ?thesis by (simp add: w')
  qed (use up in \<open>auto simp: update_cue_def Let_def foreign_cues_same split: option.splits check.splits if_splits\<close>)
  with up show "foreign_cues_kept u w (snd (update_cue s u i d now w))"
    "cue_keys_ok w \<Longrightarrow> cue_keys_ok (snd (update_cue s u i d now w))" by auto
qed

lemma find_filter_other: "p x \<Longrightarrow> find (\<lambda>r. k r = y) rows = Some x \<Longrightarrow> (\<And>r. k r = y \<Longrightarrow> p r) \<Longrightarrow>
    find (\<lambda>r. k r = y) (filter p rows) = Some x"
  by (induction rows) (auto split: if_splits)

lemma delete_cue_effect:
  "foreign_cues_kept u w (snd (delete_cue u i w))"
  "cue_keys_ok w \<Longrightarrow> cue_keys_ok (snd (delete_cue u i w))"
proof -
  show "foreign_cues_kept u w (snd (delete_cue u i w))"
    unfolding foreign_cues_kept_def
  proof (intro allI impI)
    fix x row
    assume row: "get_cue_row w x = Some row" "cue_user_id row \<noteq> u"
    show "get_cue_row (snd (delete_cue u i w)) x = Some row"
    proof (cases "owned_cue w u i")
      case None
      with row show ?thesis by (simp add: delete_cue_def)
    next
      case (Some c)
      then have "x \<noteq> i" using row by (auto simp: owned_cue_def split: option.splits if_splits)
      with Some row(1) show ?thesis
        by (auto simp: delete_cue_def get_cue_row_def intro: find_filter_other dest: find_SomeD)
    qed
  qed
  show "cue_keys_ok w \<Longrightarrow> cue_keys_ok (snd (delete_cue u i w))"
    by (auto simp: delete_cue_def cue_keys_ok_def distinct_map_filter split: option.split)
qed

lemma exec_handlers_cues:
  "cues (snd (claim_next_execution u i now w)) = cues w" "cues (snd (claim_one_execution u e i now w)) = cues w"
  "cues (snd (execution_heartbeat u e x now w)) = cues w" "cues (snd (verify_execution u e vb now w)) = cues w"
  "cues (snd (mark_verification_pending u e now w)) = cues w" "cues (snd (append_evidence pystr u e body now w)) = cues w"
  "cues (snd (live_claim_execution u e tok now w)) = cues w"
  by (simp_all add: claim_next_execution_def apply_claim_def claim_one_execution_def execution_heartbeat_def
      verify_execution_def mark_verification_pending_def append_evidence_def live_claim_execution_def
      commit_live_claim_def Let_def split: option.split live_claim.split)

lemma start_execution_cues: "cues (snd (start_execution c u i t trig meta at now w)) = cues w"
  by (auto simp: start_execution_def Let_def dest: insert_execution_frame split: sum.split)

lemma new_execution_handlers_cues:
  "cues (snd (replay_execution u e i now w)) = cues w" "cues (snd (fire_cue u c at i now w)) = cues w"
  by (auto simp: replay_execution_def fire_cue_def Let_def start_execution_cues split: option.split)

lemma api_step_cues:
  assumes "api_step u w w'"
  shows "foreign_cues_kept u w w' \<and> (cue_keys_ok w \<longrightarrow> cue_keys_ok w')"
  using assms
proof (induction rule: api_step.induct)
  case (outcome u w n ids e b now later)
  show ?case using record_outcome_cues keeps_cue_keys_ok by blast
next
  case (create usr u w s c d now)
  then show ?case using create_cue_effect by blast
next
  case (update u w s c d2 now)
  show ?case using update_cue_effect by blast
next
  case (delete u w c)
  show ?case using delete_cue_effect by blast
qed (simp_all add: foreign_cues_same exec_handlers_cues new_execution_handlers_cues worker_handlers_frame cue_keys_ok_def)

lemma step_cue_keys: "step w w' \<Longrightarrow> cue_keys_ok w \<Longrightarrow> cue_keys_ok w'"
  unfolding step_def using api_step_cues system_step_keeps keeps_cue_keys_ok by blast

subsection \<open>Reachable states\<close>

lemma step_keeps_tables:
  assumes "step w w'" and "exec_keys_ok w" and "attempts_ok w" and "cue_keys_ok w"
  shows "exec_keys_ok w' \<and> attempts_ok w' \<and> cue_keys_ok w'"
  using step_evolves [OF assms(1-3)] step_cue_keys [OF assms(1,4)] assms(2,3) by (simp add: exec_evolves_def)

lemma step_row_kept:
  assumes "step w w'" and "exec_keys_ok w" and "attempts_ok w" and "get_exec_row w e = Some r"
  shows "\<exists>r'. get_exec_row w' e = Some r' \<and> row_evolves r r'"
  using exec_evolves_row_kept [OF step_evolves [OF assms(1-3)] assms(2,4)] by blast

end
