(* ===== verification/Agents.thy ===== *)
theory Agents
  imports CueService
begin

section \<open>Agents and addresses (\<open>src/app/services/agent_service.py\<close>, \<open>src/app/utils/slug.py\<close>)\<close>

text \<open>
  An agent is the identity messages are addressed to: by its opaque id or by the slug form
  \<open>agent_slug@user_slug\<close>. The theory has the derivation of slugs, the two resolvers, the management
  operations and the roster. Random text (\<open>uuid4().hex\<close>, generated ids and secrets) is an argument.
\<close>

subsection \<open>Slugs\<close>

definition slug_char :: "char \<Rightarrow> bool" where
  "slug_char c \<longleftrightarrow> (97 \<le> code_of c \<and> code_of c \<le> 122) \<or> is_digit c"

text \<open>\<open>[^a-z0-9]+\<close> replaced by a hyphen: one hyphen for every maximal run.\<close>

fun sub_runs :: "(char \<Rightarrow> bool) \<Rightarrow> bool \<Rightarrow> string \<Rightarrow> string" where
  "sub_runs p inside [] = []"
| "sub_runs p inside (c # cs) =
     (if p c then (if inside then sub_runs p True cs else CHR ''-'' # sub_runs p True cs)
      else c # sub_runs p False cs)"

definition strip_hyphens :: "string \<Rightarrow> string" where
  "strip_hyphens s = rev (dropWhile (\<lambda>c. c = CHR ''-'') (rev (dropWhile (\<lambda>c. c = CHR ''-'') s)))"

definition normalize :: "string \<Rightarrow> string \<Rightarrow> string" where
  "normalize text fallback =
     (let s = strip_hyphens (sub_runs (\<lambda>c. c = CHR ''-'') False (sub_runs (\<lambda>c. \<not> slug_char c) False (lower text)))
      in if s = [] then fallback else s)"

definition slug_used :: "world \<Rightarrow> uuid \<Rightarrow> string \<Rightarrow> bool" where
  "slug_used w u slug \<longleftrightarrow> list_ex (\<lambda>a. ag_user_id a = u \<and> ag_slug a = slug) (agents w)"

text \<open>The first free candidate of a bounded number of suffixed ones; \<open>hex i\<close> is the \<open>i\<close>th random text.\<close>

fun free_candidate :: "world \<Rightarrow> uuid \<Rightarrow> string \<Rightarrow> string list \<Rightarrow> string option" where
  "free_candidate w u base [] = None"
| "free_candidate w u base (h # hs) =
     (let candidate = take 59 base @ ''-'' @ take 4 h
      in if slug_used w u candidate then free_candidate w u base hs else Some candidate)"

definition derive_agent_slug :: "world \<Rightarrow> uuid \<Rightarrow> string \<Rightarrow> string option \<Rightarrow> (nat \<Rightarrow> string) \<Rightarrow> string" where
  "derive_agent_slug w u display_name explicit hex =
     (case explicit of
        Some s \<Rightarrow> s
      | None \<Rightarrow>
          (let base = take 60 (normalize display_name ''agent'')
           in if \<not> slug_used w u base then base
              else (case free_candidate w u base (map hex [0..<5]) of
                      Some c \<Rightarrow> c
                    | None \<Rightarrow> take 55 base @ ''-'' @ take 8 (hex 5))))"

definition RESERVED_SLUGS :: "string list" where
  "RESERVED_SLUGS = [''admin'', ''api'', ''auth'', ''billing'', ''system'', ''support'']"

subsection \<open>Addresses\<close>

text \<open>\<open>str.isalnum()\<close> on the code points below 256.\<close>

definition is_alnum :: "char \<Rightarrow> bool" where
  "is_alnum c \<longleftrightarrow> (let n = code_of c in
     is_digit c \<or> (65 \<le> n \<and> n \<le> 90) \<or> (97 \<le> n \<and> n \<le> 122) \<or> n \<in> {170, 178, 179, 181, 185, 186, 188, 189, 190}
     \<or> (192 \<le> n \<and> n \<noteq> 215 \<and> n \<noteq> 247))"

definition OPAQUE_ID_LENGTH :: nat where
  "OPAQUE_ID_LENGTH = 16"

definition looks_like_opaque_id :: "string \<Rightarrow> bool" where
  "looks_like_opaque_id addr \<longleftrightarrow>
     length addr = OPAQUE_ID_LENGTH \<and> starts_with ''agt_'' addr \<and> list_all is_alnum (drop 4 addr)"

text \<open>\<open>addr.split("@", 1)\<close> of an address that has an at sign.\<close>

definition split_at_sign :: "string \<Rightarrow> string \<times> string" where
  "split_at_sign addr = (takeWhile (\<lambda>c. c \<noteq> CHR ''@'') addr, drop 1 (dropWhile (\<lambda>c. c \<noteq> CHR ''@'') addr))"

text \<open>The join with the users table on the owner, restricted to a user slug.\<close>

definition owner_has_slug :: "world \<Rightarrow> agent \<Rightarrow> string \<Rightarrow> bool" where
  "owner_has_slug w a user_slug \<longleftrightarrow> list_ex (\<lambda>u. usr_id u = ag_user_id a \<and> usr_slug u = user_slug) (users w)"

definition find_agent :: "world \<Rightarrow> string \<Rightarrow> (agent \<Rightarrow> bool) \<Rightarrow> agent reply" where
  "find_agent w addr extra =
     (let found = (\<lambda>p. case find (\<lambda>a. p a \<and> extra a) (agents w) of
                         None \<Rightarrow> Refused ''agent_not_found'' 404 | Some a \<Rightarrow> Reply a)
      in if looks_like_opaque_id addr then found (\<lambda>a. ag_id a = addr)
         else if CHR ''@'' \<in> set addr then
           (let (agent_slug, user_slug) = split_at_sign addr
            in if agent_slug = [] \<or> user_slug = [] then Refused ''invalid_agent_address'' 400
               else found (\<lambda>a. owner_has_slug w a user_slug \<and> ag_slug a = agent_slug))
         else Refused ''invalid_agent_address'' 400)"

definition resolve_address :: "world \<Rightarrow> string \<Rightarrow> agent reply" where
  "resolve_address w addr = find_agent w addr (\<lambda>a. ag_deleted_at a = None)"

definition get_agent_owned :: "world \<Rightarrow> uuid \<Rightarrow> bool \<Rightarrow> string \<Rightarrow> agent reply" where
  "get_agent_owned w u include_deleted addr =
     find_agent w addr (\<lambda>a. ag_user_id a = u \<and> (include_deleted \<or> ag_deleted_at a = None))"

subsection \<open>Requests and answers\<close>

record agent_create =
  ac_slug :: "string option"
  ac_display_name :: string
  ac_webhook_url :: "string option"
  ac_metadata :: json

text \<open>\<open>^[a-z0-9](?:[a-z0-9-]{0,62}[a-z0-9])?$\<close>\<close>

definition slug_pattern :: "string \<Rightarrow> bool" where
  "slug_pattern s \<longleftrightarrow> s \<noteq> [] \<and> length s \<le> 64 \<and> slug_char (hd s) \<and> slug_char (last s)
     \<and> list_all (\<lambda>c. slug_char c \<or> c = CHR ''-'') s"

definition agent_create_ok :: "agent_create \<Rightarrow> bool" where
  "agent_create_ok d \<longleftrightarrow> (case ac_slug d of None \<Rightarrow> True | Some s \<Rightarrow> slug_pattern s)
     \<and> 1 \<le> length (ac_display_name d) \<and> length (ac_display_name d) \<le> 255
     \<and> (case ac_webhook_url d of None \<Rightarrow> True | Some x \<Rightarrow> length x \<le> 2048)"

text \<open>In an update \<open>au_webhook_url\<close> is \<open>None\<close> when the field is absent and \<open>Some None\<close> for an explicit null.\<close>

record agent_update =
  au_display_name :: "string option"
  au_webhook_url :: "string option option"
  au_status :: "string option"
  au_metadata :: "json option"

record agent_response =
  ar_id :: string
  ar_user_id :: uuid
  ar_slug :: string
  ar_display_name :: string
  ar_webhook_url :: "string option"
  ar_webhook_secret :: "string option"
  ar_metadata :: json
  ar_status :: string
  ar_deleted_at :: "time option"

definition agent_to_response :: "bool \<Rightarrow> agent \<Rightarrow> agent_response" where
  "agent_to_response include_secret a =
     \<lparr>ar_id = ag_id a, ar_user_id = ag_user_id a, ar_slug = ag_slug a, ar_display_name = ag_display_name a,
      ar_webhook_url = ag_webhook_url a,
      ar_webhook_secret = (if include_secret then ag_webhook_secret a else None),
      ar_metadata = (if json_truthy (ag_metadata a) then ag_metadata a else JObj []), ar_status = ag_status a,
      ar_deleted_at = ag_deleted_at a\<rparr>"

subsection \<open>Operations\<close>

text \<open>What the table stores, and its CHECK constraint on URL and secret.\<close>

definition agent_storable :: "agent \<Rightarrow> bool" where
  "agent_storable a \<longleftrightarrow> length (ag_slug a) \<le> 64 \<and> length (ag_display_name a) \<le> 255
     \<and> \<not> has_nul (ag_display_name a) \<and> \<not> has_nul (ag_slug a) \<and> \<not> contains_null_byte (ag_metadata a)
     \<and> (case ag_webhook_url a of None \<Rightarrow> True | Some x \<Rightarrow> \<not> has_nul x)
     \<and> (case ag_webhook_secret a of None \<Rightarrow> True | Some x \<Rightarrow> length x \<le> 80 \<and> \<not> has_nul x)"

definition webhook_paired :: "agent \<Rightarrow> bool" where
  "webhook_paired a \<longleftrightarrow> (ag_webhook_url a = None) = (ag_webhook_secret a = None)"

definition create_agent ::
  "site \<Rightarrow> uuid \<Rightarrow> agent_create \<Rightarrow> string \<Rightarrow> string \<Rightarrow> (nat \<Rightarrow> string) \<Rightarrow> time \<Rightarrow> world
     \<Rightarrow> (agent \<times> string option) reply \<times> world" where
  "create_agent s u d new_id new_secret hex now w =
     (if (case ac_slug d of None \<Rightarrow> False | Some x \<Rightarrow> x \<in> set RESERVED_SLUGS) then (Refused ''reserved_slug'' 400, w)
      else if truthy (ac_webhook_url d)
           \<and> \<not> fst (validate_callback_url (st_parse s) (st_resolve s) (the (ac_webhook_url d)) (st_env s))
        then (Refused ''invalid_callback_url'' 400, w)
      else
        (let slug0 = derive_agent_slug w u (ac_display_name d) (ac_slug d) hex;
             slug = (if slug0 \<in> set RESERVED_SLUGS then take 59 slug0 @ ''-'' @ take 4 (hex 6) else slug0);
             secret = (if truthy (ac_webhook_url d) then Some new_secret else None);
             a = \<lparr>ag_id = new_id, ag_user_id = u, ag_slug = slug, ag_display_name = ac_display_name d,
                  ag_webhook_url = ac_webhook_url d, ag_webhook_secret = secret,
                  ag_metadata = (if json_truthy (ac_metadata d) then ac_metadata d else JObj []),
                  ag_status = ''online'', ag_last_seen_at = None, ag_deleted_at = None,
                  ag_created_at = now, ag_updated_at = now\<rparr>
         in if \<not> agent_storable a then (Raised DataError, w)
            else if \<not> webhook_paired a \<or> new_id \<in> ag_id ` set (agents w) then (Raised IntegrityError, w)
            else if slug_used w u slug then (Refused ''slug_taken'' 409, w)
            else (Reply (a, secret), w\<lparr>agents := agents w @ [a]\<rparr>)))"

definition list_agents :: "world \<Rightarrow> uuid \<Rightarrow> string option \<Rightarrow> bool \<Rightarrow> nat \<Rightarrow> nat \<Rightarrow> (agent_response list \<times> nat) reply" where
  "list_agents w u status include_deleted limit offset =
     (if (case status of None \<Rightarrow> False | Some x \<Rightarrow> x \<notin> {''online'', ''offline'', ''away''})
        then Refused ''invalid_status'' 400
      else
        (let rows = filter (\<lambda>a. ag_user_id a = u \<and> (include_deleted \<or> ag_deleted_at a = None)
                      \<and> (case status of None \<Rightarrow> True | Some x \<Rightarrow> ag_status a = x)) (agents w)
         in Reply (map (agent_to_response False) (page limit offset (newest_first ag_created_at rows)), length rows)))"

definition update_agent_row :: "string \<Rightarrow> (agent \<Rightarrow> agent) \<Rightarrow> world \<Rightarrow> world" where
  "update_agent_row i f w = w\<lparr>agents := update_where (\<lambda>a. ag_id a = i) f (agents w)\<rparr>"

text \<open>
  The assignments of an update; the URL check raises before the commit. \<open>updated_at\<close> is set by the
  UPDATE statement, which is only issued when a column changed.
\<close>

definition changed_agent :: "site \<Rightarrow> agent_update \<Rightarrow> string \<Rightarrow> agent \<Rightarrow> agent check" where
  "changed_agent s d new_secret a =
     (let a1 = (case au_display_name d of None \<Rightarrow> a | Some x \<Rightarrow> a\<lparr>ag_display_name := x\<rparr>);
          a2 = (case au_status d of None \<Rightarrow> a1 | Some x \<Rightarrow> a1\<lparr>ag_status := x\<rparr>);
          a3 = (case au_metadata d of None \<Rightarrow> a2 | Some x \<Rightarrow> a2\<lparr>ag_metadata := x\<rparr>)
      in case au_webhook_url d of
           None \<Rightarrow> Pass a3
         | Some None \<Rightarrow> Pass (a3\<lparr>ag_webhook_url := None, ag_webhook_secret := None\<rparr>)
         | Some (Some url) \<Rightarrow>
             (case check_url s url of
                Error code st \<Rightarrow> Error code st
              | Boom err \<Rightarrow> Boom err
              | Pass _ \<Rightarrow> Pass (a3\<lparr>ag_webhook_url := Some url,
                  ag_webhook_secret := Some (case ag_webhook_secret a3 of None \<Rightarrow> new_secret | Some x \<Rightarrow> x)\<rparr>)))"

definition update_agent ::
  "site \<Rightarrow> uuid \<Rightarrow> string \<Rightarrow> agent_update \<Rightarrow> string \<Rightarrow> time \<Rightarrow> world \<Rightarrow> agent_response reply \<times> world" where
  "update_agent s u addr d new_secret now w =
     (case get_agent_owned w u False addr of
        Refused code st \<Rightarrow> (Refused code st, w)
      | Raised err \<Rightarrow> (Raised err, w)
      | Reply a \<Rightarrow>
          (case changed_agent s d new_secret a of
             Error code st \<Rightarrow> (Refused code st, w)
           | Boom err \<Rightarrow> (Raised err, w)
           | Pass a' \<Rightarrow>
               (let a'' = (if a' = a then a else a'\<lparr>ag_updated_at := now\<rparr>)
                in if \<not> agent_storable a'' then (Raised DataError, w)
                   else (Reply (agent_to_response False a''), update_agent_row (ag_id a) (\<lambda>_. a'') w))))"

definition soft_delete_agent :: "uuid \<Rightarrow> string \<Rightarrow> time \<Rightarrow> world \<Rightarrow> unit reply \<times> world" where
  "soft_delete_agent u addr now w =
     (case get_agent_owned w u False addr of
        Refused code st \<Rightarrow> (Refused code st, w)
      | Raised err \<Rightarrow> (Raised err, w)
      | Reply a \<Rightarrow>
          (Reply (), update_agent_row (ag_id a) (\<lambda>x. x\<lparr>ag_deleted_at := Some now, ag_updated_at := now\<rparr>) w))"

definition rotate_webhook_secret :: "bool \<Rightarrow> uuid \<Rightarrow> string \<Rightarrow> string \<Rightarrow> time \<Rightarrow> world \<Rightarrow> string reply \<times> world" where
  "rotate_webhook_secret confirmed u addr new_secret now w =
     (if \<not> confirmed then (Refused ''confirmation_required'' 400, w)
      else
        (case get_agent_owned w u False addr of
           Refused code st \<Rightarrow> (Refused code st, w)
         | Raised err \<Rightarrow> (Raised err, w)
         | Reply a \<Rightarrow>
             if ag_webhook_url a = None then (Refused ''no_webhook_url'' 409, w)
             else (Reply new_secret, update_agent_row (ag_id a)
                     (\<lambda>x. x\<lparr>ag_webhook_secret := Some new_secret, ag_updated_at := now\<rparr>) w)))"

definition get_webhook_secret :: "world \<Rightarrow> uuid \<Rightarrow> string \<Rightarrow> string reply" where
  "get_webhook_secret w u addr =
     (case get_agent_owned w u False addr of
        Refused code st \<Rightarrow> Refused code st
      | Raised err \<Rightarrow> Raised err
      | Reply a \<Rightarrow> (case ag_webhook_secret a of None \<Rightarrow> Refused ''no_webhook_secret'' 404 | Some x \<Rightarrow> Reply x))"

definition get_agent :: "world \<Rightarrow> uuid \<Rightarrow> bool \<Rightarrow> string \<Rightarrow> agent_response reply" where
  "get_agent w u include_deleted addr =
     (case get_agent_owned w u include_deleted addr of
        Refused code st \<Rightarrow> Refused code st
      | Raised err \<Rightarrow> Raised err
      | Reply a \<Rightarrow> Reply (agent_to_response False a))"

definition touch_last_seen :: "string \<Rightarrow> time \<Rightarrow> world \<Rightarrow> world" where
  "touch_last_seen i now w = update_agent_row i (\<lambda>a. a\<lparr>ag_last_seen_at := Some now, ag_updated_at := now\<rparr>) w"
subsection \<open>The roster\<close>

record roster_entry =
  re_name :: string
  re_display_name :: string
  re_description :: "string option"
  re_online :: bool
  re_last_seen_relative :: string
  re_preferred_contact :: string
  re_status :: string

definition format_relative :: "time \<Rightarrow> time option \<Rightarrow> string" where
  "format_relative now last_seen_at =
     (case last_seen_at of
        None \<Rightarrow> ''never''
      | Some t \<Rightarrow>
          (let delta = now - t in
           if delta < seconds 60 then ''active now''
           else if delta < seconds 3600 then int_str (delta div seconds 60) @ ''m ago''
           else if delta < seconds 86400 then int_str (delta div seconds 3600) @ ''h ago''
           else int_str (delta div seconds 86400) @ ''d ago''))"

definition derive_online_state :: "time \<Rightarrow> time option \<Rightarrow> string \<Rightarrow> bool \<times> string" where
  "derive_online_state now last_seen_at asserted_status =
     (if asserted_status \<in> {''away'', ''offline''} then (False, asserted_status)
      else
        (case last_seen_at of
           None \<Rightarrow> (False, ''offline'')
         | Some t \<Rightarrow>
             if now - t \<le> seconds 300 then (True, ''online'')
             else if now - t \<le> seconds 1800 then (False, ''away'')
             else (False, ''offline'')))"

definition bucketed_seen :: "time option \<Rightarrow> string" where
  "bucketed_seen last_seen_at =
     (case last_seen_at of
        None \<Rightarrow> ''''
      | Some t \<Rightarrow> (let epoch = whole_seconds t in int_str (epoch - epoch mod 300)))"

definition roster_description :: "agent \<Rightarrow> string option" where
  "roster_description a = (case json_get (ag_metadata a) ''description'' of Some (JStr s) \<Rightarrow> Some s | _ \<Rightarrow> None)"

definition preferred_contact :: "agent \<Rightarrow> string" where
  "preferred_contact a = (if truthy (ag_webhook_url a) then ''sync'' else ''async'')"

definition build_roster_entry :: "time \<Rightarrow> agent \<Rightarrow> roster_entry \<times> string" where
  "build_roster_entry now a =
     (let (online, status) = derive_online_state now (ag_last_seen_at a) (ag_status a);
          description = roster_description a
      in (\<lparr>re_name = ag_slug a, re_display_name = ag_display_name a, re_description = description,
           re_online = online, re_last_seen_relative = format_relative now (ag_last_seen_at a),
           re_preferred_contact = preferred_contact a, re_status = status\<rparr>,
          intercalate ''|'' [ag_slug a, ag_display_name a, (case description of None \<Rightarrow> '''' | Some s \<Rightarrow> s),
            (if online then ''1'' else ''0''), preferred_contact a, status, bucketed_seen (ag_last_seen_at a)]))"

text \<open>SHA-256 (\<open>sha\<close>, the hexadecimal digest) is an argument.\<close>

definition compute_roster_etag :: "(string \<Rightarrow> string) \<Rightarrow> string list \<Rightarrow> string" where
  "compute_roster_etag sha parts = ''W/'' @ [CHR 0x22] @ take 16 (sha (intercalate [CHR 0x0A] parts)) @ [CHR 0x22]"

definition list_roster :: "(string \<Rightarrow> string) \<Rightarrow> uuid \<Rightarrow> time \<Rightarrow> world \<Rightarrow> roster_entry list \<times> string" where
  "list_roster sha u now w =
     (let rows = sort_key ag_slug (filter (\<lambda>a. ag_user_id a = u \<and> ag_deleted_at a = None) (agents w));
          built = map (build_roster_entry now) rows
      in (map fst built, compute_roster_etag sha (map snd built)))"

text \<open>The conditional GET: \<open>None\<close> is the answer 304.\<close>

definition etag_matches :: "string option \<Rightarrow> string \<Rightarrow> bool" where
  "etag_matches header server_etag = (case header of None \<Rightarrow> False | Some h \<Rightarrow> h \<noteq> [] \<and> strip h = server_etag)"

definition get_roster :: "(string \<Rightarrow> string) \<Rightarrow> uuid \<Rightarrow> string option \<Rightarrow> time \<Rightarrow> world \<Rightarrow> roster_entry list option \<times> string" where
  "get_roster sha u if_none_match now w =
     (let (entries, etag) = list_roster sha u now w
      in (if etag_matches if_none_match etag then None else Some entries, etag))"

text \<open>
  The tag hides the clock: it changes with time only where an agent crosses one of the
  thresholds of the derived status.
\<close>

lemma roster_etag_stable:
  assumes "\<And>a. a \<in> set (agents w) \<Longrightarrow>
      derive_online_state t1 (ag_last_seen_at a) (ag_status a) = derive_online_state t2 (ag_last_seen_at a) (ag_status a)"
  shows "snd (list_roster sha u t1 w) = snd (list_roster sha u t2 w)"
proof -
  let ?rows = "sort_key ag_slug (filter (\<lambda>a. ag_user_id a = u \<and> ag_deleted_at a = None) (agents w))"
  have "map (snd \<circ> build_roster_entry t1) ?rows = map (snd \<circ> build_roster_entry t2) ?rows"
    using assms by (intro map_cong) (auto simp: build_roster_entry_def split_def Let_def)
  then show ?thesis by (simp add: list_roster_def Let_def del: map_eq_conv)
qed

subsection \<open>Derived slugs\<close>

abbreviation slug_text :: "string \<Rightarrow> bool" where
  "slug_text s \<equiv> list_all (\<lambda>c. slug_char c \<or> c = CHR ''-'') s"

lemma sub_runs_chars: "list_all (\<lambda>c. \<not> p c \<or> c = CHR ''-'') (sub_runs p inside s)"
  by (induction s arbitrary: inside) auto

lemma sub_runs_subset: "c \<in> set (sub_runs p inside s) \<Longrightarrow> c \<in> set s \<or> c = CHR ''-''"
  by (induction s arbitrary: inside) (auto split: if_splits)

lemma set_strip_hyphens: "set (strip_hyphens s) \<subseteq> set s"
  by (auto simp: strip_hyphens_def dest!: set_dropWhileD)

lemma normalize_slug_text: "slug_text fallback \<Longrightarrow> slug_text (normalize text fallback)"
proof -
  let ?s = "sub_runs (\<lambda>c. \<not> slug_char c) False (lower text)"
  let ?t = "sub_runs (\<lambda>c. c = CHR ''-'') False ?s"
  have "slug_text ?s" using sub_runs_chars [of "\<lambda>c. \<not> slug_char c"] by simp
  then have "slug_text ?t" unfolding list_all_iff using sub_runs_subset by blast
  then have "slug_text (strip_hyphens ?t)" unfolding list_all_iff using set_strip_hyphens by blast
  moreover assume "slug_text fallback"
  ultimately show ?thesis by (simp add: normalize_def Let_def)
qed

lemma normalize_nonempty: "fallback \<noteq> [] \<Longrightarrow> normalize text fallback \<noteq> []"
  by (simp add: normalize_def Let_def)

lemma slug_text_take: "slug_text s \<Longrightarrow> slug_text (take n s)"
  by (auto simp: list_all_iff dest: in_set_takeD)

lemma free_candidate_shape:
  assumes "slug_text base" and "list_all slug_text hs" and "free_candidate w u base hs = Some c"
  shows "slug_text c \<and> length c \<le> 64 \<and> c \<noteq> [] \<and> \<not> slug_used w u c"
  using assms(2,3)
proof (induction hs)
  case Nil
  then show ?case by simp
next
  case (Cons h hs)
  then show ?case
    using slug_text_take [OF assms(1), of 59] slug_text_take [of h 4]
    by (auto simp: Let_def split: if_splits)
qed

lemma derive_agent_slug_shape:
  assumes "\<And>i. slug_text (hex i)"
  shows "slug_text (derive_agent_slug w u name None hex)
    \<and> length (derive_agent_slug w u name None hex) \<le> 64 \<and> derive_agent_slug w u name None hex \<noteq> []"
proof -
  let ?b = "take 60 (normalize name ''agent'')"
  have b: "slug_text ?b" by (intro slug_text_take normalize_slug_text) (simp add: slug_char_def is_digit_def)
  have ne: "?b \<noteq> []" by (simp add: normalize_nonempty)
  have last_resort: "slug_text (take 55 ?b @ ''-'' @ take 8 (hex 5))"
    using slug_text_take [OF b, of 55] slug_text_take [OF assms] by simp
  have hs: "list_all slug_text (map hex [0..<5])" using assms by (simp add: list_all_iff)
  show ?thesis
    using b ne last_resort free_candidate_shape [OF b hs]
    by (auto simp: derive_agent_slug_def Let_def split: option.split)
qed

text \<open>
  Cutting to 60 characters happens after the hyphens are trimmed, so a derived slug may end in a
  hyphen, which the pattern for given slugs excludes.
\<close>

lemma derived_slug_trailing_hyphen:
  "\<not> slug_pattern (derive_agent_slug empty_world 7 (replicate 59 (CHR ''x'') @ '' y'') None hex)"
  by code_simp

subsection \<open>Keys, ownership and the pairing of URL and secret\<close>

definition agent_keys_ok :: "world \<Rightarrow> bool" where
  "agent_keys_ok w \<longleftrightarrow> distinct (map ag_id (agents w))
     \<and> distinct (map (\<lambda>a. (ag_user_id a, ag_slug a)) (agents w)) \<and> list_all webhook_paired (agents w)"

text \<open>The contract of an UPDATE of one agent: it keeps id, owner and slug, and the pairing.\<close>

locale agent_row_update = keyed_update ag_id upd for upd :: "agent \<Rightarrow> agent" +
  assumes upd_owner: "ag_user_id (upd a) = ag_user_id a"
    and upd_slug: "ag_slug (upd a) = ag_slug a"
    and upd_paired: "webhook_paired a \<Longrightarrow> webhook_paired (upd a)"
begin

lemma update_keeps_agent_keys: "agent_keys_ok w \<Longrightarrow> agent_keys_ok (update_agent_row i upd w)"
proof -
  have "map ag_id (update_where p upd rows) = map ag_id rows"
    "map (\<lambda>a. (ag_user_id a, ag_slug a)) (update_where p upd rows) = map (\<lambda>a. (ag_user_id a, ag_slug a)) rows"
    for p rows by (rule keys_kept, rule map_update_where, simp add: upd_owner upd_slug)
  moreover have "list_all webhook_paired rows \<Longrightarrow> list_all webhook_paired (update_where p upd rows)" for p rows
    by (induction rows) (auto simp: upd_paired)
  moreover assume "agent_keys_ok w"
  ultimately show ?thesis by (simp add: agent_keys_ok_def update_agent_row_def)
qed

end

interpretation delete_row: agent_row_update "\<lambda>a. a\<lparr>ag_deleted_at := Some now, ag_updated_at := now\<rparr>" for now
  by unfold_locales (simp_all add: webhook_paired_def)

interpretation seen_row: agent_row_update "\<lambda>a. a\<lparr>ag_last_seen_at := Some now, ag_updated_at := now\<rparr>" for now
  by unfold_locales (simp_all add: webhook_paired_def)

lemma find_agent_SomeD:
  "find_agent w addr extra = Reply a \<Longrightarrow> a \<in> set (agents w) \<and> extra a"
  by (auto simp: find_agent_def Let_def split_def split: if_splits option.splits dest: find_SomeD)

lemma get_agent_owned_SomeD:
  "get_agent_owned w u del addr = Reply a \<Longrightarrow>
   a \<in> set (agents w) \<and> ag_user_id a = u \<and> (del \<or> ag_deleted_at a = None)"
  unfolding get_agent_owned_def by (drule find_agent_SomeD) simp

lemma changed_agent_keeps:
  assumes "changed_agent s d sec a = Pass a'"
  shows "ag_id a' = ag_id a \<and> ag_user_id a' = ag_user_id a \<and> ag_slug a' = ag_slug a
    \<and> (webhook_paired a \<longrightarrow> webhook_paired a')"
  using assms
  by (auto simp: changed_agent_def Let_def webhook_paired_def split: option.splits check.splits)

text \<open>An agent row may be replaced as a whole when key, owner, slug and pairing survive.\<close>

lemma replace_agent_keeps_keys:
  assumes "agent_keys_ok w" and "a \<in> set (agents w)" and "ag_id b = ag_id a" and "ag_user_id b = ag_user_id a"
    and "ag_slug b = ag_slug a" and "webhook_paired a \<longrightarrow> webhook_paired b"
  shows "agent_keys_ok (update_agent_row (ag_id a) (\<lambda>_. b) w)"
proof -
  have one: "r = a" if "r \<in> set (agents w)" "ag_id r = ag_id a" for r
    using assms(1,2) that by (auto simp: agent_keys_ok_def distinct_map dest: inj_onD)
  have same: "update_where (\<lambda>r. ag_id r = ag_id a) (\<lambda>_. b) (agents w) = map (\<lambda>r. if r = a then b else r) (agents w)"
    unfolding update_where_def using one assms(2) by (intro map_cong) auto
  have "map ag_id (map (\<lambda>r. if r = a then b else r) (agents w)) = map ag_id (agents w)"
    "map (\<lambda>a. (ag_user_id a, ag_slug a)) (map (\<lambda>r. if r = a then b else r) (agents w)) =
     map (\<lambda>a. (ag_user_id a, ag_slug a)) (agents w)"
    using assms(3-5) by auto
  moreover have "list_all webhook_paired (map (\<lambda>r. if r = a then b else r) (agents w))"
    using assms(1,2,6) by (auto simp: agent_keys_ok_def list_all_iff)
  ultimately show ?thesis using assms(1) by (simp add: agent_keys_ok_def update_agent_row_def same del: map_map map_eq_conv)
qed

lemma update_agent_keeps_keys:
  assumes "agent_keys_ok w"
  shows "agent_keys_ok (snd (update_agent s u addr d sec now w))"
proof -
  have "agent_keys_ok (update_agent_row (ag_id a) (\<lambda>_. if b = a then a else b\<lparr>ag_updated_at := now\<rparr>) w)"
    if "get_agent_owned w u False addr = Reply a" "changed_agent s d sec a = Pass b" for a b
    using replace_agent_keeps_keys [OF assms, of a] get_agent_owned_SomeD [OF that(1)] changed_agent_keeps [OF that(2)]
    by (auto simp: webhook_paired_def)
  with assms show ?thesis by (auto simp: update_agent_def Let_def split: reply.split check.split)
qed

lemma soft_delete_keeps_keys: "agent_keys_ok w \<Longrightarrow> agent_keys_ok (snd (soft_delete_agent u addr now w))"
  by (auto simp: soft_delete_agent_def split: reply.split intro: delete_row.update_keeps_agent_keys)

lemma touch_keeps_keys: "agent_keys_ok w \<Longrightarrow> agent_keys_ok (touch_last_seen i now w)"
  unfolding touch_last_seen_def by (rule seen_row.update_keeps_agent_keys)

lemma rotate_keeps_keys:
  assumes "agent_keys_ok w"
  shows "agent_keys_ok (snd (rotate_webhook_secret c u addr sec now w))"
proof -
  have "agent_keys_ok (update_agent_row (ag_id a) (\<lambda>x. x\<lparr>ag_webhook_secret := Some sec, ag_updated_at := now\<rparr>) w)"
    if "a \<in> set (agents w)" "ag_webhook_url a = Some url" for a url
  proof -
    have one: "r = a" if "r \<in> set (agents w)" "ag_id r = ag_id a" for r
      using assms \<open>a \<in> set (agents w)\<close> that by (auto simp: agent_keys_ok_def distinct_map dest: inj_onD)
    then have "update_agent_row (ag_id a) (\<lambda>x. x\<lparr>ag_webhook_secret := Some sec, ag_updated_at := now\<rparr>) w =
        update_agent_row (ag_id a) (\<lambda>_. a\<lparr>ag_webhook_secret := Some sec, ag_updated_at := now\<rparr>) w"
      unfolding update_agent_row_def update_where_def
      by (intro arg_cong [where f = "\<lambda>rows. w\<lparr>agents := rows\<rparr>"] map_cong) auto
    with replace_agent_keeps_keys [OF assms that(1), of "a\<lparr>ag_webhook_secret := Some sec, ag_updated_at := now\<rparr>"] that(2)
    show ?thesis by (simp add: webhook_paired_def)
  qed
  with assms show ?thesis
    by (auto simp: rotate_webhook_secret_def split: reply.split dest: get_agent_owned_SomeD)
qed

lemma create_agent_ReplyD:
  assumes "create_agent s u d i sec hex now w = (Reply (a, x), w')"
  shows "agents w' = agents w @ [a] \<and> users w' = users w \<and> ag_id a = i \<and> ag_user_id a = u \<and> ag_deleted_at a = None
    \<and> \<not> slug_used w u (ag_slug a) \<and> i \<notin> ag_id ` set (agents w) \<and> webhook_paired a \<and> x = ag_webhook_secret a
    \<and> (\<exists>slug0. slug0 = derive_agent_slug w u (ac_display_name d) (ac_slug d) hex
        \<and> ag_slug a = (if slug0 \<in> set RESERVED_SLUGS then take 59 slug0 @ ''-'' @ take 4 (hex 6) else slug0))"
  using assms by (auto simp: create_agent_def Let_def split: if_splits)

lemma create_agent_keeps_keys:
  assumes "create_agent s u d i sec hex now w = (Reply (a, x), w')" and "agent_keys_ok w"
  shows "agent_keys_ok w'"
  using create_agent_ReplyD [OF assms(1)] assms(2)
  by (auto simp: agent_keys_ok_def slug_used_def list_ex_iff)

subsection \<open>Properties\<close>

lemma slug_char_not_at: "slug_text s \<Longrightarrow> CHR ''@'' \<notin> set s"
  by (auto simp: list_all_iff slug_char_def is_digit_def)

lemma split_slug_address:
  assumes "CHR ''@'' \<notin> set s"
  shows "split_at_sign (s @ ''@'' @ t) = (s, t)" and "\<not> looks_like_opaque_id (s @ ''@'' @ t)"
proof -
  have ne: "list_all (\<lambda>c. c \<noteq> CHR ''@'') s" using assms by (auto simp: list_all_iff)
  then show "split_at_sign (s @ ''@'' @ t) = (s, t)"
    by (induction s) (auto simp: split_at_sign_def)
  show "\<not> looks_like_opaque_id (s @ ''@'' @ t)"
  proof (cases "4 \<le> length s")
    case True
    then have "CHR ''@'' \<in> set (drop 4 (s @ ''@'' @ t))" by simp
    moreover have "\<not> is_alnum (CHR ''@'')" by code_simp
    ultimately show ?thesis unfolding looks_like_opaque_id_def list_all_iff by blast
  next
    case False
    have len: "length ''agt_'' = 4" by simp
    have "take (length ''agt_'') (s @ ''@'' @ t) \<noteq> ''agt_''"
      unfolding len
    proof
      assume e: "take 4 (s @ ''@'' @ t) = ''agt_''"
      from False have "CHR ''@'' \<in> set (take 4 (s @ ''@'' @ t))" by (cases "4 - length s") auto
      with e show False by simp
    qed
    then show ?thesis unfolding looks_like_opaque_id_def starts_with_def by blast
  qed
qed

lemma find_unique:
  "distinct (map key rows) \<Longrightarrow> a \<in> set rows \<Longrightarrow>
   find (\<lambda>x. key x = key a \<and> extra x) rows = (if extra a then Some a else None)"
  by (induction rows) (auto simp: find_None_iff image_iff)

lemma resolve_by_id:
  assumes "agent_keys_ok w" and "a \<in> set (agents w)" and "looks_like_opaque_id (ag_id a)"
  shows "find_agent w (ag_id a) extra = (if extra a then Reply a else Refused ''agent_not_found'' 404)"
  using assms find_unique [of ag_id "agents w" a extra] by (simp add: find_agent_def Let_def agent_keys_ok_def)

lemma resolve_by_slug:
  assumes "agent_keys_ok w" and "a \<in> set (agents w)" and "slug_text (ag_slug a)" and "ag_slug a \<noteq> []"
    and "usr \<in> set (users w)" and "usr_id usr = ag_user_id a" and "usr_slug usr \<noteq> []"
    and "distinct (map usr_slug (users w))"
  shows "find_agent w (ag_slug a @ ''@'' @ usr_slug usr) extra = (if extra a then Reply a else Refused ''agent_not_found'' 404)"
proof -
  have owner: "owner_has_slug w x (usr_slug usr) \<longleftrightarrow> ag_user_id x = ag_user_id a" for x
  proof -
    have "v = usr" if "v \<in> set (users w)" "usr_slug v = usr_slug usr" for v
      using assms(5,8) that by (auto simp: distinct_map dest: inj_onD)
    then show ?thesis using assms(5,6) unfolding owner_has_slug_def list_ex_iff by metis
  qed
  have f: "find (\<lambda>x. (owner_has_slug w x (usr_slug usr) \<and> ag_slug x = ag_slug a) \<and> extra x) (agents w) =
      (if extra a then Some a else None)"
    using find_unique [of "\<lambda>x. (ag_user_id x, ag_slug x)" "agents w" a extra] assms(1,2)
    unfolding owner agent_keys_ok_def by simp
  have at: "CHR ''@'' \<in> set (ag_slug a @ ''@'' @ usr_slug usr)" by simp
  note parts = split_slug_address [OF slug_char_not_at [OF assms(3)], of "usr_slug usr"]
  show ?thesis unfolding find_agent_def Let_def if_not_P [OF parts(2)] if_P [OF at] parts(1) prod.case f
    using assms(4,7) by simp
qed

lemma create_agent_slug_shape:
  assumes "create_agent s u d i sec hex now w = (Reply (a, x), w')" and "agent_create_ok d" and "\<And>n. slug_text (hex n)"
  shows "slug_text (ag_slug a) \<and> ag_slug a \<noteq> []"
proof -
  have "slug_text (derive_agent_slug w u (ac_display_name d) (ac_slug d) hex)
      \<and> derive_agent_slug w u (ac_display_name d) (ac_slug d) hex \<noteq> []"
  proof (cases "ac_slug d")
    case None
    then show ?thesis using derive_agent_slug_shape [of hex w u "ac_display_name d", OF assms(3)] by simp
  next
    case (Some x)
    with assms(2) show ?thesis by (simp add: derive_agent_slug_def agent_create_ok_def slug_pattern_def)
  qed
  with create_agent_ReplyD [OF assms(1)] slug_text_take [OF assms(3), of 4] slug_text_take show ?thesis
    by (auto simp: Let_def)
qed

text \<open>
  Addresses: an agent just created is reached by its id and by \<open>slug@user\<close>, for every way its
  slug came about (given, derived, suffixed); after its owner has deleted it, it is reached by
  neither, while the owner still finds it when deleted agents are included.
\<close>

theorem agent_addresses:
  assumes "create_agent s u d i sec hex now w = (Reply (a, x), w')" and "agent_create_ok d"
    and "\<And>n. slug_text (hex n)" and "looks_like_opaque_id i" and "agent_keys_ok w"
    and "usr \<in> set (users w)" and "usr_id usr = u" and "usr_slug usr \<noteq> []" and "distinct (map usr_slug (users w))"
  shows "resolve_address w' i = Reply a \<and> resolve_address w' (ag_slug a @ ''@'' @ usr_slug usr) = Reply a
    \<and> (let w2 = snd (soft_delete_agent u i t w') in
         resolve_address w2 i = Refused ''agent_not_found'' 404
         \<and> resolve_address w2 (ag_slug a @ ''@'' @ usr_slug usr) = Refused ''agent_not_found'' 404
         \<and> (\<exists>b. get_agent_owned w2 u True i = Reply b \<and> ag_slug b = ag_slug a))"
proof -
  note c = create_agent_ReplyD [OF assms(1)]
  note sl = create_agent_slug_shape [OF assms(1-3)]
  have k: "agent_keys_ok w'" by (rule create_agent_keeps_keys [OF assms(1,5)])
  have a: "a \<in> set (agents w')" "ag_id a = i" "ag_user_id a = u" "ag_deleted_at a = None" "users w' = users w"
    using c by simp_all
  note byid = resolve_by_id [OF k a(1)] and byslug = resolve_by_slug [OF k a(1) _ _ _ _ assms(8)]
  let ?del = "\<lambda>x. x\<lparr>ag_deleted_at := Some t, ag_updated_at := t\<rparr>"
  let ?w2 = "update_agent_row i ?del w'"
  have own: "get_agent_owned w' u False i = Reply a"
    using byid assms(4) a by (simp add: get_agent_owned_def)
  then have w2: "snd (soft_delete_agent u i t w') = ?w2" using a by (simp add: soft_delete_agent_def)
  have k2: "agent_keys_ok ?w2" by (rule delete_row.update_keeps_agent_keys [OF k])
  have b: "?del a \<in> set (agents ?w2)" using a(1,2) by (force simp: update_agent_row_def set_update_where)
  have u2: "users ?w2 = users w" using a(5) by (simp add: update_agent_row_def)
  show ?thesis
    using byid byslug a assms(4,6,7,9) sl resolve_by_id [OF k2 b] resolve_by_slug [OF k2 b _ _ _ _ assms(8)] u2
    unfolding w2 by (auto simp: resolve_address_def get_agent_owned_def Let_def)
qed

text \<open>Two users with an agent each, from which the concrete examples on messages start.\<close>

definition example_user :: "uuid \<Rightarrow> string \<Rightarrow> user" where
  "example_user i slug = \<lparr>usr_id = i, usr_email = slug @ ''@b'', usr_plan = ''free'', usr_active_cue_limit = 10,
     usr_monthly_execution_limit = 300, usr_monthly_message_limit = 100, usr_rate_limit_per_minute = 60,
     usr_slug = slug, usr_api_key_hash = slug, usr_api_key_prefix = ''cue_sk_'', usr_api_key_encrypted = None,
     usr_webhook_secret = ''w'', usr_alert_webhook_url = None, usr_alert_webhook_secret = None, usr_external_owner = None\<rparr>"

definition user_world :: world where
  "user_world = empty_world\<lparr>users := [example_user 7 ''alice'', example_user 8 ''bob'']\<rparr>"

definition agent_request :: agent_create where
  "agent_request = \<lparr>ac_slug = None, ac_display_name = ''API'', ac_webhook_url = None, ac_metadata = JObj []\<rparr>"

definition example_hex :: "nat \<Rightarrow> string" where
  "example_hex n = ''0a1b2c3d''"

abbreviation example_create :: "(agent \<times> string option) reply \<times> world" where
  "example_create \<equiv> create_agent example_site 7 agent_request ''agt_000000000001'' ''whsec'' example_hex 100 user_world"

theorem agent_addresses_witness:
  "resolve_address (snd example_create) ''agt_000000000001'' = resolve_address (snd example_create) ''api-0a1b@alice''
   \<and> (\<exists>a. resolve_address (snd example_create) ''api-0a1b@alice'' = Reply a)"
proof -
  have slug0: "derive_agent_slug user_world 7 ''API'' None example_hex = ''api''" by code_simp
  then obtain a w' where c: "example_create = (Reply (a, None), w')" and sl: "ag_slug a = ''api-0a1b''"
    by (simp add: create_agent_def agent_request_def slug0 Let_def truthy_def RESERVED_SLUGS_def example_hex_def
        agent_storable_def has_nul_def webhook_paired_def slug_used_def user_world_def empty_world_def json_truthy_def)
  have ok: "agent_create_ok agent_request" by (simp add: agent_create_ok_def agent_request_def)
  have hex: "slug_text (example_hex n)" for n
    by (simp add: example_hex_def slug_char_def is_digit_def)
  have opaque: "looks_like_opaque_id ''agt_000000000001''" by code_simp
  have keys: "agent_keys_ok user_world" by (simp add: agent_keys_ok_def user_world_def empty_world_def)
  have usr: "example_user 7 ''alice'' \<in> set (users user_world)" "usr_id (example_user 7 ''alice'') = 7"
    "usr_slug (example_user 7 ''alice'') = ''alice''" "distinct (map usr_slug (users user_world))"
    by (simp_all add: user_world_def example_user_def)
  show ?thesis
    using agent_addresses [OF c ok hex opaque keys usr(1,2) _ usr(4)] usr(3) by (simp add: c sl)
qed

text \<open>An empty \<open>webhook_url\<close> gets no secret but is stored, which the pairing constraint refuses.\<close>

lemma empty_webhook_url_raises:
  "fst (create_agent example_site 7 (agent_request\<lparr>ac_webhook_url := Some ''''\<rparr>) i ''whsec'' example_hex 100 user_world) =
     Raised IntegrityError"
proof -
  have "derive_agent_slug user_world 7 ''API'' None example_hex = ''api''" by code_simp
  then show ?thesis
    by (simp add: create_agent_def agent_request_def Let_def truthy_def RESERVED_SLUGS_def example_hex_def
        agent_storable_def has_nul_def webhook_paired_def slug_used_def user_world_def empty_world_def json_truthy_def)
qed

end
