(* ===== verification/Events.thy ===== *)
theory Events
  imports Agents
begin

section \<open>Events and subscriptions (\<open>src/app/services/events_service.py\<close>, \<open>src/app/routers/events.py\<close>)\<close>

text \<open>
  An append-only log of events per recipient agent, read through a cursor, and the subscriptions
  that say who receives what. Events are emitted inside the transaction of the caller.
\<close>

definition KNOWN_EVENT_TYPES :: "string list" where
  "KNOWN_EVENT_TYPES = [''message.delivered'', ''message.digest'', ''turn.pass'']"

definition MAX_PULL_LIMIT :: nat where
  "MAX_PULL_LIMIT = 1000"

definition INLINE_BODY_MAX_BYTES :: nat where
  "INLINE_BODY_MAX_BYTES = 32 * 1024"

subsection \<open>Emitting\<close>

definition has_inline_sub :: "world \<Rightarrow> string \<Rightarrow> string \<Rightarrow> bool" where
  "has_inline_sub w recipient event_type \<longleftrightarrow>
     list_ex (\<lambda>s. sub_subscriber_agent_id s = recipient \<and> sub_event_type s = event_type
                \<and> sub_detached_at s = None \<and> sub_inline_body s) (subscriptions w)"

definition maybe_embed_body ::
  "world \<Rightarrow> string \<Rightarrow> string \<Rightarrow> string \<Rightarrow> (string \<times> json) list \<Rightarrow> (string \<times> json) list" where
  "maybe_embed_body w recipient event_type body_text payload =
     (if \<not> has_inline_sub w recipient event_type then payload
      else if utf8_len body_text \<le> INLINE_BODY_MAX_BYTES then dict_put ''body'' (JStr body_text) payload
      else dict_put ''body_size_bytes'' (JInt (int (utf8_len body_text)))
             (dict_put ''body_omitted'' (JStr ''size_too_large'') payload))"

text \<open>
  The row is inserted, or, when the type and key are there already, the existing row is the
  answer; the serial number is drawn in both cases. A foreign key and the text encoding may fail.
\<close>

definition emit_event ::
  "string \<Rightarrow> string \<Rightarrow> (string \<times> json) list \<Rightarrow> string option \<Rightarrow> string option \<Rightarrow> time \<Rightarrow> world \<Rightarrow> event reply \<times> world" where
  "emit_event event_type recipient payload key body_text now w =
     (let payload' = (case body_text of None \<Rightarrow> payload | Some b \<Rightarrow> maybe_embed_body w recipient event_type b payload);
          e = \<lparr>ev_id = event_seq w, ev_event_type = event_type, ev_recipient_agent_id = recipient,
               ev_payload = JObj payload', ev_emitted_at = now, ev_idempotency_key = key, ev_digested_at = None\<rparr>
      in if contains_null_byte (JObj payload') \<or> has_nul event_type \<or> (case key of None \<Rightarrow> False | Some k \<Rightarrow> has_nul k)
           then (Raised DataError, w)
         else
           (case (if key = None then None
                  else find (\<lambda>x. ev_event_type x = event_type \<and> ev_idempotency_key x = key) (events w)) of
              Some x \<Rightarrow> (Reply x, w\<lparr>event_seq := event_seq w + 1\<rparr>)
            | None \<Rightarrow>
                if recipient \<notin> ag_id ` set (agents w) then (Raised IntegrityError, w)
                else (Reply e, w\<lparr>events := events w @ [e], event_seq := event_seq w + 1\<rparr>)))"

subsection \<open>Pulling\<close>

definition pull_events ::
  "world \<Rightarrow> string \<Rightarrow> int \<Rightarrow> int \<Rightarrow> string option \<Rightarrow> event list \<times> nat option \<times> bool" where
  "pull_events w recipient since limit event_type =
     (let effective_limit = nat (min (max limit 1) (int MAX_PULL_LIMIT));
          rows = filter (\<lambda>e. ev_recipient_agent_id e = recipient \<and> since < int (ev_id e)
                   \<and> (case event_type of None \<Rightarrow> True | Some t \<Rightarrow> ev_event_type e = t)) (events w);
          es = take effective_limit (sort_key ev_id rows)
      in (es, if es = [] then None else Some (ev_id (last es)), length es = effective_limit))"

subsection \<open>Subscriptions\<close>

definition target_of :: "string \<Rightarrow> delivery_target option" where
  "target_of s = (if s = ''pull'' then Some PullTarget else if s = ''webhook'' then Some WebhookTarget else None)"

definition validate_delivery_target_combo :: "string \<Rightarrow> string option \<Rightarrow> delivery_target option" where
  "validate_delivery_target_combo delivery_target webhook_url =
     (case target_of delivery_target of
        Some PullTarget \<Rightarrow> if webhook_url \<noteq> None then None else Some PullTarget
      | Some WebhookTarget \<Rightarrow> if \<not> truthy webhook_url then None else Some WebhookTarget
      | None \<Rightarrow> None)"

definition active_sub :: "subscription \<Rightarrow> bool" where
  "active_sub s \<longleftrightarrow> sub_detached_at s = None"

definition create_subscription ::
  "site \<Rightarrow> string \<Rightarrow> string \<Rightarrow> string \<Rightarrow> string option \<Rightarrow> bool \<Rightarrow> uuid \<Rightarrow> string \<Rightarrow> time \<Rightarrow> world
     \<Rightarrow> subscription reply \<times> world" where
  "create_subscription s agent event_type delivery_target webhook_url inline_body new_id new_secret now w =
     (if event_type \<notin> set KNOWN_EVENT_TYPES then (Refused ''unknown_event_type'' 400, w)
      else
        (case validate_delivery_target_combo delivery_target webhook_url of
           None \<Rightarrow> (Refused ''invalid_delivery_target'' 400, w)
         | Some target \<Rightarrow>
             if target = WebhookTarget \<and> \<not> fst (validate_callback_url (st_parse s) (st_resolve s) (the webhook_url) (st_env s))
               then (Refused ''invalid_webhook_url'' 400, w)
             else
               (let sub = \<lparr>sub_id = new_id, sub_subscriber_agent_id = agent, sub_event_type = event_type,
                       sub_delivery_target = target, sub_webhook_url = webhook_url,
                       sub_webhook_secret = (if target = WebhookTarget then Some new_secret else None),
                       sub_last_dispatched_event_id = None, sub_last_dispatched_at = None,
                       sub_last_acked_event_id = None, sub_consecutive_failures = 0, sub_paused_until = None,
                       sub_inline_body = inline_body, sub_created_at = now, sub_detached_at = None\<rparr>
                in if (case webhook_url of None \<Rightarrow> False | Some x \<Rightarrow> has_nul x) then (Raised DataError, w)
                   else if new_id \<in> sub_id ` set (subscriptions w)
                        \<or> list_ex (\<lambda>x. active_sub x \<and> sub_subscriber_agent_id x = agent \<and> sub_event_type x = event_type
                             \<and> sub_delivery_target x = target) (subscriptions w)
                     then (Raised IntegrityError, w)
                   else (Reply sub, w\<lparr>subscriptions := subscriptions w @ [sub]\<rparr>))))"

definition list_subscriptions :: "world \<Rightarrow> string \<Rightarrow> subscription list" where
  "list_subscriptions w agent =
     sort_key sub_created_at (filter (\<lambda>s. sub_subscriber_agent_id s = agent \<and> active_sub s) (subscriptions w))"

definition update_subs :: "(subscription \<Rightarrow> bool) \<Rightarrow> (subscription \<Rightarrow> subscription) \<Rightarrow> world \<Rightarrow> nat \<times> world" where
  "update_subs p f w = (length (filter p (subscriptions w)), w\<lparr>subscriptions := update_where p f (subscriptions w)\<rparr>)"

definition detach_subscription :: "uuid \<Rightarrow> string \<Rightarrow> time \<Rightarrow> world \<Rightarrow> bool \<times> world" where
  "detach_subscription i agent now w =
     (let (n, w') = update_subs (\<lambda>s. sub_id s = i \<and> sub_subscriber_agent_id s = agent \<and> active_sub s)
                      (\<lambda>s. s\<lparr>sub_detached_at := Some now\<rparr>) w
      in (0 < n, w'))"

definition behind :: "nat \<Rightarrow> subscription \<Rightarrow> bool" where
  "behind n s \<longleftrightarrow> (case sub_last_acked_event_id s of None \<Rightarrow> True | Some m \<Rightarrow> m < n)"

definition acked_row :: "nat \<Rightarrow> subscription \<Rightarrow> subscription" where
  "acked_row n s = s\<lparr>sub_last_acked_event_id := Some n\<rparr>"

definition advance_ack_watermark :: "string \<Rightarrow> nat \<Rightarrow> string option \<Rightarrow> world \<Rightarrow> nat \<times> world" where
  "advance_ack_watermark agent n event_type w =
     update_subs (\<lambda>s. sub_subscriber_agent_id s = agent \<and> sub_delivery_target s = PullTarget \<and> active_sub s \<and> behind n s
                    \<and> (case event_type of None \<Rightarrow> True | Some t \<Rightarrow> sub_event_type s = t)) (acked_row n) w"

definition ack_subscription :: "uuid \<Rightarrow> string \<Rightarrow> nat \<Rightarrow> world \<Rightarrow> bool \<times> world" where
  "ack_subscription i agent n w =
     (let (k, w') = update_subs (\<lambda>s. sub_id s = i \<and> sub_subscriber_agent_id s = agent \<and> active_sub s \<and> behind n s)
                      (acked_row n) w
      in (0 < k, w'))"

subsection \<open>Routes\<close>

text \<open>Every route first resolves the agent among those of the caller.\<close>

definition with_agent :: "world \<Rightarrow> uuid \<Rightarrow> string \<Rightarrow> (agent \<Rightarrow> 'a reply \<times> world) \<Rightarrow> 'a reply \<times> world" where
  "with_agent w u ref k =
     (case get_agent_owned w u False ref of
        Refused code st \<Rightarrow> (Refused code st, w)
      | Raised err \<Rightarrow> (Raised err, w)
      | Reply a \<Rightarrow> k a)"

definition create_subscription_endpoint ::
  "site \<Rightarrow> uuid \<Rightarrow> string \<Rightarrow> string \<Rightarrow> string \<Rightarrow> string option \<Rightarrow> bool \<Rightarrow> uuid \<Rightarrow> string \<Rightarrow> time \<Rightarrow> world
     \<Rightarrow> subscription reply \<times> world" where
  "create_subscription_endpoint s u ref event_type target url inline_body new_id new_secret now w =
     with_agent w u ref (\<lambda>a. create_subscription s (ag_id a) event_type target url inline_body new_id new_secret now w)"

definition list_subscriptions_endpoint :: "uuid \<Rightarrow> string \<Rightarrow> world \<Rightarrow> subscription list reply \<times> world" where
  "list_subscriptions_endpoint u ref w = with_agent w u ref (\<lambda>a. (Reply (list_subscriptions w (ag_id a)), w))"

definition ack_subscription_endpoint :: "uuid \<Rightarrow> string \<Rightarrow> uuid \<Rightarrow> nat \<Rightarrow> world \<Rightarrow> unit reply \<times> world" where
  "ack_subscription_endpoint u ref i n w =
     with_agent w u ref (\<lambda>a. (Reply (), snd (ack_subscription i (ag_id a) n w)))"

definition delete_subscription_endpoint :: "uuid \<Rightarrow> string \<Rightarrow> uuid \<Rightarrow> time \<Rightarrow> world \<Rightarrow> unit reply \<times> world" where
  "delete_subscription_endpoint u ref i now w =
     with_agent w u ref (\<lambda>a. (Reply (), snd (detach_subscription i (ag_id a) now w)))"

definition advance_ack_after_pull :: "string \<Rightarrow> nat option \<Rightarrow> string option \<Rightarrow> world \<Rightarrow> world" where
  "advance_ack_after_pull agent next_cursor event_type w =
     (case next_cursor of None \<Rightarrow> w | Some n \<Rightarrow> snd (advance_ack_watermark agent n event_type w))"

text \<open>
  Long polling: the loop reads the clock, sleeps and pulls again until something is there or the
  window is over. \<open>polls\<close> are the clock readings at the head of the loop, each with the database
  the pull after the sleep sees.
\<close>

definition LONG_POLL_MAX_SECONDS :: int where
  "LONG_POLL_MAX_SECONDS = 30"

fun run_long_poll_wait ::
  "time \<Rightarrow> string \<Rightarrow> int \<Rightarrow> int \<Rightarrow> string option \<Rightarrow> (time \<times> world) list \<Rightarrow> (event list \<times> nat option \<times> bool) \<times> world
     \<Rightarrow> (event list \<times> nat option \<times> bool) \<times> world" where
  "run_long_poll_wait deadline agent since limit event_type [] latest = latest"
| "run_long_poll_wait deadline agent since limit event_type ((clock, v) # polls) latest =
     (if deadline - clock \<le> 0 then latest
      else
        (let pulled = pull_events v agent since limit event_type
         in if fst pulled \<noteq> [] then (pulled, v)
            else run_long_poll_wait deadline agent since limit event_type polls (pulled, v)))"

definition pull_events_endpoint ::
  "uuid \<Rightarrow> string \<Rightarrow> nat \<Rightarrow> nat \<Rightarrow> string option \<Rightarrow> bool \<Rightarrow> time \<Rightarrow> (time \<times> world) list \<Rightarrow> world
     \<Rightarrow> (event list \<times> nat option \<times> bool) reply \<times> world" where
  "pull_events_endpoint u ref since limit event_type wait_long started polls w =
     with_agent w u ref (\<lambda>a.
       (let pulled = pull_events w (ag_id a) (int since) (int limit) event_type;
            ((es, cursor, more), v) =
              (if wait_long \<and> fst pulled = []
               then run_long_poll_wait (started + seconds LONG_POLL_MAX_SECONDS) (ag_id a) (int since) (int limit)
                      event_type polls (([], None, False), w)
               else (pulled, w))
        in (Reply (es, cursor, more), advance_ack_after_pull (ag_id a) cursor event_type v)))"

lemma long_poll_world:
  "snd (run_long_poll_wait d a since limit ty polls latest) \<in> insert (snd latest) (snd ` set polls)"
  by (induction d a since limit ty polls latest rule: run_long_poll_wait.induct) (auto simp: Let_def)

text \<open>
  A waiting consumer is answered with the first view in the window that has events for it, the same
  answer an immediate pull on that view gives.
\<close>

lemma long_poll_answers:
  assumes "\<forall>(clock, v) \<in> set earlier. clock < deadline \<and> fst (pull_events v agent since limit ty) = []"
    and "clock < deadline" and "fst (pull_events v agent since limit ty) \<noteq> []"
  shows "run_long_poll_wait deadline agent since limit ty (earlier @ (clock, v) # later) latest
    = (pull_events v agent since limit ty, v)"
  using assms
proof (induction earlier arbitrary: latest)
  case Nil
  then show ?case by (simp add: Let_def)
next
  case (Cons p earlier)
  obtain t u where p: "p = (t, u)" by force
  with Cons.prems Cons.IH [of "(pull_events u agent since limit ty, u)"] show ?case by (simp add: Let_def)
qed

subsection \<open>Walking the log\<close>

definition events_ok :: "world \<Rightarrow> bool" where
  "events_ok w \<longleftrightarrow> distinct (map ev_id (events w)) \<and> (\<forall>e \<in> set (events w). 0 < ev_id e \<and> ev_id e < event_seq w)"

text \<open>A consumer that follows the cursor as long as the server says there is more.\<close>

fun pull_all :: "nat \<Rightarrow> world \<Rightarrow> string \<Rightarrow> int \<Rightarrow> int \<Rightarrow> string option \<Rightarrow> event list" where
  "pull_all 0 w agent since limit ty = []"
| "pull_all (Suc fuel) w agent since limit ty =
     (case pull_events w agent since limit ty of
        (es, Some cursor, True) \<Rightarrow> es @ pull_all fuel w agent (int cursor) limit ty
      | (es, _, _) \<Rightarrow> es)"

definition backlog :: "world \<Rightarrow> string \<Rightarrow> int \<Rightarrow> string option \<Rightarrow> event list" where
  "backlog w agent since ty =
     sort_key ev_id (filter (\<lambda>e. ev_recipient_agent_id e = agent \<and> since < int (ev_id e)
        \<and> (case ty of None \<Rightarrow> True | Some t \<Rightarrow> ev_event_type e = t)) (events w))"

lemma pull_events_backlog:
  "pull_events w agent since limit ty =
     (let n = nat (min (max limit 1) (int MAX_PULL_LIMIT)); es = take n (backlog w agent since ty)
      in (es, if es = [] then None else Some (ev_id (last es)), length es = n))"
  by (simp add: pull_events_def backlog_def Let_def)

text \<open>Dropping a page of the backlog is the backlog from the last id of the page on.\<close>

lemma filter_after_page:
  fixes f :: "'e \<Rightarrow> nat"
  assumes "sorted_wrt (\<lambda>x y. f x < f y) xs" and "0 < n" and "n \<le> length xs"
  shows "filter (\<lambda>e. f (last (take n xs)) < f e) xs = drop n xs"
proof -
  let ?ys = "take n xs" and ?zs = "drop n xs"
  have "?ys \<noteq> []" using assms(2,3) by auto
  then have ys: "?ys = butlast ?ys @ [last ?ys]" by simp
  have "sorted_wrt (\<lambda>x y. f x < f y) (?ys @ ?zs)" using assms(1) by simp
  then have s: "sorted_wrt (\<lambda>x y. f x < f y) ?ys" and z: "\<forall>y \<in> set ?ys. \<forall>z \<in> set ?zs. f y < f z"
    unfolding sorted_wrt_append by auto
  have "\<forall>y \<in> set (butlast ?ys). f y < f (last ?ys)"
    using s by (subst (asm) ys) (simp add: sorted_wrt_append)
  then have "\<forall>y \<in> set ?ys. \<not> f (last ?ys) < f y" by (subst ys) auto
  then have "filter (\<lambda>e. f (last ?ys) < f e) ?ys = []" by (auto simp: filter_empty_conv)
  moreover have "filter (\<lambda>e. f (last ?ys) < f e) ?zs = ?zs"
    using z last_in_set [OF \<open>?ys \<noteq> []\<close>] by (intro filter_True) auto
  ultimately show ?thesis by (metis append_take_drop_id filter_append append_Nil)
qed

lemma backlog_drop:
  assumes "events_ok w" and "0 < n" and "n \<le> length (backlog w agent since ty)"
  shows "backlog w agent (int (ev_id (last (take n (backlog w agent since ty))))) ty = drop n (backlog w agent since ty)"
proof -
  let ?b = "backlog w agent since ty"
  let ?c = "ev_id (last (take n ?b))"
  have "sorted (map ev_id ?b)" by (simp add: backlog_def)
  moreover have "distinct (map ev_id ?b)"
    using assms(1) by (auto simp: backlog_def events_ok_def distinct_map inj_on_def)
  ultimately have sorted: "sorted_wrt (\<lambda>x y. ev_id x < ev_id y) ?b"
    by (metis sorted_wrt_map strict_sorted_iff)
  have ne: "take n ?b \<noteq> []" using assms(2,3) by auto
  then have "last (take n ?b) \<in> set ?b" by (meson in_set_takeD last_in_set)
  then have "since < int ?c" by (simp add: backlog_def)
  then have "backlog w agent (int ?c) ty = filter (\<lambda>e. ?c < ev_id e) ?b"
    unfolding backlog_def filter_sort filter_filter
    by (intro arg_cong [of _ _ "sort_key ev_id"] filter_cong) auto
  with filter_after_page [OF sorted assms(2,3)] show ?thesis by simp
qed

lemma pull_all_backlog:
  assumes "events_ok w" and "length (backlog w agent since ty) < fuel"
  shows "pull_all fuel w agent since limit ty = backlog w agent since ty"
  using assms(2)
proof (induction fuel arbitrary: since)
  case 0
  then show ?case by simp
next
  case (Suc fuel)
  let ?b = "backlog w agent since ty"
  define n where "n = nat (min (max limit 1) (int MAX_PULL_LIMIT))"
  have n: "0 < n" by (simp add: n_def MAX_PULL_LIMIT_def)
  have page: "pull_events w agent since limit ty =
      (take n ?b, if take n ?b = [] then None else Some (ev_id (last (take n ?b))), length (take n ?b) = n)"
    by (simp add: pull_events_backlog Let_def n_def)
  show ?case
  proof (cases "n \<le> length ?b")
    case True
    then have ne: "take n ?b \<noteq> []" using n by auto
    note rest = backlog_drop [OF assms(1) n True]
    from n True Suc.prems have "length (drop n ?b) < fuel" by simp
    with Suc.IH [of "int (ev_id (last (take n ?b)))"] rest
    have "pull_all fuel w agent (int (ev_id (last (take n ?b)))) limit ty = drop n ?b" by simp
    with True ne show ?thesis by (simp add: page)
  next
    case False
    then show ?thesis by (simp add: page split: option.split)
  qed
qed

text \<open>
  The cursor loses nothing and repeats nothing: a consumer that starts at any position and
  follows the cursor while the server says there is more receives, for every page size, exactly
  the events of its agent after that position, in the order of their ids, each once; it needs at
  most one page more than there are events.
\<close>

theorem pull_cursor_complete:
  assumes "events_ok w" and "length (events w) < fuel"
  shows "sorted (map ev_id (pull_all fuel w agent since limit ty))
    \<and> distinct (map ev_id (pull_all fuel w agent since limit ty))
    \<and> set (pull_all fuel w agent since limit ty) =
      {e \<in> set (events w). ev_recipient_agent_id e = agent \<and> since < int (ev_id e)
         \<and> (case ty of None \<Rightarrow> True | Some t \<Rightarrow> ev_event_type e = t)}"
proof -
  have "length (backlog w agent since ty) < fuel"
    using assms(2) by (simp add: backlog_def) (rule le_less_trans [OF length_filter_le])
  from pull_all_backlog [OF assms(1) this] have e: "pull_all fuel w agent since limit ty = backlog w agent since ty" .
  show ?thesis unfolding e backlog_def
    using assms(1) by (auto simp: events_ok_def distinct_map inj_on_def)
qed

lemma emit_event_cases:
  assumes "emit_event ty agent p key b now w = (a, w')"
  shows "w' = w \<or> w' = w\<lparr>event_seq := event_seq w + 1\<rparr>
    \<or> (\<exists>e. ev_id e = event_seq w \<and> w' = w\<lparr>events := events w @ [e], event_seq := event_seq w + 1\<rparr>)"
  using assms unfolding emit_event_def Let_def
  by (auto split: if_splits option.splits) (metis event.select_convs(1))+

lemma emit_event_ok:
  assumes "emit_event ty agent p key b now w = (a, w')" and "events_ok w" and "0 < event_seq w"
  shows "events_ok w' \<and> 0 < event_seq w'"
  using emit_event_cases [OF assms(1)] assms(2,3)
  by (auto simp: events_ok_def less_Suc_eq) (metis less_irrefl)

definition emit_two :: world where
  "emit_two = fold (\<lambda>k w. snd (emit_event ''turn.pass'' ''agt_1'' [] (Some k) None 100 w)) [''a'', ''b'', ''a'']
     (empty_world\<lparr>agents := [\<lparr>ag_id = ''agt_1'', ag_user_id = 7, ag_slug = ''s'', ag_display_name = ''d'', ag_webhook_url = None,
        ag_webhook_secret = None, ag_metadata = JNull, ag_status = ''online'', ag_last_seen_at = None, ag_deleted_at = None,
        ag_created_at = 0, ag_updated_at = 0\<rparr>]\<rparr>)"

lemma emit_two_events:
  "map ev_id (events emit_two) = [1, 2]" "event_seq emit_two = 4" "\<forall>e \<in> set (events emit_two). ev_recipient_agent_id e = ''agt_1''"
  by (simp_all add: emit_two_def emit_event_def empty_world_def Let_def has_nul_def)

theorem pull_cursor_complete_witness:
  "map ev_id (pull_all 3 emit_two ''agt_1'' 0 1 None) = [1, 2]"
proof -
  have len: "length (events emit_two) < 3" using arg_cong [OF emit_two_events(1), of length] by simp
  have ok: "events_ok emit_two"
    unfolding events_ok_def emit_two_events(1,2)
  proof (intro conjI ballI)
    fix e assume "e \<in> set (events emit_two)"
    then have "ev_id e \<in> set (map ev_id (events emit_two))" by simp
    then have "ev_id e \<in> set [1, 2]" unfolding emit_two_events(1) .
    then show "0 < ev_id e" "ev_id e < 4" by auto
  qed simp
  let ?p = "pull_all 3 emit_two ''agt_1'' 0 1 None"
  from pull_cursor_complete [OF ok len, of "''agt_1''" 0 1 None]
  have "sorted (map ev_id ?p)" "distinct (map ev_id ?p)" "set ?p = {e \<in> set (events emit_two). 0 < int (ev_id e)}"
    using emit_two_events(3) by auto
  moreover from this(3) ok have "set ?p = set (events emit_two)" by (auto simp: events_ok_def)
  then have "set (map ev_id ?p) = set [1, 2]" using emit_two_events(1) by (metis set_map)
  ultimately show ?thesis by (intro sorted_distinct_set_unique) auto
qed

subsection \<open>Acknowledgements only advance\<close>

definition acks_advance :: "world \<Rightarrow> world \<Rightarrow> bool" where
  "acks_advance w w' \<longleftrightarrow> length (subscriptions w') = length (subscriptions w)
     \<and> (\<forall>i < length (subscriptions w). sub_id (subscriptions w' ! i) = sub_id (subscriptions w ! i)
          \<and> (case sub_last_acked_event_id (subscriptions w ! i) of
               None \<Rightarrow> True
             | Some m \<Rightarrow> (\<exists>n \<ge> m. sub_last_acked_event_id (subscriptions w' ! i) = Some n)))"

lemma acks_advance_refl [simp]: "acks_advance w w"
  by (auto simp: acks_advance_def split: option.split)

lemma update_subs_acked: "acks_advance w (snd (update_subs (\<lambda>s. p s \<and> behind n s \<and> q s) (acked_row n) w))"
  by (auto simp: acks_advance_def update_subs_def update_where_def acked_row_def behind_def split: option.split)

text \<open>
  A watermark never moves back: pulling events and explicit acknowledgements, with any values,
  leave every subscription with an acknowledged event at least as recent as before.
\<close>

theorem acks_only_advance:
  "(\<exists>v. (v = w \<or> v \<in> snd ` set polls) \<and> acks_advance v (snd (pull_events_endpoint u ref since limit ty wait_long started polls w)))
   \<and> acks_advance w (snd (ack_subscription_endpoint u ref i n w))"
proof -
  have "acks_advance v (snd (advance_ack_watermark a k t v))" for a k t v
    using update_subs_acked [of v "\<lambda>s. sub_subscriber_agent_id s = a \<and> sub_delivery_target s = PullTarget \<and> active_sub s" k
        "\<lambda>s. case t of None \<Rightarrow> True | Some t \<Rightarrow> sub_event_type s = t"]
    by (simp add: advance_ack_watermark_def conj_assoc)
  then have adv: "acks_advance v (advance_ack_after_pull a c t v)" for a c t v
    by (simp add: advance_ack_after_pull_def split: option.split)
  have "\<exists>v. (v = w \<or> v \<in> snd ` set polls) \<and> acks_advance v (snd (pull_events_endpoint u ref since limit ty wait_long started polls w))"
  proof (cases "get_agent_owned w u False ref")
    case (Reply a)
    let ?d = "started + seconds LONG_POLL_MAX_SECONDS"
    define r where "r = (if wait_long \<and> fst (pull_events w (ag_id a) (int since) (int limit) ty) = []
        then run_long_poll_wait ?d (ag_id a) (int since) (int limit) ty polls (([], None, False), w)
        else (pull_events w (ag_id a) (int since) (int limit) ty, w))"
    have "snd (pull_events_endpoint u ref since limit ty wait_long started polls w)
        = advance_ack_after_pull (ag_id a) (fst (snd (fst r))) ty (snd r)"
      by (simp add: pull_events_endpoint_def with_agent_def Reply Let_def r_def split_def)
    moreover have "snd r = w \<or> snd r \<in> snd ` set polls"
      using long_poll_world [of ?d "ag_id a" "int since" "int limit" ty polls "(([], None, False), w)"] by (auto simp: r_def)
    ultimately show ?thesis using adv by metis
  qed (auto simp: pull_events_endpoint_def with_agent_def)
  moreover have "acks_advance w (snd (ack_subscription j a k w))" for j a k
    using update_subs_acked [of w "\<lambda>s. sub_id s = j \<and> sub_subscriber_agent_id s = a \<and> active_sub s" k "\<lambda>_. True"]
    by (simp add: ack_subscription_def split_def Let_def conj_assoc)
  then have "acks_advance w (snd (ack_subscription_endpoint u ref i n w))"
    by (simp add: ack_subscription_endpoint_def with_agent_def split: reply.split)
  ultimately show ?thesis by blast
qed

end
