(* ===== verification/SlidingWindow.thy ===== *)
theory SlidingWindow
  imports Redis
begin

section \<open>Sliding windows in Redis\<close>

text \<open>
  Two rate limits of the program keep the times of accepted requests in a sorted set: the limit of the
  HTTP middleware (\<open>src/app/middleware/rate_limit.py\<close>) and the per-minute limit of messages
  (\<open>src/app/services/message_usage_service.py\<close>). Both drop the entries that are more than 60 seconds
  old, count the rest, and add an entry only when the count is below the limit. The locale
  \<open>sliding_window\<close> shows, for any key and a lifetime of at least a window, that this is exact.
\<close>

definition zset_of :: "redis_store \<Rightarrow> time \<Rightarrow> redis_key \<Rightarrow> (string \<times> time) list" where
  "zset_of r now k = (case redis_get r now k of Some (RZset zs) \<Rightarrow> zs | _ \<Rightarrow> [])"

text \<open>ZREMRANGEBYSCORE from 0 to a bound, ZADD (a member already there gets the new score).\<close>

definition zremrangebyscore :: "redis_key \<Rightarrow> time \<Rightarrow> time \<Rightarrow> redis_store \<Rightarrow> redis_store" where
  "zremrangebyscore k bound now r =
     (if live now (r k) then
        (let kept = filter (\<lambda>(_, score). \<not> (0 \<le> score \<and> score \<le> bound)) (zset_of r now k)
         in r(k := (if kept = [] then None else Some (RZset kept, snd (the (r k))))))
      else r)"

definition zadd :: "redis_key \<Rightarrow> string \<Rightarrow> time \<Rightarrow> time \<Rightarrow> redis_store \<Rightarrow> redis_store" where
  "zadd k member score now r =
     r(k := Some (RZset (filter (\<lambda>(m, _). m \<noteq> member) (zset_of r now k) @ [(member, score)]),
                  (if live now (r k) then snd (the (r k)) else None)))"

text \<open>The entry of an accepted request: ZADD and EXPIRE.\<close>

definition window_record :: "redis_key \<Rightarrow> int \<Rightarrow> string \<Rightarrow> time \<Rightarrow> redis_store \<Rightarrow> redis_store" where
  "window_record k ttl member now r = redis_expire k ttl now (zadd k member now now r)"

abbreviation window_pruned :: "redis_key \<Rightarrow> time \<Rightarrow> redis_store \<Rightarrow> redis_store" where
  "window_pruned k now r \<equiv> zremrangebyscore k (now - seconds 60) now r"

lemma window_other_keys [simp]:
  "j \<noteq> k \<Longrightarrow> zremrangebyscore k b now r j = r j" "j \<noteq> k \<Longrightarrow> window_record k ttl m now r j = r j"
  by (auto simp: zremrangebyscore_def window_record_def zadd_def redis_expire_def Let_def split: option.split)

abbreviation recent :: "time \<Rightarrow> time list \<Rightarrow> time list" where
  "recent now ts \<equiv> filter (\<lambda>a. now - seconds 60 < a) ts"

definition window_ok :: "nat \<Rightarrow> time list \<Rightarrow> bool" where
  "window_ok n ts \<longleftrightarrow> (\<forall>t. length (filter (\<lambda>a. t - seconds 60 < a \<and> a \<le> t) ts) \<le> n)"

lemma window_ok_snoc:
  assumes "window_ok n ts" and "\<forall>a \<in> set ts. a \<le> b" and "length (recent b ts) < n"
  shows "window_ok n (ts @ [b])"
  unfolding window_ok_def
proof
  fix t
  have "length (filter (\<lambda>a. t - seconds 60 < a \<and> a \<le> t) ts) \<le> length (recent b ts)" if "b \<le> t"
    using that by (induction ts) auto
  then show "length (filter (\<lambda>a. t - seconds 60 < a \<and> a \<le> t) (ts @ [b])) \<le> n"
    using assms(1,3) by (auto simp: window_ok_def)
qed

lemma recent_recent: "t \<le> now \<Longrightarrow> recent now (recent t ts) = recent now ts"
  by (auto intro: filter_cong)

lemma recent_map_snd:
  assumes "\<forall>(m, s) \<in> set zs. 0 \<le> (s::int) \<and> Q m s"
  shows "map snd (filter (\<lambda>(_, s). \<not> (0 \<le> s \<and> s \<le> now - seconds 60)) zs) = recent now (map snd zs)"
  using assms by (induction zs) (auto simp: split_def)

text \<open>
  What the sorted set holds at time \<open>t\<close> after the accepted requests \<open>hist\<close>: those of the last minute.
  The members \<open>ms\<close> are not in it.
\<close>

definition window_inv :: "redis_key \<Rightarrow> int \<Rightarrow> time \<Rightarrow> time list \<Rightarrow> string set \<Rightarrow> redis_store \<Rightarrow> bool" where
  "window_inv k ttl t hist ms r \<longleftrightarrow> (\<forall>a \<in> set hist. a \<le> t) \<and>
     (case r k of
        None \<Rightarrow> recent t hist = []
      | Some (RZset zs, Some x) \<Rightarrow>
          (\<forall>(m, s) \<in> set zs. 0 \<le> s \<and> s + seconds ttl \<le> x \<and> m \<notin> ms) \<and> recent t hist = recent t (map snd zs)
      | _ \<Rightarrow> False)"

lemma window_inv_empty: "r k = None \<Longrightarrow> window_inv k ttl t [] ms r"
  by (simp add: window_inv_def)

lemma window_inv_cong: "r' k = r k \<Longrightarrow> window_inv k ttl t hist ms r' = window_inv k ttl t hist ms r"
  by (simp add: window_inv_def)

locale sliding_window =
  fixes k :: redis_key and ttl :: int
  assumes ttl_covers: "60 \<le> ttl"
begin

lemma pruned:
  assumes "window_inv k ttl t hist ms r" and "t \<le> now"
  shows "map snd (zset_of (window_pruned k now r) now k) = recent now hist"
    and "\<forall>(m, s) \<in> set (zset_of (window_pruned k now r) now k). 0 \<le> s \<and> m \<notin> ms"
    and "\<forall>a \<in> set hist. a \<le> now"
    and "window_inv k ttl now hist ms (window_pruned k now r)"
proof -
  let ?r1 = "window_pruned k now r"
  have le: "\<forall>a \<in> set hist. a \<le> now" using assms by (auto simp: window_inv_def)
  have *: "map snd (zset_of ?r1 now k) = recent now hist \<and> (\<forall>(m, s) \<in> set (zset_of ?r1 now k). 0 \<le> s \<and> m \<notin> ms)
    \<and> window_inv k ttl now hist ms ?r1"
  proof (cases "r k")
    case None
    then have "recent t hist = []" using assms(1) by (simp add: window_inv_def)
    then have "recent now hist = []" using recent_recent [OF assms(2), of hist] by simp
    with None le show ?thesis by (simp add: zremrangebyscore_def zset_of_def redis_get_def window_inv_def)
  next
    case (Some e)
    then obtain zs x where e: "r k = Some (RZset zs, Some x)"
      and zs: "\<forall>(m, s) \<in> set zs. 0 \<le> s \<and> s + seconds ttl \<le> x \<and> m \<notin> ms" and h: "recent t hist = recent t (map snd zs)"
      using assms(1) by (cases e; cases "fst e"; cases "snd e") (auto simp: window_inv_def)
    have nh: "recent now hist = recent now (map snd zs)"
      using recent_recent [OF assms(2), of hist] recent_recent [OF assms(2), of "map snd zs"] h by simp
    show ?thesis
    proof (cases "now < x")
      case True
      then have z: "zset_of r now k = zs" by (simp add: zset_of_def redis_get_def e)
      let ?kept = "filter (\<lambda>(_, s). \<not> (0 \<le> s \<and> s \<le> now - seconds 60)) zs"
      have z1: "zset_of ?r1 now k = ?kept"
        using True by (auto simp: zremrangebyscore_def z e Let_def zset_of_def redis_get_def)
      have m: "map snd ?kept = recent now (map snd zs)" by (rule recent_map_snd) (use zs in auto)
      have r1: "?r1 k = (if ?kept = [] then None else Some (RZset ?kept, Some x))"
        using True by (simp add: zremrangebyscore_def z e Let_def)
      have "recent now (map snd ?kept) = recent now hist" unfolding m nh by simp
      then have "window_inv k ttl now hist ms ?r1"
        using zs le unfolding window_inv_def r1 by (auto simp: m nh)
      then show ?thesis using zs nh m unfolding z1 by auto
    next
      case False
      have "seconds 60 \<le> seconds ttl" using ttl_covers by (simp add: seconds_def)
      have "s \<le> now - seconds 60" if "(m, s) \<in> set zs" for m s
      proof -
        have "s + seconds ttl \<le> x" using zs that by auto
        with \<open>seconds 60 \<le> seconds ttl\<close> False show ?thesis by linarith
      qed
      then have "recent now (map snd zs) = []" by (fastforce simp: filter_empty_conv)
      moreover have "zset_of ?r1 now k = []" "?r1 = r"
        using False by (simp_all add: zremrangebyscore_def e zset_of_def redis_get_def)
      ultimately show ?thesis using nh zs le e by (auto simp: window_inv_def)
    qed
  qed
  then show "map snd (zset_of ?r1 now k) = recent now hist" "\<forall>(m, s) \<in> set (zset_of ?r1 now k). 0 \<le> s \<and> m \<notin> ms"
    "window_inv k ttl now hist ms ?r1" by blast+
qed (use assms in \<open>auto simp: window_inv_def\<close>)

lemma count_is_recent:
  "window_inv k ttl t hist ms r \<Longrightarrow> t \<le> now \<Longrightarrow> length (zset_of (window_pruned k now r) now k) = length (recent now hist)"
  using pruned(1) [THEN arg_cong, of t hist ms r now length] by simp

lemma recorded:
  assumes "window_inv k ttl t hist ms r" and "t \<le> now" and "0 \<le> now" and "ms' \<subseteq> ms" and "m \<notin> ms'"
    and "\<forall>(n, s) \<in> set (zset_of (window_pruned k now r) now k). n \<noteq> m"
  shows "window_inv k ttl now (hist @ [now]) ms' (window_record k ttl m now (window_pruned k now r))"
proof -
  let ?r1 = "window_pruned k now r"
  note p = pruned [OF assms(1,2)]
  have fresh: "filter (\<lambda>(n, _). n \<noteq> m) (zset_of ?r1 now k) = zset_of ?r1 now k"
    using assms(6) by (intro filter_True) auto
  let ?z = "zset_of ?r1 now k @ [(m, now)]"
  have "live now (zadd k m now now ?r1 k)" by (auto simp: zadd_def live_def split: option.split)
  then have st: "window_record k ttl m now ?r1 k = Some (RZset ?z, Some (now + seconds ttl))"
    unfolding window_record_def by (simp add: redis_expire_def zadd_def fresh)
  have le: "\<forall>(n, s) \<in> set (zset_of ?r1 now k). s \<le> now"
  proof clarify
    fix n s assume "(n, s) \<in> set (zset_of ?r1 now k)"
    then have "s \<in> set (map snd (zset_of ?r1 now k))" by force
    then show "s \<le> now" unfolding p(1) using p(3) by auto
  qed
  have "recent now (map snd ?z) = recent now (hist @ [now])" using p(1) by simp
  with st p(2,3) le show ?thesis using assms(3-5) by (auto simp: window_inv_def)
qed

end

end
