(* ===== verification/MessageQuota.thy ===== *)
theory MessageQuota
  imports SlidingWindow Usage Json
begin

section \<open>Message quota and rate limits (\<open>src/app/services/message_usage_service.py\<close>)\<close>

text \<open>
  The monthly counter (Postgres with a Redis cache), the sliding window of one minute (a Redis
  sorted set) and the hourly counters for high priorities. \<open>up\<close> says whether Redis answers. Redis
  is not part of the database transaction: what a check wrote stays, also when it refuses.
\<close>

subsection \<open>Monthly quota\<close>

definition message_count_row :: "world \<Rightarrow> uuid \<Rightarrow> int \<times> int \<Rightarrow> int" where
  "message_count_row w u m =
     (case find (\<lambda>r. (um_user_id r, um_month_start r) = (u, m)) (usage_messages w) of
        None \<Rightarrow> 0 | Some r \<Rightarrow> um_message_count r)"

definition get_monthly_message_count :: "bool \<Rightarrow> uuid \<Rightarrow> time \<Rightarrow> world \<Rightarrow> int \<times> world" where
  "get_monthly_message_count up u now w =
     (let m = current_month_start now; k = KMsgQuota u m;
          cached = (if up then (case redis_get (redis w) now k of Some (RInt n) \<Rightarrow> Some n | _ \<Rightarrow> None) else None)
      in case cached of
           Some n \<Rightarrow> (n, w)
         | None \<Rightarrow>
             (let count = message_count_row w u m
              in (count, if up then w\<lparr>redis := redis_set_ex k (RInt count) (35 * 24 * 3600) now (redis w)\<rparr> else w)))"

definition check_message_quota :: "bool \<Rightarrow> uuid \<Rightarrow> int \<Rightarrow> time \<Rightarrow> world \<Rightarrow> unit reply \<times> world" where
  "check_message_quota up u monthly_limit now w =
     (let (n, w1) = get_monthly_message_count up u now w
      in (if monthly_limit \<le> n then Refused ''quota_exceeded'' 402 else Reply (), w1))"

definition upsert_message_usage :: "uuid \<Rightarrow> int \<times> int \<Rightarrow> message_usage_row list \<Rightarrow> message_usage_row list" where
  "upsert_message_usage u m rows =
     (if \<exists>r \<in> set rows. (um_user_id r, um_month_start r) = (u, m)
      then update_where (\<lambda>r. (um_user_id r, um_month_start r) = (u, m))
             (\<lambda>r. r\<lparr>um_message_count := um_message_count r + 1\<rparr>) rows
      else rows @ [\<lparr>um_user_id = u, um_month_start = m, um_message_count = 1\<rparr>])"

definition increment_monthly_count :: "bool \<Rightarrow> uuid \<Rightarrow> time \<Rightarrow> world \<Rightarrow> int \<times> world" where
  "increment_monthly_count up u now w =
     (let m = current_month_start now;
          w1 = w\<lparr>usage_messages := upsert_message_usage u m (usage_messages w)\<rparr>;
          new_count = message_count_row w1 u m
      in (new_count,
          if up then w1\<lparr>redis := redis_set_ex (KMsgQuota u m) (RInt new_count) (35 * 24 * 3600) now (redis w1)\<rparr> else w1))"

subsection \<open>Per-minute rate limit\<close>

definition per_minute_limit :: "string \<Rightarrow> nat" where
  "per_minute_limit plan = (if plan = ''pro'' then 60 else if plan = ''scale'' then 300 else 10)"

definition check_per_minute_rate_limit :: "bool \<Rightarrow> uuid \<Rightarrow> string \<Rightarrow> string \<Rightarrow> time \<Rightarrow> world \<Rightarrow> unit reply \<times> world" where
  "check_per_minute_rate_limit up u plan member now w =
     (if \<not> up then (Reply (), w)
      else
        (let k = KMsgRate u; r1 = zremrangebyscore k (now - seconds 60) now (redis w)
         in if per_minute_limit plan \<le> length (zset_of r1 now k)
            then (Refused ''rate_limit_exceeded'' 429, w\<lparr>redis := r1\<rparr>)
            else (Reply (), w\<lparr>redis := window_record k 120 member now r1\<rparr>)))"

subsection \<open>High priorities\<close>

definition PRIORITY_HIGH_PER_HOUR_PER_SENDER :: int where
  "PRIORITY_HIGH_PER_HOUR_PER_SENDER = 10"

definition PRIORITY_HIGH_PER_HOUR_PER_PAIR :: int where
  "PRIORITY_HIGH_PER_HOUR_PER_PAIR = 5"

text \<open>INCR, with EXPIRE when the counter was created; \<open>None\<close> is an error of Redis.\<close>

definition count_in_hour :: "redis_key \<Rightarrow> time \<Rightarrow> redis_store \<Rightarrow> (int \<times> redis_store) option" where
  "count_in_hour k now r =
     (case redis_incr k now r of
        Inl _ \<Rightarrow> None
      | Inr (n, r1) \<Rightarrow> Some (n, if n = 1 then redis_expire k 3600 now r1 else r1))"

definition check_priority_high_limits ::
  "bool \<Rightarrow> uuid \<Rightarrow> string \<Rightarrow> string \<Rightarrow> int \<Rightarrow> time \<Rightarrow> world \<Rightarrow> (int \<times> bool) reply \<times> world" where
  "check_priority_high_limits up u from_agent_id to_agent_id priority now w =
     (if priority \<le> 3 \<or> \<not> up then (Reply (priority, False), w)
      else
        (case count_in_hour (KMsgPriorityHigh u) now (redis w) of
           None \<Rightarrow> (Reply (priority, False), w)
         | Some (n, r1) \<Rightarrow>
             if PRIORITY_HIGH_PER_HOUR_PER_SENDER < n
             then (Refused ''priority_high_rate_limit'' 429, w\<lparr>redis := r1\<rparr>)
             else
               (case count_in_hour (KMsgInboundPriority from_agent_id to_agent_id) now r1 of
                  None \<Rightarrow> (Reply (priority, False), w\<lparr>redis := r1\<rparr>)
                | Some (p, r2) \<Rightarrow>
                    (Reply (if PRIORITY_HIGH_PER_HOUR_PER_PAIR < p then (3, True) else (priority, False)),
                     w\<lparr>redis := r2\<rparr>))))"

definition get_user_plan_and_msg_limit :: "world \<Rightarrow> uuid \<Rightarrow> string \<times> int" where
  "get_user_plan_and_msg_limit w u =
     (case get_user_row w u of
        None \<Rightarrow> (''free'', 300)
      | Some r \<Rightarrow> (if usr_plan r = [] then ''free'' else usr_plan r,
                   if usr_monthly_message_limit r = 0 then 300 else usr_monthly_message_limit r))"

text \<open>A limit of 0 therefore reads as 300.\<close>

lemma zero_limit_reads_as_default:
  "get_user_row w u = Some r \<Longrightarrow> usr_monthly_message_limit r = 0 \<Longrightarrow> snd (get_user_plan_and_msg_limit w u) = 300"
  by (simp add: get_user_plan_and_msg_limit_def)

subsection \<open>The window bounds the rate\<close>

text \<open>The accepted times of a sequence of sends of one user, in the order they happen.\<close>

fun rate_run :: "uuid \<Rightarrow> string \<Rightarrow> (time \<times> string) list \<Rightarrow> world \<Rightarrow> time list" where
  "rate_run u plan [] w = []"
| "rate_run u plan ((t, member) # calls) w =
     (case check_per_minute_rate_limit True u plan member t w of
        (Reply _, w') \<Rightarrow> t # rate_run u plan calls w'
      | (_, w') \<Rightarrow> rate_run u plan calls w')"

interpretation msg_window: sliding_window "KMsgRate u" 120 for u
  by unfold_locales simp

lemma rate_step:
  assumes "window_inv (KMsgRate u) 120 t hist (insert m ms) (redis w)" and "t \<le> now" and "0 \<le> now" and "m \<notin> ms"
    and "check_per_minute_rate_limit True u plan m now w = (a, w')"
  shows "(a = Reply () \<and> window_inv (KMsgRate u) 120 now (hist @ [now]) ms (redis w') \<and> length (recent now hist) < per_minute_limit plan)
    \<or> (\<nexists>x. a = Reply x) \<and> window_inv (KMsgRate u) 120 now hist ms (redis w')"
proof -
  let ?r1 = "window_pruned (KMsgRate u) now (redis w)"
  note p = msg_window.pruned [OF assms(1,2)]
  have weaker: "window_inv (KMsgRate u) 120 now hist ms ?r1"
    using p(4) by (auto simp: window_inv_def split: option.splits prod.splits redis_val.splits)
  have fresh: "\<forall>(n, s) \<in> set (zset_of ?r1 now (KMsgRate u)). n \<noteq> m" using p(2) by auto
  have "length (zset_of ?r1 now (KMsgRate u)) = length (recent now hist)" by (rule msg_window.count_is_recent [OF assms(1,2)])
  with msg_window.recorded [OF assms(1-3) subset_insertI assms(4) fresh] weaker assms(5) show ?thesis
    by (auto simp: check_per_minute_rate_limit_def Let_def split: if_splits)
qed

lemma rate_run_window:
  assumes "window_inv (KMsgRate u) 120 t hist (set (map snd calls)) (redis w)" and "sorted (t # map fst calls)" and "0 \<le> t"
    and "distinct (map snd calls)" and "window_ok (per_minute_limit plan) hist"
  shows "window_ok (per_minute_limit plan) (hist @ rate_run u plan calls w)"
  using assms
proof (induction calls arbitrary: t hist w)
  case (Cons c calls)
  obtain now m where c: "c = (now, m)" by fastforce
  obtain a w' where chk: "check_per_minute_rate_limit True u plan m now w = (a, w')" by fastforce
  have now: "t \<le> now" "0 \<le> now" "sorted (now # map fst calls)" using Cons.prems(2,3) c by auto
  have inv: "window_inv (KMsgRate u) 120 t hist (insert m (set (map snd calls))) (redis w)" using Cons.prems(1) c by simp
  have "m \<notin> set (map snd calls)" using Cons.prems(4) c by auto
  from rate_step [OF inv now(1,2) this chk] show ?case
  proof (elim disjE conjE)
    assume a: "a = Reply ()" and s: "window_inv (KMsgRate u) 120 now (hist @ [now]) (set (map snd calls)) (redis w')"
      "length (recent now hist) < per_minute_limit plan"
    have "window_ok (per_minute_limit plan) (hist @ [now])"
      by (rule window_ok_snoc [OF Cons.prems(5) _ s(2)]) (use msg_window.pruned(3) [OF inv now(1)] in blast)
    from Cons.IH [OF s(1) now(3,2) _ this] Cons.prems(4) show ?thesis by (simp add: c chk a)
  next
    assume "\<nexists>x. a = Reply x" and "window_inv (KMsgRate u) 120 now hist (set (map snd calls)) (redis w')"
    with Cons.IH [OF this(2) now(3,2) _ Cons.prems(5)] Cons.prems(4) show ?thesis by (cases a) (auto simp: c chk)
  qed
qed simp

text \<open>
  The sliding window is exact: whatever the times of the sends of a user, at most the limit of
  the plan is accepted in any window of 60 seconds.
\<close>

theorem rate_limit_window:
  assumes "sorted (map fst calls)" and "\<forall>c \<in> set calls. 0 \<le> fst c" and "distinct (map snd calls)"
    and "redis w (KMsgRate u) = None"
  shows "length (filter (\<lambda>a. t - seconds 60 < a \<and> a \<le> t) (rate_run u plan calls w)) \<le> per_minute_limit plan"
proof -
  have "window_inv (KMsgRate u) 120 0 [] (set (map snd calls)) (redis w)" by (rule window_inv_empty) (rule assms(4))
  moreover have "sorted (0 # map fst calls)" using assms(1,2) by auto
  moreover have "window_ok (per_minute_limit plan) []" by (simp add: window_ok_def)
  ultimately have "window_ok (per_minute_limit plan) ([] @ rate_run u plan calls w)"
    using rate_run_window assms(3) by blast
  then show ?thesis by (simp add: window_ok_def)
qed

theorem rate_limit_window_witness:
  "length (filter (\<lambda>a. 100 - seconds 60 < a \<and> a \<le> 100)
     (rate_run 7 ''free'' (map (\<lambda>i. (int i, nat_str i)) [0..<12]) empty_world)) \<le> 10"
proof -
  let ?calls = "map (\<lambda>i. (int i, nat_str i)) [0..<12]"
  have "sorted (map fst ?calls)" by code_simp
  moreover have "\<forall>c \<in> set ?calls. 0 \<le> fst c" by auto
  moreover have "distinct (map snd ?calls)" by code_simp
  ultimately show ?thesis
    using rate_limit_window [of ?calls empty_world 7 100 "''free''"] by (simp add: empty_world_def per_minute_limit_def)
qed

end
