(* ===== verification/Authz.thy ===== *)
theory Authz
  imports WebhookDelivery Redis
begin

section \<open>Who may message whom (\<open>src/app/services/authorization_backend.py\<close>)\<close>

text \<open>
  The pluggable decision before a message is accepted: same tenant (the default), everyone, a
  static list of user pairs, or a signed call of an external hook with a cached answer. The HTTP
  client and HMAC come from \<open>net\<close>; decoding a JSON text and truncating a float are arguments.
\<close>

datatype authz_backend = SameTenant | Everyone | Allowlist "(string \<times> string) list" | AuthzHook string string

record authz_env =
  az_net :: net
  az_json :: "string \<Rightarrow> json option"
  az_float :: "string \<Rightarrow> int option"

record authz_query =
  aq_sender_user_id :: uuid
  aq_recipient_user_id :: uuid
  aq_sender_agent_id :: string
  aq_recipient_agent_id :: string
  aq_message_kind :: string
  aq_idempotency_key :: "string option"

subsection \<open>The allowlist\<close>

text \<open>One entry of \<open>AUTHZ_ALLOWLIST\<close>: the text before and after the first colon; others are dropped.\<close>

definition parse_entry :: "string \<Rightarrow> (string \<times> string) option" where
  "parse_entry raw =
     (let entry = strip raw in
      if CHR '':'' \<notin> set entry then None
      else
        (let sender = strip (takeWhile (\<lambda>c. c \<noteq> CHR '':'') entry);
             recipient = strip (drop 1 (dropWhile (\<lambda>c. c \<noteq> CHR '':'') entry))
         in if sender = [] \<or> recipient = [] then None else Some (sender, recipient)))"

definition parse_env_allowlist :: "string \<Rightarrow> (string \<times> string) list" where
  "parse_env_allowlist raw = (if raw = [] then [] else List.map_filter parse_entry (split_on (CHR '','') raw))"

subsection \<open>The hook\<close>

definition hook_body :: "authz_query \<Rightarrow> json" where
  "hook_body q = JObj
     [(''sender_user_id'', JStr (nat_str (aq_sender_user_id q))),
      (''recipient_user_id'', JStr (nat_str (aq_recipient_user_id q))),
      (''sender_agent_id'', JStr (aq_sender_agent_id q)), (''recipient_agent_id'', JStr (aq_recipient_agent_id q)),
      (''message_kind'', JStr (aq_message_kind q)),
      (''idempotency_key'', (case aq_idempotency_key q of None \<Rightarrow> JNull | Some k \<Rightarrow> JStr k))]"

definition hook_request :: "authz_env \<Rightarrow> string \<Rightarrow> string \<Rightarrow> authz_query \<Rightarrow> time \<Rightarrow> http_request" where
  "hook_request az url secret q now =
     (let body = hook_body q; timestamp = int_str (now div seconds 1);
          signature = ''v1='' @ net_hmac (az_net az) secret (timestamp @ ''.'' @ json_dumps True True body)
      in \<lparr>rq_method = ''POST'', rq_url = url,
          rq_headers = [(''Content-Type'', ''application/json''), (''X-CueAPI-Timestamp'', timestamp)] @
            (if secret = [] then [] else [(''X-CueAPI-Signature'', signature)]),
          rq_body = Some body\<rparr>)"

text \<open>\<open>int(v)\<close> of a decoded JSON value.\<close>

definition json_int :: "authz_env \<Rightarrow> json \<Rightarrow> py_error + int" where
  "json_int az v = (case v of
     JInt i \<Rightarrow> Inr i
   | JBool b \<Rightarrow> Inr (if b then 1 else 0)
   | JStr s \<Rightarrow> (case py_int s of None \<Rightarrow> Inl ValueError | Some i \<Rightarrow> Inr i)
   | JFloat f \<Rightarrow> (case az_float az f of None \<Rightarrow> Inl ValueError | Some i \<Rightarrow> Inr i)
   | _ \<Rightarrow> Inl TypeError)"

definition authz_key :: "authz_query \<Rightarrow> redis_key" where
  "authz_key q = KAuthz (aq_sender_user_id q) (aq_recipient_user_id q) (aq_message_kind q)"

definition hook_decision :: "authz_env \<Rightarrow> bool \<Rightarrow> authz_query \<Rightarrow> string \<Rightarrow> time \<Rightarrow> world \<Rightarrow> bool reply \<times> world" where
  "hook_decision az up q text now w =
     (case az_json az text of
        None \<Rightarrow> (Reply False, w)
      | Some payload \<Rightarrow>
          (case payload of
             JObj _ \<Rightarrow>
               (let decision = json_get payload ''decision'' in
                if decision \<notin> {Some (JStr ''allow''), Some (JStr ''deny'')} then (Reply False, w)
                else
                  (let allow = (decision = Some (JStr ''allow'')) in
                   case json_int az (case json_get payload ''cache_ttl'' of None \<Rightarrow> JInt 60 | Some v \<Rightarrow> v) of
                     Inl err \<Rightarrow> (Raised err, w)
                   | Inr ttl \<Rightarrow>
                       (Reply allow,
                        if 0 < ttl \<and> up
                        then w\<lparr>redis := redis_set_ex (authz_key q) (RStr (if allow then ''1'' else ''0'')) ttl now (redis w)\<rparr>
                        else w)))
           | _ \<Rightarrow> (Raised AttributeError, w)))"

definition call_hook :: "authz_env \<Rightarrow> bool \<Rightarrow> string \<Rightarrow> string \<Rightarrow> authz_query \<Rightarrow> time \<Rightarrow> world \<Rightarrow> bool reply \<times> world" where
  "call_hook az up url secret q now w =
     (case net_http (az_net az) (hook_request az url secret q now) of
        HttpResponse code text \<Rightarrow> if code \<noteq> 200 then (Reply False, w) else hook_decision az up q text now w
      | _ \<Rightarrow> (Reply False, w))"

definition authorize_message ::
  "authz_env \<Rightarrow> bool \<Rightarrow> authz_backend \<Rightarrow> authz_query \<Rightarrow> time \<Rightarrow> world \<Rightarrow> bool reply \<times> world" where
  "authorize_message az up backend q now w =
     (case backend of
        SameTenant \<Rightarrow> (Reply (aq_sender_user_id q = aq_recipient_user_id q), w)
      | Everyone \<Rightarrow> (Reply True, w)
      | Allowlist pairs \<Rightarrow>
          (Reply (aq_sender_user_id q = aq_recipient_user_id q
             \<or> (nat_str (aq_sender_user_id q), nat_str (aq_recipient_user_id q)) \<in> set pairs), w)
      | AuthzHook url secret \<Rightarrow>
          (case (if up then redis_get (redis w) now (authz_key q) else None) of
             Some v \<Rightarrow> (Reply (v = RStr ''1''), w)
           | None \<Rightarrow> call_hook az up url secret q now w))"

text \<open>
  The configured backend: \<open>loaded\<close> is the class behind the import path when it loads and is a
  backend; loading errors fall through to the hook and then to the default.
\<close>

definition get_authorization_backend :: "authz_backend option \<Rightarrow> string \<Rightarrow> string \<Rightarrow> authz_backend" where
  "get_authorization_backend loaded hook_url hook_secret =
     (case loaded of
        Some b \<Rightarrow> b
      | None \<Rightarrow> if hook_url \<noteq> [] then AuthzHook hook_url hook_secret else SameTenant)"

subsection \<open>Properties\<close>

text \<open>Only the cached decision of the pair may change.\<close>

definition redis_only :: "redis_key \<Rightarrow> world \<Rightarrow> world \<Rightarrow> bool" where
  "redis_only k w w' \<longleftrightarrow> w' = w\<lparr>redis := redis w'\<rparr> \<and> (\<forall>k'. k' \<noteq> k \<longrightarrow> redis w' k' = redis w k')"

lemma redis_only_refl [simp]: "redis_only k w w"
  by (simp add: redis_only_def)

lemma hook_decision_frame: "redis_only (authz_key q) w (snd (hook_decision az up q body now w))"
proof -
  have "redis_only (authz_key q) w (w\<lparr>redis := redis_set_ex (authz_key q) v ttl now (redis w)\<rparr>)" for v ttl
    by (simp add: redis_only_def redis_set_ex_def)
  then show ?thesis
    unfolding hook_decision_def Let_def by (simp split: option.split json.split sum.split)
qed

lemma authorize_frame: "redis_only (authz_key q) w (snd (authorize_message az up backend q now w))"
  unfolding authorize_message_def call_hook_def
  by (simp add: hook_decision_frame split: authz_backend.split option.split http_answer.split)

lemma hook_decision_allow:
  assumes "hook_decision az up q text now w = (Reply b, w')"
  shows "(b \<longrightarrow> (\<exists>payload. az_json az text = Some payload \<and> json_get payload ''decision'' = Some (JStr ''allow'')))
    \<and> (w' \<noteq> w \<longrightarrow> (\<exists>ttl. 0 < ttl \<and> redis w' = redis_set_ex (authz_key q) (RStr (if b then ''1'' else ''0'')) ttl now (redis w)))"
  using assms
  by (auto simp: hook_decision_def Let_def split: option.splits json.splits sum.splits if_splits)


definition example_authz :: "string \<Rightarrow> authz_env" where
  "example_authz decision = \<lparr>az_net = example_net,
     az_json = (\<lambda>t. if t = ''ok'' then Some (JObj [(''decision'', JStr decision)]) else None), az_float = (\<lambda>_. None)\<rparr>"

definition example_query :: authz_query where
  "example_query = \<lparr>aq_sender_user_id = 7, aq_recipient_user_id = 8, aq_sender_agent_id = ''a'',
     aq_recipient_agent_id = ''b'', aq_message_kind = ''message'', aq_idempotency_key = None\<rparr>"


text \<open>
  A decision may outlive its reason: while it is cached the hook is not asked again. And a body
  that is JSON but not an object is not denied but raises.
\<close>

lemma cached_decision_used:
  assumes "redis_get (redis w) now (authz_key q) = Some (RStr d)"
  shows "authorize_message az True (AuthzHook url secret) q now w = (Reply (d = ''1''), w)"
  using assms by (simp add: authorize_message_def)

lemma non_object_body_raises:
  assumes "az_json az text = Some (JList vs)"
  shows "hook_decision az up q text now w = (Raised AttributeError, w)"
  using assms by (simp add: hook_decision_def)

end
