(* ===== verification/Messages.thy ===== *)
theory Messages
  imports Events MessageQuota Authz
begin

section \<open>Messages between agents (\<open>src/app/services/message_service.py\<close>, \<open>inbox_service.py\<close>)\<close>

text \<open>
  Sending a message with its checks (ownership, authorization, rate, idempotency, quota, thread),
  the rows an accepted message writes in one transaction (message, event, outbox row, last seen),
  and the recipient's side: reading, acknowledging and polling the inbox. SHA-256 is an argument.
\<close>

subsection \<open>Chaining steps of a handler\<close>

text \<open>A step answers or leaves the handler; the state it reached is kept either way.\<close>

definition and_then :: "'a reply \<times> world \<Rightarrow> ('a \<Rightarrow> world \<Rightarrow> 'b reply \<times> world) \<Rightarrow> 'b reply \<times> world" where
  "and_then p k =
     (case p of
        (Reply a, w) \<Rightarrow> k a w
      | (Refused code st, w) \<Rightarrow> (Refused code st, w)
      | (Raised err, w) \<Rightarrow> (Raised err, w))"

definition require :: "bool \<Rightarrow> string \<Rightarrow> int \<Rightarrow> world \<Rightarrow> unit reply \<times> world" where
  "require ok code st w = (if ok then Reply () else Refused code st, w)"

lemma and_then_simps [simp]:
  "and_then (Reply a, w) k = k a w"
  "and_then (Refused code st, w) k = (Refused code st, w)"
  "and_then (Raised err, w) k = (Raised err, w)"
  by (simp_all add: and_then_def)

lemma and_then_Reply:
  "and_then p k = (Reply b, w') \<longleftrightarrow> (\<exists>a w. p = (Reply a, w) \<and> k a w = (Reply b, w'))"
  by (cases p; cases "fst p") auto

lemma require_Reply [simp]: "require ok code st w = (Reply x, w') \<longleftrightarrow> ok \<and> w' = w"
  by (auto simp: require_def)

subsection \<open>Requests\<close>

record message_create =
  mc_to :: string
  mc_body :: string
  mc_subject :: "string option"
  mc_reply_to :: "string option"
  mc_priority :: int
  mc_expects_reply :: bool
  mc_reply_to_agent :: "string option"
  mc_metadata :: json
  mc_correlation_id :: "string option"
  mc_send_at :: "time option"

definition opt_all :: "('a \<Rightarrow> bool) \<Rightarrow> 'a option \<Rightarrow> bool" where
  "opt_all p x = (case x of None \<Rightarrow> True | Some v \<Rightarrow> p v)"

definition message_id_pattern :: "string \<Rightarrow> bool" where
  "message_id_pattern s \<longleftrightarrow> length s = 16 \<and> take 4 s = ''msg_'' \<and> list_all slug_char (drop 4 s)"

definition message_create_ok :: "message_create \<Rightarrow> bool" where
  "message_create_ok d \<longleftrightarrow> mc_to d \<noteq> [] \<and> mc_body d \<noteq> [] \<and> length (mc_body d) \<le> 32768
     \<and> opt_all (\<lambda>s. length s \<le> 255) (mc_subject d) \<and> opt_all message_id_pattern (mc_reply_to d)
     \<and> 1 \<le> mc_priority d \<and> mc_priority d \<le> 5 \<and> opt_all (\<lambda>s. s \<noteq> []) (mc_reply_to_agent d)
     \<and> (case mc_metadata d of JObj _ \<Rightarrow> True | _ \<Rightarrow> False)
     \<and> opt_all (\<lambda>s. length s \<le> 255) (mc_correlation_id d)"

text \<open>Settings, the authorization backend and the Redis connection.\<close>

record message_env =
  me_authz :: authz_env
  me_backend :: authz_backend
  me_redis_up :: bool
  me_sha256 :: "string \<Rightarrow> string"
  me_disable_quota :: bool
  me_ttl_days :: int

definition METADATA_MAX_BYTES :: nat where
  "METADATA_MAX_BYTES = 10240"

definition IDEMPOTENCY_DEDUP_WINDOW_HOURS :: int where
  "IDEMPOTENCY_DEDUP_WINDOW_HOURS = 24"

definition opt_json :: "string option \<Rightarrow> json" where
  "opt_json x = (case x of None \<Rightarrow> JNull | Some s \<Rightarrow> JStr s)"

definition metadata_or_empty :: "json \<Rightarrow> json" where
  "metadata_or_empty m = (if json_truthy m then m else JObj [])"

definition fingerprint_text :: "string \<Rightarrow> message_create \<Rightarrow> int \<Rightarrow> string" where
  "fingerprint_text to_agent_id d priority = json_dumps False True
     (JObj [(''to'', JStr to_agent_id), (''body'', JStr (mc_body d)), (''subject'', opt_json (mc_subject d)),
        (''priority'', JInt priority), (''reply_to'', opt_json (mc_reply_to d)),
        (''metadata'', metadata_or_empty (mc_metadata d))])"

definition compute_fingerprint :: "(string \<Rightarrow> string) \<Rightarrow> string \<Rightarrow> message_create \<Rightarrow> int \<Rightarrow> string" where
  "compute_fingerprint sha256 to_agent_id d priority = sha256 (fingerprint_text to_agent_id d priority)"

subsection \<open>The checks before a message is stored\<close>

definition resolve_optional :: "world \<Rightarrow> string option \<Rightarrow> agent option reply" where
  "resolve_optional w addr =
     (case addr of
        None \<Rightarrow> Reply None
      | Some x \<Rightarrow>
          (case resolve_address w x of
             Reply a \<Rightarrow> Reply (Some a)
           | Refused code st \<Rightarrow> Refused code st
           | Raised err \<Rightarrow> Raised err))"

definition authorize_one ::
  "message_env \<Rightarrow> uuid \<Rightarrow> agent \<Rightarrow> string \<Rightarrow> string option \<Rightarrow> agent \<Rightarrow> time \<Rightarrow> world \<Rightarrow> unit reply \<times> world" where
  "authorize_one env u from_agent kind key recipient now w =
     and_then
       (authorize_message (me_authz env) (me_redis_up env) (me_backend env)
          \<lparr>aq_sender_user_id = u, aq_recipient_user_id = ag_user_id recipient, aq_sender_agent_id = ag_id from_agent,
           aq_recipient_agent_id = ag_id recipient, aq_message_kind = kind, aq_idempotency_key = key\<rparr> now w)
       (\<lambda>allowed w. require allowed ''cross_tenant_messaging_forbidden'' 403 w)"

definition authorize_send ::
  "message_env \<Rightarrow> uuid \<Rightarrow> agent \<Rightarrow> string option \<Rightarrow> agent \<Rightarrow> agent option \<Rightarrow> time \<Rightarrow> world \<Rightarrow> unit reply \<times> world" where
  "authorize_send env u from_agent key to_agent reply_agent now w =
     and_then (authorize_one env u from_agent ''message'' key to_agent now w)
       (\<lambda>_ w. case reply_agent of
                None \<Rightarrow> (Reply (), w)
              | Some a \<Rightarrow> authorize_one env u from_agent ''reply_chain'' key a now w)"

definition enforce_limits ::
  "message_env \<Rightarrow> uuid \<Rightarrow> string \<Rightarrow> string \<Rightarrow> int \<Rightarrow> string \<Rightarrow> time \<Rightarrow> world \<Rightarrow> (int \<times> bool) reply \<times> world" where
  "enforce_limits env u from_id to_id priority member now w =
     (if me_disable_quota env then (Reply (priority, False), w)
      else
        and_then (check_per_minute_rate_limit (me_redis_up env) u (fst (get_user_plan_and_msg_limit w u)) member now w)
          (\<lambda>_ w. check_priority_high_limits (me_redis_up env) u from_id to_id priority now w))"

definition existing_for_key :: "world \<Rightarrow> uuid \<Rightarrow> string option \<Rightarrow> time \<Rightarrow> message option" where
  "existing_for_key w u key now =
     (case key of
        None \<Rightarrow> None
      | Some k \<Rightarrow>
          find (\<lambda>m. msg_user_id m = u \<and> msg_idempotency_key m = Some k
                  \<and> now - hours IDEMPOTENCY_DEDUP_WINDOW_HOURS < msg_created_at m) (messages w))"

definition enforce_quota :: "message_env \<Rightarrow> uuid \<Rightarrow> time \<Rightarrow> world \<Rightarrow> unit reply \<times> world" where
  "enforce_quota env u now w =
     (if me_disable_quota env then (Reply (), w)
      else check_message_quota (me_redis_up env) u (snd (get_user_plan_and_msg_limit w u)) now w)"

definition get_message_row :: "world \<Rightarrow> string \<Rightarrow> message option" where
  "get_message_row w i = find (\<lambda>m. msg_id m = i) (messages w)"

definition resolve_reply_to :: "world \<Rightarrow> string option \<Rightarrow> (string \<times> string option) reply" where
  "resolve_reply_to w reply_to =
     (case reply_to of
        None \<Rightarrow> Reply ('''', None)
      | Some r \<Rightarrow>
          (case get_message_row w r of
             None \<Rightarrow> Refused ''reply_to_not_found'' 404
           | Some parent \<Rightarrow> Reply (msg_thread_id parent, Some (msg_id parent))))"

subsection \<open>Storing a message\<close>

definition opt_has_nul :: "string option \<Rightarrow> bool" where
  "opt_has_nul x = (case x of None \<Rightarrow> False | Some s \<Rightarrow> has_nul s)"

text \<open>The column widths, the CHECK on the body in bytes, and the two unique keys.\<close>

definition message_storable :: "world \<Rightarrow> message \<Rightarrow> bool" where
  "message_storable w m \<longleftrightarrow> utf8_len (msg_body m) \<le> 32768 \<and> 1 \<le> msg_priority m \<and> msg_priority m \<le> 5
     \<and> \<not> has_nul (msg_body m) \<and> \<not> opt_has_nul (msg_subject m) \<and> \<not> opt_has_nul (msg_correlation_id m)
     \<and> \<not> opt_has_nul (msg_idempotency_key m) \<and> \<not> contains_null_byte (msg_metadata m)
     \<and> opt_all (\<lambda>s. length s \<le> 255) (msg_subject m) \<and> opt_all (\<lambda>s. length s \<le> 255) (msg_idempotency_key m)
     \<and> opt_all (\<lambda>s. length s \<le> 255) (msg_correlation_id m)
     \<and> opt_all (\<lambda>s. length s \<le> 64) (msg_idempotency_fingerprint m)
     \<and> msg_id m \<notin> msg_id ` set (messages w)
     \<and> (msg_idempotency_key m \<noteq> None \<longrightarrow>
          \<not> list_ex (\<lambda>x. msg_user_id x = msg_user_id m \<and> msg_idempotency_key x = msg_idempotency_key m) (messages w))"

definition effective_send_at :: "time \<Rightarrow> time option \<Rightarrow> time option" where
  "effective_send_at now send_at = (case send_at of None \<Rightarrow> None | Some t \<Rightarrow> if now < t then Some t else None)"

definition new_message ::
  "message_env \<Rightarrow> uuid \<Rightarrow> message_create \<Rightarrow> string option \<Rightarrow> agent \<Rightarrow> agent \<Rightarrow> agent option \<Rightarrow> int
     \<Rightarrow> string \<Rightarrow> string option \<Rightarrow> string \<Rightarrow> string \<Rightarrow> time \<Rightarrow> message" where
  "new_message env u d key from_agent to_agent reply_agent priority inherited parent new_id fingerprint now =
     \<lparr>msg_id = new_id, msg_user_id = u, msg_from_agent_id = ag_id from_agent, msg_to_agent_id = ag_id to_agent,
      msg_thread_id = (if inherited = [] then new_id else inherited), msg_reply_to = parent,
      msg_subject = mc_subject d, msg_body = mc_body d, msg_preview = take 200 (mc_body d), msg_priority = priority,
      msg_expects_reply = mc_expects_reply d, msg_reply_to_agent_id = map_option ag_id reply_agent,
      msg_delivery_state = MQueued, msg_metadata = metadata_or_empty (mc_metadata d), msg_idempotency_key = key,
      msg_idempotency_fingerprint = (if truthy key then Some fingerprint else None), msg_created_at = now,
      msg_delivered_at = None, msg_read_at = None, msg_acked_at = None, msg_failed_at = None,
      msg_delivering_started_at = None, msg_send_at = effective_send_at now (mc_send_at d),
      msg_expires_at = now + days (me_ttl_days env), msg_dispatch_priority_bucket = priority,
      msg_dispatch_error = None, msg_correlation_id = mc_correlation_id d\<rparr>"

definition delivered_payload :: "message \<Rightarrow> (string \<times> json) list" where
  "delivered_payload m =
     [(''message_id'', JStr (msg_id m)), (''sender_agent_id'', JStr (msg_from_agent_id m)),
      (''recipient_agent_id'', JStr (msg_to_agent_id m)), (''thread_id'', JStr (msg_thread_id m)),
      (''reply_to'', opt_json (msg_reply_to m)), (''priority'', JInt (msg_priority m)),
      (''correlation_id'', opt_json (msg_correlation_id m)), (''subject'', opt_json (msg_subject m))]"

definition delivered_key :: "string \<Rightarrow> string" where
  "delivered_key i = ''message.delivered:'' @ i"

definition enqueue_push :: "agent \<Rightarrow> message \<Rightarrow> time \<Rightarrow> world \<Rightarrow> world" where
  "enqueue_push to_agent m now w =
     (if ag_webhook_url to_agent = None then w
      else insert_outbox None None DeliverMessage
             (MessageTask \<lparr>m_message_id = msg_id m, m_to_agent_id = ag_id to_agent, m_webhook_url = ag_webhook_url to_agent,
                m_attempt = None\<rparr>) (msg_send_at m) now w)"

text \<open>
  The insert runs when the event is emitted (the session flushes before its first query). Its
  error is swallowed there, but the session is then unusable and the commit raises; the whole
  transaction is lost. The monthly count is a transaction of its own, after the commit.
\<close>

definition persist_message :: "message_env \<Rightarrow> uuid \<Rightarrow> agent \<Rightarrow> agent \<Rightarrow> message \<Rightarrow> time \<Rightarrow> world \<Rightarrow> message reply \<times> world" where
  "persist_message env u from_agent to_agent m now w =
     (if \<not> message_storable w m then (Raised PendingRollbackError, w)
      else
        (case emit_event ''message.delivered'' (ag_id to_agent) (delivered_payload m)
                (Some (delivered_key (msg_id m))) (Some (msg_body m)) now (w\<lparr>messages := messages w @ [m]\<rparr>) of
           (Reply _, w1) \<Rightarrow>
             (let w2 = touch_last_seen (ag_id from_agent) now (enqueue_push to_agent m now w1)
              in (Reply m, snd (increment_monthly_count (me_redis_up env) u now w2)))
         | (_, _) \<Rightarrow> (Raised PendingRollbackError, w)))"

subsection \<open>Sending\<close>

text \<open>Everything that happens before the idempotency key is looked at.\<close>

definition admit_message ::
  "message_env \<Rightarrow> uuid \<Rightarrow> message_create \<Rightarrow> string option \<Rightarrow> agent \<Rightarrow> string \<Rightarrow> time \<Rightarrow> world
     \<Rightarrow> (agent \<times> agent option \<times> int \<times> bool) reply \<times> world" where
  "admit_message env u d key from_agent member now w0 =
     and_then (require (utf8_len (json_dumps False True (metadata_or_empty (mc_metadata d))) \<le> METADATA_MAX_BYTES)
                 ''metadata_too_large'' 400 w0) (\<lambda>_ w.
     and_then (require (ag_user_id from_agent = u) ''from_agent_not_owned'' 403 w) (\<lambda>_ w.
     and_then (require (ag_deleted_at from_agent = None) ''from_agent_deleted'' 400 w) (\<lambda>_ w.
     and_then (resolve_address w (mc_to d), w) (\<lambda>to_agent w.
     and_then (resolve_optional w (mc_reply_to_agent d), w) (\<lambda>reply_agent w.
     and_then (authorize_send env u from_agent key to_agent reply_agent now w) (\<lambda>_ w.
     and_then (enforce_limits env u (ag_id from_agent) (ag_id to_agent) (mc_priority d) member now w)
       (\<lambda>(priority, downgraded) w. (Reply (to_agent, reply_agent, priority, downgraded), w))))))))"

definition create_message ::
  "message_env \<Rightarrow> uuid \<Rightarrow> message_create \<Rightarrow> string option \<Rightarrow> agent \<Rightarrow> string \<Rightarrow> string \<Rightarrow> time \<Rightarrow> world
     \<Rightarrow> (message \<times> bool \<times> bool) reply \<times> world" where
  "create_message env u d key from_agent new_id member now w0 =
     and_then (admit_message env u d key from_agent member now w0) (\<lambda>(to_agent, reply_agent, priority, downgraded) w.
     let fingerprint = compute_fingerprint (me_sha256 env) (ag_id to_agent) d priority
     in case existing_for_key w u key now of
          Some m \<Rightarrow>
            if msg_idempotency_fingerprint m = Some fingerprint then (Reply (m, True, False), w)
            else (Refused ''idempotency_key_conflict'' 409, w)
        | None \<Rightarrow>
            and_then (enforce_quota env u now w) (\<lambda>_ w.
            and_then (resolve_reply_to w (mc_reply_to d), w) (\<lambda>(inherited, parent) w.
            and_then (persist_message env u from_agent to_agent
                        (new_message env u d key from_agent to_agent reply_agent priority inherited parent new_id fingerprint now)
                        now w) (\<lambda>m w.
            (Reply (m, False, downgraded), w)))))"

definition send_message ::
  "message_env \<Rightarrow> uuid \<Rightarrow> message_create \<Rightarrow> string option \<Rightarrow> string option \<Rightarrow> string \<Rightarrow> string \<Rightarrow> time \<Rightarrow> world
     \<Rightarrow> (message \<times> int \<times> bool) reply \<times> world" where
  "send_message env u d from_header key new_id member now w0 =
     and_then (require (truthy from_header) ''missing_from_agent'' 400 w0) (\<lambda>_ w.
     and_then (resolve_address w (the from_header), w) (\<lambda>from_agent w.
     and_then (require (opt_all (\<lambda>k. length k \<le> 255) key) ''invalid_idempotency_key'' 400 w) (\<lambda>_ w.
     and_then (create_message env u d key from_agent new_id member now w) (\<lambda>(m, dedup, downgraded) w.
     (Reply (m, if dedup then 200 else 201, downgraded), w)))))"
subsection \<open>Reading and acknowledging\<close>

text \<open>The query joins the recipient agent, so a message without one is not found either.\<close>

definition get_message_for_user :: "world \<Rightarrow> uuid \<Rightarrow> string \<Rightarrow> message reply" where
  "get_message_for_user w u i =
     (case get_message_row w i of
        None \<Rightarrow> Refused ''message_not_found'' 404
      | Some m \<Rightarrow>
          (case find (\<lambda>a. ag_id a = msg_to_agent_id m) (agents w) of
             None \<Rightarrow> Refused ''message_not_found'' 404
           | Some a \<Rightarrow>
               if msg_user_id m = u \<or> ag_user_id a = u then Reply m
               else Refused ''message_not_found'' 404))"

definition update_message_row :: "string \<Rightarrow> (message \<Rightarrow> message) \<Rightarrow> world \<Rightarrow> world" where
  "update_message_row i f w = w\<lparr>messages := update_where (\<lambda>m. msg_id m = i) f (messages w)\<rparr>"

definition read_row :: "time \<Rightarrow> message \<Rightarrow> message" where
  "read_row now m = m\<lparr>msg_delivery_state := MRead, msg_read_at := Some now\<rparr>"

definition ack_row :: "time \<Rightarrow> message \<Rightarrow> message" where
  "ack_row now m = m\<lparr>msg_delivery_state := MAcked, msg_acked_at := Some now\<rparr>"

definition mark_read :: "uuid \<Rightarrow> string \<Rightarrow> time \<Rightarrow> world \<Rightarrow> message reply \<times> world" where
  "mark_read u i now w =
     and_then (get_message_for_user w u i, w) (\<lambda>m w.
       if msg_delivery_state m \<in> {MAcked, MExpired} then (Refused ''invalid_state_transition'' 409, w)
       else if msg_delivery_state m = MRead then (Reply m, w)
       else (Reply (read_row now m), update_message_row (msg_id m) (read_row now) w))"

definition mark_acked :: "uuid \<Rightarrow> string \<Rightarrow> time \<Rightarrow> world \<Rightarrow> message reply \<times> world" where
  "mark_acked u i now w =
     and_then (get_message_for_user w u i, w) (\<lambda>m w.
       if msg_delivery_state m = MAcked then (Reply m, w)
       else if msg_delivery_state m = MExpired then (Refused ''invalid_state_transition'' 409, w)
       else (Reply (ack_row now m), update_message_row (msg_id m) (ack_row now) w))"

subsection \<open>The inbox\<close>

definition state_name :: "delivery_state \<Rightarrow> string" where
  "state_name s = (case s of MQueued \<Rightarrow> ''queued'' | MDelivering \<Rightarrow> ''delivering'' | MRetryReady \<Rightarrow> ''retry_ready''
     | MDelivered \<Rightarrow> ''delivered'' | MRead \<Rightarrow> ''read'' | MClaimed \<Rightarrow> ''claimed'' | MAcked \<Rightarrow> ''acked''
     | MExpired \<Rightarrow> ''expired'' | MFailed \<Rightarrow> ''failed'')"

definition DEFAULT_STATES :: "string list" where
  "DEFAULT_STATES = [''queued'', ''delivering'', ''retry_ready'', ''delivered'', ''read'', ''claimed'', ''failed'']"

definition ALL_STATES :: "string list" where
  "ALL_STATES = DEFAULT_STATES @ [''acked'', ''expired'']"

definition parse_state_filter :: "string list \<Rightarrow> string option \<Rightarrow> string list reply" where
  "parse_state_filter no_filter states =
     (case states of
        None \<Rightarrow> Reply no_filter
      | Some s \<Rightarrow>
          (let parsed = filter (\<lambda>x. x \<noteq> []) (map strip (split_on (CHR '','') s))
           in if list_all (\<lambda>x. x \<in> set ALL_STATES) parsed then Reply parsed
              else Refused ''invalid_state_filter'' 400))"

record message_filter =
  mf_states :: "string option"
  mf_since :: "time option"
  mf_thread_id :: "string option"
  mf_counterpart :: "string option"
  mf_limit :: nat
  mf_offset :: nat

datatype inbox_result = InboxCount nat | InboxPage "message list" nat

definition due_now :: "time \<Rightarrow> message \<Rightarrow> bool" where
  "due_now now m = opt_all (\<lambda>t. t \<le> now) (msg_send_at m)"

definition since_thread :: "message_filter \<Rightarrow> message \<Rightarrow> bool" where
  "since_thread f m \<longleftrightarrow> opt_all (\<lambda>t. t < msg_created_at m) (mf_since f) \<and> opt_all (\<lambda>t. msg_thread_id m = t) (mf_thread_id f)"

definition inbox_visible :: "string \<Rightarrow> string list \<Rightarrow> message_filter \<Rightarrow> agent option \<Rightarrow> time \<Rightarrow> message \<Rightarrow> bool" where
  "inbox_visible agent states f counterpart now m \<longleftrightarrow>
     msg_to_agent_id m = agent \<and> state_name (msg_delivery_state m) \<in> set states \<and> due_now now m
     \<and> since_thread f m \<and> opt_all (\<lambda>a. msg_from_agent_id m = ag_id a) counterpart"

definition polled :: "string \<Rightarrow> agent option \<Rightarrow> time \<Rightarrow> message \<Rightarrow> bool" where
  "polled agent counterpart now m \<longleftrightarrow>
     msg_to_agent_id m = agent \<and> msg_delivery_state m = MQueued \<and> due_now now m
     \<and> opt_all (\<lambda>a. msg_from_agent_id m = ag_id a) counterpart"

definition delivered_row :: "time \<Rightarrow> message \<Rightarrow> message" where
  "delivered_row now m = m\<lparr>msg_delivery_state := MDelivered, msg_delivered_at := Some now\<rparr>"

definition deliver_queued :: "string \<Rightarrow> agent option \<Rightarrow> time \<Rightarrow> world \<Rightarrow> world" where
  "deliver_queued agent counterpart now w =
     w\<lparr>messages := update_where (polled agent counterpart now) (delivered_row now) (messages w)\<rparr>"

definition bump_last_seen :: "string \<Rightarrow> time \<Rightarrow> world \<Rightarrow> world" where
  "bump_last_seen agent now w = update_agent_row agent (\<lambda>a. a\<lparr>ag_last_seen_at := Some now, ag_updated_at := now\<rparr>) w"

definition message_page :: "message_filter \<Rightarrow> message list \<Rightarrow> inbox_result" where
  "message_page f rows =
     InboxPage (page (mf_limit f) (mf_offset f) (newest_first msg_created_at (sort_key msg_id rows))) (length rows)"

definition list_inbox ::
  "uuid \<Rightarrow> string \<Rightarrow> message_filter \<Rightarrow> bool \<Rightarrow> time \<Rightarrow> world \<Rightarrow> inbox_result reply \<times> world" where
  "list_inbox u addr f count_only now w0 =
     and_then (get_agent_owned w0 u True addr, w0) (\<lambda>a w.
     and_then (parse_state_filter DEFAULT_STATES (mf_states f), w) (\<lambda>states w.
     and_then (resolve_optional w (mf_counterpart f), w) (\<lambda>counterpart w.
     (let visible = inbox_visible (ag_id a) states f counterpart now
      in if count_only then (Reply (InboxCount (length (filter visible (messages w)))), w)
         else
           (let w1 = (if ''queued'' \<in> set states then deliver_queued (ag_id a) counterpart now w else w);
                w2 = bump_last_seen (ag_id a) now w1
            in (Reply (message_page f (filter visible (messages w2))), w2))))))"

definition sent_visible :: "uuid \<Rightarrow> string \<Rightarrow> string list \<Rightarrow> message_filter \<Rightarrow> agent option \<Rightarrow> message \<Rightarrow> bool" where
  "sent_visible u agent states f counterpart m \<longleftrightarrow>
     msg_user_id m = u \<and> msg_from_agent_id m = agent \<and> state_name (msg_delivery_state m) \<in> set states
     \<and> since_thread f m \<and> opt_all (\<lambda>a. msg_to_agent_id m = ag_id a) counterpart"

definition list_sent :: "uuid \<Rightarrow> string \<Rightarrow> message_filter \<Rightarrow> bool \<Rightarrow> world \<Rightarrow> inbox_result reply \<times> world" where
  "list_sent u addr f count_only w0 =
     and_then (get_agent_owned w0 u True addr, w0) (\<lambda>a w.
     and_then (parse_state_filter ALL_STATES (mf_states f), w) (\<lambda>states w.
     and_then (resolve_optional w (mf_counterpart f), w) (\<lambda>counterpart w.
     (let rows = filter (sent_visible u (ag_id a) states f counterpart) (messages w)
      in (Reply (if count_only then InboxCount (length rows) else message_page f rows), w)))))"
subsection \<open>What the checks leave alone\<close>

text \<open>Everything in the database is as before; only Redis may have changed.\<close>

definition db_same :: "world \<Rightarrow> world \<Rightarrow> bool" where
  "db_same w w' \<longleftrightarrow> (\<exists>r. w' = w\<lparr>redis := r\<rparr>)"

lemma db_same_refl [simp]: "db_same w w"
  unfolding db_same_def by (rule exI [of _ "redis w"]) simp

lemma db_same_redis [simp]: "db_same w (w\<lparr>redis := r\<rparr>)"
  by (auto simp: db_same_def)

lemma db_same_trans: "db_same w w' \<Longrightarrow> db_same w' w'' \<Longrightarrow> db_same w w''"
  by (auto simp: db_same_def)

lemma db_same_tables:
  assumes "db_same w w'"
  shows "messages w' = messages w" "agents w' = agents w" "users w' = users w" "events w' = events w"
    "event_seq w' = event_seq w" "subscriptions w' = subscriptions w" "outbox w' = outbox w" "outbox_seq w' = outbox_seq w"
    "usage_messages w' = usage_messages w" "cues w' = cues w" "executions w' = executions w"
  using assms by (auto simp: db_same_def)

lemma and_then_same:
  assumes "db_same w (snd p)" and "\<And>a v. p = (Reply a, v) \<Longrightarrow> db_same v (snd (k a v))"
  shows "db_same w (snd (and_then p k))"
  using assms by (cases p; cases "fst p") (auto intro: db_same_trans)

lemma require_same [simp]: "db_same w (snd (require ok code st w))"
  by (simp add: require_def)

lemma authorize_one_same: "db_same w (snd (authorize_one env u fa kind key r now w))"
  unfolding authorize_one_def
proof (intro and_then_same)
  let ?p = "authorize_message (me_authz env) (me_redis_up env) (me_backend env)
     \<lparr>aq_sender_user_id = u, aq_recipient_user_id = ag_user_id r, aq_sender_agent_id = ag_id fa,
      aq_recipient_agent_id = ag_id r, aq_message_kind = kind, aq_idempotency_key = key\<rparr> now w"
  show "db_same w (snd ?p)"
    using authorize_frame unfolding redis_only_def db_same_def by blast
qed simp

lemma authorize_send_same: "db_same w (snd (authorize_send env u fa key t r now w))"
  unfolding authorize_send_def
  by (intro and_then_same) (auto simp: authorize_one_same split: option.split)

lemma rate_limit_same: "db_same w (snd (check_per_minute_rate_limit up u plan member now w))"
  by (simp add: check_per_minute_rate_limit_def Let_def)

lemma priority_limits_same: "db_same w (snd (check_priority_high_limits up u a b p now w))"
  by (auto simp: check_priority_high_limits_def Let_def split: option.split prod.split)

lemma enforce_limits_same: "db_same w (snd (enforce_limits env u a b p member now w))"
  unfolding enforce_limits_def
  by (auto intro!: and_then_same simp: rate_limit_same priority_limits_same)

lemma enforce_quota_same: "db_same w (snd (enforce_quota env u now w))"
  by (auto simp: enforce_quota_def check_message_quota_def get_monthly_message_count_def Let_def split: option.split)

lemma admit_same: "db_same w (snd (admit_message env u d key fa member now w))"
  unfolding admit_message_def
  by (auto intro!: and_then_same simp: authorize_send_same enforce_limits_same split: prod.split)

lemma resolve_address_cong: "agents v = agents w \<Longrightarrow> users v = users w \<Longrightarrow> resolve_address v x = resolve_address w x"
  by (simp add: resolve_address_def find_agent_def owner_has_slug_def [abs_def] cong: if_cong)
lemma priority_limits_Reply:
  "check_priority_high_limits up u a b p now w = (Reply (q, dg), v) \<Longrightarrow> (q = p \<and> \<not> dg) \<or> (q = 3 \<and> dg \<and> 3 < p)"
  by (auto simp: check_priority_high_limits_def Let_def split: option.splits prod.splits if_splits)

lemma enforce_limits_Reply:
  "enforce_limits env u a b p member now w = (Reply (q, dg), v) \<Longrightarrow> (q = p \<and> \<not> dg) \<or> (q = 3 \<and> dg \<and> 3 < p)"
  by (auto simp: enforce_limits_def and_then_Reply dest: priority_limits_Reply split: if_splits)

lemma admit_Reply:
  assumes "admit_message env u d key fa member now w = (Reply (t, ra, p, dg), v)"
  shows "ag_user_id fa = u" and "ag_deleted_at fa = None" and "resolve_address w (mc_to d) = Reply t"
    and "resolve_optional w (mc_reply_to_agent d) = Reply ra" and "db_same w v"
    and "\<exists>v'. authorize_send env u fa key t ra now w = (Reply (), v')"
    and "(p = mc_priority d \<and> \<not> dg) \<or> (p = 3 \<and> dg \<and> 3 < mc_priority d)"
proof -
  from assms show "ag_user_id fa = u" "ag_deleted_at fa = None" "resolve_address w (mc_to d) = Reply t"
    "resolve_optional w (mc_reply_to_agent d) = Reply ra" "\<exists>v'. authorize_send env u fa key t ra now w = (Reply (), v')"
    "(p = mc_priority d \<and> \<not> dg) \<or> (p = 3 \<and> dg \<and> 3 < mc_priority d)"
    by (auto simp: admit_message_def and_then_Reply dest: enforce_limits_Reply)
  show "db_same w v" using admit_same [of w env u d key fa member now] assms by simp
qed

lemma create_message_before_key:
  assumes "admit_message env u d key fa member now w = (a, v)" and "\<And>x. a \<noteq> Reply x"
  shows "db_same w (snd (create_message env u d key fa new_id member now w)) \<and>
    (\<forall>x. fst (create_message env u d key fa new_id member now w) \<noteq> Reply x)"
  using assms admit_same [of w env u d key fa member now]
  by (cases a) (auto simp: create_message_def)

text \<open>A stored row of the caller with the key ends the request there.\<close>

lemma create_message_key_known:
  assumes "admit_message env u d key fa member now w = (Reply (t, ra, p, dg), v)" and "existing_for_key w u key now = Some m"
  shows "create_message env u d key fa new_id member now w =
    ((if msg_idempotency_fingerprint m = Some (compute_fingerprint (me_sha256 env) (ag_id t) d p) then Reply (m, True, False)
      else Refused ''idempotency_key_conflict'' 409), v)"
proof -
  have "existing_for_key v u key now = Some m"
    using assms(2) by (simp add: existing_for_key_def db_same_tables(1) [OF admit_Reply(5) [OF assms(1)]] cong: option.case_cong)
  with assms(1) show ?thesis by (simp add: create_message_def Let_def)
qed

text \<open>An accepted new message passed every check, in a database that was still the one at the start.\<close>

lemma create_message_new:
  assumes "create_message env u d key fa new_id member now w = (Reply (m, False, dg), w')"
  obtains t ra p v inherited parent where
    "admit_message env u d key fa member now w = (Reply (t, ra, p, dg), snd (admit_message env u d key fa member now w))"
    and "existing_for_key w u key now = None" and "db_same w v"
    and "resolve_reply_to w (mc_reply_to d) = Reply (inherited, parent)"
    and "m = new_message env u d key fa t ra p inherited parent new_id
               (compute_fingerprint (me_sha256 env) (ag_id t) d p) now"
    and "persist_message env u fa t m now v = (Reply m, w')"
proof -
  from assms obtain t ra p v1 where adm: "admit_message env u d key fa member now w = (Reply (t, ra, p, dg), v1)"
    and none: "existing_for_key v1 u key now = None"
    and rest: "and_then (enforce_quota env u now v1) (\<lambda>_ w.
            and_then (resolve_reply_to w (mc_reply_to d), w) (\<lambda>(inherited, parent) w.
            and_then (persist_message env u fa t
                        (new_message env u d key fa t ra p inherited parent new_id
                           (compute_fingerprint (me_sha256 env) (ag_id t) d p) now) now w) (\<lambda>m w.
            (Reply (m, False, dg), w)))) = (Reply (m, False, dg), w')"
    unfolding create_message_def and_then_Reply
    by (auto simp: Let_def and_then_Reply split: if_splits) (auto split: option.splits if_splits simp: and_then_Reply)
  from rest obtain v inherited parent m' where q: "enforce_quota env u now v1 = (Reply (), v)"
    and r: "resolve_reply_to v (mc_reply_to d) = Reply (inherited, parent)"
    and pm: "persist_message env u fa t (new_message env u d key fa t ra p inherited parent new_id
               (compute_fingerprint (me_sha256 env) (ag_id t) d p) now) now v = (Reply m', w')" and m: "m' = m"
    by (auto simp: and_then_Reply)
  note same = admit_Reply(5) [OF adm]
  have vs: "db_same w v" using same enforce_quota_same [of v1 env u now] q by (auto intro: db_same_trans)
  have "m = new_message env u d key fa t ra p inherited parent new_id
               (compute_fingerprint (me_sha256 env) (ag_id t) d p) now"
    using pm m by (auto simp: persist_message_def Let_def split: if_splits prod.splits reply.splits)
  moreover have "existing_for_key w u key now = None"
    using none by (simp add: existing_for_key_def db_same_tables(1) [OF same] cong: option.case_cong)
  moreover have "resolve_reply_to w (mc_reply_to d) = Reply (inherited, parent)"
    using r unfolding resolve_reply_to_def get_message_row_def db_same_tables(1) [OF vs] .
  ultimately show thesis using that adm vs pm m by simp
qed
subsection \<open>The rows of an accepted message\<close>

definition push_row :: "agent \<Rightarrow> message \<Rightarrow> time \<Rightarrow> nat \<Rightarrow> outbox_row" where
  "push_row to_agent m now i =
     \<lparr>ob_id = i, ob_execution_id = None, ob_cue_id = None, ob_task_type = DeliverMessage,
      ob_payload = MessageTask \<lparr>m_message_id = msg_id m, m_to_agent_id = ag_id to_agent,
        m_webhook_url = ag_webhook_url to_agent, m_attempt = None\<rparr>,
      ob_dispatched = False, ob_dispatch_attempts = 0, ob_last_dispatch_error = None,
      ob_scheduled_at = msg_send_at m, ob_created_at = now\<rparr>"

lemma enqueue_push_frame [simp]:
  "messages (enqueue_push t m now w) = messages w" "agents (enqueue_push t m now w) = agents w"
  "events (enqueue_push t m now w) = events w" "usage_messages (enqueue_push t m now w) = usage_messages w"
  "cues (enqueue_push t m now w) = cues w" "executions (enqueue_push t m now w) = executions w"
  "subscriptions (enqueue_push t m now w) = subscriptions w" "users (enqueue_push t m now w) = users w"
  by (simp_all add: enqueue_push_def)

lemma enqueue_push_outbox:
  "outbox (enqueue_push t m now w) =
     outbox w @ (if ag_webhook_url t = None then [] else [push_row t m now (outbox_seq w)])"
  by (simp add: enqueue_push_def insert_outbox_def push_row_def)

lemma touch_frame [simp]:
  "messages (touch_last_seen i now w) = messages w" "outbox (touch_last_seen i now w) = outbox w"
  "events (touch_last_seen i now w) = events w" "usage_messages (touch_last_seen i now w) = usage_messages w"
  "cues (touch_last_seen i now w) = cues w" "executions (touch_last_seen i now w) = executions w"
  "subscriptions (touch_last_seen i now w) = subscriptions w" "users (touch_last_seen i now w) = users w"
  by (simp_all add: touch_last_seen_def update_agent_row_def)

lemma increment_frame [simp]:
  "messages (snd (increment_monthly_count up u now w)) = messages w"
  "outbox (snd (increment_monthly_count up u now w)) = outbox w"
  "events (snd (increment_monthly_count up u now w)) = events w"
  "agents (snd (increment_monthly_count up u now w)) = agents w"
  "cues (snd (increment_monthly_count up u now w)) = cues w"
  "executions (snd (increment_monthly_count up u now w)) = executions w"
  "subscriptions (snd (increment_monthly_count up u now w)) = subscriptions w"
  "users (snd (increment_monthly_count up u now w)) = users w"
  by (simp_all add: increment_monthly_count_def Let_def)

lemma find_first_update:
  "\<exists>r \<in> set rows. p r \<Longrightarrow> (\<And>r. p (f r) = p r) \<Longrightarrow> find p (update_where p f rows) = map_option f (find p rows)"
  by (induction rows) auto

lemma increment_counts:
  "message_count_row (snd (increment_monthly_count up u now w)) u (current_month_start now)
     = message_count_row w u (current_month_start now) + 1"
proof -
  let ?p = "\<lambda>r. (um_user_id r, um_month_start r) = (u, current_month_start now)"
  show ?thesis
  proof (cases "\<exists>r \<in> set (usage_messages w). ?p r")
    case True
    then obtain r where r: "find ?p (usage_messages w) = Some r"
      by (cases "find ?p (usage_messages w)") (auto simp: find_None_iff)
    have "find ?p (update_where ?p (\<lambda>r. r\<lparr>um_message_count := um_message_count r + 1\<rparr>) (usage_messages w))
        = Some (r\<lparr>um_message_count := um_message_count r + 1\<rparr>)"
      using find_first_update [of "usage_messages w" ?p "\<lambda>r. r\<lparr>um_message_count := um_message_count r + 1\<rparr>"] True r by simp
    with True r show ?thesis
      by (simp add: increment_monthly_count_def Let_def message_count_row_def upsert_message_usage_def)
  next
    case False
    then have n: "find ?p (usage_messages w) = None" by (auto simp: find_None_iff)
    have "upsert_message_usage u (current_month_start now) (usage_messages w)
        = usage_messages w @ [\<lparr>um_user_id = u, um_month_start = current_month_start now, um_message_count = 1\<rparr>]"
      using False by (auto simp: upsert_message_usage_def)
    with n show ?thesis
      by (simp add: increment_monthly_count_def Let_def message_count_row_def find_append)
  qed
qed

lemma emit_new_event:
  assumes "emit_event ty agent payload (Some k) b now w = (Reply e, w')"
    and "\<not> (\<exists>x \<in> set (events w). ev_event_type x = ty \<and> ev_idempotency_key x = Some k)"
  shows "w' = w\<lparr>events := events w @ [e], event_seq := event_seq w + 1\<rparr>
    \<and> ev_id e = event_seq w \<and> ev_event_type e = ty \<and> ev_recipient_agent_id e = agent \<and> ev_idempotency_key e = Some k
    \<and> ev_emitted_at e = now \<and> ev_digested_at e = None
    \<and> ev_payload e = JObj (case b of None \<Rightarrow> payload | Some t \<Rightarrow> maybe_embed_body w agent ty t payload)"
proof -
  have "find (\<lambda>x. ev_event_type x = ty \<and> ev_idempotency_key x = Some k) (events w) = None"
    using assms(2) by (auto simp: find_None_iff)
  with assms(1) show ?thesis
    by (auto simp: emit_event_def Let_def split: if_splits)
qed
lemma persist_stores:
  assumes "persist_message env u fa t m now w = (Reply m', w')"
    and "\<not> (\<exists>x \<in> set (events w). ev_idempotency_key x = Some (delivered_key (msg_id m)))"
  shows "m' = m \<and> message_storable w m \<and> messages w' = messages w @ [m]
    \<and> (\<exists>e. events w' = events w @ [e] \<and> ev_event_type e = ''message.delivered'' \<and> ev_recipient_agent_id e = ag_id t
         \<and> ev_payload e = JObj (maybe_embed_body w (ag_id t) ''message.delivered'' (msg_body m) (delivered_payload m)))
    \<and> outbox w' = outbox w @ (if ag_webhook_url t = None then [] else [push_row t m now (outbox_seq w)])
    \<and> message_count_row w' u (current_month_start now) = message_count_row w u (current_month_start now) + 1
    \<and> cues w' = cues w \<and> executions w' = executions w \<and> subscriptions w' = subscriptions w \<and> users w' = users w"
proof -
  let ?w = "w\<lparr>messages := messages w @ [m]\<rparr>" and ?k = "delivered_key (msg_id m)"
  let ?p = "emit_event ''message.delivered'' (ag_id t) (delivered_payload m) (Some ?k) (Some (msg_body m)) now ?w"
  obtain a w1 where p: "?p = (a, w1)" by (cases ?p)
  have st: "message_storable w m" using assms(1) unfolding persist_message_def by (simp split: if_splits)
  have pm: "persist_message env u fa t m now w = (case (a, w1) of
           (Reply _, w1) \<Rightarrow>
             (let w2 = touch_last_seen (ag_id fa) now (enqueue_push t m now w1)
              in (Reply m, snd (increment_monthly_count (me_redis_up env) u now w2)))
         | (_, _) \<Rightarrow> (Raised PendingRollbackError, w))"
    unfolding persist_message_def p using st by simp
  obtain e where e: "a = Reply e"
    using assms(1) unfolding pm by (cases a) simp_all
  have em: "?p = (Reply e, w1)" unfolding p e ..
  have m: "m' = m"
    and w': "w' = snd (increment_monthly_count (me_redis_up env) u now (touch_last_seen (ag_id fa) now (enqueue_push t m now w1)))"
    using assms(1) unfolding pm e by (auto simp: Let_def)
  have fresh: "\<not> (\<exists>x \<in> set (events ?w). ev_event_type x = ''message.delivered'' \<and> ev_idempotency_key x = Some ?k)"
    using assms(2) by auto
  note e = emit_new_event [OF em fresh]
  have "maybe_embed_body ?w = maybe_embed_body w"
    by (simp add: maybe_embed_body_def has_inline_sub_def fun_eq_iff)
  moreover have "message_count_row w' u (current_month_start now) = message_count_row w1 u (current_month_start now) + 1"
    unfolding w' increment_counts by (simp add: message_count_row_def)
  ultimately show ?thesis using e st m by (simp add: w' enqueue_push_outbox message_count_row_def)
qed

lemma message_storable_cong: "messages v = messages w \<Longrightarrow> message_storable v m = message_storable w m"
  by (simp add: message_storable_def)


definition message_keys_ok :: "world \<Rightarrow> bool" where
  "message_keys_ok w \<longleftrightarrow> distinct (map msg_id (messages w))
     \<and> distinct (map (\<lambda>m. (msg_user_id m, msg_idempotency_key m)) (filter (\<lambda>m. msg_idempotency_key m \<noteq> None) (messages w)))"

lemma existing_for_key_is:
  assumes "message_keys_ok w" and "m \<in> set (messages w)" and "msg_user_id m = u" and "msg_idempotency_key m = Some k"
    and "now - hours IDEMPOTENCY_DEDUP_WINDOW_HOURS < msg_created_at m"
  shows "existing_for_key w u (Some k) now = Some m"
proof -
  let ?p = "\<lambda>m. msg_user_id m = u \<and> msg_idempotency_key m = Some k \<and> now - hours IDEMPOTENCY_DEDUP_WINDOW_HOURS < msg_created_at m"
  have "find ?p (messages w) \<noteq> None" using assms(2-5) by (auto simp: find_None_iff)
  then obtain x where x: "find ?p (messages w) = Some x" by blast
  from find_SomeD [OF this] have "x \<in> set (messages w)" "msg_user_id x = u" "msg_idempotency_key x = Some k" by auto
  with assms(1-4) have "x = m" unfolding message_keys_ok_def distinct_map inj_on_def by auto
  with x show ?thesis by (simp add: existing_for_key_def)
qed
text \<open>
  C18. One message per idempotency key: while a message of the user with the key is younger than
  24 hours, no request of that user with the key stores anything, whatever its content and however
  the checks turn out; an accepted answer is that message, and a different content is refused.
\<close>

theorem idempotent_send:
  assumes "message_keys_ok w" and "m \<in> set (messages w)" and "msg_user_id m = u" and "msg_idempotency_key m = Some k"
    and "now - hours 24 < msg_created_at m"
  shows "messages (snd (create_message env u d (Some k) fa new_id member now w)) = messages w
    \<and> outbox (snd (create_message env u d (Some k) fa new_id member now w)) = outbox w
    \<and> events (snd (create_message env u d (Some k) fa new_id member now w)) = events w
    \<and> usage_messages (snd (create_message env u d (Some k) fa new_id member now w)) = usage_messages w
    \<and> (\<forall>x dedup downgraded. fst (create_message env u d (Some k) fa new_id member now w) = Reply (x, dedup, downgraded) \<longrightarrow>
         x = m \<and> dedup)
    \<and> (\<forall>t ra p dg. fst (admit_message env u d (Some k) fa member now w) = Reply (t, ra, p, dg) \<longrightarrow>
         fst (create_message env u d (Some k) fa new_id member now w) =
           (if msg_idempotency_fingerprint m = Some (compute_fingerprint (me_sha256 env) (ag_id t) d p)
            then Reply (m, True, False) else Refused ''idempotency_key_conflict'' 409))"
proof -
  let ?r = "create_message env u d (Some k) fa new_id member now w"
  have ex: "existing_for_key w u (Some k) now = Some m"
    using existing_for_key_is [OF assms(1-4)] assms(5) by (simp add: IDEMPOTENCY_DEDUP_WINDOW_HOURS_def)
  obtain a v where adm: "admit_message env u d (Some k) fa member now w = (a, v)" by force
  show ?thesis
  proof (cases a)
    case (Reply x)
    obtain t ra p dg where x: "x = (t, ra, p, dg)" by (cases x)
    note known = create_message_key_known [OF adm [unfolded Reply x] ex, of new_id]
    show ?thesis unfolding known adm Reply x
      by (simp add: db_same_tables [OF admit_Reply(5) [OF adm [unfolded Reply x]]])
  qed (use create_message_before_key [OF adm, of new_id] adm in \<open>simp_all add: db_same_tables\<close>)
qed

subsection \<open>Who may send to whom, and who sees a message\<close>

lemma resolve_optional_Some:
  "resolve_optional w (Some x) = Reply ra \<longleftrightarrow> (\<exists>a. ra = Some a \<and> resolve_address w x = Reply a)"
  by (auto simp: resolve_optional_def split: reply.split)

lemma authorize_one_same_tenant:
  assumes "me_backend env = SameTenant" and "authorize_one env u fa kind key r now w = (Reply x, v)"
  shows "ag_user_id r = u"
  using assms by (auto simp: authorize_one_def authorize_message_def)

text \<open>
  With the default backend a message stays inside its tenant: sender, recipient and the agent
  named for replies all belong to the calling user.
\<close>

theorem default_backend_same_tenant:
  assumes "me_backend env = SameTenant"
    and "create_message env u d key fa new_id member now w = (Reply (m, False, downgraded), w')"
  shows "ag_user_id fa = u \<and> (\<exists>t. resolve_address w (mc_to d) = Reply t \<and> ag_id t = msg_to_agent_id m \<and> ag_user_id t = u)
    \<and> (case mc_reply_to_agent d of None \<Rightarrow> msg_reply_to_agent_id m = None
       | Some addr \<Rightarrow> (\<exists>r. resolve_address w addr = Reply r \<and> msg_reply_to_agent_id m = Some (ag_id r) \<and> ag_user_id r = u))"
proof -
  from create_message_new [OF assms(2)] obtain t ra p inherited parent where
    adm: "admit_message env u d key fa member now w = (Reply (t, ra, p, downgraded), snd (admit_message env u d key fa member now w))"
    and m: "m = new_message env u d key fa t ra p inherited parent new_id (compute_fingerprint (me_sha256 env) (ag_id t) d p) now"
    by metis
  note a = admit_Reply [OF adm]
  from a(6) obtain v v' where one: "authorize_one env u fa ''message'' key t now w = (Reply (), v)"
    and two: "(case ra of None \<Rightarrow> (Reply (), v) | Some r \<Rightarrow> authorize_one env u fa ''reply_chain'' key r now v) = (Reply (), v')"
    by (auto simp: authorize_send_def and_then_Reply)
  have t: "ag_user_id t = u" by (rule authorize_one_same_tenant [OF assms(1) one])
  have r: "ag_user_id r = u" if "ra = Some r" for r
    using two that authorize_one_same_tenant [OF assms(1)] by simp
  show ?thesis
  proof (cases "mc_reply_to_agent d")
    case None
    with a t show ?thesis by (auto simp: m new_message_def resolve_optional_def)
  next
    case (Some addr)
    with a(4) obtain x where "ra = Some x" "resolve_address w addr = Reply x" by (auto simp: resolve_optional_Some)
    with a t r Some show ?thesis by (auto simp: m new_message_def)
  qed
qed

text \<open>
  Foreign messages do not exist: for a user who neither sent the message nor owns its
  recipient, reading, marking read and acknowledging it answer exactly what they answer when the
  message is not in the table, and change nothing.
\<close>

theorem foreign_message_not_leaked:
  assumes "get_message_row w i = Some m" and "msg_user_id m \<noteq> u"
    and "\<forall>a \<in> set (agents w). ag_id a = msg_to_agent_id m \<longrightarrow> ag_user_id a \<noteq> u"
  shows "get_message_for_user w u i = get_message_for_user (w\<lparr>messages := filter (\<lambda>x. msg_id x \<noteq> i) (messages w)\<rparr>) u i
    \<and> mark_read u i now w = (Refused ''message_not_found'' 404, w)
    \<and> mark_acked u i now w = (Refused ''message_not_found'' 404, w)"
proof -
  have "get_message_for_user w u i = Refused ''message_not_found'' 404"
    using assms by (auto simp: get_message_for_user_def split: option.split dest: find_SomeD)
  moreover have "get_message_row (w\<lparr>messages := filter (\<lambda>x. msg_id x \<noteq> i) (messages w)\<rparr>) i = None"
    by (simp add: get_message_row_def find_None_iff)
  ultimately show ?thesis by (simp add: mark_read_def mark_acked_def get_message_for_user_def)
qed
subsection \<open>Polling\<close>

lemma set_page_subset: "set (page n k rows) \<subseteq> set rows"
  unfolding page_def by (meson in_set_dropD in_set_takeD subsetI)

lemma sorted_newest_first: "sorted_wrt (\<ge>) (map created (newest_first created rows))"
  by (simp add: newest_first_def rev_map [symmetric] sorted_wrt_rev)

lemma sorted_page:
  assumes "sorted_wrt R (map g rows)"
  shows "sorted_wrt R (map g (page n k rows))"
  using sorted_wrt_take [OF sorted_wrt_drop [OF assms, of k], of n] by (simp add: page_def take_map drop_map)

lemma get_agent_owned_owner: "get_agent_owned w u inc addr = Reply a \<Longrightarrow> a \<in> set (agents w) \<and> ag_user_id a = u"
  by (auto simp: get_agent_owned_def dest: find_agent_SomeD)

lemma default_states_open:
  "state_name s \<in> set DEFAULT_STATES \<longleftrightarrow> s \<notin> {MAcked, MExpired}"
  by (cases s) (simp_all add: DEFAULT_STATES_def state_name_def)

subsection \<open>Updates of a message\<close>

text \<open>
  What every update of a message row keeps: its identity, content and idempotency key. Whatever
  satisfies the contract keeps the unique keys of the table and the view of every other row.
\<close>

definition message_core :: "message \<Rightarrow> string \<times> uuid \<times> string \<times> string \<times> string \<times> string option \<times> string option \<times> time" where
  "message_core m = (msg_id m, msg_user_id m, msg_from_agent_id m, msg_to_agent_id m, msg_body m, msg_idempotency_key m,
     msg_idempotency_fingerprint m, msg_created_at m)"

locale message_update =
  fixes upd :: "message \<Rightarrow> message"
  assumes core_kept: "message_core (upd m) = message_core m"
begin

lemma columns_kept:
  "msg_id (upd m) = msg_id m" "msg_user_id (upd m) = msg_user_id m" "msg_idempotency_key (upd m) = msg_idempotency_key m"
  "msg_to_agent_id (upd m) = msg_to_agent_id m" "msg_from_agent_id (upd m) = msg_from_agent_id m"
  "msg_created_at (upd m) = msg_created_at m"
  using core_kept [of m] by (auto simp: message_core_def)

lemma cores_kept: "map message_core (update_where p upd rows) = map message_core rows"
  by (rule map_update_where) (rule core_kept)

lemma keys_kept: "message_keys_ok w \<Longrightarrow> message_keys_ok (w\<lparr>messages := update_where p upd (messages w)\<rparr>)"
proof -
  let ?k = "\<lambda>m. (msg_user_id m, msg_idempotency_key m)" and ?q = "\<lambda>m. msg_idempotency_key m \<noteq> None"
  have "map msg_id (update_where p upd rows) = map msg_id rows
      \<and> map ?k (filter ?q (update_where p upd rows)) = map ?k (filter ?q rows)" for rows
    by (induction rows) (auto simp: columns_kept)
  then show "message_keys_ok w \<Longrightarrow> message_keys_ok (w\<lparr>messages := update_where p upd (messages w)\<rparr>)"
    by (simp add: message_keys_ok_def)
qed

lemma row_updated:
  "get_message_row (update_message_row i upd w) j =
     (if j = i then map_option upd (get_message_row w i) else get_message_row w j)"
proof -
  have "find (\<lambda>m. msg_id m = j) (update_where (\<lambda>m. msg_id m = i) upd rows) =
     (if j = i then map_option upd (find (\<lambda>m. msg_id m = i) rows) else find (\<lambda>m. msg_id m = j) rows)" for rows
    by (induction rows) (auto simp: columns_kept)
  then show ?thesis by (simp add: get_message_row_def update_message_row_def)
qed

end

interpretation read_upd: message_update "read_row now" for now
  by unfold_locales (simp add: message_core_def read_row_def)

interpretation ack_upd: message_update "ack_row now" for now
  by unfold_locales (simp add: message_core_def ack_row_def)

interpretation delivered_upd: message_update "delivered_row now" for now
  by unfold_locales (simp add: message_core_def delivered_row_def)

lemma message_keys_cong: "messages v = messages w \<Longrightarrow> message_keys_ok v = message_keys_ok w"
  by (simp add: message_keys_ok_def)

lemma storable_keeps_keys:
  assumes "message_keys_ok w" and "message_storable w m" and "messages w' = messages w @ [m]"
  shows "message_keys_ok w'"
  using assms unfolding message_keys_ok_def message_storable_def by (auto simp: list_ex_iff)

lemma persist_messages:
  assumes "persist_message env u fa t m now w = (r, w')"
  shows "messages w' = messages w \<or> (message_storable w m \<and> messages w' = messages w @ [m])"
proof (cases "message_storable w m")
  case True
  let ?p = "emit_event ''message.delivered'' (ag_id t) (delivered_payload m) (Some (delivered_key (msg_id m))) (Some (msg_body m)) now
    (w\<lparr>messages := messages w @ [m]\<rparr>)"
  obtain a w1 where p: "?p = (a, w1)" by (cases ?p)
  have "messages w1 = messages w @ [m]" using emit_event_cases [OF p] by auto
  with True p assms show ?thesis
    unfolding persist_message_def Let_def by (cases a) auto
next
  case False
  with assms show ?thesis by (auto simp: persist_message_def)
qed

lemma create_message_messages:
  assumes "create_message env u d key fa new_id member now w = (r, w')"
  shows "messages w' = messages w \<or> (\<exists>m. message_storable w m \<and> messages w' = messages w @ [m])"
proof -
  obtain a v where adm: "admit_message env u d key fa member now w = (a, v)" by force
  then have v: "messages v = messages w" using admit_same [of w env u d key fa member now] by (simp add: db_same_tables)
  show ?thesis
  proof (cases a)
    case (Reply x)
    obtain t ra p dg where x: "x = (t, ra, p, dg)" by (cases x)
    obtain q v1 where q: "enforce_quota env u now v = (q, v1)" by force
    then have v1: "messages v1 = messages w" using enforce_quota_same [of v env u now] v by (simp add: db_same_tables)
    have "messages w' = messages w \<or> (\<exists>m. message_storable v1 m \<and> messages w' = messages w @ [m])"
    proof (cases "existing_for_key v u key now")
      case None
      with assms q v1 show ?thesis
        unfolding create_message_def adm Reply x and_then_simps prod.case Let_def None option.case q
        by (cases q; cases "resolve_reply_to v1 (mc_reply_to d)")
          (auto simp: and_then_def split: prod.splits reply.splits dest!: persist_messages)
    next
      case (Some m)
      with assms v show ?thesis
        unfolding create_message_def adm Reply x by (auto simp: Let_def split: if_splits)
    qed
    then show ?thesis using message_storable_cong [OF v1] by blast
  qed (use assms v in \<open>auto simp: create_message_def adm\<close>)
qed

lemma create_message_keeps_keys:
  "message_keys_ok w \<Longrightarrow> create_message env u d key fa new_id member now w = (r, w') \<Longrightarrow> message_keys_ok w'"
  by (drule create_message_messages) (metis message_keys_cong storable_keeps_keys)

lemma list_inbox_messages:
  "messages (snd (list_inbox u addr f count_only now w)) = messages w
   \<or> (\<exists>a cp. get_agent_owned w u True addr = Reply a
        \<and> messages (snd (list_inbox u addr f count_only now w)) =
          update_where (polled (ag_id a) cp now) (delivered_row now) (messages w))"
  unfolding list_inbox_def and_then_def Let_def
  by (auto simp: bump_last_seen_def update_agent_row_def deliver_queued_def split: reply.splits)

lemma mark_read_messages:
  "snd (mark_read u i now w) = w
   \<or> (\<exists>m. get_message_row w i = Some m \<and> msg_delivery_state m \<notin> {MAcked, MExpired, MRead}
        \<and> snd (mark_read u i now w) = update_message_row i (read_row now) w)"
proof -
  have "msg_id m = i" if "get_message_for_user w u i = Reply m" for m
    using that by (auto simp: get_message_for_user_def get_message_row_def split: option.splits if_splits dest: find_SomeD)
  then show ?thesis
    by (auto simp: mark_read_def and_then_def get_message_for_user_def split: reply.splits option.splits if_splits)
qed

lemma mark_acked_messages:
  "snd (mark_acked u i now w) = w
   \<or> (\<exists>m. get_message_row w i = Some m \<and> msg_delivery_state m \<notin> {MAcked, MExpired}
        \<and> snd (mark_acked u i now w) = update_message_row i (ack_row now) w)"
proof -
  have "msg_id m = i" if "get_message_for_user w u i = Reply m" for m
    using that by (auto simp: get_message_for_user_def get_message_row_def split: option.splits if_splits dest: find_SomeD)
  then show ?thesis
    by (auto simp: mark_acked_def and_then_def get_message_for_user_def split: reply.splits option.splits if_splits)
qed

text \<open>
  A retry of a high-priority message whose pair limit is exhausted in the meantime is checked with
  the downgraded priority: its fingerprint differs and the identical request is a conflict.
\<close>

lemma downgraded_retry_conflicts:
  assumes "existing_for_key w u (Some k) now = Some m"
    and "msg_idempotency_fingerprint m = Some (compute_fingerprint (me_sha256 env) (ag_id t) d (mc_priority d))"
    and "admit_message env u d (Some k) fa member now w = (Reply (t, ra, 3, True), v)"
    and "compute_fingerprint (me_sha256 env) (ag_id t) d 3 \<noteq> compute_fingerprint (me_sha256 env) (ag_id t) d (mc_priority d)"
  shows "fst (create_message env u d (Some k) fa new_id member now w) = Refused ''idempotency_key_conflict'' 409"
  using create_message_key_known [OF assms(3,1), of new_id] assms(2,4) by simp

subsection \<open>Examples\<close>

definition example_agent :: "string \<Rightarrow> uuid \<Rightarrow> string \<Rightarrow> string option \<Rightarrow> agent" where
  "example_agent i u slug url = \<lparr>ag_id = i, ag_user_id = u, ag_slug = slug, ag_display_name = slug, ag_webhook_url = url,
     ag_webhook_secret = (if url = None then None else Some ''whsec''), ag_metadata = JObj [], ag_status = ''online'',
     ag_last_seen_at = None, ag_deleted_at = None, ag_created_at = 0, ag_updated_at = 0\<rparr>"

definition alice_agent :: agent where
  "alice_agent = example_agent ''agt_00000000000a'' 7 ''sender'' None"

definition hook_agent :: agent where
  "hook_agent = example_agent ''agt_00000000000b'' 7 ''hook'' (Some ''https://x.y'')"

definition bob_agent :: agent where
  "bob_agent = example_agent ''agt_00000000000c'' 8 ''bob'' None"

definition message_world :: world where
  "message_world = user_world\<lparr>agents := [alice_agent, hook_agent, bob_agent]\<rparr>"

definition example_env :: message_env where
  "example_env = \<lparr>me_authz = example_authz '''', me_backend = SameTenant, me_redis_up = False, me_sha256 = (\<lambda>s. take 64 s),
     me_disable_quota = False, me_ttl_days = 30\<rparr>"

definition example_send :: message_create where
  "example_send = \<lparr>mc_to = ''hook@alice'', mc_body = ''hi'', mc_subject = None, mc_reply_to = None, mc_priority = 5,
     mc_expects_reply = False, mc_reply_to_agent = None, mc_metadata = JObj [], mc_correlation_id = None, mc_send_at = Some 900\<rparr>"

abbreviation example_sent :: "(message \<times> bool \<times> bool) reply \<times> world" where
  "example_sent \<equiv> create_message example_env 7 example_send (Some ''k1'') alice_agent ''msg_000000000001'' ''m1'' 100 message_world"

definition example_message :: message where
  "example_message = new_message example_env 7 example_send (Some ''k1'') alice_agent hook_agent None 5 [] None
     ''msg_000000000001'' (compute_fingerprint (me_sha256 example_env) (ag_id hook_agent) example_send 5) 100"

lemma example_message_columns:
  "msg_id example_message = ''msg_000000000001''" "msg_user_id example_message = 7"
  "msg_idempotency_key example_message = Some ''k1''" "msg_created_at example_message = 100"
  "msg_to_agent_id example_message = ''agt_00000000000b''" "msg_from_agent_id example_message = ''agt_00000000000a''"
  "msg_delivery_state example_message = MQueued" "msg_send_at example_message = Some 900" "msg_priority example_message = 5"
  "msg_thread_id example_message = ''msg_000000000001''" "msg_reply_to example_message = None"
  "msg_subject example_message = None" "msg_body example_message = ''hi''" "msg_correlation_id example_message = None"
  "msg_metadata example_message = JObj []" "msg_idempotency_fingerprint example_message =
     Some (compute_fingerprint (me_sha256 example_env) (ag_id hook_agent) example_send 5)"
  by (simp_all add: example_message_def new_message_def example_send_def hook_agent_def alice_agent_def example_agent_def
      effective_send_at_def metadata_or_empty_def json_truthy_def truthy_def)

lemma example_resolved: "resolve_address message_world (mc_to example_send) = Reply hook_agent"
  by code_simp

lemma example_admitted:
  "admit_message example_env 7 example_send (Some ''k1'') alice_agent ''m1'' 100 message_world
     = (Reply (hook_agent, None, 5, False), message_world)"
proof -
  have md: "utf8_len (json_dumps False True (metadata_or_empty (mc_metadata example_send))) \<le> METADATA_MAX_BYTES"
    by code_simp
  have c: "mc_reply_to_agent example_send = None" "mc_priority example_send = 5" "me_redis_up example_env = False"
    "me_backend example_env = SameTenant" "ag_user_id alice_agent = 7" "ag_deleted_at alice_agent = None"
    "ag_user_id hook_agent = 7" "me_disable_quota example_env = False"
    by (simp_all add: example_send_def example_env_def alice_agent_def hook_agent_def example_agent_def)
  show ?thesis
    by (simp add: admit_message_def require_def md c example_resolved resolve_optional_def authorize_send_def authorize_one_def
        authorize_message_def enforce_limits_def check_per_minute_rate_limit_def check_priority_high_limits_def)
qed

lemma message_world_tables:
  "messages message_world = []" "events message_world = []" "outbox message_world = []" "subscriptions message_world = []"
  "usage_messages message_world = []" "agents message_world = [alice_agent, hook_agent, bob_agent]"
  "users message_world = [example_user 7 ''alice'', example_user 8 ''bob'']" "event_seq message_world = 1"
  by (simp_all add: message_world_def user_world_def empty_world_def)

lemma example_storable: "message_storable message_world example_message"
  by (simp add: message_storable_def message_world_tables example_message_columns opt_all_def opt_has_nul_def has_nul_def
      utf8_len_def compute_fingerprint_def example_env_def)

lemma example_emitted:
  obtains e w1 where "emit_event ''message.delivered'' (ag_id hook_agent) (delivered_payload example_message)
      (Some (delivered_key (msg_id example_message))) (Some (msg_body example_message)) 100
      (message_world\<lparr>messages := messages message_world @ [example_message]\<rparr>) = (Reply e, w1)"
proof -
  let ?w = "message_world\<lparr>messages := messages message_world @ [example_message]\<rparr>"
  have "maybe_embed_body ?w a t b p = p" for a t b p
    by (simp add: maybe_embed_body_def has_inline_sub_def message_world_tables)
  moreover have "\<not> contains_null_byte (JObj (delivered_payload example_message))"
    by (simp add: delivered_payload_def example_message_columns opt_json_def has_nul_def)
  moreover have "ag_id hook_agent \<in> ag_id ` set (agents ?w)" by (simp add: message_world_tables)
  moreover have "\<not> has_nul (delivered_key (msg_id example_message))"
    by (simp add: delivered_key_def example_message_columns has_nul_def)
  ultimately show thesis
    using that by (auto simp: emit_event_def Let_def message_world_tables has_nul_def)
qed

lemma example_sent_eq:
  obtains w' where "example_sent = (Reply (example_message, False, False), w')" "messages w' = [example_message]"
proof -
  obtain e w1 where em: "emit_event ''message.delivered'' (ag_id hook_agent) (delivered_payload example_message)
      (Some (delivered_key (msg_id example_message))) (Some (msg_body example_message)) 100
      (message_world\<lparr>messages := messages message_world @ [example_message]\<rparr>) = (Reply e, w1)" by (rule example_emitted)
  then have w1: "messages w1 = [example_message]" using emit_event_cases [OF em] by (auto simp: message_world_tables)
  let ?w' = "snd (increment_monthly_count (me_redis_up example_env) 7 100
     (touch_last_seen (ag_id alice_agent) 100 (enqueue_push hook_agent example_message 100 w1)))"
  have p: "persist_message example_env 7 alice_agent hook_agent example_message 100 message_world = (Reply example_message, ?w')"
    by (simp only: persist_message_def example_storable em Let_def simp_thms if_False prod.case reply.case)
  have q: "enforce_quota example_env 7 100 message_world = (Reply (), message_world)"
    by (simp add: enforce_quota_def check_message_quota_def get_monthly_message_count_def Let_def message_count_row_def
        get_user_plan_and_msg_limit_def get_user_row_def message_world_tables example_user_def) (simp add: example_env_def)
  have k: "existing_for_key message_world 7 (Some ''k1'') 100 = None"
    by (simp add: existing_for_key_def message_world_tables)
  have r: "resolve_reply_to message_world (mc_reply_to example_send) = Reply ([], None)"
    by (simp add: resolve_reply_to_def example_send_def)
  have "example_sent = (Reply (example_message, False, False), ?w')"
    by (simp add: create_message_def example_admitted k q r Let_def example_message_def [symmetric] p)
  moreover have "messages ?w' = [example_message]" by (simp add: w1)
  ultimately show thesis by (rule that)
qed

definition sent_world :: world where
  "sent_world = message_world\<lparr>messages := [example_message]\<rparr>"

lemma sent_world_keys: "message_keys_ok sent_world"
  by (simp add: message_keys_ok_def sent_world_def)


theorem idempotent_send_witness:
  "messages (snd (create_message example_env 7 (example_send\<lparr>mc_body := ''other''\<rparr>) (Some ''k1'') alice_agent
     ''msg_000000000002'' ''m2'' 200 sent_world)) = [example_message]"
proof -
  have "example_message \<in> set (messages sent_world)" "200 - hours 24 < msg_created_at example_message"
    by (simp_all add: sent_world_def example_message_columns hours_def minutes_def seconds_def)
  from idempotent_send [OF sent_world_keys this(1) example_message_columns(2,3) this(2)] show ?thesis
    by (simp add: sent_world_def)
qed

theorem default_backend_same_tenant_witness:
  "\<exists>t. resolve_address message_world ''hook@alice'' = Reply t \<and> ag_user_id t = 7"
proof -
  obtain w' where s: "example_sent = (Reply (example_message, False, False), w')" by (rule example_sent_eq)
  have "me_backend example_env = SameTenant" by (simp add: example_env_def)
  from default_backend_same_tenant [OF this s] show ?thesis by (auto simp: example_send_def)
qed

theorem foreign_message_not_leaked_witness:
  "mark_read 8 ''msg_000000000001'' 300 sent_world = (Refused ''message_not_found'' 404, sent_world)"
proof -
  have row: "get_message_row sent_world ''msg_000000000001'' = Some example_message"
    by (simp add: get_message_row_def sent_world_def example_message_columns)
  have "\<forall>a \<in> set (agents sent_world). ag_id a = msg_to_agent_id example_message \<longrightarrow> ag_user_id a \<noteq> 8"
    by (simp add: sent_world_def message_world_tables example_message_columns alice_agent_def hook_agent_def bob_agent_def
        example_agent_def)
  with foreign_message_not_leaked [OF row] example_message_columns(2) show ?thesis by simp
qed



end
