(* ===== verification/MessageTasks.thy ===== *)
theory MessageTasks
  imports Messages
begin

section \<open>Pushing messages to webhooks (\<open>src/worker/tasks.py\<close>, \<open>src/app/services/message_delivery.py\<close>)\<close>

text \<open>
  The tasks that push a message to the webhook of its recipient: the per-user cap, the claim, the
  signed POST, the classification of its outcome and what follows from it, and the recovery of
  deliveries whose worker died. The claim and the outcome are separate transactions; what other
  sessions do to the database during the POST is the argument \<open>between\<close> of a task.
\<close>

subsection \<open>Classification of an outcome (\<open>message_classification.py\<close>)\<close>

text \<open>
  What the HTTP client answers or raises; a response comes with the value of its Retry-After
  header. \<open>PushRaises\<close> is an exception that is not a request error and leaves the task.
\<close>

datatype connect_cause = SslCause | GaiCause | OtherCause

datatype push_error = TimeoutException | ConnectError connect_cause | NetworkError | TransportError | RequestError
  | UnexpectedException

datatype push_answer = PushResponse int string "string option" | PushError push_error | PushRaises py_error

datatype category = CatSuccess | CatRetryable | CatTerminal

text \<open>The verdict; its human-readable text goes to the log only and is left out.\<close>

record classification =
  dc_category :: category
  dc_error_type :: string
  dc_log_event_type :: string
  dc_http_status :: "int option"

definition classify_response :: "int \<Rightarrow> classification" where
  "classify_response s =
     (let verdict = (\<lambda>c ty evt. \<lparr>dc_category = c, dc_error_type = ty, dc_log_event_type = evt, dc_http_status = Some s\<rparr>)
      in if 200 \<le> s \<and> s < 300 then verdict CatSuccess ''none'' ''msg_delivered''
         else if s = 408 then verdict CatRetryable ''request_timeout'' ''msg_delivery_timeout''
         else if s = 429 then verdict CatRetryable ''rate_limited'' ''msg_delivery_429_retry_after_honored''
         else if s = 401 then verdict CatTerminal ''auth_failed'' ''msg_delivery_4xx_terminal''
         else if s = 404 then verdict CatTerminal ''endpoint_missing'' ''msg_delivery_4xx_terminal''
         else if s = 405 then verdict CatTerminal ''method_not_allowed'' ''msg_delivery_4xx_terminal''
         else if 400 \<le> s \<and> s < 500 then verdict CatTerminal ''client_error'' ''msg_delivery_4xx_terminal''
         else if s = 502 then verdict CatRetryable ''bad_gateway'' ''msg_delivery_5xx''
         else if s = 503 then verdict CatRetryable ''service_unavailable'' ''msg_delivery_5xx''
         else if 500 \<le> s \<and> s < 600 then verdict CatRetryable ''server_error'' ''msg_delivery_5xx''
         else verdict CatTerminal ''client_error'' ''msg_delivery_4xx_terminal'')"

definition classify_exception :: "push_error \<Rightarrow> classification" where
  "classify_exception e =
     (let verdict = (\<lambda>c ty evt. \<lparr>dc_category = c, dc_error_type = ty, dc_log_event_type = evt, dc_http_status = None\<rparr>)
      in case e of
           TimeoutException \<Rightarrow> verdict CatRetryable ''timeout'' ''msg_delivery_timeout''
         | ConnectError SslCause \<Rightarrow> verdict CatRetryable ''tls_handshake_failed'' ''msg_delivery_tls_handshake_failed''
         | ConnectError GaiCause \<Rightarrow> verdict CatRetryable ''dns_resolution_failed'' ''msg_delivery_dns_resolution_failed''
         | ConnectError OtherCause \<Rightarrow> verdict CatRetryable ''connection_refused'' ''msg_delivery_connection_refused''
         | NetworkError \<Rightarrow> verdict CatRetryable ''network'' ''msg_delivery_network_error''
         | TransportError \<Rightarrow> verdict CatRetryable ''transport'' ''msg_delivery_network_error''
         | RequestError \<Rightarrow> verdict CatRetryable ''transport'' ''msg_delivery_network_error''
         | UnexpectedException \<Rightarrow> verdict CatTerminal ''unexpected_error'' ''msg_delivery_unexpected_error'')"

subsection \<open>Retry-After (\<open>src/app/utils/retry_after.py\<close>)\<close>

definition parse_retry_after :: "string option \<Rightarrow> int \<Rightarrow> int" where
  "parse_retry_after header own_min_seconds =
     (if \<not> truthy header then own_min_seconds
      else
        (let candidate = strip (the header) in
         if candidate = [] then own_min_seconds
         else
           (case py_int candidate of
              None \<Rightarrow> own_min_seconds
            | Some parsed \<Rightarrow> if parsed < 0 then own_min_seconds else max own_min_seconds parsed)))"

text \<open>\<open>now + timedelta(seconds=n)\<close>: the largest interval and the largest datetime are bounds of Python.\<close>

definition MAX_DATETIME :: time where
  "MAX_DATETIME = seconds 253402300800 - 1"

definition datetime_add_seconds :: "time \<Rightarrow> int \<Rightarrow> py_error + time" where
  "datetime_add_seconds now n =
     (if 86400 * 999999999 + 86399 < n \<or> MAX_DATETIME < now + seconds n then Inl OverflowError
      else Inr (now + seconds n))"

subsection \<open>One POST\<close>

record push_env =
  pe_net :: net
  pe_client :: "http_request \<Rightarrow> push_answer"
  pe_has_redis :: bool
  pe_redis_up :: bool
  pe_max_concurrent :: int

record attempt_result =
  ar_classification :: classification
  ar_retry_after_header :: "string option"

definition slug_address :: "agent \<Rightarrow> string \<Rightarrow> string" where
  "slug_address a user_slug = ag_slug a @ ''@'' @ user_slug"

definition build_body :: "message \<Rightarrow> agent \<Rightarrow> agent \<Rightarrow> string \<Rightarrow> string \<Rightarrow> json" where
  "build_body m from_agent to_agent sender_slug recipient_slug = JObj
     [(''id'', JStr (msg_id m)),
      (''from'', JObj [(''agent_id'', JStr (ag_id from_agent)), (''slug'', JStr (slug_address from_agent sender_slug))]),
      (''to'', JObj [(''agent_id'', JStr (ag_id to_agent)), (''slug'', JStr (slug_address to_agent recipient_slug))]),
      (''thread_id'', JStr (msg_thread_id m)), (''reply_to'', opt_json (msg_reply_to m)),
      (''subject'', opt_json (msg_subject m)), (''body'', JStr (msg_body m)), (''priority'', JInt (msg_priority m)),
      (''expects_reply'', JBool (msg_expects_reply m)), (''reply_to_agent_id'', opt_json (msg_reply_to_agent_id m)),
      (''metadata'', metadata_or_empty (msg_metadata m)), (''created_at'', JStr (isoformat (msg_created_at m)))]"

definition push_request :: "push_env \<Rightarrow> message \<Rightarrow> agent \<Rightarrow> string \<Rightarrow> string \<Rightarrow> json \<Rightarrow> int \<Rightarrow> time \<Rightarrow> http_request" where
  "push_request env m to_agent url secret body attempt now =
     (let (timestamp, signature) = sign_payload (pe_net env) now body secret
      in \<lparr>rq_method = ''POST'', rq_url = url,
          rq_headers =
            [(''Content-Type'', ''application/json''), (''X-CueAPI-Signature'', signature), (''X-CueAPI-Timestamp'', timestamp),
             (''X-CueAPI-Event-Type'', ''message.created''), (''X-CueAPI-Message-Id'', msg_id m),
             (''X-CueAPI-Agent-Id'', ag_id to_agent), (''X-CueAPI-Thread-Id'', msg_thread_id m),
             (''X-CueAPI-Attempt'', int_str attempt), (''User-Agent'', ''CueAPI/1.0'')],
          rq_body = Some body\<rparr>)"

definition terminal_result :: "string \<Rightarrow> attempt_result" where
  "terminal_result error_type =
     \<lparr>ar_classification = \<lparr>dc_category = CatTerminal, dc_error_type = error_type,
        dc_log_event_type = ''msg_delivery_4xx_terminal'', dc_http_status = None\<rparr>, ar_retry_after_header = None\<rparr>"

definition deliver_message_to_webhook ::
  "push_env \<Rightarrow> message \<Rightarrow> agent \<Rightarrow> agent \<Rightarrow> string \<Rightarrow> string \<Rightarrow> int \<Rightarrow> time \<Rightarrow> py_error + attempt_result" where
  "deliver_message_to_webhook env m from_agent to_agent sender_slug recipient_slug attempt now =
     (if \<not> truthy (ag_webhook_url to_agent) \<or> \<not> truthy (ag_webhook_secret to_agent)
      then Inr (terminal_result ''missing_webhook_config'')
      else
        (let url = the (ag_webhook_url to_agent);
             body = build_body m from_agent to_agent sender_slug recipient_slug;
             n = pe_net env
         in if \<not> fst (validate_url_at_delivery (net_parse n) (net_resolve n) url (net_env n))
            then Inr (terminal_result ''ssrf_blocked'')
            else
              (case pe_client env (push_request env m to_agent url (the (ag_webhook_secret to_agent)) body attempt now) of
                 PushResponse status _ retry_after \<Rightarrow>
                   Inr \<lparr>ar_classification = classify_response status,
                        ar_retry_after_header = (if status \<in> {429, 503} then retry_after else None)\<rparr>
               | PushError e \<Rightarrow> Inr \<lparr>ar_classification = classify_exception e, ar_retry_after_header = None\<rparr>
               | PushRaises err \<Rightarrow> Inl err)))"
subsection \<open>The per-user cap\<close>

datatype cap_result = Capped | Proceed bool \<comment> \<open>whether a slot of the counter is held\<close>

definition check_concurrent_cap_or_recycle ::
  "push_env \<Rightarrow> uuid \<Rightarrow> task_type \<Rightarrow> message_task \<Rightarrow> time \<Rightarrow> world \<Rightarrow> cap_result \<times> world" where
  "check_concurrent_cap_or_recycle env u ty p now w =
     (if \<not> pe_has_redis env then (Proceed False, w)
      else if \<not> pe_redis_up env then (Proceed True, w)
      else
        (case redis_incr (KConcurrent u) now (redis w) of
           Inl _ \<Rightarrow> (Proceed True, w)
         | Inr (current, r) \<Rightarrow>
             (let r1 = redis_expire (KConcurrent u) 600 now r in
              if pe_max_concurrent env < current
              then
                (case redis_decr (KConcurrent u) now r1 of
                   Inl _ \<Rightarrow> (Proceed True, w\<lparr>redis := r1\<rparr>)
                 | Inr (_, r2) \<Rightarrow>
                     (Capped, insert_outbox None None ty (MessageTask p) (Some (now + seconds 30)) now (w\<lparr>redis := r2\<rparr>)))
              else (Proceed True, w\<lparr>redis := r1\<rparr>))))"

definition release_concurrent :: "push_env \<Rightarrow> bool \<Rightarrow> uuid \<Rightarrow> time \<Rightarrow> world \<Rightarrow> world" where
  "release_concurrent env held u now w =
     (if pe_has_redis env \<and> held \<and> pe_redis_up env
      then (case redis_decr (KConcurrent u) now (redis w) of Inl _ \<Rightarrow> w | Inr (_, r) \<Rightarrow> w\<lparr>redis := r\<rparr>)
      else w)"

subsection \<open>Loading, claiming and the outcome\<close>

definition get_agent_row :: "world \<Rightarrow> string \<Rightarrow> agent option" where
  "get_agent_row w i = find (\<lambda>a. ag_id a = i) (agents w)"

definition load_message_context :: "world \<Rightarrow> string \<Rightarrow> string \<Rightarrow> (message \<times> agent \<times> agent \<times> user) option" where
  "load_message_context w message_id to_agent_id =
     (case get_message_row w message_id of
        None \<Rightarrow> None
      | Some m \<Rightarrow>
          (case get_agent_row w to_agent_id of
             None \<Rightarrow> None
           | Some to_agent \<Rightarrow>
               if ag_webhook_url to_agent = None then None
               else
                 (case get_agent_row w (msg_from_agent_id m) of
                    None \<Rightarrow> None
                  | Some from_agent \<Rightarrow>
                      (case get_user_row w (msg_user_id m) of
                         None \<Rightarrow> None
                       | Some usr \<Rightarrow> Some (m, to_agent, from_agent, usr)))))"

definition claim_message_row :: "time \<Rightarrow> message \<Rightarrow> message" where
  "claim_message_row now m = m\<lparr>msg_delivery_state := MDelivering, msg_delivering_started_at := Some now\<rparr>"

definition claim_message :: "string \<Rightarrow> delivery_state \<Rightarrow> time \<Rightarrow> world \<Rightarrow> bool \<times> world" where
  "claim_message i expected now w =
     (list_ex (\<lambda>m. msg_id m = i \<and> msg_delivery_state m = expected) (messages w),
      w\<lparr>messages := update_where (\<lambda>m. msg_id m = i \<and> msg_delivery_state m = expected) (claim_message_row now) (messages w)\<rparr>)"

definition MESSAGE_RETRY_MAX_ATTEMPTS :: int where
  "MESSAGE_RETRY_MAX_ATTEMPTS = 3"

definition MESSAGE_RETRY_BACKOFF_MINUTES :: "int list" where
  "MESSAGE_RETRY_BACKOFF_MINUTES = [1, 5, 15]"

definition pushed_row :: "time \<Rightarrow> message \<Rightarrow> message" where
  "pushed_row now m = m\<lparr>msg_delivery_state := MDelivered, msg_delivered_at := Some now, msg_delivering_started_at := None\<rparr>"

definition message_ready_row :: "message \<Rightarrow> message" where
  "message_ready_row m = m\<lparr>msg_delivery_state := MRetryReady, msg_delivering_started_at := None\<rparr>"

definition push_failed_row :: "time \<Rightarrow> message \<Rightarrow> message" where
  "push_failed_row now m = m\<lparr>msg_delivery_state := MFailed, msg_failed_at := Some now, msg_delivering_started_at := None\<rparr>"

definition retry_task :: "string \<Rightarrow> agent \<Rightarrow> int \<Rightarrow> message_task" where
  "retry_task i to_agent attempt =
     \<lparr>m_message_id = i, m_to_agent_id = ag_id to_agent, m_webhook_url = ag_webhook_url to_agent, m_attempt = Some attempt\<rparr>"

definition retry_at :: "int \<Rightarrow> string option \<Rightarrow> time \<Rightarrow> py_error + time" where
  "retry_at attempt header now =
     (case py_index MESSAGE_RETRY_BACKOFF_MINUTES (min (attempt - 1) (int (length MESSAGE_RETRY_BACKOFF_MINUTES) - 1)) of
        Inl err \<Rightarrow> Inl err
      | Inr backoff \<Rightarrow> datetime_add_seconds now (parse_retry_after header (backoff * 60)))"

definition route_attempt_outcome :: "string \<Rightarrow> agent \<Rightarrow> int \<Rightarrow> attempt_result \<Rightarrow> time \<Rightarrow> world \<Rightarrow> py_error + world" where
  "route_attempt_outcome i to_agent attempt result now w =
     (let c = dc_category (ar_classification result) in
      if c = CatSuccess then Inr (update_message_row i (pushed_row now) w)
      else if c = CatRetryable \<and> attempt < MESSAGE_RETRY_MAX_ATTEMPTS + 1 then
        (case retry_at attempt (ar_retry_after_header result) now of
           Inl err \<Rightarrow> Inl err
         | Inr scheduled_at \<Rightarrow>
             Inr (update_message_row i message_ready_row
                    (insert_outbox None None RetryMessage (MessageTask (retry_task i to_agent (attempt + 1)))
                       (Some scheduled_at) now w)))
      else Inr (update_message_row i (push_failed_row now) w))"

subsection \<open>The tasks\<close>

text \<open>
  The common course of both tasks: they differ in the state they claim from, the number of the
  attempt and the type of a recycled row. An exception after the claim releases the slot and
  leaves the message in delivering.
\<close>

definition push_task ::
  "push_env \<Rightarrow> task_type \<Rightarrow> delivery_state \<Rightarrow> int \<Rightarrow> message_task \<Rightarrow> time \<Rightarrow> (world \<Rightarrow> world) \<Rightarrow> time \<Rightarrow> world
     \<Rightarrow> py_error option \<times> world" where
  "push_task env ty expected attempt p now between finished w =
     (case load_message_context w (m_message_id p) (m_to_agent_id p) of
        None \<Rightarrow> (None, w)
      | Some (m, to_agent, from_agent, usr) \<Rightarrow>
          (case check_concurrent_cap_or_recycle env (usr_id usr) ty p now w of
             (Capped, w1) \<Rightarrow> (None, w1)
           | (Proceed held, w1) \<Rightarrow>
               (let (claimed, w2) = claim_message (m_message_id p) expected now w1
                in if \<not> claimed then (None, release_concurrent env held (usr_id usr) now w2)
                   else
                     (case deliver_message_to_webhook env m from_agent to_agent (usr_slug usr) (usr_slug usr) attempt now of
                        Inl err \<Rightarrow> (Some err, release_concurrent env held (usr_id usr) finished (between w2))
                      | Inr result \<Rightarrow>
                          (case route_attempt_outcome (msg_id m) to_agent attempt result finished (between w2) of
                             Inl err \<Rightarrow> (Some err, release_concurrent env held (usr_id usr) finished (between w2))
                           | Inr w3 \<Rightarrow> (None, release_concurrent env held (usr_id usr) finished w3))))))"

definition deliver_message_task ::
  "push_env \<Rightarrow> message_task \<Rightarrow> time \<Rightarrow> (world \<Rightarrow> world) \<Rightarrow> time \<Rightarrow> world \<Rightarrow> py_error option \<times> world" where
  "deliver_message_task env p now between finished w = push_task env DeliverMessage MQueued 1 p now between finished w"

definition retry_message_task ::
  "push_env \<Rightarrow> message_task \<Rightarrow> time \<Rightarrow> (world \<Rightarrow> world) \<Rightarrow> time \<Rightarrow> world \<Rightarrow> py_error option \<times> world" where
  "retry_message_task env p now between finished w =
     push_task env RetryMessage MRetryReady (case m_attempt p of None \<Rightarrow> 2 | Some a \<Rightarrow> a) p now between finished w"

subsection \<open>Deliveries whose worker died (\<open>src/worker/poller.py\<close>)\<close>

definition stale_delivery :: "time \<Rightarrow> message \<Rightarrow> bool" where
  "stale_delivery cutoff m \<longleftrightarrow> msg_delivery_state m = MDelivering
     \<and> (case msg_delivering_started_at m of None \<Rightarrow> False | Some t \<Rightarrow> t < cutoff)"

definition stale_messages :: "(string \<Rightarrow> bool) \<Rightarrow> time \<Rightarrow> world \<Rightarrow> message list" where
  "stale_messages locked cutoff w = take 100 (filter (\<lambda>m. stale_delivery cutoff m \<and> \<not> locked (msg_id m)) (messages w))"

definition task_for :: "string \<Rightarrow> outbox_row \<Rightarrow> bool" where
  "task_for i r \<longleftrightarrow> ob_task_type r \<in> {DeliverMessage, RetryMessage} \<and> ob_dispatched r
     \<and> (case ob_payload r of MessageTask p \<Rightarrow> m_message_id p = i | CueTask _ \<Rightarrow> False)"

definition prior_attempts :: "string \<Rightarrow> world \<Rightarrow> int" where
  "prior_attempts i w = int (length (filter (task_for i) (outbox w)))"

definition recover_stale_message :: "time \<Rightarrow> message \<Rightarrow> world \<Rightarrow> world" where
  "recover_stale_message now m w =
     (let prior = prior_attempts (msg_id m) w;
          url = (case get_agent_row w (msg_to_agent_id m) of None \<Rightarrow> None | Some a \<Rightarrow> ag_webhook_url a)
      in if prior < MESSAGE_RETRY_MAX_ATTEMPTS + 1 then
           update_message_row (msg_id m) message_ready_row
             (insert_outbox None None RetryMessage
                (MessageTask \<lparr>m_message_id = msg_id m, m_to_agent_id = msg_to_agent_id m, m_webhook_url = url,
                   m_attempt = Some (prior + 1)\<rparr>) (Some now) now w)
         else update_message_row (msg_id m) (push_failed_row now) w)"

definition recover_stale_message_deliveries :: "(string \<Rightarrow> bool) \<Rightarrow> int \<Rightarrow> time \<Rightarrow> time \<Rightarrow> world \<Rightarrow> nat \<times> world" where
  "recover_stale_message_deliveries locked stale_seconds start now w =
     (let stale = stale_messages locked (start - seconds stale_seconds) w
      in (length stale, fold (recover_stale_message now) stale w))"
subsection \<open>Row updates meet the contract\<close>

interpretation claim_upd: message_update "claim_message_row now" for now
  by unfold_locales (simp add: message_core_def claim_message_row_def)

interpretation pushed_upd: message_update "pushed_row now" for now
  by unfold_locales (simp add: message_core_def pushed_row_def)

interpretation ready_upd: message_update message_ready_row
  by unfold_locales (simp add: message_core_def message_ready_row_def)

interpretation push_failed_upd: message_update "push_failed_row now" for now
  by unfold_locales (simp add: message_core_def push_failed_row_def)

lemma get_message_row_id: "get_message_row w i = Some m \<Longrightarrow> m \<in> set (messages w) \<and> msg_id m = i"
  by (auto simp: get_message_row_def dest: find_SomeD)

lemma get_message_row_mem:
  "message_keys_ok w \<Longrightarrow> m \<in> set (messages w) \<Longrightarrow> get_message_row w (msg_id m) = Some m"
  unfolding get_message_row_def message_keys_ok_def by (rule find_key_distinct) auto

lemma update_message_row_frame [simp]:
  "outbox (update_message_row i f w) = outbox w" "agents (update_message_row i f w) = agents w"
  "users (update_message_row i f w) = users w" "redis (update_message_row i f w) = redis w"
  "events (update_message_row i f w) = events w" "cues (update_message_row i f w) = cues w"
  "executions (update_message_row i f w) = executions w" "outbox_seq (update_message_row i f w) = outbox_seq w"
  by (simp_all add: update_message_row_def)

lemma release_frame [simp]:
  "messages (release_concurrent env held u now w) = messages w" "outbox (release_concurrent env held u now w) = outbox w"
  "agents (release_concurrent env held u now w) = agents w" "users (release_concurrent env held u now w) = users w"
  "cues (release_concurrent env held u now w) = cues w" "executions (release_concurrent env held u now w) = executions w"
  "events (release_concurrent env held u now w) = events w"
  by (simp_all add: release_concurrent_def split: sum.split prod.split)

lemma cap_proceeds:
  "check_concurrent_cap_or_recycle env u ty p now w = (Proceed held, w1) \<Longrightarrow> db_same w w1"
  by (auto simp: check_concurrent_cap_or_recycle_def Let_def split: if_splits sum.splits prod.splits)

lemma get_message_row_cong: "messages v = messages w \<Longrightarrow> get_message_row v i = get_message_row w i"
  by (simp add: get_message_row_def)

lemma claim_message_lookup:
  assumes "message_keys_ok w" and "get_message_row w i = Some m"
  shows "claim_message i expected now w =
    (if msg_delivery_state m = expected then (True, update_message_row i (claim_message_row now) w) else (False, w))"
proof -
  note m = get_message_row_id [OF assms(2)]
  have uniq: "x = m" if "x \<in> set (messages w)" "msg_id x = i" for x
    using get_message_row_mem [OF assms(1) that(1)] assms(2) that(2) by simp
  have "update_where (\<lambda>x. msg_id x = i \<and> msg_delivery_state x = expected) (claim_message_row now) (messages w) =
      (if msg_delivery_state m = expected then update_where (\<lambda>x. msg_id x = i) (claim_message_row now) (messages w)
       else messages w)"
    unfolding update_where_def by (auto intro!: map_cong map_idI dest: uniq)
  moreover have "list_ex (\<lambda>x. msg_id x = i \<and> msg_delivery_state x = expected) (messages w) \<longleftrightarrow> msg_delivery_state m = expected"
    using m uniq by (auto simp: list_ex_iff)
  ultimately show ?thesis by (simp add: claim_message_def update_message_row_def)
qed

subsection \<open>Classification\<close>

text \<open>
  The table of outcomes: a push succeeds exactly on a status from 200 to 299; it is tried again
  exactly on 408, 429, the 5xx statuses and failures of the connection; everything else, redirects
  included, is final.
\<close>

theorem classification_complete:
  "dc_category (classify_response s) =
     (if s \<in> {200..299} then CatSuccess else if s \<in> {408, 429} \<union> {500..599} then CatRetryable else CatTerminal)
   \<and> dc_category (classify_exception e) = (if e = UnexpectedException then CatTerminal else CatRetryable)
   \<and> dc_http_status (classify_response s) = Some s"
  by (auto simp: classify_response_def classify_exception_def Let_def split: push_error.split connect_cause.split)

subsection \<open>When the next attempt is due\<close>

lemma parse_retry_after_ge: "own \<le> parse_retry_after h own"
  by (auto simp: parse_retry_after_def Let_def split: option.split)

lemma strip_int_str [simp]: "strip (int_str n) = int_str n"
proof (cases "n < 0")
  case True
  have "strip (CHR ''-'' # nat_str (nat (- n))) = CHR ''-'' # nat_str (nat (- n))"
    by (rule strip_no_space)
      (simp_all add: digit_not_space nat_str_last_digit, simp add: is_space_def)
  with True show ?thesis by (simp add: int_str_def)
next
  case False
  have "strip (nat_str (nat n)) = nat_str (nat n)"
    by (rule strip_no_space) (auto simp: digit_not_space nat_str_last_digit nat_str_hd_digit)
  with False show ?thesis by (simp add: int_str_def)
qed

lemma parse_retry_after_int: "parse_retry_after (Some (int_str n)) own = (if n < 0 then own else max own n)"
proof -
  have "int_str n \<noteq> []" by (simp add: int_str_def)
  then show ?thesis by (simp add: parse_retry_after_def truthy_def py_int_int_str)
qed

lemma backoff_minutes:
  assumes "1 \<le> attempt"
  shows "py_index MESSAGE_RETRY_BACKOFF_MINUTES (min (attempt - 1) (int (length MESSAGE_RETRY_BACKOFF_MINUTES) - 1)) =
    Inr (if attempt = 1 then 1 else if attempt = 2 then 5 else 15)"
proof -
  consider "attempt = 1" | "attempt = 2" | "3 \<le> attempt" using assms by linarith
  then show ?thesis
  proof cases
    case 3
    then have "min (attempt - 1) 2 = 2" by simp
    with 3 show ?thesis by (simp add: MESSAGE_RETRY_BACKOFF_MINUTES_def py_index_def)
  qed (simp_all add: MESSAGE_RETRY_BACKOFF_MINUTES_def py_index_def)
qed

text \<open>
  The recipient's Retry-After is a floor, never a shortcut: the next attempt is due no earlier
  than the server's own backoff (1, 5, then 15 minutes) and no earlier than a number of seconds the
  recipient asked for; without a usable header it is exactly the own backoff. A header so large
  that the date overflows makes the task raise.
\<close>

theorem retry_after_floor:
  assumes "1 \<le> attempt"
  shows "case retry_at attempt header now of
      Inr t \<Rightarrow> now + minutes (if attempt = 1 then 1 else if attempt = 2 then 5 else 15) \<le> t
        \<and> (\<forall>n. header = Some (int_str n) \<longrightarrow> now + seconds n \<le> t)
        \<and> (\<not> truthy header \<longrightarrow> t = now + minutes (if attempt = 1 then 1 else if attempt = 2 then 5 else 15))
    | Inl err \<Rightarrow> err = OverflowError \<and> (now + minutes 15 \<le> MAX_DATETIME \<longrightarrow> truthy header)"
proof -
  define b :: int where "b = (if attempt = 1 then 1 else if attempt = 2 then 5 else 15)"
  define s where "s = parse_retry_after header (b * 60)"
  have r: "retry_at attempt header now = datetime_add_seconds now s"
    by (simp add: retry_at_def backoff_minutes [OF assms] s_def b_def)
  have b: "1 \<le> b" "b \<le> 15" by (auto simp: b_def)
  have ge: "b * 60 \<le> s" unfolding s_def by (rule parse_retry_after_ge)
  have floor: "now + minutes b \<le> now + seconds s" using ge by (simp add: minutes_def)
  have asked: "now + seconds n \<le> now + seconds s" if "header = Some (int_str n)" for n
    using that b by (simp add: s_def parse_retry_after_int)
  have own: "s = b * 60" if "\<not> truthy header" using that by (simp add: s_def parse_retry_after_def)
  show ?thesis
  proof (cases "86400 * 999999999 + 86399 < s \<or> MAX_DATETIME < now + seconds s")
    case True
    have "truthy header" if "now + minutes 15 \<le> MAX_DATETIME"
    proof (rule ccontr)
      assume "\<not> truthy header"
      with own b have s: "s \<le> 900" by simp
      then have "now + seconds s \<le> MAX_DATETIME" using that unfolding minutes_def by (smt (verit) seconds_mono)
      with True s show False by simp
    qed
    with True show ?thesis by (simp add: r datetime_add_seconds_def)
  next
    case False
    with floor asked own show ?thesis by (auto simp: r datetime_add_seconds_def b_def [symmetric] minutes_def)
  qed
qed
theorem retry_after_floor_witness:
  "case retry_at 2 (Some (int_str 900)) 0 of Inr t \<Rightarrow> seconds 900 \<le> t | Inl _ \<Rightarrow> False"
proof -
  have "datetime_add_seconds 0 900 = Inr (seconds 900)"
    by (simp add: datetime_add_seconds_def MAX_DATETIME_def seconds_def)
  then have r: "retry_at 2 (Some (int_str 900)) 0 = Inr (seconds 900)"
    by (simp add: retry_at_def backoff_minutes [of 2, simplified] parse_retry_after_int)
  from retry_after_floor [where attempt = 2 and header = "Some (int_str 900)" and now = 0] show ?thesis unfolding r by auto
qed

subsection \<open>What one attempt does\<close>

lemma push_task_claimed:
  assumes "message_keys_ok w"
    and "load_message_context w (m_message_id p) (m_to_agent_id p) = Some (m, to_agent, from_agent, usr)"
    and "check_concurrent_cap_or_recycle env (usr_id usr) ty p now w = (Proceed held, w1)"
    and "msg_delivery_state m = expected"
    and "deliver_message_to_webhook env m from_agent to_agent (usr_slug usr) (usr_slug usr) attempt now = Inr result"
    and "route_attempt_outcome (msg_id m) to_agent attempt result finished
           (between (update_message_row (msg_id m) (claim_message_row now) w1)) = Inr w3"
  shows "push_task env ty expected attempt p now between finished w
    = (None, release_concurrent env held (usr_id usr) finished w3)"
proof -
  from assms(2) have row: "get_message_row w (m_message_id p) = Some m"
    by (auto simp: load_message_context_def split: option.splits if_splits)
  note same = db_same_tables(1) [OF cap_proceeds [OF assms(3)]]
  have "claim_message (m_message_id p) expected now w1
      = (True, update_message_row (msg_id m) (claim_message_row now) w1)"
    using claim_message_lookup [of w1 "m_message_id p" m expected now] assms(1,4) row get_message_row_id [OF row]
    by (simp add: message_keys_cong [OF same] get_message_row_cong [OF same])
  with assms(2,3,5,6) show ?thesis by (simp add: push_task_def)
qed

text \<open>
  C25. One push attempt, exactly: when the message can be claimed and a slot is free, the message
  ends delivered after a success; ready for a retry after a retryable failure of attempts 1 to 3,
  with one new row for the next attempt, due at the time the backoff and Retry-After give; and
  failed otherwise. No other message and no other outbox row changes.
\<close>

theorem push_attempt_exact:
  assumes "message_keys_ok w"
    and "load_message_context w (m_message_id p) (m_to_agent_id p) = Some (m, to_agent, from_agent, usr)"
    and "check_concurrent_cap_or_recycle env (usr_id usr) ty p now w = (Proceed held, w1)"
    and "msg_delivery_state m = expected"
    and "deliver_message_to_webhook env m from_agent to_agent (usr_slug usr) (usr_slug usr) attempt now = Inr result"
    and "retry_at attempt (ar_retry_after_header result) finished = Inr due"
    and "push_task env ty expected attempt p now (\<lambda>v. v) finished w = (err, w')"
  shows "err = None
    \<and> get_message_row w' (msg_id m) = Some
        (let claimed = m\<lparr>msg_delivering_started_at := None\<rparr> in
         case dc_category (ar_classification result) of
           CatSuccess \<Rightarrow> claimed\<lparr>msg_delivery_state := MDelivered, msg_delivered_at := Some finished\<rparr>
         | CatRetryable \<Rightarrow> if attempt \<le> 3 then claimed\<lparr>msg_delivery_state := MRetryReady\<rparr>
             else claimed\<lparr>msg_delivery_state := MFailed, msg_failed_at := Some finished\<rparr>
         | CatTerminal \<Rightarrow> claimed\<lparr>msg_delivery_state := MFailed, msg_failed_at := Some finished\<rparr>)
    \<and> map (\<lambda>r. (ob_task_type r, ob_payload r, ob_scheduled_at r, ob_dispatched r)) (outbox w') =
      map (\<lambda>r. (ob_task_type r, ob_payload r, ob_scheduled_at r, ob_dispatched r)) (outbox w) @
      (if dc_category (ar_classification result) = CatRetryable \<and> attempt \<le> 3
       then [(RetryMessage, MessageTask (retry_task (msg_id m) to_agent (attempt + 1)), Some due, False)] else [])
    \<and> (\<forall>j. j \<noteq> msg_id m \<longrightarrow> get_message_row w' j = get_message_row w j)"
proof -
  from assms(2) have row: "get_message_row w (msg_id m) = Some m"
    using get_message_row_id by (fastforce simp: load_message_context_def split: option.splits if_splits)
  note tabs = db_same_tables [OF cap_proceeds [OF assms(3)]]
  let ?v = "update_message_row (msg_id m) (claim_message_row now) w1"
  have v: "get_message_row ?v j = (if j = msg_id m then Some (claim_message_row now m) else get_message_row w j)" for j
    by (simp add: claim_upd.row_updated get_message_row_cong [OF tabs(1)] row)
  let ?ok = "dc_category (ar_classification result) = CatSuccess"
  let ?again = "dc_category (ar_classification result) = CatRetryable \<and> attempt < MESSAGE_RETRY_MAX_ATTEMPTS + 1"
  let ?retry = "insert_outbox None None RetryMessage (MessageTask (retry_task (msg_id m) to_agent (attempt + 1))) (Some due) finished ?v"
  let ?w3 = "if ?ok then update_message_row (msg_id m) (pushed_row finished) ?v
      else if ?again then update_message_row (msg_id m) message_ready_row ?retry
      else update_message_row (msg_id m) (push_failed_row finished) ?v"
  have r: "route_attempt_outcome (msg_id m) to_agent attempt result finished ?v = Inr ?w3"
    using assms(6) by (simp add: route_attempt_outcome_def Let_def)
  from push_task_claimed [where between = "\<lambda>v. v", OF assms(1-5) r] assms(7)
  have e: "err = None" and w': "messages w' = messages ?w3" "outbox w' = outbox ?w3" by auto
  have retry: "get_message_row ?retry j = get_message_row ?v j" for j by (rule get_message_row_cong) simp
  have rows: "get_message_row w' j = (if j = msg_id m then Some ((if ?ok then pushed_row finished else if ?again then message_ready_row
      else push_failed_row finished) (claim_message_row now m)) else get_message_row w j)" for j
    unfolding get_message_row_cong [OF w'(1)]
    by (simp add: pushed_upd.row_updated ready_upd.row_updated push_failed_upd.row_updated retry v)
  have "map (\<lambda>r. (ob_task_type r, ob_payload r, ob_scheduled_at r, ob_dispatched r)) (outbox w') =
      map (\<lambda>r. (ob_task_type r, ob_payload r, ob_scheduled_at r, ob_dispatched r)) (outbox w) @
      (if ?again then [(RetryMessage, MessageTask (retry_task (msg_id m) to_agent (attempt + 1)), Some due, False)] else [])"
    by (auto simp: w'(2) insert_outbox_def tabs)
  then show ?thesis
    using e rows
    by (auto simp: Let_def pushed_row_def message_ready_row_def push_failed_row_def claim_message_row_def
        MESSAGE_RETRY_MAX_ATTEMPTS_def split: category.split)
qed
text \<open>
  A task over the per-user cap loses nothing: it leaves the message alone, gives its slot back
  and puts the same task into the outbox again, due 30 seconds later.
\<close>

theorem capped_task_recycled:
  assumes "load_message_context w (m_message_id p) (m_to_agent_id p) = Some (m, to_agent, from_agent, usr)"
    and "check_concurrent_cap_or_recycle env (usr_id usr) ty p now w = (Capped, w1)"
  shows "push_task env ty expected attempt p now between finished w = (None, w1)
    \<and> messages w1 = messages w \<and> events w1 = events w
    \<and> (\<exists>r. outbox w1 = outbox w @ [r] \<and> ob_task_type r = ty \<and> ob_payload r = MessageTask p
         \<and> ob_scheduled_at r = Some (now + seconds 30) \<and> \<not> ob_dispatched r)
    \<and> redis_get (redis w1) now (KConcurrent (usr_id usr)) = Some (RInt
        (case redis_get (redis w) now (KConcurrent (usr_id usr)) of Some (RInt n) \<Rightarrow> n | _ \<Rightarrow> 0))"
proof -
  let ?k = "KConcurrent (usr_id usr)"
  from assms(2) obtain n r r' where inc: "redis_incr ?k now (redis w) = Inr (n, r)"
    and dec: "redis_decr ?k now (redis_expire ?k 600 now r) = Inr r'"
    and w1: "w1 = insert_outbox None None ty (MessageTask p) (Some (now + seconds 30)) now (w\<lparr>redis := snd r'\<rparr>)"
    by (auto simp: check_concurrent_cap_or_recycle_def Let_def split: if_splits sum.splits prod.splits)
  have "redis_get (redis w1) now ?k = Some (RInt (n - 1))"
    using inc dec
    by (auto simp: w1 redis_add_def redis_expire_def redis_get_def live_def seconds_def split: if_splits option.splits redis_val.splits prod.splits)
  moreover have "n - 1 = (case redis_get (redis w) now ?k of Some (RInt n) \<Rightarrow> n | _ \<Rightarrow> 0)"
    using inc by (auto simp: redis_add_def redis_get_def split: if_splits option.splits redis_val.splits prod.splits)
  moreover have "push_task env ty expected attempt p now between finished w = (None, w1)"
    by (simp add: push_task_def assms)
  ultimately show ?thesis by (simp add: w1) (simp add: insert_outbox_def)
qed

subsection \<open>Push and poll\<close>

text \<open>
  Push and poll do not hand out one message twice: of a claim and a poll of a queued message the
  first takes it. After a claim, a poll leaves the row as the claim made it and no second claim
  succeeds; after a poll the message is delivered and no claim succeeds.
\<close>

theorem push_poll_race:
  assumes "message_keys_ok w" and "get_message_row w i = Some m" and "msg_delivery_state m = MQueued" and "due_now now m"
  shows "fst (claim_message i MQueued t w)
    \<and> get_message_row (deliver_queued agent counterpart t' (snd (claim_message i MQueued t w))) i = Some (claim_message_row t m)
    \<and> \<not> fst (claim_message i MQueued t' (snd (claim_message i MQueued t w)))
    \<and> get_message_row (deliver_queued (msg_to_agent_id m) None now w) i = Some (delivered_row now m)
    \<and> \<not> fst (claim_message i MQueued t' (deliver_queued (msg_to_agent_id m) None now w))"
proof -
  let ?c = "update_message_row i (claim_message_row t) w" and ?d = "deliver_queued (msg_to_agent_id m) None now w"
  note mi = get_message_row_id [OF assms(2)]
  have claim: "claim_message i MQueued t w = (True, ?c)" using claim_message_lookup [OF assms(1,2)] assms(3) by simp
  have c: "get_message_row ?c i = Some (claim_message_row t m)" by (simp add: claim_upd.row_updated assms(2))
  have ck: "message_keys_ok ?c" using claim_upd.keys_kept [OF assms(1)] by (simp add: update_message_row_def)
  have dk: "message_keys_ok (deliver_queued a cp x v)" if "message_keys_ok v" for a cp x v
    using delivered_upd.keys_kept [OF that] by (simp add: deliver_queued_def)
  have polled: "get_message_row (deliver_queued a cp x v) i = Some (if polled a cp x y then delivered_row x y else y)"
    if "message_keys_ok v" "get_message_row v i = Some y" for a cp x v y
  proof -
    let ?y = "if polled a cp x y then delivered_row x y else y"
    have "?y \<in> set (messages (deliver_queued a cp x v))"
      using get_message_row_id [OF that(2)] by (auto simp: deliver_queued_def update_where_def image_iff)
    moreover have "msg_id ?y = i" using get_message_row_id [OF that(2)] by (simp add: delivered_upd.columns_kept)
    ultimately show ?thesis using get_message_row_mem [OF dk [OF that(1)]] by metis
  qed
  have d: "get_message_row ?d i = Some (delivered_row now m)"
    using polled [OF assms(1,2)] assms(3,4) by (simp add: polled_def opt_all_def)
  have "\<not> polled agent counterpart t' (claim_message_row t m)" by (simp add: polled_def claim_message_row_def)
  with polled [OF ck c] have "get_message_row (deliver_queued agent counterpart t' ?c) i = Some (claim_message_row t m)" by simp
  moreover have "\<not> fst (claim_message i MQueued t' ?c)"
    using claim_message_lookup [OF ck c, of MQueued t'] by (simp add: claim_message_row_def)
  moreover have "\<not> fst (claim_message i MQueued t' ?d)"
    using claim_message_lookup [OF dk [OF assms(1)] d, of MQueued t'] by (simp add: delivered_row_def)
  ultimately show ?thesis using claim d by simp
qed

text \<open>
  The outcome of the POST is written without looking at the row: a message the recipient
  acknowledged (or that expired) during the POST goes back to delivered.
\<close>

lemma late_push_overwrites_ack:
  assumes "route_attempt_outcome i to_agent attempt result finished v = Inr w'" and "get_message_row v i = Some m"
    and "dc_category (ar_classification result) = CatSuccess" and "msg_delivery_state m = MAcked"
  shows "map_option msg_delivery_state (get_message_row w' i) = Some MDelivered"
  using assms(1-3) by (auto simp: route_attempt_outcome_def pushed_upd.row_updated pushed_row_def)
subsection \<open>The attempt budget\<close>

definition within_budget :: "message_task \<Rightarrow> bool" where
  "within_budget p = opt_all (\<lambda>a. a \<le> MESSAGE_RETRY_MAX_ATTEMPTS + 1) (m_attempt p)"

definition budget_ok :: "world \<Rightarrow> bool" where
  "budget_ok w \<longleftrightarrow> (\<forall>r \<in> set (outbox w). case ob_payload r of MessageTask p \<Rightarrow> within_budget p | CueTask _ \<Rightarrow> True)"

lemma budget_ok_cong: "outbox v = outbox w \<Longrightarrow> budget_ok v = budget_ok w"
  by (simp add: budget_ok_def)

lemma budget_ok_insert [simp]:
  "budget_ok (insert_outbox e c ty pl s now w) \<longleftrightarrow>
     budget_ok w \<and> (case pl of MessageTask p \<Rightarrow> within_budget p | CueTask _ \<Rightarrow> True)"
  by (auto simp: budget_ok_def insert_outbox_def)

lemma budget_ok_frame [simp]:
  "budget_ok (update_message_row i f w) = budget_ok w"
  "budget_ok (release_concurrent env held u now w) = budget_ok w"
  "budget_ok (w\<lparr>messages := ms\<rparr>) = budget_ok w" "budget_ok (w\<lparr>redis := r\<rparr>) = budget_ok w"
  by (simp_all add: budget_ok_def)

lemma route_keeps_budget:
  "route_attempt_outcome i to_agent attempt result now w = Inr w' \<Longrightarrow> budget_ok w \<Longrightarrow> budget_ok w'"
  by (auto simp: route_attempt_outcome_def retry_task_def within_budget_def opt_all_def Let_def split: if_splits sum.splits)

lemma cap_keeps_budget:
  "check_concurrent_cap_or_recycle env u ty p now w = (c, w') \<Longrightarrow> budget_ok w \<Longrightarrow> within_budget p \<Longrightarrow> budget_ok w'"
  by (auto simp: check_concurrent_cap_or_recycle_def Let_def split: if_splits sum.splits prod.splits)

lemma push_task_keeps_budget:
  assumes "budget_ok w" and "within_budget p" and "\<And>v. budget_ok v \<Longrightarrow> budget_ok (between v)"
  shows "budget_ok (snd (push_task env ty expected attempt p now between finished w))"
proof -
  have claim: "budget_ok (snd (claim_message i s t v)) = budget_ok v" for i s t v by (simp add: claim_message_def)
  have cap: "budget_ok (snd (check_concurrent_cap_or_recycle env u ty p now w))" for u
    using cap_keeps_budget [OF surjective_pairing assms(1,2)] .
  show ?thesis
    unfolding push_task_def
    by (auto simp: Let_def split_def assms claim cap dest!: route_keeps_budget split: option.split prod.split cap_result.split sum.split)
qed

lemma recover_keeps_budget: "budget_ok w \<Longrightarrow> budget_ok (recover_stale_message now m w)"
  by (simp add: recover_stale_message_def Let_def within_budget_def opt_all_def MESSAGE_RETRY_MAX_ATTEMPTS_def)

text \<open>
  No message is tried more than four times by number: if every attempt number in the outbox is
  at most 4, then so it is after a delivery task, a retry task and a recovery pass, whatever the
  network answers and whatever other sessions (that keep the bound) do meanwhile.
\<close>

theorem message_attempts_bounded:
  assumes "budget_ok w" and "within_budget p" and "\<And>v. budget_ok v \<Longrightarrow> budget_ok (between v)"
  shows "budget_ok (snd (deliver_message_task env p now between finished w))
    \<and> budget_ok (snd (retry_message_task env p now between finished w))
    \<and> budget_ok (snd (recover_stale_message_deliveries locked stale_seconds now finished w))"
proof -
  have "budget_ok (fold (recover_stale_message finished) ms v)" if "budget_ok v" for ms v
    using that by (induction ms arbitrary: v) (simp_all add: recover_keeps_budget)
  then show ?thesis
    using push_task_keeps_budget [OF assms] assms(1)
    by (simp add: deliver_message_task_def retry_message_task_def recover_stale_message_deliveries_def Let_def)
qed

subsection \<open>Recovery\<close>

lemma prior_attempts_insert [simp]:
  "prior_attempts i (insert_outbox e c ty pl s now w) = prior_attempts i w"
  by (simp add: prior_attempts_def insert_outbox_def task_for_def)

lemma prior_attempts_frame [simp]: "prior_attempts i (update_message_row j f w) = prior_attempts i w"
  by (simp add: prior_attempts_def)

definition recovered_message :: "time \<Rightarrow> world \<Rightarrow> message \<Rightarrow> message \<Rightarrow> message" where
  "recovered_message now w d m =
     (if prior_attempts (msg_id d) w \<le> MESSAGE_RETRY_MAX_ATTEMPTS then message_ready_row m else push_failed_row now m)"

definition recovery_row :: "time \<Rightarrow> world \<Rightarrow> message \<Rightarrow> task_type \<times> task_payload \<times> time option" where
  "recovery_row now w m =
     (RetryMessage, MessageTask \<lparr>m_message_id = msg_id m, m_to_agent_id = msg_to_agent_id m,
        m_webhook_url = (case get_agent_row w (msg_to_agent_id m) of None \<Rightarrow> None | Some a \<Rightarrow> ag_webhook_url a),
        m_attempt = Some (prior_attempts (msg_id m) w + 1)\<rparr>, Some now)"

interpretation stale_batch: row_batch msg_id "recovered_message now w" for now w
  by unfold_locales (simp add: recovered_message_def ready_upd.columns_kept push_failed_upd.columns_kept)

lemma recover_one:
  "messages (recover_stale_message now d w) = update_where (\<lambda>m. msg_id m = msg_id d) (recovered_message now w d) (messages w)"
  "prior_attempts i (recover_stale_message now d w) = prior_attempts i w"
  "get_agent_row (recover_stale_message now d w) a = get_agent_row w a"
  "map (\<lambda>r. (ob_task_type r, ob_payload r, ob_scheduled_at r)) (outbox (recover_stale_message now d w)) =
     map (\<lambda>r. (ob_task_type r, ob_payload r, ob_scheduled_at r)) (outbox w) @
     (if prior_attempts (msg_id d) w \<le> MESSAGE_RETRY_MAX_ATTEMPTS then [recovery_row now w d] else [])"
proof -
  have rows: "messages (update_message_row i f v) = update_where (\<lambda>m. msg_id m = i) f (messages v)" for i f v
    by (simp add: update_message_row_def)
  have agents: "get_agent_row (update_message_row i f v) a = get_agent_row v a"
    "get_agent_row (insert_outbox e c ty pl s t v) a = get_agent_row v a" for i f v e c ty pl s t a
    by (simp_all add: get_agent_row_def)
  have new: "outbox (insert_outbox e c ty pl s t v) = outbox v @ [\<lparr>ob_id = outbox_seq v, ob_execution_id = e, ob_cue_id = c,
      ob_task_type = ty, ob_payload = pl, ob_dispatched = False, ob_dispatch_attempts = 0,
      ob_last_dispatch_error = None, ob_scheduled_at = s, ob_created_at = t\<rparr>]" for e c ty pl s t v
    by (simp add: insert_outbox_def)
  show "messages (recover_stale_message now d w) = update_where (\<lambda>m. msg_id m = msg_id d) (recovered_message now w d) (messages w)"
    by (simp add: recover_stale_message_def Let_def rows recovered_message_def [abs_def] MESSAGE_RETRY_MAX_ATTEMPTS_def)
  show "prior_attempts i (recover_stale_message now d w) = prior_attempts i w"
    "get_agent_row (recover_stale_message now d w) a = get_agent_row w a"
    by (simp_all add: recover_stale_message_def Let_def agents)
  show "map (\<lambda>r. (ob_task_type r, ob_payload r, ob_scheduled_at r)) (outbox (recover_stale_message now d w)) =
     map (\<lambda>r. (ob_task_type r, ob_payload r, ob_scheduled_at r)) (outbox w) @
     (if prior_attempts (msg_id d) w \<le> MESSAGE_RETRY_MAX_ATTEMPTS then [recovery_row now w d] else [])"
    by (simp add: recover_stale_message_def Let_def new recovery_row_def MESSAGE_RETRY_MAX_ATTEMPTS_def)
qed

lemma recovered_message_cong:
  "recovered_message now (recover_stale_message now d w) = recovered_message now w"
  "recovery_row now (recover_stale_message now d w) = recovery_row now w"
  by (simp_all add: recovered_message_def recovery_row_def fun_eq_iff recover_one)

lemma recover_fold:
  "messages (fold (recover_stale_message now) ds w) =
     fold (\<lambda>d. update_where (\<lambda>m. msg_id m = msg_id d) (recovered_message now w d)) ds (messages w)"
  "map (\<lambda>r. (ob_task_type r, ob_payload r, ob_scheduled_at r)) (outbox (fold (recover_stale_message now) ds w)) =
     map (\<lambda>r. (ob_task_type r, ob_payload r, ob_scheduled_at r)) (outbox w) @
     map (recovery_row now w) (filter (\<lambda>d. prior_attempts (msg_id d) w \<le> MESSAGE_RETRY_MAX_ATTEMPTS) ds)"
  by (induction ds arbitrary: w) (simp_all add: recover_one recovered_message_cong)

text \<open>
  Recovery of pushes whose worker died, exactly: each message in delivering since before the
  threshold (up to 100, none that another session holds) becomes ready for an immediate retry
  with its next attempt number while fewer than four tasks were dispatched for it, and failed
  otherwise; one retry row per revived message is added, and nothing else changes.
\<close>

theorem stale_message_recovery_exact:
  assumes "message_keys_ok w"
    and "recover_stale_message_deliveries locked stale_seconds start now w = (n, w')"
  shows "n = length (stale_messages locked (start - seconds stale_seconds) w) \<and> n \<le> 100
    \<and> messages w' = map (\<lambda>m. if m \<in> set (stale_messages locked (start - seconds stale_seconds) w)
          then if prior_attempts (msg_id m) w \<le> 3
               then m\<lparr>msg_delivery_state := MRetryReady, msg_delivering_started_at := None\<rparr>
               else m\<lparr>msg_delivery_state := MFailed, msg_failed_at := Some now, msg_delivering_started_at := None\<rparr>
          else m) (messages w)
    \<and> map (\<lambda>r. (ob_task_type r, ob_payload r, ob_scheduled_at r)) (outbox w') =
      map (\<lambda>r. (ob_task_type r, ob_payload r, ob_scheduled_at r)) (outbox w) @
      map (recovery_row now w) (filter (\<lambda>m. prior_attempts (msg_id m) w \<le> 3)
        (stale_messages locked (start - seconds stale_seconds) w))"
proof -
  let ?ds = "stale_messages locked (start - seconds stale_seconds) w"
  from assms(2) have n: "n = length ?ds" and w': "w' = fold (recover_stale_message now) ?ds w"
    by (auto simp: recover_stale_message_deliveries_def Let_def)
  have keys: "distinct (map msg_id (messages w))" using assms(1) by (simp add: message_keys_ok_def)
  then have "distinct (messages w)" by (simp add: distinct_map)
  moreover have sub: "set ?ds \<subseteq> set (messages w)"
    unfolding stale_messages_def by (metis (no_types, lifting) filter_is_subset set_take_subset subset_trans)
  ultimately have "distinct ?ds" by (simp add: stale_messages_def)
  note batch = stale_batch.batch_simultaneous [OF keys sub this, of now w]
  have "messages w' = map (\<lambda>m. if m \<in> set ?ds then recovered_message now w m m else m) (messages w)"
    unfolding w' recover_fold(1) batch ..
  then show ?thesis
    using n unfolding w' recover_fold(2)
    by (simp add: recovered_message_def message_ready_row_def push_failed_row_def MESSAGE_RETRY_MAX_ATTEMPTS_def
        stale_messages_def cong: if_cong)
qed
subsection \<open>Examples\<close>

definition example_push :: "push_answer \<Rightarrow> push_env" where
  "example_push answer = \<lparr>pe_net = example_net, pe_client = (\<lambda>_. answer), pe_has_redis = True, pe_redis_up = True,
     pe_max_concurrent = 50\<rparr>"

definition example_push_task :: message_task where
  "example_push_task = \<lparr>m_message_id = ''msg_000000000001'', m_to_agent_id = ''agt_00000000000b'',
     m_webhook_url = Some ''https://x.y'', m_attempt = None\<rparr>"

lemma example_context:
  "load_message_context sent_world (m_message_id example_push_task) (m_to_agent_id example_push_task) =
     Some (example_message, hook_agent, alice_agent, example_user 7 ''alice'')"
proof -
  have "get_message_row sent_world ''msg_000000000001'' = Some example_message"
    by (simp add: get_message_row_def sent_world_def example_message_columns)
  moreover have "get_agent_row sent_world ''agt_00000000000b'' = Some hook_agent"
    "get_agent_row sent_world ''agt_00000000000a'' = Some alice_agent"
    by (simp_all add: get_agent_row_def sent_world_def message_world_tables alice_agent_def hook_agent_def example_agent_def)
  moreover have "get_user_row sent_world 7 = Some (example_user 7 ''alice'')"
    by (simp add: get_user_row_def sent_world_def message_world_tables example_user_def)
  moreover have "ag_webhook_url hook_agent \<noteq> None" by (simp add: hook_agent_def example_agent_def)
  ultimately show ?thesis by (simp add: load_message_context_def example_push_task_def example_message_columns)
qed

lemma example_slot:
  "\<exists>w1. check_concurrent_cap_or_recycle (example_push a) 7 ty p now sent_world = (Proceed True, w1)"
  by (simp add: check_concurrent_cap_or_recycle_def example_push_def Let_def redis_add_def sent_world_def message_world_def
      user_world_def empty_world_def)

lemma example_post:
  "deliver_message_to_webhook (example_push (PushResponse 503 t (Some (int_str 900)))) example_message alice_agent hook_agent
     s s' 1 now = Inr \<lparr>ar_classification = classify_response 503, ar_retry_after_header = Some (int_str 900)\<rparr>"
proof -
  have "truthy (ag_webhook_url hook_agent)" "truthy (ag_webhook_secret hook_agent)"
    by (simp_all add: hook_agent_def example_agent_def truthy_def)
  moreover have "fst (validate_url_at_delivery (net_parse example_net) (net_resolve example_net) (the (ag_webhook_url hook_agent))
      (net_env example_net))" by code_simp
  ultimately show ?thesis by (simp add: deliver_message_to_webhook_def Let_def example_push_def)
qed

theorem push_attempt_exact_witness:
  "\<exists>w'. deliver_message_task (example_push (PushResponse 503 [] (Some (int_str 900)))) example_push_task 1000 (\<lambda>v. v) 2000 sent_world
      = (None, w')
    \<and> map_option msg_delivery_state (get_message_row w' ''msg_000000000001'') = Some MRetryReady
    \<and> map ob_scheduled_at (outbox w') = [Some (2000 + seconds 900)]"
proof -
  let ?env = "example_push (PushResponse 503 [] (Some (int_str 900)))" and ?u = "example_user 7 ''alice''"
  let ?r = "\<lparr>ar_classification = classify_response 503, ar_retry_after_header = Some (int_str 900)\<rparr>"
  have u: "usr_id ?u = 7" by (simp add: example_user_def)
  obtain w1 where slot: "check_concurrent_cap_or_recycle ?env (usr_id ?u) DeliverMessage example_push_task 1000 sent_world = (Proceed True, w1)"
    using example_slot unfolding u by blast
  have "datetime_add_seconds 2000 900 = Inr (2000 + seconds 900)"
    by (simp add: datetime_add_seconds_def MAX_DATETIME_def seconds_def)
  then have due: "retry_at 1 (ar_retry_after_header ?r) 2000 = Inr (2000 + seconds 900)"
    by (simp add: retry_at_def backoff_minutes [of 1, simplified] parse_retry_after_int)
  obtain err w' where t: "push_task ?env DeliverMessage MQueued 1 example_push_task 1000 (\<lambda>v. v) 2000 sent_world = (err, w')"
    by force
  have cat: "dc_category (classify_response 503) = CatRetryable" by (simp add: classify_response_def Let_def)
  have out: "outbox sent_world = []" by (simp add: sent_world_def message_world_tables)
  note p = push_attempt_exact [OF sent_world_keys example_context slot example_message_columns(7) example_post due t]
  show ?thesis
  proof (intro exI conjI)
    show "deliver_message_task ?env example_push_task 1000 (\<lambda>v. v) 2000 sent_world = (None, w')"
      using t p by (simp add: deliver_message_task_def)
    show "map_option msg_delivery_state (get_message_row w' ''msg_000000000001'') = Some MRetryReady"
      using p cat by (simp add: example_message_columns Let_def)
    have "map (\<lambda>(_, _, s, _). s) (map (\<lambda>r. (ob_task_type r, ob_payload r, ob_scheduled_at r, ob_dispatched r)) (outbox w'))
        = [Some (2000 + seconds 900)]" using p cat out by simp
    then show "map ob_scheduled_at (outbox w') = [Some (2000 + seconds 900)]" by (simp add: comp_def)
  qed
qed

theorem capped_task_recycled_witness:
  "\<exists>w1. push_task ((example_push (PushError NetworkError))\<lparr>pe_max_concurrent := 0\<rparr>) DeliverMessage MQueued 1 example_push_task 1000
      (\<lambda>v. v) 2000 sent_world = (None, w1) \<and> map ob_scheduled_at (outbox w1) = [Some (1000 + seconds 30)]"
proof -
  let ?env = "(example_push (PushError NetworkError))\<lparr>pe_max_concurrent := 0\<rparr>" and ?u = "example_user 7 ''alice''"
  have "\<exists>w1. check_concurrent_cap_or_recycle ?env (usr_id ?u) DeliverMessage example_push_task 1000 sent_world = (Capped, w1)"
    by (simp add: check_concurrent_cap_or_recycle_def example_push_def Let_def redis_add_def redis_expire_def sent_world_def
        message_world_def user_world_def empty_world_def seconds_def)
  then obtain w1 where c: "check_concurrent_cap_or_recycle ?env (usr_id ?u) DeliverMessage example_push_task 1000 sent_world = (Capped, w1)"
    by blast
  have "outbox sent_world = []" by (simp add: sent_world_def message_world_tables)
  with capped_task_recycled [OF example_context c, of MQueued 1 "\<lambda>v. v" 2000] show ?thesis by auto
qed

theorem push_poll_race_witness:
  "\<not> fst (claim_message ''msg_000000000001'' MQueued 1001 (deliver_queued ''agt_00000000000b'' None 1000 sent_world))"
proof -
  have row: "get_message_row sent_world ''msg_000000000001'' = Some example_message"
    by (simp add: get_message_row_def sent_world_def example_message_columns)
  have "due_now 1000 example_message" by (simp add: due_now_def opt_all_def example_message_columns)
  from push_poll_race [OF sent_world_keys row example_message_columns(7) this] show ?thesis
    by (simp add: example_message_columns)
qed

theorem message_attempts_bounded_witness:
  "budget_ok (snd (retry_message_task (example_push (PushError TimeoutException)) (example_push_task\<lparr>m_attempt := Some 4\<rparr>)
     1000 (\<lambda>v. v) 2000 sent_world))"
proof -
  have "budget_ok sent_world" by (simp add: budget_ok_def sent_world_def message_world_tables)
  moreover have "within_budget (example_push_task\<lparr>m_attempt := Some 4\<rparr>)"
    by (simp add: within_budget_def opt_all_def MESSAGE_RETRY_MAX_ATTEMPTS_def)
  ultimately show ?thesis using message_attempts_bounded [where between = "\<lambda>v. v"] by blast
qed

definition stuck_push_world :: world where
  "stuck_push_world = sent_world\<lparr>messages := [example_message\<lparr>msg_delivery_state := MDelivering, msg_delivering_started_at := Some 0\<rparr>]\<rparr>"

theorem stale_message_recovery_exact_witness:
  "map msg_delivery_state (messages (snd (recover_stale_message_deliveries (\<lambda>_. False) 300 (seconds 301) (seconds 301) stuck_push_world)))
     = [MRetryReady]"
proof -
  have keys: "message_keys_ok stuck_push_world" by (simp add: message_keys_ok_def stuck_push_world_def)
  have st: "stale_messages (\<lambda>_. False) (seconds 301 - seconds 300) stuck_push_world = messages stuck_push_world"
    by (simp add: stale_messages_def stuck_push_world_def stale_delivery_def seconds_def)
  have "prior_attempts i stuck_push_world = 0" for i
    by (simp add: prior_attempts_def stuck_push_world_def sent_world_def message_world_tables)
  with stale_message_recovery_exact [OF keys surjective_pairing, of "\<lambda>_. False" 300 "seconds 301" "seconds 301"] st
  show ?thesis by (simp add: stuck_push_world_def)
qed


end
