(* ===== verification/MessageCleanup.thy ===== *)
theory MessageCleanup
  imports MessageTasks
begin

section \<open>Housekeeping of the messages table (\<open>src/worker/message_cleanup.py\<close>)\<close>

text \<open>
  Expiry of old messages, deletion of finished ones in batches, and the release of idempotency
  keys after their window. Each function only counts in a dry run.
\<close>

definition MESSAGE_HARD_DELETE_DAYS :: int where
  "MESSAGE_HARD_DELETE_DAYS = 7"

definition IDEMPOTENCY_KEY_WINDOW_HOURS :: int where
  "IDEMPOTENCY_KEY_WINDOW_HOURS = 24"

definition BATCH_SIZE :: nat where
  "BATCH_SIZE = 1000"

subsection \<open>Expiry\<close>

definition overdue :: "time \<Rightarrow> message \<Rightarrow> bool" where
  "overdue now m \<longleftrightarrow> msg_expires_at m < now \<and> msg_delivery_state m \<notin> {MAcked, MExpired}"

definition expired_row :: "message \<Rightarrow> message" where
  "expired_row m = m\<lparr>msg_delivery_state := MExpired\<rparr>"

definition expire_old_messages :: "bool \<Rightarrow> time \<Rightarrow> world \<Rightarrow> (nat \<times> nat) \<times> world" where
  "expire_old_messages dry_run now w =
     (let eligible = length (filter (overdue now) (messages w))
      in if dry_run then ((eligible, 0), w)
         else ((eligible, eligible), w\<lparr>messages := update_where (overdue now) expired_row (messages w)\<rparr>))"

subsection \<open>Deletion\<close>

definition deletable :: "time \<Rightarrow> message \<Rightarrow> bool" where
  "deletable cutoff m \<longleftrightarrow>
     (msg_delivery_state m = MAcked \<and> (case msg_acked_at m of None \<Rightarrow> False | Some t \<Rightarrow> t < cutoff))
     \<or> (msg_delivery_state m = MExpired \<and> msg_expires_at m < cutoff)"

text \<open>DELETE of the rows with the given ids; the foreign key clears the references to them.\<close>

definition clear_reply_to :: "string set \<Rightarrow> message \<Rightarrow> message" where
  "clear_reply_to gone m = (case msg_reply_to m of Some r \<Rightarrow> if r \<in> gone then m\<lparr>msg_reply_to := None\<rparr> else m | None \<Rightarrow> m)"

definition delete_messages :: "string list \<Rightarrow> message list \<Rightarrow> message list" where
  "delete_messages ids ms = map (clear_reply_to (set ids)) (filter (\<lambda>m. msg_id m \<notin> set ids) ms)"

definition delete_batch :: "time \<Rightarrow> message list \<Rightarrow> string list" where
  "delete_batch cutoff ms = take BATCH_SIZE (map msg_id (filter (deletable cutoff) ms))"

lemma delete_batch_ids: "i \<in> set (delete_batch cutoff ms) \<Longrightarrow> \<exists>m \<in> set ms. msg_id m = i \<and> deletable cutoff m"
  unfolding delete_batch_def by (drule in_set_takeD) auto

lemma delete_batch_empty: "delete_batch cutoff ms = [] \<longleftrightarrow> filter (deletable cutoff) ms = []"
  by (simp add: delete_batch_def BATCH_SIZE_def)

lemma delete_shrinks: "delete_batch cutoff ms \<noteq> [] \<Longrightarrow> length (delete_messages (delete_batch cutoff ms) ms) < length ms"
proof -
  assume "delete_batch cutoff ms \<noteq> []"
  then obtain i where "i \<in> set (delete_batch cutoff ms)" by (meson last_in_set)
  with delete_batch_ids obtain m where "m \<in> set ms" "msg_id m \<in> set (delete_batch cutoff ms)" by blast
  then show ?thesis by (simp add: delete_messages_def) (metis length_filter_less)
qed

text \<open>The loop: batches until none is left.\<close>

function delete_loop :: "time \<Rightarrow> nat \<Rightarrow> message list \<Rightarrow> nat \<times> message list" where
  "delete_loop cutoff deleted ms =
     (let ids = delete_batch cutoff ms
      in if ids = [] then (deleted, ms)
         else delete_loop cutoff (deleted + length (filter (\<lambda>m. msg_id m \<in> set ids) ms)) (delete_messages ids ms))"
  by pat_completeness auto
termination
  by (relation "measure (\<lambda>(cutoff, deleted, ms). length ms)") (auto simp: delete_shrinks)

declare delete_loop.simps [simp del]

definition cleanup_expired_messages :: "bool \<Rightarrow> time \<Rightarrow> world \<Rightarrow> (nat \<times> nat \<times> string list) \<times> world" where
  "cleanup_expired_messages dry_run now w =
     (let cutoff = now - days MESSAGE_HARD_DELETE_DAYS;
          eligible = filter (deletable cutoff) (messages w);
          samples = take 5 (map msg_id eligible)
      in if dry_run then ((length eligible, 0, samples), w)
         else
           (let (deleted, ms) = delete_loop cutoff 0 (messages w)
            in ((length eligible, deleted, samples), w\<lparr>messages := ms\<rparr>)))"

subsection \<open>Idempotency keys\<close>

definition key_lapsed :: "time \<Rightarrow> message \<Rightarrow> bool" where
  "key_lapsed cutoff m \<longleftrightarrow> msg_idempotency_key m \<noteq> None \<and> msg_created_at m < cutoff"

definition free_old_idempotency_keys :: "bool \<Rightarrow> time \<Rightarrow> world \<Rightarrow> (nat \<times> nat) \<times> world" where
  "free_old_idempotency_keys dry_run now w =
     (let cutoff = now - hours IDEMPOTENCY_KEY_WINDOW_HOURS;
          eligible = length (filter (key_lapsed cutoff) (messages w))
      in if dry_run then ((eligible, 0), w)
         else ((eligible, eligible),
               w\<lparr>messages := update_where (key_lapsed cutoff) (\<lambda>m. m\<lparr>msg_idempotency_key := None\<rparr>) (messages w)\<rparr>))"

subsection \<open>The deletion loop\<close>

lemma clear_reply_to_columns [simp]:
  "msg_id (clear_reply_to s m) = msg_id m" "deletable c (clear_reply_to s m) = deletable c m"
  by (auto simp: clear_reply_to_def deletable_def split: option.split)

lemma clear_reply_to_twice: "clear_reply_to s (clear_reply_to t m) = clear_reply_to (s \<union> t) m"
  by (auto simp: clear_reply_to_def split: option.split)

lemma clear_reply_to_empty [simp]: "clear_reply_to {} m = m"
  by (simp add: clear_reply_to_def split: option.split)

definition gone :: "time \<Rightarrow> message list \<Rightarrow> string set" where
  "gone cutoff ms = msg_id ` {m \<in> set ms. deletable cutoff m}"

lemma delete_batch_gone: "set (delete_batch cutoff ms) \<subseteq> gone cutoff ms"
  using delete_batch_ids by (fastforce simp: gone_def)

lemma gone_after_batch:
  assumes "distinct (map msg_id ms)"
  shows "gone cutoff (delete_messages (delete_batch cutoff ms) ms) \<union> set (delete_batch cutoff ms) = gone cutoff ms"
    and "distinct (map msg_id (delete_messages (delete_batch cutoff ms) ms))"
proof -
  show "gone cutoff (delete_messages (delete_batch cutoff ms) ms) \<union> set (delete_batch cutoff ms) = gone cutoff ms"
  proof -
    let ?f = "clear_reply_to (set (delete_batch cutoff ms))"
    have "gone cutoff (delete_messages (delete_batch cutoff ms) ms)
        = msg_id ` ?f ` {m \<in> set ms. msg_id m \<notin> set (delete_batch cutoff ms) \<and> deletable cutoff m}"
      unfolding gone_def delete_messages_def by (rule arg_cong [of _ _ "image msg_id"]) auto
    also have "\<dots> = gone cutoff ms - set (delete_batch cutoff ms)" by (auto simp: gone_def image_image)
    finally show ?thesis using delete_batch_gone [of cutoff ms] by auto
  qed
  show "distinct (map msg_id (delete_messages (delete_batch cutoff ms) ms))"
    using assms by (simp add: delete_messages_def comp_def distinct_map_filter)
qed

lemma gone_iff:
  assumes "distinct (map msg_id ms)" and "m \<in> set ms"
  shows "msg_id m \<in> gone cutoff ms \<longleftrightarrow> deletable cutoff m"
  using assms by (auto simp: gone_def distinct_map inj_on_def)

lemma delete_loop_exact:
  assumes "distinct (map msg_id ms)"
  shows "delete_loop cutoff deleted ms =
    (deleted + length (filter (deletable cutoff) ms),
     map (clear_reply_to (gone cutoff ms)) (filter (\<lambda>m. \<not> deletable cutoff m) ms))"
  using assms
proof (induction cutoff deleted ms rule: delete_loop.induct)
  case (1 cutoff deleted ms)
  let ?ids = "delete_batch cutoff ms"
  show ?case
  proof (cases "?ids = []")
    case True
    then have "filter (deletable cutoff) ms = []" by (simp add: delete_batch_empty)
    moreover from this have "gone cutoff ms = {}" by (auto simp: gone_def filter_empty_conv)
    moreover have "map (clear_reply_to {}) ms = ms" by (rule map_idI) simp
    ultimately show ?thesis
      using True by (subst delete_loop.simps) (simp add: filter_empty_conv)
  next
    case False
    let ?ms = "delete_messages ?ids ms"
    note g = gone_after_batch [OF "1.prems", of cutoff]
    have ids: "deletable cutoff m" if "m \<in> set ms" "msg_id m \<in> set ?ids" for m
      using that delete_batch_gone [of cutoff ms] gone_iff [OF "1.prems" that(1)] by blast
    have count: "length (filter (\<lambda>m. msg_id m \<in> set ?ids) ms) + length (filter (deletable cutoff) ?ms)
        = length (filter (deletable cutoff) ms)"
    proof -
      have "length (filter (deletable cutoff) ?ms) = length (filter (\<lambda>m. deletable cutoff m \<and> msg_id m \<notin> set ?ids) ms)"
        by (simp add: delete_messages_def filter_map comp_def conj_commute)
      moreover have "filter (\<lambda>m. msg_id m \<in> set ?ids) ms = filter (\<lambda>m. deletable cutoff m \<and> msg_id m \<in> set ?ids) ms"
        using ids by (intro filter_cong) auto
      ultimately show ?thesis
        using sum_length_filter_compl [of "\<lambda>m. msg_id m \<in> set ?ids" "filter (deletable cutoff) ms"]
        by (simp add: conj_commute)
    qed
    have rest: "map (clear_reply_to (gone cutoff ?ms)) (filter (\<lambda>m. \<not> deletable cutoff m) ?ms) =
        map (clear_reply_to (gone cutoff ms)) (filter (\<lambda>m. \<not> deletable cutoff m) ms)"
    proof -
      have "filter (\<lambda>m. \<not> deletable cutoff m) ?ms =
          map (clear_reply_to (set ?ids)) (filter (\<lambda>m. \<not> deletable cutoff m) ms)"
        using ids by (auto simp: delete_messages_def filter_map comp_def intro!: arg_cong [where f = "map _"] filter_cong)
      then show ?thesis using g(1) by (simp add: clear_reply_to_twice)
    qed
    from "1.IH" [OF refl False g(2)] count rest False show ?thesis
      by (subst delete_loop.simps) (simp add: Let_def)
  qed
qed

text \<open>
  C26. The deletion ends and is exact: for any table, in however many batches, the messages
  acknowledged or expired more than seven days ago are deleted, no other message is, references
  to a deleted message are cleared, and the reported count is the number of deleted messages.
  A dry run changes nothing.
\<close>

theorem cleanup_deletes_exactly:
  assumes "message_keys_ok w"
  shows "cleanup_expired_messages False now w =
     ((length (filter (deletable (now - days 7)) (messages w)),
       length (filter (deletable (now - days 7)) (messages w)),
       take 5 (map msg_id (filter (deletable (now - days 7)) (messages w)))),
      w\<lparr>messages := map (clear_reply_to (gone (now - days 7) (messages w)))
          (filter (\<lambda>m. \<not> deletable (now - days 7) m) (messages w))\<rparr>)
    \<and> snd (cleanup_expired_messages True now w) = w"
proof -
  have "distinct (map msg_id (messages w))" using assms by (simp add: message_keys_ok_def)
  from delete_loop_exact [OF this] show ?thesis
    by (simp add: cleanup_expired_messages_def Let_def MESSAGE_HARD_DELETE_DAYS_def)
qed

theorem cleanup_deletes_exactly_witness:
  "messages (snd (cleanup_expired_messages False (days 9)
     (sent_world\<lparr>messages := [example_message\<lparr>msg_delivery_state := MAcked, msg_acked_at := Some (days 1)\<rparr>]\<rparr>))) = []"
proof -
  let ?w = "sent_world\<lparr>messages := [example_message\<lparr>msg_delivery_state := MAcked, msg_acked_at := Some (days 1)\<rparr>]\<rparr>"
  have "message_keys_ok ?w" by (simp add: message_keys_ok_def)
  from cleanup_deletes_exactly [OF this, of "days 9"] show ?thesis
    by (simp add: deletable_def days_def hours_def minutes_def seconds_def)
qed

end
