(* ===== verification/SubscriptionDispatcher.thy ===== *)
theory SubscriptionDispatcher
  imports MessageTasks
begin

section \<open>Webhook subscriptions (\<open>src/worker/subscription_dispatcher.py\<close>, \<open>subscription_dispatcher_policy.py\<close>)\<close>

text \<open>
  The dispatch cycle that posts pending events to webhook subscriptions, the debouncing of
  priority 4, the watermark, the circuit breaker, and the deletion of old events. The cycle is
  one transaction: an exception rolls the database back, but neither Redis nor the requests that
  were sent.
\<close>

definition DISPATCH_EVENTS_PER_SUB :: nat where
  "DISPATCH_EVENTS_PER_SUB = 50"

definition CIRCUIT_BREAKER_THRESHOLD :: int where
  "CIRCUIT_BREAKER_THRESHOLD = 10"

definition CIRCUIT_BREAKER_PAUSE_SECONDS :: int where
  "CIRCUIT_BREAKER_PAUSE_SECONDS = 3600"

record dispatch_env =
  de_net :: net
  de_client :: "http_request \<Rightarrow> push_answer"
  de_has_redis :: bool
  de_redis_up :: bool
  de_debounce :: time \<comment> \<open>\<open>PRIORITY_4_DEBOUNCE_SECONDS\<close>\<close>

subsection \<open>The policy of the priorities\<close>

definition PRIORITY_HIGH :: int where
  "PRIORITY_HIGH = 4"

definition PRIORITY_DEFAULT :: int where
  "PRIORITY_DEFAULT = 3"

text \<open>\<open>True\<close> is an instance of \<open>int\<close> and equal to 1, and is returned as it is.\<close>

definition event_priority :: "event \<Rightarrow> int" where
  "event_priority e =
     (case ev_payload e of
        JObj kvs \<Rightarrow>
          (case map_of kvs ''priority'' of
             Some (JInt v) \<Rightarrow> if v < 1 \<or> 5 < v then PRIORITY_DEFAULT else v
           | Some (JBool b) \<Rightarrow> if b then 1 else PRIORITY_DEFAULT
           | _ \<Rightarrow> PRIORITY_DEFAULT)
      | _ \<Rightarrow> PRIORITY_DEFAULT)"

text \<open>The counters of the cycle have the keys '1' to '5'; \<open>str(True)\<close> is not among them.\<close>

definition counted :: "event \<Rightarrow> bool" where
  "counted e \<longleftrightarrow> (case ev_payload e of JObj kvs \<Rightarrow> map_of kvs ''priority'' \<noteq> Some (JBool True) | _ \<Rightarrow> True)"

definition is_p4_debounced :: "dispatch_env \<Rightarrow> string \<Rightarrow> time \<Rightarrow> world \<Rightarrow> bool" where
  "is_p4_debounced env agent now w =
     (de_redis_up env \<and>
      (case redis_get (redis w) now (KDebounce agent) of
         Some (RTime last_fire) \<Rightarrow> now - last_fire < de_debounce env
       | Some (RInt n) \<Rightarrow> now - seconds n < de_debounce env
       | _ \<Rightarrow> False))"

definition stamp_p4_fire :: "dispatch_env \<Rightarrow> string \<Rightarrow> time \<Rightarrow> world \<Rightarrow> world" where
  "stamp_p4_fire env agent now w =
     (if de_redis_up env
      then w\<lparr>redis := redis_set_ex (KDebounce agent) (RTime now) (max 1 (de_debounce env div seconds 1 + 1)) now (redis w)\<rparr>
      else w)"

definition apply_tier_policy :: "dispatch_env \<Rightarrow> string \<Rightarrow> event list \<Rightarrow> time \<Rightarrow> world \<Rightarrow> event list \<times> event list" where
  "apply_tier_policy env agent es now w =
     (if es = [] then ([], [])
      else if \<not> list_ex (\<lambda>e. event_priority e = PRIORITY_HIGH) es then (es, [])
      else
        (let debounced = is_p4_debounced env agent now w
         in (filter (\<lambda>e. \<not> (event_priority e = PRIORITY_HIGH \<and> debounced)) es,
             filter (\<lambda>e. event_priority e = PRIORITY_HIGH \<and> debounced) es)))"

definition stamp_dispatch_markers :: "dispatch_env \<Rightarrow> string \<Rightarrow> event list \<Rightarrow> time \<Rightarrow> world \<Rightarrow> world" where
  "stamp_dispatch_markers env agent es now w =
     (if list_ex (\<lambda>e. event_priority e = PRIORITY_HIGH) es then stamp_p4_fire env agent now w else w)"

subsection \<open>One POST\<close>

definition serialize_event :: "event \<Rightarrow> json" where
  "serialize_event e = JObj
     [(''id'', JInt (int (ev_id e))), (''event_type'', JStr (ev_event_type e)),
      (''payload'', if json_truthy (ev_payload e) then ev_payload e else JObj []),
      (''emitted_at'', JStr (isoformat (ev_emitted_at e)))]"

definition build_webhook_body :: "string \<Rightarrow> event list \<Rightarrow> json" where
  "build_webhook_body sid es =
     (let first_id = (case es of [] \<Rightarrow> 0 | e # _ \<Rightarrow> ev_id e);
          last_id = (if es = [] then 0 else ev_id (last es))
      in JObj [(''delivery_id'', JStr (''dlv_'' @ sid @ ''_'' @ nat_str first_id @ ''_'' @ nat_str last_id)),
               (''subscription_id'', JStr sid), (''events'', JList (map serialize_event es))])"

definition should_trip_breaker :: "int \<Rightarrow> bool" where
  "should_trip_breaker consecutive_failures \<longleftrightarrow> CIRCUIT_BREAKER_THRESHOLD \<le> consecutive_failures"

definition classify_dispatch :: "bool \<Rightarrow> int \<Rightarrow> string" where
  "classify_dispatch ok status_code =
     (if ok then ''success''
      else if status_code = 0 \<or> 500 \<le> status_code \<or> status_code \<in> {408, 429} then ''retry''
      else ''skip'')"

definition subscription_request :: "dispatch_env \<Rightarrow> string \<Rightarrow> string \<Rightarrow> json \<Rightarrow> nat \<Rightarrow> time \<Rightarrow> http_request" where
  "subscription_request env url secret body count now =
     (let (timestamp, signature) = sign_payload (de_net env) now body secret
      in \<lparr>rq_method = ''POST'', rq_url = url,
          rq_headers = [(''Content-Type'', ''application/json''), (''X-CueAPI-Signature'', signature),
            (''X-CueAPI-Timestamp'', timestamp), (''X-CueAPI-Event-Count'', nat_str count)],
          rq_body = Some body\<rparr>)"

text \<open>Timeouts and network errors are an answer with status 0; any other exception of the client is raised.\<close>

definition deliver_subscription :: "dispatch_env \<Rightarrow> subscription \<Rightarrow> event list \<Rightarrow> time \<Rightarrow> py_error + bool \<times> int" where
  "deliver_subscription env sub es now =
     (case sub_webhook_secret sub of
        None \<Rightarrow> Inl AttributeError
      | Some secret \<Rightarrow>
          (case sub_webhook_url sub of
             None \<Rightarrow> Inl TypeError
           | Some url \<Rightarrow>
               (case de_client env (subscription_request env url secret (build_webhook_body (nat_str (sub_id sub)) es)
                       (length es) now) of
                  PushResponse status _ _ \<Rightarrow> Inr (200 \<le> status \<and> status < 300, status)
                | PushError TimeoutException \<Rightarrow> Inr (False, 0)
                | PushError (ConnectError _) \<Rightarrow> Inr (False, 0)
                | PushError NetworkError \<Rightarrow> Inr (False, 0)
                | PushError _ \<Rightarrow> Inl HttpError
                | PushRaises err \<Rightarrow> Inl err)))"

subsection \<open>The cycle\<close>

text \<open>Rows with the same watermark come in any order; the model takes them in table order.\<close>

definition nulls_first :: "nat option \<Rightarrow> int" where
  "nulls_first x = (case x of None \<Rightarrow> - 1 | Some n \<Rightarrow> int n)"

definition dispatch_due :: "time \<Rightarrow> subscription \<Rightarrow> bool" where
  "dispatch_due now s \<longleftrightarrow> sub_delivery_target s = WebhookTarget \<and> sub_detached_at s = None
     \<and> (case sub_paused_until s of None \<Rightarrow> True | Some t \<Rightarrow> t < now)"

definition fetch_dispatch_due_subs :: "(uuid \<Rightarrow> bool) \<Rightarrow> time \<Rightarrow> nat \<Rightarrow> world \<Rightarrow> subscription list" where
  "fetch_dispatch_due_subs locked now batch_size w =
     take batch_size (sort_key (\<lambda>s. nulls_first (sub_last_dispatched_event_id s))
       (filter (\<lambda>s. dispatch_due now s \<and> \<not> locked (sub_id s)) (subscriptions w)))"

definition watermark :: "subscription \<Rightarrow> nat" where
  "watermark s = (case sub_last_dispatched_event_id s of None \<Rightarrow> 0 | Some n \<Rightarrow> n)"

definition event_for :: "subscription \<Rightarrow> event \<Rightarrow> bool" where
  "event_for s e \<longleftrightarrow> ev_recipient_agent_id e = sub_subscriber_agent_id s \<and> ev_event_type e = sub_event_type s"

definition fetch_pending_events_for_sub :: "subscription \<Rightarrow> world \<Rightarrow> event list" where
  "fetch_pending_events_for_sub s w =
     take DISPATCH_EVENTS_PER_SUB (sort_key ev_id (filter (\<lambda>e. event_for s e \<and> watermark s < ev_id e) (events w)))"

definition new_watermark :: "subscription \<Rightarrow> event list \<Rightarrow> event list \<Rightarrow> nat" where
  "new_watermark s fired deferred =
     (if deferred \<noteq> [] then
        (let contiguous = filter (\<lambda>e. ev_id e < Min (ev_id ` set deferred)) fired
         in if contiguous \<noteq> [] then ev_id (last contiguous) else watermark s)
      else ev_id (last fired))"

definition dispatched_row :: "nat \<Rightarrow> time \<Rightarrow> subscription \<Rightarrow> subscription" where
  "dispatched_row n now s = s\<lparr>sub_last_dispatched_event_id := Some n, sub_last_dispatched_at := Some now,
     sub_consecutive_failures := 0, sub_last_acked_event_id := Some n\<rparr>"

definition failed_dispatch_row :: "subscription \<Rightarrow> time \<Rightarrow> subscription \<Rightarrow> subscription" where
  "failed_dispatch_row sub now s =
     (let new_failures = sub_consecutive_failures sub + 1
      in s\<lparr>sub_consecutive_failures := new_failures,
           sub_paused_until := (if should_trip_breaker new_failures then Some (now + seconds CIRCUIT_BREAKER_PAUSE_SECONDS)
                                else sub_paused_until sub)\<rparr>)"

definition update_sub_row :: "uuid \<Rightarrow> (subscription \<Rightarrow> subscription) \<Rightarrow> world \<Rightarrow> world" where
  "update_sub_row i f w = w\<lparr>subscriptions := update_where (\<lambda>s. sub_id s = i) f (subscriptions w)\<rparr>"

definition dispatch_sub ::
  "dispatch_env \<Rightarrow> time \<Rightarrow> subscription \<Rightarrow> nat \<times> world \<Rightarrow> (py_error \<times> world) + (nat \<times> world)" where
  "dispatch_sub env now sub st =
     (let (attempts, w) = st;
          es = fetch_pending_events_for_sub sub w;
          (fired, deferred) = (if de_has_redis env then apply_tier_policy env (sub_subscriber_agent_id sub) es now w else (es, []))
      in if es = [] \<or> fired = [] then Inr (attempts, w)
         else
           (case deliver_subscription env sub fired now of
              Inl err \<Rightarrow> Inl (err, w)
            | Inr (ok, status_code) \<Rightarrow>
                (let w1 = w\<lparr>sent := sent w @ [EventsPost (sub_id sub) (map ev_id fired) ok]\<rparr>
                 in if classify_dispatch ok status_code = ''success'' then
                      (let w2 = update_sub_row (sub_id sub) (dispatched_row (new_watermark sub fired deferred) now) w1;
                           w3 = (if de_has_redis env
                                 then stamp_dispatch_markers env (sub_subscriber_agent_id sub) fired now w2 else w2)
                       in if list_all counted fired then Inr (attempts + 1, w3) else Inl (KeyError, w3))
                    else Inr (attempts + 1, update_sub_row (sub_id sub) (failed_dispatch_row sub now) w1))))"

text \<open>An exception rolls the database back; requests sent and Redis stay.\<close>

definition roll_back :: "world \<Rightarrow> world \<Rightarrow> world" where
  "roll_back w w' = w\<lparr>redis := redis w', sent := sent w'\<rparr>"

definition dispatch_subscription_events ::
  "dispatch_env \<Rightarrow> (uuid \<Rightarrow> bool) \<Rightarrow> nat \<Rightarrow> time \<Rightarrow> world \<Rightarrow> (py_error + nat) \<times> world" where
  "dispatch_subscription_events env locked batch_size now w =
     (case fold_res (dispatch_sub env now) (fetch_dispatch_due_subs locked now batch_size w) (0, w) of
        Inl (err, w') \<Rightarrow> (Inl err, roll_back w w')
      | Inr (attempts, w') \<Rightarrow> (Inr attempts, w'))"

definition cleanup_old_events :: "int \<Rightarrow> time \<Rightarrow> world \<Rightarrow> nat \<times> world" where
  "cleanup_old_events retention_days now w =
     (let cutoff = now - days retention_days;
          kept = filter (\<lambda>e. \<not> ev_emitted_at e < cutoff) (events w)
      in (length (events w) - length kept, w\<lparr>events := kept\<rparr>))"
subsection \<open>What a cycle does to one subscription\<close>

lemma apply_tier_policy_split:
  assumes "apply_tier_policy env agent es now w = (fired, deferred)"
  shows "set es = set fired \<union> set deferred" "\<exists>p. fired = filter p es"
  using assms by (auto simp: apply_tier_policy_def Let_def split: if_splits intro: exI [of _ "\<lambda>_. True"])

text \<open>
  What is up to date after a POST: the watermark has not gone back, and every event between the old
  and the new one was in the POST.
\<close>

definition covered_by :: "effect list \<Rightarrow> subscription \<Rightarrow> event list \<Rightarrow> nat \<Rightarrow> bool" where
  "covered_by effs s evs n \<longleftrightarrow> watermark s \<le> n \<and>
     (\<forall>e \<in> set evs. event_for s e \<and> watermark s < ev_id e \<and> ev_id e \<le> n \<longrightarrow>
        (\<exists>ids. EventsPost (sub_id s) ids True \<in> set effs \<and> ev_id e \<in> set ids))"

lemma take_sort_key_closed:
  assumes "x \<in> set xs" and "y \<in> set (take n (sort_key k xs))" and "k x \<le> k y"
  shows "k x \<in> k ` set (take n (sort_key k xs))"
proof (cases "x \<in> set (take n (sort_key k xs))")
  case False
  let ?ys = "sort_key k xs"
  have "x \<in> set (take n ?ys @ drop n ?ys)" using assms(1) by simp
  with False have "x \<in> set (drop n ?ys)" by (metis Un_iff set_append)
  moreover have "sorted (map k (take n ?ys) @ map k (drop n ?ys))"
    by (metis append_take_drop_id map_append sorted_sort_key)
  ultimately have "k y \<le> k x" using assms(2) by (auto simp: sorted_append)
  with assms(2,3) show ?thesis by (metis antisym imageI)
qed simp

lemma new_watermark_covers:
  assumes es: "es = fetch_pending_events_for_sub s w"
    and split: "set es = set fired \<union> set deferred" "\<exists>p. fired = filter p es" and ne: "fired \<noteq> []"
  shows "covered_by [EventsPost (sub_id s) (map ev_id fired) True] s (events w) (new_watermark s fired deferred)"
proof -
  let ?n = "new_watermark s fired deferred"
  have above: "watermark s < ev_id e" if "e \<in> set es" for e
    using that es by (auto simp: fetch_pending_events_for_sub_def dest: in_set_takeD)
  have n: "?n = watermark s \<or> (\<exists>y \<in> set fired. ?n = ev_id y)"
    using ne last_in_set [of "filter (\<lambda>e. ev_id e < Min (ev_id ` set deferred)) fired"]
    by (auto simp: new_watermark_def Let_def)
  have below: "?n < ev_id d" if "d \<in> set deferred" for d
  proof -
    let ?c = "filter (\<lambda>e. ev_id e < Min (ev_id ` set deferred)) fired"
    have "Min (ev_id ` set deferred) \<le> ev_id d" using that by simp
    moreover have "last ?c \<in> set ?c" if "?c \<noteq> []" using that by (rule last_in_set)
    ultimately show ?thesis
      using that above [of d] split(1) by (auto simp: new_watermark_def Let_def)
  qed
  have posted: "ev_id e \<in> set (map ev_id fired)"
    if "e \<in> set (events w)" "event_for s e" "watermark s < ev_id e" "ev_id e \<le> ?n" for e
  proof -
    from that(3,4) n obtain y where "y \<in> set fired" "?n = ev_id y" by (metis leD)
    with that(4) split(1) have y: "y \<in> set es" "ev_id e \<le> ev_id y" by auto
    have "ev_id e \<in> ev_id ` set es"
      unfolding es fetch_pending_events_for_sub_def
      by (rule take_sort_key_closed [where y = y])
        (use y that es in \<open>auto simp: fetch_pending_events_for_sub_def\<close>)
    then obtain x where "x \<in> set es" "ev_id x = ev_id e" by auto
    with split(1) below that(4) show ?thesis by (force simp: image_iff)
  qed
  have "watermark s \<le> ?n" using n above split(1) by (auto simp: less_imp_le)
  with posted show ?thesis by (auto simp: covered_by_def)
qed

lemma watermark_dispatched_row [simp]: "watermark (dispatched_row n now s) = n"
  by (simp add: watermark_def dispatched_row_def)

lemma dispatched_row_id [simp]: "sub_id (dispatched_row n now s) = sub_id s"
  by (simp add: dispatched_row_def)

lemma watermark_failed_dispatch_row [simp]: "watermark (failed_dispatch_row s0 now s) = watermark s"
  by (simp add: watermark_def failed_dispatch_row_def Let_def)

lemma failed_dispatch_row_id [simp]: "sub_id (failed_dispatch_row s0 now s) = sub_id s"
  by (simp add: failed_dispatch_row_def Let_def)

lemma covered_by_refl [simp]: "covered_by effs s evs (watermark s)"
  by (auto simp: covered_by_def)

lemma covered_by_mono: "covered_by effs s evs n \<Longrightarrow> set effs \<subseteq> set effs' \<Longrightarrow> covered_by effs' s evs n"
  by (force simp: covered_by_def)

lemma stamp_dispatch_markers_frame [frame_simps]:
  "events (stamp_dispatch_markers env a es now w) = events w"
  "subscriptions (stamp_dispatch_markers env a es now w) = subscriptions w"
  "sent (stamp_dispatch_markers env a es now w) = sent w"
  by (simp_all add: stamp_dispatch_markers_def stamp_p4_fire_def)

lemma update_sub_row_frame [frame_simps]:
  "events (update_sub_row i f w) = events w" "sent (update_sub_row i f w) = sent w"
  "subscriptions (update_sub_row i f w) = update_where (\<lambda>s. sub_id s = i) f (subscriptions w)"
  by (simp_all add: update_sub_row_def)

text \<open>The possible results of one iteration: skipped, delivered, or failed.\<close>

inductive sub_step :: "time \<Rightarrow> subscription \<Rightarrow> world \<Rightarrow> world \<Rightarrow> bool" for now sub w where
  skipped: "sub_step now sub w w"
| delivered: "\<lbrakk>events w' = events w; sent w' = sent w @ [EventsPost (sub_id sub) ids True];
    subscriptions w' = update_where (\<lambda>s. sub_id s = sub_id sub) (dispatched_row n now) (subscriptions w);
    covered_by [EventsPost (sub_id sub) ids True] sub (events w) n\<rbrakk> \<Longrightarrow> sub_step now sub w w'"
| failed: "\<lbrakk>events w' = events w; sent w' = sent w @ [EventsPost (sub_id sub) ids False];
    subscriptions w' = update_where (\<lambda>s. sub_id s = sub_id sub) (failed_dispatch_row sub now) (subscriptions w)\<rbrakk>
    \<Longrightarrow> sub_step now sub w w'"

lemma classify_success: "classify_dispatch ok code = ''success'' \<longleftrightarrow> ok"
  by (simp add: classify_dispatch_def)

lemma dispatch_sub_step:
  assumes "dispatch_sub env now sub (a, w) = Inr (a', w')"
  shows "sub_step now sub w w'"
proof -
  let ?es = "fetch_pending_events_for_sub sub w"
  obtain fired deferred where tier:
    "(if de_has_redis env then apply_tier_policy env (sub_subscriber_agent_id sub) ?es now w else (?es, [])) = (fired, deferred)"
    by (metis surj_pair)
  have split: "set ?es = set fired \<union> set deferred" "\<exists>p. fired = filter p ?es"
    using tier apply_tier_policy_split by (auto split: if_splits intro: exI [of _ "\<lambda>_. True"])
  show ?thesis
  proof (cases "?es = [] \<or> fired = []")
    case True
    with assms tier show ?thesis by (auto simp: dispatch_sub_def Let_def intro: sub_step.skipped)
  next
    case False
    with assms tier obtain ok code where "deliver_subscription env sub fired now = Inr (ok, code)"
      by (auto simp: dispatch_sub_def Let_def split: sum.splits)
    with assms tier False new_watermark_covers [OF refl split] show ?thesis
      by (auto simp: dispatch_sub_def Let_def classify_success frame_simps split: if_splits
          intro: sub_step.delivered sub_step.failed)
  qed
qed

inductive_cases sub_stepE: "sub_step now sub w w'"

definition posts_to :: "effect list \<Rightarrow> uuid set" where
  "posts_to effs = {i. \<exists>ids ok. EventsPost i ids ok \<in> set effs}"

lemma posts_to_simps [simp]: "posts_to [] = {}" "posts_to (xs @ ys) = posts_to xs \<union> posts_to ys"
  by (auto simp: posts_to_def)

text \<open>The loop: a run over distinct subscriptions is a chain of such steps, and only its own step touches a row.\<close>

lemma sub_step_frame:
  assumes "sub_step now sub w w'"
  shows "events w' = events w" "\<exists>effs. sent w' = sent w @ effs \<and> posts_to effs \<subseteq> {sub_id sub}"
    "map sub_id (subscriptions w') = map sub_id (subscriptions w)"
    "s \<in> set (subscriptions w) \<Longrightarrow> sub_id s \<noteq> sub_id sub \<Longrightarrow> s \<in> set (subscriptions w')"
  using assms by (auto elim!: sub_stepE simp: map_update_where set_update_where posts_to_def)

lemma dispatch_loop_frame:
  assumes "fold_res (dispatch_sub env now) xs (a, w) = Inr (a', w')"
  shows "events w' = events w \<and> (\<exists>effs. sent w' = sent w @ effs \<and> posts_to effs \<subseteq> sub_id ` set xs)
    \<and> map sub_id (subscriptions w') = map sub_id (subscriptions w)
    \<and> (\<forall>s. s \<in> set (subscriptions w) \<longrightarrow> sub_id s \<notin> sub_id ` set xs \<longrightarrow> s \<in> set (subscriptions w'))"
  using assms
proof (induction xs arbitrary: a w)
  case (Cons x xs)
  from Cons.prems obtain a1 w1 where step: "dispatch_sub env now x (a, w) = Inr (a1, w1)"
    and rest: "fold_res (dispatch_sub env now) xs (a1, w1) = Inr (a', w')"
    by (auto split: sum.splits)
  note f = sub_step_frame [OF dispatch_sub_step [OF step]]
  from f(2) obtain e1 where e1: "sent w1 = sent w @ e1" "posts_to e1 \<subseteq> {sub_id x}" by blast
  from Cons.IH [OF rest] obtain e2 where e2: "sent w' = sent w1 @ e2" "posts_to e2 \<subseteq> sub_id ` set xs" by blast
  have "sent w' = sent w @ (e1 @ e2)" "posts_to (e1 @ e2) \<subseteq> sub_id ` set (x # xs)" using e1 e2 by auto
  with Cons.IH [OF rest] f(1,3,4) show ?case by (simp add: image_iff)
qed simp

lemma fetch_dispatch_due_subs_set:
  "set (fetch_dispatch_due_subs locked now n w) \<subseteq> {s \<in> set (subscriptions w). dispatch_due now s \<and> \<not> locked (sub_id s)}"
  by (auto simp: fetch_dispatch_due_subs_def dest: in_set_takeD)

lemma distinct_fetched:
  assumes "distinct (map sub_id (subscriptions w))"
  shows "distinct (map sub_id (fetch_dispatch_due_subs locked now n w))"
proof -
  let ?k = "\<lambda>s. nulls_first (sub_last_dispatched_event_id s)"
  let ?xs = "filter (\<lambda>s. dispatch_due now s \<and> \<not> locked (sub_id s)) (subscriptions w)"
  have d: "distinct ?xs" "inj_on sub_id (set ?xs)"
    using assms by (auto simp: distinct_map inj_on_def)
  then have "distinct (map sub_id (sort_key ?k ?xs))" by (simp add: distinct_map)
  then show ?thesis by (simp add: fetch_dispatch_due_subs_def take_map [symmetric] distinct_take)
qed

text \<open>A committed cycle seen from one subscription: at most one step is its own.\<close>

lemma dispatch_cycle_one [consumes 3, case_names untouched own]:
  assumes run: "dispatch_subscription_events env locked n now w = (Inr k, w')"
    and d: "distinct (map sub_id (subscriptions w))" and s: "s \<in> set (subscriptions w)"
  obtains (untouched) effs where "s \<in> set (subscriptions w')" "s \<notin> set (fetch_dispatch_due_subs locked now n w)"
      "sent w' = sent w @ effs" "sub_id s \<notin> posts_to effs"
  | (own) w1 w2 pre post where "sub_step now s w1 w2" "s \<in> set (subscriptions w1)" "events w1 = events w"
      "sent w1 = sent w @ pre" "sent w' = sent w2 @ post" "sub_id s \<notin> posts_to (pre @ post)" "distinct (map sub_id (subscriptions w1))"
      "\<And>r. r \<in> set (subscriptions w2) \<Longrightarrow> sub_id r = sub_id s \<Longrightarrow> r \<in> set (subscriptions w')"
      "events w' = events w" "map sub_id (subscriptions w') = map sub_id (subscriptions w)"
proof (cases "s \<in> set (fetch_dispatch_due_subs locked now n w)")
  case False
  from run have loop: "fold_res (dispatch_sub env now) (fetch_dispatch_due_subs locked now n w) (0, w) = Inr (k, w')"
    by (auto simp: dispatch_subscription_events_def split: sum.splits)
  have "sub_id s \<notin> sub_id ` set (fetch_dispatch_due_subs locked now n w)"
    using False d s fetch_dispatch_due_subs_set [of locked now n w] by (auto simp: distinct_map inj_on_def)
  with dispatch_loop_frame [OF loop] s show ?thesis using untouched False by blast
next
  case True
  then obtain xs ys where xs: "fetch_dispatch_due_subs locked now n w = xs @ s # ys" by (meson split_list)
  from run have loop: "fold_res (dispatch_sub env now) (xs @ s # ys) (0, w) = Inr (k, w')"
    by (auto simp: dispatch_subscription_events_def xs split: sum.splits)
  then obtain a1 w1 a2 w2 where pre: "fold_res (dispatch_sub env now) xs (0, w) = Inr (a1, w1)"
    and step: "dispatch_sub env now s (a1, w1) = Inr (a2, w2)"
    and post: "fold_res (dispatch_sub env now) ys (a2, w2) = Inr (k, w')"
    by (auto simp: fold_res_append split: sum.splits)
  have fresh: "sub_id s \<notin> sub_id ` set xs" "sub_id s \<notin> sub_id ` set ys"
    using distinct_fetched [OF d, of locked now n] by (auto simp: xs)
  note f1 = dispatch_loop_frame [OF pre] and f2 = sub_step_frame [OF dispatch_sub_step [OF step]]
    and f3 = dispatch_loop_frame [OF post]
  from f1 f3 fresh obtain pres posts where sents: "sent w1 = sent w @ pres" "sent w' = sent w2 @ posts"
    "sub_id s \<notin> posts_to (pres @ posts)" by (fastforce simp: subset_iff)
  show ?thesis
    by (rule own [OF dispatch_sub_step [OF step] _ _ sents]) (use f1 f2 f3 fresh s d in \<open>simp_all\<close>)
qed

subsection \<open>Delivery at least once\<close>

lemma sub_step_covers:
  assumes "sub_step now s w1 w2" and "s \<in> set (subscriptions w1)" and "sent w1 = sent w @ pre"
    and "sent w' = sent w2 @ post"
  shows "\<exists>s' \<in> set (subscriptions w2). sub_id s' = sub_id s
    \<and> covered_by (drop (length (sent w)) (sent w')) s (events w1) (watermark s')"
  using assms(1)
proof cases
  case (delivered ids n)
  have "dispatched_row n now s \<in> set (subscriptions w2)" using delivered(3) assms(2) by (auto simp: set_update_where)
  moreover have "covered_by (drop (length (sent w)) (sent w')) s (events w1) n"
    using delivered assms(3,4) by (auto elim!: covered_by_mono)
  ultimately show ?thesis by (intro bexI [of _ "dispatched_row n now s"]) simp_all
next
  case (failed ids)
  have "failed_dispatch_row s now s \<in> set (subscriptions w2)" using failed(3) assms(2) by (auto simp: set_update_where)
  then show ?thesis by (intro bexI [of _ "failed_dispatch_row s now s"]) simp_all
qed (use assms(2) in auto)

text \<open>
  C23. Events reach a webhook subscription at least once: after a dispatch cycle that commits, the
  watermark of each subscription has not gone back, and every event that it now lies past, and
  before did not, was in a POST of this cycle that the subscriber answered with success, deferred
  events and the limit of fifty included.
\<close>

theorem dispatch_at_least_once:
  assumes "dispatch_subscription_events env locked n now w = (Inr k, w')"
    and "distinct (map sub_id (subscriptions w))" and "s \<in> set (subscriptions w)"
  shows "\<exists>s' \<in> set (subscriptions w'). sub_id s' = sub_id s \<and> watermark s \<le> watermark s' \<and>
     (\<forall>e \<in> set (events w). event_for s e \<and> watermark s < ev_id e \<and> ev_id e \<le> watermark s' \<longrightarrow>
        (\<exists>ids. EventsPost (sub_id s) ids True \<in> set (drop (length (sent w)) (sent w')) \<and> ev_id e \<in> set ids))"
  using assms
proof (cases rule: dispatch_cycle_one)
  case untouched
  then show ?thesis by auto
next
  case (own w1 w2 pre post)
  obtain s' where s': "s' \<in> set (subscriptions w2)" "sub_id s' = sub_id s"
    and "covered_by (drop (length (sent w)) (sent w')) s (events w) (watermark s')"
    using sub_step_covers [OF own(1,2,4,5)] own(3) by metis
  with own(8) [OF s'] show ?thesis unfolding covered_by_def by blast
qed

subsection \<open>The circuit breaker\<close>

text \<open>
  The circuit breaker: when a POST of a cycle that commits failed and it was at least the tenth failure
  of its subscription in a row, no cycle of the next hour selects the subscription, whatever other
  cycles lock, unless its row is changed.
\<close>

theorem circuit_breaker_pauses:
  assumes "dispatch_subscription_events env locked n now w = (Inr k, w')"
    and "distinct (map sub_id (subscriptions w))" and "s \<in> set (subscriptions w)"
    and "EventsPost (sub_id s) ids False \<in> set (drop (length (sent w)) (sent w'))"
    and "CIRCUIT_BREAKER_THRESHOLD - 1 \<le> sub_consecutive_failures s"
    and "t \<le> now + seconds CIRCUIT_BREAKER_PAUSE_SECONDS"
  shows "\<exists>s' \<in> set (subscriptions w'). sub_id s' = sub_id s \<and> sub_consecutive_failures s' = sub_consecutive_failures s + 1
     \<and> s' \<notin> set (fetch_dispatch_due_subs locked' t n' w')"
  using assms(1-3)
proof (cases rule: dispatch_cycle_one)
  case untouched
  then show ?thesis using assms(4) by (auto simp: posts_to_def)
next
  case (own w1 w2 pre post)
  let ?r = "failed_dispatch_row s now s"
  from own(1) have "?r \<in> set (subscriptions w2)"
  proof cases
    case (failed ids')
    then show ?thesis using own(2) by (auto simp: set_update_where)
  qed (use own(4-6) assms(4) in \<open>auto simp: posts_to_def\<close>)
  moreover have "\<not> dispatch_due t ?r"
    using assms(5,6) by (auto simp: dispatch_due_def failed_dispatch_row_def should_trip_breaker_def Let_def)
  ultimately show ?thesis
    using own(8) [of ?r] fetch_dispatch_due_subs_set [of locked' t n' w']
    by (intro bexI [of _ ?r]) (auto simp: failed_dispatch_row_def Let_def)
qed

subsection \<open>Where the cycle makes no progress\<close>

lemma sorted_take_minimal:
  assumes "sorted (map k ys)" and "\<And>y. y \<in> set ys \<Longrightarrow> m \<le> k y" and "n \<le> length (filter (\<lambda>y. k y = m) ys)"
  shows "y \<in> set (take n ys) \<Longrightarrow> k y = m"
  using assms
proof (induction ys arbitrary: n)
  case (Cons z ys)
  show ?case
  proof (cases "k z = m")
    case True
    with Cons show ?thesis by (cases n) auto
  next
    case False
    with Cons.prems(2,3) have "\<forall>y \<in> set (z # ys). k y \<noteq> m" by force
    with Cons.prems(1,4) show ?thesis by (simp add: filter_False)
  qed
qed simp

text \<open>
  Idle subscriptions starve the others: the rows with a null watermark come first and the number
  of rows is limited, so when a batch of due subscriptions that never had an event exists, a cycle
  leaves everything as it was, however many events wait for other subscriptions.
\<close>

theorem idle_subscriptions_starve:
  assumes "batch_size \<le> length (filter (\<lambda>s. dispatch_due now s \<and> \<not> locked (sub_id s)
      \<and> sub_last_dispatched_event_id s = None) (subscriptions w))"
    and "\<And>s. s \<in> set (subscriptions w) \<Longrightarrow> sub_last_dispatched_event_id s = None \<Longrightarrow> fetch_pending_events_for_sub s w = []"
  shows "dispatch_subscription_events env locked batch_size now w = (Inr 0, w)"
proof -
  let ?k = "\<lambda>s. nulls_first (sub_last_dispatched_event_id s)"
  let ?xs = "filter (\<lambda>s. dispatch_due now s \<and> \<not> locked (sub_id s)) (subscriptions w)"
  have null: "?k s = - 1 \<longleftrightarrow> sub_last_dispatched_event_id s = None" for s
    by (simp add: nulls_first_def split: option.split)
  have "length (filter (\<lambda>s. ?k s = - 1) (sort_key ?k ?xs)) = length (filter (\<lambda>s. ?k s = - 1) ?xs)"
    by (simp only: filter_sort length_sort)
  also have "\<dots> \<ge> batch_size" using assms(1) unfolding null by (simp add: conj_ac)
  finally have many: "batch_size \<le> length (filter (\<lambda>s. ?k s = - 1) (sort_key ?k ?xs))" .
  have low: "- 1 \<le> ?k s" for s by (simp add: nulls_first_def split: option.split)
  have "sub_last_dispatched_event_id s = None" if "s \<in> set (fetch_dispatch_due_subs locked now batch_size w)" for s
    using sorted_take_minimal [of ?k "sort_key ?k ?xs" "- 1" batch_size s, OF sorted_sort_key low many
        that [unfolded fetch_dispatch_due_subs_def]] null by blast
  then have "fetch_pending_events_for_sub s w = []" if "s \<in> set (fetch_dispatch_due_subs locked now batch_size w)" for s
    using assms(2) that fetch_dispatch_due_subs_set by blast
  then have "fold_res (dispatch_sub env now) xs (0, w) = Inr (0, w)"
    if "set xs \<subseteq> set (fetch_dispatch_due_subs locked now batch_size w)" for xs
    using that by (induction xs) (auto simp: dispatch_sub_def apply_tier_policy_def Let_def)
  then show ?thesis by (simp add: dispatch_subscription_events_def)
qed

text \<open>
  One subscriber can undo the cycle of all: when the request of a selected subscription fails with
  anything but a timeout or a network error (a malformed answer, an invalid URL), the cycle
  raises and no row of any subscription is changed, although the POSTs before it were sent.
\<close>

theorem failing_client_undoes_cycle:
  assumes "s \<in> set (fetch_dispatch_due_subs locked now n w)" and "\<not> de_has_redis env"
    and "fetch_pending_events_for_sub s w \<noteq> []"
    and "deliver_subscription env s (fetch_pending_events_for_sub s w) now = Inl err"
  shows "\<exists>err' w'. dispatch_subscription_events env locked n now w = (Inl err', w')
    \<and> subscriptions w' = subscriptions w \<and> events w' = events w"
proof -
  obtain xs ys where xs: "fetch_dispatch_due_subs locked now n w = xs @ s # ys" using assms(1) by (meson split_list)
  have "\<exists>z. fold_res (dispatch_sub env now) (xs @ s # ys) (0, w) = Inl z"
  proof (cases "fold_res (dispatch_sub env now) xs (0, w)")
    case (Inr st)
    obtain a1 w1 where st: "st = (a1, w1)" by fastforce
    have "events w1 = events w" using dispatch_loop_frame [OF Inr [unfolded st]] by simp
    then have "fetch_pending_events_for_sub s w1 = fetch_pending_events_for_sub s w"
      by (simp add: fetch_pending_events_for_sub_def)
    with assms(2-4) have "dispatch_sub env now s (a1, w1) = Inl (err, w1)"
      by (simp add: dispatch_sub_def Let_def)
    with Inr show ?thesis by (simp add: fold_res_append st)
  qed (auto simp: fold_res_append)
  then show ?thesis by (auto simp: dispatch_subscription_events_def xs roll_back_def split: prod.split)
qed

subsection \<open>A concrete queue\<close>

definition queue_sub :: "uuid \<Rightarrow> int \<Rightarrow> subscription" where
  "queue_sub i failures = \<lparr>sub_id = i, sub_subscriber_agent_id = ''agt_1'', sub_event_type = ''turn.pass'', sub_delivery_target = WebhookTarget,
     sub_webhook_url = Some ''https://a.example/hook'', sub_webhook_secret = Some ''s'', sub_last_dispatched_event_id = None,
     sub_last_dispatched_at = None, sub_last_acked_event_id = None, sub_consecutive_failures = failures, sub_paused_until = None,
     sub_inline_body = False, sub_created_at = 0, sub_detached_at = None\<rparr>"

definition queue_event :: "nat \<Rightarrow> event" where
  "queue_event i = \<lparr>ev_id = i, ev_event_type = ''turn.pass'', ev_recipient_agent_id = ''agt_1'', ev_payload = JObj [],
     ev_emitted_at = 0, ev_idempotency_key = None, ev_digested_at = None\<rparr>"

definition queue_world :: "int \<Rightarrow> world" where
  "queue_world failures = empty_world\<lparr>subscriptions := [queue_sub 5 failures], events := [queue_event 1, queue_event 2], event_seq := 3\<rparr>"

definition queue_env :: "push_answer \<Rightarrow> dispatch_env" where
  "queue_env a = \<lparr>de_net = example_net, de_client = (\<lambda>_. a), de_has_redis = False, de_redis_up = False, de_debounce = seconds 300\<rparr>"

lemma queue_pending: "fetch_pending_events_for_sub (queue_sub 5 f) (queue_world f) = [queue_event 1, queue_event 2]"
  by (simp add: fetch_pending_events_for_sub_def queue_world_def queue_sub_def queue_event_def event_for_def watermark_def
      DISPATCH_EVENTS_PER_SUB_def)

lemma queue_selected: "fetch_dispatch_due_subs (\<lambda>_. False) now 100 (queue_world f) = [queue_sub 5 f]"
  by (simp add: fetch_dispatch_due_subs_def queue_world_def queue_sub_def dispatch_due_def)

lemma queue_answer:
  "deliver_subscription (queue_env a) (queue_sub 5 f) es now =
     (case a of PushResponse status _ _ \<Rightarrow> Inr (200 \<le> status \<and> status < 300, status)
      | PushError TimeoutException \<Rightarrow> Inr (False, 0)
      | PushError (ConnectError _) \<Rightarrow> Inr (False, 0)
      | PushError NetworkError \<Rightarrow> Inr (False, 0)
      | PushError _ \<Rightarrow> Inl HttpError
      | PushRaises err \<Rightarrow> Inl err)"
  by (simp add: deliver_subscription_def queue_sub_def queue_env_def)

definition queue_delivered :: world where
  "queue_delivered = (queue_world 0)\<lparr>subscriptions := [dispatched_row 2 100 (queue_sub 5 0)], sent := [EventsPost 5 [1, 2] True]\<rparr>"

definition queue_failed :: world where
  "queue_failed = (queue_world 9)\<lparr>subscriptions := [failed_dispatch_row (queue_sub 5 9) 100 (queue_sub 5 9)],
     sent := [EventsPost 5 [1, 2] False]\<rparr>"

lemma queue_delivery:
  "dispatch_subscription_events (queue_env (PushResponse 200 [] None)) (\<lambda>_. False) 100 100 (queue_world 0) = (Inr 1, queue_delivered)"
proof -
  have "sub_id (queue_sub 5 0) = 5" "ev_id (queue_event 1) = 1" "ev_id (queue_event 2) = 2" "counted (queue_event 1)" "counted (queue_event 2)"
    "\<not> de_has_redis (queue_env a)" "sent (queue_world 0) = []" "subscriptions (queue_world 0) = [queue_sub 5 0]" for a
    by (simp_all add: queue_sub_def queue_event_def queue_env_def counted_def queue_world_def empty_world_def)
  then show ?thesis
    by (simp add: dispatch_subscription_events_def queue_selected dispatch_sub_def queue_pending queue_answer Let_def
        classify_success update_sub_row_def new_watermark_def queue_delivered_def)
qed

lemma queue_failure:
  "dispatch_subscription_events (queue_env (PushResponse 500 [] None)) (\<lambda>_. False) 100 100 (queue_world 9) = (Inr 1, queue_failed)"
proof -
  have "sub_id (queue_sub 5 9) = 5" "ev_id (queue_event 1) = 1" "ev_id (queue_event 2) = 2"
    "\<not> de_has_redis (queue_env a)" "sent (queue_world 9) = []" "subscriptions (queue_world 9) = [queue_sub 5 9]" for a
    by (simp_all add: queue_sub_def queue_event_def queue_env_def queue_world_def empty_world_def)
  then show ?thesis
    by (simp add: dispatch_subscription_events_def queue_selected dispatch_sub_def queue_pending queue_answer Let_def
        classify_success update_sub_row_def queue_failed_def)
qed

lemma queue_fields:
  "subscriptions (queue_world f) = [queue_sub 5 f]" "events (queue_world f) = [queue_event 1, queue_event 2]"
  "sent (queue_world f) = []" "sub_id (queue_sub 5 f) = 5" "watermark (queue_sub 5 f) = 0" "sub_consecutive_failures (queue_sub 5 f) = f"
  "ev_id (queue_event i) = i" "event_for (queue_sub 5 f) (queue_event i)" "\<not> de_has_redis (queue_env a)"
  by (simp_all add: queue_world_def empty_world_def queue_sub_def watermark_def event_for_def queue_event_def queue_env_def)

theorem dispatch_at_least_once_witness:
  "\<exists>ids. EventsPost 5 ids True \<in> set (sent queue_delivered) \<and> 1 \<in> set ids"
proof -
  have "\<exists>s' \<in> set (subscriptions queue_delivered). sub_id s' = sub_id (queue_sub 5 0) \<and> watermark (queue_sub 5 0) \<le> watermark s' \<and>
     (\<forall>e \<in> set (events (queue_world 0)). event_for (queue_sub 5 0) e \<and> watermark (queue_sub 5 0) < ev_id e \<and> ev_id e \<le> watermark s' \<longrightarrow>
        (\<exists>ids. EventsPost (sub_id (queue_sub 5 0)) ids True \<in> set (drop (length (sent (queue_world 0))) (sent queue_delivered))
           \<and> ev_id e \<in> set ids))"
    by (rule dispatch_at_least_once [OF queue_delivery]) (simp_all add: queue_fields)
  then show ?thesis by (simp add: queue_fields queue_delivered_def)
qed

theorem circuit_breaker_pauses_witness:
  "\<exists>s' \<in> set (subscriptions queue_failed). sub_id s' = 5 \<and> sub_consecutive_failures s' = 10
     \<and> s' \<notin> set (fetch_dispatch_due_subs (\<lambda>_. False) (100 + seconds 3600) 100 queue_failed)"
proof -
  have "\<exists>s' \<in> set (subscriptions queue_failed). sub_id s' = sub_id (queue_sub 5 9)
     \<and> sub_consecutive_failures s' = sub_consecutive_failures (queue_sub 5 9) + 1
     \<and> s' \<notin> set (fetch_dispatch_due_subs (\<lambda>_. False) (100 + seconds 3600) 100 queue_failed)"
    by (rule circuit_breaker_pauses [OF queue_failure, where ids = "[1, 2]"])
      (simp_all add: queue_fields queue_failed_def CIRCUIT_BREAKER_THRESHOLD_def CIRCUIT_BREAKER_PAUSE_SECONDS_def)
  then show ?thesis by (simp add: queue_fields)
qed

theorem failing_client_undoes_cycle_witness:
  "\<exists>err' w'. dispatch_subscription_events (queue_env (PushRaises HttpError)) (\<lambda>_. False) 100 100 (queue_world 0) = (Inl err', w')
    \<and> subscriptions w' = subscriptions (queue_world 0) \<and> events w' = events (queue_world 0)"
  by (rule failing_client_undoes_cycle [where s = "queue_sub 5 0" and err = HttpError])
    (simp_all add: queue_selected queue_fields queue_pending queue_answer)

text \<open>An idle subscription before a waiting one, and a batch of one.\<close>

definition idle_world :: world where
  "idle_world = (queue_world 0)\<lparr>subscriptions := [queue_sub 5 0\<lparr>sub_event_type := ''turn.close''\<rparr>,
     queue_sub 6 0\<lparr>sub_last_dispatched_event_id := Some 1\<rparr>]\<rparr>"

theorem idle_subscriptions_starve_witness:
  "dispatch_subscription_events (queue_env (PushResponse 200 [] None)) (\<lambda>_. False) 1 100 idle_world = (Inr 0, idle_world)
   \<and> fetch_pending_events_for_sub (queue_sub 6 0\<lparr>sub_last_dispatched_event_id := Some 1\<rparr>) idle_world = [queue_event 2]"
proof (rule conjI)
  show "dispatch_subscription_events (queue_env (PushResponse 200 [] None)) (\<lambda>_. False) 1 100 idle_world = (Inr 0, idle_world)"
    by (rule idle_subscriptions_starve)
      (auto simp: idle_world_def dispatch_due_def queue_sub_def fetch_pending_events_for_sub_def event_for_def
        queue_event_def queue_world_def)
qed (simp add: fetch_pending_events_for_sub_def idle_world_def queue_world_def queue_sub_def queue_event_def event_for_def watermark_def
      DISPATCH_EVENTS_PER_SUB_def)

end
