(* ===== verification/DigestEmitter.thy ===== *)
theory DigestEmitter
  imports Events
begin

section \<open>Digests of low-priority events (\<open>src/worker/digest_emitter.py\<close>)\<close>

text \<open>
  The periodic task that bundles the events of priority 1 and 2 that no digest has mentioned yet
  into one \<open>message.digest\<close> event for each recipient. The cycle is one transaction. The
  theorem of this theory: a cycle puts each such event into exactly one new digest of its
  recipient, and the next cycle has nothing left to do.
\<close>

definition DIGEST_ELIGIBLE_PRIORITIES :: "string list" where
  "DIGEST_ELIGIBLE_PRIORITIES = [''1'', ''2'']"

text \<open>\<open>payload->>'priority'\<close>: the text of a number or of a string.\<close>

definition json_text :: "json \<Rightarrow> string option" where
  "json_text v =
     (case v of
        JNull \<Rightarrow> None
      | JBool b \<Rightarrow> Some (if b then ''true'' else ''false'')
      | JInt n \<Rightarrow> Some (int_str n)
      | JFloat t \<Rightarrow> Some t
      | JStr t \<Rightarrow> Some t
      | _ \<Rightarrow> Some (json_dumps True False v))"

definition priority_text :: "event \<Rightarrow> string option" where
  "priority_text e = (case ev_payload e of JObj kvs \<Rightarrow> Option.bind (map_of kvs ''priority'') json_text | _ \<Rightarrow> None)"

definition payload_field :: "event \<Rightarrow> string \<Rightarrow> json" where
  "payload_field e k =
     (case ev_payload e of JObj kvs \<Rightarrow> (case map_of kvs k of Some v \<Rightarrow> v | None \<Rightarrow> JNull) | _ \<Rightarrow> JNull)"

definition digest_entry :: "event \<Rightarrow> json" where
  "digest_entry e = JObj
     [(''message_id'', payload_field e ''message_id''), (''sender_agent_id'', payload_field e ''sender_agent_id''),
      (''subject'', payload_field e ''subject''), (''priority'', payload_field e ''priority''),
      (''emitted_at'', JStr (isoformat (ev_emitted_at e)))]"

definition build_digest_payload :: "string \<Rightarrow> event list \<Rightarrow> time \<Rightarrow> time \<Rightarrow> (string \<times> json) list" where
  "build_digest_payload recipient es period_start period_end =
     [(''recipient_agent_id'', JStr recipient), (''digest_period_start'', JStr (isoformat period_start)),
      (''digest_period_end'', JStr (isoformat period_end)), (''bundle_count'', JInt (int (length es))),
      (''bundled_messages'', JList (map digest_entry es))]"

definition undigested :: "event \<Rightarrow> bool" where
  "undigested e \<longleftrightarrow> ev_event_type e = ''message.delivered'' \<and> ev_digested_at e = None
     \<and> (case priority_text e of None \<Rightarrow> False | Some t \<Rightarrow> t \<in> set DIGEST_ELIGIBLE_PRIORITIES)"

text \<open>The recipients come in the order of the database's collation, which \<open>rank\<close> stands for.\<close>

definition fetch_undigested :: "(string \<Rightarrow> nat) \<Rightarrow> world \<Rightarrow> (string \<times> event list) list" where
  "fetch_undigested rank w =
     (let rows = filter undigested (events w)
      in map (\<lambda>r. (r, sort_key ev_id (filter (\<lambda>e. ev_recipient_agent_id e = r) rows)))
           (sort_key rank (remdups (map ev_recipient_agent_id rows))))"

definition digest_key :: "string \<Rightarrow> nat \<Rightarrow> string" where
  "digest_key recipient highest_event_id = ''message.digest:'' @ recipient @ '':'' @ nat_str highest_event_id"

definition mark_digested :: "nat list \<Rightarrow> time \<Rightarrow> world \<Rightarrow> world" where
  "mark_digested ids now w =
     w\<lparr>events := update_where (\<lambda>e. ev_id e \<in> set ids) (\<lambda>e. e\<lparr>ev_digested_at := Some now\<rparr>) (events w)\<rparr>"

definition emit_digest :: "nat \<Rightarrow> time \<Rightarrow> string \<times> event list \<Rightarrow> nat \<times> world \<Rightarrow> py_error + nat \<times> world" where
  "emit_digest min_batch now g st =
     (let (recipient, es) = g; (digests_emitted, w) = st
      in if length es < min_batch then Inr (digests_emitted, w)
         else
           (case es of
              [] \<Rightarrow> Inl IndexError
            | first # _ \<Rightarrow>
                (case emit_event ''message.digest'' recipient
                        (build_digest_payload recipient es (ev_emitted_at first) now)
                        (Some (digest_key recipient (ev_id (last es)))) None now w of
                   (Reply _, w1) \<Rightarrow> Inr (digests_emitted + 1, mark_digested (map ev_id es) now w1)
                 | (Refused _ _, w1) \<Rightarrow> Inl ValueError
                 | (Raised err, w1) \<Rightarrow> Inl err)))"

definition emit_digests :: "(string \<Rightarrow> nat) \<Rightarrow> nat \<Rightarrow> time \<Rightarrow> world \<Rightarrow> (py_error + nat) \<times> world" where
  "emit_digests rank min_batch now w =
     (case fold_res (emit_digest min_batch now) (fetch_undigested rank w) (0, w) of
        Inl err \<Rightarrow> (Inl err, w)
      | Inr (n, w') \<Rightarrow> (Inr n, w'))"

subsection \<open>The key of a digest\<close>

lemma nat_str_no_colon: "CHR '':'' \<notin> set (nat_str n)"
proof -
  have "\<not> is_digit (CHR '':'')" by (simp add: is_digit_def)
  with nat_str_digits [of n] show ?thesis by (auto simp: list_all_iff)
qed

lemma nat_str_inject: "nat_str m = nat_str n \<Longrightarrow> m = n"
  by (metis nat_str_value of_nat_eq_iff)

lemma takeWhile_before: "c \<notin> set ys \<Longrightarrow> takeWhile (\<lambda>x. x \<noteq> c) (ys @ c # zs) = ys"
  by (induction ys) auto

lemma split_at_last:
  assumes "xs @ c # ys = xs' @ c # ys'" and "c \<notin> set ys" and "c \<notin> set ys'"
  shows "xs = xs' \<and> ys = ys'"
proof -
  have "rev ys @ c # rev xs = rev ys' @ c # rev xs'" using arg_cong [OF assms(1), of rev] by simp
  then have "rev ys = rev ys'" using takeWhile_before assms(2,3) by (metis set_rev)
  with assms(1) show ?thesis by simp
qed

lemma digest_key_inject: "digest_key r m = digest_key r' n \<longleftrightarrow> r = r' \<and> m = n"
  using split_at_last [of r "CHR '':''" "nat_str m" r' "nat_str n"] nat_str_no_colon nat_str_inject
  by (auto simp: digest_key_def)

subsection \<open>What a cycle writes\<close>

definition digest_row :: "time \<Rightarrow> nat \<Rightarrow> string \<times> event list \<Rightarrow> event" where
  "digest_row now i g = \<lparr>ev_id = i, ev_event_type = ''message.digest'', ev_recipient_agent_id = fst g,
     ev_payload = JObj (build_digest_payload (fst g) (snd g) (ev_emitted_at (hd (snd g))) now), ev_emitted_at = now,
     ev_idempotency_key = Some (digest_key (fst g) (ev_id (last (snd g)))), ev_digested_at = None\<rparr>"

definition digest_ids :: "(string \<times> event list) list \<Rightarrow> nat set" where
  "digest_ids gs = (\<Union>g \<in> set gs. ev_id ` set (snd g))"

definition marked :: "time \<Rightarrow> nat set \<Rightarrow> event list \<Rightarrow> event list" where
  "marked now ids = update_where (\<lambda>e. ev_id e \<in> ids) (\<lambda>e. e\<lparr>ev_digested_at := Some now\<rparr>)"

definition digest_rows :: "time \<Rightarrow> nat \<Rightarrow> (string \<times> event list) list \<Rightarrow> event list" where
  "digest_rows now i gs = map (\<lambda>(j, g). digest_row now j g) (zip [i..<i + length gs] gs)"

text \<open>No digest with the key of the group is there yet.\<close>

definition fresh_key :: "world \<Rightarrow> string \<times> event list \<Rightarrow> bool" where
  "fresh_key w g \<longleftrightarrow> (\<forall>x \<in> set (events w). ev_event_type x = ''message.digest'' \<longrightarrow>
     ev_idempotency_key x \<noteq> Some (digest_key (fst g) (ev_id (last (snd g)))))"

lemma marked_twice: "marked now a (marked now b es) = marked now (b \<union> a) es"
  by (simp add: marked_def update_where_def)

lemma marked_append [simp]: "marked now a (xs @ ys) = marked now a xs @ marked now a ys"
  by (simp add: marked_def)

lemma marked_other: "(\<And>e. e \<in> set es \<Longrightarrow> ev_id e \<notin> a) \<Longrightarrow> marked now a es = es"
  by (simp add: marked_def update_where_none)

lemma marked_undigested: "x \<in> set (marked now ids es) \<Longrightarrow> undigested x \<Longrightarrow> x \<in> set es \<and> ev_id x \<notin> ids"
  unfolding marked_def update_where_def set_map
  by (elim imageE) (simp add: undigested_def split: if_splits)

lemma digest_row_fields [simp]:
  "ev_id (digest_row now i g) = i" "ev_event_type (digest_row now i g) = ''message.digest''"
  "ev_recipient_agent_id (digest_row now i g) = fst g"
  "ev_idempotency_key (digest_row now i g) = Some (digest_key (fst g) (ev_id (last (snd g))))"
  by (simp_all add: digest_row_def)

lemma marked_digest_row: "i \<notin> a \<Longrightarrow> marked now a [digest_row now i g] = [digest_row now i g]"
  by (rule marked_other) simp

lemma digest_rows_simps [simp]:
  "digest_rows now i [] = []" "digest_rows now i (g # gs) = digest_row now i g # digest_rows now (Suc i) gs"
  by (simp_all add: digest_rows_def upt_conv_Cons del: upt_Suc)

lemma emit_digest_result:
  assumes "emit_digest m now g (a, w) = Inr (a', w')" and "m \<le> length (snd g)" and "snd g \<noteq> []" and "fresh_key w g"
  shows "events w' = marked now (digest_ids [g]) (events w @ [digest_row now (event_seq w) g])"
    "event_seq w' = Suc (event_seq w)"
proof -
  obtain r e es where g: "g = (r, e # es)" using assms(3) by (metis neq_Nil_conv prod.collapse)
  let ?key = "Some (digest_key r (ev_id (last (e # es))))"
  have none: "find (\<lambda>x. ev_event_type x = ''message.digest'' \<and> ev_idempotency_key x = ?key) (events w) = None"
    using assms(4) by (auto simp: fresh_key_def find_None_iff g)
  obtain x w1 where ev: "emit_event ''message.digest'' r (build_digest_payload r (e # es) (ev_emitted_at e) now) ?key None now w = (Reply x, w1)"
    and w': "w' = mark_digested (map ev_id (e # es)) now w1"
    using assms(1,2) unfolding emit_digest_def g Let_def
    by (auto split: prod.splits reply.splits if_splits)
  from ev none have "w1 = w\<lparr>events := events w @ [digest_row now (event_seq w) g], event_seq := event_seq w + 1\<rparr>"
    unfolding emit_event_def Let_def by (auto simp: digest_row_def g split: if_splits)
  then show "events w' = marked now (digest_ids [g]) (events w @ [digest_row now (event_seq w) g])"
    "event_seq w' = Suc (event_seq w)"
    by (simp_all add: w' mark_digested_def marked_def digest_ids_def g)
qed

lemma digest_loop_result:
  assumes "fold_res (emit_digest m now) gs (a, w) = Inr (a', w')" and "distinct (map fst gs)"
    and "\<forall>g \<in> set gs. m \<le> length (snd g) \<and> snd g \<noteq> [] \<and> fresh_key w g" and "\<forall>i \<in> digest_ids gs. i < event_seq w"
  shows "events w' = marked now (digest_ids gs) (events w) @ digest_rows now (event_seq w) gs"
  using assms
proof (induction gs arbitrary: a w)
  case Nil
  then show ?case by (simp add: marked_def digest_ids_def update_where_none)
next
  case (Cons g gs)
  from Cons.prems(1) obtain a1 w1 where step: "emit_digest m now g (a, w) = Inr (a1, w1)"
    and rest: "fold_res (emit_digest m now) gs (a1, w1) = Inr (a', w')" by (auto split: sum.splits)
  let ?d = "digest_row now (event_seq w) g"
  have ids: "digest_ids (g # gs) = digest_ids [g] \<union> digest_ids gs" by (auto simp: digest_ids_def)
  have new: "event_seq w \<notin> digest_ids [g]" "event_seq w \<notin> digest_ids gs" using Cons.prems(4) by (auto simp: ids)
  have w1: "events w1 = marked now (digest_ids [g]) (events w) @ [?d]" "event_seq w1 = Suc (event_seq w)"
    using emit_digest_result [OF step] Cons.prems(3) new(1) by (simp_all add: marked_digest_row)
  have "fresh_key w1 h" if h: "h \<in> set gs" for h
  proof -
    have "fst h \<noteq> fst g" using h Cons.prems(2) by (auto simp: image_iff)
    with h Cons.prems(3) show ?thesis
      by (auto simp: fresh_key_def w1 marked_def set_update_where digest_key_inject)
  qed
  then have "events w' = marked now (digest_ids gs) (events w1) @ digest_rows now (event_seq w1) gs"
    using Cons.prems(2-4) by (intro Cons.IH [OF rest]) (auto simp: w1(2) ids less_Suc_eq)
  then show ?case using new(2) by (simp add: w1 marked_twice marked_digest_row ids)
qed

lemma digest_rows_set: "x \<in> set (digest_rows now i gs) \<Longrightarrow> \<exists>j g. i \<le> j \<and> g \<in> set gs \<and> x = digest_row now j g"
  by (induction gs arbitrary: i) (auto, metis Suc_leD)

lemma digest_rows_one:
  assumes "distinct (map fst gs)" and "g \<in> set gs" and "fst g = r"
  shows "\<exists>j. filter (\<lambda>x. ev_recipient_agent_id x = r) (digest_rows now i gs) = [digest_row now j g]"
  using assms
proof (induction gs arbitrary: i)
  case (Cons h gs)
  show ?case
  proof (cases "fst h = r")
    case True
    then have "g = h" and "\<forall>h' \<in> set gs. fst h' \<noteq> r" using Cons.prems by (auto simp: image_iff)
    then have "filter (\<lambda>x. ev_recipient_agent_id x = r) (digest_rows now (Suc i) gs) = []"
      by (auto simp: filter_empty_conv dest!: digest_rows_set)
    with True \<open>g = h\<close> show ?thesis by auto
  qed (use Cons in auto)
qed simp

lemma fetch_undigested_facts:
  "distinct (map fst (fetch_undigested rank w))"
  "(r, es) \<in> set (fetch_undigested rank w) \<Longrightarrow> es \<noteq> [] \<and> set es = {e \<in> set (events w). undigested e \<and> ev_recipient_agent_id e = r}"
  "e \<in> set (events w) \<Longrightarrow> undigested e \<Longrightarrow> \<exists>es. (ev_recipient_agent_id e, es) \<in> set (fetch_undigested rank w) \<and> e \<in> set es"
  "digest_ids (fetch_undigested rank w) = ev_id ` {e \<in> set (events w). undigested e}"
proof -
  let ?k = "\<lambda>r. sort_key ev_id (filter (\<lambda>e. ev_recipient_agent_id e = r) (filter undigested (events w)))"
  let ?rs = "sort_key rank (remdups (map ev_recipient_agent_id (filter undigested (events w))))"
  have f: "fetch_undigested rank w = map (\<lambda>r. (r, ?k r)) ?rs"
    by (simp only: fetch_undigested_def Let_def)
  have k: "set (?k r) = {e \<in> set (events w). undigested e \<and> ev_recipient_agent_id e = r}" for r by auto
  have rs: "set ?rs = ev_recipient_agent_id ` {e \<in> set (events w). undigested e}" by auto
  have "map fst (fetch_undigested rank w) = ?rs" by (simp only: f map_map o_def fst_conv map_ident)
  then show "distinct (map fst (fetch_undigested rank w))" by simp
  show "es \<noteq> [] \<and> set es = {e \<in> set (events w). undigested e \<and> ev_recipient_agent_id e = r}"
    if "(r, es) \<in> set (fetch_undigested rank w)"
  proof -
    have "r \<in> set ?rs" "es = ?k r" using that unfolding f by auto
    moreover from this(1) rs obtain e0 where "e0 \<in> set (events w)" "undigested e0" "ev_recipient_agent_id e0 = r" by auto
    ultimately show ?thesis using k [of r] by (metis (mono_tags, lifting) emptyE list.set(1) mem_Collect_eq)
  qed
  show "\<exists>es. (ev_recipient_agent_id e, es) \<in> set (fetch_undigested rank w) \<and> e \<in> set es"
    if "e \<in> set (events w)" "undigested e"
    using that rs k [of "ev_recipient_agent_id e"] unfolding f by force
  show "digest_ids (fetch_undigested rank w) = ev_id ` {e \<in> set (events w). undigested e}"
    unfolding digest_ids_def f set_map image_image snd_conv k rs by auto
qed

text \<open>
  C24. Every low-priority event goes into exactly one digest: a digest cycle that commits with the default
  minimum of one, and finds no older digest under its keys, adds for the recipient of each event
  not yet digested exactly one event, a digest whose bundle has the event, and a further cycle
  emits nothing and changes nothing.
\<close>

theorem digest_exactly_once:
  assumes run: "emit_digests rank m now w = (Inr n, w')" and "m \<le> 1" and ok: "events_ok w"
    and keys: "\<And>x e'. x \<in> set (events w) \<Longrightarrow> ev_event_type x = ''message.digest'' \<Longrightarrow> e' \<in> set (events w) \<Longrightarrow> undigested e'
      \<Longrightarrow> ev_idempotency_key x \<noteq> Some (digest_key (ev_recipient_agent_id e') (ev_id e'))"
    and e: "e \<in> set (events w)" "undigested e"
  shows "(\<exists>d es start. filter (\<lambda>x. event_seq w \<le> ev_id x \<and> ev_recipient_agent_id x = ev_recipient_agent_id e) (events w') = [d]
      \<and> ev_event_type d = ''message.digest''
      \<and> ev_payload d = JObj (build_digest_payload (ev_recipient_agent_id e) es start now) \<and> e \<in> set es)
    \<and> emit_digests rank m now' w' = (Inr 0, w')"
proof -
  let ?gs = "fetch_undigested rank w" and ?r = "ev_recipient_agent_id e"
  from run have loop: "fold_res (emit_digest m now) ?gs (0, w) = Inr (n, w')"
    by (auto simp: emit_digests_def split: sum.splits)
  have good: "m \<le> length (snd g) \<and> snd g \<noteq> [] \<and> fresh_key w g" if "g \<in> set ?gs" for g
  proof -
    obtain r es where g: "g = (r, es)" by fastforce
    have es: "es \<noteq> []" "last es \<in> set es" "set es = {e \<in> set (events w). undigested e \<and> ev_recipient_agent_id e = r}"
      using fetch_undigested_facts(2) that g by (metis last_in_set)+
    then have l: "last es \<in> set (events w)" "undigested (last es)" "ev_recipient_agent_id (last es) = r" by auto
    have "fresh_key w g" unfolding fresh_key_def g fst_conv snd_conv using keys [OF _ _ l(1,2)] l(3) by auto
    moreover have "1 \<le> length es" using es(1) by (simp add: Suc_le_eq)
    ultimately show ?thesis using \<open>m \<le> 1\<close> es(1) by (auto simp: g)
  qed
  have old: "ev_id x < event_seq w" if "x \<in> set (events w)" for x using ok that by (simp add: events_ok_def)
  have evs: "events w' = marked now (digest_ids ?gs) (events w) @ digest_rows now (event_seq w) ?gs"
    by (rule digest_loop_result [OF loop fetch_undigested_facts(1)]) (use good old in \<open>auto simp: fetch_undigested_facts(4)\<close>)
  have "\<not> event_seq w \<le> ev_id x" if "x \<in> set (marked now (digest_ids ?gs) (events w))" for x
    using that old by (auto simp: marked_def set_update_where not_le)
  moreover have "event_seq w \<le> ev_id x" if "x \<in> set (digest_rows now (event_seq w) ?gs)" for x
    using digest_rows_set [OF that] by auto
  ultimately have new: "filter (\<lambda>x. event_seq w \<le> ev_id x \<and> ev_recipient_agent_id x = ?r) (events w')
      = filter (\<lambda>x. ev_recipient_agent_id x = ?r) (digest_rows now (event_seq w) ?gs)"
    unfolding evs filter_append by (simp cong: filter_cong)
  obtain es where es: "(?r, es) \<in> set ?gs" "e \<in> set es" using fetch_undigested_facts(3) [OF e] by blast
  obtain j where "filter (\<lambda>x. ev_recipient_agent_id x = ?r) (digest_rows now (event_seq w) ?gs) = [digest_row now j (?r, es)]"
    using digest_rows_one [OF fetch_undigested_facts(1) es(1), of ?r] by auto
  moreover have "filter undigested (events w') = []"
    unfolding evs filter_empty_conv
    by (auto simp: fetch_undigested_facts(4) dest: marked_undigested dest!: digest_rows_set) (auto simp: undigested_def)
  ultimately show ?thesis
    using es(2) by (auto simp: new emit_digests_def fetch_undigested_def digest_row_def)
qed

definition low_event :: "nat \<Rightarrow> event" where
  "low_event i = \<lparr>ev_id = i, ev_event_type = ''message.delivered'', ev_recipient_agent_id = ''agt_1'',
     ev_payload = JObj [(''priority'', JStr ''2'')], ev_emitted_at = 10, ev_idempotency_key = None, ev_digested_at = None\<rparr>"

definition digest_world :: world where
  "digest_world = emit_two\<lparr>events := [low_event 1, low_event 2], event_seq := 3\<rparr>"

lemma low_event_undigested: "undigested (low_event i)"
  by (simp add: undigested_def low_event_def priority_text_def json_text_def DIGEST_ELIGIBLE_PRIORITIES_def)

lemma digest_world_groups: "fetch_undigested rank digest_world = [(''agt_1'', [low_event 1, low_event 2])]"
proof -
  have "filter undigested (events digest_world) = [low_event 1, low_event 2]"
    by (simp add: digest_world_def low_event_undigested)
  then show ?thesis by (simp add: fetch_undigested_def low_event_def)
qed

definition digest_done :: world where
  "digest_done = snd (emit_digests (\<lambda>_. 0) 1 100 digest_world)"

lemma digest_world_run: "\<exists>n. emit_digests (\<lambda>_. 0) 1 100 digest_world = (Inr n, digest_done)"
proof -
  have nul: "\<not> contains_null_byte (JObj (build_digest_payload ''agt_1'' [low_event 1, low_event 2] 10 100))"
    by code_simp
  have agents: "ag_id ` set (agents digest_world) = {''agt_1''}"
    by (simp add: digest_world_def emit_two_def emit_event_def Let_def empty_world_def has_nul_def)
  have none: "find (\<lambda>x. ev_event_type x = ''message.digest'' \<and> ev_idempotency_key x = k) (events digest_world) = None" for k
    by (simp add: digest_world_def low_event_def)
  have key: "\<not> has_nul (digest_key ''agt_1'' 2)" "\<not> has_nul ''message.digest''" by code_simp+
  have "ev_id (low_event 2) = 2" "ev_emitted_at (low_event 1) = 10" by (simp_all add: low_event_def)
  then show ?thesis
    unfolding digest_done_def emit_digests_def digest_world_groups
    by (simp add: emit_digest_def emit_event_def Let_def nul [simplified] agents none key)
qed

theorem digest_exactly_once_witness:
  "(\<exists>d es start. filter (\<lambda>x. 3 \<le> ev_id x \<and> ev_recipient_agent_id x = ''agt_1'') (events digest_done) = [d]
      \<and> ev_event_type d = ''message.digest''
      \<and> ev_payload d = JObj (build_digest_payload ''agt_1'' es start 100) \<and> low_event 1 \<in> set es)
    \<and> emit_digests (\<lambda>_. 0) 1 200 digest_done = (Inr 0, digest_done)"
proof -
  obtain n where run: "emit_digests (\<lambda>_. 0) 1 100 digest_world = (Inr n, digest_done)" using digest_world_run by blast
  have w: "events digest_world = [low_event 1, low_event 2]" "event_seq digest_world = 3"
    by (simp_all add: digest_world_def)
  have f: "ev_event_type (low_event i) = ''message.delivered''" "ev_recipient_agent_id (low_event i) = ''agt_1''" "ev_id (low_event i) = i" for i
    by (simp_all add: low_event_def)
  show ?thesis
    by (rule digest_exactly_once [OF run, of "low_event 1" 200, unfolded w f])
      (auto simp: w f events_ok_def low_event_undigested)
qed

end
