(* ===== verification/Auth.thy ===== *)
theory Auth
  imports Agents
begin

section \<open>Authentication (\<open>src/app/auth.py\<close>, \<open>src/app/utils/session.py\<close>, \<open>ids.py\<close>, \<open>auth_rate_limit.py\<close>)\<close>

text \<open>
  Who a request acts for: the internal token of an external backend, an API key, or a session
  token, with the caches in Redis. Hashing, encryption and signing are fields of \<open>auth_env\<close>, as are the
  settings; \<open>ae_up n\<close> says whether the \<open>n\<close>-th Redis call of the operation succeeds.
\<close>

datatype jwt_error = ExpiredSignatureError | InvalidTokenError

text \<open>The claims of a session token; \<open>sub\<close> is the id of a user.\<close>

record session_claims =
  cl_sub :: "uuid option"
  cl_email :: string
  cl_type :: "string option"
  cl_iat :: time
  cl_exp :: time

record auth_env =
  ae_ENV :: string
  ae_ALLOW_REGISTER :: bool
  ae_EXTERNAL_AUTH_BACKEND :: bool
  ae_INTERNAL_AUTH_TOKEN :: string
  ae_SESSION_SECRET :: string
  ae_BASE_URL :: string
  ae_mail :: bool \<comment> \<open>mail is configured and accepted\<close>
  ae_sha256 :: "string \<Rightarrow> string"
  ae_encrypt :: "string \<Rightarrow> string \<Rightarrow> string"
  ae_decrypt :: "string \<Rightarrow> string \<Rightarrow> string option"
  ae_jwt_encode :: "string \<Rightarrow> session_claims \<Rightarrow> string"
  ae_jwt_decode :: "string \<Rightarrow> string \<Rightarrow> time \<Rightarrow> jwt_error + session_claims"
  ae_uuid :: "string \<Rightarrow> uuid option"
  ae_up :: "nat \<Rightarrow> bool"

subsection \<open>Identifiers\<close>

definition generate_api_key :: "string \<Rightarrow> string" where
  "generate_api_key token = ''cue_sk_'' @ token"

definition hash_api_key :: "auth_env \<Rightarrow> string \<Rightarrow> string" where
  "hash_api_key env api_key = ae_sha256 env api_key"

definition get_api_key_prefix :: "string \<Rightarrow> string" where
  "get_api_key_prefix api_key = take 12 api_key"

definition generate_webhook_secret :: "string \<Rightarrow> string" where
  "generate_webhook_secret token = ''whsec_'' @ token"

subsection \<open>Session tokens\<close>

definition SESSION_JWT_EXPIRY_HOURS :: int where
  "SESSION_JWT_EXPIRY_HOURS = 24"

definition get_jwt_secret :: "auth_env \<Rightarrow> py_error + string" where
  "get_jwt_secret env = (if ae_SESSION_SECRET env = [] then Inl RuntimeError else Inr (ae_SESSION_SECRET env))"

definition create_session_jwt :: "auth_env \<Rightarrow> uuid \<Rightarrow> string \<Rightarrow> time \<Rightarrow> py_error + string" where
  "create_session_jwt env user_id email now =
     (case get_jwt_secret env of
        Inl err \<Rightarrow> Inl err
      | Inr secret \<Rightarrow> Inr (ae_jwt_encode env secret
          \<lparr>cl_sub = Some user_id, cl_email = email, cl_type = Some ''session'', cl_iat = now,
           cl_exp = now + hours SESSION_JWT_EXPIRY_HOURS\<rparr>))"

text \<open>The secret's absence is a \<open>RuntimeError\<close>, which the caller treats like an invalid token.\<close>

definition decode_session_jwt :: "auth_env \<Rightarrow> string \<Rightarrow> time \<Rightarrow> jwt_error + session_claims" where
  "decode_session_jwt env token now =
     (case get_jwt_secret env of
        Inl err \<Rightarrow> Inl InvalidTokenError
      | Inr secret \<Rightarrow>
          (case ae_jwt_decode env secret token now of
             Inl e \<Rightarrow> Inl e
           | Inr claims \<Rightarrow> if cl_type claims \<noteq> Some ''session'' then Inl InvalidTokenError else Inr claims))"

definition encrypt_api_key :: "auth_env \<Rightarrow> string \<Rightarrow> py_error + string" where
  "encrypt_api_key env plaintext =
     (case get_jwt_secret env of Inl err \<Rightarrow> Inl err | Inr secret \<Rightarrow> Inr (ae_encrypt env secret plaintext))"

definition decrypt_api_key :: "auth_env \<Rightarrow> string \<Rightarrow> py_error + string" where
  "decrypt_api_key env ciphertext =
     (case get_jwt_secret env of
        Inl err \<Rightarrow> Inl err
      | Inr secret \<Rightarrow> (case ae_decrypt env secret ciphertext of None \<Rightarrow> Inl ValueError | Some p \<Rightarrow> Inr p))"

subsection \<open>The current user\<close>

definition to_auth_user :: "user \<Rightarrow> authenticated_user" where
  "to_auth_user u = \<lparr>au_id = usr_id u, au_email = usr_email u, au_plan = usr_plan u, au_active_cue_limit = usr_active_cue_limit u,
     au_monthly_execution_limit = usr_monthly_execution_limit u, au_rate_limit_per_minute = usr_rate_limit_per_minute u\<rparr>"

text \<open>\<open>hmac.compare_digest\<close> of two strings raises on characters outside ASCII.\<close>

definition compare_digest :: "string \<Rightarrow> string \<Rightarrow> py_error + bool" where
  "compare_digest a b = (if list_all (\<lambda>c. code_of c < 128) (a @ b) then Inr (a = b) else Inl TypeError)"

definition auth_via_internal_token :: "auth_env \<Rightarrow> string option \<Rightarrow> world \<Rightarrow> authenticated_user reply" where
  "auth_via_internal_token env on_behalf_of w =
     (if \<not> truthy on_behalf_of then Refused ''internal_token_requires_on_behalf_of'' 400
      else
        (case ae_uuid env (the on_behalf_of) of
           None \<Rightarrow> Refused ''invalid_on_behalf_of'' 400
         | Some user_uuid \<Rightarrow>
             (case get_user_row w user_uuid of
                None \<Rightarrow> Refused ''user_not_found'' 404
              | Some u \<Rightarrow> Reply (to_auth_user u))))"

text \<open>A Redis failure, and a value that is not a stored user, fall back to the database.\<close>

definition cached_user :: "bool \<Rightarrow> redis_key \<Rightarrow> time \<Rightarrow> world \<Rightarrow> authenticated_user option" where
  "cached_user up k now w =
     (if up then (case redis_get (redis w) now k of Some (RUser a) \<Rightarrow> Some a | _ \<Rightarrow> None) else None)"

definition cache_user :: "bool \<Rightarrow> redis_key \<Rightarrow> authenticated_user \<Rightarrow> time \<Rightarrow> world \<Rightarrow> world" where
  "cache_user up k a now w = (if up then w\<lparr>redis := redis_set_ex k (RUser a) 300 now (redis w)\<rparr> else w)"

definition auth_via_api_key :: "auth_env \<Rightarrow> string \<Rightarrow> time \<Rightarrow> world \<Rightarrow> authenticated_user reply \<times> world" where
  "auth_via_api_key env api_key now w =
     (let key_hash = hash_api_key env api_key
      in case cached_user (ae_up env 0) (KAuth key_hash) now w of
           Some a \<Rightarrow> (Reply a, w)
         | None \<Rightarrow>
             (case find (\<lambda>u. usr_api_key_hash u = key_hash) (users w) of
                None \<Rightarrow>
                  (Refused (if ae_up env 1 \<and> redis_get (redis w) now (KRotated key_hash) \<noteq> None
                            then ''key_rotated'' else ''invalid_api_key'') 401, w)
              | Some u \<Rightarrow> (Reply (to_auth_user u), cache_user (ae_up env 1) (KAuth key_hash) (to_auth_user u) now w)))"

definition auth_via_session_jwt :: "auth_env \<Rightarrow> string \<Rightarrow> time \<Rightarrow> world \<Rightarrow> authenticated_user reply \<times> world" where
  "auth_via_session_jwt env token now w =
     (case decode_session_jwt env token now of
        Inl ExpiredSignatureError \<Rightarrow> (Refused ''session_expired'' 401, w)
      | Inl InvalidTokenError \<Rightarrow> (Refused ''invalid_session'' 401, w)
      | Inr claims \<Rightarrow>
          (case cl_sub claims of
             None \<Rightarrow> (Raised KeyError, w)
           | Some user_id \<Rightarrow>
               (case cached_user (ae_up env 0) (KSession user_id) now w of
                  Some a \<Rightarrow> (Reply a, w)
                | None \<Rightarrow>
                    (case get_user_row w user_id of
                       None \<Rightarrow> (Refused ''user_not_found'' 401, w)
                     | Some u \<Rightarrow> (Reply (to_auth_user u), cache_user (ae_up env 1) (KSession user_id) (to_auth_user u) now w)))))"

definition bearer_token :: "string \<Rightarrow> string" where
  "bearer_token auth_header = strip (drop 7 auth_header)"

definition get_current_user ::
  "auth_env \<Rightarrow> string option \<Rightarrow> string option \<Rightarrow> time \<Rightarrow> world \<Rightarrow> authenticated_user reply \<times> world" where
  "get_current_user env auth_header on_behalf_of now w =
     (case auth_header of
        None \<Rightarrow> (Refused ''invalid_api_key'' 401, w)
      | Some h \<Rightarrow>
          if \<not> starts_with ''Bearer '' h then (Refused ''invalid_api_key'' 401, w)
          else
            (let token = bearer_token h
             in case (if ae_EXTERNAL_AUTH_BACKEND env \<and> ae_INTERNAL_AUTH_TOKEN env \<noteq> []
                      then compare_digest token (ae_INTERNAL_AUTH_TOKEN env) else Inr False) of
                  Inl err \<Rightarrow> (Raised err, w)
                | Inr True \<Rightarrow> (auth_via_internal_token env on_behalf_of w, w)
                | Inr False \<Rightarrow>
                    if starts_with ''cue_sk_'' token then auth_via_api_key env token now w
                    else auth_via_session_jwt env token now w))"

subsection \<open>The rate limit of the sign-in endpoints\<close>

definition check_auth_rate_limit ::
  "bool \<Rightarrow> bool \<Rightarrow> redis_key \<Rightarrow> int \<Rightarrow> int \<Rightarrow> time \<Rightarrow> world \<Rightarrow> (py_error + bool) \<times> world" where
  "check_auth_rate_limit up_incr up_expire key limit window now w =
     (if \<not> up_incr then (Inl RedisError, w)
      else
        (case redis_incr key now (redis w) of
           Inl err \<Rightarrow> (Inl err, w)
         | Inr (count, r) \<Rightarrow>
             if count = 1 then
               (if up_expire then (Inr (count \<le> limit), w\<lparr>redis := redis_expire key window now r\<rparr>)
                else (Inl RedisError, w\<lparr>redis := r\<rparr>))
             else (Inr (count \<le> limit), w\<lparr>redis := r\<rparr>)))"

end
