(* ===== verification/Accounts.thy ===== *)
theory Accounts
  imports Auth
begin

section \<open>Accounts (\<open>src/app/routers/auth_routes.py\<close>, \<open>webhook_secret.py\<close>, \<open>internal_users.py\<close>, \<open>src/app/utils/slug.py\<close>)\<close>

text \<open>
  The rows of the users table: registration, the mirror an external identity system keeps, key
  rotation, profile and secrets. Random text and the id of a new row are arguments.
\<close>

record fresh =
  fr_id :: uuid
  fr_key :: string
  fr_secret :: string
  fr_token :: string
  fr_hex :: "nat \<Rightarrow> string"

subsection \<open>Rows\<close>

text \<open>Column sizes, and the unique constraints of the table.\<close>

definition int4 :: "int \<Rightarrow> bool" where
  "int4 n \<longleftrightarrow> - (2 ^ 31) \<le> n \<and> n < 2 ^ 31"

definition user_storable :: "user \<Rightarrow> bool" where
  "user_storable u \<longleftrightarrow> length (usr_email u) \<le> 255 \<and> \<not> has_nul (usr_email u) \<and> length (usr_plan u) \<le> 20 \<and> \<not> has_nul (usr_plan u)
     \<and> length (usr_slug u) \<le> 64 \<and> \<not> has_nul (usr_slug u)
     \<and> int4 (usr_active_cue_limit u) \<and> int4 (usr_monthly_execution_limit u) \<and> int4 (usr_monthly_message_limit u)
     \<and> int4 (usr_rate_limit_per_minute u)
     \<and> (case usr_alert_webhook_url u of None \<Rightarrow> True | Some x \<Rightarrow> length x \<le> 2048 \<and> \<not> has_nul x)
     \<and> (case usr_external_owner u of None \<Rightarrow> True | Some x \<Rightarrow> length x \<le> 64 \<and> \<not> has_nul x)"

definition users_unique :: "user list \<Rightarrow> bool" where
  "users_unique us \<longleftrightarrow> distinct (map usr_id us) \<and> distinct (map usr_email us) \<and> distinct (map usr_api_key_hash us)
     \<and> distinct (map usr_slug us)"

definition store_users :: "user \<Rightarrow> user list \<Rightarrow> world \<Rightarrow> py_error + world" where
  "store_users u us w =
     (if \<not> user_storable u then Inl DataError
      else if \<not> users_unique us then Inl IntegrityError
      else Inr (w\<lparr>users := us\<rparr>))"

definition insert_user :: "user \<Rightarrow> world \<Rightarrow> py_error + world" where
  "insert_user u w = store_users u (users w @ [u]) w"

text \<open>UPDATE of one row; without a row it changes nothing.\<close>

definition update_user :: "uuid \<Rightarrow> (user \<Rightarrow> user) \<Rightarrow> world \<Rightarrow> py_error + world" where
  "update_user i f w =
     (case get_user_row w i of
        None \<Rightarrow> Inr w
      | Some u \<Rightarrow> store_users (f u) (update_where (\<lambda>r. usr_id r = i) f (users w)) w)"

definition user_slug_used :: "world \<Rightarrow> string \<Rightarrow> bool" where
  "user_slug_used w s \<longleftrightarrow> list_ex (\<lambda>u. usr_slug u = s) (users w)"

fun free_user_candidate :: "world \<Rightarrow> string \<Rightarrow> string list \<Rightarrow> string option" where
  "free_user_candidate w base [] = None"
| "free_user_candidate w base (h # hs) =
     (let candidate = take 59 base @ ''-'' @ take 4 h
      in if user_slug_used w candidate then free_user_candidate w base hs else Some candidate)"

definition derive_user_slug :: "world \<Rightarrow> string \<Rightarrow> (nat \<Rightarrow> string) \<Rightarrow> string" where
  "derive_user_slug w email hex =
     (let local_part = hd (split_on (CHR ''@'') email);
          base = take 60 (normalize local_part ''user'')
      in if \<not> user_slug_used w base then base
         else (case free_user_candidate w base (map hex [0..<5]) of
                 Some c \<Rightarrow> c
               | None \<Rightarrow> take 55 base @ ''-'' @ take 8 (hex 5)))"

definition new_user :: "auth_env \<Rightarrow> fresh \<Rightarrow> string \<Rightarrow> string \<Rightarrow> string option \<Rightarrow> user" where
  "new_user env fr email slug encrypted =
     \<lparr>usr_id = fr_id fr, usr_email = email, usr_plan = ''free'', usr_active_cue_limit = 10, usr_monthly_execution_limit = 300,
      usr_monthly_message_limit = 300, usr_rate_limit_per_minute = 60, usr_slug = slug,
      usr_api_key_hash = hash_api_key env (generate_api_key (fr_key fr)),
      usr_api_key_prefix = get_api_key_prefix (generate_api_key (fr_key fr)), usr_api_key_encrypted = encrypted,
      usr_webhook_secret = generate_webhook_secret (fr_secret fr), usr_alert_webhook_url = None, usr_alert_webhook_secret = None,
      usr_external_owner = None\<rparr>"

subsection \<open>Registration\<close>

definition register :: "auth_env \<Rightarrow> fresh \<Rightarrow> string \<Rightarrow> world \<Rightarrow> string reply \<times> world" where
  "register env fr email w =
     (if \<not> ae_ALLOW_REGISTER env \<and> ae_ENV env \<noteq> ''development'' then (Refused ''not_found'' 404, w)
      else if find (\<lambda>u. usr_email u = email) (users w) \<noteq> None then (Refused ''duplicate_email'' 409, w)
      else
        (case insert_user (new_user env fr email (derive_user_slug w email (fr_hex fr)) None) w of
           Inl err \<Rightarrow> (Raised err, w)
         | Inr w' \<Rightarrow> (Reply (generate_api_key (fr_key fr)), w')))"

record user_upsert =
  uu_email :: string
  uu_slug :: string
  uu_plan :: "string option"
  uu_active_cue_limit :: "int option"
  uu_monthly_execution_limit :: "int option"
  uu_monthly_message_limit :: "int option"
  uu_rate_limit_per_minute :: "int option"
  uu_external_owner :: "string option"

text \<open>What the request model accepts.\<close>

definition user_upsert_ok :: "user_upsert \<Rightarrow> bool" where
  "user_upsert_ok b \<longleftrightarrow>
     1 \<le> length (uu_slug b) \<and> length (uu_slug b) \<le> 64 \<and> list_all (\<lambda>c. slug_char c \<or> c = CHR ''-'') (uu_slug b)
     \<and> slug_char (hd (uu_slug b)) \<and> slug_char (last (uu_slug b))
     \<and> (case uu_plan b of None \<Rightarrow> True | Some p \<Rightarrow> length p \<le> 20)
     \<and> (\<forall>x \<in> {uu_active_cue_limit b, uu_monthly_execution_limit b, uu_monthly_message_limit b, uu_rate_limit_per_minute b}.
          case x of None \<Rightarrow> True | Some n \<Rightarrow> 0 \<le> n)
     \<and> (case uu_external_owner b of None \<Rightarrow> True | Some x \<Rightarrow> length x \<le> 64)"

definition require_internal_token :: "auth_env \<Rightarrow> string option \<Rightarrow> unit reply" where
  "require_internal_token env auth_header =
     (let h = (case auth_header of None \<Rightarrow> [] | Some x \<Rightarrow> x)
      in if \<not> starts_with ''Bearer '' h then Refused ''invalid_internal_token'' 401
         else if ae_INTERNAL_AUTH_TOKEN env = [] then Refused ''invalid_internal_token'' 401
         else (case compare_digest (bearer_token h) (ae_INTERNAL_AUTH_TOKEN env) of
                 Inl err \<Rightarrow> Raised err
               | Inr True \<Rightarrow> Reply ()
               | Inr False \<Rightarrow> Refused ''invalid_internal_token'' 401))"

definition given :: "'a option \<Rightarrow> 'a \<Rightarrow> 'a" where
  "given x d = (case x of None \<Rightarrow> d | Some v \<Rightarrow> v)"

definition upserted_row :: "user_upsert \<Rightarrow> user \<Rightarrow> user" where
  "upserted_row b u = u\<lparr>usr_email := uu_email b, usr_slug := uu_slug b, usr_plan := given (uu_plan b) (usr_plan u),
     usr_active_cue_limit := given (uu_active_cue_limit b) (usr_active_cue_limit u),
     usr_monthly_execution_limit := given (uu_monthly_execution_limit b) (usr_monthly_execution_limit u),
     usr_monthly_message_limit := given (uu_monthly_message_limit b) (usr_monthly_message_limit u),
     usr_rate_limit_per_minute := given (uu_rate_limit_per_minute b) (usr_rate_limit_per_minute u),
     usr_external_owner := (case uu_external_owner b of None \<Rightarrow> usr_external_owner u | Some x \<Rightarrow> Some x)\<rparr>"

definition upsert_user ::
  "auth_env \<Rightarrow> fresh \<Rightarrow> string option \<Rightarrow> string \<Rightarrow> user_upsert \<Rightarrow> world \<Rightarrow> (user \<times> bool) reply \<times> world" where
  "upsert_user env fr auth_header user_id b w =
     (case require_internal_token env auth_header of
        Refused c s \<Rightarrow> (Refused c s, w)
      | Raised err \<Rightarrow> (Raised err, w)
      | Reply _ \<Rightarrow>
          (case ae_uuid env user_id of
             None \<Rightarrow> (Refused ''invalid_user_id'' 400, w)
           | Some target \<Rightarrow>
               (case get_user_row w target of
                  None \<Rightarrow>
                    (let u = (new_user env (fr\<lparr>fr_id := target\<rparr>) (uu_email b) (uu_slug b) None)
                           \<lparr>usr_plan := (if truthy (uu_plan b) then the (uu_plan b) else ''free''),
                            usr_active_cue_limit := given (uu_active_cue_limit b) 10,
                            usr_monthly_execution_limit := given (uu_monthly_execution_limit b) 300,
                            usr_monthly_message_limit := given (uu_monthly_message_limit b) 300,
                            usr_rate_limit_per_minute := given (uu_rate_limit_per_minute b) 60,
                            usr_external_owner := uu_external_owner b\<rparr>
                     in case insert_user u w of
                          Inl err \<Rightarrow> (Raised err, w)
                        | Inr w' \<Rightarrow> (Reply (u, True), w'))
                | Some u \<Rightarrow>
                    (case update_user target (upserted_row b) w of
                       Inl err \<Rightarrow> (Raised err, w)
                     | Inr w' \<Rightarrow> (Reply (upserted_row b u, False), w')))))"

subsection \<open>The key\<close>

definition mail_secret_changed :: "auth_env \<Rightarrow> string \<Rightarrow> world \<Rightarrow> world" where
  "mail_secret_changed env email w =
     (if ae_ENV env = ''development'' \<or> \<not> ae_mail env then w else w\<lparr>sent := sent w @ [SecretChangedEmail email]\<rparr>)"

definition rotated_row :: "auth_env \<Rightarrow> string \<Rightarrow> user \<Rightarrow> user" where
  "rotated_row env new_key u =
     (let u1 = u\<lparr>usr_api_key_hash := hash_api_key env new_key, usr_api_key_prefix := get_api_key_prefix new_key\<rparr>
      in case encrypt_api_key env new_key of
           Inr (c # cs) \<Rightarrow> u1\<lparr>usr_api_key_encrypted := Some (c # cs)\<rparr>
         | _ \<Rightarrow> u1)"

text \<open>The Redis calls after the commit: DEL and SET for the old key, SET for the new one.\<close>

definition rotate_caches :: "auth_env \<Rightarrow> string option \<Rightarrow> string \<Rightarrow> authenticated_user \<Rightarrow> time \<Rightarrow> world \<Rightarrow> (py_error + unit) \<times> world" where
  "rotate_caches env old_hash new_hash a now w =
     (let w1 = (case old_hash of
                  Some h \<Rightarrow> if ae_up env 0 then w\<lparr>redis := (redis w)(KAuth h := None)\<rparr> else w
                | None \<Rightarrow> w);
          w2 = (case old_hash of
                  Some h \<Rightarrow> w1\<lparr>redis := redis_set_ex (KRotated h) (RStr ''1'') 86400 now (redis w1)\<rparr>
                | None \<Rightarrow> w1)
      in if old_hash \<noteq> None \<and> \<not> ae_up env 0 then (Inl RedisError, w)
         else if old_hash \<noteq> None \<and> \<not> ae_up env 1 then (Inl RedisError, w1)
         else if \<not> ae_up env 2 then (Inl RedisError, w2)
         else (Inr (), cache_user True (KAuth new_hash) a now w2))"

definition regenerate_key :: "auth_env \<Rightarrow> fresh \<Rightarrow> bool \<Rightarrow> authenticated_user \<Rightarrow> time \<Rightarrow> world \<Rightarrow> string reply \<times> world" where
  "regenerate_key env fr confirmed a now w =
     (if \<not> confirmed then (Refused ''confirmation_required'' 400, w)
      else
        (let old_hash = map_option usr_api_key_hash (get_user_row w (au_id a));
             new_key = generate_api_key (fr_key fr)
         in case update_user (au_id a) (rotated_row env new_key) w of
              Inl err \<Rightarrow> (Raised err, w)
            | Inr w1 \<Rightarrow>
                (case rotate_caches env (case old_hash of Some (c # cs) \<Rightarrow> Some (c # cs) | _ \<Rightarrow> None)
                        (hash_api_key env new_key) a now w1 of
                   (Inl err, w2) \<Rightarrow> (Raised err, w2)
                 | (Inr _, w2) \<Rightarrow> (Reply new_key, mail_secret_changed env (au_email a) w2))))"

definition reveal_key :: "auth_env \<Rightarrow> authenticated_user \<Rightarrow> world \<Rightarrow> string option" where
  "reveal_key env a w =
     (case get_user_row w (au_id a) of
        None \<Rightarrow> None
      | Some u \<Rightarrow>
          if \<not> truthy (usr_api_key_encrypted u) then None
          else (case decrypt_api_key env (the (usr_api_key_encrypted u)) of Inl _ \<Rightarrow> None | Inr key \<Rightarrow> Some key))"

subsection \<open>Profile and secrets\<close>

record me_response =
  me_email :: string
  me_plan :: string
  me_active_cues :: nat
  me_active_cue_limit :: int
  me_executions_this_month :: int
  me_monthly_execution_limit :: int
  me_rate_limit_per_minute :: int
  me_has_webhook_secret :: bool
  me_api_key_prefix :: string
  me_slug :: "string option"

definition get_me :: "auth_env \<Rightarrow> authenticated_user \<Rightarrow> time \<Rightarrow> world \<Rightarrow> me_response \<times> world" where
  "get_me env a now w =
     (let (n, w1) = get_monthly_usage (ae_up env 0) False (au_id a) now w;
          row = get_user_row w (au_id a)
      in (\<lparr>me_email = au_email a, me_plan = au_plan a,
           me_active_cues = length (filter (\<lambda>c. cue_user_id c = au_id a \<and> cue_status c = CueActive) (cues w)),
           me_active_cue_limit = au_active_cue_limit a, me_executions_this_month = n,
           me_monthly_execution_limit = au_monthly_execution_limit a, me_rate_limit_per_minute = au_rate_limit_per_minute a,
           me_has_webhook_secret = (case row of None \<Rightarrow> False | Some u \<Rightarrow> usr_webhook_secret u \<noteq> []),
           me_api_key_prefix = (case row of None \<Rightarrow> [] | Some u \<Rightarrow> usr_api_key_prefix u),
           me_slug = map_option usr_slug row\<rparr>, w1))"

definition patched_row :: "string option \<Rightarrow> string option \<Rightarrow> user \<Rightarrow> user" where
  "patched_row email alert_url u =
     u\<lparr>usr_email := given email (usr_email u),
       usr_alert_webhook_url := (case alert_url of None \<Rightarrow> usr_alert_webhook_url u | Some [] \<Rightarrow> None | Some x \<Rightarrow> Some x)\<rparr>"

definition patch_me ::
  "auth_env \<Rightarrow> site \<Rightarrow> string option \<Rightarrow> string option \<Rightarrow> authenticated_user \<Rightarrow> time \<Rightarrow> world \<Rightarrow> time reply \<times> world" where
  "patch_me env s email alert_url a now w =
     (if truthy alert_url \<and> \<not> fst (validate_callback_url (st_parse s) (st_resolve s) (the alert_url) (ae_ENV env))
        then (Refused ''invalid_alert_webhook_url'' 400, w)
      else if email = None \<and> alert_url = None then (Refused ''no_fields'' 422, w)
      else
        (case update_user (au_id a) (patched_row email alert_url) w of
           Inl err \<Rightarrow> (Raised err, w)
         | Inr w' \<Rightarrow> (Reply now, w')))"

definition get_alert_webhook_secret :: "fresh \<Rightarrow> authenticated_user \<Rightarrow> world \<Rightarrow> string reply \<times> world" where
  "get_alert_webhook_secret fr a w =
     (case Option.bind (get_user_row w (au_id a)) usr_alert_webhook_secret of
        Some (c # cs) \<Rightarrow> (Reply (c # cs), w)
      | _ \<Rightarrow>
          (case update_user (au_id a) (\<lambda>u. u\<lparr>usr_alert_webhook_secret := Some (fr_token fr)\<rparr>) w of
             Inl err \<Rightarrow> (Raised err, w)
           | Inr w' \<Rightarrow> (Reply (fr_token fr), w')))"

definition regenerate_alert_webhook_secret :: "fresh \<Rightarrow> bool \<Rightarrow> authenticated_user \<Rightarrow> world \<Rightarrow> string reply \<times> world" where
  "regenerate_alert_webhook_secret fr confirmed a w =
     (if \<not> confirmed then (Refused ''confirmation_required'' 400, w)
      else
        (case update_user (au_id a) (\<lambda>u. u\<lparr>usr_alert_webhook_secret := Some (fr_token fr)\<rparr>) w of
           Inl err \<Rightarrow> (Raised err, w)
         | Inr w' \<Rightarrow> (Reply (fr_token fr), w')))"

definition get_webhook_secret :: "authenticated_user \<Rightarrow> world \<Rightarrow> string reply" where
  "get_webhook_secret a w =
     (case get_user_row w (au_id a) of
        Some u \<Rightarrow> if usr_webhook_secret u = [] then Refused ''no_webhook_secret'' 404 else Reply (usr_webhook_secret u)
      | None \<Rightarrow> Refused ''no_webhook_secret'' 404)"

definition regenerate_webhook_secret :: "auth_env \<Rightarrow> fresh \<Rightarrow> bool \<Rightarrow> authenticated_user \<Rightarrow> world \<Rightarrow> string reply \<times> world" where
  "regenerate_webhook_secret env fr confirmed a w =
     (if \<not> confirmed then (Refused ''confirmation_required'' 400, w)
      else
        (let new_secret = generate_webhook_secret (fr_secret fr)
         in case update_user (au_id a) (\<lambda>u. u\<lparr>usr_webhook_secret := new_secret\<rparr>) w of
              Inl err \<Rightarrow> (Raised err, w)
            | Inr w' \<Rightarrow> (Reply new_secret, mail_secret_changed env (au_email a) w')))"

definition refresh_session :: "auth_env \<Rightarrow> authenticated_user \<Rightarrow> time \<Rightarrow> (string \<times> string) reply" where
  "refresh_session env a now =
     (case create_session_jwt env (au_id a) (au_email a) now of
        Inl err \<Rightarrow> Refused ''session_unavailable'' 503
      | Inr token \<Rightarrow> Reply (token, au_email a))"

end
