(* ===== verification/DeviceCodes.thy ===== *)
theory DeviceCodes
  imports Accounts
begin

section \<open>Signing in with a device code (\<open>src/app/services/device_code_service.py\<close>, \<open>src/app/routers/device_code.py\<close>)\<close>

text \<open>
  The sign-in of a device: it creates a code, the user enters an e-mail address on the page of the
  code, follows the link in the mail, and the device collects the key by polling. The theory has the
  operations, their endpoints with the rate limits, the exchange of the one-time token for a session
  and the hourly clean-up.
\<close>

definition DEVICE_CODE_EXPIRY_SECONDS :: int where
  "DEVICE_CODE_EXPIRY_SECONDS = 900"

definition find_device :: "world \<Rightarrow> string \<Rightarrow> device_code option" where
  "find_device w code = find (\<lambda>d. dev_device_code d = code) (device_codes w)"

definition update_device :: "uuid \<Rightarrow> (device_code \<Rightarrow> device_code) \<Rightarrow> world \<Rightarrow> world" where
  "update_device i f w = w\<lparr>device_codes := update_where (\<lambda>d. dev_id d = i) f (device_codes w)\<rparr>"

subsection \<open>The operations\<close>

definition fresh_device :: "uuid \<Rightarrow> string \<Rightarrow> time \<Rightarrow> device_code" where
  "fresh_device i code now = \<lparr>dev_id = i, dev_device_code = code, dev_email = None, dev_status = DevPending,
     dev_api_key_plaintext = None, dev_verification_token = None, dev_session_token = None, dev_user_id = None,
     dev_expires_at = now + seconds DEVICE_CODE_EXPIRY_SECONDS, dev_created_at = now\<rparr>"

definition create_device_code :: "uuid \<Rightarrow> string \<Rightarrow> time \<Rightarrow> world \<Rightarrow> int reply \<times> world" where
  "create_device_code i code now w =
     (case find_device w code of
        Some d \<Rightarrow>
          if now < dev_expires_at d \<and> dev_status d \<notin> {DevExpired, DevClaimed} then (Refused ''device_code_exists'' 409, w)
          else if has_nul code then (Raised DataError, w)
          else
            (let rest = filter (\<lambda>x. dev_id x \<noteq> dev_id d) (device_codes w)
             in if i \<in> dev_id ` set rest \<or> code \<in> dev_device_code ` set rest then (Refused ''device_code_exists'' 409, w)
                else (Reply DEVICE_CODE_EXPIRY_SECONDS, w\<lparr>device_codes := rest @ [fresh_device i code now]\<rparr>))
      | None \<Rightarrow>
          if has_nul code then (Raised DataError, w)
          else if i \<in> dev_id ` set (device_codes w) then (Refused ''device_code_exists'' 409, w)
          else (Reply DEVICE_CODE_EXPIRY_SECONDS, w\<lparr>device_codes := device_codes w @ [fresh_device i code now]\<rparr>))"

text \<open>An approval carries the key of a new user, or that of an existing one when it can be decrypted.\<close>

datatype poll_answer =
    Polled device_state
  | Approval "string option" "string option" "string option" bool
      \<comment> \<open>key, e-mail, session token, existing user\<close>

definition existing_key :: "auth_env \<Rightarrow> device_code \<Rightarrow> world \<Rightarrow> string option" where
  "existing_key env d w =
     (case Option.bind (dev_user_id d) (get_user_row w) of
        None \<Rightarrow> None
      | Some u \<Rightarrow>
          if \<not> truthy (usr_api_key_encrypted u) then None
          else (case decrypt_api_key env (the (usr_api_key_encrypted u)) of Inl _ \<Rightarrow> None | Inr key \<Rightarrow> Some key))"

definition poll_device_code :: "auth_env \<Rightarrow> string \<Rightarrow> time \<Rightarrow> world \<Rightarrow> poll_answer \<times> world" where
  "poll_device_code env code now w =
     (case find_device w code of
        None \<Rightarrow> (Polled DevExpired, w)
      | Some d \<Rightarrow>
          if dev_expires_at d < now then
            (Polled DevExpired,
             if dev_status d \<notin> {DevExpired, DevClaimed, DevApproved}
             then update_device (dev_id d) (\<lambda>x. x\<lparr>dev_status := DevExpired\<rparr>) w else w)
          else if dev_status d = DevApproved then
            (let token = (if truthy (dev_session_token d) then dev_session_token d else None)
             in if truthy (dev_api_key_plaintext d) then
                  (Approval (dev_api_key_plaintext d) (dev_email d) token False,
                   update_device (dev_id d) (\<lambda>x. x\<lparr>dev_status := DevClaimed, dev_api_key_plaintext := None\<rparr>) w)
                else
                  (Approval (existing_key env d w) (dev_email d) token (existing_key env d w = None),
                   update_device (dev_id d) (\<lambda>x. x\<lparr>dev_status := DevClaimed\<rparr>) w))
          else (Polled (dev_status d), w))"

definition email_row :: "string \<Rightarrow> string \<Rightarrow> device_code \<Rightarrow> device_code" where
  "email_row email token d = d\<lparr>dev_email := Some email, dev_verification_token := Some token, dev_status := DevEmailSent\<rparr>"

definition submit_email :: "auth_env \<Rightarrow> fresh \<Rightarrow> string \<Rightarrow> string \<Rightarrow> time \<Rightarrow> world \<Rightarrow> unit reply \<times> world" where
  "submit_email env fr code email now w =
     (case find_device w code of
        None \<Rightarrow> (Refused ''device_code_not_found'' 404, w)
      | Some d \<Rightarrow>
          if dev_expires_at d < now then (Refused ''device_code_expired'' 400, w)
          else if dev_status d \<noteq> DevPending then (Refused ''invalid_status'' 400, w)
          else if 255 < length email \<or> has_nul email then (Raised DataError, w)
          else
            (let w1 = update_device (dev_id d) (email_row email (fr_token fr)) w
             in (Reply (),
                 if ae_ENV env = ''development'' \<or> \<not> ae_mail env then w1
                 else w1\<lparr>sent := sent w1 @ [MagicLinkEmail email (fr_token fr) code]\<rparr>)))"

definition approved_row :: "string option \<Rightarrow> string \<Rightarrow> uuid \<Rightarrow> device_code \<Rightarrow> device_code" where
  "approved_row key token i d = d\<lparr>dev_api_key_plaintext := key, dev_status := DevApproved, dev_verification_token := None,
     dev_session_token := Some token, dev_user_id := Some i\<rparr>"

text \<open>The answer: whether the user existed, the address, the key of a new user, the one-time token.\<close>

definition verify_token ::
  "auth_env \<Rightarrow> fresh \<Rightarrow> string \<Rightarrow> string \<Rightarrow> string \<Rightarrow> time \<Rightarrow> world \<Rightarrow> (bool \<times> string option \<times> string option \<times> string) reply \<times> world" where
  "verify_token env fr one_time token code now w =
     (case find_device w code of
        None \<Rightarrow> (Refused ''Device code not found'' 400, w)
      | Some d \<Rightarrow>
          if dev_expires_at d < now then (Refused ''Device code expired'' 400, w)
          else if dev_status d \<noteq> DevEmailSent then (Refused ''Invalid device code status'' 400, w)
          else if dev_verification_token d \<noteq> Some token then (Refused ''Invalid verification token'' 400, w)
          else
            (case dev_email d of
               None \<Rightarrow> (Raised AttributeError, w)
             | Some email \<Rightarrow>
                 (case find (\<lambda>u. usr_email u = email) (users w) of
                    Some u \<Rightarrow>
                      (Reply (True, Some email, None, one_time), update_device (dev_id d) (approved_row None one_time (usr_id u)) w)
                  | None \<Rightarrow>
                      (let new_api_key = generate_api_key (fr_key fr);
                           encrypted = (case encrypt_api_key env new_api_key of Inl _ \<Rightarrow> None | Inr c \<Rightarrow> Some c)
                       in case insert_user (new_user env fr email (derive_user_slug w email (fr_hex fr)) encrypted) w of
                            Inl err \<Rightarrow> (Raised err, w)
                          | Inr w1 \<Rightarrow>
                              (Reply (False, Some email, Some new_api_key, one_time),
                               update_device (dev_id d) (approved_row (Some new_api_key) one_time (fr_id fr)) w1)))))"

definition cleanup_device_codes :: "time \<Rightarrow> world \<Rightarrow> nat \<times> world" where
  "cleanup_device_codes now w =
     (let kept = filter (\<lambda>d. \<not> dev_expires_at d < now - hours 24) (device_codes w)
      in (length (device_codes w) - length kept, w\<lparr>device_codes := kept\<rparr>))"

text \<open>The exchange of the one-time token: the token is spent before the session token is signed.\<close>

definition create_session :: "auth_env \<Rightarrow> string \<Rightarrow> time \<Rightarrow> world \<Rightarrow> (string \<times> string) reply \<times> world" where
  "create_session env token now w =
     (case filter (\<lambda>d. dev_session_token d = Some token \<and> dev_status d \<in> {DevApproved, DevClaimed}) (device_codes w) of
        _ # _ # _ \<Rightarrow> (Raised MultipleResultsFound, w)
      | [] \<Rightarrow> (Refused ''invalid_token'' 401, w)
      | [d] \<Rightarrow>
          (case dev_user_id d of
             None \<Rightarrow> (Refused ''invalid_token'' 401, w)
           | Some i \<Rightarrow>
               (case get_user_row w i of
                  None \<Rightarrow> (Refused ''user_not_found'' 401, w)
                | Some u \<Rightarrow>
                    (let w1 = update_device (dev_id d) (\<lambda>x. x\<lparr>dev_session_token := None\<rparr>) w
                     in case create_session_jwt env (usr_id u) (usr_email u) now of
                          Inl err \<Rightarrow> (Raised err, w1)
                        | Inr jwt \<Rightarrow> (Reply (jwt, usr_email u), w1)))))"

subsection \<open>The endpoints\<close>

definition limited ::
  "auth_env \<Rightarrow> nat \<Rightarrow> redis_key \<Rightarrow> int \<Rightarrow> int \<Rightarrow> time \<Rightarrow> (world \<Rightarrow> 'a reply \<times> world) \<Rightarrow> world \<Rightarrow> 'a reply \<times> world" where
  "limited env call key limit window now handler w =
     (case check_auth_rate_limit (ae_up env call) (ae_up env (call + 1)) key limit window now w of
        (Inl err, w1) \<Rightarrow> (Raised err, w1)
      | (Inr False, w1) \<Rightarrow> (Refused ''rate_limit_exceeded'' 429, w1)
      | (Inr True, w1) \<Rightarrow> handler w1)"

definition create_device_code_endpoint :: "auth_env \<Rightarrow> string \<Rightarrow> uuid \<Rightarrow> string \<Rightarrow> time \<Rightarrow> world \<Rightarrow> int reply \<times> world" where
  "create_device_code_endpoint env client_ip i code now w =
     (if length code < 6 \<or> 128 < length code then (Refused ''invalid_device_code'' 400, w)
      else limited env 0 (KAuthLimit ''auth_dc'' client_ip) 5 3600 now (create_device_code i code now) w)"

definition poll_device_code_endpoint :: "auth_env \<Rightarrow> string \<Rightarrow> time \<Rightarrow> world \<Rightarrow> poll_answer reply \<times> world" where
  "poll_device_code_endpoint env code now =
     limited env 0 (KAuthLimit ''auth_poll'' code) 30 60 now
       (\<lambda>w. (Reply (fst (poll_device_code env code now w)), snd (poll_device_code env code now w)))"

definition submit_email_endpoint :: "auth_env \<Rightarrow> string \<Rightarrow> fresh \<Rightarrow> string \<Rightarrow> string \<Rightarrow> time \<Rightarrow> world \<Rightarrow> unit reply \<times> world" where
  "submit_email_endpoint env client_ip fr code email now =
     limited env 0 (KAuthLimit ''auth_ml'' email) 3 3600 now
       (limited env 2 (KAuthLimit ''auth_ml_ip'' client_ip) 10 3600 now (submit_email env fr code email now))"

definition verify_endpoint ::
  "auth_env \<Rightarrow> fresh \<Rightarrow> string \<Rightarrow> string \<Rightarrow> string \<Rightarrow> time \<Rightarrow> world \<Rightarrow> (bool \<times> string option \<times> string option \<times> string) reply \<times> world" where
  "verify_endpoint env fr one_time token code now w = verify_token env fr one_time token code now w"

end
