(* ===== verification/AccountSteps.thy ===== *)
theory AccountSteps
  imports DeviceCodes
begin

section \<open>Runs of the account operations\<close>

text \<open>
  The requests of the account endpoints as one step relation, what they leave alone, the invariants
  of the users and the sign-in attempts, the life of a sign-in attempt, and what an accepted API key
  means.
\<close>

text \<open>An endpoint that needs a user gets the one that \<open>get_current_user\<close> finds in the headers of the request.\<close>

inductive account_step :: "auth_env \<Rightarrow> time \<Rightarrow> world \<Rightarrow> world \<Rightarrow> bool" for env now w where
  login: "account_step env now w (snd (get_current_user env h obo now w))"
| registered: "account_step env now w (snd (register env fr email w))"
| upserted: "user_upsert_ok b \<Longrightarrow> account_step env now w (snd (upsert_user env fr h i b w))"
| key: "get_current_user env h obo now w = (Reply a, w1) \<Longrightarrow> account_step env now w (snd (regenerate_key env fr c a now w1))"
| me: "get_current_user env h obo now w = (Reply a, w1) \<Longrightarrow> account_step env now w (snd (get_me env a now w1))"
| patched: "get_current_user env h obo now w = (Reply a, w1) \<Longrightarrow> account_step env now w (snd (patch_me env s email url a now w1))"
| alert_secret: "get_current_user env h obo now w = (Reply a, w1) \<Longrightarrow> account_step env now w (snd (get_alert_webhook_secret fr a w1))"
| new_alert_secret: "get_current_user env h obo now w = (Reply a, w1)
    \<Longrightarrow> account_step env now w (snd (regenerate_alert_webhook_secret fr c a w1))"
| new_secret: "get_current_user env h obo now w = (Reply a, w1) \<Longrightarrow> account_step env now w (snd (regenerate_webhook_secret env fr c a w1))"
| session: "account_step env now w (snd (create_session env token now w))"
| device: "account_step env now w (snd (create_device_code_endpoint env ip i code now w))"
| poll: "account_step env now w (snd (poll_device_code_endpoint env code now w))"
| email: "account_step env now w (snd (submit_email_endpoint env ip fr code email now w))"
| verify: "account_step env now w (snd (verify_endpoint env fr one_time token code now w))"
| cleanup: "account_step env now w (snd (cleanup_device_codes now w))"

subsection \<open>What the account operations may do to the rest of the world\<close>

lemma row_updates_keep:
  "usr_id (upserted_row b u) = usr_id u" "usr_api_key_hash (upserted_row b u) = usr_api_key_hash u"
  "usr_id (patched_row e x u) = usr_id u" "usr_api_key_hash (patched_row e x u) = usr_api_key_hash u"
  "usr_id (rotated_row env k u) = usr_id u" "usr_api_key_hash (rotated_row env k u) = hash_api_key env k"
  by (simp_all add: upserted_row_def patched_row_def rotated_row_def Let_def split: sum.split list.split)

text \<open>
  A preorder that allows inserting a user, updates of a row that keep its id and the hash of its key,
  the rotation of a key, and any change of Redis and of what was sent, relates the ends of the
  operations on users; one that allows any change of the sign-in attempts as well, of all.
\<close>

locale profile_side = world_preorder R for R :: "world \<Rightarrow> world \<Rightarrow> bool" +
  assumes on_insert: "insert_user x v = Inr v' \<Longrightarrow> R v v'"
    and on_update: "update_user i f v = Inr v' \<Longrightarrow> (\<And>x. usr_id (f x) = usr_id x) \<Longrightarrow>
      (\<And>x. usr_api_key_hash (f x) = usr_api_key_hash x) \<Longrightarrow> R v v'"
    and on_rotation: "update_user i (rotated_row env k) v = Inr v' \<Longrightarrow> R v v'"
    and on_redis: "R w (redis_update g w)"
    and on_sent: "R w (sent_update h w)"
begin

lemma after: "R w v \<Longrightarrow> R w (redis_update g v)" "R w v \<Longrightarrow> R w (sent_update h v)"
  by (blast intro: chain on_redis on_sent)+

lemma row_frame:
  "update_user i (upserted_row b) v = Inr v' \<Longrightarrow> R v v'" "update_user i (patched_row e x) v = Inr v' \<Longrightarrow> R v v'"
  "update_user i (\<lambda>u. u\<lparr>usr_alert_webhook_secret := y\<rparr>) v = Inr v' \<Longrightarrow> R v v'"
  "update_user i (\<lambda>u. u\<lparr>usr_webhook_secret := z\<rparr>) v = Inr v' \<Longrightarrow> R v v'"
  by (auto intro: on_update simp: row_updates_keep)

lemma api_key_frame: "R w (snd (auth_via_api_key env k now w))"
  by (auto simp: auth_via_api_key_def cache_user_def Let_def intro!: after same split: option.split)

lemma jwt_frame: "R w (snd (auth_via_session_jwt env k now w))"
  by (auto simp: auth_via_session_jwt_def cache_user_def intro!: after same split: option.split sum.split jwt_error.split)

lemma user_frame: "R w (snd (get_current_user env h obo now w))"
  unfolding get_current_user_def Let_def
  by (simp only: if_distrib [of snd] snd_conv same api_key_frame jwt_frame split: option.split sum.split bool.split if_split) blast

lemma authenticated: "get_current_user env h obo now w = (Reply a, w1) \<Longrightarrow> R w1 v \<Longrightarrow> R w v"
  using user_frame [of w env h obo now] chain by fastforce

lemma limited_frame: "(\<And>v. R v (snd (handler v))) \<Longrightarrow> R w (snd (limited env n k l t now handler w))"
  by (auto simp: limited_def check_auth_rate_limit_def intro!: same after intro: chain [OF after(1) [OF same]]
      split: sum.split bool.split prod.split)

lemma rotate_frame: "R w (snd (rotate_caches env h h' a now w))"
  by (auto simp: rotate_caches_def cache_user_def Let_def intro!: after same split: option.split)

lemma profile_frame:
  "R w (snd (register env fr email w))" "R w (snd (upsert_user env fr h i b w))" "R w (snd (get_me env a now w))"
  "R w (snd (patch_me env s email' url a now w))" "R w (snd (get_alert_webhook_secret fr a w))"
  "R w (snd (regenerate_alert_webhook_secret fr c a w))" "R w (snd (regenerate_webhook_secret env fr c a w))"
  by (auto simp: register_def upsert_user_def get_me_def get_monthly_usage_def patch_me_def get_alert_webhook_secret_def
      regenerate_alert_webhook_secret_def regenerate_webhook_secret_def mail_secret_changed_def Let_def split_def
      intro!: same after intro: row_frame on_insert split: sum.split option.split reply.split list.split)

lemma key_frame: "R w (snd (regenerate_key env fr c a now w))"
proof (cases "update_user (au_id a) (rotated_row env (generate_api_key (fr_key fr))) w")
  case (Inr w1)
  have "R w w1" using Inr by (rule on_rotation)
  then have "R w (snd (rotate_caches env h h' a now w1))" for h h' using rotate_frame chain by blast
  then show ?thesis
    by (auto simp: regenerate_key_def Inr mail_secret_changed_def Let_def intro!: same after split: prod.split sum.split) (metis snd_conv)+
qed (simp add: regenerate_key_def same)

end

locale account_frame = profile_side +
  assumes on_devices: "R w (device_codes_update d w)"
begin

lemma device_row_frame: "R w v \<Longrightarrow> R w (update_device i f v)"
  unfolding update_device_def by (rule chain [OF _ on_devices])

lemma device_frame:
  "R w (snd (create_session env token now w))" "R w (snd (create_device_code i code now w))"
  "R w (snd (poll_device_code env code now w))" "R w (snd (submit_email env fr code email now w))"
  "R w (snd (verify_token env fr one_time token code now w))" "R w (snd (cleanup_device_codes now w))"
  by (auto simp: create_session_def create_device_code_def poll_device_code_def submit_email_def verify_token_def
      cleanup_device_codes_def Let_def intro!: same after device_row_frame intro: on_insert on_devices
      split: list.split option.split sum.split)

lemma account_step_frame: "account_step env now w w' \<Longrightarrow> R w w'"
  by (induction rule: account_step.induct)
    (auto simp: create_device_code_endpoint_def poll_device_code_endpoint_def submit_email_endpoint_def verify_endpoint_def
      intro: user_frame profile_frame key_frame device_frame authenticated same intro!: limited_frame)

end

text \<open>The tables of the scheduler and of messaging, the outbox and the queue stay.\<close>

definition keeps_work :: "world \<Rightarrow> world \<Rightarrow> bool" where
  "keeps_work w w' \<longleftrightarrow> w'\<lparr>users := users w, device_codes := device_codes w, redis := redis w, sent := sent w\<rparr> = w"

lemma keeps_work_tables:
  assumes "keeps_work w w'"
  shows "cues w' = cues w" "executions w' = executions w" "outbox w' = outbox w" "workers w' = workers w" "alerts w' = alerts w"
    "messages w' = messages w" "agents w' = agents w" "events w' = events w" "event_seq w' = event_seq w"
    "subscriptions w' = subscriptions w" "usage_monthly w' = usage_monthly w" "usage_messages w' = usage_messages w" "queue w' = queue w"
    "live_sessions w' = live_sessions w"
  by (subst assms [unfolded keeps_work_def, symmetric], simp)+

interpretation work_side: account_frame keeps_work
proof
  fix u v w
  assume "keeps_work u v" and "keeps_work v w"
  moreover have "w\<lparr>users := users u, device_codes := device_codes u, redis := redis u, sent := sent u\<rparr> =
    w\<lparr>users := users v, device_codes := device_codes v, redis := redis v, sent := sent v\<rparr>
      \<lparr>users := users u, device_codes := device_codes u, redis := redis u, sent := sent u\<rparr>" by simp
  ultimately show "keeps_work u w" unfolding keeps_work_def by simp
qed (auto simp: keeps_work_def insert_user_def update_user_def store_users_def split: if_splits option.splits)

interpretation device_side: profile_side "\<lambda>w w'. device_codes w' = device_codes w"
  by unfold_locales (auto simp: insert_user_def update_user_def store_users_def split: if_splits option.splits)

subsection \<open>The invariant of the users and the sign-in attempts\<close>

text \<open>What the columns of a sign-in attempt hold in each of its states.\<close>

definition device_row_ok :: "device_code \<Rightarrow> bool" where
  "device_row_ok d \<longleftrightarrow>
     (case dev_status d of
        DevPending \<Rightarrow> dev_api_key_plaintext d = None \<and> dev_verification_token d = None \<and> dev_session_token d = None
      | DevEmailSent \<Rightarrow> dev_api_key_plaintext d = None \<and> dev_verification_token d \<noteq> None \<and> dev_session_token d = None \<and> dev_email d \<noteq> None
      | DevApproved \<Rightarrow> dev_verification_token d = None \<and> dev_user_id d \<noteq> None \<and> dev_api_key_plaintext d \<noteq> Some []
      | DevClaimed \<Rightarrow> dev_api_key_plaintext d = None \<and> dev_verification_token d = None \<and> dev_user_id d \<noteq> None
      | DevExpired \<Rightarrow> dev_api_key_plaintext d = None \<and> dev_session_token d = None)"

definition devices_ok :: "world \<Rightarrow> bool" where
  "devices_ok w \<longleftrightarrow> distinct (map dev_id (device_codes w)) \<and> distinct (map dev_device_code (device_codes w))
     \<and> (\<forall>d \<in> set (device_codes w). device_row_ok d)"

definition accounts_ok :: "world \<Rightarrow> bool" where
  "accounts_ok w \<longleftrightarrow> users_unique (users w) \<and> devices_ok w"

text \<open>
  How the users table may change: it stays unique, no row disappears, and unless a key is rotated
  every row keeps the hash of its key.
\<close>

definition users_evolve :: "bool \<Rightarrow> world \<Rightarrow> world \<Rightarrow> bool" where
  "users_evolve rotating w w' \<longleftrightarrow> (users_unique (users w) \<longrightarrow> users_unique (users w'))
     \<and> (\<forall>u \<in> set (users w). \<exists>u' \<in> set (users w'). usr_id u' = usr_id u \<and> (rotating \<or> usr_api_key_hash u' = usr_api_key_hash u))"

lemma users_evolve_same: "users w' = users w \<Longrightarrow> users_evolve r w w'"
  by (auto simp: users_evolve_def)

lemma users_evolve_insert: "insert_user u w = Inr w' \<Longrightarrow> users_evolve r w w' \<and> device_codes w' = device_codes w \<and> redis w' = redis w"
  by (auto simp: users_evolve_def insert_user_def store_users_def split: if_splits)

lemma users_evolve_update:
  assumes "update_user i f w = Inr w'" and "\<And>u. usr_id (f u) = usr_id u"
    and "\<And>u. r \<or> usr_api_key_hash (f u) = usr_api_key_hash u"
  shows "users_evolve r w w' \<and> device_codes w' = device_codes w \<and> redis w' = redis w"
proof (cases "get_user_row w i")
  case None
  then show ?thesis using assms(1) by (simp add: update_user_def users_evolve_same)
next
  case (Some u)
  have "\<exists>u' \<in> set (update_where (\<lambda>r. usr_id r = i) f (users w)). usr_id u' = usr_id v \<and> (r \<or> usr_api_key_hash u' = usr_api_key_hash v)"
    if "v \<in> set (users w)" for v
    using that assms(2) [of v] assms(3) [of v] by (cases "usr_id v = i") (auto simp: set_update_where intro!: bexI [of _ "f v"] bexI [of _ v])
  with assms(1) Some show ?thesis by (auto simp: update_user_def store_users_def users_evolve_def split: if_splits)
qed

text \<open>No account operation breaks a unique column of the users table or deletes a user.\<close>

interpretation users_side: account_frame "users_evolve True"
proof
  show "users_evolve True u w" if "users_evolve True u v" "users_evolve True v w" for u v w
    using that unfolding users_evolve_def by (metis (no_types, lifting))
qed (auto simp: users_evolve_same users_evolve_insert intro: users_evolve_update [THEN conjunct1] simp: row_updates_keep)

subsection \<open>The life of a sign-in attempt\<close>

definition device_edge :: "bool \<Rightarrow> device_state \<Rightarrow> device_state \<Rightarrow> bool" where
  "device_edge approving s s' \<longleftrightarrow> s' = s \<or> approving \<and> (s, s') = (DevEmailSent, DevApproved) \<or> (s, s') \<in>
     {(DevPending, DevEmailSent), (DevApproved, DevClaimed), (DevPending, DevExpired), (DevEmailSent, DevExpired)}"

text \<open>
  How one operation may rewrite the row \<open>d\<close>: the status moves along an edge (the one of the approval only
  when the flag is set), the code, the expiry and an
  e-mail address once entered stay, and a key appears only with the approval.
\<close>

definition device_moves :: "bool \<Rightarrow> device_code \<Rightarrow> device_code \<Rightarrow> bool" where
  "device_moves ap d d' \<longleftrightarrow> dev_id d' = dev_id d \<and> dev_device_code d' = dev_device_code d \<and> dev_expires_at d' = dev_expires_at d
     \<and> device_edge ap (dev_status d) (dev_status d') \<and> (dev_status d \<noteq> DevPending \<longrightarrow> dev_email d' = dev_email d)
     \<and> (dev_api_key_plaintext d' \<in> {dev_api_key_plaintext d, None} \<or> dev_status d = DevEmailSent \<and> dev_status d' = DevApproved)"

text \<open>Rows move, are deleted when they are over, and pending ones are appended.\<close>

definition devices_move :: "bool \<Rightarrow> time \<Rightarrow> world \<Rightarrow> world \<Rightarrow> bool" where
  "devices_move ap now w w' \<longleftrightarrow>
     (\<exists>f q news. device_codes w' = map f (filter q (device_codes w)) @ news
        \<and> (\<forall>d \<in> set (device_codes w). q d \<longrightarrow> device_moves ap d (f d))
        \<and> (\<forall>d \<in> set (device_codes w). \<not> q d \<longrightarrow> dev_expires_at d \<le> now \<or> dev_status d \<in> {DevExpired, DevClaimed})
        \<and> (\<forall>d \<in> set news. dev_status d = DevPending))"

lemma device_moves_refl [simp]: "device_moves ap d d"
  by (simp add: device_moves_def device_edge_def)

lemma devices_move_same: "device_codes w' = device_codes w \<Longrightarrow> devices_move ap now w w'"
  unfolding devices_move_def
  by (rule exI [of _ "\<lambda>d. d"], rule exI [of _ "\<lambda>_. True"], rule exI [of _ "[]"]) simp

lemma devices_move_update:
  assumes "device_codes w' = update_where (\<lambda>d. dev_id d = i) f (device_codes w)"
    and "\<And>d. d \<in> set (device_codes w) \<Longrightarrow> dev_id d = i \<Longrightarrow> device_moves ap d (f d)"
  shows "devices_move ap now w w'"
  unfolding devices_move_def
  by (rule exI [of _ "\<lambda>d. if dev_id d = i then f d else d"], rule exI [of _ "\<lambda>_. True"], rule exI [of _ "[]"])
    (use assms in \<open>auto simp: update_where_def\<close>)

lemma devices_ok_one:
  assumes "devices_ok w" and "find_device w code = Some d" and "x \<in> set (device_codes w)" and "dev_id x = dev_id d"
  shows "x = d"
proof -
  have "d \<in> set (device_codes w)" using find_SomeD [OF assms(2) [unfolded find_device_def]] by simp
  then show ?thesis using assms(1,3,4) by (auto simp: devices_ok_def distinct_map dest: inj_onD)
qed

lemma find_device_row: "devices_ok w \<Longrightarrow> find_device w code = Some d \<Longrightarrow> d \<in> set (device_codes w) \<and> device_row_ok d \<and> dev_device_code d = code"
  unfolding find_device_def devices_ok_def by (drule find_SomeD) auto

lemma update_device_codes [simp]:
  "device_codes (update_device i f w) = update_where (\<lambda>d. dev_id d = i) f (device_codes w)" "users (update_device i f w) = users w"
  "redis (update_device i f w) = redis w"
  by (simp_all add: update_device_def)

text \<open>A rewrite of the row that was found.\<close>

lemma update_found_row:
  assumes ok: "devices_ok w" and d: "find_device w code = Some d" and mv: "device_moves ap d (f d)" and row: "device_row_ok (f d)"
    and w': "device_codes w' = update_where (\<lambda>x. dev_id x = dev_id d) f (device_codes w)"
  shows "devices_move ap now w w' \<and> devices_ok w'"
proof -
  have one: "x = d" if "x \<in> set (device_codes w)" "dev_id x = dev_id d" for x
    using devices_ok_one [OF ok d] that by blast
  then have eq: "device_codes w' = update_where (\<lambda>x. dev_id x = dev_id d) (\<lambda>_. f d) (device_codes w)"
    unfolding w' update_where_def by (auto intro!: map_cong)
  have keys: "map dev_id (device_codes w') = map dev_id (device_codes w)"
    "map dev_device_code (device_codes w') = map dev_device_code (device_codes w)"
    unfolding eq update_where_def map_map o_def using one mv by (auto simp: device_moves_def intro!: map_cong)
  have "devices_move ap now w w'" by (rule devices_move_update [OF w']) (use one mv in auto)
  moreover have "\<forall>x \<in> set (device_codes w'). device_row_ok x"
    using ok row by (auto simp: eq set_update_where devices_ok_def)
  ultimately show ?thesis using ok keys by (simp add: devices_ok_def)
qed

lemma append_device:
  assumes "devices_ok w" and "device_codes w' = filter q (device_codes w) @ [fresh_device i code now]"
    and "i \<notin> dev_id ` {d \<in> set (device_codes w). q d}" and "code \<notin> dev_device_code ` {d \<in> set (device_codes w). q d}"
    and "\<And>d. d \<in> set (device_codes w) \<Longrightarrow> \<not> q d \<Longrightarrow> dev_expires_at d \<le> now \<or> dev_status d \<in> {DevExpired, DevClaimed}"
  shows "devices_move ap now w w' \<and> devices_ok w'"
proof -
  have "devices_move ap now w w'"
    unfolding devices_move_def
    by (rule exI [of _ "\<lambda>d. d"], rule exI [of _ q], rule exI [of _ "[fresh_device i code now]"])
      (use assms in \<open>auto simp: fresh_device_def\<close>)
  moreover have "device_row_ok (fresh_device i code now)" by (simp add: device_row_ok_def fresh_device_def)
  ultimately show ?thesis
    using assms(1-4) by (auto simp: devices_ok_def fresh_device_def distinct_map_filter)
qed

lemma create_device_keeps:
  assumes "devices_ok w"
  shows "devices_move ap now w (snd (create_device_code i code now w)) \<and> devices_ok (snd (create_device_code i code now w))"
proof (cases "find_device w code")
  case None
  then have "code \<notin> dev_device_code ` set (device_codes w)" by (auto simp: find_device_def find_None_iff)
  then have new: "devices_move ap now w w' \<and> devices_ok w'"
    if "device_codes w' = device_codes w @ [fresh_device i code now]" "i \<notin> dev_id ` set (device_codes w)" for w'
    using append_device [OF assms, of w' "\<lambda>_. True" i code now] that by simp
  show ?thesis
    unfolding create_device_code_def None option.case if_distrib [of snd] snd_conv
    using assms by (simp add: devices_move_same new)
next
  case (Some d)
  have one: "x = d" if "x \<in> set (device_codes w)" "dev_id x = dev_id d" for x
    using devices_ok_one [OF assms Some] that by blast
  show ?thesis
  proof (cases "snd (create_device_code i code now w) = w")
    case False
    then have over: "\<not> now < dev_expires_at d \<or> dev_status d \<in> {DevExpired, DevClaimed}"
      and rest: "device_codes (snd (create_device_code i code now w))
          = filter (\<lambda>x. dev_id x \<noteq> dev_id d) (device_codes w) @ [fresh_device i code now]"
        "i \<notin> dev_id ` {x \<in> set (device_codes w). dev_id x \<noteq> dev_id d}"
        "code \<notin> dev_device_code ` {x \<in> set (device_codes w). dev_id x \<noteq> dev_id d}"
      using Some by (auto simp: create_device_code_def Let_def split: if_splits)
    show ?thesis by (rule append_device [OF assms rest]) (use over one in fastforce)
  qed (use assms in \<open>simp add: devices_move_same\<close>)
qed

lemma poll_keeps:
  assumes "devices_ok w"
  shows "devices_move ap now w (snd (poll_device_code env code now w)) \<and> devices_ok (snd (poll_device_code env code now w))"
proof (cases "find_device w code")
  case None
  then show ?thesis using assms by (simp add: poll_device_code_def devices_move_same)
next
  case (Some d)
  have row: "device_row_ok d" using find_device_row [OF assms Some] by blast
  have gone: "devices_move ap now w w' \<and> devices_ok w'"
    if "dev_status d \<notin> {DevExpired, DevClaimed, DevApproved}"
      "device_codes w' = update_where (\<lambda>x. dev_id x = dev_id d) (\<lambda>x. x\<lparr>dev_status := DevExpired\<rparr>) (device_codes w)" for w'
    by (rule update_found_row [OF assms Some _ _ that(2)])
      (use that(1) row in \<open>cases "dev_status d"; simp add: device_moves_def device_edge_def device_row_ok_def\<close>)+
  have new: "devices_move ap now w w' \<and> devices_ok w'"
    if "dev_status d = DevApproved"
      "device_codes w' = update_where (\<lambda>x. dev_id x = dev_id d) (\<lambda>x. x\<lparr>dev_status := DevClaimed, dev_api_key_plaintext := None\<rparr>) (device_codes w)" for w'
    by (rule update_found_row [OF assms Some _ _ that(2)])
      (use that(1) row in \<open>auto simp: device_moves_def device_edge_def device_row_ok_def\<close>)
  have old: "devices_move ap now w w' \<and> devices_ok w'"
    if "dev_status d = DevApproved" "dev_api_key_plaintext d = None"
      "device_codes w' = update_where (\<lambda>x. dev_id x = dev_id d) (\<lambda>x. x\<lparr>dev_status := DevClaimed\<rparr>) (device_codes w)" for w'
    by (rule update_found_row [OF assms Some _ _ that(3)])
      (use that(1,2) row in \<open>auto simp: device_moves_def device_edge_def device_row_ok_def\<close>)
  have "truthy (dev_api_key_plaintext d) \<or> dev_api_key_plaintext d = None" if "dev_status d = DevApproved"
    using that row by (auto simp: device_row_ok_def truthy_def split: option.split)
  then show ?thesis
    unfolding poll_device_code_def Some option.case if_distrib [of snd] snd_conv Let_def
    using assms by (auto simp: devices_move_same gone new old)
qed

lemma submit_keeps:
  assumes "devices_ok w"
  shows "devices_move ap now w (snd (submit_email env fr code email now w)) \<and> devices_ok (snd (submit_email env fr code email now w))"
proof (cases "find_device w code")
  case None
  then show ?thesis using assms by (simp add: submit_email_def devices_move_same)
next
  case (Some d)
  have new: "devices_move ap now w w' \<and> devices_ok w'"
    if "dev_status d = DevPending" "device_codes w' = update_where (\<lambda>x. dev_id x = dev_id d) (email_row email (fr_token fr)) (device_codes w)" for w'
    by (rule update_found_row [OF assms Some _ _ that(2)])
      (use that(1) find_device_row [OF assms Some] in \<open>auto simp: device_moves_def device_edge_def device_row_ok_def email_row_def\<close>)
  show ?thesis
    unfolding submit_email_def Some option.case if_distrib [of snd] snd_conv Let_def
    using assms by (simp add: devices_move_same new)
qed

lemma verify_keeps:
  assumes "devices_ok w"
  shows "devices_move True now w (snd (verify_token env fr one_time token code now w))
    \<and> devices_ok (snd (verify_token env fr one_time token code now w))"
proof (cases "find_device w code")
  case None
  then show ?thesis using assms by (simp add: verify_token_def devices_move_same)
next
  case (Some d)
  have new: "devices_move True now w w' \<and> devices_ok w'"
    if "dev_status d = DevEmailSent" "key \<noteq> Some []"
      "device_codes w' = update_where (\<lambda>x. dev_id x = dev_id d) (approved_row key one_time i) (device_codes w)" for w' key i
    by (rule update_found_row [OF assms Some _ _ that(3)])
      (use that(1,2) in \<open>auto simp: device_moves_def device_edge_def device_row_ok_def approved_row_def\<close>)
  have key: "generate_api_key k \<noteq> []" for k by (simp add: generate_api_key_def)
  have ins: "device_codes w1 = device_codes w" if "insert_user u w = Inr w1" for u w1
    using that by (auto simp: insert_user_def store_users_def split: if_splits)
  show ?thesis
    unfolding verify_token_def Some option.case if_distrib [of snd] snd_conv Let_def
    using assms by (auto simp: devices_move_same key ins new [where key = None] new [where key = "Some (generate_api_key (fr_key fr))"]
        split: option.split sum.split)
qed

lemma session_keeps:
  assumes "devices_ok w"
  shows "devices_move ap now w (snd (create_session env token now w)) \<and> devices_ok (snd (create_session env token now w))"
proof -
  let ?q = "\<lambda>d. dev_session_token d = Some token \<and> dev_status d \<in> {DevApproved, DevClaimed}"
  show ?thesis
  proof (cases "\<exists>d. filter ?q (device_codes w) = [d] \<and> snd (create_session env token now w) = update_device (dev_id d) (\<lambda>x. x\<lparr>dev_session_token := None\<rparr>) w")
    case False
    then have "snd (create_session env token now w) = w"
      by (auto simp: create_session_def Let_def split: list.split option.split sum.split)
    then show ?thesis using assms by (simp add: devices_move_same)
  next
    case True
    then obtain d where d: "filter ?q (device_codes w) = [d]"
      and w': "snd (create_session env token now w) = update_device (dev_id d) (\<lambda>x. x\<lparr>dev_session_token := None\<rparr>) w" by blast
    have mem: "d \<in> set (device_codes w)" "?q d" using arg_cong [OF d, of set] by auto
    have "distinct (map dev_device_code (device_codes w))" using assms by (simp add: devices_ok_def)
    then have "find_device w (dev_device_code d) = Some d"
      unfolding find_device_def using mem(1) find_unique [of dev_device_code "device_codes w" d "\<lambda>_. True"] by simp
    then show ?thesis
      unfolding w'
      by (rule update_found_row [OF assms, where f = "\<lambda>x. x\<lparr>dev_session_token := None\<rparr>"])
        (use mem assms in \<open>auto simp: device_moves_def device_edge_def devices_ok_def device_row_ok_def\<close>)
  qed
qed

lemma cleanup_keeps:
  assumes "devices_ok w"
  shows "devices_move ap now w (snd (cleanup_device_codes now w)) \<and> devices_ok (snd (cleanup_device_codes now w))"
proof -
  have "devices_move ap now w (snd (cleanup_device_codes now w))"
    unfolding devices_move_def cleanup_device_codes_def Let_def
    by (rule exI [of _ "\<lambda>d. d"], rule exI [of _ "\<lambda>d. \<not> dev_expires_at d < now - hours 24"], rule exI [of _ "[]"])
      (auto simp: hours_def minutes_def seconds_def)
  with assms show ?thesis by (auto simp: devices_ok_def cleanup_device_codes_def Let_def distinct_map_filter)
qed

lemma check_redis_only: "\<exists>r. snd (check_auth_rate_limit up up' k l t now w) = w\<lparr>redis := r\<rparr>"
proof -
  have "\<exists>r. w = w\<lparr>redis := r\<rparr>" by (rule exI [of _ "redis w"]) simp
  then show ?thesis by (auto simp: check_auth_rate_limit_def split: sum.split)
qed

lemma limited_cases:
  "(\<exists>r. snd (limited env n k l t now handler w) = w\<lparr>redis := r\<rparr>) \<or> (\<exists>r. limited env n k l t now handler w = handler (w\<lparr>redis := r\<rparr>))"
proof (cases "check_auth_rate_limit (ae_up env n) (ae_up env (n + 1)) k l t now w")
  case (Pair a v)
  obtain r where "v = w\<lparr>redis := r\<rparr>" using check_redis_only Pair by (metis snd_conv)
  then show ?thesis unfolding limited_def Pair by (cases a) (auto split: bool.split)
qed

lemma devices_redis [simp]:
  "devices_move ap now (w\<lparr>redis := r\<rparr>) v \<longleftrightarrow> devices_move ap now w v" "devices_ok (w\<lparr>redis := r\<rparr>) \<longleftrightarrow> devices_ok w"
  "devices_move ap now v (w\<lparr>redis := r\<rparr>) \<longleftrightarrow> devices_move ap now v w"
  by (simp_all add: devices_move_def devices_ok_def)

lemma limited_keeps:
  assumes "devices_ok w" and "\<And>v. devices_ok v \<Longrightarrow> devices_move ap now v (snd (handler v)) \<and> devices_ok (snd (handler v))"
  shows "devices_move ap now w (snd (limited env n k l t now handler w)) \<and> devices_ok (snd (limited env n k l t now handler w))"
  using limited_cases [of env n k l t now handler w] assms(1) assms(2) [of "w\<lparr>redis := r\<rparr>" for r]
  by (auto simp: devices_move_same)

lemma account_step_devices:
  assumes "account_step env now w w'" and "devices_ok w"
  shows "devices_ok w' \<and> (devices_move False now w w' \<or>
    (\<exists>fr one_time token code. w' = snd (verify_endpoint env fr one_time token code now w)))"
proof -
  have same: "devices_ok v \<and> devices_move False now w v" if "device_codes v = device_codes w" for v
    using that assms(2) by (simp add: devices_move_same) (simp add: devices_ok_def)
  note auth = device_side.authenticated
  from assms(1) show ?thesis
  proof cases
    case (login h obo)
    then show ?thesis using same device_side.user_frame by metis
  next
    case (session token)
    then show ?thesis using session_keeps [OF assms(2)] by blast
  next
    case (device ip i code)
    then show ?thesis
      using same limited_keeps [OF assms(2) create_device_keeps] by (auto simp: create_device_code_endpoint_def)
  next
    case (poll code)
    then show ?thesis
      using limited_keeps [OF assms(2), of False now "\<lambda>w. (Reply (fst (poll_device_code env code now w)), snd (poll_device_code env code now w))"]
        poll_keeps by (auto simp: poll_device_code_endpoint_def)
  next
    case (email ip fr code email)
    then show ?thesis
      using limited_keeps [OF assms(2) limited_keeps [OF _ submit_keeps]] by (auto simp: submit_email_endpoint_def)
  next
    case (verify fr one_time token code)
    then show ?thesis using verify_keeps [OF assms(2)] unfolding verify_endpoint_def by blast
  next
    case cleanup
    then show ?thesis using cleanup_keeps [OF assms(2)] by blast
  qed (use same device_side.profile_frame device_side.key_frame auth in metis)+
qed

lemma verify_cases:
  assumes "w' = snd (verify_endpoint env fr one_time token code now w)"
  shows "device_codes w' = device_codes w \<or>
    (\<exists>d key i. find_device w code = Some d \<and> now \<le> dev_expires_at d \<and> dev_status d = DevEmailSent \<and> dev_verification_token d = Some token
       \<and> device_codes w' = update_where (\<lambda>x. dev_id x = dev_id d) (approved_row key one_time i) (device_codes w))"
proof (cases "find_device w code")
  case (Some d)
  have ins: "device_codes w1 = device_codes w" if "insert_user u w = Inr w1" for u w1
    using that by (auto simp: insert_user_def store_users_def split: if_splits)
  show ?thesis
    unfolding assms verify_endpoint_def verify_token_def Some option.case if_distrib [of snd] snd_conv Let_def
    by (auto simp: ins not_less split: option.split sum.split)
qed (simp add: assms verify_endpoint_def verify_token_def)


lemma find_update_found:
  "find p rows = Some d \<Longrightarrow> (\<And>x. p (f x) = p x) \<Longrightarrow> q d \<Longrightarrow> find p (update_where q f rows) = Some (f d)"
  by (induction rows) (auto split: if_splits)


subsection \<open>What an accepted key means\<close>

text \<open>
  The caches of Redis agree with the users table: a cached key is the current key of the user it
  is cached for, and a cached session belongs to an existing user. (No hash is the empty text.)
\<close>

definition caches_ok :: "world \<Rightarrow> bool" where
  "caches_ok w \<longleftrightarrow>
     (\<forall>h v x. h \<noteq> [] \<longrightarrow> redis w (KAuth h) = Some (v, x) \<longrightarrow>
        (\<exists>a u. v = RUser a \<and> u \<in> set (users w) \<and> usr_id u = au_id a \<and> usr_api_key_hash u = h))
     \<and> (\<forall>i v x. redis w (KSession i) = Some (v, x) \<longrightarrow> (\<exists>a. v = RUser a \<and> au_id a = i \<and> i \<in> usr_id ` set (users w)))"

definition auth_key :: "redis_key \<Rightarrow> bool" where
  "auth_key k \<longleftrightarrow> (case k of KAuth _ \<Rightarrow> True | KSession _ \<Rightarrow> True | _ \<Rightarrow> False)"

lemma caches_ok_same:
  assumes "caches_ok w" and "\<And>k. auth_key k \<Longrightarrow> redis w' k = redis w k" and "users_evolve False w w'"
  shows "caches_ok w'"
proof -
  have r: "redis w' (KAuth h) = redis w (KAuth h)" "redis w' (KSession i) = redis w (KSession i)" for h i
    using assms(2) by (simp_all add: auth_key_def)
  have u: "\<exists>u' \<in> set (users w'). usr_id u' = usr_id u \<and> usr_api_key_hash u' = usr_api_key_hash u" if "u \<in> set (users w)" for u
    using assms(3) that by (auto simp: users_evolve_def)
  have i: "i \<in> usr_id ` set (users w')" if "i \<in> usr_id ` set (users w)" for i
    using that u by (metis (no_types, lifting) imageE image_eqI)
  have a: "\<exists>a v. x = RUser a \<and> v \<in> set (users w') \<and> usr_id v = au_id a \<and> usr_api_key_hash v = h"
    if "\<exists>a v. x = RUser a \<and> v \<in> set (users w) \<and> usr_id v = au_id a \<and> usr_api_key_hash v = h" for x h
    using that u by metis
  show ?thesis
    unfolding caches_ok_def r
  proof (intro conjI allI impI)
    fix h v x
    assume "h \<noteq> []" "redis w (KAuth h) = Some (v, x)"
    with assms(1) show "\<exists>a u. v = RUser a \<and> u \<in> set (users w') \<and> usr_id u = au_id a \<and> usr_api_key_hash u = h"
      by (intro a) (auto simp: caches_ok_def)
  next
    fix j v x
    assume "redis w (KSession j) = Some (v, x)"
    with assms(1) have "\<exists>a. v = RUser a \<and> au_id a = j \<and> j \<in> usr_id ` set (users w)" unfolding caches_ok_def by blast
    with i show "\<exists>a. v = RUser a \<and> au_id a = j \<and> j \<in> usr_id ` set (users w')" by blast
  qed
qed

lemma cached_user_entry: "cached_user up k now w = Some a \<Longrightarrow> \<exists>x. redis w k = Some (RUser a, x)"
  by (auto simp: cached_user_def redis_get_def live_def split: if_splits option.splits redis_val.splits)

lemma auth_via_api_key_sound:
  assumes "caches_ok w" and "auth_via_api_key env k now w = (r, w')" and "hash_api_key env k \<noteq> []"
  shows "caches_ok w' \<and> users w' = users w \<and>
    (\<forall>a. r = Reply a \<longrightarrow> (\<exists>u \<in> set (users w). usr_id u = au_id a \<and> usr_api_key_hash u = hash_api_key env k))"
proof -
  let ?h = "hash_api_key env k"
  have cached: "\<exists>u \<in> set (users w). usr_id u = au_id a \<and> usr_api_key_hash u = ?h"
    if "cached_user up (KAuth ?h) now w = Some a" for a up
    using cached_user_entry [OF that] assms(1,3) by (force simp: caches_ok_def)
  have stored: "caches_ok (cache_user up (KAuth ?h) (to_auth_user u) now w)"
    if "find (\<lambda>u. usr_api_key_hash u = ?h) (users w) = Some u" for u up
    using assms(1) find_SomeD [OF that] by (auto simp: caches_ok_def cache_user_def redis_set_ex_def to_auth_user_def)
  have users: "users (cache_user up x y now w) = users w" for up x y by (simp add: cache_user_def)
  show ?thesis
    using assms cached stored users
    by (auto simp: auth_via_api_key_def Let_def to_auth_user_def split: option.splits dest: find_SomeD)
qed

lemma auth_via_session_sound:
  assumes "caches_ok w" and "auth_via_session_jwt env k now w = (r, w')"
  shows "caches_ok w' \<and> users w' = users w \<and> (\<forall>a. r = Reply a \<longrightarrow> au_id a \<in> usr_id ` set (users w))"
proof -
  have cached: "au_id a \<in> usr_id ` set (users w)" if "cached_user up (KSession i) now w = Some a" for a up i
    using cached_user_entry [OF that] assms(1) by (force simp: caches_ok_def)
  have row: "u \<in> set (users w) \<and> usr_id u = i" if "get_user_row w i = Some u" for u i
    using find_SomeD [OF that [unfolded get_user_row_def]] by simp
  have found: "au_id (to_auth_user u) \<in> usr_id ` set (users w)" if "get_user_row w i = Some u" for u i
    using row [OF that] by (auto simp: to_auth_user_def)
  have stored: "caches_ok (cache_user up (KSession i) (to_auth_user u) now w)" if "get_user_row w i = Some u" for u up i
    using assms(1) row [OF that] by (auto simp: caches_ok_def cache_user_def redis_set_ex_def to_auth_user_def)
  have users: "users (cache_user up x y now w) = users w" for up x y by (simp add: cache_user_def)
  show ?thesis
    using assms cached stored users found
    by (auto simp: auth_via_session_jwt_def split: option.splits sum.splits jwt_error.splits)
qed

lemma current_user_sound:
  assumes "caches_ok w" and "get_current_user env h obo now w = (r, w')" and "\<And>k. hash_api_key env k \<noteq> []"
  shows "caches_ok w' \<and> users w' = users w \<and> (\<forall>a. r = Reply a \<longrightarrow> au_id a \<in> usr_id ` set (users w))"
proof -
  have internal: "au_id a \<in> usr_id ` set (users w)" if "auth_via_internal_token env obo w = Reply a" for a
    using that by (auto simp: auth_via_internal_token_def to_auth_user_def get_user_row_def dest!: find_SomeD
        split: if_splits option.splits)
  have api: "caches_ok w' \<and> users w' = users w \<and> (\<forall>a. r = Reply a \<longrightarrow> au_id a \<in> usr_id ` set (users w))"
    if "auth_via_api_key env k now w = (r, w')" for k
    using auth_via_api_key_sound [OF assms(1) that assms(3)] by (auto simp: image_iff) metis+
  note jwt = auth_via_session_sound [OF assms(1)]
  show ?thesis
  proof (cases h)
    case (Some x)
    let ?c = "if ae_EXTERNAL_AUTH_BACKEND env \<and> ae_INTERNAL_AUTH_TOKEN env \<noteq> []
      then compare_digest (bearer_token x) (ae_INTERNAL_AUTH_TOKEN env) else Inr False"
    show ?thesis
    proof (cases "starts_with ''Bearer '' x")
      case True
      note eq = assms(2) [unfolded get_current_user_def Some option.case Let_def, simplified True not_True_eq_False if_False]
      show ?thesis
      proof (cases ?c)
        case (Inl err)
        then show ?thesis using eq assms(1) by auto
      next
        case (Inr b)
        show ?thesis
        proof (cases b)
          case True
          then show ?thesis using eq assms(1) internal by (auto simp: Inr)
        next
          case False
          then have "(if starts_with ''cue_sk_'' (bearer_token x) then auth_via_api_key env (bearer_token x) now w
            else auth_via_session_jwt env (bearer_token x) now w) = (r, w')" using eq by (simp only: Inr sum.case bool.case)
          then show ?thesis by (auto split: if_splits dest!: api jwt)
        qed
      qed
    qed (use assms Some in \<open>auto simp: get_current_user_def\<close>)
  qed (use assms in \<open>auto simp: get_current_user_def\<close>)
qed

text \<open>Operations that neither rotate a key nor touch a cached user.\<close>

definition auth_idle :: "world \<Rightarrow> world \<Rightarrow> bool" where
  "auth_idle w w' \<longleftrightarrow> users_evolve False w w' \<and> (\<forall>k. auth_key k \<longrightarrow> redis w' k = redis w k)"

lemma auth_idle_caches: "auth_idle w w' \<Longrightarrow> caches_ok w \<Longrightarrow> caches_ok w'"
  by (auto simp: auth_idle_def intro: caches_ok_same)

lemma auth_idle_trans: "auth_idle u v \<Longrightarrow> auth_idle v w \<Longrightarrow> auth_idle u w"
  unfolding auth_idle_def users_evolve_def by simp (metis (no_types, lifting))

lemma auth_idle_same: "users w' = users w \<Longrightarrow> redis w' = redis w \<Longrightarrow> auth_idle w w'"
  by (simp add: auth_idle_def users_evolve_same)

lemma auth_idle_insert: "insert_user u w = Inr w' \<Longrightarrow> auth_idle w w'"
  using users_evolve_insert [of u w w' False] by (simp add: auth_idle_def)

lemma auth_idle_update:
  assumes "update_user i f w = Inr w'" and "\<And>u. usr_id (f u) = usr_id u" and "\<And>u. usr_api_key_hash (f u) = usr_api_key_hash u"
  shows "auth_idle w w'"
  using users_evolve_update [OF assms(1,2), of False] assms(3) by (simp add: auth_idle_def)

lemma auth_idle_rows:
  "update_user i (upserted_row b) v = Inr v' \<Longrightarrow> auth_idle v v'" "update_user i (patched_row e x) v = Inr v' \<Longrightarrow> auth_idle v v'"
  "update_user i (\<lambda>u. u\<lparr>usr_alert_webhook_secret := y\<rparr>) v = Inr v' \<Longrightarrow> auth_idle v v'"
  "update_user i (\<lambda>u. u\<lparr>usr_webhook_secret := z\<rparr>) v = Inr v' \<Longrightarrow> auth_idle v v'"
  by (auto intro: auth_idle_update simp: row_updates_keep)

lemma auth_idle_sent [simp]:
  "auth_idle v (w\<lparr>sent := x\<rparr>) \<longleftrightarrow> auth_idle v w" "auth_idle v (update_device i f w) \<longleftrightarrow> auth_idle v w"
  "auth_idle v (w\<lparr>device_codes := ds\<rparr>) \<longleftrightarrow> auth_idle v w"
  by (simp_all add: auth_idle_def users_evolve_def)

lemma auth_idle_refl [simp]: "auth_idle w w"
  by (rule auth_idle_same) simp_all

lemma profile_idle:
  "auth_idle w (snd (register env fr email w))" "auth_idle w (snd (upsert_user env fr h i b w))" "auth_idle w (snd (get_me env a now w))"
  "auth_idle w (snd (patch_me env s email' url a now w))" "auth_idle w (snd (get_alert_webhook_secret fr a w))"
  "auth_idle w (snd (regenerate_alert_webhook_secret fr c a w))" "auth_idle w (snd (regenerate_webhook_secret env fr c a w))"
proof -
  have "users (snd (get_me env a now w)) = users w" "\<And>k. auth_key k \<Longrightarrow> redis (snd (get_me env a now w)) k = redis w k"
    by (auto simp: get_me_def get_monthly_usage_def Let_def split_def redis_set_ex_def auth_key_def split: option.split)
  then show "auth_idle w (snd (get_me env a now w))" by (simp add: auth_idle_def users_evolve_same)
qed (auto simp: register_def upsert_user_def patch_me_def get_alert_webhook_secret_def
      regenerate_alert_webhook_secret_def regenerate_webhook_secret_def mail_secret_changed_def Let_def
      intro: auth_idle_rows auth_idle_insert split: sum.split option.split reply.split list.split)

lemma device_idle:
  "auth_idle w (snd (create_session env token now w))" "auth_idle w (snd (create_device_code i code now w))"
  "auth_idle w (snd (poll_device_code env code now w))" "auth_idle w (snd (submit_email env fr code email now w))"
  "auth_idle w (snd (verify_token env fr one_time token code now w))" "auth_idle w (snd (cleanup_device_codes now w))"
  by (auto simp: create_session_def create_device_code_def poll_device_code_def submit_email_def verify_token_def
      cleanup_device_codes_def Let_def intro: auth_idle_insert split: list.split option.split sum.split)

lemma limited_idle:
  assumes "\<And>v. auth_idle v (snd (handler v))"
  shows "auth_idle w (snd (limited env n (KAuthLimit x y) l t now handler w))"
proof -
  obtain a v where c: "check_auth_rate_limit (ae_up env n) (ae_up env (n + 1)) (KAuthLimit x y) l t now w = (a, v)" by force
  have r: "redis_add 1 (KAuthLimit x y) now (redis w) = Inr (m, r') \<Longrightarrow> auth_key k \<Longrightarrow> r' k = redis w k" for m r' k
    by (auto simp: redis_add_def auth_key_def split: if_splits option.splits prod.splits redis_val.splits)
  have e: "auth_key k \<Longrightarrow> redis_expire (KAuthLimit x y) t now r' k = r' k" for r' k
    by (auto simp: redis_expire_def auth_key_def split: option.split)
  have "auth_idle w v"
    using c r e by (auto simp: check_auth_rate_limit_def auth_idle_def users_evolve_same split: if_splits sum.splits)
  then have "auth_idle w (snd (handler v))" using assms auth_idle_trans by blast
  with \<open>auth_idle w v\<close> show ?thesis unfolding limited_def c by (auto split: sum.split bool.split)
qed

lemma rotate_keeps_caches:
  assumes ok: "caches_ok w" and uniq: "users_unique (users w)" and a: "au_id a \<in> usr_id ` set (users w)"
    and up: "\<And>n. ae_up env n"
  shows "caches_ok (snd (regenerate_key env fr c a now w))"
proof -
  let ?k = "generate_api_key (fr_key fr)" and ?h = "hash_api_key env (generate_api_key (fr_key fr))"
  obtain u where u: "get_user_row w (au_id a) = Some u"
    using a by (cases "get_user_row w (au_id a)") (auto simp: get_user_row_def find_None_iff)
  have um: "u \<in> set (users w)" "usr_id u = au_id a" using find_SomeD [OF u [unfolded get_user_row_def]] by auto
  have one: "v = u" if "v \<in> set (users w)" "usr_id v = au_id a" for v
    using that um uniq inj_onD [of usr_id "set (users w)" v u] by (simp add: users_unique_def distinct_map)
  let ?us = "update_where (\<lambda>r. usr_id r = au_id a) (rotated_row env ?k) (users w)"
  show ?thesis
  proof (cases "update_user (au_id a) (rotated_row env ?k) w")
    case (Inl err)
    then show ?thesis using ok by (simp add: regenerate_key_def)
  next
    case (Inr w1)
    then have w1: "w1 = w\<lparr>users := ?us\<rparr>" by (auto simp: update_user_def u store_users_def split: if_splits)
    define old where "old = (case map_option usr_api_key_hash (get_user_row w (au_id a)) of Some (c # cs) \<Rightarrow> Some (c # cs) | _ \<Rightarrow> None)"
    have old: "old = (if usr_api_key_hash u = [] then None else Some (usr_api_key_hash u))"
      by (auto simp: old_def u split: list.split)
    let ?w2 = "snd (rotate_caches env old ?h a now w1)"
    have r2: "users ?w2 = ?us" "redis ?w2 (KSession i) = redis w (KSession i)"
      "redis ?w2 (KAuth h) = (if h = ?h then Some (RUser a, Some (now + seconds 300))
         else if Some h = old then None else redis w (KAuth h))" for i h
      by (auto simp: rotate_caches_def up cache_user_def redis_set_ex_def Let_def w1 split: option.split)
    have new: "\<exists>x u'. RUser a = RUser x \<and> u' \<in> set ?us \<and> usr_id u' = au_id x \<and> usr_api_key_hash u' = ?h"
    proof -
      have "rotated_row env ?k u \<in> set ?us" using um by (force simp: update_where_def)
      then show ?thesis using um row_updates_keep(5,6) [of env ?k u] by auto
    qed
    have rest: "\<exists>x u'. v = RUser x \<and> u' \<in> set ?us \<and> usr_id u' = au_id x \<and> usr_api_key_hash u' = h"
      if "redis w (KAuth h) = Some (v, y)" "Some h \<noteq> old" "h \<noteq> []" for h v y
    proof -
      note prem = that
      obtain x u' where x: "v = RUser x" "u' \<in> set (users w)" "usr_id u' = au_id x" "usr_api_key_hash u' = h"
        using ok prem(1,3) unfolding caches_ok_def by blast
      then have "usr_id u' \<noteq> au_id a" using one [of u'] prem(2,3) by (auto simp: old split: if_splits)
      with x show ?thesis by (auto simp: set_update_where intro!: exI [of _ u'])
    qed
    have ids: "usr_id ` set ?us = usr_id ` set (users w)"
      using map_update_where [of usr_id "rotated_row env ?k", OF row_updates_keep(5)] by (metis set_map)
    have "caches_ok ?w2"
      unfolding caches_ok_def r2 ids
      by (intro conjI allI impI)
        (use new rest ok in \<open>auto simp: caches_ok_def split: if_splits\<close>)
    then have "caches_ok (mail_secret_changed env e ?w2)" for e
      by (simp add: mail_secret_changed_def caches_ok_def)
    then show ?thesis
      using ok \<open>caches_ok ?w2\<close> unfolding regenerate_key_def Let_def Inr old_def [symmetric]
      by (auto split: prod.split sum.split)
  qed
qed

text \<open>
  A run of the server with Redis available: account operations under settings that agree on the
  hash, with anything in between that leaves the users and the cached users alone, which is
  everything else the server does. It starts without cached users.
\<close>

inductive auth_run :: "(string \<Rightarrow> string) \<Rightarrow> world \<Rightarrow> bool" for sha where
  start: "users_unique (users w) \<Longrightarrow> (\<And>k. auth_key k \<Longrightarrow> redis w k = None) \<Longrightarrow> auth_run sha w"
| account: "auth_run sha w \<Longrightarrow> account_step env now w w' \<Longrightarrow> ae_sha256 env = sha \<Longrightarrow> (\<And>n. ae_up env n) \<Longrightarrow> auth_run sha w'"
| other: "auth_run sha w \<Longrightarrow> auth_idle w w' \<Longrightarrow> auth_run sha w'"

lemma account_step_caches:
  assumes "account_step env now w w'" and ok: "caches_ok w" "users_unique (users w)"
    and up: "\<And>n. ae_up env n" and sha: "\<And>k. hash_api_key env k \<noteq> []"
  shows "caches_ok w'"
proof -
  note cur = current_user_sound [OF ok(1) _ sha]
  have direct: "caches_ok v" if "auth_idle w v" for v
    using that ok(1) by (rule auth_idle_caches)
  have idle: "caches_ok v'" if "get_current_user env h obo now w = (r, v)" "auth_idle v v'" for h obo r v v'
    using cur [OF that(1)] that(2) auth_idle_caches by blast
  from assms(1) show ?thesis
  proof cases
    case (login h obo)
    then show ?thesis using cur [of h obo now] by (metis prod.collapse)
  next
    case (key h obo a w1 fr c)
    then show ?thesis using cur [OF key(2)] rotate_keeps_caches [of w1 a env fr c now] ok(2) up by auto
  next
    case (poll code)
    show ?thesis unfolding poll poll_device_code_endpoint_def by (intro direct limited_idle) (simp add: device_idle)
  qed (use ok(1) in \<open>auto simp: create_device_code_endpoint_def submit_email_endpoint_def
      verify_endpoint_def intro: direct idle profile_idle device_idle limited_idle\<close>)
qed

lemma auth_run_ok:
  assumes "auth_run sha w" and "\<And>k. sha k \<noteq> []"
  shows "caches_ok w \<and> users_unique (users w)"
  using assms(1)
proof (induction rule: auth_run.induct)
  case (start w)
  then show ?case by (auto simp: caches_ok_def auth_key_def)
next
  case (account w env now w')
  have "users_unique (users w')" using users_side.account_step_frame [OF account.hyps(2)] account.IH by (simp add: users_evolve_def)
  then show ?case
    using account_step_caches [OF account.hyps(2)] account assms(2) by (simp add: hash_api_key_def)
next
  case (other w w')
  then show ?case using auth_idle_caches by (auto simp: auth_idle_def users_evolve_def)
qed


subsection \<open>Concrete runs\<close>

definition example_auth :: auth_env where
  "example_auth = \<lparr>ae_ENV = ''production'', ae_ALLOW_REGISTER = True, ae_EXTERNAL_AUTH_BACKEND = False, ae_INTERNAL_AUTH_TOKEN = [],
     ae_SESSION_SECRET = ''s'', ae_BASE_URL = ''https://a.example'', ae_mail = True,
     ae_sha256 = (\<lambda>k. if k = ''cue_sk_1'' then ''alice'' else ''x''), ae_encrypt = (\<lambda>s p. s @ p), ae_decrypt = (\<lambda>s c. Some (drop (length s) c)),
     ae_jwt_encode = (\<lambda>s c. ''jwt''), ae_jwt_decode = (\<lambda>s t now. Inl InvalidTokenError), ae_uuid = (\<lambda>_. None), ae_up = (\<lambda>_. True)\<rparr>"

definition mailed_device :: device_code where
  "mailed_device = email_row ''a@x.example'' ''tok'' (fresh_device 1 ''code42'' 0)"

definition device_world :: "device_code \<Rightarrow> world" where
  "device_world d = user_world\<lparr>device_codes := [d]\<rparr>"

definition example_fresh :: fresh where
  "example_fresh = \<lparr>fr_id = 9, fr_key = ''2'', fr_secret = ''3'', fr_token = ''4'', fr_hex = (\<lambda>_. ''00000000'')\<rparr>"

lemma mailed_device_facts:
  "dev_id mailed_device = 1" "dev_device_code mailed_device = ''code42''" "dev_status mailed_device = DevEmailSent"
  "dev_expires_at mailed_device = seconds 900" "dev_verification_token mailed_device = Some ''tok''"
  "dev_email mailed_device = Some ''a@x.example''" "device_row_ok mailed_device"
  by (simp_all add: mailed_device_def email_row_def fresh_device_def device_row_ok_def DEVICE_CODE_EXPIRY_SECONDS_def)



definition one_user_world :: world where
  "one_user_world = empty_world\<lparr>users := [example_user 7 ''alice'']\<rparr>"


end
