(* ===== verification/LiveSessions.thy ===== *)
theory LiveSessions
  imports Messages
begin

section \<open>Live sessions and daemon attachments\<close>

text \<open>
  A live session is a row of \<open>agent_live_sessions\<close>: one attached terminal of an agent, registered by
  its monitor (\<open>src/app/routers/agent_live_sessions.py\<close>) or attached by a local daemon
  (\<open>src/app/routers/ipc_attachments.py\<close>, \<open>src/app/services/ipc_attachment_service.py\<close>). The table has
  three unique indexes, two of them over the rows that are not detached. The theory models every
  endpoint of both routers, the text of daemon ids and session tokens, and the routing conventions of
  \<open>src/app/utils/routing.py\<close>. Generated row ids are arguments.
\<close>

subsection \<open>The table\<close>

definition session_active :: "live_session \<Rightarrow> bool" where
  "session_active r \<longleftrightarrow> ls_detached_at r = None"

definition session_default :: "live_session \<Rightarrow> bool" where
  "session_default r \<longleftrightarrow> ls_is_default r \<and> ls_detached_at r = None"

text \<open>The primary key and the three unique indexes.\<close>

definition session_indexes_ok :: "live_session list \<Rightarrow> bool" where
  "session_indexes_ok rows \<longleftrightarrow> distinct (map ls_id rows) \<and> distinct (map ls_cue_id rows)
     \<and> distinct (map (\<lambda>r. (ls_agent_id r, ls_label r)) (filter session_active rows))
     \<and> distinct (map ls_agent_id (filter session_default rows))"

text \<open>Text columns hold no NUL; two columns have a length.\<close>

definition session_storable :: "live_session \<Rightarrow> bool" where
  "session_storable r \<longleftrightarrow> \<not> has_nul (ls_label r) \<and> \<not> has_nul (ls_cue_id r) \<and> \<not> has_nul (ls_task_name r)
     \<and> (case ls_monitor_version r of None \<Rightarrow> True | Some x \<Rightarrow> \<not> has_nul x)
     \<and> (case ls_session_token r of None \<Rightarrow> True | Some x \<Rightarrow> length x \<le> 80 \<and> \<not> has_nul x)
     \<and> (case ls_ipc_session_token r of None \<Rightarrow> True | Some x \<Rightarrow> length x \<le> 32 \<and> \<not> has_nul x)"

definition insert_session :: "live_session \<Rightarrow> live_session list \<Rightarrow> py_error + live_session list" where
  "insert_session r rows =
     (if \<not> session_storable r then Inl DataError
      else if \<not> session_indexes_ok (rows @ [r]) then Inl IntegrityError
      else Inr (rows @ [r]))"

text \<open>
  An UPDATE of several rows. The indexes are not deferrable, so PostgreSQL checks them after every
  row it modifies, in the order in which the statement meets the rows; \<open>rank\<close> is that order.
\<close>

definition update_one_checked :: "(live_session \<Rightarrow> live_session) \<Rightarrow> live_session \<Rightarrow> live_session list \<Rightarrow> py_error + live_session list" where
  "update_one_checked f d rows =
     (let rows' = update_where (\<lambda>r. ls_id r = ls_id d) f rows
      in if session_indexes_ok rows' then Inr rows' else Inl IntegrityError)"

definition update_in_order ::
  "(uuid \<Rightarrow> nat) \<Rightarrow> (live_session \<Rightarrow> bool) \<Rightarrow> (live_session \<Rightarrow> live_session) \<Rightarrow> live_session list
     \<Rightarrow> py_error + live_session list" where
  "update_in_order rank p f rows =
     fold_res (update_one_checked f) (sort_key (\<lambda>r. rank (ls_id r)) (filter p rows)) rows"

subsection \<open>Requests and answers of the monitor\<close>

record session_register =
  rg_label :: string
  rg_cue_id :: string
  rg_task_name :: string
  rg_is_default :: bool
  rg_monitor_version :: "string option"
  rg_session_token :: "string option"

definition session_register_ok :: "session_register \<Rightarrow> bool" where
  "session_register_ok b \<longleftrightarrow> 1 \<le> length (rg_label b) \<and> length (rg_label b) \<le> 64
     \<and> 1 \<le> length (rg_cue_id b) \<and> length (rg_cue_id b) \<le> 128
     \<and> 1 \<le> length (rg_task_name b) \<and> length (rg_task_name b) \<le> 255
     \<and> (case rg_monitor_version b of None \<Rightarrow> True | Some x \<Rightarrow> length x \<le> 64)
     \<and> (case rg_session_token b of None \<Rightarrow> True | Some x \<Rightarrow> length x \<le> 80)"

record session_patch =
  pt_is_default :: "bool option"
  pt_session_token :: "string option"

record session_entry =
  se_label :: string
  se_cue_id :: string
  se_task_name :: string
  se_is_default :: bool
  se_attached :: bool
  se_heartbeat_age_sec :: "int option"
  se_last_claim_at :: "time option"
  se_last_claim_age_sec :: "int option"
  se_monitor_version :: "string option"
  se_attached_at :: "time option"
  se_session_token :: "string option"

definition to_entry :: "time \<Rightarrow> live_session \<Rightarrow> session_entry" where
  "to_entry now r =
     \<lparr>se_label = ls_label r, se_cue_id = ls_cue_id r, se_task_name = ls_task_name r, se_is_default = ls_is_default r,
      se_attached = (ls_detached_at r = None),
      se_heartbeat_age_sec = map_option (\<lambda>t. max 0 (whole_seconds (now - t))) (ls_last_heartbeat r),
      se_last_claim_at = ls_last_claim_at r,
      se_last_claim_age_sec = map_option (\<lambda>t. max 0 (whole_seconds (now - t))) (ls_last_claim_at r),
      se_monitor_version = ls_monitor_version r, se_attached_at = ls_attached_at r,
      se_session_token = ls_session_token r\<rparr>"

subsection \<open>The endpoints of the monitor\<close>

definition get_owned_agent :: "world \<Rightarrow> uuid \<Rightarrow> string \<Rightarrow> agent reply" where
  "get_owned_agent w u ref =
     (case resolve_address w ref of
        Refused code st \<Rightarrow> Refused code st
      | Raised err \<Rightarrow> Raised err
      | Reply a \<Rightarrow> if ag_user_id a \<noteq> u then Refused ''agent_not_found'' 404 else Reply a)"

definition with_owned_agent :: "world \<Rightarrow> uuid \<Rightarrow> string \<Rightarrow> (agent \<Rightarrow> 'a reply \<times> world) \<Rightarrow> 'a reply \<times> world" where
  "with_owned_agent w u ref k =
     (case get_owned_agent w u ref of
        Refused code st \<Rightarrow> (Refused code st, w)
      | Raised err \<Rightarrow> (Raised err, w)
      | Reply a \<Rightarrow> k a)"

definition registered_session :: "string \<Rightarrow> session_register \<Rightarrow> uuid \<Rightarrow> time \<Rightarrow> live_session" where
  "registered_session agent_id b new_id now =
     \<lparr>ls_id = new_id, ls_agent_id = agent_id, ls_label = rg_label b, ls_cue_id = rg_cue_id b,
      ls_task_name = rg_task_name b, ls_is_default = rg_is_default b, ls_attached_at = Some now,
      ls_detached_at = None, ls_last_heartbeat = Some now, ls_last_claim_at = None,
      ls_monitor_version = rg_monitor_version b, ls_session_token = rg_session_token b,
      ls_ipc_session_token = None, ls_transport = PollTransport, ls_daemon_id = None,
      ls_last_reconciled_at = None, ls_created_at = now\<rparr>"

definition register_live_session ::
  "uuid \<Rightarrow> string \<Rightarrow> session_register \<Rightarrow> uuid \<Rightarrow> time \<Rightarrow> world \<Rightarrow> session_entry reply \<times> world" where
  "register_live_session u ref b new_id now w =
     with_owned_agent w u ref (\<lambda>a.
       let r = registered_session (ag_id a) b new_id now
       in case insert_session r (live_sessions w) of
            Inl err \<Rightarrow> (if err = IntegrityError then Refused ''live_session_conflict'' 409 else Raised err, w)
          | Inr rows \<Rightarrow> (Reply (to_entry now r), w\<lparr>live_sessions := rows\<rparr>))"

definition list_live_sessions :: "world \<Rightarrow> uuid \<Rightarrow> string \<Rightarrow> bool \<Rightarrow> time \<Rightarrow> session_entry list reply" where
  "list_live_sessions w u ref include_detached now =
     (case get_owned_agent w u ref of
        Refused code st \<Rightarrow> Refused code st
      | Raised err \<Rightarrow> Raised err
      | Reply a \<Rightarrow> Reply (map (to_entry now) (newest_first ls_created_at
          (filter (\<lambda>r. ls_agent_id r = ag_id a \<and> (include_detached \<or> session_active r)) (live_sessions w)))))"

text \<open>The WHERE clause that the statements on one session share.\<close>

definition session_at :: "string \<Rightarrow> string \<Rightarrow> live_session \<Rightarrow> bool" where
  "session_at agent_id label r \<longleftrightarrow> ls_agent_id r = agent_id \<and> ls_label r = label \<and> ls_detached_at r = None"

text \<open>
  \<open>UPDATE \<dots> RETURNING\<close> read with \<open>scalar_one_or_none\<close>; \<open>args\<close> are the texts among the new values.
  The database refuses a text with a NUL whether or not the statement finds a row.
\<close>

definition update_session_at ::
  "string \<Rightarrow> string \<Rightarrow> string list \<Rightarrow> (live_session \<Rightarrow> live_session) \<Rightarrow> live_session list
     \<Rightarrow> live_session option reply \<times> live_session list" where
  "update_session_at agent_id label args f rows =
     (if list_ex has_nul (label # args) then (Raised DataError, rows)
      else
        (case filter (session_at agent_id label) rows of
           [] \<Rightarrow> (Reply None, rows)
         | [r] \<Rightarrow> if session_storable (f r) then (Reply (Some (f r)), update_where (session_at agent_id label) f rows)
                  else (Raised DataError, rows)
         | _ \<Rightarrow> (Raised MultipleResultsFound, rows)))"

text \<open>One such statement and the commit, answered with the row.\<close>

definition write_session ::
  "string \<Rightarrow> string \<Rightarrow> string list \<Rightarrow> (live_session \<Rightarrow> live_session) \<Rightarrow> time \<Rightarrow> world
     \<Rightarrow> session_entry reply \<times> world" where
  "write_session agent_id label args f now w =
     (case update_session_at agent_id label args f (live_sessions w) of
        (Reply None, _) \<Rightarrow> (Refused ''live_session_not_found'' 404, w)
      | (Reply (Some r), rows) \<Rightarrow> (Reply (to_entry now r), w\<lparr>live_sessions := rows\<rparr>)
      | (Refused code st, _) \<Rightarrow> (Refused code st, w)
      | (Raised err, _) \<Rightarrow> (Raised err, w))"

definition detached_session :: "time \<Rightarrow> live_session \<Rightarrow> live_session" where
  "detached_session now r = r\<lparr>ls_detached_at := Some now, ls_is_default := False\<rparr>"

definition detach_live_session :: "uuid \<Rightarrow> string \<Rightarrow> string \<Rightarrow> time \<Rightarrow> world \<Rightarrow> session_entry reply \<times> world" where
  "detach_live_session u ref label now w =
     with_owned_agent w u ref (\<lambda>a. write_session (ag_id a) label [] (detached_session now) now w)"

definition beating_session :: "time \<Rightarrow> string option \<Rightarrow> live_session \<Rightarrow> live_session" where
  "beating_session now version r =
     (case version of
        None \<Rightarrow> r\<lparr>ls_last_heartbeat := Some now\<rparr>
      | Some v \<Rightarrow> r\<lparr>ls_last_heartbeat := Some now, ls_monitor_version := Some v\<rparr>)"

text \<open>\<open>version\<close> is the \<open>monitor_version\<close> of the body, absent when there is no body.\<close>

definition heartbeat_live_session ::
  "uuid \<Rightarrow> string \<Rightarrow> string \<Rightarrow> string option \<Rightarrow> time \<Rightarrow> world \<Rightarrow> session_entry reply \<times> world" where
  "heartbeat_live_session u ref label version now w =
     with_owned_agent w u ref (\<lambda>a. write_session (ag_id a) label (case version of None \<Rightarrow> [] | Some v \<Rightarrow> [v]) (beating_session now version) now w)"

definition rotate_session_token ::
  "string \<Rightarrow> string \<Rightarrow> string option \<Rightarrow> live_session list \<Rightarrow> live_session list reply" where
  "rotate_session_token agent_id label token rows =
     (case token of
        None \<Rightarrow> Reply rows
      | Some x \<Rightarrow>
          (case update_session_at agent_id label [x] (\<lambda>r. r\<lparr>ls_session_token := Some x\<rparr>) rows of
             (Reply None, _) \<Rightarrow> Refused ''live_session_not_found'' 404
           | (Reply (Some r), rows') \<Rightarrow> Reply rows'
           | (Refused code st, _) \<Rightarrow> Refused code st
           | (Raised err, _) \<Rightarrow> Raised err))"

definition flipped_session :: "string \<Rightarrow> live_session \<Rightarrow> live_session" where
  "flipped_session label r = r\<lparr>ls_is_default := (ls_label r = label)\<rparr>"

definition session_of :: "string \<Rightarrow> live_session \<Rightarrow> bool" where
  "session_of agent_id r \<longleftrightarrow> ls_agent_id r = agent_id \<and> ls_detached_at r = None"

definition flip_default ::
  "(uuid \<Rightarrow> nat) \<Rightarrow> string \<Rightarrow> string \<Rightarrow> bool option \<Rightarrow> live_session list \<Rightarrow> live_session list reply" where
  "flip_default rank agent_id label flip rows =
     (if flip \<noteq> Some True then Reply rows
      else if has_nul label then Raised DataError
      else
        (case update_in_order rank (session_of agent_id) (flipped_session label) rows of
           Inl err \<Rightarrow> Raised err
         | Inr rows' \<Rightarrow>
             (if list_ex (\<lambda>r. session_of agent_id r \<and> ls_label r = label) rows then Reply rows'
              else Refused ''live_session_not_found'' 404)))"

text \<open>Both statements run in one transaction; the row is read again after the commit.\<close>

definition patch_live_session ::
  "(uuid \<Rightarrow> nat) \<Rightarrow> uuid \<Rightarrow> string \<Rightarrow> string \<Rightarrow> session_patch \<Rightarrow> time \<Rightarrow> world \<Rightarrow> session_entry reply \<times> world" where
  "patch_live_session rank u ref label b now w =
     with_owned_agent w u ref (\<lambda>a.
       if pt_is_default b = None \<and> pt_session_token b = None then (Refused ''no_mutable_fields'' 400, w)
       else if pt_is_default b = Some False then (Refused ''invalid_default_flip'' 400, w)
       else
         (case rotate_session_token (ag_id a) label (pt_session_token b) (live_sessions w) of
            Refused code st \<Rightarrow> (Refused code st, w)
          | Raised err \<Rightarrow> (Raised err, w)
          | Reply rows1 \<Rightarrow>
              (case flip_default rank (ag_id a) label (pt_is_default b) rows1 of
                 Refused code st \<Rightarrow> (Refused code st, w)
               | Raised err \<Rightarrow> (Raised err, w)
               | Reply rows2 \<Rightarrow>
                   (let w' = w\<lparr>live_sessions := rows2\<rparr>
                    in case filter (session_at (ag_id a) label) rows2 of
                         [] \<Rightarrow> (Refused ''live_session_not_found'' 404, w')
                       | [r] \<Rightarrow> (Reply (to_entry now r), w')
                       | _ \<Rightarrow> (Raised MultipleResultsFound, w')))))"
subsection \<open>Daemon ids and session tokens\<close>

text \<open>\<open>s.replace(p, "")\<close> for a nonempty \<open>p\<close>.\<close>

fun remove_all_sub :: "string \<Rightarrow> string \<Rightarrow> string" where
  "remove_all_sub p [] = []"
| "remove_all_sub p (c # cs) =
     (if p \<noteq> [] \<and> starts_with p (c # cs) then remove_all_sub p (drop (length p - 1) cs) else c # remove_all_sub p cs)"

text \<open>\<open>int(s, 16)\<close>: whitespace, a sign, the prefix \<open>0x\<close> and single underscores between digits are allowed.\<close>

definition hex_val :: "char \<Rightarrow> nat option" where
  "hex_val c =
     (let n = code_of c in
      if 48 \<le> n \<and> n \<le> 57 then Some (n - 48)
      else if 97 \<le> n \<and> n \<le> 102 then Some (n - 87)
      else if 65 \<le> n \<and> n \<le> 70 then Some (n - 55)
      else None)"

fun hex_digits :: "nat \<Rightarrow> string \<Rightarrow> nat option" where
  "hex_digits acc [] = Some acc"
| "hex_digits acc (c # cs) =
     (case hex_val c of
        Some d \<Rightarrow> hex_digits (16 * acc + d) cs
      | None \<Rightarrow>
          (if c = CHR ''_'' then
             (case cs of [] \<Rightarrow> None
              | e # es \<Rightarrow> (case hex_val e of Some d \<Rightarrow> hex_digits (16 * acc + d) es | None \<Rightarrow> None))
           else None))"

definition hex_unsigned :: "string \<Rightarrow> nat option" where
  "hex_unsigned s =
     (let body = (if starts_with ''0x'' s \<or> starts_with ''0X'' s
                  then (if starts_with ''_'' (drop 2 s) then drop 3 s else drop 2 s) else s)
      in case body of [] \<Rightarrow> None | c # _ \<Rightarrow> if hex_val c = None then None else hex_digits 0 body)"

definition py_int16 :: "string \<Rightarrow> nat option" where
  "py_int16 s = (let t = strip s in if starts_with ''+'' t then hex_unsigned (drop 1 t) else hex_unsigned t)"

definition strip_braces :: "string \<Rightarrow> string" where
  "strip_braces s = (let brace = (\<lambda>c. c \<in> {CHR ''{'', CHR ''}''}) in rev (dropWhile brace (rev (dropWhile brace s))))"

text \<open>\<open>uuid.UUID(s)\<close>, as the number it holds; \<open>None\<close> is the ValueError.\<close>

definition py_uuid :: "string \<Rightarrow> uuid option" where
  "py_uuid s =
     (let hex = filter (\<lambda>c. c \<noteq> CHR ''-'') (strip_braces (remove_all_sub ''uuid:'' (remove_all_sub ''urn:'' s)))
      in if length hex \<noteq> 32 then None else py_int16 hex)"

text \<open>\<open>str(u)\<close>: 32 hexadecimal digits in groups of 8, 4, 4, 4 and 12.\<close>

definition hex_char :: "nat \<Rightarrow> char" where
  "hex_char d = (if d < 10 then char_of (48 + d) else char_of (87 + d))"

fun hex_pad :: "nat \<Rightarrow> nat \<Rightarrow> string" where
  "hex_pad 0 n = []"
| "hex_pad (Suc k) n = hex_pad k (n div 16) @ [hex_char (n mod 16)]"

definition uuid_str :: "uuid \<Rightarrow> string" where
  "uuid_str n =
     (let h = hex_pad 32 n
      in take 8 h @ ''-'' @ take 4 (drop 8 h) @ ''-'' @ take 4 (drop 12 h) @ ''-'' @ take 4 (drop 16 h) @ ''-'' @ drop 20 h)"

definition parse_daemon_id :: "string option \<Rightarrow> uuid reply" where
  "parse_daemon_id raw =
     (if \<not> truthy raw then Refused ''missing_daemon_id'' 400
      else (case py_uuid (strip (the raw)) of None \<Rightarrow> Refused ''invalid_daemon_id'' 400 | Some d \<Rightarrow> Reply d))"

text \<open>\<open>(?:v[a-z0-9]+_)?[0-9A-HJKMNP-TV-Z]{26}\<close> as a full match.\<close>

definition crockford :: "char \<Rightarrow> bool" where
  "crockford c \<longleftrightarrow> is_digit c \<or> (65 \<le> code_of c \<and> code_of c \<le> 90 \<and> c \<notin> {CHR ''I'', CHR ''L'', CHR ''O'', CHR ''U''})"

definition token_prefix :: "string \<Rightarrow> bool" where
  "token_prefix p \<longleftrightarrow> 3 \<le> length p \<and> hd p = CHR ''v'' \<and> last p = CHR ''_'' \<and> list_all slug_char (butlast (tl p))"

definition validate_token_shape :: "string \<Rightarrow> bool" where
  "validate_token_shape s \<longleftrightarrow> 26 \<le> length s \<and> list_all crockford (drop (length s - 26) s)
     \<and> (length s = 26 \<or> token_prefix (take (length s - 26) s))"

definition token_ok :: "string \<Rightarrow> bool" where
  "token_ok s \<longleftrightarrow> 26 \<le> length s \<and> length s \<le> 32 \<and> validate_token_shape s"

subsection \<open>Requests and answers of the daemon\<close>

record attachment_create =
  at_label :: string
  at_task_name :: string
  at_token :: string
  at_attached_at :: "time option"
  at_monitor_version :: "string option"

definition attachment_create_ok :: "attachment_create \<Rightarrow> bool" where
  "attachment_create_ok b \<longleftrightarrow> 1 \<le> length (at_label b) \<and> length (at_label b) \<le> 64
     \<and> 1 \<le> length (at_task_name b) \<and> length (at_task_name b) \<le> 255 \<and> token_ok (at_token b)
     \<and> (case at_monitor_version b of None \<Rightarrow> True | Some x \<Rightarrow> length x \<le> 64)"

record reconcile_entry =
  rc_label :: string
  rc_task_name :: string
  rc_token :: string

definition reconcile_entry_ok :: "reconcile_entry \<Rightarrow> bool" where
  "reconcile_entry_ok e \<longleftrightarrow> 1 \<le> length (rc_label e) \<and> length (rc_label e) \<le> 64
     \<and> 1 \<le> length (rc_task_name e) \<and> length (rc_task_name e) \<le> 255 \<and> token_ok (rc_token e)"

text \<open>The answers of \<open>POST /attachments\<close>: the stored row with the token it replaced, or the row in the way.\<close>

datatype attach_answer =
    Attached live_session "string option"
  | AttachmentExists string string time "time option"

datatype delete_answer = NoContent | AlreadyDeleted

subsection \<open>The endpoints of the daemon\<close>

text \<open>Opaque ids only; an agent that is soft-deleted is found too.\<close>

definition resolve_agent_ref :: "world \<Rightarrow> string \<Rightarrow> uuid \<Rightarrow> agent reply" where
  "resolve_agent_ref w ref u =
     (if has_nul ref \<and> starts_with ''agt_'' ref then Raised DataError
      else if starts_with ''agt_'' ref then
        (case find (\<lambda>a. ag_id a = ref \<and> ag_user_id a = u) (agents w) of
           None \<Rightarrow> Refused ''agent_not_found'' 404
         | Some a \<Rightarrow> Reply a)
      else Refused ''invalid_agent_ref'' 400)"

definition attached_session ::
  "string \<Rightarrow> attachment_create \<Rightarrow> uuid \<Rightarrow> bool \<Rightarrow> uuid \<Rightarrow> time \<Rightarrow> time \<Rightarrow> live_session" where
  "attached_session agent_id b daemon_id is_default new_id at now =
     \<lparr>ls_id = new_id, ls_agent_id = agent_id, ls_label = at_label b, ls_cue_id = at_token b,
      ls_task_name = at_task_name b, ls_is_default = is_default, ls_attached_at = Some at,
      ls_detached_at = None, ls_last_heartbeat = None, ls_last_claim_at = None,
      ls_monitor_version = at_monitor_version b, ls_session_token = None,
      ls_ipc_session_token = Some (at_token b), ls_transport = IpcTransport, ls_daemon_id = Some daemon_id,
      ls_last_reconciled_at = Some at, ls_created_at = now\<rparr>"

datatype attach_result =
    Created live_session "string option"
  | ConflictCrossDaemon live_session

text \<open>
  The flush of a superseding attachment emits the UPDATE that detaches the old row before the INSERT
  of the new one. The time of the attachment is the daemon's when it sends one.
\<close>

definition create_attachment ::
  "string \<Rightarrow> attachment_create \<Rightarrow> uuid \<Rightarrow> uuid \<Rightarrow> time \<Rightarrow> live_session list
     \<Rightarrow> (py_error + attach_result) \<times> live_session list" where
  "create_attachment agent_id b daemon_id new_id now rows =
     (let at = (case at_attached_at b of None \<Rightarrow> now | Some t \<Rightarrow> t);
          add = (\<lambda>is_default old rows'.
            let r = attached_session agent_id b daemon_id is_default new_id at now
            in case insert_session r rows' of
                 Inl err \<Rightarrow> (Inl err, rows)
               | Inr rows'' \<Rightarrow> (Inr (Created r old), rows''))
      in case filter (session_at agent_id (at_label b)) rows of
           [] \<Rightarrow> add (at_label b = ''main'') None rows
         | [e] \<Rightarrow>
             (if ls_daemon_id e = Some daemon_id
              then add (ls_is_default e) (ls_ipc_session_token e)
                     (update_where (\<lambda>r. ls_id r = ls_id e) (\<lambda>r. r\<lparr>ls_detached_at := Some at\<rparr>) rows)
              else (Inr (ConflictCrossDaemon e), rows))
         | _ \<Rightarrow> (Inl MultipleResultsFound, rows))"

definition with_daemon_agent ::
  "world \<Rightarrow> uuid \<Rightarrow> string \<Rightarrow> string option \<Rightarrow> (agent \<Rightarrow> uuid \<Rightarrow> 'a reply \<times> world) \<Rightarrow> 'a reply \<times> world" where
  "with_daemon_agent w u ref header k =
     (case parse_daemon_id header of
        Refused code st \<Rightarrow> (Refused code st, w)
      | Raised err \<Rightarrow> (Raised err, w)
      | Reply d \<Rightarrow>
          (case resolve_agent_ref w ref u of
             Refused code st \<Rightarrow> (Refused code st, w)
           | Raised err \<Rightarrow> (Raised err, w)
           | Reply a \<Rightarrow> k a d))"

text \<open>The answer 409 needs the time of the row in the way; without one the schema raises.\<close>

definition post_attachment ::
  "uuid \<Rightarrow> string \<Rightarrow> string option \<Rightarrow> attachment_create \<Rightarrow> uuid \<Rightarrow> time \<Rightarrow> world \<Rightarrow> attach_answer reply \<times> world" where
  "post_attachment u ref header b new_id now w =
     with_daemon_agent w u ref header (\<lambda>a d.
       case create_attachment (ag_id a) b d new_id now (live_sessions w) of
         (Inl err, _) \<Rightarrow> (Raised err, w)
       | (Inr (ConflictCrossDaemon e), _) \<Rightarrow>
           (case ls_attached_at e of
              None \<Rightarrow> (Raised ValueError, w)
            | Some t \<Rightarrow>
                (Reply (AttachmentExists (case ls_ipc_session_token e of None \<Rightarrow> '''' | Some x \<Rightarrow> x)
                   (case ls_daemon_id e of None \<Rightarrow> '''' | Some x \<Rightarrow> uuid_str x) t (ls_last_reconciled_at e)), w))
       | (Inr (Created r old), rows) \<Rightarrow> (Reply (Attached r old), w\<lparr>live_sessions := rows\<rparr>))"

definition attachment_at :: "string \<Rightarrow> string \<Rightarrow> uuid \<Rightarrow> live_session \<Rightarrow> bool" where
  "attachment_at agent_id token daemon_id r \<longleftrightarrow> ls_agent_id r = agent_id \<and> ls_ipc_session_token r = Some token
     \<and> ls_daemon_id r = Some daemon_id \<and> ls_detached_at r = None"

definition delete_attachment ::
  "string \<Rightarrow> string \<Rightarrow> uuid \<Rightarrow> time \<Rightarrow> live_session list \<Rightarrow> (py_error + delete_answer) \<times> live_session list" where
  "delete_attachment agent_id token daemon_id now rows =
     (if has_nul token then (Inl DataError, rows)
      else
        (case filter (attachment_at agent_id token daemon_id) rows of
           [] \<Rightarrow> (Inr AlreadyDeleted, rows)
         | [e] \<Rightarrow> (Inr NoContent, update_where (\<lambda>r. ls_id r = ls_id e) (\<lambda>r. r\<lparr>ls_detached_at := Some now\<rparr>) rows)
         | _ \<Rightarrow> (Inl MultipleResultsFound, rows)))"

definition delete_attachment_endpoint ::
  "uuid \<Rightarrow> string \<Rightarrow> string \<Rightarrow> string option \<Rightarrow> time \<Rightarrow> world \<Rightarrow> delete_answer reply \<times> world" where
  "delete_attachment_endpoint u ref token header now w =
     with_daemon_agent w u ref header (\<lambda>a d.
       case delete_attachment (ag_id a) token d now (live_sessions w) of
         (Inl err, _) \<Rightarrow> (Raised err, w)
       | (Inr x, rows) \<Rightarrow> (Reply x, w\<lparr>live_sessions := rows\<rparr>))"

definition entry_matches :: "uuid \<Rightarrow> reconcile_entry \<Rightarrow> live_session \<Rightarrow> bool" where
  "entry_matches daemon_id e r \<longleftrightarrow> ls_daemon_id r = Some daemon_id \<and> ls_label r = rc_label e
     \<and> ls_ipc_session_token r = Some (rc_token e) \<and> ls_detached_at r = None"

definition reconciled_session :: "time \<Rightarrow> reconcile_entry \<Rightarrow> live_session \<Rightarrow> live_session" where
  "reconciled_session now e r = r\<lparr>ls_transport := IpcTransport, ls_last_reconciled_at := Some now, ls_task_name := rc_task_name e\<rparr>"

text \<open>The loop over the reported attachments; \<open>rowcount\<close> is the number of rows the UPDATE matched.\<close>

definition reconcile_one ::
  "uuid \<Rightarrow> time \<Rightarrow> reconcile_entry \<Rightarrow> nat \<times> live_session list \<Rightarrow> py_error + nat \<times> live_session list" where
  "reconcile_one daemon_id now e = (\<lambda>(n, rows).
     if has_nul (rc_task_name e) \<or> has_nul (rc_label e) \<or> has_nul (rc_token e) then Inl DataError
     else Inr (n + length (filter (entry_matches daemon_id e) rows),
               update_where (entry_matches daemon_id e) (reconciled_session now e) rows))"

text \<open>\<open>token NOT IN reported\<close> is not true of a NULL token, unless nothing was reported.\<close>

definition unmentioned :: "uuid \<Rightarrow> string list \<Rightarrow> live_session \<Rightarrow> bool" where
  "unmentioned daemon_id reported r \<longleftrightarrow> ls_daemon_id r = Some daemon_id \<and> ls_transport r = IpcTransport
     \<and> ls_detached_at r = None
     \<and> (reported = [] \<or> (case ls_ipc_session_token r of None \<Rightarrow> False | Some x \<Rightarrow> x \<notin> set reported))"

definition reconcile_attachments ::
  "uuid \<Rightarrow> reconcile_entry list \<Rightarrow> time \<Rightarrow> live_session list \<Rightarrow> py_error + (nat \<times> nat) \<times> live_session list" where
  "reconcile_attachments daemon_id entries now rows =
     (case fold_res (reconcile_one daemon_id now) entries (0, rows) of
        Inl err \<Rightarrow> Inl err
      | Inr (upserted, rows1) \<Rightarrow>
          (let gone = unmentioned daemon_id (map rc_token entries)
           in Inr ((upserted, length (filter gone rows1)), update_where gone (\<lambda>r. r\<lparr>ls_transport := PollTransport\<rparr>) rows1)))"

text \<open>The user \<open>u\<close> of the request is not used: the daemon id is the only scope.\<close>

definition post_reconcile_attachments ::
  "uuid \<Rightarrow> string option \<Rightarrow> uuid \<Rightarrow> reconcile_entry list \<Rightarrow> time \<Rightarrow> world \<Rightarrow> (nat \<times> nat) reply \<times> world" where
  "post_reconcile_attachments u header body_daemon_id entries now w =
     (case parse_daemon_id header of
        Refused code st \<Rightarrow> (Refused code st, w)
      | Raised err \<Rightarrow> (Raised err, w)
      | Reply d \<Rightarrow>
          if d \<noteq> body_daemon_id then (Refused ''daemon_id_mismatch'' 400, w)
          else (case reconcile_attachments d entries now (live_sessions w) of
                  Inl err \<Rightarrow> (Raised err, w)
                | Inr (counts, rows) \<Rightarrow> (Reply counts, w\<lparr>live_sessions := rows\<rparr>)))"

subsection \<open>Routing conventions of payloads\<close>

definition DELIVERY_ROUTE_VALUES :: "string list" where
  "DELIVERY_ROUTE_VALUES = [''live'', ''live_unverified'', ''background_fallback'', ''background_direct'']"

definition is_valid_delivery_route :: "string option \<Rightarrow> bool" where
  "is_valid_delivery_route v \<longleftrightarrow> (case v of None \<Rightarrow> False | Some x \<Rightarrow> x \<in> set DELIVERY_ROUTE_VALUES)"

definition apply_routing_implications :: "json \<Rightarrow> json" where
  "apply_routing_implications payload =
     (case payload of
        JObj kvs \<Rightarrow>
          (if json_get payload ''routing'' \<noteq> Some (JStr ''live'') then payload
           else if json_get payload ''live_fallback_mode'' \<noteq> None then payload
           else JObj (kvs @ [(''live_fallback_mode'', JStr ''none'')]))
      | _ \<Rightarrow> payload)"
subsection \<open>The unique indexes\<close>

lemma session_indexes_iff:
  "session_indexes_ok rows \<longleftrightarrow> distinct (map ls_id rows) \<and> inj_on ls_cue_id (set rows)
     \<and> inj_on (\<lambda>r. (ls_agent_id r, ls_label r)) {r \<in> set rows. session_active r}
     \<and> inj_on ls_agent_id {r \<in> set rows. session_default r}"
proof -
  have "distinct (map ls_id rows) \<Longrightarrow> distinct rows" by (simp add: distinct_map)
  then show ?thesis by (auto simp: session_indexes_ok_def distinct_map)
qed

lemma indexes_keys: "session_indexes_ok rows \<Longrightarrow> distinct (map ls_id rows)"
  by (simp add: session_indexes_ok_def)

text \<open>What \<open>scalar_one_or_none\<close> relies on.\<close>

lemma filter_at_most_one:
  assumes "distinct rows" and "\<And>x y. x \<in> set rows \<Longrightarrow> y \<in> set rows \<Longrightarrow> p x \<Longrightarrow> p y \<Longrightarrow> x = y"
  shows "filter p rows = [] \<or> (\<exists>r. filter p rows = [r])"
proof (cases "filter p rows")
  case (Cons r rs)
  have "distinct (filter p rows)" using assms(1) by simp
  moreover have "x = r" if "x \<in> set rs" for x
    using assms(2) [of x r] that Cons [THEN arg_cong [of _ _ set]] by auto
  ultimately have "rs = []" unfolding Cons by (cases rs) auto
  with Cons show ?thesis by simp
qed simp

lemma session_at_unique:
  assumes "session_indexes_ok rows"
  shows "filter (session_at a l) rows = [] \<or> (\<exists>r. filter (session_at a l) rows = [r])"
  by (rule filter_at_most_one)
    (use assms in \<open>auto simp: session_indexes_iff session_at_def session_active_def inj_on_def distinct_map\<close>)

text \<open>
  An assignment that names no indexed column and attaches no row or default: the contract of every
  UPDATE but the flip of the default.
\<close>

definition session_row_ok :: "live_session \<Rightarrow> bool" where
  "session_row_ok r \<longleftrightarrow> ls_attached_at r \<noteq> None
     \<and> (case ls_ipc_session_token r of None \<Rightarrow> ls_daemon_id r = None | Some x \<Rightarrow> ls_cue_id r = x \<and> ls_daemon_id r \<noteq> None)"

definition sessions_ok :: "live_session list \<Rightarrow> bool" where
  "sessions_ok rows \<longleftrightarrow> session_indexes_ok rows \<and> list_all session_row_ok rows"

locale session_update = keyed_update ls_id upd for upd :: "live_session \<Rightarrow> live_session" +
  assumes upd_columns: "ls_agent_id (upd r) = ls_agent_id r" "ls_label (upd r) = ls_label r" "ls_cue_id (upd r) = ls_cue_id r"
      "ls_ipc_session_token (upd r) = ls_ipc_session_token r" "ls_daemon_id (upd r) = ls_daemon_id r"
      "ls_attached_at (upd r) = ls_attached_at r"
    and upd_active: "session_active (upd r) \<Longrightarrow> session_active r"
begin

lemma rows_kept: "session_row_ok r \<Longrightarrow> session_row_ok (upd r)"
  by (simp add: session_row_ok_def upd_columns split: option.splits)

lemma rows_ok: "list_all session_row_ok rows \<Longrightarrow> list_all session_row_ok (update_where p upd rows)"
  by (induction rows) (simp_all add: rows_kept)

lemma indexes_but_default:
  assumes "session_indexes_ok rows" and "inj_on ls_agent_id {r \<in> set (update_where p upd rows). session_default r}"
  shows "session_indexes_ok (update_where p upd rows)"
proof -
  let ?g = "\<lambda>r. if p r then upd r else r"
  have s: "set (update_where p upd rows) = ?g ` set rows" by (auto simp: update_where_def)
  have col: "ls_cue_id (?g r) = ls_cue_id r" "ls_agent_id (?g r) = ls_agent_id r" "ls_label (?g r) = ls_label r"
    "session_active (?g r) \<Longrightarrow> session_active r" for r by (auto simp: upd_columns dest: upd_active split: if_splits)
  have "inj_on ls_cue_id (?g ` set rows)"
    using assms(1) unfolding session_indexes_iff inj_on_def ball_simps(9) col by blast
  moreover have "inj_on (\<lambda>r. (ls_agent_id r, ls_label r)) {r \<in> ?g ` set rows. session_active r}"
  proof (rule inj_onI, clarify)
    fix x y
    assume x: "x \<in> set rows" "session_active (?g x)" and y: "y \<in> set rows" "session_active (?g y)"
      and e: "ls_agent_id (?g x) = ls_agent_id (?g y)" "ls_label (?g x) = ls_label (?g y)"
    have "x = y"
      using assms(1) x(1) y(1) col(4) [OF x(2)] col(4) [OF y(2)] e [unfolded col]
      by (auto simp: session_indexes_iff inj_on_def)
    then show "?g x = ?g y" by simp
  qed
  ultimately show ?thesis
    using assms unfolding session_indexes_iff by (simp only: s keys_kept)
qed

end

locale session_quiet_update = session_update +
  assumes upd_default: "session_default (upd r) \<Longrightarrow> session_default r"
begin

lemma indexes_kept:
  assumes "session_indexes_ok rows"
  shows "session_indexes_ok (update_where p upd rows)"
proof (rule indexes_but_default [OF assms], rule inj_onI, clarify)
  fix x y
  assume x: "x \<in> set (update_where p upd rows)" "session_default x"
    and y: "y \<in> set (update_where p upd rows)" "session_default y" and e: "ls_agent_id x = ls_agent_id y"
  obtain x' y' where x': "x' \<in> set rows" "x = (if p x' then upd x' else x')"
    and y': "y' \<in> set rows" "y = (if p y' then upd y' else y')" using x(1) y(1) by (auto simp: set_update_where)
  have "session_default x'" "session_default y'" "ls_agent_id x' = ls_agent_id y'"
    using x(2) y(2) x'(2) y'(2) e by (auto simp: upd_columns dest: upd_default split: if_splits)
  then have "x' = y'" using assms x'(1) y'(1) by (auto simp: session_indexes_iff inj_on_def)
  then show "x = y" using x'(2) y'(2) by simp
qed

lemma sessions_kept: "sessions_ok rows \<Longrightarrow> sessions_ok (update_where p upd rows)"
  by (simp add: sessions_ok_def indexes_kept rows_ok)

end

interpretation detach_upd: session_quiet_update "detached_session now" for now
  by unfold_locales (auto simp: detached_session_def session_active_def session_default_def)

interpretation beat_upd: session_quiet_update "beating_session now version" for now version
  by unfold_locales (auto simp: beating_session_def session_active_def session_default_def split: option.splits)

interpretation token_upd: session_quiet_update "\<lambda>r. r\<lparr>ls_session_token := Some x\<rparr>" for x
  by unfold_locales (auto simp: session_active_def session_default_def)

interpretation revoke_upd: session_quiet_update "\<lambda>r. r\<lparr>ls_detached_at := Some now\<rparr>" for now
  by unfold_locales (auto simp: session_active_def session_default_def)

interpretation reconcile_upd: session_quiet_update "reconciled_session now e" for now e
  by unfold_locales (auto simp: reconciled_session_def session_active_def session_default_def)

interpretation downgrade_upd: session_quiet_update "\<lambda>r. r\<lparr>ls_transport := PollTransport\<rparr>"
  by unfold_locales (auto simp: session_active_def session_default_def)

interpretation flip_upd: session_update "flipped_session label" for label
  by unfold_locales (auto simp: flipped_session_def session_active_def)
subsection \<open>The UPDATE that checks its indexes row by row\<close>

text \<open>The table when the statement has reached the rows \<open>ds\<close>.\<close>

abbreviation reached :: "(live_session \<Rightarrow> live_session) \<Rightarrow> live_session list \<Rightarrow> live_session list \<Rightarrow> live_session list" where
  "reached f rows ds \<equiv> update_where (\<lambda>r. r \<in> set ds) f rows"

lemma fold_res_snoc:
  "fold_res g (xs @ [x]) s = (case fold_res g xs s of Inl err \<Rightarrow> Inl err | Inr s' \<Rightarrow> g x s')"
  by (induction xs arbitrary: s) (auto split: sum.split)

context session_update
begin

lemma reach_one:
  assumes "distinct (map ls_id rows)" and "d \<in> set rows" and "d \<notin> set ds"
  shows "update_where (\<lambda>r. ls_id r = ls_id d) upd (reached upd rows ds) = reached upd rows (ds @ [d])"
proof -
  have "ls_id r = ls_id d \<longleftrightarrow> r = d" if "r \<in> set rows" for r
    using assms(1,2) that by (auto simp: distinct_map dest: inj_onD)
  with assms(3) show ?thesis by (auto simp: update_where_def upd_key)
qed

lemma checked_run:
  assumes "distinct (map ls_id rows)" and "set xs \<subseteq> set rows" and "distinct xs" and "session_indexes_ok rows"
  shows "fold_res (update_one_checked upd) xs rows =
    (if \<forall>k \<le> length xs. session_indexes_ok (reached upd rows (take k xs)) then Inr (reached upd rows xs) else Inl IntegrityError)"
  using assms(2,3)
proof (induction xs rule: rev_induct)
  case Nil
  then show ?case using assms(4) by (simp add: update_where_none)
next
  case (snoc d xs)
  have all: "(\<forall>k \<le> length (xs @ [d]). session_indexes_ok (reached upd rows (take k (xs @ [d])))) \<longleftrightarrow>
      (\<forall>k \<le> length xs. session_indexes_ok (reached upd rows (take k xs))) \<and> session_indexes_ok (reached upd rows (xs @ [d]))"
    by (auto simp: le_Suc_eq disj_commute)
  have "update_one_checked upd d (reached upd rows xs) =
      (if session_indexes_ok (reached upd rows (xs @ [d])) then Inr (reached upd rows (xs @ [d])) else Inl IntegrityError)"
    using reach_one [OF assms(1), of d xs] snoc.prems by (simp add: update_one_checked_def Let_def)
  with snoc show ?case unfolding fold_res_snoc all by simp
qed

end

lemma sorted_prefix:
  assumes "sorted (map f xs)" and "x \<in> set (take k xs)" and "y \<in> set (drop k xs)"
  shows "f x \<le> f y"
  using assms by (metis (no_types, lifting) append_take_drop_id image_eqI list.set_map map_append sorted_append)

text \<open>When some row precedes another in the order, the statement is at some moment between them.\<close>

lemma reached_between:
  fixes rank :: "'a \<Rightarrow> nat"
  assumes "x \<in> set xs" and "y \<in> set xs" and "distinct xs" and "inj_on rank (set xs)"
  shows "(\<exists>k \<le> length xs. x \<in> set (take k (sort_key rank xs)) \<and> y \<notin> set (take k (sort_key rank xs))) \<longleftrightarrow> rank x < rank y"
proof -
  let ?ys = "sort_key rank xs"
  have mem: "x \<in> set ?ys" "y \<in> set ?ys" and srt: "sorted (map rank ?ys)" using assms by simp_all
  show ?thesis
  proof
    assume "\<exists>k \<le> length xs. x \<in> set (take k ?ys) \<and> y \<notin> set (take k ?ys)"
    then obtain k where k: "x \<in> set (take k ?ys)" "y \<notin> set (take k ?ys)" by blast
    have "y \<in> set (take k ?ys @ drop k ?ys)" using mem(2) by simp
    with k(2) have "y \<in> set (drop k ?ys)" unfolding set_append by blast
    from sorted_prefix [OF srt k(1) this] have "rank x \<le> rank y" .
    moreover have "rank x \<noteq> rank y" using k assms(1,2,4) by (auto dest: inj_onD)
    ultimately show "rank x < rank y" by simp
  next
    assume lt: "rank x < rank y"
    from mem(1) obtain i where i: "i < length ?ys" "?ys ! i = x" unfolding in_set_conv_nth by blast
    have "x \<in> set (take (Suc i) ?ys)" using i by (simp add: take_Suc_conv_app_nth)
    moreover have "y \<notin> set (take (Suc i) ?ys)"
    proof
      assume "y \<in> set (take (Suc i) ?ys)"
      then have "y \<in> set (take i ?ys)" using i lt by (auto simp: take_Suc_conv_app_nth)
      moreover have "x \<in> set (drop i ?ys)" using i by (simp add: Cons_nth_drop_Suc [symmetric])
      ultimately have "rank y \<le> rank x" by (rule sorted_prefix [OF srt])
      with lt show False by simp
    qed
    moreover have "Suc i \<le> length xs" using i(1) by simp
    ultimately show "\<exists>k \<le> length xs. x \<in> set (take k ?ys) \<and> y \<notin> set (take k ?ys)" by blast
  qed
qed
subsection \<open>The flip of the default\<close>

lemma flip_reached_ok:
  assumes "session_indexes_ok rows" and "t \<in> set rows" and "session_at a l t" and "set ds \<subseteq> {r \<in> set rows. session_of a r}"
  shows "session_indexes_ok (reached (flipped_session l) rows ds) \<longleftrightarrow>
    \<not> (t \<in> set ds \<and> (\<exists>d \<in> set rows. session_default d \<and> ls_agent_id d = a \<and> d \<noteq> t \<and> d \<notin> set ds))"
    (is "?ok \<longleftrightarrow> \<not> ?clash")
proof -
  let ?f = "flipped_session l" and ?rows' = "reached (flipped_session l) rows ds"
  have id: "r = r'" if "r \<in> set rows" "r' \<in> set rows" "ls_id r = ls_id r'" for r r'
    using assms(1) that by (auto simp: session_indexes_iff distinct_map dest: inj_onD)
  have fid: "ls_id (?f r) = ls_id r" for r by (simp add: flipped_session_def)
  have hit: "r = t" if "r \<in> set ds" "session_default (?f r)" for r
  proof -
    have "session_at a l r" "r \<in> set rows" using that assms(4) by (auto simp: flipped_session_def session_default_def session_of_def session_at_def)
    with assms(1-3) show ?thesis by (auto simp: session_indexes_iff session_at_def session_active_def inj_on_def)
  qed
  show ?thesis
  proof
    assume ok: ?ok
    show "\<not> ?clash"
    proof
      assume ?clash
      then obtain d where d: "t \<in> set ds" "d \<in> set rows" "session_default d" "ls_agent_id d = a" "d \<noteq> t" "d \<notin> set ds" by blast
      have "?f t \<in> set ?rows'" "d \<in> set ?rows'" using d assms(2) by (auto simp: set_update_where)
      moreover have "session_default (?f t)" "ls_agent_id (?f t) = ls_agent_id d"
        using assms(3) d(4) by (auto simp: flipped_session_def session_default_def session_at_def)
      ultimately have "?f t = d" using ok d(3) by (auto simp: session_indexes_iff inj_on_def)
      then have "ls_id t = ls_id d" using fid [of t] by simp
      with id [OF assms(2) d(2)] d(5) show False by simp
    qed
  next
    assume no: "\<not> ?clash"
    show ?ok
    proof (rule flip_upd.indexes_but_default [OF assms(1)], rule inj_onI, clarify)
      fix x y
      assume "x \<in> set ?rows'" and xd: "session_default x" and "y \<in> set ?rows'" and yd: "session_default y"
        and e: "ls_agent_id x = ls_agent_id y"
      then obtain x' y' where x: "x' \<in> set rows" "x = (if x' \<in> set ds then ?f x' else x')"
        and y: "y' \<in> set rows" "y = (if y' \<in> set ds then ?f y' else y')" by (auto simp: set_update_where)
      have ag: "ls_agent_id x' = ls_agent_id y'" using e x(2) y(2) by (auto simp: flipped_session_def split: if_splits)
      have ta: "ls_agent_id t = a" using assms(3) by (simp add: session_at_def)
      have only: "q' = t" if "p' \<in> set ds" "session_default (?f p')" "q' \<in> set rows" "q' \<notin> set ds" "session_default q'"
        "ls_agent_id p' = ls_agent_id q'" for p' q'
      proof -
        have p: "p' = t" by (rule hit [OF that(1,2)])
        then have "t \<in> set ds" "ls_agent_id q' = a" using that ta by simp_all
        with no that(3-5) show ?thesis by blast
      qed
      have "x' = y'"
      proof (cases "x' \<in> set ds"; cases "y' \<in> set ds")
        assume "x' \<in> set ds" "y' \<in> set ds"
        with x(2) y(2) xd yd hit [of x'] hit [of y'] show ?thesis by simp
      next
        assume m: "x' \<in> set ds" "y' \<notin> set ds"
        then have d: "session_default (?f x')" "session_default y'" using x(2) y(2) xd yd by simp_all
        show ?thesis using only [OF m(1) d(1) y(1) m(2) d(2) ag] hit [OF m(1) d(1)] by simp
      next
        assume m: "x' \<notin> set ds" "y' \<in> set ds"
        then have d: "session_default (?f y')" "session_default x'" using x(2) y(2) xd yd by simp_all
        show ?thesis using only [OF m(2) d(1) x(1) m(1) d(2) ag [symmetric]] hit [OF m(2) d(1)] by simp
      next
        assume m: "x' \<notin> set ds" "y' \<notin> set ds"
        with x y xd yd have "session_default x'" "session_default y'" by simp_all
        with assms(1) ag x(1) y(1) show ?thesis unfolding session_indexes_iff by (elim conjE inj_onD) auto
      qed
      then show "x = y" using x(2) y(2) by simp
    qed
  qed
qed

lemma flip_run:
  assumes "session_indexes_ok rows" and "t \<in> set rows" and "session_at a l t" and "inj rank"
  shows "update_in_order rank (session_of a) (flipped_session l) rows =
    (if \<exists>d \<in> set rows. session_default d \<and> ls_agent_id d = a \<and> d \<noteq> t \<and> rank (ls_id t) < rank (ls_id d)
     then Inl IntegrityError else Inr (update_where (session_of a) (flipped_session l) rows))"
proof -
  let ?f = "flipped_session l" and ?p = "session_of a" and ?rk = "\<lambda>r. rank (ls_id r)"
  let ?own = "filter ?p rows"
  let ?xs = "sort_key ?rk ?own"
  have dist: "distinct (map ls_id rows)" "distinct rows" using assms(1) by (auto simp: session_indexes_iff distinct_map)
  have rk: "inj_on ?rk (set ?own)"
    using dist(1) assms(4) by (auto simp: inj_on_def distinct_map)
  have t: "t \<in> set ?own" using assms(2,3) by (simp add: session_at_def session_of_def)
  have mine: "d \<in> set ?own" if "d \<in> set rows" "session_default d" "ls_agent_id d = a" for d
    using that by (simp add: session_default_def session_of_def)
  have sub: "set (take k ?xs) \<subseteq> {r \<in> set rows. ?p r}" for k by (auto dest: in_set_takeD)
  have between: "(\<exists>k \<le> length ?own. t \<in> set (take k ?xs) \<and> d \<notin> set (take k ?xs)) \<longleftrightarrow> ?rk t < ?rk d"
    if "d \<in> set rows" "session_default d" "ls_agent_id d = a" for d
    using reached_between [OF t mine [OF that] _ rk] dist(2) by simp
  have "(\<forall>k \<le> length ?xs. session_indexes_ok (reached ?f rows (take k ?xs))) \<longleftrightarrow>
      \<not> (\<exists>d \<in> set rows. session_default d \<and> ls_agent_id d = a \<and> d \<noteq> t \<and> ?rk t < ?rk d)"
    unfolding flip_reached_ok [OF assms(1-3) sub] using between by (simp del: set_sort) blast
  moreover have "fold_res (update_one_checked ?f) ?xs rows =
    (if \<forall>k \<le> length ?xs. session_indexes_ok (reached ?f rows (take k ?xs)) then Inr (reached ?f rows ?xs) else Inl IntegrityError)"
    by (rule flip_upd.checked_run [OF dist(1) _ _ assms(1)]) (use dist(2) in auto)
  moreover have "reached ?f rows ?xs = update_where ?p ?f rows" by (auto simp: update_where_def)
  ultimately show ?thesis unfolding update_in_order_def by simp
qed
subsection \<open>What the requests write\<close>

text \<open>
  A write on behalf of one agent: only the table of sessions changes, its invariant is kept, and so is
  every row of another agent.
\<close>

definition agent_rows_write :: "string \<Rightarrow> live_session list \<Rightarrow> live_session list \<Rightarrow> bool" where
  "agent_rows_write a rows rows' \<longleftrightarrow> (sessions_ok rows \<longrightarrow>
     sessions_ok rows' \<and> (\<forall>r \<in> set rows. ls_agent_id r \<noteq> a \<longrightarrow> r \<in> set rows'))"

lemma agent_rows_same [simp]: "agent_rows_write a rows rows"
  by (simp add: agent_rows_write_def)

lemma agent_rows_trans: "agent_rows_write a r1 r2 \<Longrightarrow> agent_rows_write a r2 r3 \<Longrightarrow> agent_rows_write a r1 r3"
  by (auto simp: agent_rows_write_def)

lemma agent_rows_insert:
  "insert_session r rows = Inr rows' \<Longrightarrow> session_row_ok r \<Longrightarrow> agent_rows_write a rows rows'"
  by (auto simp: insert_session_def agent_rows_write_def sessions_ok_def split: if_splits)

context session_quiet_update
begin

lemma agent_rows_update: "(\<And>r. p r \<Longrightarrow> ls_agent_id r = a) \<Longrightarrow> agent_rows_write a rows (update_where p upd rows)"
  by (auto simp: agent_rows_write_def sessions_kept set_update_where)

lemma update_id_row:
  assumes "session_indexes_ok rows" and "e \<in> set rows"
  shows "update_where (\<lambda>r. ls_id r = ls_id e) upd rows = update_where (\<lambda>r. r = e) upd rows"
proof -
  have "ls_id r = ls_id e \<longleftrightarrow> r = e" if "r \<in> set rows" for r
    using assms that by (auto simp: session_indexes_iff distinct_map dest: inj_onD)
  then show ?thesis by (auto simp: update_where_def)
qed

lemma agent_rows_update_id:
  assumes "e \<in> set rows" and "ls_agent_id e = a"
  shows "agent_rows_write a rows (update_where (\<lambda>r. ls_id r = ls_id e) upd rows)"
proof (cases "sessions_ok rows")
  case True
  then show ?thesis
    using agent_rows_update [of "\<lambda>r. r = e" a rows] update_id_row [OF _ assms(1)] assms(2) by (simp add: sessions_ok_def)
qed (simp add: agent_rows_write_def)

lemma update_session_at_write: "agent_rows_write a rows (snd (update_session_at a l args upd rows))"
  using agent_rows_update [of "session_at a l"]
  by (auto simp: update_session_at_def session_at_def split: list.split)

end

context session_quiet_update
begin

lemma write_session_write:
  "\<exists>rows. agent_rows_write a (live_sessions w) rows \<and> snd (write_session a l args upd now w) = w\<lparr>live_sessions := rows\<rparr>"
proof -
  have w: "w\<lparr>live_sessions := live_sessions w\<rparr> = w" by simp
  obtain x rows where u: "update_session_at a l args upd (live_sessions w) = (x, rows)" by force
  then have ok: "agent_rows_write a (live_sessions w) rows" using update_session_at_write [of a "live_sessions w" l args] by simp
  have "snd (write_session a l args upd now w) \<in> {w\<lparr>live_sessions := live_sessions w\<rparr>, w\<lparr>live_sessions := rows\<rparr>}"
    unfolding write_session_def u by (simp split: reply.split option.split)
  with ok show ?thesis by (auto simp del: w intro: agent_rows_same)
qed

end

lemma registered_row_ok: "session_row_ok (registered_session a b i now)"
  by (simp add: registered_session_def session_row_ok_def)

lemma attached_row_ok: "session_row_ok (attached_session a b d df i at now)"
  by (simp add: attached_session_def session_row_ok_def)

lemma flip_default_write:
  assumes "flip_default rank a l flip rows = Reply rows'"
  shows "agent_rows_write a rows rows'"
proof (cases "flip = Some True")
  case False
  then show ?thesis using assms by (simp add: flip_default_def)
next
  case True
  let ?xs = "sort_key (\<lambda>r. rank (ls_id r)) (filter (session_of a) rows)"
  from True assms have run: "fold_res (update_one_checked (flipped_session l)) ?xs rows = Inr rows'"
    by (auto simp: flip_default_def update_in_order_def split: if_splits sum.splits)
  show ?thesis
    unfolding agent_rows_write_def
  proof (rule impI)
    assume "sessions_ok rows"
    then have ok: "session_indexes_ok rows" and rows: "list_all session_row_ok rows" by (simp_all add: sessions_ok_def)
    have "rows' = reached (flipped_session l) rows ?xs" "session_indexes_ok (reached (flipped_session l) rows (take (length ?xs) ?xs))"
      using run flip_upd.checked_run [OF indexes_keys [OF ok], of ?xs l] ok indexes_keys [OF ok]
      by (auto simp: distinct_map split: if_splits)
    then show "sessions_ok rows' \<and> (\<forall>r \<in> set rows. ls_agent_id r \<noteq> a \<longrightarrow> r \<in> set rows')"
      using rows by (auto simp: sessions_ok_def flip_upd.rows_ok set_update_where session_of_def)
  qed
qed
definition session_write :: "uuid \<Rightarrow> world \<Rightarrow> world \<Rightarrow> bool" where
  "session_write u w w' \<longleftrightarrow>
     (\<exists>a rows. a \<in> set (agents w) \<and> ag_user_id a = u \<and> agent_rows_write (ag_id a) (live_sessions w) rows
        \<and> w' = w\<lparr>live_sessions := rows\<rparr>) \<or> w' = w"

lemma with_owned_agent_write:
  assumes "\<And>a. a \<in> set (agents w) \<Longrightarrow> ag_user_id a = u
     \<Longrightarrow> \<exists>rows. agent_rows_write (ag_id a) (live_sessions w) rows \<and> snd (k a) = w\<lparr>live_sessions := rows\<rparr>"
  shows "session_write u w (snd (with_owned_agent w u ref k))"
  using assms unfolding session_write_def with_owned_agent_def get_owned_agent_def resolve_address_def
  by (auto split: reply.split if_splits dest!: find_agent_SomeD)

lemma with_daemon_agent_write:
  assumes "\<And>a d. a \<in> set (agents w) \<Longrightarrow> ag_user_id a = u
     \<Longrightarrow> \<exists>rows. agent_rows_write (ag_id a) (live_sessions w) rows \<and> snd (k a d) = w\<lparr>live_sessions := rows\<rparr>"
  shows "session_write u w (snd (with_daemon_agent w u ref header k))"
proof (cases "\<exists>d a. parse_daemon_id header = Reply d \<and> resolve_agent_ref w ref u = Reply a")
  case True
  then obtain d a where r: "parse_daemon_id header = Reply d" "resolve_agent_ref w ref u = Reply a" by blast
  then have "a \<in> set (agents w)" "ag_user_id a = u"
    by (auto simp: resolve_agent_ref_def dest: find_SomeD split: if_splits option.splits)
  with assms r show ?thesis by (fastforce simp: session_write_def with_daemon_agent_def)
qed (auto simp: session_write_def with_daemon_agent_def split: reply.split)

lemma same_rows: "\<exists>rows. agent_rows_write a (live_sessions w) rows \<and> w = w\<lparr>live_sessions := rows\<rparr>"
  by (rule exI [of _ "live_sessions w"]) simp

lemma wrote_rows:
  "agent_rows_write a (live_sessions w) v
     \<Longrightarrow> \<exists>rows. agent_rows_write a (live_sessions w) rows \<and> w\<lparr>live_sessions := v\<rparr> = w\<lparr>live_sessions := rows\<rparr>"
  by blast

lemma create_attachment_write: "agent_rows_write a rows (snd (create_attachment a b d i now rows))"
proof -
  let ?at = "case at_attached_at b of None \<Rightarrow> now | Some t \<Rightarrow> t"
  have add: "agent_rows_write a rows (snd (case insert_session (attached_session a b d df i ?at now) rows1 of
      Inl err \<Rightarrow> (Inl err, rows) | Inr rows2 \<Rightarrow> (Inr (Created (attached_session a b d df i ?at now) old), rows2)))"
    if "agent_rows_write a rows rows1" for df old rows1
    using that agent_rows_trans [OF that agent_rows_insert [OF _ attached_row_ok]] by (auto split: sum.split)
  show ?thesis
  proof (cases "\<exists>e. filter (session_at a (at_label b)) rows = [e]")
    case False
    then show ?thesis using add [OF agent_rows_same] by (auto simp: create_attachment_def Let_def split: list.split)
  next
    case True
    then obtain e where e: "filter (session_at a (at_label b)) rows = [e]" by blast
    then have mem: "e \<in> set rows" "ls_agent_id e = a" by (auto simp: session_at_def dest!: arg_cong [of _ _ set])
    have "agent_rows_write a rows (update_where (\<lambda>r. ls_id r = ls_id e) (\<lambda>r. r\<lparr>ls_detached_at := Some ?at\<rparr>) rows)"
      by (rule revoke_upd.agent_rows_update_id [OF mem])
    from add [OF this] e show ?thesis by (auto simp: create_attachment_def Let_def)
  qed
qed
lemma delete_attachment_write: "agent_rows_write a rows (snd (delete_attachment a x d now rows))"
proof (cases "\<exists>e. filter (attachment_at a x d) rows = [e]")
  case True
  then obtain e where e: "filter (attachment_at a x d) rows = [e]" by blast
  then have "e \<in> set rows" "ls_agent_id e = a" by (auto simp: attachment_at_def dest!: arg_cong [of _ _ set])
  from revoke_upd.agent_rows_update_id [OF this] e show ?thesis by (simp add: delete_attachment_def)
qed (auto simp: delete_attachment_def split: list.split)

lemma patch_rows_write:
  assumes "rotate_session_token a l x rows = Reply rows1" and "flip_default rank a l flip rows1 = Reply rows2"
  shows "agent_rows_write a rows rows2"
proof -
  have "agent_rows_write a rows rows1"
  proof (cases x)
    case None
    with assms(1) show ?thesis by (simp add: rotate_session_token_def)
  next
    case (Some y)
    with assms(1) token_upd.update_session_at_write [of a rows l "[y]" y] show ?thesis
      by (auto simp: rotate_session_token_def split: prod.splits reply.splits option.splits)
  qed
  then show ?thesis using flip_default_write [OF assms(2)] by (rule agent_rows_trans)
qed

text \<open>The requests of the user \<open>u\<close>, and the reconciliation, whose user does not matter.\<close>

inductive session_request :: "uuid \<Rightarrow> world \<Rightarrow> world \<Rightarrow> bool" where
  register: "session_request u w (snd (register_live_session u ref b new_id now w))"
| detach: "session_request u w (snd (detach_live_session u ref label now w))"
| patch: "session_request u w (snd (patch_live_session rank u ref label p now w))"
| beat: "session_request u w (snd (heartbeat_live_session u ref label version now w))"
| attach: "session_request u w (snd (post_attachment u ref header c new_id now w))"
| revoke: "session_request u w (snd (delete_attachment_endpoint u ref token header now w))"

inductive session_step :: "world \<Rightarrow> world \<Rightarrow> bool" where
  request: "session_request u w w' \<Longrightarrow> session_step w w'"
| reconcile: "session_step w (snd (post_reconcile_attachments u header d entries now w))"

lemma session_request_write: "session_request u w w' \<Longrightarrow> session_write u w w'"
proof (induction rule: session_request.induct)
  case (register u w ref b new_id now)
  show ?case
    unfolding register_live_session_def
  proof (rule with_owned_agent_write)
    fix a
    let ?r = "registered_session (ag_id a) b new_id now"
    show "\<exists>rows. agent_rows_write (ag_id a) (live_sessions w) rows \<and> snd (let r = ?r in case insert_session r (live_sessions w) of
        Inl err \<Rightarrow> (if err = IntegrityError then Refused ''live_session_conflict'' 409 else Raised err, w)
      | Inr rows \<Rightarrow> (Reply (to_entry now r), w\<lparr>live_sessions := rows\<rparr>)) = w\<lparr>live_sessions := rows\<rparr>"
    proof (cases "insert_session ?r (live_sessions w)")
      case (Inr rows)
      with agent_rows_insert [OF Inr registered_row_ok] show ?thesis by (auto simp: Let_def)
    qed (use same_rows in \<open>auto simp: Let_def\<close>)
  qed
next
  case (detach u w ref label now)
  show ?case
    unfolding detach_live_session_def
    by (rule with_owned_agent_write)
      (rule detach_upd.write_session_write)
next
  case (beat u w ref label version now)
  show ?case
    unfolding heartbeat_live_session_def
    by (rule with_owned_agent_write)
      (rule beat_upd.write_session_write)
next
  case (patch u w rank ref label p now)
  show ?case
    unfolding patch_live_session_def
    by (rule with_owned_agent_write)
      (use same_rows wrote_rows [OF patch_rows_write] in \<open>auto simp: Let_def split: reply.split list.split\<close>)
next
  case (attach u w ref header c new_id now)
  show ?case
    unfolding post_attachment_def
  proof (rule with_daemon_agent_write)
    fix a d
    show "\<exists>rows. agent_rows_write (ag_id a) (live_sessions w) rows \<and>
       snd (case create_attachment (ag_id a) c d new_id now (live_sessions w) of
         (Inl err, _) \<Rightarrow> (Raised err, w)
       | (Inr (ConflictCrossDaemon e), _) \<Rightarrow>
           (case ls_attached_at e of
              None \<Rightarrow> (Raised ValueError, w)
            | Some t \<Rightarrow>
                (Reply (AttachmentExists (case ls_ipc_session_token e of None \<Rightarrow> '''' | Some x \<Rightarrow> x)
                   (case ls_daemon_id e of None \<Rightarrow> '''' | Some x \<Rightarrow> uuid_str x) t (ls_last_reconciled_at e)), w))
       | (Inr (Created r old), rows) \<Rightarrow> (Reply (Attached r old), w\<lparr>live_sessions := rows\<rparr>)) = w\<lparr>live_sessions := rows\<rparr>"
      using create_attachment_write [of "ag_id a" "live_sessions w" c d new_id now] same_rows [of "ag_id a" w]
      by (auto split: prod.split sum.split attach_result.split option.split)
  qed
next
  case (revoke u w ref token header now)
  show ?case
    unfolding delete_attachment_endpoint_def
  proof (rule with_daemon_agent_write)
    fix a d
    show "\<exists>rows. agent_rows_write (ag_id a) (live_sessions w) rows \<and>
       snd (case delete_attachment (ag_id a) token d now (live_sessions w) of (Inl err, _) \<Rightarrow> (Raised err, w)
        | (Inr x, rows) \<Rightarrow> (Reply x, w\<lparr>live_sessions := rows\<rparr>)) = w\<lparr>live_sessions := rows\<rparr>"
      using delete_attachment_write [of "ag_id a" "live_sessions w" token d now] same_rows [of "ag_id a" w]
      by (auto split: prod.split sum.split)
  qed
qed
subsection \<open>The reconciliation in one pass\<close>

definition reconcile_row :: "uuid \<Rightarrow> reconcile_entry list \<Rightarrow> time \<Rightarrow> live_session \<Rightarrow> live_session" where
  "reconcile_row d entries now r =
     (case find (\<lambda>e. entry_matches d e r) (rev entries) of
        Some e \<Rightarrow> reconciled_session now e r
      | None \<Rightarrow> if unmentioned d (map rc_token entries) r then r\<lparr>ls_transport := PollTransport\<rparr> else r)"

definition entry_storable :: "reconcile_entry \<Rightarrow> bool" where
  "entry_storable e \<longleftrightarrow> \<not> has_nul (rc_task_name e) \<and> \<not> has_nul (rc_label e) \<and> \<not> has_nul (rc_token e)"

definition upsert_row :: "uuid \<Rightarrow> reconcile_entry list \<Rightarrow> time \<Rightarrow> live_session \<Rightarrow> live_session" where
  "upsert_row d entries now r =
     (case find (\<lambda>e. entry_matches d e r) (rev entries) of Some e \<Rightarrow> reconciled_session now e r | None \<Rightarrow> r)"

lemma upsert_row_columns: "entry_matches d e (upsert_row d' entries now r) = entry_matches d e r"
  by (simp add: upsert_row_def entry_matches_def reconciled_session_def split: option.split)

lemma reconciled_twice: "reconciled_session now e (reconciled_session now e' r) = reconciled_session now e r"
  by (simp add: reconciled_session_def)

lemma reconcile_loop:
  assumes "list_all entry_storable entries"
  shows "fold_res (reconcile_one d now) entries (n, rows) =
    Inr (n + sum_list (map (\<lambda>e. length (filter (entry_matches d e) rows)) entries), map (upsert_row d entries now) rows)"
  using assms
proof (induction entries rule: rev_induct)
  case Nil
  then show ?case by (simp add: upsert_row_def)
next
  case (snoc e entries)
  have row: "(if entry_matches d e r then reconciled_session now e (upsert_row d entries now r) else upsert_row d entries now r) =
      upsert_row d (entries @ [e]) now r" for r
    by (simp add: upsert_row_def reconciled_twice split: option.split)
  have count: "length (filter (entry_matches d e) (map (upsert_row d entries now) rows)) = length (filter (entry_matches d e) rows)"
    by (simp add: filter_map comp_def upsert_row_columns)
  have ok: "list_all entry_storable entries" "\<not> (has_nul (rc_task_name e) \<or> has_nul (rc_label e) \<or> has_nul (rc_token e))"
    using snoc.prems by simp (use snoc.prems in \<open>simp add: entry_storable_def\<close>)
  show ?case
    unfolding fold_res_snoc snoc.IH [OF ok(1)] sum.case
    using ok(2) by (simp add: reconcile_one_def count update_where_def upsert_row_columns row comp_def)
qed

lemma reconcile_is_one_pass:
  assumes "list_all entry_storable entries"
  shows "reconcile_attachments d entries now rows =
    Inr ((sum_list (map (\<lambda>e. length (filter (entry_matches d e) rows)) entries),
          length (filter (unmentioned d (map rc_token entries)) rows)), map (reconcile_row d entries now) rows)"
proof -
  let ?gone = "unmentioned d (map rc_token entries)" and ?f = "\<lambda>r. r\<lparr>ls_transport := PollTransport\<rparr>"
  have found: "\<not> ?gone (reconciled_session now e r) \<and> \<not> ?gone r" if "find (\<lambda>e. entry_matches d e r) (rev entries) = Some e" for e r
    using find_SomeD [OF that] by (auto simp: unmentioned_def entry_matches_def reconciled_session_def)
  have gone: "?gone (upsert_row d entries now r) = ?gone r" for r
    using found by (auto simp: upsert_row_def split: option.split)
  have row: "(if ?gone r then ?f (upsert_row d entries now r) else upsert_row d entries now r) = reconcile_row d entries now r" for r
    using found by (auto simp: upsert_row_def reconcile_row_def split: option.split)
  show ?thesis
    by (simp add: reconcile_attachments_def reconcile_loop [OF assms] Let_def filter_map comp_def gone row update_where_def)
qed

lemma reconcile_row_other: "ls_daemon_id r \<noteq> Some d \<or> ls_detached_at r \<noteq> None \<Longrightarrow> reconcile_row d entries now r = r"
  by (auto simp: reconcile_row_def unmentioned_def entry_matches_def find_None_iff split: option.split dest: find_SomeD)

lemma reconcile_loop_ok:
  assumes "fold_res (reconcile_one d now) entries (n, rows) = Inr (n', rows')" and "sessions_ok rows"
  shows "sessions_ok rows'"
proof -
  have "sessions_ok (snd (n', rows'))"
    by (rule fold_res_invariant [OF assms(1)])
      (use assms(2) in \<open>auto simp: reconcile_one_def reconcile_upd.sessions_kept split: if_splits\<close>)
  then show ?thesis by simp
qed

lemma session_step_write:
  assumes "session_step w w'"
  shows "\<exists>rows. w' = w\<lparr>live_sessions := rows\<rparr> \<and> (sessions_ok (live_sessions w) \<longrightarrow> sessions_ok rows)"
  using assms
proof (cases rule: session_step.cases)
  case (request u)
  then show ?thesis
    using session_request_write [of u w w'] by (auto simp: session_write_def agent_rows_write_def intro: exI [of _ "live_sessions w"])
next
  case (reconcile u header d entries now)
  have same: "\<exists>rows. w = w\<lparr>live_sessions := rows\<rparr> \<and> (sessions_ok (live_sessions w) \<longrightarrow> sessions_ok rows)"
    by (intro exI [of _ "live_sessions w"]) simp
  show ?thesis
  proof (cases "\<exists>n rows. parse_daemon_id header = Reply d \<and> fold_res (reconcile_one d now) entries (0, live_sessions w) = Inr (n, rows)")
    case True
    then obtain n rows where run: "parse_daemon_id header = Reply d"
      "fold_res (reconcile_one d now) entries (0, live_sessions w) = Inr (n, rows)" by blast
    then have "w' = w\<lparr>live_sessions := update_where (unmentioned d (map rc_token entries)) (\<lambda>r. r\<lparr>ls_transport := PollTransport\<rparr>) rows\<rparr>"
      by (simp add: reconcile post_reconcile_attachments_def reconcile_attachments_def Let_def)
    then show ?thesis using reconcile_loop_ok [OF run(2)] downgrade_upd.sessions_kept by blast
  next
    case False
    then have "snd (post_reconcile_attachments u header d entries now w) = w"
      by (cases "fold_res (reconcile_one d now) entries (0, live_sessions w)")
        (auto simp: post_reconcile_attachments_def reconcile_attachments_def split: reply.split)
    with same show ?thesis unfolding reconcile by simp
  qed
qed
subsection \<open>Daemon ids survive printing\<close>

lemma hex_char_code: "d < 16 \<Longrightarrow> code_of (hex_char d) = (if d < 10 then 48 + d else 87 + d)"
  by (simp add: hex_char_def of_char_of take_bit_eq_mod)

lemma hex_val_char: "d < 16 \<Longrightarrow> hex_val (hex_char d) = Some d"
  by (auto simp: hex_val_def hex_char_code Let_def)

lemma length_hex_pad [simp]: "length (hex_pad k n) = k"
  by (induction k arbitrary: n) auto

lemma hex_pad_digit: "c \<in> set (hex_pad k n) \<Longrightarrow> \<exists>d < 16. c = hex_char d"
  by (induction k arbitrary: n) (auto, metis mod_less_divisor zero_less_numeral)

lemma hex_digits_append:
  assumes "\<And>c. c \<in> set xs \<Longrightarrow> \<exists>d < 16. c = hex_char d"
  shows "hex_digits acc (xs @ ys) = (case hex_digits acc xs of None \<Rightarrow> None | Some v \<Rightarrow> hex_digits v ys)"
  using assms
proof (induction xs arbitrary: acc)
  case (Cons c cs)
  then obtain d where "d < 16" "c = hex_char d" by auto
  with Cons show ?case by (simp add: hex_val_char)
qed simp

lemma hex_digits_pad: "hex_digits acc (hex_pad k n) = Some (acc * 16 ^ k + n mod 16 ^ k)"
proof (induction k arbitrary: n)
  case (Suc k)
  have "n mod 16 ^ Suc k = 16 * (n div 16 mod 16 ^ k) + n mod 16"
    by (simp add: mod_mult2_eq)
  then show ?case
    using Suc by (simp add: hex_digits_append [OF hex_pad_digit] hex_val_char algebra_simps)
qed simp

text \<open>Characters of a printed id: hexadecimal digits and hyphens.\<close>

lemma uuid_str_chars:
  assumes "c \<in> set (uuid_str n)"
  shows "c = CHR ''-'' \<or> (\<exists>d < 16. c = hex_char d)"
  using assms by (auto simp: uuid_str_def Let_def dest!: in_set_takeD in_set_dropD hex_pad_digit)

lemma uuid_str_codes: "c \<in> set (uuid_str n) \<Longrightarrow> code_of c = 45 \<or> (48 \<le> code_of c \<and> code_of c \<le> 57) \<or> (97 \<le> code_of c \<and> code_of c \<le> 102)"
  by (auto dest!: uuid_str_chars simp: hex_char_code split: if_splits)

lemma filter_uuid_str: "filter (\<lambda>c. c \<noteq> CHR ''-'') (uuid_str n) = hex_pad 32 n"
proof -
  have "c \<noteq> CHR ''-''" if "c \<in> set (hex_pad 32 n)" for c
  proof
    assume "c = CHR ''-''"
    then have "code_of c = 45" by simp
    with hex_pad_digit [OF that] show False by (auto simp: hex_char_code split: if_splits)
  qed
  then have "filter (\<lambda>c. c \<noteq> CHR ''-'') xs = xs" if "set xs \<subseteq> set (hex_pad 32 n)" for xs
    using that by (auto simp: filter_id_conv)
  note keep = this
  let ?h = "hex_pad 32 n"
  have sub: "set (take i (drop j ?h)) \<subseteq> set ?h" "set (drop j ?h) \<subseteq> set ?h" "set (take i ?h) \<subseteq> set ?h" for i j
    by (auto dest: in_set_takeD in_set_dropD)
  have joined: "take 8 ?h @ take 4 (drop 8 ?h) @ take 4 (drop 12 ?h) @ take 4 (drop 16 ?h) @ drop 20 ?h = ?h"
    using append_take_drop_id [of 8 ?h] append_take_drop_id [of 4 "drop 8 ?h"] append_take_drop_id [of 4 "drop 12 ?h"]
      append_take_drop_id [of 4 "drop 16 ?h"] by (simp del: append_take_drop_id hex_pad.simps)
  show ?thesis
    by (simp add: uuid_str_def Let_def keep [OF sub(1)] keep [OF sub(2)] keep [OF sub(3)] joined del: hex_pad.simps)
qed

lemma remove_all_sub_absent: "p \<noteq> [] \<Longrightarrow> hd p \<notin> set s \<Longrightarrow> remove_all_sub p s = s"
  by (induction s) (auto simp: starts_with_def neq_Nil_conv)
lemma starts_with_chars: "starts_with p s \<Longrightarrow> set p \<subseteq> set s"
  unfolding starts_with_def by (metis set_take_subset)

lemma py_uuid_str:
  assumes "n < 2 ^ 128"
  shows "py_uuid (uuid_str n) = Some n"
proof -
  let ?s = "uuid_str n" and ?h = "hex_pad 32 n"
  have code: "code_of c \<noteq> k" if "c \<in> set ?s" "k = 117 \<or> k = 123 \<or> k = 125" for c k
    using uuid_str_codes [OF that(1)] that(2) by auto
  have u: "CHR ''u'' \<notin> set ?s" using code [of "CHR ''u''" 117] by auto
  have br: "c \<notin> {CHR ''{'', CHR ''}''}" if "c \<in> set ?s" for c using code [OF that, of 123] code [OF that, of 125] by auto
  have "dropWhile (\<lambda>c. c \<in> {CHR ''{'', CHR ''}''}) xs = xs" if "set xs \<subseteq> set ?s" for xs
    using that br by (cases xs) auto
  then have strip_id: "strip_braces ?s = ?s" unfolding strip_braces_def Let_def by simp
  have hx: "\<exists>d < 16. c = hex_char d" if "c \<in> set ?h" for c using hex_pad_digit [OF that] .
  have hcode: "(48 \<le> code_of c \<and> code_of c \<le> 57) \<or> (97 \<le> code_of c \<and> code_of c \<le> 102)" if "c \<in> set ?h" for c
    using hx [OF that] by (auto simp: hex_char_code split: if_splits)
  have ne: "?h \<noteq> []" using length_hex_pad [of 32 n] by (metis list.size(3) zero_neq_numeral)
  have nospace: "\<not> is_space c" if "c \<in> set ?h" for c using hcode [OF that] by (auto simp: is_space_def)
  have st: "strip ?h = ?h" by (rule strip_no_space) (use ne nospace in auto)
  have plus: "\<not> starts_with ''+'' ?h"
    using hcode [of "hd ?h"] ne by (cases ?h) (auto simp: starts_with_def)
  have nox: "\<not> starts_with ''0x'' ?h" "\<not> starts_with ''0X'' ?h"
    using hcode [of "CHR ''x''"] hcode [of "CHR ''X''"] starts_with_chars [of _ ?h] by fastforce+
  obtain c cs where h: "?h = c # cs" using ne by (cases ?h) auto
  then have "hex_val c \<noteq> None" using hx [of c] by (auto simp: hex_val_char)
  moreover have "hex_digits 0 ?h = Some n" using assms by (simp add: hex_digits_pad power_mult [symmetric] del: hex_pad.simps)
  ultimately have "hex_unsigned ?h = Some n" using nox h by (simp add: hex_unsigned_def Let_def)
  then have "py_int16 ?h = Some n" by (simp add: py_int16_def st plus Let_def)
  then show ?thesis
    using u by (simp add: py_uuid_def Let_def remove_all_sub_absent strip_id filter_uuid_str del: hex_pad.simps)
qed
subsection \<open>Properties\<close>

lemma session_at_single:
  assumes "session_indexes_ok rows" and "e \<in> set rows" and "session_at a l e"
  shows "filter (session_at a l) rows = [e]"
proof -
  have "e \<in> set (filter (session_at a l) rows)" using assms(2,3) by simp
  with session_at_unique [OF assms(1), of a l] show ?thesis by (auto simp del: set_filter)
qed

lemma default_after_flip:
  assumes "session_indexes_ok rows" and "t \<in> set rows" and "session_at a l t"
  shows "filter (\<lambda>r. session_default r \<and> ls_agent_id r = a) (update_where (session_of a) (flipped_session l) rows) =
    [flipped_session l t]"
proof -
  have "(session_default (if session_of a r then flipped_session l r else r)
        \<and> ls_agent_id (if session_of a r then flipped_session l r else r) = a) = session_at a l r" for r
    by (auto simp: session_of_def session_at_def flipped_session_def session_default_def)
  then have "filter (\<lambda>r. session_default r \<and> ls_agent_id r = a) (update_where (session_of a) (flipped_session l) rows) =
      map (\<lambda>r. if session_of a r then flipped_session l r else r) (filter (session_at a l) rows)"
    by (simp add: update_where_def filter_map comp_def)
  moreover have "session_of a t" using assms(3) by (simp add: session_at_def session_of_def)
  ultimately show ?thesis using session_at_single [OF assms] by simp
qed

lemma at_after_flip:
  assumes "session_indexes_ok rows" and "t \<in> set rows" and "session_at a l t"
  shows "filter (session_at a l) (update_where (session_of a) (flipped_session l) rows) = [flipped_session l t]"
proof -
  have "session_at a l (if session_of a r then flipped_session l r else r) = session_at a l r" for r
    by (simp add: session_at_def flipped_session_def)
  then show ?thesis
    using session_at_single [OF assms] assms(3)
    by (simp add: update_where_def filter_map comp_def) (simp add: session_at_def session_of_def)
qed

text \<open>
  PATCH with \<open>is_default=true\<close> on the label of an active session: when the statement meets that
  session before another session that is still the default, the non-deferrable unique index makes
  it raise and nothing changes; in every other case the session is the agent's only default
  afterwards and the other columns and all other agents' sessions are as they were.
\<close>

theorem default_flip_outcome:
  assumes "sessions_ok (live_sessions w)" and "get_owned_agent w u ref = Reply a" and "inj rank" and "\<not> has_nul label"
    and "t \<in> set (live_sessions w)" and "session_at (ag_id a) label t"
  shows "let rows = live_sessions w;
             rows' = update_where (session_of (ag_id a)) (flipped_session label) rows;
             r = patch_live_session rank u ref label \<lparr>pt_is_default = Some True, pt_session_token = None\<rparr> now w
         in if \<exists>d \<in> set rows. session_default d \<and> ls_agent_id d = ag_id a \<and> d \<noteq> t \<and> rank (ls_id t) < rank (ls_id d)
            then r = (Raised IntegrityError, w)
            else r = (Reply (to_entry now (flipped_session label t)), w\<lparr>live_sessions := rows'\<rparr>)
              \<and> filter (\<lambda>x. session_default x \<and> ls_agent_id x = ag_id a) rows' = [flipped_session label t]"
proof -
  have ok: "session_indexes_ok (live_sessions w)" using assms(1) by (simp add: sessions_ok_def)
  have hit: "list_ex (\<lambda>r. session_of (ag_id a) r \<and> ls_label r = label) (live_sessions w)"
    using assms(5,6) by (auto simp: list_ex_iff session_of_def session_at_def)
  show ?thesis
    unfolding patch_live_session_def with_owned_agent_def assms(2)
    by (auto simp: rotate_session_token_def flip_default_def assms(4) flip_run [OF ok assms(5,6,3)] hit Let_def
        at_after_flip [OF ok assms(5,6)] default_after_flip [OF ok assms(5,6)])
qed

lemma partial_index_snoc:
  "distinct (map k (filter P (xs @ [x]))) \<longleftrightarrow>
     distinct (map k (filter P xs)) \<and> (P x \<longrightarrow> (\<forall>y \<in> set xs. P y \<longrightarrow> k y \<noteq> k x))"
  by (force simp: image_iff)

lemma session_indexes_snoc:
  "session_indexes_ok (rows @ [r]) \<longleftrightarrow> session_indexes_ok rows \<and> ls_id r \<notin> ls_id ` set rows \<and> ls_cue_id r \<notin> ls_cue_id ` set rows
     \<and> (session_active r \<longrightarrow> (\<forall>x \<in> set rows. session_active x \<longrightarrow> \<not> (ls_agent_id x = ls_agent_id r \<and> ls_label x = ls_label r)))
     \<and> (session_default r \<longrightarrow> (\<forall>x \<in> set rows. session_default x \<longrightarrow> ls_agent_id x \<noteq> ls_agent_id r))"
proof -
  have key: "distinct (map k (rows @ [r])) \<longleftrightarrow> distinct (map k rows) \<and> k r \<notin> k ` set rows" for k :: "live_session \<Rightarrow> 'k"
    by simp
  show ?thesis unfolding session_indexes_ok_def partial_index_snoc key prod.inject by blast
qed

lemma supersede_indexes:
  assumes "session_indexes_ok rows" and "e \<in> set rows" and "session_at a l e"
    and "ls_agent_id r = a" and "ls_label r = l" and "ls_is_default r = ls_is_default e"
    and "ls_id r \<notin> ls_id ` set rows" and "ls_cue_id r \<notin> ls_cue_id ` set rows"
  shows "session_indexes_ok (update_where (\<lambda>x. x = e) (\<lambda>x. x\<lparr>ls_detached_at := Some now\<rparr>) rows @ [r])"
proof -
  let ?f = "\<lambda>x. x\<lparr>ls_detached_at := Some now\<rparr>" and ?g = "\<lambda>x. if x = e then x\<lparr>ls_detached_at := Some now\<rparr> else x"
  let ?rows = "update_where (\<lambda>x. x = e) ?f rows"
  have ok: "session_indexes_ok ?rows" by (rule revoke_upd.indexes_kept [OF assms(1)])
  have keys: "ls_id ` set ?rows = ls_id ` set rows" "ls_cue_id ` set ?rows = ls_cue_id ` set rows"
    unfolding set_map [symmetric] by (simp_all add: map_update_where)
  have active: "x \<in> set rows \<and> x \<noteq> e \<and> session_active x" if m: "x \<in> set ?rows" and v: "session_active x" for x
  proof -
    obtain y where y: "y \<in> set rows" "x = ?g y" using m by (auto simp: set_update_where)
    have "y \<noteq> e" using v y(2) by (auto simp: session_active_def)
    with y v show ?thesis by simp
  qed
  have label: "\<not> (ls_agent_id x = a \<and> ls_label x = l)" if "x \<in> set ?rows" "session_active x" for x
    using active [OF that] assms(1-3) by (auto simp: session_indexes_iff session_at_def session_active_def inj_on_def)
  have dflt: "ls_agent_id x \<noteq> a" if "x \<in> set ?rows" "session_default x" "session_default r" for x
  proof
    assume "ls_agent_id x = a"
    moreover have "session_active x" using that(2) by (simp add: session_default_def session_active_def)
    moreover have "session_default e" using that(3) assms(3,6) by (simp add: session_default_def session_at_def)
    ultimately show False
      using active [OF that(1)] that(2) assms(1-3) by (auto simp: session_indexes_iff session_at_def inj_on_def)
  qed
  show ?thesis unfolding session_indexes_snoc assms(4,5) keys using ok label dflt assms(7,8) by blast
qed
text \<open>
  Attaching under a label that has an active session \<open>e\<close>: another daemon's session is reported and
  left alone, whoever asks; the daemon's own session is detached and replaced by a row with the new
  token that keeps its default flag, and the answer names the token it supersedes. The only failures
  are values the table does not store and a row id or token that was used before: the indexes on
  labels and defaults never get in the way.
\<close>

theorem reattach_supersedes:
  assumes "sessions_ok (live_sessions w)" and "parse_daemon_id header = Reply d" and "resolve_agent_ref w ref u = Reply a"
    and "e \<in> set (live_sessions w)" and "session_at (ag_id a) (at_label b) e"
  shows "post_attachment u ref header b new_id now w =
    (let rows = live_sessions w;
         at = (case at_attached_at b of None \<Rightarrow> now | Some t \<Rightarrow> t);
         r = attached_session (ag_id a) b d (ls_is_default e) new_id at now
     in if ls_daemon_id e \<noteq> Some d
        then (Reply (AttachmentExists (case ls_ipc_session_token e of None \<Rightarrow> '''' | Some x \<Rightarrow> x)
                (case ls_daemon_id e of None \<Rightarrow> '''' | Some x \<Rightarrow> uuid_str x) (the (ls_attached_at e)) (ls_last_reconciled_at e)), w)
        else if \<not> session_storable r then (Raised DataError, w)
        else if new_id \<in> ls_id ` set rows \<or> at_token b \<in> ls_cue_id ` set rows then (Raised IntegrityError, w)
        else (Reply (Attached r (ls_ipc_session_token e)),
              w\<lparr>live_sessions := update_where (\<lambda>x. x = e) (\<lambda>x. x\<lparr>ls_detached_at := Some at\<rparr>) rows @ [r]\<rparr>))"
proof -
  let ?rows = "live_sessions w" and ?at = "case at_attached_at b of None \<Rightarrow> now | Some t \<Rightarrow> t"
  let ?r = "attached_session (ag_id a) b d (ls_is_default e) new_id ?at now"
  let ?old = "update_where (\<lambda>x. x = e) (\<lambda>x. x\<lparr>ls_detached_at := Some ?at\<rparr>) ?rows"
  have ok: "session_indexes_ok ?rows" and at: "ls_attached_at e \<noteq> None"
    using assms(1,4) by (auto simp: sessions_ok_def list_all_iff session_row_ok_def)
  note one = session_at_single [OF ok assms(4,5)] and upd = revoke_upd.update_id_row [OF ok assms(4)]
  have keys: "ls_id ` set ?old = ls_id ` set ?rows" "ls_cue_id ` set ?old = ls_cue_id ` set ?rows"
    unfolding set_map [symmetric] by (simp_all add: map_update_where)
  have r: "ls_agent_id ?r = ag_id a" "ls_label ?r = at_label b" "ls_is_default ?r = ls_is_default e" "ls_id ?r = new_id"
    "ls_cue_id ?r = at_token b" by (simp_all add: attached_session_def)
  have idx: "session_indexes_ok (?old @ [?r]) \<longleftrightarrow> \<not> (new_id \<in> ls_id ` set ?rows \<or> at_token b \<in> ls_cue_id ` set ?rows)"
    using supersede_indexes [OF ok assms(4,5) r(1-3), of ?at] session_indexes_snoc [of ?old ?r] unfolding keys r by blast
  show ?thesis
    unfolding post_attachment_def with_daemon_agent_def assms(2,3) reply.case create_attachment_def Let_def one list.case upd
      insert_session_def idx
    using at by (auto split: option.split)
qed

text \<open>
  Deleting an attachment: 204 exactly when the agent has an active session with this token and
  daemon, which is then detached; sending the request again answers \<open>already_deleted\<close> and changes
  nothing. A token never matches two sessions.
\<close>

theorem attachment_delete_idempotent:
  assumes "sessions_ok (live_sessions w)" and "parse_daemon_id header = Reply d" and "resolve_agent_ref w ref u = Reply a"
    and "\<not> has_nul token"
  shows "let (r, w1) = delete_attachment_endpoint u ref token header now w
         in r = Reply (if list_ex (attachment_at (ag_id a) token d) (live_sessions w) then NoContent else AlreadyDeleted)
            \<and> live_sessions w1 = update_where (attachment_at (ag_id a) token d) (\<lambda>x. x\<lparr>ls_detached_at := Some now\<rparr>) (live_sessions w)
            \<and> delete_attachment_endpoint u ref token header later w1 = (Reply AlreadyDeleted, w1)"
proof -
  let ?p = "attachment_at (ag_id a) token d" and ?f = "\<lambda>x. x\<lparr>ls_detached_at := Some now\<rparr>" and ?rows = "live_sessions w"
  have ok: "session_indexes_ok ?rows" using assms(1) by (simp add: sessions_ok_def)
  have same: "x = y" if "x \<in> set ?rows" "y \<in> set ?rows" "?p x" "?p y" for x y
  proof -
    have "session_row_ok x" "session_row_ok y" using assms(1) that(1,2) by (auto simp: sessions_ok_def list_all_iff)
    then have "ls_cue_id x = ls_cue_id y" using that(3,4) by (simp add: attachment_at_def session_row_ok_def)
    with ok that(1,2) show ?thesis by (auto simp: session_indexes_iff dest: inj_onD)
  qed
  have dist: "distinct ?rows" using indexes_keys [OF ok] by (simp add: distinct_map)
  have "\<not> ?p (if ?p x then ?f x else x)" for x by (cases "?p x") (auto simp: attachment_at_def)
  then have gone: "filter ?p (update_where ?p ?f ?rows) = []"
    unfolding filter_empty_conv set_update_where by blast
  have res: "resolve_agent_ref (w\<lparr>live_sessions := x\<rparr>) ref u = Reply a" for x
    by (subst assms(3) [symmetric]) (simp add: resolve_agent_ref_def)
  show ?thesis
  proof (cases "filter ?p ?rows")
    case Nil
    then have none: "\<not> list_ex ?p ?rows" "update_where ?p ?f ?rows = ?rows"
      by (auto simp: filter_empty_conv list_ex_iff intro: update_where_none)
    have "delete_attachment_endpoint u ref token header t w = (Reply AlreadyDeleted, w)" for t
      by (simp add: delete_attachment_endpoint_def with_daemon_agent_def assms(2-4) delete_attachment_def Nil)
    then show ?thesis using none by simp
  next
    case (Cons e es)
    then have e: "e \<in> set ?rows" "?p e" by (auto dest!: arg_cong [of _ _ set])
    have one: "filter ?p ?rows = [e]" using filter_at_most_one [of ?rows ?p, OF dist same] Cons by auto
    have "x = e \<longleftrightarrow> ?p x" if "x \<in> set ?rows" for x using same [OF that e(1) _ e(2)] e(2) by blast
    then have upd: "update_where (\<lambda>x. ls_id x = ls_id e) ?f ?rows = update_where ?p ?f ?rows"
      unfolding revoke_upd.update_id_row [OF ok e(1)] by (simp add: update_where_def cong: map_cong)
    have first: "delete_attachment_endpoint u ref token header now w =
        (Reply NoContent, w\<lparr>live_sessions := update_where ?p ?f ?rows\<rparr>)"
      by (simp add: delete_attachment_endpoint_def with_daemon_agent_def assms(2-4) delete_attachment_def one upd)
    moreover have "delete_attachment_endpoint u ref token header later (w\<lparr>live_sessions := update_where ?p ?f ?rows\<rparr>) =
        (Reply AlreadyDeleted, w\<lparr>live_sessions := update_where ?p ?f ?rows\<rparr>)"
      by (simp add: delete_attachment_endpoint_def with_daemon_agent_def assms(2,4) res delete_attachment_def gone)
    moreover have "list_ex ?p ?rows" using e by (auto simp: list_ex_iff)
    ultimately show ?thesis by simp
  qed
qed
text \<open>
  A reconciliation is one pass over the table: an active session of the daemon that is reported under
  its label and token becomes an \<open>ipc\<close> session with the task name of the last such report, one whose
  token is not reported at all goes down to polling, and every other row, in particular every row of
  another daemon, stays as it is. The counts in the answer are the rows updated and the rows downgraded.
\<close>

theorem reconcile_one_pass:
  assumes "parse_daemon_id header = Reply d" and "list_all entry_storable entries"
  shows "post_reconcile_attachments u header d entries now w =
      (Reply (sum_list (map (\<lambda>e. length (filter (entry_matches d e) (live_sessions w))) entries),
              length (filter (unmentioned d (map rc_token entries)) (live_sessions w))),
       w\<lparr>live_sessions := map (reconcile_row d entries now) (live_sessions w)\<rparr>)
    \<and> (\<forall>r. ls_daemon_id r \<noteq> Some d \<longrightarrow> reconcile_row d entries now r = r)"
  by (simp add: post_reconcile_attachments_def assms(1) reconcile_is_one_pass [OF assms(2)] reconcile_row_other)

lemma parse_uuid_str:
  assumes "d < 2 ^ 128"
  shows "parse_daemon_id (Some (uuid_str d)) = Reply d"
proof -
  have "length (uuid_str d) \<noteq> 0" by (simp add: uuid_str_def Let_def)
  then have ne: "uuid_str d \<noteq> []" by auto
  have "\<not> is_space c" if "c \<in> set (uuid_str d)" for c using uuid_str_codes [OF that] by (auto simp: is_space_def)
  with ne have "strip (uuid_str d) = uuid_str d" by (intro strip_no_space) auto
  then show ?thesis using ne by (simp add: parse_daemon_id_def truthy_def py_uuid_str [OF assms])
qed

text \<open>
  The daemon id that a 409 names is accepted as the header of a later request and read back as
  the same daemon: printing and parsing ids is a round trip.
\<close>

theorem daemon_id_roundtrip: "d < 2 ^ 128 \<Longrightarrow> parse_daemon_id (Some (uuid_str d)) = Reply d"
  by (rule parse_uuid_str)

subsection \<open>Examples\<close>

definition example_session :: "uuid \<Rightarrow> string \<Rightarrow> string \<Rightarrow> bool \<Rightarrow> live_session" where
  "example_session i agent label dflt =
     \<lparr>ls_id = i, ls_agent_id = agent, ls_label = label, ls_cue_id = label @ agent, ls_task_name = ''t'', ls_is_default = dflt,
      ls_attached_at = Some 0, ls_detached_at = None, ls_last_heartbeat = None, ls_last_claim_at = None,
      ls_monitor_version = None, ls_session_token = None, ls_ipc_session_token = Some (label @ agent),
      ls_transport = IpcTransport, ls_daemon_id = Some 5, ls_last_reconciled_at = Some 0, ls_created_at = 0\<rparr>"

definition session_world :: world where
  "session_world = message_world\<lparr>live_sessions := [example_session 1 ''agt_00000000000a'' ''main'' True,
     example_session 2 ''agt_00000000000a'' ''aux'' False, example_session 3 ''agt_00000000000c'' ''main'' True]\<rparr>"
lemma session_world_tables:
  "live_sessions session_world = [example_session 1 ''agt_00000000000a'' ''main'' True,
     example_session 2 ''agt_00000000000a'' ''aux'' False, example_session 3 ''agt_00000000000c'' ''main'' True]"
  "agents session_world = [alice_agent, hook_agent, bob_agent]" "users session_world = users message_world"
  by (simp_all add: session_world_def message_world_def)

lemma session_world_ok: "sessions_ok (live_sessions session_world)"
  unfolding session_world_tables
  by (simp add: sessions_ok_def session_indexes_ok_def session_row_ok_def session_active_def session_default_def example_session_def)

lemma session_world_agent:
  "get_owned_agent session_world 7 ''agt_00000000000a'' = Reply alice_agent"
  "resolve_agent_ref session_world ''agt_00000000000a'' 7 = Reply alice_agent" "ag_id alice_agent = ''agt_00000000000a''"
proof -
  show "ag_id alice_agent = ''agt_00000000000a''" by (simp add: alice_agent_def example_agent_def)
  show "get_owned_agent session_world 7 ''agt_00000000000a'' = Reply alice_agent"
    unfolding get_owned_agent_def resolve_address_def find_agent_def session_world_tables
    by (simp add: looks_like_opaque_id_def OPAQUE_ID_LENGTH_def starts_with_def is_alnum_def is_digit_def Let_def
        alice_agent_def example_agent_def)
  show "resolve_agent_ref session_world ''agt_00000000000a'' 7 = Reply alice_agent"
    unfolding resolve_agent_ref_def session_world_tables
    by (simp add: starts_with_def has_nul_def alice_agent_def example_agent_def)
qed

theorem default_flip_outcome_witness:
  "fst (patch_live_session id 7 ''agt_00000000000a'' ''aux'' \<lparr>pt_is_default = Some True, pt_session_token = None\<rparr> 9 session_world)
     = Reply (to_entry 9 (flipped_session ''aux'' (example_session 2 ''agt_00000000000a'' ''aux'' False)))"
proof -
  let ?t = "example_session 2 ''agt_00000000000a'' ''aux'' False"
  have mem: "?t \<in> set (live_sessions session_world)" and at: "session_at (ag_id alice_agent) ''aux'' ?t"
    unfolding session_world_tables session_world_agent by (simp_all add: session_at_def example_session_def)
  have first: "\<not> (\<exists>d \<in> set (live_sessions session_world). session_default d \<and> ls_agent_id d = ag_id alice_agent \<and> d \<noteq> ?t
      \<and> id (ls_id ?t) < id (ls_id d))"
    unfolding session_world_tables session_world_agent by (simp add: example_session_def)
  have nul: "\<not> has_nul ''aux''" by (simp add: has_nul_def)
  show ?thesis
    using default_flip_outcome [OF session_world_ok session_world_agent(1) inj_on_id nul mem at, of 9] first
    unfolding Let_def by simp
qed

theorem reattach_supersedes_witness:
  "fst (post_attachment 7 ''agt_00000000000a'' (Some (uuid_str 6)) \<lparr>at_label = ''main'', at_task_name = ''t'', at_token = ''new'',
     at_attached_at = None, at_monitor_version = None\<rparr> 9 50 session_world)
     = Reply (AttachmentExists ''mainagt_00000000000a'' (uuid_str 5) 0 (Some 0))"
proof -
  let ?e = "example_session 1 ''agt_00000000000a'' ''main'' True"
  let ?b = "\<lparr>at_label = ''main'', at_task_name = ''t'', at_token = ''new'', at_attached_at = None, at_monitor_version = None\<rparr>"
  have mem: "?e \<in> set (live_sessions session_world)" and at: "session_at (ag_id alice_agent) (at_label ?b) ?e"
    unfolding session_world_tables session_world_agent by (simp_all add: session_at_def example_session_def)
  have d: "parse_daemon_id (Some (uuid_str 6)) = Reply 6" by (rule parse_uuid_str) simp
  have e: "ls_daemon_id ?e = Some 5" "ls_ipc_session_token ?e = Some ''mainagt_00000000000a''" "ls_attached_at ?e = Some 0"
    "ls_last_reconciled_at ?e = Some 0" by (simp_all add: example_session_def)
  show ?thesis
    unfolding reattach_supersedes [OF session_world_ok d session_world_agent(2) mem at] Let_def e by simp
qed

theorem attachment_delete_idempotent_witness:
  "fst (delete_attachment_endpoint 7 ''agt_00000000000a'' ''auxagt_00000000000a'' (Some (uuid_str 5)) 50 session_world) = Reply NoContent
   \<and> fst (delete_attachment_endpoint 7 ''agt_00000000000a'' ''auxagt_00000000000a'' (Some (uuid_str 5)) 60
       (snd (delete_attachment_endpoint 7 ''agt_00000000000a'' ''auxagt_00000000000a'' (Some (uuid_str 5)) 50 session_world)))
     = Reply AlreadyDeleted"
proof -
  have d: "parse_daemon_id (Some (uuid_str 5)) = Reply 5" by (rule parse_uuid_str) simp
  have nul: "\<not> has_nul ''auxagt_00000000000a''" by (simp add: has_nul_def)
  have "list_ex (attachment_at (ag_id alice_agent) ''auxagt_00000000000a'' 5) (live_sessions session_world)"
    unfolding session_world_tables session_world_agent by (simp add: attachment_at_def example_session_def)
  then show ?thesis
    using attachment_delete_idempotent [OF session_world_ok d session_world_agent(2) nul, of 50 60]
    unfolding Let_def by (auto split: prod.splits)
qed

theorem daemon_id_roundtrip_witness: "parse_daemon_id (Some (uuid_str 340282366920938463463374607431768211455)) = Reply 340282366920938463463374607431768211455"
  using daemon_id_roundtrip [of 340282366920938463463374607431768211455] by simp

theorem reconcile_one_pass_witness:
  "fst (post_reconcile_attachments 7 (Some (uuid_str 5)) 5 [] 50 session_world) = Reply (0, 3)
   \<and> reconcile_row 6 [] 50 (example_session 1 ''agt_00000000000a'' ''main'' True) = example_session 1 ''agt_00000000000a'' ''main'' True"
proof -
  have d: "parse_daemon_id (Some (uuid_str 5)) = Reply 5" "parse_daemon_id (Some (uuid_str 6)) = Reply 6"
    by (rule parse_uuid_str, simp)+
  have "length (filter (unmentioned 5 []) (live_sessions session_world)) = 3"
    unfolding session_world_tables by (simp add: unmentioned_def example_session_def)
  then show ?thesis
    using reconcile_one_pass [OF d(1), of "[]" 7 50 session_world] reconcile_one_pass [OF d(2), of "[]" 7 50 session_world]
    by (simp add: example_session_def)
qed



end
