(* ===== verification/System.thy ===== *)
theory System
  imports Lifecycle MessageCleanup SubscriptionDispatcher DigestEmitter AccountSteps LiveSessions LeaderLock
begin

section \<open>The scheduler, the messages, the live sessions and the accounts in one system\<close>

text \<open>
  The transition system of the scheduler (\<open>Lifecycle\<close>) extended with the requests and background
  steps of agents, messages and events, with those on live sessions and with the account operations. They share the
  database, the outbox, the job queue and Redis; the locales of this theory say what each part
  leaves alone of the others.
\<close>

subsection \<open>What the scheduler may do to the rest of the world\<close>

text \<open>
  A preorder on worlds that ignores the tables of the scheduler, new cue tasks in the outbox, the
  dispatch of outbox rows and their deletion relates the ends of every step of the scheduler.
\<close>

locale scheduler_frame = world_preorder R for R :: "world \<Rightarrow> world \<Rightarrow> bool" +
  assumes on_cues: "R w (cues_update f1 w)"
    and on_executions: "R w (executions_update f2 w)"
    and on_workers: "R w (workers_update f3 w)"
    and on_alerts: "R w (alerts_update f4 w)"
    and on_usage: "R w (usage_monthly_update f5 w)"
    and on_redis: "R w (redis_update f6 w)"
    and on_sent: "R w (sent_update f7 w)"
    and on_cue_task: "R w (insert_outbox e c ty (CueTask p) s t w)"
    and on_row: "(\<And>r. ob_payload (g r) = ob_payload r) \<Longrightarrow> R w (update_outbox_row i g w)"
    and on_queue: "p' \<in> ob_payload ` set (outbox w) \<Longrightarrow> R w (w\<lparr>queue := queue w @ [(n, p')]\<rparr>)"
    and on_prune: "R w (w\<lparr>outbox := filter q (outbox w)\<rparr>)"
begin

lemmas moves = on_cues on_executions on_workers on_alerts on_usage on_redis on_sent on_cue_task

lemma after:
  "R w v \<Longrightarrow> R w (cues_update f1 v)" "R w v \<Longrightarrow> R w (executions_update f2 v)"
  "R w v \<Longrightarrow> R w (workers_update f3 v)" "R w v \<Longrightarrow> R w (alerts_update f4 v)"
  "R w v \<Longrightarrow> R w (usage_monthly_update f5 v)" "R w v \<Longrightarrow> R w (redis_update f6 v)"
  "R w v \<Longrightarrow> R w (sent_update f7 v)" "R w v \<Longrightarrow> R w (insert_outbox e c ty (CueTask p) s t v)"
  by (blast intro: chain moves)+

lemma after_row: "R w v \<Longrightarrow> R w (update_exec_row e g v)" "R w v \<Longrightarrow> R w (update_cue_row c h v)"
  by (simp_all add: update_exec_row_def update_cue_row_def after)

lemma alert_frame: "R w v \<Longrightarrow> R w (snd (create_alert n i u ty m sv c e md b now v))"
  by (auto simp: create_alert_def deliver_alert_def Let_def intro!: after split: http_answer.split)

lemma usage_frame: "R w v \<Longrightarrow> R w (increment_usage up ok u now v)"
  by (auto simp: increment_usage_def Let_def intro!: after split: sum.split)

lemma limit_frame: "check_execution_limit up ok u l now w = Inr (x, w') \<Longrightarrow> R w w'"
  by (auto simp: check_execution_limit_def get_monthly_usage_def Let_def intro!: after same
      split: if_splits option.splits redis_val.splits prod.splits)

lemma mail_frame: "R w v \<Longrightarrow> R w (send_failure_email env u c n e m now v)"
  by (auto simp: send_failure_email_def Let_def intro!: after split: sum.split option.split)

lemma post_frame: "R w v \<Longrightarrow> R w (send_failure_webhook url c n a h m now v)"
  by (auto simp: send_failure_webhook_def intro!: after)

lemmas reactions = after after_row alert_frame usage_frame mail_frame post_frame

lemma escalation_frame: "R w (run_on_failure_escalation env now esc w)"
  by (auto simp: run_on_failure_escalation_def Let_def split_def intro!: reactions same split: option.split)

lemma report_alerts_frame: "R w v \<Longrightarrow> R w (outcome_alerts n ids u e c b st now v)"
  unfolding outcome_alerts_def Let_def by (simp only: alert_frame split: if_split) blast

lemma complete_frame: "R w v \<Longrightarrow> R w (complete_cue ty ok now i v)"
  by (simp add: complete_cue_def Let_def reactions)

lemma outcome_frame: "R w (snd (record_outcome n ids u e b now later w))"
  by (auto simp: record_outcome_def Let_def intro!: report_alerts_frame complete_frame reactions same split: option.split)

lemma finish_frame: "finish_attempt env p a res now w = Inr w' \<Longrightarrow> R w w'"
  by (auto simp: finish_attempt_def handle_success_def handle_failure_def fail_cue_def notify_failure_def Let_def split_def
      intro!: reactions same split: if_splits option.splits sum.splits)

lemma claim_frame: "claim_attempt p st now w = (a, w') \<Longrightarrow> R w w'"
  by (auto simp: claim_attempt_def claim_execution_def Let_def intro!: reactions same split: if_splits)

lemma gate_frame: "quota_gate env p now w = Inr (b, w') \<Longrightarrow> R w w'"
  by (auto simp: quota_gate_def Let_def intro!: reactions same dest: limit_frame split: option.splits if_splits sum.splits)

lemma task_frame:
  "deliver_webhook_task env p now t w = Inr w' \<Longrightarrow> R w w'" "retry_webhook_task env p now t w = Inr w' \<Longrightarrow> R w w'"
  by (auto simp: deliver_webhook_task_def retry_webhook_task_def dest!: finish_frame claim_frame gate_frame intro: chain
      split: if_splits option.splits sum.splits prod.splits)

lemma batch_frame: "process_cue_batch cron locked ids now n w = Inr (k, w') \<Longrightarrow> R w w'"
proof -
  assume "process_cue_batch cron locked ids now n w = Inr (k, w')"
  from process_cue_batch_fold(1) [OF this] show ?thesis
  proof (rule fold_res_invariant)
    fix x s s'
    assume "R w s" and "process_due_cue cron now x s = Inr s'"
    then show "R w s'"
      by (auto simp: process_due_cue_def fire_due_cue_def Let_def split_def intro!: reactions split: sum.splits if_splits)
  qed (rule same)
qed

lemma retries_frame: "R w (snd (poll_retries locked now n w))"
  unfolding poll_retries_def
  by (rule fold_pair_frame) (auto simp: process_retry_def Let_def intro!: reactions same split: option.split)

lemma dispatch_frame: "R w (snd (dispatch_outbox q locked now n w))"
proof -
  have "ob_payload ` set ds \<subseteq> ob_payload ` set (outbox v) \<Longrightarrow> R v (snd (fold (dispatch_row q) ds (k, v)))" for ds k v
  proof (induction ds arbitrary: k v)
    case (Cons d ds)
    let ?v = "snd (dispatch_row q d (k, v))"
    have pay: "ob_payload ` set (outbox (update_outbox_row i f u)) = ob_payload ` set (outbox u)"
      if "\<And>r. ob_payload (f r) = ob_payload r" for i f u
      using map_update_where [of ob_payload f, OF that] by (simp add: update_outbox_row_def) (metis set_map)
    have "ob_payload ` set (outbox ?v) = ob_payload ` set (outbox v)"
      by (auto simp: dispatch_row_def pay split: option.split)
    then have "R ?v (snd (fold (dispatch_row q) ds (fst (dispatch_row q d (k, v)), ?v)))"
      using Cons.prems by (intro Cons.IH) simp
    moreover have "R v ?v"
      using Cons.prems by (auto simp: dispatch_row_def intro!: chain [OF on_queue on_row] on_row split: option.split)
    ultimately show ?case by (auto intro: chain)
  qed (simp add: same)
  moreover have "set (due_rows locked now n w) \<subseteq> set (outbox w)"
    by (auto simp: due_rows_def dest: in_set_takeD)
  ultimately show ?thesis unfolding dispatch_outbox_def by blast
qed

lemma stale_frame: "recover_stale_executions env s locked start now w = Inr (k, w') \<Longrightarrow> R w w'"
proof -
  assume "recover_stale_executions env s locked start now w = Inr (k, w')"
  then obtain w1 esc where f: "fold_res (recover_stale_row s now) (stale_executions locked (start - seconds s) w) (w, []) = Inr (w1, esc)"
    and w': "w' = fold (run_on_failure_escalation env now) esc w1"
    by (auto simp: recover_stale_executions_def Let_def split: sum.splits)
  have "R w (fst (w1, esc))"
    by (rule fold_res_invariant [OF f])
      (auto simp: recover_stale_row_def Let_def split_def intro!: reactions same split: if_splits option.splits sum.splits)
  then show ?thesis unfolding w' using fold_frame [of "run_on_failure_escalation env now"] escalation_frame chain by fastforce
qed

lemma unclaimed_frame: "R w (snd (fail_unclaimed_worker_executions env t now w))"
proof -
  have "R s (miss_execution now x s)" for x s
    by (auto simp: miss_execution_def Let_def intro!: reactions same split: option.split)
  then show ?thesis
    unfolding fail_unclaimed_worker_executions_def Let_def snd_conv by (intro chain [OF fold_frame fold_frame] escalation_frame)
qed

lemma claims_frame: "R w (snd (recover_stale_worker_claims ht ct now w))"
  unfolding recover_stale_worker_claims_def reset_claims_def
  by (rule fold_pair_frame) (auto simp: reset_claim_def intro!: reactions same)

lemma health_frame: "check_worker_health env t now w = Inr (k, w') \<Longrightarrow> R w w'"
proof -
  have "R w (snd (fold (alert_worker env now) ks (0, w)))" for ks
    by (rule fold_pair_frame) (auto simp: alert_worker_def Let_def intro!: reactions same split: option.split)
  moreover assume "check_worker_health env t now w = Inr (k, w')"
  then have "w' = snd (fold (alert_worker env now) (filter (\<lambda>k. wk_last_heartbeat k < now - seconds t) (workers w)) (0, w))"
    by (cases "fold (alert_worker env now) (filter (\<lambda>k. wk_last_heartbeat k < now - seconds t) (workers w)) (0, w)")
      (simp add: check_worker_health_def Let_def split: if_splits)
  ultimately show ?thesis by simp
qed

lemma start_frame: "R w (snd (start_execution c u i t trig meta at now w))"
  by (auto simp: start_execution_def insert_execution_def Let_def intro!: reactions same split: sum.split)

lemma create_cue_frame: "R w (snd (create_cue s usr i d now w))"
proof -
  have "R w (snd (insert_cue c b w))" for c b by (simp add: insert_cue_def moves same)
  then show ?thesis by (simp add: create_cue_def Let_def same split: check.split option.split prod.split)
qed

lemma request_frame: "api_step u w w' \<Longrightarrow> R w w'"
proof (induction rule: api_step.induct)
  case (create usr u w s c d now)
  show ?case by (rule create_cue_frame)
next
  case (update u w s c d2 now)
  then show ?case by (auto simp: update_cue_def Let_def intro!: reactions same split: check.split option.split)
qed (auto simp: claim_next_execution_def apply_claim_def claim_one_execution_def execution_heartbeat_def replay_execution_def
    verify_execution_def mark_verification_pending_def append_evidence_def live_claim_execution_def commit_live_claim_def
    delete_cue_def fire_cue_def worker_heartbeat_def delete_worker_def Let_def
    intro!: reactions same outcome_frame start_frame split: option.split live_claim.split)

lemma background_frame: "system_step w w' \<Longrightarrow> R w w'"
  by (induction rule: system_step.induct)
    (auto simp: cleanup_outbox_def Let_def intro: batch_frame retries_frame dispatch_frame stale_frame claims_frame
      unclaimed_frame health_frame task_frame on_prune)

lemma step_frame: "step w w' \<Longrightarrow> R w w'"
  unfolding step_def using request_frame background_frame by blast

end

subsection \<open>What messaging may do to the rest of the world\<close>

locale posting_frame = world_preorder R for R :: "world \<Rightarrow> world \<Rightarrow> bool" +
  assumes on_subscriptions: "R w (subscriptions_update f5 w)"
    and on_redis: "R w (redis_update f7 w)"
    and on_sent: "R w (sent_update f8 w)"
begin

lemma after_post:
  "R w v \<Longrightarrow> R w (subscriptions_update f5 v)" "R w v \<Longrightarrow> R w (redis_update f7 v)" "R w v \<Longrightarrow> R w (sent_update f8 v)"
  by (blast intro: chain on_subscriptions on_redis on_sent)+

lemma loop_frame:
  assumes "fold_res f xs (n, w) = Inr (n', w')" and "\<And>x k v k' v'. f x (k, v) = Inr (k', v') \<Longrightarrow> R v v'"
  shows "R w w'"
proof -
  have "R w (snd (n', w'))"
    by (rule fold_res_invariant [OF assms(1)]) (auto simp: same intro: chain [OF _ assms(2)])
  then show ?thesis by simp
qed

lemma dispatch_sub_frame: "dispatch_sub env now sub (n, w) = Inr (n', w') \<Longrightarrow> R w w'"
  by (auto simp: dispatch_sub_def update_sub_row_def stamp_dispatch_markers_def stamp_p4_fire_def Let_def split_def
      intro!: after_post same split: if_splits sum.splits)

lemma dispatch_events_frame: "R w (snd (dispatch_subscription_events env locked n now w))"
  unfolding dispatch_subscription_events_def
  by (auto simp: roll_back_def split: sum.split intro!: after_post same loop_frame [OF _ dispatch_sub_frame])

end

locale event_frame = posting_frame +
  assumes on_events: "R w (events_update f3 w)"
    and on_event_seq: "R w (event_seq_update f4 w)"
begin

lemma after_event: "R w v \<Longrightarrow> R w (events_update f3 v)" "R w v \<Longrightarrow> R w (event_seq_update f4 v)"
  by (blast intro: chain on_events on_event_seq)+

lemma emit_frame: "emit_event ty agent p key b now w = (a, w') \<Longrightarrow> R w w'"
  by (drule emit_event_cases) (auto intro!: after_event same)

lemma digest_frame: "R w (snd (emit_digests rank m now w))"
proof -
  have "R v v'" if "emit_digest m now g (k, v) = Inr (k', v')" for g k v k' v'
    using that by (auto simp: emit_digest_def mark_digested_def Let_def intro!: after_event same dest: emit_frame
        split: if_splits prod.splits list.splits reply.splits)
  then show ?thesis unfolding emit_digests_def by (auto split: sum.split intro: same loop_frame)
qed

lemma prune_frame: "R w (snd (cleanup_old_events n now w))"
  by (simp add: cleanup_old_events_def Let_def on_events)

end

locale messaging_frame = event_frame +
  assumes on_agents: "R w (agents_update f1 w)"
    and on_messages: "R w (messages_update f2 w)"
    and on_usage_messages: "R w (usage_messages_update f6 w)"
    and on_message_task: "R w (insert_outbox None None ty (MessageTask p) s t w)"
begin

lemma after:
  "R w v \<Longrightarrow> R w (agents_update f1 v)" "R w v \<Longrightarrow> R w (messages_update f2 v)"
  "R w v \<Longrightarrow> R w (events_update f3 v)" "R w v \<Longrightarrow> R w (event_seq_update f4 v)"
  "R w v \<Longrightarrow> R w (subscriptions_update f5 v)" "R w v \<Longrightarrow> R w (usage_messages_update f6 v)"
  "R w v \<Longrightarrow> R w (redis_update f7 v)" "R w v \<Longrightarrow> R w (insert_outbox None None ty (MessageTask p) s t v)"
  by (blast intro: chain on_agents on_messages on_events on_event_seq on_subscriptions on_usage_messages on_redis
      on_message_task)+

lemma after_row: "R w v \<Longrightarrow> R w (update_message_row i f v)" "R w v \<Longrightarrow> R w (update_agent_row i g v)"
  "R w v \<Longrightarrow> R w (snd (update_subs p h v))"
  by (simp_all add: update_message_row_def update_agent_row_def update_subs_def after)

lemmas reactions = after after_row

lemma db_frame: "db_same w v \<Longrightarrow> R w v"
  by (auto simp: db_same_def intro: after same)

lemma and_then_frame:
  assumes "R w (snd p)" and "\<And>a v. p = (Reply a, v) \<Longrightarrow> R v (snd (k a v))"
  shows "R w (snd (and_then p k))"
  using assms by (cases p; cases "fst p") (auto intro: chain)

lemma persist_frame: "R w (snd (persist_message env u fa t m now w))"
proof (cases "message_storable w m")
  case True
  obtain a w1 where e: "emit_event ''message.delivered'' (ag_id t) (delivered_payload m) (Some (delivered_key (msg_id m)))
      (Some (msg_body m)) now (w\<lparr>messages := messages w @ [m]\<rparr>) = (a, w1)" by force
  have "R w w1" using emit_event_cases [OF e] by (auto intro!: reactions same)
  then show ?thesis
    unfolding persist_message_def e Let_def
    by (auto simp: True enqueue_push_def touch_last_seen_def increment_monthly_count_def Let_def intro!: reactions same
        split: reply.split)
qed (simp add: persist_message_def same)

lemma send_frame: "R w (snd (send_message env u d fh key new_id member now w))"
proof -
  have "R v (snd (create_message env u d key fa new_id member now v))" for v fa
    unfolding create_message_def
    by (auto intro!: and_then_frame persist_frame db_frame [OF admit_same] db_frame [OF enforce_quota_same] same
        simp: Let_def split: option.split)
  then show ?thesis
    unfolding send_message_def by (auto intro!: and_then_frame db_frame [OF require_same] same)
qed

lemma message_frame:
  "R w (snd (mark_read u i now w))" "R w (snd (mark_acked u i now w))" "R w (snd (list_inbox u addr f b now w))"
  by (auto simp: mark_read_def mark_acked_def list_inbox_def deliver_queued_def bump_last_seen_def Let_def
      intro!: and_then_frame reactions same)

lemma agent_frame:
  "R w (snd (create_agent s u d i sec hex now w))" "R w (snd (update_agent s u addr d2 sec now w))"
  "R w (snd (soft_delete_agent u addr now w))" "R w (snd (rotate_webhook_secret b u addr sec now w))"
proof -
  show "R w (snd (create_agent s u d i sec hex now w))"
    unfolding create_agent_def Let_def if_distrib [of snd] snd_conv by (intro if_frame same on_agents)
qed (auto simp: update_agent_def soft_delete_agent_def rotate_webhook_secret_def Let_def
    intro!: reactions same split: reply.split check.split)

lemma subscription_frame:
  "R w (snd (create_subscription_endpoint s u ref ty tg url ib i sec now w))"
  "R w (snd (delete_subscription_endpoint u ref i now w))" "R w (snd (ack_subscription_endpoint u ref i n w))"
  "R w (snd (pull_events_endpoint u ref since lim ty' False started [] w))"
  by (auto simp: create_subscription_endpoint_def create_subscription_def delete_subscription_endpoint_def
      ack_subscription_endpoint_def pull_events_endpoint_def with_agent_def detach_subscription_def ack_subscription_def
      advance_ack_after_pull_def advance_ack_watermark_def update_subs_def Let_def
      intro!: reactions same split: reply.split option.split prod.split)

end
subsection \<open>The steps of messaging\<close>

text \<open>
  A request of the user \<open>u\<close>. A long poll ends in the same transaction as a pull at the moment it
  finds an event, so it is the step \<open>pull\<close> then, and no step when it times out.
\<close>

inductive message_request :: "uuid \<Rightarrow> world \<Rightarrow> world \<Rightarrow> bool" where
  send: "message_request u w (snd (send_message env u d fh key new_id member now w))"
| read: "message_request u w (snd (mark_read u i now w))"
| ack: "message_request u w (snd (mark_acked u i now w))"
| inbox: "message_request u w (snd (list_inbox u addr f b now w))"
| new_agent: "message_request u w (snd (create_agent s u d' new_id sec hex now w))"
| change_agent: "message_request u w (snd (update_agent s u addr d2 sec now w))"
| delete_agent: "message_request u w (snd (soft_delete_agent u addr now w))"
| rotate: "message_request u w (snd (rotate_webhook_secret b u addr sec now w))"
| subscribe: "message_request u w (snd (create_subscription_endpoint s u ref ty tg url ib sid sec now w))"
| unsubscribe: "message_request u w (snd (delete_subscription_endpoint u ref sid now w))"
| ack_events: "message_request u w (snd (ack_subscription_endpoint u ref sid n w))"
| pull: "message_request u w (snd (pull_events_endpoint u ref since lim ty' False started [] w))"

text \<open>
  A push task is two transactions with the POST between them: the claim, and the outcome. Other
  steps may come in between; the outcome comes with any result the network can give.
\<close>

definition push_begin :: "push_env \<Rightarrow> task_type \<Rightarrow> delivery_state \<Rightarrow> message_task \<Rightarrow> time \<Rightarrow> world \<Rightarrow> world" where
  "push_begin env ty expected p now w =
     (case load_message_context w (m_message_id p) (m_to_agent_id p) of
        None \<Rightarrow> w
      | Some (m, to_agent, from_agent, usr) \<Rightarrow>
          (case check_concurrent_cap_or_recycle env (usr_id usr) ty p now w of
             (Capped, w1) \<Rightarrow> w1
           | (Proceed held, w1) \<Rightarrow>
               (let (claimed, w2) = claim_message (m_message_id p) expected now w1
                in if claimed then w2 else release_concurrent env held (usr_id usr) now w2)))"

inductive push_outcome :: "string \<Rightarrow> world \<Rightarrow> world \<Rightarrow> bool" where
  outcome: "route_attempt_outcome i to_agent attempt result now w = Inr w1
     \<Longrightarrow> push_outcome i w (release_concurrent env held u now w1)"

inductive message_background :: "world \<Rightarrow> world \<Rightarrow> bool" where
  claim: "(job, MessageTask p) \<in> set (queue w) \<Longrightarrow> expected \<in> {MQueued, MRetryReady}
     \<Longrightarrow> message_background w (push_begin env ty expected p now w)"
| abort: "message_background w (release_concurrent env held u now w)"
| recover: "message_background w (snd (recover_stale_message_deliveries locked stale_seconds start now w))"
| expire: "message_background w (snd (expire_old_messages dry_run now w))"
| purge: "message_background w (snd (cleanup_expired_messages dry_run now w))"
| free_keys: "message_background w (snd (free_old_idempotency_keys dry_run now w))"
| post_events: "message_background w (snd (dispatch_subscription_events denv locked batch_size now w))"
| digest: "message_background w (snd (emit_digests rank min_batch now w))"
| prune_events: "message_background w (snd (cleanup_old_events retention_days now w))"

inductive_cases push_outcomeE: "push_outcome i w w'"

text \<open>The keys of the poller in Redis: its lock and its heartbeat.\<close>

inductive lock_step :: "world \<Rightarrow> world \<Rightarrow> bool" where
  gate: "lock_step w (w\<lparr>redis := snd (leader_gate replica ttl now (redis w))\<rparr>)"
| renew: "lock_step w (w\<lparr>redis := snd (renew_poller_lock replica ttl now (redis w))\<rparr>)"
| beat: "lock_step w (w\<lparr>redis := write_poller_heartbeat ttl n ms now (redis w)\<rparr>)"

lemma lock_step_redis: "lock_step w w' \<Longrightarrow> \<exists>r. w' = w\<lparr>redis := r\<rparr>"
  by (induction rule: lock_step.induct) blast+

text \<open>Everything but the outcome of a push, and everything.\<close>

definition quiet_step :: "world \<Rightarrow> world \<Rightarrow> bool" where
  "quiet_step w w' \<longleftrightarrow> step w w' \<or> (\<exists>u. message_request u w w') \<or> message_background w w' \<or> (\<exists>env now. account_step env now w w')
     \<or> session_step w w' \<or> lock_step w w'"

definition sys_step :: "world \<Rightarrow> world \<Rightarrow> bool" where
  "sys_step w w' \<longleftrightarrow> quiet_step w w' \<or> (\<exists>i. push_outcome i w w')"

text \<open>The tasks of \<open>MessageTasks\<close> are such steps, whatever steps other sessions do during the POST.\<close>

lemma push_task_phases:
  "\<exists>v. (between (push_begin env ty expected p now w) = v \<or> push_begin env ty expected p now w = v) \<and>
     (snd (push_task env ty expected attempt p now between finished w) = v
      \<or> (\<exists>held u. snd (push_task env ty expected attempt p now between finished w) = release_concurrent env held u finished v)
      \<or> (\<exists>i. push_outcome i v (snd (push_task env ty expected attempt p now between finished w))))"
proof (cases "load_message_context w (m_message_id p) (m_to_agent_id p)")
  case None
  then show ?thesis by (auto simp: push_task_def push_begin_def)
next
  case (Some c)
  obtain m to_agent from_agent usr where c: "c = (m, to_agent, from_agent, usr)" by (metis prod_cases4)
  obtain r w1 where cap: "check_concurrent_cap_or_recycle env (usr_id usr) ty p now w = (r, w1)" by force
  obtain claimed w2 where cl: "claim_message (m_message_id p) expected now w1 = (claimed, w2)" by force
  show ?thesis
  proof (cases r)
    case Capped
    then show ?thesis using Some cap by (auto simp: push_task_def push_begin_def c)
  next
    case (Proceed held)
    show ?thesis
    proof (cases claimed)
      case False
      then show ?thesis using Some cap Proceed cl by (auto simp: push_task_def push_begin_def c)
    next
      case True
      note t = Some cap Proceed cl True c
      then have b: "push_begin env ty expected p now w = w2" by (simp add: push_begin_def)
      show ?thesis
        unfolding b push_task_def using t
        by (fastforce split: sum.split intro: push_outcome.outcome)
    qed
  qed
qed

lemma push_task_run:
  assumes "(job, MessageTask p) \<in> set (queue w)" and "expected \<in> {MQueued, MRetryReady}" and "\<And>v. sys_step\<^sup>*\<^sup>* v (between v)"
  shows "sys_step\<^sup>*\<^sup>* w (snd (push_task env ty expected attempt p now between finished w))"
proof -
  have bg: "message_background v v' \<Longrightarrow> sys_step\<^sup>*\<^sup>* v v'" for v v'
    by (rule r_into_rtranclp) (simp add: sys_step_def quiet_step_def)
  have start: "sys_step\<^sup>*\<^sup>* w (push_begin env ty expected p now w)" by (rule bg) (rule message_background.claim [OF assms(1,2)])
  obtain v where v: "between (push_begin env ty expected p now w) = v \<or> push_begin env ty expected p now w = v"
    and fin: "snd (push_task env ty expected attempt p now between finished w) = v
      \<or> (\<exists>held u. snd (push_task env ty expected attempt p now between finished w) = release_concurrent env held u finished v)
      \<or> (\<exists>i. push_outcome i v (snd (push_task env ty expected attempt p now between finished w)))"
    using push_task_phases by blast
  from v have "sys_step\<^sup>*\<^sup>* w v" using start rtranclp_trans [OF start assms(3)] by blast
  moreover have "sys_step\<^sup>*\<^sup>* v (snd (push_task env ty expected attempt p now between finished w))"
    using fin
  proof (elim disjE exE)
    fix i
    assume "push_outcome i v (snd (push_task env ty expected attempt p now between finished w))"
    then show ?thesis by (intro r_into_rtranclp) (auto simp: sys_step_def)
  qed (simp_all add: bg message_background.abort)
  ultimately show ?thesis by (rule rtranclp_trans)
qed
subsection \<open>The two halves leave each other alone\<close>

context messaging_frame
begin

lemma slot_frame: "R w v \<Longrightarrow> R w (release_concurrent env held u now v)"
  by (auto simp: release_concurrent_def intro!: reactions split: sum.split)

lemma cap_frame: "R w (snd (check_concurrent_cap_or_recycle env u ty p now w))"
  by (auto simp: check_concurrent_cap_or_recycle_def Let_def intro!: reactions same split: sum.split)

lemma push_begin_frame: "R w (push_begin env ty expected p now w)"
  by (auto simp: push_begin_def claim_message_def Let_def split_def intro!: slot_frame reactions cap_frame same
      split: option.split cap_result.split)

lemma push_outcome_frame: "push_outcome i w w' \<Longrightarrow> R w w'"
  by (auto elim!: push_outcomeE intro!: slot_frame reactions same simp: route_attempt_outcome_def Let_def
      split: if_splits sum.splits)

lemma recover_frame: "R w (snd (recover_stale_message_deliveries locked s start now w))"
proof -
  have "R v (recover_stale_message now m v)" for m v
    by (auto simp: recover_stale_message_def Let_def intro!: reactions same)
  then show ?thesis by (simp add: recover_stale_message_deliveries_def Let_def fold_frame)
qed

lemma housekeeping_frame:
  "R w (snd (expire_old_messages b now w))" "R w (snd (cleanup_expired_messages b now w))"
  "R w (snd (free_old_idempotency_keys b now w))"
  by (auto simp: expire_old_messages_def cleanup_expired_messages_def free_old_idempotency_keys_def Let_def
      intro!: reactions same split: prod.split)

lemma message_request_frame: "message_request u w w' \<Longrightarrow> R w w'"
  by (induction rule: message_request.induct) (rule send_frame message_frame agent_frame subscription_frame)+

lemma message_background_frame: "message_background w w' \<Longrightarrow> R w w'"
  by (induction rule: message_background.induct)
    (rule push_begin_frame slot_frame [OF same] recover_frame housekeeping_frame dispatch_events_frame digest_frame prune_frame)+

end

definition message_tasks :: "world \<Rightarrow> message_task set" where
  "message_tasks w = {p. MessageTask p \<in> ob_payload ` set (outbox w) \<or> MessageTask p \<in> snd ` set (queue w)}"

definition keeps_messaging :: "world \<Rightarrow> world \<Rightarrow> bool" where
  "keeps_messaging w w' \<longleftrightarrow> messages w' = messages w \<and> agents w' = agents w \<and> events w' = events w \<and> event_seq w' = event_seq w
     \<and> subscriptions w' = subscriptions w \<and> usage_messages w' = usage_messages w \<and> users w' = users w
     \<and> device_codes w' = device_codes w
     \<and> message_tasks w' \<subseteq> message_tasks w"

definition keeps_scheduler :: "world \<Rightarrow> world \<Rightarrow> bool" where
  "keeps_scheduler w w' \<longleftrightarrow> cues w' = cues w \<and> executions w' = executions w \<and> workers w' = workers w \<and> alerts w' = alerts w
     \<and> usage_monthly w' = usage_monthly w \<and> users w' = users w \<and> device_codes w' = device_codes w \<and> queue w' = queue w
     \<and> (\<exists>rows. outbox w' = outbox w @ rows \<and> (\<forall>r \<in> set rows. ob_execution_id r = None))"

interpretation msg_side: scheduler_frame keeps_messaging
proof
  fix g :: "outbox_row \<Rightarrow> outbox_row" and w :: world and i
  assume g: "\<And>r. ob_payload (g r) = ob_payload r"
  have "ob_payload ` set (update_where (\<lambda>r. ob_id r = i) g (outbox w)) = ob_payload ` set (outbox w)"
    using map_update_where [of ob_payload g, OF g] by (metis set_map)
  then show "keeps_messaging w (update_outbox_row i g w)"
    by (simp add: keeps_messaging_def message_tasks_def update_outbox_row_def)
next
  fix u v w
  assume "keeps_messaging u v" and "keeps_messaging v w"
  then show "keeps_messaging u w" unfolding keeps_messaging_def by auto
qed (auto simp: keeps_messaging_def message_tasks_def insert_outbox_def)

interpretation cue_side: messaging_frame keeps_scheduler
  by unfold_locales (auto simp: keeps_scheduler_def insert_outbox_def)
subsection \<open>What a send does\<close>

lemma create_message_cases:
  "db_same w (snd (create_message env u d key fa i member now w)) \<or>
   (\<exists>v t m. db_same w v \<and> ag_user_id fa = u
      \<and> snd (create_message env u d key fa i member now w) = snd (persist_message env u fa t m now v))"
proof -
  obtain a v where adm: "admit_message env u d key fa member now w = (a, v)" by force
  show ?thesis
  proof (cases "\<exists>x. a = Reply x")
    case False
    with create_message_before_key [OF adm] show ?thesis by blast
  next
    case True
    then obtain t ra p dg where a: "a = Reply (t, ra, p, dg)" by (metis prod_cases4)
    note adm' = adm [unfolded a]
    have vs: "db_same w v" and own: "ag_user_id fa = u" using admit_Reply [OF adm'] by auto
    obtain q v1 where quota: "enforce_quota env u now v = (q, v1)" by force
    have v1: "db_same w v1" using enforce_quota_same [of v env u now] quota vs by (auto intro: db_same_trans)
    show ?thesis
    proof (cases "existing_for_key v u key now")
      case (Some x)
      then show ?thesis using vs by (simp add: create_message_def adm' Let_def)
    next
      case None
      let ?m = "\<lambda>inherited parent. new_message env u d key fa t ra p inherited parent i
        (compute_fingerprint (me_sha256 env) (ag_id t) d p) now"
      have "snd (create_message env u d key fa i member now w) = v1
          \<or> (\<exists>x y. snd (create_message env u d key fa i member now w) = snd (persist_message env u fa t (?m x y) now v1))"
        unfolding create_message_def adm' and_then_simps
        by (cases q) (auto simp: None quota Let_def and_then_def split: reply.split prod.split, (metis snd_conv)+)
      then show ?thesis using v1 own by metis
    qed
  qed
qed

lemma resolve_address_mem: "resolve_address w x = Reply a \<Longrightarrow> a \<in> set (agents w)"
  unfolding resolve_address_def by (drule find_agent_SomeD) simp

lemma send_message_cases:
  "db_same w (snd (send_message env u d fh key i member now w)) \<or>
   (\<exists>v fa t m. db_same w v \<and> ag_user_id fa = u \<and> fa \<in> set (agents w)
      \<and> snd (send_message env u d fh key i member now w) = snd (persist_message env u fa t m now v))"
proof -
  have "snd (send_message env u d fh key i member now w) = w
      \<or> (\<exists>fa. fa \<in> set (agents w) \<and> snd (send_message env u d fh key i member now w) = snd (create_message env u d key fa i member now w))"
    by (auto simp: send_message_def and_then_def require_def split: reply.split prod.split dest: resolve_address_mem)
  then show ?thesis using create_message_cases [of w env u d key _ i member now] by (metis db_same_refl)
qed

lemma persist_cases:
  "snd (persist_message env u fa t m now w) = w \<or>
   (message_storable w m \<and> (\<exists>e w1. emit_event ''message.delivered'' (ag_id t) (delivered_payload m)
        (Some (delivered_key (msg_id m))) (Some (msg_body m)) now (w\<lparr>messages := messages w @ [m]\<rparr>) = (Reply e, w1)
      \<and> snd (persist_message env u fa t m now w) =
          snd (increment_monthly_count (me_redis_up env) u now (touch_last_seen (ag_id fa) now (enqueue_push t m now w1)))))"
proof (cases "emit_event ''message.delivered'' (ag_id t) (delivered_payload m)
        (Some (delivered_key (msg_id m))) (Some (msg_body m)) now (w\<lparr>messages := messages w @ [m]\<rparr>)")
  case (Pair a w1)
  then show ?thesis unfolding persist_message_def Let_def by (cases a) auto
qed

text \<open>The tables after an accepted message.\<close>

lemma persist_tables:
  assumes "message_storable w m" and "emit_event ty ag pl k b now (w\<lparr>messages := messages w @ [m]\<rparr>) = (Reply e, w1)"
    and "w' = snd (increment_monthly_count up u now (touch_last_seen i now (enqueue_push t m now w1)))"
  shows "messages w' = messages w @ [m]" and "agents w' = agents (touch_last_seen i now w)"
    and "subscriptions w' = subscriptions w" and "queue w' = queue w"
    and "message_tasks w' \<subseteq> message_tasks w \<union> {p. m_attempt p = None}"
    and "events w' = events w1" and "event_seq w' = event_seq w1"
proof -
  have w1: "messages w1 = messages w @ [m]" "agents w1 = agents w" "subscriptions w1 = subscriptions w" "queue w1 = queue w"
    "outbox w1 = outbox w"
    using emit_event_cases [OF assms(2)] by auto
  have w': "messages w' = messages w1" "agents w' = agents (touch_last_seen i now w1)" "subscriptions w' = subscriptions w1"
    "queue w' = queue w1" "outbox w' = outbox (enqueue_push t m now w1)" "events w' = events w1" "event_seq w' = event_seq w1"
    by (simp_all add: assms(3) increment_monthly_count_def Let_def touch_last_seen_def update_agent_row_def enqueue_push_def
        insert_outbox_def)
  then show "messages w' = messages w @ [m]" "agents w' = agents (touch_last_seen i now w)" "subscriptions w' = subscriptions w"
    "queue w' = queue w" "events w' = events w1" "event_seq w' = event_seq w1"
    by (simp_all add: w1 touch_last_seen_def update_agent_row_def)
  show "message_tasks w' \<subseteq> message_tasks w \<union> {p. m_attempt p = None}"
    by (auto simp: message_tasks_def w' w1 enqueue_push_def insert_outbox_def)
qed
subsection \<open>The invariant of the messaging tables\<close>

text \<open>
  Message ids and idempotency keys, agent ids and addresses and event ids are unique, an agent has
  a webhook URL exactly when it has a secret, and no task that is waiting or queued goes beyond
  the attempt budget.
\<close>

definition messaging_ok :: "world \<Rightarrow> bool" where
  "messaging_ok w \<longleftrightarrow> message_keys_ok w \<and> agent_keys_ok w \<and> events_ok w \<and> 0 < event_seq w
     \<and> (\<forall>p \<in> message_tasks w. within_budget p)"

lemma agent_keys_cong: "agents v = agents w \<Longrightarrow> agent_keys_ok v = agent_keys_ok w"
  by (simp add: agent_keys_ok_def)

lemma events_cong: "events v = events w \<Longrightarrow> event_seq v = event_seq w \<Longrightarrow> events_ok v = events_ok w"
  by (simp add: events_ok_def)

lemma messaging_ok_tables:
  assumes "messaging_ok w" and "messages v = messages w" and "agents v = agents w" and "events v = events w"
    and "event_seq v = event_seq w" and "message_tasks v \<subseteq> message_tasks w"
  shows "messaging_ok v"
  using assms unfolding messaging_ok_def
  by (simp add: message_keys_cong [OF assms(2)] agent_keys_cong [OF assms(3)] events_cong [OF assms(4,5)] subset_iff)

lemma messaging_ok_rows:
  assumes "messaging_ok w" and "message_keys_ok (w\<lparr>messages := ms\<rparr>)"
  shows "messaging_ok (w\<lparr>messages := ms\<rparr>)"
  using assms unfolding messaging_ok_def
  by (simp add: agent_keys_cong [of "w\<lparr>messages := ms\<rparr>" w] events_cong [of "w\<lparr>messages := ms\<rparr>" w] message_tasks_def)

lemma messaging_ok_agents:
  assumes "messaging_ok w" and "agent_keys_ok (agents_update f w)"
  shows "messaging_ok (agents_update f w)"
  using assms unfolding messaging_ok_def
  by (simp add: message_keys_cong [of "agents_update f w" w] events_cong [of "agents_update f w" w] message_tasks_def)

lemma create_agent_cases:
  "snd (create_agent s u d i sec hex now w) = w
   \<or> (\<exists>a x. create_agent s u d i sec hex now w = (Reply (a, x), w\<lparr>agents := agents w @ [a]\<rparr>))"
proof -
  have "\<exists>b1 b2 b3 b4 b5 a x. create_agent s u d i sec hex now w =
     (if b1 then (Refused ''reserved_slug'' 400, w) else if b2 then (Refused ''invalid_callback_url'' 400, w)
      else if b3 then (Raised DataError, w) else if b4 then (Raised IntegrityError, w)
      else if b5 then (Refused ''slug_taken'' 409, w) else (Reply (a, x), w\<lparr>agents := agents w @ [a]\<rparr>))"
    unfolding create_agent_def Let_def by (intro exI) (rule refl)
  then show ?thesis by (elim exE) (simp split: if_split)
qed

lemma agent_requests_only_agents:
  "\<exists>f. snd (create_agent s u d i sec hex now w) = agents_update f w"
  "\<exists>f. snd (update_agent s u addr d2 sec now w) = agents_update f w"
  "\<exists>f. snd (soft_delete_agent u addr now w) = agents_update f w"
  "\<exists>f. snd (rotate_webhook_secret b u addr sec now w) = agents_update f w"
proof -
  have id: "\<exists>f. w = agents_update f w" by (rule exI [of _ id]) simp
  have upd: "\<exists>f. update_agent_row a g w = agents_update f w" for a g
    unfolding update_agent_row_def by (rule exI) (rule refl)
  show "\<exists>f. snd (create_agent s u d i sec hex now w) = agents_update f w"
    using create_agent_cases [of s u d i sec hex now w] id by (elim disjE exE) auto
  show "\<exists>f. snd (update_agent s u addr d2 sec now w) = agents_update f w"
    "\<exists>f. snd (soft_delete_agent u addr now w) = agents_update f w"
    "\<exists>f. snd (rotate_webhook_secret b u addr sec now w) = agents_update f w"
    using id upd
    by (auto simp: update_agent_def soft_delete_agent_def rotate_webhook_secret_def Let_def split: reply.split check.split)
qed

lemma create_agent_keeps:
  "agent_keys_ok w \<Longrightarrow> agent_keys_ok (snd (create_agent s u d i sec hex now w))"
  using create_agent_cases [of s u d i sec hex now w] create_agent_keeps_keys by (metis snd_conv)

lemma subscription_requests_only_subscriptions:
  "\<exists>f. snd (create_subscription_endpoint s u ref ty tg url ib i sec now w) = subscriptions_update f w"
  "\<exists>f. snd (delete_subscription_endpoint u ref i now w) = subscriptions_update f w"
  "\<exists>f. snd (ack_subscription_endpoint u ref i n w) = subscriptions_update f w"
  "\<exists>f. snd (pull_events_endpoint u ref since lim ty' False started [] w) = subscriptions_update f w"
proof -
  have id: "\<exists>f. w = subscriptions_update f w" by (rule exI [of _ id]) simp
  show "\<exists>f. snd (create_subscription_endpoint s u ref ty tg url ib i sec now w) = subscriptions_update f w"
    "\<exists>f. snd (delete_subscription_endpoint u ref i now w) = subscriptions_update f w"
    "\<exists>f. snd (ack_subscription_endpoint u ref i n w) = subscriptions_update f w"
    "\<exists>f. snd (pull_events_endpoint u ref since lim ty' False started [] w) = subscriptions_update f w"
    using id
    by (auto simp: create_subscription_endpoint_def create_subscription_def delete_subscription_endpoint_def
      ack_subscription_endpoint_def pull_events_endpoint_def with_agent_def detach_subscription_def ack_subscription_def
      advance_ack_after_pull_def advance_ack_watermark_def update_subs_def Let_def
      split: reply.split option.split prod.split)
qed
lemma persist_keeps_messaging:
  assumes "messaging_ok w"
  shows "messaging_ok (snd (persist_message env u fa t m now w))"
  using persist_cases [of env u fa t m now w]
proof (elim disjE conjE exE)
  assume "snd (persist_message env u fa t m now w) = w"
  with assms show ?thesis by simp
next
  fix e w1
  assume ok: "message_storable w m"
    and e: "emit_event ''message.delivered'' (ag_id t) (delivered_payload m) (Some (delivered_key (msg_id m)))
        (Some (msg_body m)) now (w\<lparr>messages := messages w @ [m]\<rparr>) = (Reply e, w1)"
    and w': "snd (persist_message env u fa t m now w) =
          snd (increment_monthly_count (me_redis_up env) u now (touch_last_seen (ag_id fa) now (enqueue_push t m now w1)))"
  let ?w' = "snd (persist_message env u fa t m now w)"
  note tables = persist_tables [OF ok e w']
  have inv: "message_keys_ok w" "agent_keys_ok w" "events_ok w" "0 < event_seq w" "\<forall>p \<in> message_tasks w. within_budget p"
    using assms by (auto simp: messaging_ok_def)
  have "message_keys_ok ?w'" by (rule storable_keeps_keys [OF inv(1) ok tables(1)])
  moreover have "agent_keys_ok ?w'" using touch_keeps_keys [OF inv(2)] agent_keys_cong [OF tables(2)] by simp
  moreover have "events_ok (w\<lparr>messages := messages w @ [m]\<rparr>)" using inv(3) by (simp add: events_ok_def)
  from emit_event_ok [OF e this] inv(4) have "events_ok ?w' \<and> 0 < event_seq ?w'"
    using events_cong [OF tables(6,7)] tables(7) by simp
  moreover have "\<forall>p \<in> message_tasks ?w'. within_budget p"
    using inv(5) tables(5) by (auto simp: within_budget_def opt_all_def)
  ultimately show ?thesis by (simp add: messaging_ok_def)
qed

lemma messaging_ok_db_same: "db_same w v \<Longrightarrow> messaging_ok w \<Longrightarrow> messaging_ok v"
  by (erule messaging_ok_tables) (auto simp: db_same_def message_tasks_def)

lemma send_keeps_messaging: "messaging_ok w \<Longrightarrow> messaging_ok (snd (send_message env u d fh key i member now w))"
  using send_message_cases [of w env u d fh key i member now]
  by (metis messaging_ok_db_same persist_keeps_messaging)

lemma messaging_ok_update:
  assumes "messaging_ok w" and "message_update f"
  shows "messaging_ok (w\<lparr>messages := update_where p f (messages w)\<rparr>)"
proof (rule messaging_ok_rows [OF assms(1)])
  show "message_keys_ok (w\<lparr>messages := update_where p f (messages w)\<rparr>)"
    using assms(1) by (intro message_update.keys_kept [OF assms(2)]) (simp add: messaging_ok_def)
qed

lemma message_requests_keep_messaging:
  assumes "messaging_ok w"
  shows "messaging_ok (snd (mark_read u i now w))" and "messaging_ok (snd (mark_acked u i now w))"
    and "messaging_ok (snd (list_inbox u addr f b now w))"
proof -
  show "messaging_ok (snd (mark_read u i now w))"
    using mark_read_messages [of u i now w] messaging_ok_update [OF assms read_upd.message_update_axioms] assms
    by (auto simp: update_message_row_def)
  show "messaging_ok (snd (mark_acked u i now w))"
    using mark_acked_messages [of u i now w] messaging_ok_update [OF assms ack_upd.message_update_axioms] assms
    by (auto simp: update_message_row_def)
  have bump: "messaging_ok (bump_last_seen a now v)" if "messaging_ok v" for a v
    unfolding bump_last_seen_def update_agent_row_def
    by (rule messaging_ok_agents [OF that])
      (use seen_row.update_keeps_agent_keys that in \<open>simp add: update_agent_row_def messaging_ok_def\<close>)
  show "messaging_ok (snd (list_inbox u addr f b now w))"
    unfolding list_inbox_def and_then_def Let_def
    using assms bump messaging_ok_update [OF assms delivered_upd.message_update_axioms]
    by (auto simp: deliver_queued_def split: reply.split)
qed

lemma message_request_keeps:
  assumes "message_request u w w'" and "messaging_ok w"
  shows "messaging_ok w'"
proof -
  have keys: "agent_keys_ok w" using assms(2) by (simp add: messaging_ok_def)
  have agents: "messaging_ok v" if "\<exists>f. v = agents_update f w" "agent_keys_ok v" for v
    using that messaging_ok_agents [OF assms(2)] by auto
  have subs: "messaging_ok v" if "\<exists>f. v = subscriptions_update f w" for v
    using that by (auto intro!: messaging_ok_tables [OF assms(2)] simp: message_tasks_def)
  from assms(1) show ?thesis
    by (cases rule: message_request.cases)
      (use assms(2) send_keeps_messaging message_requests_keep_messaging
          agents [OF agent_requests_only_agents(1) create_agent_keeps [OF keys]]
          agents [OF agent_requests_only_agents(2) update_agent_keeps_keys [OF keys]]
          agents [OF agent_requests_only_agents(3) soft_delete_keeps_keys [OF keys]]
          agents [OF agent_requests_only_agents(4) rotate_keeps_keys [OF keys]]
          subscription_requests_only_subscriptions [THEN subs] in \<open>simp_all\<close>)
qed
text \<open>A task that joins the outbox within the budget keeps the invariant, and so does a change in Redis.\<close>

lemma messaging_ok_insert:
  "messaging_ok w \<Longrightarrow> (\<And>p. pl = MessageTask p \<Longrightarrow> within_budget p) \<Longrightarrow> messaging_ok (insert_outbox e c ty pl s now w)"
  unfolding messaging_ok_def
  by (auto simp: message_keys_ok_def agent_keys_ok_def events_ok_def message_tasks_def insert_outbox_def)

lemma messaging_ok_redis [simp]: "messaging_ok (w\<lparr>redis := r\<rparr>) = messaging_ok w"
  using messaging_ok_db_same [OF db_same_redis [of w r]] messaging_ok_db_same [OF db_same_redis [of "w\<lparr>redis := r\<rparr>" "redis w"]]
  by auto

lemma messaging_ok_release [simp]: "messaging_ok (release_concurrent env held u now w) = messaging_ok w"
  by (simp add: release_concurrent_def split: sum.split)

lemma push_begin_keeps:
  assumes "messaging_ok w" and "within_budget p"
  shows "messaging_ok (push_begin env ty expected p now w)"
proof -
  have cap: "messaging_ok (snd (check_concurrent_cap_or_recycle env u ty p now w))" for u
    using assms by (auto simp: check_concurrent_cap_or_recycle_def Let_def intro!: messaging_ok_insert split: sum.split)
  have claim: "messaging_ok (snd (claim_message i st now v))" if "messaging_ok v" for i st v
    using messaging_ok_update [OF that claim_upd.message_update_axioms] by (simp add: claim_message_def)
  show ?thesis
    using assms(1) claim [OF cap] cap by (auto simp: push_begin_def Let_def split_def split: option.split cap_result.split)
qed

lemma route_keeps_messaging:
  assumes "route_attempt_outcome i to_agent attempt result now w = Inr w'" and "messaging_ok w"
  shows "messaging_ok w'"
proof -
  have row: "messaging_ok (update_message_row i f v)" if "message_update f" "messaging_ok v" for f v
    using messaging_ok_update [OF that(2,1)] by (simp add: update_message_row_def)
  show ?thesis
    using assms
    by (auto simp: route_attempt_outcome_def Let_def retry_task_def within_budget_def opt_all_def split: if_splits sum.splits
        intro!: row messaging_ok_insert pushed_upd.message_update_axioms ready_upd.message_update_axioms
          push_failed_upd.message_update_axioms)
qed

lemma recover_keeps_messaging: "messaging_ok w \<Longrightarrow> messaging_ok (snd (recover_stale_message_deliveries locked s start now w))"
proof -
  have row: "messaging_ok (update_message_row i f v)" if "message_update f" "messaging_ok v" for f v i
    using messaging_ok_update [OF that(2,1)] by (simp add: update_message_row_def)
  have "messaging_ok v \<Longrightarrow> messaging_ok (recover_stale_message now m v)" for m v
    by (auto simp: recover_stale_message_def Let_def within_budget_def opt_all_def
        intro!: row messaging_ok_insert ready_upd.message_update_axioms push_failed_upd.message_update_axioms)
  then have "messaging_ok v \<Longrightarrow> messaging_ok (fold (recover_stale_message now) ms v)" for ms v
    by (induction ms arbitrary: v) auto
  then show "messaging_ok w \<Longrightarrow> messaging_ok (snd (recover_stale_message_deliveries locked s start now w))"
    by (simp add: recover_stale_message_deliveries_def Let_def)
qed

text \<open>Deleting rows and clearing columns keeps the keys unique.\<close>

lemma message_keys_sub:
  assumes "message_keys_ok w"
    and "messages v = map f (filter q (messages w))" and "\<And>m. msg_id (f m) = msg_id m \<and> msg_user_id (f m) = msg_user_id m
      \<and> msg_idempotency_key (f m) \<in> {msg_idempotency_key m, None}"
  shows "message_keys_ok v"
proof -
  let ?K = "\<lambda>ms. map (\<lambda>m. (msg_user_id m, msg_idempotency_key m)) (filter (\<lambda>m. msg_idempotency_key m \<noteq> None) ms)"
  have key: "msg_idempotency_key (f m) \<noteq> None \<Longrightarrow> msg_idempotency_key m = msg_idempotency_key (f m)" for m
    using assms(3) [of m] by auto
  have user: "msg_user_id (f m) = msg_user_id m" for m using assms(3) by blast
  have sub: "set (?K (map f (filter q ms))) \<subseteq> set (?K ms)" for ms
    using key user by (fastforce simp: image_iff)
  have "distinct (?K ms) \<Longrightarrow> distinct (?K (map f (filter q ms)))" for ms
  proof (induction ms)
    case (Cons m ms)
    have "(msg_user_id m, msg_idempotency_key m) \<notin> set (?K (map f (filter q ms)))" if "msg_idempotency_key m \<noteq> None"
      using that Cons.prems sub [of ms] by auto
    with Cons key [of m] user [of m] show ?case by (cases "msg_idempotency_key (f m) = None") (simp_all split: if_splits)
  qed simp
  moreover have "distinct (map msg_id ms) \<Longrightarrow> distinct (map msg_id (map f (filter q ms)))" for ms
    using assms(3) by (induction ms) auto
  ultimately show ?thesis using assms(1) unfolding message_keys_ok_def assms(2) by blast
qed
lemma housekeeping_keeps:
  assumes "messaging_ok w"
  shows "messaging_ok (snd (expire_old_messages dry_run now w))" and "messaging_ok (snd (free_old_idempotency_keys dry_run now w))"
    and "messaging_ok (snd (cleanup_expired_messages dry_run now w))"
proof -
  have keys: "message_keys_ok w" using assms by (simp add: messaging_ok_def)
  have sub: "messaging_ok (w\<lparr>messages := map f (filter q (messages w))\<rparr>)"
    if "\<And>m. msg_id (f m) = msg_id m \<and> msg_user_id (f m) = msg_user_id m
      \<and> msg_idempotency_key (f m) \<in> {msg_idempotency_key m, None}" for f q
    by (rule messaging_ok_rows [OF assms]) (rule message_keys_sub [OF keys _ that], simp)
  have upd: "messaging_ok (w\<lparr>messages := update_where p f (messages w)\<rparr>)"
    if "\<And>m. msg_id (f m) = msg_id m \<and> msg_user_id (f m) = msg_user_id m
      \<and> msg_idempotency_key (f m) \<in> {msg_idempotency_key m, None}" for f p
    using sub [of "\<lambda>m. if p m then f m else m" "\<lambda>_. True"] that by (simp add: update_where_def)
  show "messaging_ok (snd (expire_old_messages dry_run now w))" "messaging_ok (snd (free_old_idempotency_keys dry_run now w))"
    using assms
    by (auto simp: expire_old_messages_def free_old_idempotency_keys_def Let_def expired_row_def intro!: upd)
  have "delete_loop c 0 (messages w) = (length (filter (deletable c) (messages w)),
      map (clear_reply_to (gone c (messages w))) (filter (\<lambda>m. \<not> deletable c m) (messages w)))" for c
    using delete_loop_exact keys by (simp add: message_keys_ok_def)
  moreover have "msg_idempotency_key (clear_reply_to g m) = msg_idempotency_key m" "msg_user_id (clear_reply_to g m) = msg_user_id m"
    for g m by (auto simp: clear_reply_to_def split: option.split)
  ultimately show "messaging_ok (snd (cleanup_expired_messages dry_run now w))"
    using assms by (auto simp: cleanup_expired_messages_def Let_def intro!: sub)
qed

text \<open>The event log: ids stay unique when rows are marked, appended in order or deleted.\<close>

definition keeps_all_but_events :: "world \<Rightarrow> world \<Rightarrow> bool" where
  "keeps_all_but_events w w' \<longleftrightarrow> messages w' = messages w \<and> agents w' = agents w \<and> outbox w' = outbox w \<and> queue w' = queue w"

interpretation log_side: posting_frame "\<lambda>w w'. events w' = events w \<and> event_seq w' = event_seq w"
  by unfold_locales auto

interpretation event_side: event_frame keeps_all_but_events
  by unfold_locales (auto simp: keeps_all_but_events_def)

lemma messaging_ok_events:
  assumes "messaging_ok w" and "keeps_all_but_events w w'" and "events_ok w'" and "0 < event_seq w'"
  shows "messaging_ok w'"
proof -
  have "messages w' = messages w" "agents w' = agents w" "message_tasks w' = message_tasks w"
    using assms(2) by (simp_all add: keeps_all_but_events_def message_tasks_def)
  with assms(1,3,4) show ?thesis
    by (simp add: messaging_ok_def message_keys_cong [of w' w] agent_keys_cong [of w' w])
qed

lemma emit_digest_ok:
  assumes "emit_digest m now g (k, w) = Inr (k', w')" and "events_ok w" and "0 < event_seq w"
  shows "events_ok w' \<and> 0 < event_seq w'"
proof -
  have mark: "events_ok (mark_digested ids now v) = events_ok v" "event_seq (mark_digested ids now v) = event_seq v" for ids v
  proof -
    have "ev_id ` set (events (mark_digested ids now v)) = ev_id ` set (events v)"
      "map ev_id (events (mark_digested ids now v)) = map ev_id (events v)" "event_seq (mark_digested ids now v) = event_seq v"
      unfolding set_map [symmetric] by (simp_all add: mark_digested_def map_update_where)
    then show "events_ok (mark_digested ids now v) = events_ok v" unfolding events_ok_def by (metis (no_types, lifting) imageE image_eqI)
  qed (simp add: mark_digested_def)
  from assms show ?thesis
    by (auto simp: emit_digest_def mark Let_def dest!: emit_event_ok split: if_splits prod.splits list.splits reply.splits)
qed

lemma event_background_keeps:
  assumes "messaging_ok w"
  shows "messaging_ok (snd (dispatch_subscription_events denv locked n now w))" and "messaging_ok (snd (emit_digests rank m now w))"
    and "messaging_ok (snd (cleanup_old_events d now w))"
proof -
  have ev: "events_ok w" "0 < event_seq w" using assms by (simp_all add: messaging_ok_def)
  let ?w = "snd (dispatch_subscription_events denv locked n now w)"
  have "events ?w = events w" "event_seq ?w = event_seq w"
    using log_side.dispatch_events_frame [of denv locked n now w] by simp_all
  then show "messaging_ok ?w"
    using assms ev by (intro messaging_ok_events [OF assms event_side.dispatch_events_frame]) (simp_all add: events_cong [of ?w w])
  have "events_ok (snd (emit_digests rank m now w)) \<and> 0 < event_seq (snd (emit_digests rank m now w))"
  proof (cases "fold_res (emit_digest m now) (fetch_undigested rank w) (0, w)")
    case (Inl err)
    then show ?thesis using ev by (simp add: emit_digests_def)
  next
    case (Inr st)
    have "events_ok (snd st) \<and> 0 < event_seq (snd st)"
      by (rule fold_res_invariant [OF Inr]) (use ev emit_digest_ok in \<open>auto\<close>)
    then show ?thesis by (auto simp: emit_digests_def Inr split: prod.split)
  qed
  then show "messaging_ok (snd (emit_digests rank m now w))"
    by (intro messaging_ok_events [OF assms event_side.digest_frame]) simp_all
  show "messaging_ok (snd (cleanup_old_events d now w))"
    by (rule messaging_ok_events [OF assms event_side.prune_frame])
      (use ev in \<open>auto simp: cleanup_old_events_def Let_def events_ok_def distinct_map_filter\<close>)
qed

lemma message_background_keeps: "message_background w w' \<Longrightarrow> messaging_ok w \<Longrightarrow> messaging_ok w'"
proof (induction rule: message_background.induct)
  case (claim job p w expected env ty now)
  then have "p \<in> message_tasks w" by (force simp: message_tasks_def)
  with claim show ?case by (auto simp: messaging_ok_def intro!: push_begin_keeps [unfolded messaging_ok_def])
qed (simp_all add: recover_keeps_messaging housekeeping_keeps event_background_keeps)

lemma push_outcome_keeps: "push_outcome i w w' \<Longrightarrow> messaging_ok w \<Longrightarrow> messaging_ok w'"
  by (elim push_outcomeE) (simp add: route_keeps_messaging)

definition system_ok :: "world \<Rightarrow> bool" where
  "system_ok w \<longleftrightarrow> exec_keys_ok w \<and> attempts_ok w \<and> cue_keys_ok w \<and> messaging_ok w \<and> accounts_ok w
     \<and> sessions_ok (live_sessions w)"

text \<open>Only the requests of its own routers touch the table of live sessions.\<close>

definition keeps_sessions :: "world \<Rightarrow> world \<Rightarrow> bool" where
  "keeps_sessions w w' \<longleftrightarrow> live_sessions w' = live_sessions w"

interpretation session_side: scheduler_frame keeps_sessions
  by unfold_locales (auto simp: keeps_sessions_def insert_outbox_def update_outbox_row_def)

interpretation session_msg_side: messaging_frame keeps_sessions
  by unfold_locales (auto simp: keeps_sessions_def insert_outbox_def)

lemma session_step_tables:
  assumes "session_step w w'"
  shows "cues w' = cues w" "executions w' = executions w" "users w' = users w" "device_codes w' = device_codes w"
    "messages w' = messages w" "agents w' = agents w" "events w' = events w" "event_seq w' = event_seq w"
    "message_tasks w' = message_tasks w"
  using session_step_write [OF assms] by (auto simp: message_tasks_def)

lemma sys_step_keeps:
  assumes "sys_step w w'" and "system_ok w"
  shows "system_ok w'"
proof -
  have msg: "message_request u w w' \<or> message_background w w' \<or> push_outcome i w w' \<Longrightarrow> system_ok w'" for u i
  proof -
    assume st: "message_request u w w' \<or> message_background w w' \<or> push_outcome i w w'"
    then have "keeps_scheduler w w'" "keeps_sessions w w'"
      using cue_side.message_request_frame cue_side.message_background_frame cue_side.push_outcome_frame
        session_msg_side.message_request_frame session_msg_side.message_background_frame session_msg_side.push_outcome_frame
      by blast+
    moreover have "messaging_ok w'"
      using st assms(2) message_request_keeps message_background_keeps push_outcome_keeps by (auto simp: system_ok_def)
    ultimately show "system_ok w'"
      using assms(2) by (simp add: system_ok_def keeps_scheduler_def exec_keys_ok_def attempts_ok_def cue_keys_ok_def
          accounts_ok_def devices_ok_def keeps_sessions_def)
  qed
  have acc: "system_ok w'" if st: "account_step env now w w'" for env now
  proof -
    note same = keeps_work_tables [OF work_side.account_step_frame [OF st]]
    have "accounts_ok w'"
      using account_step_devices [OF st] users_side.account_step_frame [OF st] assms(2)
      by (simp add: system_ok_def accounts_ok_def users_evolve_def)
    moreover have "messaging_ok w'"
      using assms(2) same by (auto simp: system_ok_def message_tasks_def intro!: messaging_ok_tables [of w])
    ultimately show ?thesis
      using assms(2) same by (simp add: system_ok_def exec_keys_ok_def attempts_ok_def cue_keys_ok_def)
  qed
  have "system_ok w'" if "step w w'"
  proof -
    have "keeps_messaging w w'" using that by (rule msg_side.step_frame)
    then have "messaging_ok w'"
      using assms(2) by (auto simp: keeps_messaging_def system_ok_def intro: messaging_ok_tables)
    with step_keeps_tables [OF that] session_side.step_frame [OF that] assms(2) \<open>keeps_messaging w w'\<close> show ?thesis
      by (simp add: system_ok_def keeps_messaging_def keeps_sessions_def accounts_ok_def devices_ok_def)
  qed
  moreover have "system_ok w'" if st: "session_step w w'"
  proof -
    have "sessions_ok (live_sessions w')"
      using session_step_write [OF st] assms(2) by (auto simp: system_ok_def)
    then show ?thesis
      using assms(2) session_step_tables [OF st] messaging_ok_tables [of w w']
      by (simp add: system_ok_def exec_keys_ok_def attempts_ok_def cue_keys_ok_def accounts_ok_def devices_ok_def)
  qed
  moreover have "system_ok w'" if st: "lock_step w w'"
    using lock_step_redis [OF st] assms(2)
    by (auto simp: system_ok_def exec_keys_ok_def attempts_ok_def cue_keys_ok_def accounts_ok_def devices_ok_def)
  ultimately show ?thesis using msg acc assms(1) unfolding sys_step_def quiet_step_def by blast
qed

lemma sys_run_keeps: "sys_step\<^sup>*\<^sup>* w w' \<Longrightarrow> system_ok w \<Longrightarrow> system_ok w'"
  by (induction rule: rtranclp_induct) (auto intro: sys_step_keeps)
subsection \<open>The life of a message\<close>

text \<open>The columns fixed at sending time, and the moves between the delivery states.\<close>

definition letter :: "message \<Rightarrow> string \<times> uuid \<times> string \<times> string \<times> string \<times> string option \<times> string \<times> int \<times> json \<times> time" where
  "letter m = (msg_id m, msg_user_id m, msg_from_agent_id m, msg_to_agent_id m, msg_thread_id m, msg_subject m, msg_body m,
     msg_priority m, msg_metadata m, msg_created_at m)"

definition state_edge :: "delivery_state \<Rightarrow> delivery_state \<Rightarrow> bool" where
  "state_edge s s' \<longleftrightarrow> s' = s \<or>
     (case s' of
        MDelivering \<Rightarrow> s \<in> {MQueued, MRetryReady}
      | MRetryReady \<Rightarrow> s = MDelivering
      | MFailed \<Rightarrow> s = MDelivering
      | MDelivered \<Rightarrow> s = MQueued
      | MRead \<Rightarrow> s \<notin> {MAcked, MExpired}
      | MAcked \<Rightarrow> s \<noteq> MExpired
      | MExpired \<Rightarrow> s \<noteq> MAcked
      | MQueued \<Rightarrow> False
      | MClaimed \<Rightarrow> False)"

definition moves_on :: "message \<Rightarrow> message \<Rightarrow> bool" where
  "moves_on m m' \<longleftrightarrow> letter m' = letter m \<and> state_edge (msg_delivery_state m) (msg_delivery_state m')"

text \<open>Rows are rewritten along the edges and appended, or finished ones deleted.\<close>

definition messages_move :: "world \<Rightarrow> world \<Rightarrow> bool" where
  "messages_move w w' \<longleftrightarrow>
     (\<exists>f news. messages w' = map f (messages w) @ news \<and> (\<forall>m \<in> set (messages w). moves_on m (f m)))
     \<or> (\<exists>f q. messages w' = map f (filter q (messages w)) \<and> (\<forall>m \<in> set (messages w). moves_on m (f m))
          \<and> (\<forall>m \<in> set (messages w). \<not> q m \<longrightarrow> msg_delivery_state m \<in> {MAcked, MExpired}))"

lemma moves_on_refl [simp]: "moves_on m m"
  by (simp add: moves_on_def state_edge_def)

lemma messages_move_append: "messages w' = messages w @ news \<Longrightarrow> messages_move w w'"
  unfolding messages_move_def by (rule disjI1) (rule exI [of _ id], rule exI [of _ news], simp)

lemma messages_move_same: "messages w' = messages w \<Longrightarrow> messages_move w w'"
  by (rule messages_move_append [where news = "[]"]) simp

lemma messages_move_where:
  assumes "messages w' = update_where p g (messages w)" and "\<And>m. m \<in> set (messages w) \<Longrightarrow> p m \<Longrightarrow> moves_on m (g m)"
  shows "messages_move w w'"
  unfolding messages_move_def
  by (rule disjI1, rule exI [of _ "\<lambda>m. if p m then g m else m"], rule exI [of _ "[]"])
    (use assms in \<open>auto simp: update_where_def\<close>)

lemma messages_move_row:
  assumes "messages_move w w'" and "message_keys_ok w'" and "message_keys_ok w" and "get_message_row w i = Some m"
  shows "(get_message_row w' i = None \<and> msg_delivery_state m \<in> {MAcked, MExpired})
    \<or> (\<exists>m'. get_message_row w' i = Some m' \<and> moves_on m m')"
proof -
  have m: "m \<in> set (messages w)" "msg_id m = i" using get_message_row_id [OF assms(4)] by auto
  have hit: ?thesis if "x \<in> set (messages w')" "moves_on m x" for x
    using get_message_row_mem [OF assms(2) that(1)] that(2) m(2) by (auto simp: moves_on_def letter_def)
  from assms(1) show ?thesis
    unfolding messages_move_def
  proof (elim disjE exE conjE)
    fix f news
    assume "messages w' = map f (messages w) @ news" "\<forall>m \<in> set (messages w). moves_on m (f m)"
    with m(1) show ?thesis by (intro hit [of "f m"]) auto
  next
    fix f q
    assume f: "messages w' = map f (filter q (messages w))" "\<forall>m \<in> set (messages w). moves_on m (f m)"
      and q: "\<forall>m \<in> set (messages w). \<not> q m \<longrightarrow> msg_delivery_state m \<in> {MAcked, MExpired}"
    show ?thesis
    proof (cases "q m")
      case True
      with f m(1) show ?thesis by (intro hit [of "f m"]) auto
    next
      case False
      have "msg_id x \<noteq> i" if "x \<in> set (messages w')" for x
      proof
        assume x: "msg_id x = i"
        from that obtain y where y: "y \<in> set (messages w)" "q y" "x = f y" by (auto simp: f(1))
        with f(2) x have "msg_id y = i" by (auto simp: moves_on_def letter_def)
        with y(1) m assms(3) have "y = m" by (auto simp: message_keys_ok_def distinct_map dest: inj_onD)
        with y(2) False show False by simp
      qed
      then have "get_message_row w' i = None" by (auto simp: get_message_row_def find_None_iff)
      with q m(1) False show ?thesis by blast
    qed
  qed
qed
lemma send_moves: "messages_move w (snd (send_message env u d fh key i member now w))"
proof -
  have persist: "\<exists>news. messages (snd (persist_message env u fa t m now v)) = messages v @ news" for fa t m v
    using persist_messages [OF surjective_pairing, of env u fa t m now v] by auto
  show ?thesis
    using send_message_cases [of w env u d fh key i member now]
  proof (elim disjE exE conjE)
    fix v fa t m
    assume "db_same w v" "snd (send_message env u d fh key i member now w) = snd (persist_message env u fa t m now v)"
    moreover obtain news where "messages (snd (persist_message env u fa t m now v)) = messages v @ news"
      using persist [of fa t m v] by blast
    ultimately show ?thesis by (intro messages_move_append [where news = news]) (simp add: db_same_tables)
  qed (simp add: messages_move_same db_same_tables)
qed

lemma reader_moves:
  "messages_move w (snd (mark_read u i now w))" "messages_move w (snd (mark_acked u i now w))"
  "messages_move w (snd (list_inbox u addr f b now w))"
  if "message_keys_ok w"
proof -
  have one: "m = m'" if "get_message_row w i = Some m'" "m \<in> set (messages w)" "msg_id m = i" for m m'
    using get_message_row_mem [OF \<open>message_keys_ok w\<close> that(2)] that(1,3) by simp
  show "messages_move w (snd (mark_read u i now w))"
    using mark_read_messages [of u i now w]
  proof (elim disjE exE conjE)
    fix m
    assume m: "get_message_row w i = Some m" "msg_delivery_state m \<notin> {MAcked, MExpired, MRead}"
      and w': "snd (mark_read u i now w) = update_message_row i (read_row now) w"
    show ?thesis
      unfolding w' by (rule messages_move_where [where p = "\<lambda>m. msg_id m = i" and g = "read_row now"])
        (use m one in \<open>auto simp: update_message_row_def moves_on_def letter_def state_edge_def read_row_def\<close>)
  qed (simp add: messages_move_same)
  show "messages_move w (snd (mark_acked u i now w))"
    using mark_acked_messages [of u i now w]
  proof (elim disjE exE conjE)
    fix m
    assume m: "get_message_row w i = Some m" "msg_delivery_state m \<notin> {MAcked, MExpired}"
      and w': "snd (mark_acked u i now w) = update_message_row i (ack_row now) w"
    show ?thesis
      unfolding w' by (rule messages_move_where [where p = "\<lambda>m. msg_id m = i" and g = "ack_row now"])
        (use m one in \<open>auto simp: update_message_row_def moves_on_def letter_def state_edge_def ack_row_def\<close>)
  qed (simp add: messages_move_same)
  show "messages_move w (snd (list_inbox u addr f b now w))"
    using list_inbox_messages [of u addr f b now w]
  proof (elim disjE exE conjE)
    fix a cp
    assume "messages (snd (list_inbox u addr f b now w)) = update_where (polled (ag_id a) cp now) (delivered_row now) (messages w)"
    then show ?thesis
      by (rule messages_move_where) (auto simp: polled_def moves_on_def letter_def state_edge_def delivered_row_def)
  qed (simp add: messages_move_same)
qed

lemma request_moves:
  assumes "message_request u w w'" and "message_keys_ok w"
  shows "messages_move w w'"
proof -
  have same: "messages_move w v" if "(\<exists>f. v = agents_update f w) \<or> (\<exists>f. v = subscriptions_update f w)" for v
    using that by (auto intro: messages_move_same)
  from assms(1) show ?thesis
    by (cases rule: message_request.cases)
      (use send_moves reader_moves [OF assms(2)] same agent_requests_only_agents subscription_requests_only_subscriptions
        in \<open>simp_all\<close>)
qed

lemma event_moves:
  "messages_move w (snd (dispatch_subscription_events denv locked n now w))" "messages_move w (snd (emit_digests rank m now w))"
  "messages_move w (snd (cleanup_old_events d now w))"
  using event_side.dispatch_events_frame event_side.digest_frame event_side.prune_frame
  by (auto simp: keeps_all_but_events_def intro!: messages_move_same)

lemma background_moves:
  assumes "message_background w w'" and "message_keys_ok w"
  shows "messages_move w w'"
  using assms
proof (induction rule: message_background.induct)
  case (claim job p w expected env ty now)
  have cap: "messages (snd (check_concurrent_cap_or_recycle env u ty p now w)) = messages w" for u
    by (auto simp: check_concurrent_cap_or_recycle_def Let_def split: sum.split)
  have release: "messages (release_concurrent env held u now v) = messages v" for held u v
    by (simp add: release_concurrent_def split: sum.split)
  let ?p = "\<lambda>m. msg_id m = m_message_id p \<and> msg_delivery_state m = expected"
  have "messages (push_begin env ty expected p now w) = messages w
      \<or> messages (push_begin env ty expected p now w) = update_where ?p (claim_message_row now) (messages w)"
    by (auto simp: push_begin_def Let_def split_def claim_message_def cap release split: option.split cap_result.split)
  then show ?case
  proof
    assume "messages (push_begin env ty expected p now w) = update_where ?p (claim_message_row now) (messages w)"
    then show ?thesis
      by (rule messages_move_where) (use claim(2) in \<open>auto simp: moves_on_def letter_def state_edge_def claim_message_row_def\<close>)
  qed (rule messages_move_same)
next
  case (recover w locked s start now)
  let ?ds = "stale_messages locked (start - seconds s) w"
  have "distinct (messages w)" "distinct (map msg_id (messages w))" using recover by (auto simp: message_keys_ok_def distinct_map)
  moreover have sub: "set ?ds \<subseteq> set (messages w)" "\<And>m. m \<in> set ?ds \<Longrightarrow> msg_delivery_state m = MDelivering"
    by (auto simp: stale_messages_def stale_delivery_def dest!: in_set_takeD)
  moreover have "distinct ?ds" using calculation(1) by (simp add: stale_messages_def)
  ultimately have "messages (snd (recover_stale_message_deliveries locked s start now w)) =
      map (\<lambda>m. if m \<in> set ?ds then recovered_message now w m m else m) (messages w) @ []"
    using stale_batch.batch_simultaneous [of "messages w" ?ds now w]
    by (simp add: recover_stale_message_deliveries_def Let_def recover_fold(1))
  moreover have "moves_on m (recovered_message now w m m)" if "m \<in> set ?ds" for m
    using sub(2) [OF that]
    by (simp add: moves_on_def letter_def state_edge_def recovered_message_def message_ready_row_def push_failed_row_def)
  ultimately show ?case unfolding messages_move_def by (intro disjI1 exI conjI) auto
next
  case (expire w dry_run now)
  show ?case
  proof (cases dry_run)
    case False
    show ?thesis
      by (rule messages_move_where [where p = "overdue now" and g = expired_row])
        (auto simp: expire_old_messages_def Let_def False moves_on_def letter_def state_edge_def expired_row_def overdue_def)
  qed (simp add: expire_old_messages_def Let_def messages_move_same)
next
  case (free_keys w dry_run now)
  show ?case
  proof (cases dry_run)
    case False
    show ?thesis
      by (rule messages_move_where [where p = "key_lapsed (now - hours IDEMPOTENCY_KEY_WINDOW_HOURS)"
            and g = "\<lambda>m. m\<lparr>msg_idempotency_key := None\<rparr>"])
        (auto simp: free_old_idempotency_keys_def Let_def False moves_on_def letter_def state_edge_def)
  qed (simp add: free_old_idempotency_keys_def Let_def messages_move_same)
next
  case (purge w dry_run now)
  show ?case
  proof (cases dry_run)
    case False
    let ?c = "now - days MESSAGE_HARD_DELETE_DAYS"
    have "messages (snd (cleanup_expired_messages dry_run now w)) =
        map (clear_reply_to (gone ?c (messages w))) (filter (\<lambda>m. \<not> deletable ?c m) (messages w))"
      using delete_loop_exact purge by (simp add: cleanup_expired_messages_def Let_def False message_keys_ok_def)
    moreover have "moves_on m (clear_reply_to g m)" for g m
      by (auto simp: moves_on_def letter_def state_edge_def clear_reply_to_def split: option.split)
    ultimately show ?thesis unfolding messages_move_def by (intro disjI2 exI conjI) (auto simp: deletable_def)
  qed (simp add: cleanup_expired_messages_def Let_def messages_move_same)
qed (use event_moves in \<open>simp_all add: messages_move_same release_concurrent_def split: sum.split\<close>)

lemma quiet_moves:
  assumes "quiet_step w w'" and "message_keys_ok w"
  shows "messages_move w w'"
proof -
  have "messages_move w w'" if "step w w'"
    using msg_side.step_frame [OF that] by (simp add: keeps_messaging_def messages_move_same)
  moreover have "messages_move w w'" if "account_step env now w w'" for env now
    using keeps_work_tables [OF work_side.account_step_frame [OF that]] by (simp add: messages_move_same)
  moreover have "messages_move w w'" if "session_step w w'"
    using session_step_tables(5) [OF that] by (rule messages_move_same)
  moreover have "messages_move w w'" if "lock_step w w'"
    using lock_step_redis [OF that] by (auto intro: messages_move_same)
  ultimately show ?thesis using assms unfolding quiet_step_def using request_moves background_moves by blast
qed

text \<open>The outcome of a push overwrites the state of its message, whatever it is by then.\<close>

lemma outcome_row:
  assumes "push_outcome i w w'" and "get_message_row w j = Some m"
  shows "\<exists>m'. get_message_row w' j = Some m' \<and> letter m' = letter m
    \<and> (if j = i then msg_delivery_state m' \<in> {MDelivered, MRetryReady, MFailed} else m' = m)"
proof -
  from assms(1) obtain to_agent attempt result now w1 env held u where
    r: "route_attempt_outcome i to_agent attempt result now w = Inr w1" and w': "w' = release_concurrent env held u now w1"
    by (auto elim: push_outcomeE)
  have "messages w' = messages w1" by (simp add: w' release_concurrent_def split: sum.split)
  then have "get_message_row w' j = get_message_row w1 j" by (simp add: get_message_row_def)
  moreover obtain f v where w1: "w1 = update_message_row i f v" "get_message_row v j = get_message_row w j"
    and f: "f \<in> {pushed_row now, message_ready_row, push_failed_row now}"
  proof -
    have new: "get_message_row (insert_outbox e c ty pl s t w) j = get_message_row w j" for e c ty pl s t
      by (simp add: get_message_row_def)
    show ?thesis
      using r that [of "pushed_row now" w] that [of "push_failed_row now" w] that [OF _ new]
      by (auto simp: route_attempt_outcome_def Let_def split: if_splits sum.splits)
  qed
  moreover have "get_message_row (update_message_row i f v) j = Some (if j = i then f m else m)"
    using f w1(2) assms(2) pushed_upd.row_updated ready_upd.row_updated push_failed_upd.row_updated by auto
  moreover have "letter (f m) = letter m \<and> msg_delivery_state (f m) \<in> {MDelivered, MRetryReady, MFailed}"
    using f by (auto simp: letter_def pushed_row_def message_ready_row_def push_failed_row_def)
  ultimately show ?thesis by auto
qed
subsection \<open>Tenants\<close>

text \<open>The rows of messaging that belong to other users than \<open>u\<close>.\<close>

definition agent_owner_is :: "world \<Rightarrow> uuid \<Rightarrow> string \<Rightarrow> bool" where
  "agent_owner_is w u i = (case get_agent_row w i of Some a \<Rightarrow> ag_user_id a = u | None \<Rightarrow> False)"

definition foreign_messaging_kept :: "uuid \<Rightarrow> world \<Rightarrow> world \<Rightarrow> bool" where
  "foreign_messaging_kept u w w' \<longleftrightarrow>
     (\<forall>m \<in> set (messages w). msg_user_id m \<noteq> u \<and> \<not> agent_owner_is w u (msg_to_agent_id m) \<longrightarrow> m \<in> set (messages w'))
     \<and> (\<forall>a \<in> set (agents w). ag_user_id a \<noteq> u \<longrightarrow> a \<in> set (agents w'))
     \<and> (\<forall>s \<in> set (subscriptions w). \<not> agent_owner_is w u (sub_subscriber_agent_id s) \<longrightarrow> s \<in> set (subscriptions w'))"

lemma get_agent_row_mem: "agent_keys_ok w \<Longrightarrow> a \<in> set (agents w) \<Longrightarrow> get_agent_row w (ag_id a) = Some a"
  unfolding get_agent_row_def agent_keys_ok_def by (rule find_key_distinct) auto

lemma owned_agent_owner:
  assumes "agent_keys_ok w" and "get_agent_owned w u b addr = Reply a"
  shows "agent_owner_is w u (ag_id a)" and "a \<in> set (agents w)" and "ag_user_id a = u"
  using get_agent_owned_SomeD [OF assms(2)] get_agent_row_mem [OF assms(1)] by (auto simp: agent_owner_is_def)

lemma update_where_mem: "x \<in> set rows \<Longrightarrow> \<not> p x \<Longrightarrow> x \<in> set (update_where p f rows)"
  by (auto simp: update_where_def)

lemma own_agent_update:
  assumes "agent_keys_ok w" and "a \<in> set (agents w)" and "ag_user_id a = u"
    and "b \<in> set (agents w)" and "ag_user_id b \<noteq> u"
  shows "b \<in> set (agents (update_agent_row (ag_id a) f w))"
proof -
  have "ag_id b \<noteq> ag_id a"
    using assms get_agent_row_mem [OF assms(1,2)] get_agent_row_mem [OF assms(1,4)] by auto
  with assms(4) show ?thesis by (simp add: update_agent_row_def update_where_mem)
qed

lemma foreign_kept_tables:
  assumes "messages v = messages w" and "agents v = agents w" and "subscriptions v = subscriptions w"
  shows "foreign_messaging_kept u w v"
  using assms by (simp add: foreign_messaging_kept_def)

lemma send_foreign:
  assumes "agent_keys_ok w"
  shows "foreign_messaging_kept u w (snd (send_message env u d fh key i member now w))"
  using send_message_cases [of w env u d fh key i member now]
proof (elim disjE exE conjE)
  assume "db_same w (snd (send_message env u d fh key i member now w))"
  then show ?thesis by (simp add: foreign_kept_tables db_same_tables)
next
  fix v fa t m
  let ?w' = "snd (send_message env u d fh key i member now w)"
  assume v: "db_same w v" and fa: "ag_user_id fa = u" "fa \<in> set (agents w)"
    and w': "?w' = snd (persist_message env u fa t m now v)"
  show ?thesis
    using persist_cases [of env u fa t m now v]
  proof (elim disjE exE conjE)
    assume "snd (persist_message env u fa t m now v) = v"
    with v show ?thesis by (simp add: w' foreign_kept_tables db_same_tables)
  next
    fix e w1
    assume ok: "message_storable v m"
      and e: "emit_event ''message.delivered'' (ag_id t) (delivered_payload m) (Some (delivered_key (msg_id m)))
        (Some (msg_body m)) now (v\<lparr>messages := messages v @ [m]\<rparr>) = (Reply e, w1)"
      and p: "snd (persist_message env u fa t m now v) =
        snd (increment_monthly_count (me_redis_up env) u now (touch_last_seen (ag_id fa) now (enqueue_push t m now w1)))"
    note tables = persist_tables [OF ok e p, folded w', unfolded db_same_tables [OF v]]
    have "agents ?w' = agents (update_agent_row (ag_id fa) (\<lambda>a. a\<lparr>ag_last_seen_at := Some now, ag_updated_at := now\<rparr>) w)"
      by (simp add: tables(2) touch_last_seen_def update_agent_row_def db_same_tables [OF v])
    then show ?thesis
      using own_agent_update [OF assms fa(2,1)] tables(1,3) by (auto simp: foreign_messaging_kept_def)
  qed
qed

lemma reader_foreign:
  assumes "messaging_ok w"
  shows "foreign_messaging_kept u w (snd (mark_read u i now w))" and "foreign_messaging_kept u w (snd (mark_acked u i now w))"
    and "foreign_messaging_kept u w (snd (list_inbox u addr f b now w))"
proof -
  have keys: "agent_keys_ok w" "message_keys_ok w" using assms by (auto simp: messaging_ok_def)
  have mine: "msg_user_id m = u \<or> agent_owner_is w u (msg_to_agent_id m)"
    if "get_message_for_user w u i = Reply x" "m \<in> set (messages w)" "msg_id m = msg_id x" for m x
  proof -
    have x: "x \<in> set (messages w)" "msg_user_id x = u \<or> agent_owner_is w u (msg_to_agent_id x)"
      using that(1) by (auto simp: get_message_for_user_def get_message_row_def agent_owner_is_def get_agent_row_def
          dest: find_SomeD split: option.splits if_splits)
    with get_message_row_mem [OF keys(2) x(1)] get_message_row_mem [OF keys(2) that(2)] that(3) show ?thesis by simp
  qed
  have upd: "foreign_messaging_kept u w (update_message_row (msg_id x) g w)" if "get_message_for_user w u i = Reply x" for x g
    using mine [OF that] by (auto simp: foreign_messaging_kept_def update_message_row_def intro!: update_where_mem)
  have same: "foreign_messaging_kept u w w" by (simp add: foreign_kept_tables)
  show "foreign_messaging_kept u w (snd (mark_read u i now w))" "foreign_messaging_kept u w (snd (mark_acked u i now w))"
    using same upd by (auto simp: mark_read_def mark_acked_def and_then_def split: reply.split)
  show "foreign_messaging_kept u w (snd (list_inbox u addr f b now w))"
  proof -
    have bump: "foreign_messaging_kept u w (bump_last_seen (ag_id a) now v)"
      if "get_agent_owned w u True addr = Reply a" "agents v = agents w" "subscriptions v = subscriptions w"
        "messages v = messages w \<or> messages v = update_where (polled (ag_id a) cp now) (delivered_row now) (messages w)" for a v cp
    proof -
      note own = owned_agent_owner [OF keys(1) that(1)]
      have "m \<in> set (messages v)" if "m \<in> set (messages w)" "\<not> agent_owner_is w u (msg_to_agent_id m)" for m
        using that own(1) \<open>messages v = _ \<or> _\<close> by (auto simp: polled_def intro!: update_where_mem)
      moreover have "x \<in> set (agents (bump_last_seen (ag_id a) now v))" if "x \<in> set (agents w)" "ag_user_id x \<noteq> u" for x
        using own_agent_update [OF keys(1) own(2,3) that] \<open>agents v = agents w\<close> by (simp add: bump_last_seen_def update_agent_row_def)
      ultimately show ?thesis
        using that(3) by (simp add: foreign_messaging_kept_def bump_last_seen_def update_agent_row_def)
    qed
    have "foreign_messaging_kept u w (bump_last_seen (ag_id a) now w)"
      "foreign_messaging_kept u w (bump_last_seen (ag_id a) now (deliver_queued (ag_id a) cp now w))"
      if "get_agent_owned w u True addr = Reply a" for a cp
      using bump [OF that, of w] bump [OF that, of "deliver_queued (ag_id a) cp now w" cp] by (simp_all add: deliver_queued_def)
    with same show ?thesis unfolding list_inbox_def and_then_def Let_def by (auto split: reply.split)
  qed
qed
lemma agent_requests_foreign:
  assumes "agent_keys_ok w"
  shows "foreign_messaging_kept u w (snd (create_agent s u d i sec hex now w))"
    and "foreign_messaging_kept u w (snd (update_agent s u addr d2 sec now w))"
    and "foreign_messaging_kept u w (snd (soft_delete_agent u addr now w))"
    and "foreign_messaging_kept u w (snd (rotate_webhook_secret b u addr sec now w))"
proof -
  have same: "foreign_messaging_kept u w w" by (simp add: foreign_kept_tables)
  show "foreign_messaging_kept u w (snd (create_agent s u d i sec hex now w))"
    using create_agent_cases [of s u d i sec hex now w]
  proof (elim disjE exE)
    fix a x
    assume "create_agent s u d i sec hex now w = (Reply (a, x), w\<lparr>agents := agents w @ [a]\<rparr>)"
    then show ?thesis by (simp add: foreign_messaging_kept_def)
  qed (simp add: same)
  have upd: "foreign_messaging_kept u w (update_agent_row (ag_id a) f w)" if "get_agent_owned w u del addr = Reply a" for a f del
    using own_agent_update [OF assms owned_agent_owner(2,3) [OF assms that]]
    by (simp add: foreign_messaging_kept_def) (simp add: update_agent_row_def)
  show "foreign_messaging_kept u w (snd (update_agent s u addr d2 sec now w))"
    "foreign_messaging_kept u w (snd (soft_delete_agent u addr now w))"
    "foreign_messaging_kept u w (snd (rotate_webhook_secret b u addr sec now w))"
    using same upd
    by (auto simp: update_agent_def soft_delete_agent_def rotate_webhook_secret_def Let_def split: reply.split check.split)
qed

lemma subscription_requests_foreign:
  assumes "agent_keys_ok w"
  shows "foreign_messaging_kept u w (snd (create_subscription_endpoint s u ref ty tg url ib i sec now w))"
    and "foreign_messaging_kept u w (snd (delete_subscription_endpoint u ref i now w))"
    and "foreign_messaging_kept u w (snd (ack_subscription_endpoint u ref i n w))"
    and "foreign_messaging_kept u w (snd (pull_events_endpoint u ref since lim ty' False started [] w))"
proof -
  have same: "foreign_messaging_kept u w w" by (simp add: foreign_kept_tables)
  have upd: "foreign_messaging_kept u w (w\<lparr>subscriptions := update_where p g (subscriptions w)\<rparr>)"
    if "get_agent_owned w u False ref = Reply a" "\<And>x. p x \<Longrightarrow> sub_subscriber_agent_id x = ag_id a" for a p g
    using owned_agent_owner(1) [OF assms that(1)] that(2)
    by (auto simp: foreign_messaging_kept_def intro!: update_where_mem)
  have add: "foreign_messaging_kept u w (w\<lparr>subscriptions := subscriptions w @ [x]\<rparr>)" for x
    by (simp add: foreign_messaging_kept_def)
  show "foreign_messaging_kept u w (snd (create_subscription_endpoint s u ref ty tg url ib i sec now w))"
    using same add by (auto simp: create_subscription_endpoint_def create_subscription_def with_agent_def Let_def
      split: reply.split option.split)
  show "foreign_messaging_kept u w (snd (delete_subscription_endpoint u ref i now w))"
    "foreign_messaging_kept u w (snd (ack_subscription_endpoint u ref i n w))"
    "foreign_messaging_kept u w (snd (pull_events_endpoint u ref since lim ty' False started [] w))"
    using same upd
    by (auto simp: delete_subscription_endpoint_def ack_subscription_endpoint_def pull_events_endpoint_def with_agent_def
      detach_subscription_def ack_subscription_def advance_ack_after_pull_def advance_ack_watermark_def update_subs_def Let_def
      split: reply.split option.split prod.split intro!: upd)
qed

lemma request_foreign:
  assumes "message_request u w w'" and "messaging_ok w"
  shows "foreign_messaging_kept u w w'"
proof -
  have keys: "agent_keys_ok w" using assms(2) by (simp add: messaging_ok_def)
  from assms(1) show ?thesis
    by (cases rule: message_request.cases)
      (use send_foreign [OF keys] reader_foreign [OF assms(2)] agent_requests_foreign [OF keys]
        subscription_requests_foreign [OF keys] in \<open>simp_all\<close>)
qed
subsection \<open>Runs of the whole system\<close>

text \<open>A run starts with empty tables; users and configuration are arbitrary.\<close>

inductive sys_reachable :: "world \<Rightarrow> bool" where
  start: "cues w = [] \<Longrightarrow> executions w = [] \<Longrightarrow> agents w = [] \<Longrightarrow> messages w = [] \<Longrightarrow> events w = [] \<Longrightarrow> event_seq w = 1
     \<Longrightarrow> outbox w = [] \<Longrightarrow> queue w = [] \<Longrightarrow> users_unique (users w) \<Longrightarrow> device_codes w = []
     \<Longrightarrow> live_sessions w = [] \<Longrightarrow> sys_reachable w"
| next_state: "sys_reachable w \<Longrightarrow> sys_step w w' \<Longrightarrow> sys_reachable w'"

lemma sys_reachable_ok: "sys_reachable w \<Longrightarrow> system_ok w"
proof (induction rule: sys_reachable.induct)
  case (start w)
  then show ?case
    by (simp add: system_ok_def messaging_ok_def exec_keys_ok_def attempts_ok_def cue_keys_ok_def message_keys_ok_def
        agent_keys_ok_def events_ok_def message_tasks_def accounts_ok_def devices_ok_def sessions_ok_def
        session_indexes_ok_def)
qed (rule sys_step_keeps)

lemma sys_step_row_kept:
  assumes "sys_step w w'" and "system_ok w" and "get_exec_row w e = Some r"
  shows "\<exists>r'. get_exec_row w' e = Some r' \<and> row_evolves r r'"
proof -
  have "\<exists>r'. get_exec_row w' e = Some r' \<and> row_evolves r r'" if "keeps_scheduler w w'"
    using that assms(3) by (simp add: keeps_scheduler_def get_exec_row_def)
  moreover have "\<exists>r'. get_exec_row w' e = Some r' \<and> row_evolves r r'" if "account_step env now w w'" for env now
    using keeps_work_tables [OF work_side.account_step_frame [OF that]] assms(3) by (simp add: get_exec_row_def)
  moreover have "\<exists>r'. get_exec_row w' e = Some r' \<and> row_evolves r r'" if "session_step w w'"
    using session_step_tables(2) [OF that] assms(3) by (simp add: get_exec_row_def)
  moreover have "\<exists>r'. get_exec_row w' e = Some r' \<and> row_evolves r r'" if "lock_step w w'"
    using lock_step_redis [OF that] assms(3) by (auto simp: get_exec_row_def)
  ultimately show ?thesis
    using assms step_row_kept
    unfolding sys_step_def quiet_step_def system_ok_def
    using cue_side.message_request_frame cue_side.message_background_frame cue_side.push_outcome_frame by blast
qed
lemma sent_world_ok: "system_ok sent_world"
proof -
  have "message_keys_ok sent_world" by (rule sent_world_keys)
  moreover have "agent_keys_ok sent_world"
    by (simp add: agent_keys_ok_def sent_world_def message_world_tables alice_agent_def hook_agent_def bob_agent_def
        example_agent_def webhook_paired_def)
  moreover have "events_ok sent_world" "0 < event_seq sent_world" "message_tasks sent_world = {}"
    by (simp_all add: events_ok_def message_tasks_def sent_world_def message_world_def user_world_def empty_world_def)
  moreover have "exec_keys_ok sent_world" "attempts_ok sent_world" "cue_keys_ok sent_world"
    by (simp_all add: exec_keys_ok_def attempts_ok_def cue_keys_ok_def sent_world_def message_world_def user_world_def
        empty_world_def)
  moreover have "accounts_ok sent_world"
    by (simp add: accounts_ok_def devices_ok_def users_unique_def sent_world_def message_world_def user_world_def empty_world_def
        example_user_def)
  moreover have "live_sessions sent_world = []"
    by (simp add: sent_world_def message_world_def user_world_def empty_world_def)
  ultimately show ?thesis by (simp add: system_ok_def messaging_ok_def sessions_ok_def session_indexes_ok_def)
qed

end
