(* ===== verification/Poller.thy ===== *)
theory Poller
  imports System "HOL-Library.Countable"
begin

section \<open>The cycle of the poller (\<open>run_poller\<close> of \<open>src/worker/poller.py\<close>)\<close>

text \<open>
  One iteration of the poller's endless loop: the gate of the leader lock, nine stages in a fixed
  order, the heartbeat, the renewal of the lock, the digests when their period is over and the hourly
  cleanup. An exception in a stage ends the iteration. Every stage runs its own transactions, so other
  sessions may do anything between two stages: \<open>between k\<close> is what they do before stage \<open>k\<close>.
\<close>

subsection \<open>State, settings and stages\<close>

text \<open>The two globals of the module; \<open>datetime.min\<close> at the start of the process.\<close>

record poller_state =
  ps_last_cleanup :: time
  ps_last_digest_emit :: time

definition datetime_min :: time where
  "datetime_min = seconds (- 62135596800)"

definition poller_start :: poller_state where
  "poller_start = \<lparr>ps_last_cleanup = datetime_min, ps_last_digest_emit = datetime_min\<rparr>"

text \<open>What an iteration depends on: the settings, the clock at the moments it is read, the outside world.\<close>

record poller_env =
  po_replica :: string
  po_lock_ttl :: int
  po_heartbeat_ttl :: int
  po_batch :: nat
  po_stale_after :: int
  po_message_stale_after :: int
  po_worker_heartbeat_timeout :: int
  po_worker_claim_timeout :: int
  po_worker_unclaimed_timeout :: int
  po_digest_period :: int
  po_min_batch :: nat
  po_gate_up :: bool        \<comment> \<open>Redis answers at the gate\<close>
  po_beat_up :: bool        \<comment> \<open>Redis answers to the heartbeat\<close>
  po_renew_up :: bool       \<comment> \<open>Redis answers to the renewal\<close>
  po_cron :: cron_fn
  po_ids :: "nat \<Rightarrow> nat \<Rightarrow> uuid"
  po_enqueue :: "outbox_row \<Rightarrow> string option"
  po_env :: env
  po_dispatch :: dispatch_env
  po_rank :: "string \<Rightarrow> nat"
  po_cues_locked :: "nat \<Rightarrow> string \<Rightarrow> bool"
  po_execs_locked :: "nat \<Rightarrow> uuid \<Rightarrow> bool"
  po_messages_locked :: "string \<Rightarrow> bool"
  po_outbox_locked :: "nat \<Rightarrow> bool"
  po_subs_locked :: "uuid \<Rightarrow> bool"
  po_clock :: "nat \<Rightarrow> time"     \<comment> \<open>the clock during stage \<open>k\<close>\<close>
  po_later :: "nat \<Rightarrow> time"     \<comment> \<open>the clock when stage \<open>k\<close> reads it again\<close>
  po_drain_clock :: "nat \<Rightarrow> time" \<comment> \<open>the clock of the batches of the first stage\<close>
  po_cycle_ms :: int
  po_now :: time                \<comment> \<open>the clock after the stages\<close>

definition DISPATCH_BATCH_SIZE :: nat where
  "DISPATCH_BATCH_SIZE = 100"

type_synonym stage = "world \<Rightarrow> (py_error + nat) \<times> world"

definition stage_total :: "(world \<Rightarrow> nat \<times> world) \<Rightarrow> stage" where
  "stage_total f w = (let (n, w') = f w in (Inr n, w'))"

text \<open>An operation whose exception rolls its only transaction back.\<close>

definition stage_atomic :: "(world \<Rightarrow> py_error + nat \<times> world) \<Rightarrow> stage" where
  "stage_atomic f w = (case f w of Inl err \<Rightarrow> (Inl err, w) | Inr (n, w') \<Rightarrow> (Inr n, w'))"

definition stage_poll :: "poller_env \<Rightarrow> stage" where
  "stage_poll e w =
     (case poll_due_cues (po_cron e) (po_cues_locked e) (po_ids e) (po_drain_clock e) (po_batch e) w of
        Inl (err, w') \<Rightarrow> (Inl err, w')
      | Inr (n, w') \<Rightarrow> (Inr n, w'))"

definition poller_stages :: "poller_env \<Rightarrow> stage list" where
  "poller_stages e =
     [stage_poll e,
      stage_total (poll_retries (po_execs_locked e 1) (po_clock e 1) (po_batch e)),
      stage_atomic (recover_stale_executions (po_env e) (po_stale_after e) (po_execs_locked e 2) (po_clock e 2) (po_later e 2)),
      stage_total (recover_stale_message_deliveries (po_messages_locked e) (po_message_stale_after e) (po_clock e 3) (po_later e 3)),
      stage_total (recover_stale_worker_claims (po_worker_heartbeat_timeout e) (po_worker_claim_timeout e) (po_clock e 4)),
      stage_total (fail_unclaimed_worker_executions (po_env e) (po_worker_unclaimed_timeout e) (po_clock e 5)),
      stage_total (dispatch_outbox (po_enqueue e) (po_outbox_locked e) (po_clock e 6) (po_batch e)),
      dispatch_subscription_events (po_dispatch e) (po_subs_locked e) DISPATCH_BATCH_SIZE (po_clock e 7),
      stage_atomic (check_worker_health (po_env e) 300 (po_clock e 8))]"

text \<open>The stages in order; the first exception ends them. The counts come in the order of the stages.\<close>

fun run_stages :: "(nat \<Rightarrow> world \<Rightarrow> world) \<Rightarrow> nat \<Rightarrow> stage list \<Rightarrow> world \<Rightarrow> (py_error + nat list) \<times> world" where
  "run_stages between k [] w = (Inr [], w)"
| "run_stages between k (s # ss) w =
     (case s w of
        (Inl err, w1) \<Rightarrow> (Inl err, w1)
      | (Inr n, w1) \<Rightarrow>
          (case run_stages between (Suc k) ss (between k w1) of
             (Inl err, w2) \<Rightarrow> (Inl err, w2)
           | (Inr ns, w2) \<Rightarrow> (Inr (n # ns), w2)))"

subsection \<open>The iteration\<close>

text \<open>The digests: their exceptions are logged, and the time of the attempt is noted either way.\<close>

definition digest_guard :: "poller_env \<Rightarrow> poller_state \<Rightarrow> world \<Rightarrow> poller_state \<times> world" where
  "digest_guard e st w =
     (if po_now e - ps_last_digest_emit st > seconds (po_digest_period e)
      then (st\<lparr>ps_last_digest_emit := po_now e\<rparr>, snd (emit_digests (po_rank e) (po_min_batch e) (po_now e) w))
      else (st, w))"

definition cleanup_guard :: "poller_env \<Rightarrow> poller_state \<Rightarrow> world \<Rightarrow> poller_state \<times> world" where
  "cleanup_guard e st w =
     (if po_now e - ps_last_cleanup st > seconds 3600
      then (st\<lparr>ps_last_cleanup := po_now e\<rparr>,
            snd (cleanup_old_events 7 (po_now e) (snd (cleanup_device_codes (po_now e) (snd (cleanup_outbox 7 (po_now e) w))))))
      else (st, w))"

datatype cycle_end = StandBy | Aborted py_error | Completed "nat list"

definition poller_beat :: "poller_env \<Rightarrow> nat list \<Rightarrow> world \<Rightarrow> world" where
  "poller_beat e counts w =
     w\<lparr>redis := write_poller_heartbeat (po_heartbeat_ttl e) (int (counts ! 0 + counts ! 1)) (po_cycle_ms e) (po_now e) (redis w)\<rparr>"

definition poller_renew :: "poller_env \<Rightarrow> world \<Rightarrow> world" where
  "poller_renew e w = w\<lparr>redis := snd (renew_poller_lock (po_replica e) (po_lock_ttl e) (po_now e) (redis w))\<rparr>"

definition finish_cycle :: "poller_env \<Rightarrow> nat list \<Rightarrow> poller_state \<Rightarrow> world \<Rightarrow> cycle_end \<times> poller_state \<times> world" where
  "finish_cycle e counts st w =
     (if \<not> po_beat_up e then (Aborted RedisError, st, w)
      else if \<not> po_renew_up e then (Aborted RedisError, st, poller_beat e counts w)
      else
        (let w1 = poller_renew e (poller_beat e counts w);
             (st1, w2) = digest_guard e st w1;
             (st2, w3) = cleanup_guard e st1 w2
         in (Completed counts, st2, w3)))"

definition poller_cycle ::
  "poller_env \<Rightarrow> (nat \<Rightarrow> world \<Rightarrow> world) \<Rightarrow> poller_state \<Rightarrow> world \<Rightarrow> cycle_end \<times> poller_state \<times> world" where
  "poller_cycle e between st w =
     (if \<not> po_gate_up e then (Aborted RedisError, st, w)
      else
        (let (is_leader, r) = leader_gate (po_replica e) (po_lock_ttl e) (po_clock e 0) (redis w);
             w0 = w\<lparr>redis := r\<rparr>
         in if \<not> is_leader then (StandBy, st, w0)
            else
              (case run_stages between 1 (poller_stages e) w0 of
                 (Inl err, w1) \<Rightarrow> (Aborted err, st, w1)
               | (Inr counts, w1) \<Rightarrow> finish_cycle e counts st w1)))"
subsection \<open>The contract of a stage\<close>

text \<open>A stage does only what the transition system of the whole program can do.\<close>

locale poller_stage =
  fixes run :: stage
  assumes run_steps: "sys_step\<^sup>*\<^sup>* w (snd (run w))"

lemma one_system_step: "system_step w w' \<Longrightarrow> sys_step\<^sup>*\<^sup>* w w'"
  by (rule r_into_rtranclp) (simp add: sys_step_def quiet_step_def step_def)

lemma one_background_step: "message_background w w' \<Longrightarrow> sys_step\<^sup>*\<^sup>* w w'"
  by (rule r_into_rtranclp) (simp add: sys_step_def quiet_step_def)

lemma one_lock_step: "lock_step w w' \<Longrightarrow> sys_step\<^sup>*\<^sup>* w w'"
  by (rule r_into_rtranclp) (simp add: sys_step_def quiet_step_def)

lemma total_steps: "sys_step\<^sup>*\<^sup>* w (snd (f w)) \<Longrightarrow> sys_step\<^sup>*\<^sup>* w (snd (stage_total f w))"
  by (simp add: stage_total_def split_def Let_def)

lemma atomic_steps:
  assumes "\<And>n w'. f w = Inr (n, w') \<Longrightarrow> sys_step\<^sup>*\<^sup>* w w'"
  shows "sys_step\<^sup>*\<^sup>* w (snd (stage_atomic f w))"
  using assms by (auto simp: stage_atomic_def split: sum.split)

interpretation retry_stage: poller_stage "stage_total (poll_retries locked now n)" for locked now n
  by unfold_locales (rule total_steps one_system_step system_step.retries)+

interpretation stale_stage: poller_stage "stage_atomic (recover_stale_executions env s locked start now)" for env s locked start now
  by unfold_locales (rule atomic_steps, rule one_system_step, rule system_step.stale)

interpretation message_stage: poller_stage "stage_total (recover_stale_message_deliveries locked s start now)" for locked s start now
  by unfold_locales (rule total_steps one_background_step message_background.recover)+

interpretation claim_stage: poller_stage "stage_total (recover_stale_worker_claims ht ct now)" for ht ct now
  by unfold_locales (rule total_steps one_system_step system_step.claims)+

interpretation unclaimed_stage: poller_stage "stage_total (fail_unclaimed_worker_executions env t now)" for env t now
  by unfold_locales (rule total_steps one_system_step system_step.unclaimed)+

interpretation outbox_stage: poller_stage "stage_total (dispatch_outbox q locked now n)" for q locked now n
  by unfold_locales (rule total_steps one_system_step system_step.dispatch)+

interpretation event_stage: poller_stage "dispatch_subscription_events denv locked n now" for denv locked n now
  by unfold_locales (rule one_background_step message_background.post_events)+

interpretation health_stage: poller_stage "stage_atomic (check_worker_health env t now)" for env t now
  by unfold_locales (rule atomic_steps, rule one_system_step, rule system_step.health)

lemma run_stages_steps:
  assumes "\<And>s. s \<in> set ss \<Longrightarrow> poller_stage s" and "\<And>k v. sys_step\<^sup>*\<^sup>* v (between k v)"
  shows "sys_step\<^sup>*\<^sup>* w (snd (run_stages between k ss w))"
  using assms(1)
proof (induction ss arbitrary: k w)
  case (Cons s ss)
  obtain r w1 where s: "s w = (r, w1)" by force
  have "sys_step\<^sup>*\<^sup>* w (snd (s w))" using poller_stage.run_steps [of s w] Cons.prems by simp
  then have w1: "sys_step\<^sup>*\<^sup>* w w1" by (simp add: s)
  have "sys_step\<^sup>*\<^sup>* (between k w1) (snd (run_stages between (Suc k) ss (between k w1)))"
    by (rule Cons.IH) (use Cons.prems in simp)
  then have "sys_step\<^sup>*\<^sup>* w (snd (run_stages between (Suc k) ss (between k w1)))"
    using rtranclp_trans [OF w1 assms(2) [of w1 k]] by (rule rtranclp_trans [rotated])
  with w1 show ?case by (auto simp: s split: sum.split prod.split)
qed simp

subsection \<open>The drain loop of the first stage\<close>

text \<open>The generated ids are new and all different.\<close>

definition fresh_ids :: "(nat \<Rightarrow> nat \<Rightarrow> uuid) \<Rightarrow> nat \<Rightarrow> world \<Rightarrow> bool" where
  "fresh_ids ids k w \<longleftrightarrow> (\<forall>j i. k \<le> j \<longrightarrow> ids j i \<notin> ex_id ` set (executions w))"

lemma batch_keeps_fresh:
  assumes "process_cue_batch cron locked (ids k) now n w = Inr (c, w')" and "inj (case_prod ids)" and "fresh_ids ids k w"
  shows "fresh_ids ids (Suc k) w'"
proof -
  let ?due = "due_cues locked now n w"
  let ?ps = "zip ?due (map (ids k) [0..<length ?due])"
  from fold_process_executions [OF process_cue_batch_fold(1) [OF assms(1)]] obtain news where
    ex: "executions w' = executions w @ news" and
    news: "set news \<subseteq> (\<lambda>(c, e). new_execution e (cue_id c) (the (cue_next_run c)) None None now) ` set ?ps" by blast
  have new: "\<exists>i. ex_id x = ids k i" if "x \<in> set news" for x
    using subsetD [OF news that] by (auto simp: set_zip new_execution_def)
  have other: "ids j i \<noteq> ids k i'" if "Suc k \<le> j" for j i i'
    using injD [OF assms(2), of "(j, i)" "(k, i')"] that by auto
  show ?thesis
    unfolding fresh_ids_def
  proof (intro allI impI notI)
    fix j i
    assume j: "Suc k \<le> j" and "ids j i \<in> ex_id ` set (executions w')"
    then obtain x where x: "x \<in> set (executions w) \<or> x \<in> set news" "ids j i = ex_id x" by (auto simp: ex)
    then show False
    proof (elim disjE)
      assume "x \<in> set (executions w)"
      then have "ids j i \<in> ex_id ` set (executions w)" using x(2) by simp
      with Suc_leD [OF j] assms(3) show False by (simp add: fresh_ids_def)
    next
      assume "x \<in> set news"
      from new [OF this] other [OF j] x(2) show False by auto
    qed
  qed
qed

lemma drain_steps:
  assumes "inj (case_prod ids)" and "fresh_ids ids k w"
  shows "case drain_loop cron locked ids clock n k left c w of Inl (err, w') \<Rightarrow> sys_step\<^sup>*\<^sup>* w w' | Inr (c', w') \<Rightarrow> sys_step\<^sup>*\<^sup>* w w'"
  using assms(2)
proof (induction left arbitrary: k c w)
  case (Suc left)
  show ?case
  proof (cases "process_cue_batch cron (locked k) (ids k) (clock k) n w")
    case (Inr r)
    obtain m w1 where r: "r = (m, w1)" by force
    note b = Inr [unfolded r]
    have "inj (ids k)"
    proof (rule injI)
      fix x y
      assume "ids k x = ids k y"
      then show "x = y" using injD [OF assms(1), of "(k, x)" "(k, y)"] by simp
    qed
    moreover have "ids k i \<notin> set (map ex_id (executions w))" for i using Suc.prems by (simp add: fresh_ids_def)
    ultimately have step: "sys_step\<^sup>*\<^sup>* w w1" by (rule one_system_step [OF system_step.poll [OF b]])
    have "fresh_ids ids (Suc k) w1" by (rule batch_keeps_fresh [OF b assms(1) Suc.prems])
    from Suc.IH [OF this, of "c + m"] step show ?thesis
      by (auto simp: Inr r split: sum.splits prod.splits)
  qed simp
qed simp

lemma stage_poll_steps:
  assumes "inj (case_prod (po_ids e))" and "fresh_ids (po_ids e) 0 w"
  shows "sys_step\<^sup>*\<^sup>* w (snd (stage_poll e w))"
  using drain_steps [OF assms, of "po_cron e" "po_cues_locked e" "po_drain_clock e" "po_batch e" MAX_DRAIN_ITERATIONS 0]
  by (auto simp: stage_poll_def poll_due_cues_def split: sum.split prod.split)

lemma guards_steps:
  "sys_step\<^sup>*\<^sup>* w (snd (digest_guard e st w))" "sys_step\<^sup>*\<^sup>* w (snd (cleanup_guard e st w))"
proof -
  show "sys_step\<^sup>*\<^sup>* w (snd (digest_guard e st w))"
    by (auto simp: digest_guard_def intro: one_background_step message_background.digest)
  have dev: "sys_step\<^sup>*\<^sup>* v (snd (cleanup_device_codes now v))" for now v
    unfolding sys_step_def quiet_step_def using account_step.cleanup by (intro r_into_rtranclp) blast
  have rows: "sys_step\<^sup>*\<^sup>* w (snd (cleanup_outbox d now w))" "sys_step\<^sup>*\<^sup>* v (snd (cleanup_old_events d now v))" for d now v
    by (rule one_system_step system_step.cleanup one_background_step message_background.prune_events)+
  show "sys_step\<^sup>*\<^sup>* w (snd (cleanup_guard e st w))"
    unfolding cleanup_guard_def using rtranclp_trans [OF rtranclp_trans [OF rows(1) dev] rows(2)] by simp
qed

lemma finish_steps: "sys_step\<^sup>*\<^sup>* w (snd (snd (finish_cycle e counts st w)))"
proof -
  have beat: "sys_step\<^sup>*\<^sup>* w (poller_beat e counts w)"
    unfolding poller_beat_def by (rule one_lock_step) (rule lock_step.beat)
  have renew: "sys_step\<^sup>*\<^sup>* v (poller_renew e v)" for v
    unfolding poller_renew_def by (rule one_lock_step) (rule lock_step.renew)
  obtain st1 w2 where d: "digest_guard e st (poller_renew e (poller_beat e counts w)) = (st1, w2)" by force
  obtain st2 w3 where c: "cleanup_guard e st1 w2 = (st2, w3)" by force
  have "sys_step\<^sup>*\<^sup>* w w3"
    using beat renew [of "poller_beat e counts w"] guards_steps(1) [of "poller_renew e (poller_beat e counts w)" e st]
      guards_steps(2) [of w2 e st1] by (simp add: d c)
  then show ?thesis using beat by (simp add: finish_cycle_def Let_def d c)
qed
subsection \<open>Properties of the iteration\<close>

text \<open>
  Stand-by replicas do nothing: an iteration of a replica while another one holds the lock leaves the
  whole world and its own timers as they were.
\<close>

theorem standby_cycle_idle:
  assumes "lock_ok (redis w)" and "po_replica e \<noteq> []" and "po_gate_up e"
    and "leader (redis w) (po_clock e 0) = Some other" and "other \<noteq> po_replica e"
  shows "poller_cycle e between st w = (StandBy, st, w)"
  using leader_gate_cases [OF assms(1,2), of "po_lock_ttl e" "po_clock e 0"] assms(3-5)
  by (simp add: poller_cycle_def Let_def)

lemma run_stages_append:
  "run_stages between k (xs @ ys) w =
     (case run_stages between k xs w of
        (Inl err, v) \<Rightarrow> (Inl err, v)
      | (Inr ns, v) \<Rightarrow>
          (case run_stages between (k + length xs) ys v of (Inl err, v') \<Rightarrow> (Inl err, v') | (Inr ms, v') \<Rightarrow> (Inr (ns @ ms), v')))"
  by (induction xs arbitrary: k w) (auto split: sum.split prod.split)

lemma raising_stage_ends:
  assumes "run_stages between 1 (take j (poller_stages e)) w = (Inr ns, v)" and "j < length (poller_stages e)"
    and "(poller_stages e ! j) v = (Inl err, v')"
  shows "run_stages between 1 (poller_stages e) w = (Inl err, v')"
proof -
  have "poller_stages e = take j (poller_stages e) @ poller_stages e ! j # drop (Suc j) (poller_stages e)"
    by (rule id_take_nth_drop [OF assms(2)])
  then show ?thesis
    using run_stages_append [of between 1 "take j (poller_stages e)" "poller_stages e ! j # drop (Suc j) (poller_stages e)" w]
      assms(1,3) by (simp del: One_nat_def)
qed

text \<open>
  C30. One cue with an empty backoff list stops the dispatch of every user: if, when the recovery of
  stale executions starts, an execution with attempts left whose cue has an empty
  \<open>retry_backoff_minutes\<close> is stale, the iteration aborts with \<open>IndexError\<close>; what the first two stages
  did is committed, and message recovery, worker recovery, the dispatch of the outbox and of events, the
  worker alerts, the heartbeat, the renewal of the lock, the digests and the cleanup do not happen.
\<close>

theorem empty_backoff_halts_dispatch:
  assumes "po_gate_up e" and "leader_gate (po_replica e) (po_lock_ttl e) (po_clock e 0) (redis w) = (True, r)"
    and "run_stages between 1 (take 2 (poller_stages e)) (w\<lparr>redis := r\<rparr>) = (Inr ns, v)"
    and "x \<in> set (stale_executions (po_execs_locked e 2) (po_clock e 2 - seconds (po_stale_after e)) v)"
    and "\<And>u. u \<in> set (stale_executions (po_execs_locked e 2) (po_clock e 2 - seconds (po_stale_after e)) v) \<Longrightarrow>
      0 \<le> ex_attempts u \<and> (snd (retry_cfg (get_cue_row v (ex_cue_id u))) = [] \<longrightarrow>
        ex_attempts u < fst (retry_cfg (get_cue_row v (ex_cue_id u))))"
    and "snd (retry_cfg (get_cue_row v (ex_cue_id x))) = []"
  shows "poller_cycle e between st w = (Aborted IndexError, st, v)"
proof -
  have "(poller_stages e ! 2) v = (Inl IndexError, v)"
    using stale_recovery_empty_backoff_raises [OF assms(4-6), of "po_env e" "po_later e 2"]
    by (simp add: poller_stages_def stage_atomic_def)
  then have "run_stages between 1 (poller_stages e) (w\<lparr>redis := r\<rparr>) = (Inl IndexError, v)"
    by (intro raising_stage_ends [OF assms(3)]) (simp_all add: poller_stages_def)
  then show ?thesis using assms(1,2) by (simp add: poller_cycle_def Let_def del: One_nat_def)
qed

text \<open>
  A completed iteration has run all nine stages. Its timers advance only when more than their period
  has passed (an hour for the cleanup), so both jobs run at most once per period; and after an iteration
  that was due for the cleanup no dispatched outbox row older than seven days is left.
\<close>

theorem completed_cycle_guards:
  assumes "poller_cycle e between st w = (Completed counts, st', w')"
  shows "length counts = 9"
    and "ps_last_cleanup st' \<in> {ps_last_cleanup st, po_now e}"
    and "ps_last_cleanup st' \<noteq> ps_last_cleanup st \<Longrightarrow> po_now e - ps_last_cleanup st > seconds 3600"
    and "ps_last_digest_emit st' \<noteq> ps_last_digest_emit st \<Longrightarrow> po_now e - ps_last_digest_emit st > seconds (po_digest_period e)"
    and "po_now e - ps_last_cleanup st > seconds 3600 \<Longrightarrow>
      \<forall>r \<in> set (outbox w'). \<not> (ob_dispatched r \<and> ob_created_at r < po_now e - days 7)"
proof -
  have len: "run_stages between k ss v = (Inr ns, v') \<Longrightarrow> length ns = length ss" for k ss v ns v'
    by (induction ss arbitrary: k v ns) (auto split: sum.splits prod.splits)
  obtain b r where g: "leader_gate (po_replica e) (po_lock_ttl e) (po_clock e 0) (redis w) = (b, r)" by force
  from assms obtain w1 where run: "run_stages between 1 (poller_stages e) (w\<lparr>redis := r\<rparr>) = (Inr counts, w1)"
    and fin: "finish_cycle e counts st w1 = (Completed counts, st', w')"
    by (auto simp: poller_cycle_def g Let_def finish_cycle_def split: if_splits sum.splits prod.splits)
  from len [OF run] show "length counts = 9" by (simp add: poller_stages_def)
  obtain st1 w2 where d: "digest_guard e st (poller_renew e (poller_beat e counts w1)) = (st1, w2)" by force
  with fin have c: "cleanup_guard e st1 w2 = (st', w')"
    by (auto simp: finish_cycle_def Let_def split: if_splits prod.splits)
  have same: "ps_last_cleanup st1 = ps_last_cleanup st" using d by (auto simp: digest_guard_def split: if_splits)
  show "ps_last_cleanup st' \<in> {ps_last_cleanup st, po_now e}"
    "ps_last_cleanup st' \<noteq> ps_last_cleanup st \<Longrightarrow> po_now e - ps_last_cleanup st > seconds 3600"
    using c same by (auto simp: cleanup_guard_def split: if_splits)
  show "ps_last_digest_emit st' \<noteq> ps_last_digest_emit st \<Longrightarrow> po_now e - ps_last_digest_emit st > seconds (po_digest_period e)"
    using c d by (auto simp: cleanup_guard_def digest_guard_def split: if_splits)
  show "po_now e - ps_last_cleanup st > seconds 3600 \<Longrightarrow>
      \<forall>r \<in> set (outbox w'). \<not> (ob_dispatched r \<and> ob_created_at r < po_now e - days 7)"
    using c same by (auto simp: cleanup_guard_def cleanup_outbox_def cleanup_device_codes_def cleanup_old_events_def Let_def)
qed
subsection \<open>Examples\<close>

definition example_poller :: poller_env where
  "example_poller = \<lparr>po_replica = ''a'', po_lock_ttl = 30, po_heartbeat_ttl = 120, po_batch = 500, po_stale_after = 300,
     po_message_stale_after = 300, po_worker_heartbeat_timeout = 180, po_worker_claim_timeout = 900,
     po_worker_unclaimed_timeout = 900, po_digest_period = 600, po_min_batch = 1, po_gate_up = True, po_beat_up = True,
     po_renew_up = True, po_cron = (\<lambda>_ _ _. None), po_ids = (\<lambda>k i. prod_encode (k, i)), po_enqueue = (\<lambda>_. None),
     po_env = ExecTasks.example_env,
     po_dispatch = \<lparr>de_net = example_net, de_client = (\<lambda>_. PushResponse 200 '''' None), de_has_redis = True, de_redis_up = True,
       de_debounce = seconds 60\<rparr>,
     po_rank = length, po_cues_locked = (\<lambda>_ _. True), po_execs_locked = (\<lambda>_ _. False), po_messages_locked = (\<lambda>_. False),
     po_outbox_locked = (\<lambda>_. False), po_subs_locked = (\<lambda>_. False), po_clock = (\<lambda>_. minutes 10), po_later = (\<lambda>_. minutes 10),
     po_drain_clock = (\<lambda>_. minutes 10), po_cycle_ms = 3, po_now = minutes 10\<rparr>"

abbreviation alone :: "nat \<Rightarrow> world \<Rightarrow> world" where
  "alone \<equiv> \<lambda>_ v. v"

lemma example_ids: "inj (case_prod (po_ids example_poller))"
  by (simp add: example_poller_def case_prod_unfold inj_prod_encode)


theorem standby_cycle_idle_witness:
  "fst (poller_cycle example_poller alone poller_start
     (empty_world\<lparr>redis := redis_set_ex KPollerLeader (RStr ''b'') 30 (minutes 10) (\<lambda>_. None)\<rparr>)) = StandBy"
proof -
  let ?w = "empty_world\<lparr>redis := redis_set_ex KPollerLeader (RStr ''b'') 30 (minutes 10) (\<lambda>_. None)\<rparr>"
  have "lock_ok (redis ?w)" by (simp add: lock_ok_def redis_set_ex_def)
  moreover have "leader (redis ?w) (po_clock example_poller 0) = Some ''b''"
    by (simp add: leader_def redis_get_def redis_set_ex_def example_poller_def seconds_def)
  ultimately have "poller_cycle example_poller alone poller_start ?w = (StandBy, poller_start, ?w)"
    by (intro standby_cycle_idle [of _ _ "''b''"]) (simp_all add: example_poller_def)
  then show ?thesis by simp
qed
theorem empty_backoff_halts_dispatch_witness:
  "\<exists>w. poller_cycle example_poller alone poller_start ((stuck_world [])\<lparr>executions := take 1 (executions (stuck_world []))\<rparr>)
     = (Aborted IndexError, poller_start, w)"
proof -
  let ?w = "(stuck_world [])\<lparr>executions := take 1 (executions (stuck_world []))\<rparr>"
  let ?x = "(new_execution 11 ''cue_1'' 50 None None 0)\<lparr>ex_status := Delivering, ex_attempts := 2\<rparr>"
  let ?r = "redis_set_ex KPollerLeader (RStr ''a'') 30 (minutes 10) (redis ?w)"
  let ?v = "?w\<lparr>redis := ?r\<rparr>"
  have gate: "leader_gate (po_replica example_poller) (po_lock_ttl example_poller) (po_clock example_poller 0) (redis ?w) = (True, ?r)"
    by (simp add: leader_gate_def acquire_poller_lock_def redis_set_nx_def example_poller_def stuck_world_def empty_world_def)
  have poll: "stage_poll example_poller ?v = (Inr 0, ?v)"
    by (simp add: stage_poll_def poll_due_cues_def MAX_DRAIN_ITERATIONS_def numeral_eq_Suc process_cue_batch_def due_cues_def
        example_poller_def)
  have retry: "stage_total (poll_retries (po_execs_locked example_poller 1) (po_clock example_poller 1) (po_batch example_poller)) ?v
      = (Inr 0, ?v)"
    by (simp add: stage_total_def poll_retries_def due_retries_def retry_is_due_def example_poller_def stuck_world_def)
  have two: "take 2 (poller_stages example_poller) = [stage_poll example_poller,
      stage_total (poll_retries (po_execs_locked example_poller 1) (po_clock example_poller 1) (po_batch example_poller))]"
    by (simp add: poller_stages_def)
  have run: "run_stages alone 1 (take 2 (poller_stages example_poller)) ?v = (Inr [0, 0], ?v)"
    unfolding two using poll retry by (simp del: One_nat_def)
  have stale: "stale_executions (po_execs_locked example_poller 2)
      (po_clock example_poller 2 - seconds (po_stale_after example_poller)) ?v = [?x]"
    by (simp add: stale_executions_def stuck_world_def is_stale_def new_execution_def example_poller_def minutes_def seconds_def)
  have cfg: "retry_cfg (get_cue_row ?v (ex_cue_id ?x)) = (3, [])" "ex_attempts ?x = 2"
    by (simp_all add: stuck_world_def get_cue_row_def example_cue_def retry_cfg_def)
  have up: "po_gate_up example_poller" by (simp add: example_poller_def)
  have "poller_cycle example_poller alone poller_start ?w = (Aborted IndexError, poller_start, ?v)"
    by (rule empty_backoff_halts_dispatch [OF up gate run, of ?x]) (use stale cfg in auto)
  then show ?thesis by blast
qed

definition quiet_world :: world where
  "quiet_world = empty_world\<lparr>redis := (\<lambda>_. None)\<rparr>"

lemma quiet_cycle: "\<exists>counts st w. poller_cycle example_poller alone poller_start quiet_world = (Completed counts, st, w)"
proof -
  let ?r = "redis_set_ex KPollerLeader (RStr ''a'') 30 (minutes 10) (\<lambda>_. None)"
  let ?v = "quiet_world\<lparr>redis := ?r\<rparr>"
  have gate: "leader_gate (po_replica example_poller) (po_lock_ttl example_poller) (po_clock example_poller 0) (redis quiet_world) = (True, ?r)"
    by (simp add: leader_gate_def acquire_poller_lock_def redis_set_nx_def example_poller_def quiet_world_def)
  have poll: "stage_poll example_poller ?v = (Inr 0, ?v)"
    by (simp add: stage_poll_def poll_due_cues_def MAX_DRAIN_ITERATIONS_def numeral_eq_Suc process_cue_batch_def due_cues_def
        example_poller_def)
  have s1: "stage_total (poll_retries l t n) ?v = (Inr 0, ?v)" for l t n
    by (simp add: stage_total_def poll_retries_def due_retries_def quiet_world_def empty_world_def)
  have s2: "stage_atomic (recover_stale_executions env s l t t') ?v = (Inr 0, ?v)" for env s l t t'
    by (simp add: stage_atomic_def recover_stale_executions_def stale_executions_def quiet_world_def empty_world_def)
  have s3: "stage_total (recover_stale_message_deliveries ml s t t') ?v = (Inr 0, ?v)" for ml s t t'
    by (simp add: stage_total_def recover_stale_message_deliveries_def stale_messages_def quiet_world_def empty_world_def)
  have s4: "stage_total (recover_stale_worker_claims s s' t) ?v = (Inr 0, ?v)" for s s' t
    by (simp add: stage_total_def recover_stale_worker_claims_def stale_claims_def reset_claims_def quiet_world_def empty_world_def)
  have s5: "stage_total (fail_unclaimed_worker_executions env s t) ?v = (Inr 0, ?v)" for env s t
    by (simp add: stage_total_def fail_unclaimed_worker_executions_def unclaimed_executions_def quiet_world_def empty_world_def)
  have s6: "stage_total (dispatch_outbox q ol t n) ?v = (Inr 0, ?v)" for q ol t n
    by (simp add: stage_total_def dispatch_outbox_def due_rows_def quiet_world_def empty_world_def)
  have s7: "dispatch_subscription_events d sl n t ?v = (Inr 0, ?v)" for d sl n t
    by (simp add: dispatch_subscription_events_def fetch_dispatch_due_subs_def quiet_world_def empty_world_def)
  have s8: "stage_atomic (check_worker_health env s t) ?v = (Inr 0, ?v)" for env s t
    by (simp add: stage_atomic_def check_worker_health_def quiet_world_def empty_world_def)
  have "run_stages alone 1 (poller_stages example_poller) ?v = (Inr [0, 0, 0, 0, 0, 0, 0, 0, 0], ?v)"
    unfolding poller_stages_def by (simp add: poll s1 s2 s3 s4 s5 s6 s7 s8)
  then have "poller_cycle example_poller alone poller_start quiet_world = finish_cycle example_poller [0, 0, 0, 0, 0, 0, 0, 0, 0] poller_start ?v"
    using gate by (simp add: poller_cycle_def Let_def del: One_nat_def) (simp add: example_poller_def)
  moreover have "\<exists>st w. finish_cycle example_poller counts poller_start ?v = (Completed counts, st, w)" for counts
    by (auto simp: finish_cycle_def Let_def split_def example_poller_def)
  ultimately show ?thesis by metis
qed

theorem completed_cycle_guards_witness:
  "\<exists>counts st w. poller_cycle example_poller alone poller_start quiet_world = (Completed counts, st, w) \<and> length counts = 9"
  using quiet_cycle completed_cycle_guards(1) by metis


end
