(* ===== verification/Middleware.thy ===== *)
theory Middleware
  imports AccountSteps SlidingWindow
begin

section \<open>The HTTP middleware (\<open>src/app/middleware\<close>)\<close>

text \<open>
  Every request passes the body limit, the rate limit and the verify-echo wrapper before a handler sees
  it. The application behind a middleware is an argument: for the rate limit a function on worlds, for
  the two ASGI wrappers an automaton that, from the messages received so far, asks for another message
  or answers.
\<close>

subsection \<open>Requests and ASGI messages\<close>

record inbound =
  in_path :: string
  in_client :: "string option"
  in_headers :: "(string \<times> string) list"

text \<open>\<open>request.headers.get(name, "")\<close>: names in any case, the first one counts.\<close>

definition header_get :: "inbound \<Rightarrow> string \<Rightarrow> string" where
  "header_get req name = (case find (\<lambda>(k, _). lower k = name) (in_headers req) of None \<Rightarrow> '''' | Some (_, v) \<Rightarrow> v)"

datatype asgi_message = HttpRequest string bool | HttpDisconnect

datatype 'r app_action = Receive | Answer 'r

type_synonym 'r asgi_app = "asgi_message list \<Rightarrow> 'r app_action"

fun body_of :: "asgi_message list \<Rightarrow> string" where
  "body_of [] = ''''"
| "body_of (HttpRequest b _ # ms) = b @ body_of ms"
| "body_of (HttpDisconnect # ms) = body_of ms"

datatype 'r served = Answered 'r | TooLarge | Waiting | Failed py_error

text \<open>An application alone: it waits when it asks for a message that does not come.\<close>

fun serve :: "'r asgi_app \<Rightarrow> asgi_message list \<Rightarrow> asgi_message list \<Rightarrow> 'r served" where
  "serve app got [] = (case app got of Answer r \<Rightarrow> Answered r | Receive \<Rightarrow> Waiting)"
| "serve app got (m # ms) = (case app got of Answer r \<Rightarrow> Answered r | Receive \<Rightarrow> serve app (got @ [m]) ms)"

subsection \<open>The body limit (\<open>body_limit.py\<close>)\<close>

definition MAX_BODY_SIZE :: nat where
  "MAX_BODY_SIZE = 1048576"

text \<open>\<open>limited_receive\<close>: the count after a message, and whether it raises.\<close>

definition limited_receive :: "nat \<Rightarrow> asgi_message \<Rightarrow> nat \<times> bool" where
  "limited_receive bytes_received m =
     (case m of
        HttpRequest body _ \<Rightarrow> (let n = bytes_received + length body in (n, MAX_BODY_SIZE < n))
      | HttpDisconnect \<Rightarrow> (bytes_received, False))"

fun serve_limited :: "'r asgi_app \<Rightarrow> nat \<Rightarrow> asgi_message list \<Rightarrow> asgi_message list \<Rightarrow> 'r served" where
  "serve_limited app n got [] = (case app got of Answer r \<Rightarrow> Answered r | Receive \<Rightarrow> Waiting)"
| "serve_limited app n got (m # ms) =
     (case app got of
        Answer r \<Rightarrow> Answered r
      | Receive \<Rightarrow>
          (let (n', too_large) = limited_receive n m
           in if too_large then TooLarge else serve_limited app n' (got @ [m]) ms))"

text \<open>\<open>dict(headers)\<close> keeps the last of equal names; \<open>int\<close> reads the bytes, and text that is no number counts as 0.\<close>

definition content_length :: "(string \<times> string) list \<Rightarrow> int option" where
  "content_length headers =
     map_option (\<lambda>raw. case py_int raw of None \<Rightarrow> 0 | Some n \<Rightarrow> n) (map_of (rev headers) ''content-length'')"

definition body_limit :: "'r asgi_app \<Rightarrow> (string \<times> string) list \<Rightarrow> asgi_message list \<Rightarrow> 'r served" where
  "body_limit app headers incoming =
     (if (case content_length headers of None \<Rightarrow> False | Some n \<Rightarrow> int MAX_BODY_SIZE < n) then TooLarge
      else serve_limited app 0 [] incoming)"

subsection \<open>The rate limit (\<open>rate_limit.py\<close>)\<close>

definition EXEMPT_PATHS :: "string list" where
  "EXEMPT_PATHS = [''/health'', ''/status'', ''/v1/info'', ''/docs'', ''/openapi.json'', ''/redoc'', ''/v1/billing/webhook'',
     ''/auth/device'', ''/v1/auth/verify'', ''/v1/internal/deploy-hook'']"

definition EXEMPT_PREFIXES :: "string list" where
  "EXEMPT_PREFIXES = [''/v1/blog/'', ''/v1/internal/'']"

definition exempt :: "string \<Rightarrow> bool" where
  "exempt path \<longleftrightarrow> path \<in> set EXEMPT_PATHS \<or> list_ex (\<lambda>p. starts_with p path) EXEMPT_PREFIXES"

definition DEFAULT_RATE_LIMIT :: int where
  "DEFAULT_RATE_LIMIT = 60"

text \<open>\<open>sub in s\<close>.\<close>

fun contains_sub :: "string \<Rightarrow> string \<Rightarrow> bool" where
  "contains_sub p [] \<longleftrightarrow> p = []"
| "contains_sub p (c # cs) \<longleftrightarrow> starts_with p (c # cs) \<or> contains_sub p cs"

definition carries_key :: "string \<Rightarrow> bool" where
  "carries_key auth_header \<longleftrightarrow> starts_with ''Bearer '' auth_header \<and> contains_sub ''cue_sk_'' auth_header"

definition key_hash_of :: "auth_env \<Rightarrow> string \<Rightarrow> string" where
  "key_hash_of env auth_header = hash_api_key env (bearer_token auth_header)"

text \<open>The bucket of a request, without the common prefix \<open>ratelimit:\<close>.\<close>

definition ratelimit_key :: "auth_env \<Rightarrow> inbound \<Rightarrow> string" where
  "ratelimit_key env req =
     (let auth_header = header_get req ''authorization''
      in if carries_key auth_header then key_hash_of env auth_header
         else ''ip:'' @ (case in_client req of None \<Rightarrow> ''unknown'' | Some h \<Rightarrow> h))"

text \<open>The user of the auth cache; \<open>up i\<close> says whether Redis answers at the \<open>i\<close>th use.\<close>

definition limited_user :: "auth_env \<Rightarrow> (nat \<Rightarrow> bool) \<Rightarrow> inbound \<Rightarrow> time \<Rightarrow> world \<Rightarrow> authenticated_user option" where
  "limited_user env up req now w =
     (let auth_header = header_get req ''authorization''
      in if carries_key auth_header then cached_user (up 1) (KAuth (key_hash_of env auth_header)) now w else None)"

definition rate_limit_of :: "auth_env \<Rightarrow> (nat \<Rightarrow> bool) \<Rightarrow> inbound \<Rightarrow> time \<Rightarrow> world \<Rightarrow> int" where
  "rate_limit_of env up req now w =
     (case limited_user env up req now w of None \<Rightarrow> DEFAULT_RATE_LIMIT | Some a \<Rightarrow> au_rate_limit_per_minute a)"

datatype rate_answer =
    PassedThrough
  | TooManyRequests int int int       \<comment> \<open>limit, reset time, retry after\<close>
  | Admitted int int int bool         \<comment> \<open>limit, remaining, reset time, usage warning\<close>

definition oldest_score :: "(string \<times> time) list \<Rightarrow> time option" where
  "oldest_score zs = (case sort_key snd zs of [] \<Rightarrow> None | (_, s) # _ \<Rightarrow> Some s)"

definition refusal :: "bool \<Rightarrow> int \<Rightarrow> time \<Rightarrow> (string \<times> time) list \<Rightarrow> rate_answer" where
  "refusal up limit now zs =
     (case (if up then oldest_score zs else None) of
        None \<Rightarrow> TooManyRequests limit (whole_seconds (now + seconds 60)) 60
      | Some s \<Rightarrow> TooManyRequests limit (whole_seconds (s + seconds 60)) (max 1 (whole_seconds (seconds 60 - (now - s)))))"

text \<open>The header of the answer that warns when 80 percent of the month are used.\<close>

definition usage_warning :: "(nat \<Rightarrow> bool) \<Rightarrow> authenticated_user option \<Rightarrow> time \<Rightarrow> world \<Rightarrow> bool \<times> world" where
  "usage_warning up cached now w =
     (case cached of
        None \<Rightarrow> (False, w)
      | Some a \<Rightarrow>
          if au_monthly_execution_limit a \<le> 0 then (False, w)
          else
            (let (usage, w') = get_monthly_usage (up 5) True (au_id a) now w
             in (4 * au_monthly_execution_limit a \<le> 5 * usage, w')))"

text \<open>
  \<open>handler\<close> is the rest of the application. Without Redis, and on an error of Redis before the count
  is known, the request passes; an entry that cannot be recorded does not stop it either.
\<close>

definition rate_limit_dispatch ::
  "auth_env \<Rightarrow> (nat \<Rightarrow> bool) \<Rightarrow> inbound \<Rightarrow> string \<Rightarrow> time \<Rightarrow> (world \<Rightarrow> 'a \<times> world) \<Rightarrow> world
     \<Rightarrow> (rate_answer \<times> 'a option) reply \<times> world" where
  "rate_limit_dispatch env up req member now handler w =
     (let auth_header = header_get req ''authorization'';
          pass = (\<lambda>v. let (x, v') = handler v in (Reply (PassedThrough, Some x), v'))
      in case (if ae_INTERNAL_AUTH_TOKEN env \<noteq> [] then compare_digest auth_header (''Bearer '' @ ae_INTERNAL_AUTH_TOKEN env)
               else Inr False) of
           Inl err \<Rightarrow> (Raised err, w)
         | Inr trusted \<Rightarrow>
             if trusted \<or> exempt (in_path req) \<or> \<not> up 0 then pass w
             else
               (let limit = rate_limit_of env up req now w;
                    cached = limited_user env up req now w;
                    k = KRateLimit (ratelimit_key env req)
                in if \<not> up 2 then pass w
                   else
                     (let r1 = window_pruned k now (redis w);
                          count = int (length (zset_of r1 now k))
                      in if limit \<le> count then (Reply (refusal (up 3) limit now (zset_of r1 now k), None), w\<lparr>redis := r1\<rparr>)
                         else
                           (let r2 = (if up 4 then window_record k 70 member now r1 else r1);
                                count' = (if up 4 then count + 1 else count);
                                (x, w2) = handler (w\<lparr>redis := r2\<rparr>);
                                (warn, w3) = usage_warning up cached now w2
                            in (Reply (Admitted limit (max 0 (limit - count')) (whole_seconds (now + seconds 60)) warn, Some x), w3)))))"
subsection \<open>The verify-echo wrapper (\<open>verify_echo.py\<close>)\<close>

text \<open>
  What the wrapper takes from Python's library and cannot be computed here: \<open>json.loads\<close> on bytes,
  UTF-8 decoding with replacement, UTF-8 encoding, and SHA-256 in hexadecimal.
\<close>

datatype loaded = Document json | JsonDecodeError | UnicodeDecodeError

record echo_lib =
  ve_loads :: "string \<Rightarrow> loaded"
  ve_decode :: "string \<Rightarrow> string"
  ve_encode :: "string \<Rightarrow> string"
  ve_sha256 :: "string \<Rightarrow> string"

record http_response =
  rs_status :: int
  rs_headers :: "(string \<times> string) list"
  rs_body :: string

text \<open>\<open>json.dumps\<close> with sorted keys and the compact separators.\<close>

fun canonical_json :: "json \<Rightarrow> string" where
  "canonical_json (JList vs) = ''['' @ intercalate '','' (map canonical_json vs) @ '']''"
| "canonical_json (JObj kvs) =
     ''{'' @ intercalate '','' (map (\<lambda>(k, t). json_str False k @ '':'' @ t)
       (sort_key fst (map (\<lambda>(k, v). (k, canonical_json v)) kvs))) @ ''}''"
| "canonical_json v = json_dumps False True v"

definition BODY_METHODS :: "string list" where
  "BODY_METHODS = [''POST'', ''PATCH'', ''PUT'']"

definition header_echo_requested :: "(string \<times> string) list \<Rightarrow> bool" where
  "header_echo_requested headers =
     (case find (\<lambda>(k, _). lower k = ''x-cueapi-verify-echo'') headers of
        None \<Rightarrow> False
      | Some (_, v) \<Rightarrow> lower (strip v) = ''true'')"

text \<open>The loop that collects the body: it ends at the last part, and at any other kind of message.\<close>

fun collect_body :: "asgi_message list \<Rightarrow> (string \<times> asgi_message list) option" where
  "collect_body [] = None"
| "collect_body (HttpDisconnect # ms) = Some ('''', ms)"
| "collect_body (HttpRequest b more_body # ms) =
     (if more_body then map_option (\<lambda>(rest, ms'). (b @ rest, ms')) (collect_body ms) else Some (b, ms))"

text \<open>Bytes that are no UTF-8 raise a \<open>UnicodeDecodeError\<close>, a \<open>ValueError\<close> that the wrapper does not catch.\<close>

definition echo_of :: "echo_lib \<Rightarrow> string \<Rightarrow> py_error + json \<times> string" where
  "echo_of lib request_body =
     (if request_body = [] then Inr (JNull, '''')
      else
        (case ve_loads lib request_body of
           Document v \<Rightarrow> Inr (v, ve_encode lib (canonical_json v))
         | JsonDecodeError \<Rightarrow> Inr (JStr (ve_decode lib request_body), request_body)
         | UnicodeDecodeError \<Rightarrow> Inl ValueError))"

definition inject_echo :: "echo_lib \<Rightarrow> json \<Rightarrow> string \<Rightarrow> (string \<times> json) list \<Rightarrow> http_response \<Rightarrow> http_response" where
  "inject_echo lib view sha_input kvs rs =
     (let digest = JStr (ve_sha256 lib sha_input);
          kvs' = (if ''body_received_sha256'' \<in> set (map fst kvs)
                  then map (\<lambda>(k, v). if k = ''body_received_sha256'' then (k, digest) else (k, v)) kvs
                    @ [(''body_received'', view)]
                  else kvs @ [(''body_received'', view), (''body_received_sha256'', digest)]);
          new_body = ve_encode lib (json_dumps True False (JObj kvs'))
      in rs\<lparr>rs_headers := filter (\<lambda>(k, _). lower k \<noteq> ''content-length'') (rs_headers rs)
              @ [(''content-length'', nat_str (length new_body))],
            rs_body := new_body\<rparr>)"

definition maybe_inject :: "echo_lib \<Rightarrow> string \<Rightarrow> http_response \<Rightarrow> py_error + http_response" where
  "maybe_inject lib request_body rs =
     (let content_type = (case find (\<lambda>(k, _). lower k = ''content-type'') (rs_headers rs) of
                            None \<Rightarrow> '''' | Some (_, v) \<Rightarrow> lower v)
      in if \<not> (200 \<le> rs_status rs \<and> rs_status rs < 300) then Inr rs
         else if \<not> contains_sub ''application/json'' content_type then Inr rs
         else
           (case ve_loads lib (rs_body rs) of
              Document (JObj kvs) \<Rightarrow>
                (if ''body_received'' \<in> set (map fst kvs) then Inr rs
                 else
                   (case echo_of lib request_body of
                      Inl err \<Rightarrow> Inl err
                    | Inr (view, sha_input) \<Rightarrow> Inr (inject_echo lib view sha_input kvs rs)))
            | UnicodeDecodeError \<Rightarrow> Inl ValueError
            | _ \<Rightarrow> Inr rs))"

text \<open>The application receives the collected body as one message, then what the client sends next.\<close>

definition verify_echo ::
  "echo_lib \<Rightarrow> string \<Rightarrow> http_response asgi_app \<Rightarrow> (string \<times> string) list \<Rightarrow> asgi_message list \<Rightarrow> http_response served" where
  "verify_echo lib verb app headers incoming =
     (if upper verb \<notin> set BODY_METHODS \<or> \<not> header_echo_requested headers then serve app [] incoming
      else
        (case collect_body incoming of
           None \<Rightarrow> Waiting
         | Some (body, rest) \<Rightarrow>
             (case serve app [] (HttpRequest body False # rest) of
                Answered rs \<Rightarrow> (case maybe_inject lib body rs of Inl err \<Rightarrow> Failed err | Inr rs' \<Rightarrow> Answered rs')
              | other \<Rightarrow> other)))"

text \<open>\<open>src/app/utils/verify_echo.py\<close>: the echo of the handlers that do it themselves.\<close>

definition verify_echo_requested :: "inbound \<Rightarrow> bool" where
  "verify_echo_requested req \<longleftrightarrow> lower (strip (header_get req ''x-cueapi-verify-echo'')) = ''true''"

definition apply_verify_echo :: "echo_lib \<Rightarrow> inbound \<Rightarrow> string option \<Rightarrow> (string \<times> json) list" where
  "apply_verify_echo lib req body_text =
     (if \<not> verify_echo_requested req then []
      else
        (case body_text of
           None \<Rightarrow> [(''body_received'', JNull), (''body_received_sha256'', JStr (ve_sha256 lib ''''))]
         | Some s \<Rightarrow> [(''body_received'', JStr s), (''body_received_sha256'', JStr (ve_sha256 lib (ve_encode lib s)))]))"

subsection \<open>The body limit is exact\<close>

lemma body_of_append: "body_of (xs @ ys) = body_of xs @ body_of ys"
  by (induction xs rule: body_of.induct) auto

text \<open>The count is the length of the body received so far.\<close>

lemma serve_limited_agree:
  assumes "\<And>got. length (body_of got) \<le> MAX_BODY_SIZE \<Longrightarrow> app got = app' got"
    and "n = length (body_of got)" and "n \<le> MAX_BODY_SIZE"
  shows "serve_limited app n got ms = serve_limited app' n got ms"
  using assms(2,3)
proof (induction ms arbitrary: n got)
  case (Cons m ms)
  obtain n' b where l: "limited_receive n m = (n', b)" by force
  have "app got = app' got" using assms(1) [of got] Cons.prems by simp
  moreover have "serve_limited app n' (got @ [m]) ms = serve_limited app' n' (got @ [m]) ms" if "\<not> b"
    using l that Cons.prems by (intro Cons.IH) (auto simp: limited_receive_def body_of_append Let_def split: asgi_message.splits)
  ultimately show ?case by (simp add: l split: app_action.split)
qed (use assms(1) in simp)

lemma serve_limited_small:
  assumes "n = length (body_of got)" and "n + length (body_of ms) \<le> MAX_BODY_SIZE"
  shows "serve_limited app n got ms = serve app got ms"
  using assms
proof (induction ms arbitrary: n got)
  case (Cons m ms)
  show ?case
  proof (cases m)
    case (HttpRequest b more)
    then have "serve_limited app (n + length b) (got @ [m]) ms = serve app (got @ [m]) ms"
      using Cons.prems by (intro Cons.IH) (simp_all add: body_of_append)
    then show ?thesis using Cons.prems HttpRequest by (simp add: limited_receive_def Let_def split: app_action.split)
  next
    case HttpDisconnect
    then have "serve_limited app n (got @ [m]) ms = serve app (got @ [m]) ms"
      using Cons.prems by (intro Cons.IH) (simp_all add: body_of_append)
    then show ?thesis using HttpDisconnect by (simp add: limited_receive_def split: app_action.split)
  qed
qed simp

text \<open>
  C34. The body limit: a request whose declared length and whose body are within the limit is served as
  if the middleware were not there; and the application never gets more than the limit, so what it would
  do with a larger body makes no difference, whatever the client declares and however it cuts the body
  into parts.
\<close>

theorem body_limit_exact:
  "((case content_length headers of None \<Rightarrow> True | Some n \<Rightarrow> n \<le> int MAX_BODY_SIZE) \<and> length (body_of incoming) \<le> MAX_BODY_SIZE
      \<longrightarrow> body_limit app headers incoming = serve app [] incoming)
   \<and> ((\<forall>got. length (body_of got) \<le> MAX_BODY_SIZE \<longrightarrow> app got = app' got)
      \<longrightarrow> body_limit app headers incoming = body_limit app' headers incoming)"
proof (intro conjI impI)
  show "body_limit app headers incoming = serve app [] incoming"
    if "(case content_length headers of None \<Rightarrow> True | Some n \<Rightarrow> n \<le> int MAX_BODY_SIZE) \<and> length (body_of incoming) \<le> MAX_BODY_SIZE"
    using that serve_limited_small [of 0 "[]" incoming app] by (simp add: body_limit_def split: option.splits)
  show "body_limit app headers incoming = body_limit app' headers incoming"
    if "\<forall>got. length (body_of got) \<le> MAX_BODY_SIZE \<longrightarrow> app got = app' got"
    using serve_limited_agree [of app app' 0 "[]" incoming] that by (simp add: body_limit_def)
qed
subsection \<open>The rate limit bounds every bucket\<close>

interpretation http_window: sliding_window "KRateLimit b" 70 for b
  by unfold_locales simp

text \<open>A request that reaches the window of its bucket while Redis answers.\<close>

definition counted :: "auth_env \<Rightarrow> (nat \<Rightarrow> bool) \<Rightarrow> inbound \<Rightarrow> bool" where
  "counted env up req \<longleftrightarrow> \<not> exempt (in_path req) \<and> up 0 \<and> up 2 \<and> up 4
     \<and> (ae_INTERNAL_AUTH_TOKEN env \<noteq> [] \<longrightarrow>
          compare_digest (header_get req ''authorization'') (''Bearer '' @ ae_INTERNAL_AUTH_TOKEN env) = Inr False)"

definition admitted :: "(rate_answer \<times> 'a option) reply \<Rightarrow> bool" where
  "admitted r \<longleftrightarrow> (case r of Reply (Admitted l m t b, _) \<Rightarrow> True | _ \<Rightarrow> False)"

text \<open>
  The history of a bucket: requests counted in it, with limits up to \<open>L\<close>, and anything else in between
  that leaves its entry in Redis alone. The member of the sorted set that a request adds is new in it,
  and the handler does not touch the entry.
\<close>

inductive bucket_run :: "auth_env \<Rightarrow> string \<Rightarrow> nat \<Rightarrow> time \<Rightarrow> time list \<Rightarrow> world \<Rightarrow> bool" for env bucket L where
  start: "redis w (KRateLimit bucket) = None \<Longrightarrow> 0 \<le> t \<Longrightarrow> bucket_run env bucket L t [] w"
| other: "bucket_run env bucket L t hist w \<Longrightarrow> redis w' (KRateLimit bucket) = redis w (KRateLimit bucket)
    \<Longrightarrow> bucket_run env bucket L t hist w'"
| request: "bucket_run env bucket L t hist w \<Longrightarrow> t \<le> now \<Longrightarrow> counted env up req \<Longrightarrow> ratelimit_key env req = bucket
    \<Longrightarrow> rate_limit_of env up req now w \<le> int L
    \<Longrightarrow> \<forall>(n, s) \<in> set (zset_of (window_pruned (KRateLimit bucket) now (redis w)) now (KRateLimit bucket)). n \<noteq> member
    \<Longrightarrow> (\<And>v. redis (snd (handler v)) (KRateLimit bucket) = redis v (KRateLimit bucket))
    \<Longrightarrow> rate_limit_dispatch env up req member now (handler :: world \<Rightarrow> http_response \<times> world) w = (r, w')
    \<Longrightarrow> bucket_run env bucket L now (if admitted r then hist @ [now] else hist) w'"

lemma usage_warning_bucket: "redis (snd (usage_warning up a now w)) (KRateLimit b) = redis w (KRateLimit b)"
  by (auto simp: usage_warning_def get_monthly_usage_def redis_set_ex_def Let_def split: option.split redis_val.split prod.split)

lemma counted_dispatch:
  assumes "counted env up req" and "rate_limit_dispatch env up req member now handler w = (r, w')"
    and "\<And>v. redis (snd (handler v)) (KRateLimit (ratelimit_key env req)) = redis v (KRateLimit (ratelimit_key env req))"
  defines "k \<equiv> KRateLimit (ratelimit_key env req)"
  shows "(admitted r \<and> int (length (zset_of (window_pruned k now (redis w)) now k)) < rate_limit_of env up req now w
        \<and> redis w' k = window_record k 70 member now (window_pruned k now (redis w)) k)
    \<or> (\<not> admitted r \<and> redis w' k = window_pruned k now (redis w) k)"
proof -
  let ?r1 = "window_pruned k now (redis w)" and ?l = "rate_limit_of env up req now w"
  let ?n = "int (length (zset_of ?r1 now k))"
  have gate: "(if ae_INTERNAL_AUTH_TOKEN env \<noteq> [] then compare_digest (header_get req ''authorization'')
      (''Bearer '' @ ae_INTERNAL_AUTH_TOKEN env) else Inr False) = Inr False"
    using assms(1) by (auto simp: counted_def)
  have c: "\<not> exempt (in_path req)" "up 0" "up 2" "up 4" using assms(1) by (simp_all add: counted_def)
  show ?thesis
  proof (cases "?l \<le> ?n")
    case True
    then have "rate_limit_dispatch env up req member now handler w = (Reply (refusal (up 3) ?l now (zset_of ?r1 now k), None), w\<lparr>redis := ?r1\<rparr>)"
      unfolding rate_limit_dispatch_def gate Let_def using c by (simp add: k_def)
    then show ?thesis using assms(2) by (auto simp: admitted_def refusal_def split: option.splits)
  next
    case False
    let ?r2 = "window_record k 70 member now ?r1"
    obtain x w2 where h: "handler (w\<lparr>redis := ?r2\<rparr>) = (x, w2)" by force
    obtain warn w3 where u: "usage_warning up (limited_user env up req now w) now w2 = (warn, w3)" by force
    have "rate_limit_dispatch env up req member now handler w =
        (Reply (Admitted ?l (max 0 (?l - (?n + 1))) (whole_seconds (now + seconds 60)) warn, Some x), w3)"
      unfolding rate_limit_dispatch_def gate Let_def using c False h u by (simp add: k_def)
    moreover have "redis w3 k = ?r2 k"
      using usage_warning_bucket [of up "limited_user env up req now w" now w2 "ratelimit_key env req"]
        assms(3) [of "w\<lparr>redis := ?r2\<rparr>"] u h by (simp add: k_def)
    ultimately show ?thesis using assms(2) False by (auto simp: admitted_def)
  qed
qed

lemma bucket_run_inv:
  "bucket_run env bucket L t hist w \<Longrightarrow> 0 \<le> t \<and> window_inv (KRateLimit bucket) 70 t hist {} (redis w) \<and> window_ok L hist"
proof (induction rule: bucket_run.induct)
  case (start w t)
  then show ?case by (simp add: window_inv_empty window_ok_def)
next
  case (other t hist w w')
  then show ?case by (simp add: window_inv_cong [of "redis w'" _ "redis w"])
next
  case (request t hist w now up req member handler r w')
  let ?k = "KRateLimit bucket" and ?r1 = "window_pruned (KRateLimit bucket) now (redis w)"
  have inv: "window_inv ?k 70 t hist {} (redis w)" and pos: "0 \<le> now" and ok: "window_ok L hist" using request by auto
  note p = http_window.pruned [OF inv request.hyps(2)]
  have "(admitted r \<and> int (length (zset_of ?r1 now ?k)) < rate_limit_of env up req now w
        \<and> redis w' ?k = window_record ?k 70 member now ?r1 ?k)
    \<or> (\<not> admitted r \<and> redis w' ?k = ?r1 ?k)"
    using counted_dispatch [OF request.hyps(3,8)] request.hyps(4,7) by blast
  then show ?case
  proof (elim disjE conjE)
    assume a: "admitted r" "int (length (zset_of ?r1 now ?k)) < rate_limit_of env up req now w"
      "redis w' ?k = window_record ?k 70 member now ?r1 ?k"
    have "window_inv ?k 70 now (hist @ [now]) {} (window_record ?k 70 member now ?r1)"
      by (rule http_window.recorded [OF inv request.hyps(2) pos _ _ request.hyps(6)]) simp_all
    then have "window_inv ?k 70 now (hist @ [now]) {} (redis w')" using window_inv_cong [of "redis w'" ?k "window_record ?k 70 member now ?r1"] a(3) by simp
    moreover have "length (recent now hist) < L"
      using a(2) request.hyps(5) http_window.count_is_recent [OF inv request.hyps(2)] by simp
    then have "window_ok L (hist @ [now])" using window_ok_snoc [OF ok p(3)] by simp
    ultimately show ?thesis using a(1) pos by simp
  next
    assume a: "\<not> admitted r" "redis w' ?k = ?r1 ?k"
    then show ?thesis using p(4) window_inv_cong [of "redis w'" ?k ?r1] ok pos by simp
  qed
qed


text \<open>
  The limit per address does not bind a client that makes up API keys: a request whose header carries
  a made-up key that was not used in the last minute is admitted, however many requests its address has
  already made.
\<close>

theorem bogus_key_bypasses_ip_limit:
  assumes "counted env up req" and "carries_key (header_get req ''authorization'')"
    and "redis w (KRateLimit (key_hash_of env (header_get req ''authorization''))) = None"
    and "redis w (KAuth (key_hash_of env (header_get req ''authorization''))) = None"
  shows "\<exists>x w'. rate_limit_dispatch env up req member now handler w =
     (Reply (Admitted 60 59 (whole_seconds (now + seconds 60)) False, Some x), w')"
proof -
  let ?h = "key_hash_of env (header_get req ''authorization'')"
  let ?k = "KRateLimit ?h"
  have key: "ratelimit_key env req = ?h" using assms(2) by (simp add: ratelimit_key_def)
  have none: "limited_user env up req now w = None"
    using assms(2,4) by (simp add: limited_user_def cached_user_def redis_get_def)
  have limit: "rate_limit_of env up req now w = 60" by (simp add: rate_limit_of_def none DEFAULT_RATE_LIMIT_def)
  have prune: "window_pruned ?k now (redis w) = redis w" and empty: "zset_of (redis w) now ?k = []"
    using assms(3) by (simp_all add: zremrangebyscore_def zset_of_def redis_get_def)
  have gate: "(if ae_INTERNAL_AUTH_TOKEN env \<noteq> [] then compare_digest (header_get req ''authorization'')
      (''Bearer '' @ ae_INTERNAL_AUTH_TOKEN env) else Inr False) = Inr False"
    and c: "\<not> exempt (in_path req)" "up 0" "up 2" "up 4" using assms(1) by (auto simp: counted_def)
  show ?thesis
    unfolding rate_limit_dispatch_def gate Let_def key limit none prune empty usage_warning_def
    using c by (simp split: prod.split)
qed
subsection \<open>The echo\<close>

lemma collect_complete:
  "collect_body (map (\<lambda>b. HttpRequest b True) bs @ HttpRequest b False # rest) = Some (concat bs @ b, rest)"
  by (induction bs) auto

lemma collect_disconnected:
  "collect_body (map (\<lambda>b. HttpRequest b True) bs @ HttpDisconnect # rest) = Some (concat bs, rest)"
  by (induction bs) auto

lemma inject_status: "maybe_inject lib body rs = Inr rs' \<Longrightarrow> rs_status rs' = rs_status rs"
  by (auto simp: maybe_inject_def inject_echo_def Let_def split: if_splits loaded.splits json.splits sum.splits)

lemma inject_length:
  assumes "maybe_inject lib body rs = Inr rs'" and "rs' \<noteq> rs"
  shows "map_of (rs_headers rs') ''content-length'' = Some (nat_str (length (rs_body rs')))"
proof -
  obtain view sha kvs where rs': "rs' = inject_echo lib view sha kvs rs"
    using assms by (auto simp: maybe_inject_def Let_def split: if_splits loaded.splits json.splits sum.splits)
  have low: "lower ''content-length'' = ''content-length''" by code_simp
  have "map_of (filter (\<lambda>(k, _). lower k \<noteq> ''content-length'') hs) ''content-length'' = None" for hs :: "(string \<times> string) list"
    by (auto simp: map_of_eq_None_iff low)
  then show ?thesis by (simp add: rs' inject_echo_def Let_def map_add_def)
qed

text \<open>
  The verify-echo wrapper: a request without the header, or with a method without a body, is served as
  if the wrapper were not there. Otherwise the application gets the whole body in one message, whatever
  parts it came in; the status of its answer is kept, and when echo fields are added the declared length
  of the answer is the length of its new body.
\<close>

theorem verify_echo_transparent:
  "(upper verb \<notin> set BODY_METHODS \<or> \<not> header_echo_requested headers
      \<longrightarrow> verify_echo lib verb app headers incoming = serve app [] incoming)
   \<and> (upper verb \<in> set BODY_METHODS \<and> header_echo_requested headers
        \<and> incoming = map (\<lambda>b. HttpRequest b True) bs @ HttpRequest b False # rest
      \<longrightarrow> verify_echo lib verb app headers incoming =
        (case serve app [] (HttpRequest (concat bs @ b) False # rest) of
           Answered rs \<Rightarrow> (case maybe_inject lib (concat bs @ b) rs of Inl err \<Rightarrow> Failed err | Inr rs' \<Rightarrow> Answered rs')
         | x \<Rightarrow> x))
   \<and> (\<forall>body rs rs'. maybe_inject lib body rs = Inr rs' \<longrightarrow> rs_status rs' = rs_status rs
      \<and> (rs' \<noteq> rs \<longrightarrow> map_of (rs_headers rs') ''content-length'' = Some (nat_str (length (rs_body rs')))))"
proof (intro conjI impI allI)
  show "verify_echo lib verb app headers incoming = serve app [] incoming"
    if "upper verb \<notin> set BODY_METHODS \<or> \<not> header_echo_requested headers"
    using that by (auto simp: verify_echo_def)
  show "verify_echo lib verb app headers incoming =
        (case serve app [] (HttpRequest (concat bs @ b) False # rest) of
           Answered rs \<Rightarrow> (case maybe_inject lib (concat bs @ b) rs of Inl err \<Rightarrow> Failed err | Inr rs' \<Rightarrow> Answered rs')
         | x \<Rightarrow> x)"
    if "upper verb \<in> set BODY_METHODS \<and> header_echo_requested headers
        \<and> incoming = map (\<lambda>b. HttpRequest b True) bs @ HttpRequest b False # rest"
    using that by (simp add: verify_echo_def collect_complete)
qed (blast dest: inject_status inject_length)+

text \<open>
  A client that disconnects in the middle of a body that is to be echoed does not stop the request:
  the application gets the parts that arrived as if they were the complete body.
\<close>

theorem disconnect_completes_body:
  assumes "upper verb \<in> set BODY_METHODS" and "header_echo_requested headers"
    and "\<And>got. app got = (if got = [] then Receive else Answer \<lparr>rs_status = 201, rs_headers = [], rs_body = body_of got\<rparr>)"
  shows "verify_echo lib verb app headers [HttpRequest part True, HttpDisconnect] =
     Answered \<lparr>rs_status = 201, rs_headers = [], rs_body = part\<rparr>"
  using assms collect_disconnected [of "[part]" "[]"]
  by (simp add: verify_echo_def maybe_inject_def Let_def)
subsection \<open>Examples\<close>

definition example_inbound :: "string \<Rightarrow> inbound" where
  "example_inbound auth = \<lparr>in_path = ''/v1/cues'', in_client = Some ''10.0.0.1'', in_headers = [(''Authorization'', auth)]\<rparr>"

definition echo_library :: echo_lib where
  "echo_library = \<lparr>ve_loads = (\<lambda>s. if s = ''{}'' then Document (JObj []) else JsonDecodeError), ve_decode = id, ve_encode = id, ve_sha256 = id\<rparr>"

definition plain_handler :: "world \<Rightarrow> http_response \<times> world" where
  "plain_handler v = (\<lparr>rs_status = 200, rs_headers = [], rs_body = ''''\<rparr>, v)"

lemma example_header: "header_get (example_inbound auth) ''authorization'' = auth"
proof -
  have "lower ''Authorization'' = ''authorization''" by code_simp
  then show ?thesis by (simp add: header_get_def example_inbound_def)
qed

lemma example_counted: "counted example_auth (\<lambda>_. True) (example_inbound auth)"
  by (simp add: counted_def exempt_def EXEMPT_PATHS_def EXEMPT_PREFIXES_def starts_with_def example_inbound_def example_auth_def)

lemma example_bucket: "ratelimit_key example_auth (example_inbound ''x'') = ''ip:10.0.0.1''"
  by (simp add: ratelimit_key_def example_header carries_key_def starts_with_def) (simp add: example_inbound_def)


theorem bogus_key_bypasses_ip_limit_witness:
  "\<exists>x w'. rate_limit_dispatch example_auth (\<lambda>_. True) (example_inbound ''Bearer cue_sk_made_up'') ''m'' 7 plain_handler empty_world =
     (Reply (Admitted 60 59 60 False, Some x), w')"
proof -
  have key: "carries_key (header_get (example_inbound ''Bearer cue_sk_made_up'') ''authorization'')"
    by (simp add: example_header carries_key_def starts_with_def)
  have sec: "whole_seconds (7 + seconds 60) = 60" by (simp add: whole_seconds_def seconds_def)
  show ?thesis
    using bogus_key_bypasses_ip_limit [OF example_counted key, of empty_world "''m''" 7 plain_handler]
    unfolding sec by (simp add: empty_world_def)
qed

theorem body_limit_exact_witness:
  "body_limit (\<lambda>got. if got = [] then Receive else Answer (body_of got)) [(''content-length'', ''2'')] [HttpRequest ''{}'' False] = Answered ''{}''
   \<and> body_limit (\<lambda>got. if length (body_of got) \<le> MAX_BODY_SIZE then Receive else Answer (1 :: nat)) [] [] = body_limit (\<lambda>got. Receive) [] []"
proof -
  have "content_length [(''content-length'', ''2'')] = Some 2" by (simp add: content_length_def) code_simp
  then show ?thesis
    using body_limit_exact [of "[(''content-length'', ''2'')]" "[HttpRequest ''{}'' False]"
        "\<lambda>got. if got = [] then Receive else Answer (body_of got)" "\<lambda>got. Receive"]
      body_limit_exact [of "[]" "[]" "\<lambda>got. if length (body_of got) \<le> MAX_BODY_SIZE then Receive else Answer (1 :: nat)" "\<lambda>got. Receive"]
    by (simp add: MAX_BODY_SIZE_def)
qed

theorem verify_echo_transparent_witness:
  "verify_echo echo_library ''get'' (\<lambda>got. Answer \<lparr>rs_status = 200, rs_headers = [], rs_body = ''x''\<rparr>) [] [] =
     Answered \<lparr>rs_status = 200, rs_headers = [], rs_body = ''x''\<rparr>
   \<and> verify_echo echo_library ''POST'' (\<lambda>got. if got = [] then Receive else Answer \<lparr>rs_status = 400, rs_headers = [], rs_body = body_of got\<rparr>)
       [(''x-cueapi-verify-echo'', ''true'')] [HttpRequest ''[1,'' True, HttpRequest ''2]'' False] =
     Answered \<lparr>rs_status = 400, rs_headers = [], rs_body = ''[1,2]''\<rparr>"
proof -
  let ?app = "\<lambda>got. if got = [] then Receive else Answer \<lparr>rs_status = 400, rs_headers = [], rs_body = body_of got\<rparr>"
  have "\<not> header_echo_requested []" by (simp add: header_echo_requested_def)
  moreover have "header_echo_requested [(''x-cueapi-verify-echo'', ''true'')]" "upper ''POST'' \<in> set BODY_METHODS" by code_simp+
  moreover have "concat [''[1,''] @ ''2]'' = ''[1,2]''" by simp
  ultimately have
    "verify_echo echo_library ''get'' (\<lambda>got. Answer \<lparr>rs_status = 200, rs_headers = [], rs_body = ''x''\<rparr>) [] [] =
       serve (\<lambda>got. Answer \<lparr>rs_status = 200, rs_headers = [], rs_body = ''x''\<rparr>) [] []"
    and "verify_echo echo_library ''POST'' ?app [(''x-cueapi-verify-echo'', ''true'')] [HttpRequest ''[1,'' True, HttpRequest ''2]'' False] =
       (case serve ?app [] [HttpRequest ''[1,2]'' False] of
          Answered rs \<Rightarrow> (case maybe_inject echo_library ''[1,2]'' rs of Inl err \<Rightarrow> Failed err | Inr rs' \<Rightarrow> Answered rs')
        | x \<Rightarrow> x)"
    using verify_echo_transparent [THEN conjunct1, THEN mp, OF disjI2]
      verify_echo_transparent [THEN conjunct2, THEN conjunct1, THEN mp, of "''POST''" "[(''x-cueapi-verify-echo'', ''true'')]"
        "[HttpRequest ''[1,'' True, HttpRequest ''2]'' False]" "[''[1,'']" "''2]''" "[]" echo_library ?app]
    by (blast, fastforce)
  then show ?thesis by (simp add: maybe_inject_def)
qed

theorem disconnect_completes_body_witness:
  "verify_echo echo_library ''POST'' (\<lambda>got. if got = [] then Receive else Answer \<lparr>rs_status = 201, rs_headers = [], rs_body = body_of got\<rparr>)
     [(''x-cueapi-verify-echo'', ''true'')] [HttpRequest ''half'' True, HttpDisconnect] = Answered \<lparr>rs_status = 201, rs_headers = [], rs_body = ''half''\<rparr>"
proof -
  have "header_echo_requested [(''x-cueapi-verify-echo'', ''true'')]" "upper ''POST'' \<in> set BODY_METHODS" by code_simp+
  then show ?thesis by (intro disconnect_completes_body) simp_all
qed


end
