(* ===== verification/UsageStats.thy ===== *)
theory UsageStats
  imports Complex_Main Middleware
begin

section \<open>Usage statistics (\<open>src/app/services/usage_service.py\<close>, \<open>src/app/routers/usage.py\<close>)\<close>

text \<open>
  The report of \<open>GET /v1/usage\<close>. Its percentages and its projection are computed in floating point, so the
  model has the doubles the code computes with: a double is the rational it denotes, and every
  operation is the exact one followed by the rounding \<open>fl\<close> to 53 significant bits, ties to even. The
  range of the exponent plays no part: counts and limits are 32 bit columns. The results show that the
  detour through doubles never costs more than the rounding to an integer itself.
\<close>

subsection \<open>Doubles and \<open>round\<close>\<close>

text \<open>Rounding to an integer as Python's \<open>round\<close> does, ties to the even one.\<close>

definition round_even :: "rat \<Rightarrow> int" where
  "round_even x =
     (let f = \<lfloor>x\<rfloor>; d = x - of_int f
      in if d < 1 / 2 then f else if 1 / 2 < d then f + 1 else if even f then f else f + 1)"

text \<open>The exponent of the power of two at or below a positive number.\<close>

function binade :: "rat \<Rightarrow> int" where
  "binade x = (if 2 \<le> x then binade (x / 2) + 1 else if 0 < x \<and> x < 1 then binade (x * 2) - 1 else 0)"
  by auto
termination
proof (relation "measure (\<lambda>x. nat \<lceil>x\<rceil> + 2 * nat \<lceil>1 / x\<rceil>)")
  fix x :: rat
  assume "2 \<le> x"
  moreover from this have "\<lceil>x / 2\<rceil> < \<lceil>x\<rceil>" "1 < \<lceil>x\<rceil>" by linarith+
  moreover from \<open>2 \<le> x\<close> have "\<lceil>1 / x\<rceil> = 1" "\<lceil>1 / (x / 2)\<rceil> = 1" by (intro ceiling_unique; simp add: field_simps)+
  ultimately show "(x / 2, x) \<in> measure (\<lambda>x. nat \<lceil>x\<rceil> + 2 * nat \<lceil>1 / x\<rceil>)" by simp
next
  fix x :: rat
  assume "\<not> 2 \<le> x" and x: "0 < x \<and> x < 1"
  define y where "y = 1 / x"
  have y: "1 < y" "1 / (x * 2) = y / 2" using x by (simp_all add: y_def field_simps)
  have c: "1 < \<lceil>y\<rceil>" using y(1) by (simp add: less_ceiling_iff)
  then have "(2 :: rat) \<le> of_int \<lceil>y\<rceil>" by linarith
  then have "y / 2 \<le> of_int (\<lceil>y\<rceil> - 1)" using le_of_int_ceiling [of y] unfolding of_int_diff of_int_1 by linarith
  then have "\<lceil>y / 2\<rceil> < \<lceil>y\<rceil>" by (simp add: ceiling_le_iff [symmetric] del: of_int_diff)
  moreover have "\<lceil>x\<rceil> = 1" "\<lceil>x * 2\<rceil> \<le> 2" using x by (auto simp: ceiling_eq_iff ceiling_le_iff)
  ultimately show "(x * 2, x) \<in> measure (\<lambda>x. nat \<lceil>x\<rceil> + 2 * nat \<lceil>1 / x\<rceil>)"
    unfolding in_measure y(2) y_def [symmetric] using c by linarith
qed simp

declare binade.simps [simp del]

definition fl :: "rat \<Rightarrow> rat" where
  "fl x = (if x \<le> 0 then 0 else (let u = (2 :: rat) powi (binade x - 52) in of_int (round_even (x / u)) * u))"

lemma round_even_error: "\<bar>of_int (round_even x) - x\<bar> \<le> (1 / 2 :: rat)"
proof -
  have "of_int \<lfloor>x\<rfloor> \<le> x" "x < of_int \<lfloor>x\<rfloor> + 1" by linarith+
  then show ?thesis unfolding round_even_def Let_def by (auto simp: abs_le_iff; linarith)
qed

lemma binade_bounds: "0 < x \<Longrightarrow> 2 powi binade x \<le> x \<and> x < 2 powi (binade x + 1)"
proof (induction x rule: binade.induct)
  case (1 x)
  consider "2 \<le> x" | "0 < x" "x < 1" | "1 \<le> x" "x < 2" using "1.prems" by linarith
  then show ?case
  proof cases
    case 1
    then have "binade x = binade (x / 2) + 1" by (simp add: binade.simps [of x])
    with "1.IH"(1) 1 show ?thesis by (simp add: power_int_add field_simps)
  next
    case 2
    define b where "b = binade (x * 2)"
    have "2 powi b \<le> x * 2" "x * 2 < 2 powi (b + 1)" using "1.IH"(2) 2 by (simp_all add: b_def)
    moreover have "binade x = b - 1" using 2 by (simp add: binade.simps [of x] b_def)
    moreover have "(2 :: rat) powi (b + 1) = 2 * 2 powi b" "(2 :: rat) powi (b - 1) = 2 powi b / 2"
      by (simp_all add: power_int_add power_int_diff)
    ultimately show ?thesis by simp
  next
    case 3
    then have "binade x = 0" by (simp add: binade.simps [of x])
    with 3 show ?thesis by simp
  qed
qed

text \<open>The error of one operation: half a unit in the last of 53 places.\<close>

lemma fl_error:
  assumes "0 \<le> x"
  shows "\<bar>fl x - x\<bar> \<le> x / 2 ^ 53" and "0 \<le> fl x"
proof -
  have "\<bar>fl x - x\<bar> \<le> x / 2 ^ 53 \<and> 0 \<le> fl x"
  proof (cases "x = 0")
    case False
    with assms have x: "0 < x" by simp
    define u where "u = (2 :: rat) powi (binade x - 52)"
    have u: "0 < u" by (simp add: u_def)
    have ux: "u * 2 ^ 52 \<le> x"
      using binade_bounds [OF x] by (simp add: u_def power_int_diff power_int_numeral)
    have f: "fl x = of_int (round_even (x / u)) * u" using x by (simp add: fl_def u_def Let_def)
    have "\<bar>of_int (round_even (x / u)) - x / u\<bar> * u \<le> 1 / 2 * u" using round_even_error u by (intro mult_right_mono) auto
    moreover have "\<bar>of_int (round_even (x / u)) - x / u\<bar> * u = \<bar>(of_int (round_even (x / u)) - x / u) * u\<bar>"
      using u by (simp add: abs_mult)
    moreover have "(of_int (round_even (x / u)) - x / u) * u = fl x - x"
      using u by (simp add: f left_diff_distrib)
    ultimately have e: "\<bar>fl x - x\<bar> \<le> u / 2" by simp
    have "u / 2 \<le> x / 2 ^ 53" using ux by (simp add: field_simps)
    moreover have "x / 2 ^ 53 \<le> x" using x by simp
    ultimately show ?thesis using e by linarith
  qed (simp add: fl_def)
  then show "\<bar>fl x - x\<bar> \<le> x / 2 ^ 53" and "0 \<le> fl x" by auto
qed

text \<open>A quotient, multiplied and rounded: the computation behind the percentages and the projection.\<close>

definition scaled :: "int \<Rightarrow> int \<Rightarrow> int \<Rightarrow> int" where
  "scaled used d t = round_even (fl (fl (of_int used / of_int d) * of_int t))"

lemma scaled_nearest:
  assumes "0 \<le> u" and "0 < d" and "0 \<le> t" and "u * t < 2 ^ 50"
  shows "\<bar>2 * (scaled u d t * d) - 2 * (u * t)\<bar> \<le> d"
proof -
  let ?x = "of_int u / of_int d :: rat" and ?t = "of_int t :: rat" and ?d = "of_int d :: rat"
  define q where "q = fl ?x"
  define p where "p = fl (q * ?t)"
  have x: "0 \<le> ?x" "0 \<le> ?t" "0 < ?d" using assms by simp_all
  have q: "\<bar>q - ?x\<bar> \<le> ?x / 2 ^ 53" "0 \<le> q" using fl_error [OF x(1)] by (auto simp: q_def)
  have p: "\<bar>p - q * ?t\<bar> \<le> q * ?t / 2 ^ 53" using fl_error(1) [of "q * ?t"] q(2) x(2) by (simp add: p_def)
  define y where "y = ?x * ?t"
  have y: "0 \<le> y" unfolding y_def using x by (intro mult_nonneg_nonneg)
  have qt: "\<bar>q * ?t - y\<bar> \<le> y / 2 ^ 53"
  proof -
    have "\<bar>q - ?x\<bar> * ?t \<le> ?x / 2 ^ 53 * ?t" using q(1) x(2) by (rule mult_right_mono)
    moreover have "\<bar>q - ?x\<bar> * ?t = \<bar>q * ?t - y\<bar>" unfolding y_def left_diff_distrib [symmetric] using x(2) by (simp only: abs_mult abs_of_nonneg)
    moreover have "?x / 2 ^ 53 * ?t = y / 2 ^ 53" by (simp add: y_def)
    ultimately show ?thesis by metis
  qed
  have "\<bar>p - y\<bar> \<le> y / 2 ^ 51"
  proof -
    define e where "e = y / 2 ^ 53"
    have e: "0 \<le> e" "e \<le> y" "y / 2 ^ 51 = 4 * e" using y by (simp_all add: e_def)
    have z: "\<bar>q * ?t - y\<bar> \<le> e" using qt by (simp only: e_def)
    then have "q * ?t \<le> 2 * y" using e(2) by linarith
    then have "q * ?t / 2 ^ 53 \<le> 2 * y / 2 ^ 53" by (intro divide_right_mono) simp_all
    with p have "\<bar>p - q * ?t\<bar> \<le> 2 * e" by (simp add: e_def)
    with z e(1) show ?thesis unfolding e(3) by linarith
  qed
  moreover have "\<bar>of_int (scaled u d t) - p\<bar> \<le> 1 / 2" using round_even_error [of p] by (simp add: scaled_def p_def q_def)
  ultimately have "\<bar>of_int (scaled u d t) - y\<bar> \<le> 1 / 2 + y / 2 ^ 51" by linarith
  then have "\<bar>of_int (scaled u d t) - y\<bar> * (2 * ?d) \<le> (1 / 2 + y / 2 ^ 51) * (2 * ?d)" using x(3) by (intro mult_right_mono) auto
  moreover have yd: "y * ?d = of_int (u * t)" using x(3) by (simp add: y_def)
  moreover have "\<bar>of_int (scaled u d t) - y\<bar> * (2 * ?d) = of_int \<bar>2 * (scaled u d t * d) - 2 * (u * t)\<bar>"
  proof -
    have "\<bar>of_int (scaled u d t) - y\<bar> * (2 * ?d) = \<bar>(of_int (scaled u d t) - y) * (2 * ?d)\<bar>" using x(3) by (simp add: abs_mult)
    also have "(of_int (scaled u d t) - y) * (2 * ?d) = of_int (2 * (scaled u d t * d) - 2 * (u * t))"
      using yd by (simp add: left_diff_distrib algebra_simps)
    finally show ?thesis by simp
  qed
  moreover have "(1 / 2 + y / 2 ^ 51) * (2 * ?d) = ?d + of_int (u * t) / 2 ^ 50" using yd by (simp add: field_simps)
  ultimately have "of_int \<bar>2 * (scaled u d t * d) - 2 * (u * t)\<bar> \<le> ?d + of_int (u * t) / 2 ^ 50" by simp
  also have "of_int (u * t) / 2 ^ 50 < (1 :: rat)"
  proof -
    have "(of_int (u * t) :: rat) < of_int (2 ^ 50)" using assms(4) by (simp only: of_int_less_iff)
    then show ?thesis by simp
  qed
  finally have "(of_int \<bar>2 * (scaled u d t * d) - 2 * (u * t)\<bar> :: rat) < of_int (d + 1)" by simp
  then show ?thesis by (simp only: of_int_less_iff)
qed

subsection \<open>The calendar\<close>

text \<open>\<open>date(y, m, d)\<close> as a day number, and \<open>calendar.monthrange\<close>.\<close>

definition day_number :: "int \<Rightarrow> int \<Rightarrow> int \<Rightarrow> int" where
  "day_number y m d =
     (let y' = (if m \<le> 2 then y - 1 else y); era = y' div 400; yoe = y' mod 400;
          doy = (153 * (if 2 < m then m - 3 else m + 9) + 2) div 5 + d - 1;
          doe = yoe * 365 + yoe div 4 - yoe div 100 + doy
      in era * 146097 + doe - 719468)"

definition is_leap :: "int \<Rightarrow> bool" where
  "is_leap y \<longleftrightarrow> y mod 4 = 0 \<and> (y mod 100 \<noteq> 0 \<or> y mod 400 = 0)"

definition month_length :: "int \<times> int \<Rightarrow> int" where
  "month_length ym = (case ym of (y, m) \<Rightarrow> if m = 2 then (if is_leap y then 29 else 28) else if m \<in> {4, 6, 9, 11} then 30 else 31)"

definition next_month :: "int \<times> int \<Rightarrow> int \<times> int" where
  "next_month ym = (case ym of (y, m) \<Rightarrow> if m = 12 then (y + 1, 1) else (y, m + 1))"

abbreviation first_day :: "int \<times> int \<Rightarrow> int" where
  "first_day ym \<equiv> day_number (fst ym) (snd ym) 1"

definition date_iso :: "int \<Rightarrow> string" where
  "date_iso day = (case civil_date day of (y, m, d) \<Rightarrow> pad 4 y @ ''-'' @ pad 2 m @ ''-'' @ pad 2 d)"

definition days_remaining :: "int \<Rightarrow> time \<Rightarrow> int" where
  "days_remaining period_end now = max 0 (period_end - now div days 1)"

definition days_elapsed :: "int \<Rightarrow> time \<Rightarrow> int" where
  "days_elapsed period_start now = max 1 (now div days 1 - period_start + 1)"

definition projected_month_end :: "int \<Rightarrow> int \<Rightarrow> int \<Rightarrow> int" where
  "projected_month_end used elapsed all_days = (if elapsed \<le> 0 then used else scaled used elapsed all_days)"

definition percent_used :: "int \<Rightarrow> int \<Rightarrow> int" where
  "percent_used used limit = (if limit \<le> 0 then 0 else scaled used limit 100)"

text \<open>\<open>round(x, 1)\<close>: the decimal with one place nearest to the double, read back as a double.\<close>

definition percentage :: "int \<Rightarrow> int \<Rightarrow> rat" where
  "percentage used limit =
     (if 0 < limit then fl (of_int (round_even (10 * fl (fl (of_int used / of_int limit) * 100))) / 10) else 0)"

subsection \<open>The report\<close>

record outcome_summary =
  os_reported :: nat
  os_succeeded :: nat
  os_failed :: nat

definition month_executions :: "world \<Rightarrow> uuid \<Rightarrow> int \<times> int \<Rightarrow> execution list" where
  "month_executions w u ym =
     filter (\<lambda>e. list_ex (\<lambda>c. cue_id c = ex_cue_id e \<and> cue_user_id c = u) (cues w) \<and> days (first_day ym) \<le> ex_created_at e) (executions w)"

definition get_outcome_summary :: "world \<Rightarrow> uuid \<Rightarrow> time \<Rightarrow> outcome_summary" where
  "get_outcome_summary w u now =
     (let es = month_executions w u (current_month_start now);
          counting = (\<lambda>p. length (filter p es));
          reported = counting (\<lambda>e. ex_outcome_recorded_at e \<noteq> None);
          succeeded = counting (\<lambda>e. ex_outcome_recorded_at e \<noteq> None \<and> ex_outcome_success e = Some True);
          failed_reported = counting (\<lambda>e. ex_outcome_recorded_at e \<noteq> None \<and> ex_outcome_success e = Some False);
          failed_delivery = counting (\<lambda>e. ex_outcome_recorded_at e = None \<and> ex_status e \<in> {exec_state.Failed, Missed})
      in \<lparr>os_reported = reported, os_succeeded = succeeded, os_failed = failed_reported + failed_delivery\<rparr>)"

definition get_current_rate_usage :: "bool \<Rightarrow> redis_key option \<Rightarrow> time \<Rightarrow> world \<Rightarrow> nat \<times> world" where
  "get_current_rate_usage up key now w =
     (case key of
        None \<Rightarrow> (0, w)
      | Some k \<Rightarrow>
          if up then (let r = window_pruned k now (redis w) in (length (zset_of r now k), w\<lparr>redis := r\<rparr>)) else (0, w))"

record usage_report =
  ur_plan :: string
  ur_start :: string
  ur_end :: string
  ur_days_remaining :: int
  ur_cues_used :: int
  ur_cues_limit :: int
  ur_cues_remaining :: int
  ur_cues_percent :: int
  ur_used :: int
  ur_limit :: int
  ur_remaining :: int
  ur_percent :: int
  ur_percentage :: rat
  ur_projected :: int
  ur_will_exceed :: bool
  ur_outcomes :: outcome_summary
  ur_rate_limit :: int
  ur_rate_usage :: nat

text \<open>
  \<open>clock i\<close> is the \<open>i\<close>-th reading of the clock and \<open>up i\<close> whether Redis answers to the \<open>i\<close>-th use. The
  database session is always there.
\<close>

definition get_usage_stats ::
  "(nat \<Rightarrow> bool) \<Rightarrow> (nat \<Rightarrow> time) \<Rightarrow> authenticated_user \<Rightarrow> redis_key option \<Rightarrow> world \<Rightarrow> usage_report \<times> world" where
  "get_usage_stats up clock a key w =
     (let month_start = current_month_start (clock 0);
          (execution_count, w1) = get_monthly_usage (up 0) True (au_id a) (clock 1) w;
          active_cues = int (length (filter (\<lambda>c. cue_user_id c = au_id a \<and> cue_status c \<in> {CueActive, CuePaused}) (cues w1)));
          period_end = first_day (next_month month_start) - 1;
          limit = au_monthly_execution_limit a;
          elapsed = days_elapsed (first_day month_start) (clock 2);
          projected = projected_month_end execution_count elapsed (month_length month_start);
          outcomes = get_outcome_summary w1 (au_id a) (clock 3);
          (current_rate, w2) = get_current_rate_usage (up 1) key (clock 4) w1;
          cue_limit = au_active_cue_limit a
      in (\<lparr>ur_plan = au_plan a, ur_start = date_iso (first_day month_start), ur_end = date_iso period_end,
           ur_days_remaining = days_remaining period_end (clock 5),
           ur_cues_used = active_cues, ur_cues_limit = cue_limit, ur_cues_remaining = max 0 (cue_limit - active_cues),
           ur_cues_percent = percent_used active_cues cue_limit,
           ur_used = execution_count, ur_limit = limit, ur_remaining = max 0 (limit - execution_count),
           ur_percent = percent_used execution_count limit, ur_percentage = percentage execution_count limit,
           ur_projected = projected, ur_will_exceed = (limit \<le> projected), ur_outcomes = outcomes,
           ur_rate_limit = au_rate_limit_per_minute a, ur_rate_usage = current_rate\<rparr>, w2))"

text \<open>The route: the key of the rate limit is the one of the middleware when the request carries a key.\<close>

definition usage_route ::
  "auth_env \<Rightarrow> (nat \<Rightarrow> bool) \<Rightarrow> (nat \<Rightarrow> time) \<Rightarrow> inbound \<Rightarrow> authenticated_user \<Rightarrow> world \<Rightarrow> usage_report \<times> world" where
  "usage_route env up clock req a w =
     (let auth_header = header_get req ''authorization'';
          key = (if carries_key auth_header then Some (KRateLimit (key_hash_of env auth_header)) else None)
      in get_usage_stats up clock a key w)"

subsection \<open>What the report tells\<close>

text \<open>The day number without the 400-year blocks, and the length of a month by it.\<close>

definition year_days :: "int \<Rightarrow> int" where
  "year_days y = 365 * y + y div 4 - y div 100 + y div 400"

lemma era_days: "z div 400 * 146097 + ((z mod 400) * 365 + z mod 400 div 4 - z mod 400 div 100) = year_days z"
proof -
  have z: "z = 400 * (z div 400) + z mod 400" by simp
  have "(4 * (100 * q) + r) div 4 = 100 * q + r div 4" "(100 * (4 * q) + r) div 100 = 4 * q + r div 100" for q r :: int
    by (rule div_mult_self4; simp)+
  from this [of "z div 400" "z mod 400"]
  have "z div 4 = 100 * (z div 400) + z mod 400 div 4" "z div 100 = 4 * (z div 400) + z mod 400 div 100" by simp_all
  with z show ?thesis unfolding year_days_def by linarith
qed

lemma day_number_alt:
  "day_number y m d =
     year_days (if m \<le> 2 then y - 1 else y) + (153 * (if 2 < m then m - 3 else m + 9) + 2) div 5 + d - 719469"
  unfolding day_number_def Let_def era_days [symmetric] by simp

lemma div_step:
  assumes "0 < n"
  shows "y div n = (y - 1) div n + (if y mod n = 0 then 1 else 0 :: int)"
proof (cases "y mod n = 0")
  case True
  then have "n * (y div n) = y" using mult_div_mod_eq [of n y] by linarith
  moreover have "n * (y div n - 1) = n * (y div n) - n" by (simp add: right_diff_distrib)
  ultimately have "y - 1 = n * (y div n - 1) + (n - 1)" by linarith
  from int_div_pos_eq [OF this] assms have "(y - 1) div n = y div n - 1" by simp
  then show ?thesis using True by simp
next
  case False
  then have "0 < y mod n" using pos_mod_sign [OF assms, of y] by simp
  moreover have "y - 1 = n * (y div n) + (y mod n - 1)" by simp
  ultimately have "(y - 1) div n = y div n"
    using int_div_pos_eq [of "y - 1" n "y div n" "y mod n - 1"] pos_mod_bound [OF assms, of y] by linarith
  then show ?thesis using False by simp
qed

lemma leap_step: "year_days y = year_days (y - 1) + (if is_leap y then 366 else 365)"
proof -
  define c where "c = (\<lambda>n. if y mod n = 0 then 1 else 0 :: int)"
  have st: "y div n = (y - 1) div n + c n" if "0 < n" for n unfolding c_def by (rule div_step [OF that])
  have add: "a = a' + c 4 \<Longrightarrow> b = b' + c 100 \<Longrightarrow> d = d' + c 400 \<Longrightarrow>
      365 * y + a - b + d = 365 * (y - 1) + a' - b' + d' + (365 + c 4 - c 100 + c 400)" for a a' b b' d d' :: int by simp
  have yd: "year_days y = year_days (y - 1) + (365 + c 4 - c 100 + c 400)"
    unfolding year_days_def by (rule add; rule st; simp)
  have d: "(4 :: int) dvd 100" "(100 :: int) dvd 400" by simp_all
  have m: "y mod k = 0" if "k dvd n" "y mod n = 0" for k n
    using dvd_trans [OF that(1) mod_0_imp_dvd [OF that(2)]] by (rule dvd_imp_mod_0)
  have imp: "y mod 100 = 0 \<longrightarrow> y mod 4 = 0" "y mod 400 = 0 \<longrightarrow> y mod 100 = 0"
    by (rule impI, rule m [OF d(1)], assumption) (rule impI, rule m [OF d(2)], assumption)
  have "(p100 \<longrightarrow> p4) \<Longrightarrow> (p400 \<longrightarrow> p100) \<Longrightarrow> 365 + (if p4 then 1 else 0) - (if p100 then 1 else 0) + (if p400 then 1 else 0)
      = (if p4 \<and> (\<not> p100 \<or> p400) then 366 else 365 :: int)" for p4 p100 p400
    by (cases p4; cases p100; cases p400) simp_all
  from this [OF imp] have "365 + c 4 - c 100 + c 400 = (if is_leap y then 366 else 365)" unfolding c_def is_leap_def .
  with yd show ?thesis by metis
qed

lemma period_length: "m \<in> {1..12} \<Longrightarrow> first_day (next_month (y, m)) - first_day (y, m) = month_length (y, m)"
proof -
  assume "m \<in> {1..12}"
  then have "1 \<le> m \<and> m \<le> 12" by simp
  then have "m = 1 \<or> m = 2 \<or> m = 3 \<or> m = 4 \<or> m = 5 \<or> m = 6 \<or> m = 7 \<or> m = 8 \<or> m = 9 \<or> m = 10 \<or> m = 11 \<or> m = 12"
    by presburger
  then show ?thesis
    by (elim disjE) (simp_all add: next_month_def day_number_alt month_length_def leap_step [of y])
qed

lemma percent_nearest:
  assumes "0 \<le> u" and "u < 2 ^ 31" and "0 < l"
  shows "\<bar>2 * (percent_used u l * l) - 200 * u\<bar> \<le> l" and "u \<le> l \<Longrightarrow> percent_used u l \<le> 100" and "0 \<le> percent_used u l"
proof -
  have "u * 100 < 2 ^ 50" using assms(2) by simp
  from scaled_nearest [OF assms(1,3) _ this] show n: "\<bar>2 * (percent_used u l * l) - 200 * u\<bar> \<le> l"
    using assms(3) by (simp add: percent_used_def)
  show "percent_used u l \<le> 100" if "u \<le> l"
  proof (rule ccontr)
    assume "\<not> percent_used u l \<le> 100"
    then have "101 * l \<le> percent_used u l * l" using assms(3) by (intro mult_right_mono) auto
    with n that assms(3) show False by linarith
  qed
  show "0 \<le> percent_used u l"
  proof (rule ccontr)
    assume "\<not> 0 \<le> percent_used u l"
    then have "percent_used u l * l \<le> (- 1) * l" using assms(3) by (intro mult_right_mono) auto
    with n assms show False by linarith
  qed
qed

lemma projection_nearest:
  assumes "0 \<le> u" and "u < 2 ^ 31" and "0 < e"
  shows "\<bar>2 * (projected_month_end u e (month_length ym) * e) - 2 * (u * month_length ym)\<bar> \<le> e"
proof -
  have m: "0 \<le> month_length ym" "month_length ym \<le> 31" by (auto simp: month_length_def split: prod.splits)
  have "u * month_length ym \<le> 2 ^ 31 * 31" using assms(1,2) m by (intro mult_mono) auto
  then have "u * month_length ym < 2 ^ 50" by simp
  from scaled_nearest [OF assms(1,3) m(1) this] show ?thesis using assms(3) by (simp add: projected_month_end_def)
qed

lemma length_filter_mono: "(\<And>x. P x \<Longrightarrow> Q x) \<Longrightarrow> length (filter P xs) \<le> length (filter Q xs)"
  by (induction xs) auto

lemma length_filter_disjoint:
  "(\<And>x. \<not> (P x \<and> Q x)) \<Longrightarrow> (\<And>x. \<not> (P x \<and> R x)) \<Longrightarrow> (\<And>x. \<not> (Q x \<and> R x)) \<Longrightarrow>
   length (filter P xs) + (length (filter Q xs) + length (filter R xs)) \<le> length xs"
  by (induction xs) (auto simp: le_Suc_eq)

lemma outcome_summary_counts:
  "os_succeeded (get_outcome_summary w u now) \<le> os_reported (get_outcome_summary w u now)"
  "os_succeeded (get_outcome_summary w u now) + os_failed (get_outcome_summary w u now)
     \<le> length (month_executions w u (current_month_start now))"
  unfolding get_outcome_summary_def Let_def
  by (auto intro!: length_filter_mono length_filter_disjoint)

lemma usage_reads:
  "snd (get_monthly_usage up True u now w) = w\<lparr>redis := redis (snd (get_monthly_usage up True u now w))\<rparr>"
  "snd (get_current_rate_usage up key now w) = w\<lparr>redis := redis (snd (get_current_rate_usage up key now w))\<rparr>"
  by (simp_all add: get_monthly_usage_def get_current_rate_usage_def Let_def split: option.split)

text \<open>
  C32. The numbers of the usage report, as long as the counts are below the range of a 32 bit column: the
  percentages and the projection are nearest integers of the exact values although they are computed in
  floating point, a user within the limit is shown at most 100 percent, what remains is never negative,
  the counts of outcomes fit together, and the request writes nothing but Redis.
\<close>

theorem usage_report_accurate:
  assumes "get_usage_stats up clock a key w = (r, w')" and "0 \<le> ur_used r" and "ur_used r < 2 ^ 31" and "ur_cues_used r < 2 ^ 31"
    and "0 < ur_limit r" and "0 < ur_cues_limit r"
  shows "\<bar>2 * (ur_percent r * ur_limit r) - 200 * ur_used r\<bar> \<le> ur_limit r
    \<and> (ur_used r \<le> ur_limit r \<longrightarrow> 0 \<le> ur_percent r \<and> ur_percent r \<le> 100)
    \<and> \<bar>2 * (ur_cues_percent r * ur_cues_limit r) - 200 * ur_cues_used r\<bar> \<le> ur_cues_limit r
    \<and> (let month = current_month_start (clock 0); e = days_elapsed (first_day month) (clock 2)
       in 0 < e \<and> \<bar>2 * (ur_projected r * e) - 2 * (ur_used r * month_length month)\<bar> \<le> e)
    \<and> ur_remaining r = max 0 (ur_limit r - ur_used r)
    \<and> os_succeeded (ur_outcomes r) \<le> os_reported (ur_outcomes r)
    \<and> w' = w\<lparr>redis := redis w'\<rparr>"
proof -
  obtain n w1 where n: "get_monthly_usage (up 0) True (au_id a) (clock 1) w = (n, w1)" by force
  obtain c w2 where c: "get_current_rate_usage (up 1) key (clock 4) w1 = (c, w2)" by force
  have r: "ur_used r = n" "w' = w2" "ur_percent r = percent_used n (ur_limit r)" "ur_cues_percent r = percent_used (ur_cues_used r) (ur_cues_limit r)"
    "ur_projected r = projected_month_end n (days_elapsed (first_day (current_month_start (clock 0))) (clock 2)) (month_length (current_month_start (clock 0)))"
    "ur_remaining r = max 0 (ur_limit r - n)" "ur_outcomes r = get_outcome_summary w1 (au_id a) (clock 3)" and c0: "0 \<le> ur_cues_used r"
    using assms(1) unfolding get_usage_stats_def Let_def n c prod.case by auto
  have "w1 = w\<lparr>redis := redis w1\<rparr>" "w2 = w1\<lparr>redis := redis w2\<rparr>"
    using usage_reads(1) [of "up 0" "au_id a" "clock 1" w] usage_reads(2) [of "up 1" key "clock 4" w1] unfolding n c by simp_all
  then have "w' = w\<lparr>redis := redis w'\<rparr>" unfolding r(2) by (cases w; cases w1; cases w2) simp
  moreover have e: "0 < days_elapsed (first_day (current_month_start (clock 0))) (clock 2)" by (simp add: days_elapsed_def)
  ultimately show ?thesis
    using percent_nearest [of n "ur_limit r"] percent_nearest [OF c0, of "ur_cues_limit r"] projection_nearest [of n, OF _ _ e]
      outcome_summary_counts(1) [of w1 "au_id a" "clock 3"] assms(2-) unfolding r Let_def by simp
qed

theorem usage_report_accurate_witness:
  "let a = \<lparr>au_id = 1, au_email = ''a@x'', au_plan = ''free'', au_active_cue_limit = 10, au_monthly_execution_limit = 300, au_rate_limit_per_minute = 60\<rparr>;
       w = empty_world\<lparr>usage_monthly := [\<lparr>us_user_id = 1, us_month_start = (1970, 1), us_execution_count = 29\<rparr>]\<rparr>;
       r = fst (get_usage_stats (\<lambda>_. False) (\<lambda>_. 0) a None w)
   in ur_used r = 29 \<and> \<bar>2 * (ur_percent r * 300) - 200 * 29\<bar> \<le> 300"
proof -
  let ?a = "\<lparr>au_id = 1, au_email = ''a@x'', au_plan = ''free'', au_active_cue_limit = 10, au_monthly_execution_limit = 300, au_rate_limit_per_minute = 60\<rparr>"
  let ?w = "empty_world\<lparr>usage_monthly := [\<lparr>us_user_id = 1, us_month_start = (1970, 1), us_execution_count = 29\<rparr>]\<rparr>"
  obtain r w' where r: "get_usage_stats (\<lambda>_. False) (\<lambda>_. 0) ?a None ?w = (r, w')" by force
  have "current_month_start 0 = (1970, 1)" by code_simp
  with r have "ur_used r = 29" "ur_limit r = 300" "ur_cues_used r = 0" "ur_cues_limit r = 10"
    by (auto simp: get_usage_stats_def get_monthly_usage_def get_current_rate_usage_def pg_usage_def usage_row_of_def empty_world_def Let_def)
  with usage_report_accurate [OF r] r show ?thesis by simp
qed

end
