(* ===== verification/Diagnostics.thy ===== *)
theory Diagnostics
  imports LeaderLock Authz DeviceCodes
begin

section \<open>Diagnostics (\<open>src/app/routers/health.py\<close>, \<open>info.py\<close>, \<open>echo.py\<close>) and the application (\<open>src/app/main.py\<close>)\<close>

text \<open>
  The health and status reports with what each part of them does when the database or Redis fails, the
  configuration report, the echo endpoint, and the error handlers and the mounting of routers in
  \<open>main.py\<close>. \<open>pg i\<close> and \<open>up i\<close> say whether the \<open>i\<close>-th use of the database and of Redis succeeds.
\<close>

subsection \<open>\<open>GET /health\<close>\<close>

text \<open>The entries of \<open>poller\<close> in the report; an exception in between leaves the earlier ones.\<close>

record poller_info =
  pi_status :: "string option"
  pi_last_run :: "time option"
  pi_seconds_ago :: "int option"
  pi_cues_last_cycle :: "int option"
  pi_cycle_duration_ms :: "int option"

definition no_poller_info :: poller_info where
  "no_poller_info = \<lparr>pi_status = None, pi_last_run = None, pi_seconds_ago = None, pi_cues_last_cycle = None, pi_cycle_duration_ms = None\<rparr>"

text \<open>\<open>int(seconds)\<close> cuts towards zero.\<close>

definition whole_seconds :: "time \<Rightarrow> int" where
  "whole_seconds t = (if 0 \<le> t then t div seconds 1 else - (- t div seconds 1))"

text \<open>The optional counters; a value that is no number raises.\<close>

definition int_value :: "redis_val option \<Rightarrow> py_error + int option" where
  "int_value v = (case v of None \<Rightarrow> Inr None | Some (RInt n) \<Rightarrow> Inr (Some n) | Some _ \<Rightarrow> Inl ValueError)"

definition health_poller :: "bool \<Rightarrow> time \<Rightarrow> redis_store \<Rightarrow> string \<times> poller_info" where
  "health_poller up now r =
     (if \<not> up then (''unknown'', no_poller_info)
      else
        (case redis_get r now KPollerLastRun of
           None \<Rightarrow> (''unknown'', no_poller_info\<lparr>pi_status := Some ''unknown''\<rparr>)
         | Some (RTime t) \<Rightarrow>
             (let info = no_poller_info\<lparr>pi_last_run := Some t, pi_seconds_ago := Some (whole_seconds (now - t))\<rparr>
              in case int_value (redis_get r now KPollerCuesProcessed) of
                   Inl _ \<Rightarrow> (''unknown'', info)
                 | Inr c \<Rightarrow>
                     (case int_value (redis_get r now KPollerCycleDurationMs) of
                        Inl _ \<Rightarrow> (''unknown'', info\<lparr>pi_cues_last_cycle := c\<rparr>)
                      | Inr d \<Rightarrow>
                          (if seconds 30 < now - t then ''stale'' else ''ok'',
                           info\<lparr>pi_cues_last_cycle := c, pi_cycle_duration_ms := d\<rparr>)))
         | Some _ \<Rightarrow> (''unknown'', no_poller_info)))"

record workers_info =
  wi_active_count :: "nat option"
  wi_last_heartbeat :: "string option"

definition health_workers :: "(nat \<Rightarrow> bool) \<Rightarrow> time \<Rightarrow> world \<Rightarrow> string \<times> workers_info" where
  "health_workers pg now w =
     (if \<not> pg 1 then (''unknown'', \<lparr>wi_active_count = None, wi_last_heartbeat = None\<rparr>)
      else
        (let active = length (filter (\<lambda>k. now - seconds 180 < wk_last_heartbeat k) (workers w))
         in if active = 0 then (''none'', \<lparr>wi_active_count = Some active, wi_last_heartbeat = None\<rparr>)
            else if \<not> pg 2 then (''unknown'', \<lparr>wi_active_count = Some active, wi_last_heartbeat = None\<rparr>)
            else (''ok'', \<lparr>wi_active_count = Some active,
                   wi_last_heartbeat = Some (isoformat (Max (set (map wk_last_heartbeat (workers w)))) @ ''Z'')\<rparr>)))"

text \<open>Four counts; the first statement that fails ends the list.\<close>

definition queue_counts :: "time \<Rightarrow> world \<Rightarrow> (string \<times> nat) list" where
  "queue_counts now w =
     [(''pending_outbox'', length (filter (\<lambda>r. \<not> ob_dispatched r) (outbox w))),
      (''stale_executions'', length (filter (\<lambda>e. ex_status e = Delivering \<and> ex_updated_at e < now - seconds 300) (executions w))),
      (''pending_retries'', length (filter (\<lambda>e. ex_status e \<in> {Retrying, RetryReady}) (executions w))),
      (''pending_worker_claims'',
       length (filter (\<lambda>e. ex_status e = Pending \<and> list_ex (\<lambda>c. cue_id c = ex_cue_id e \<and> cue_callback_transport c = WorkerPull) (cues w))
         (executions w)))]"

definition health_queue :: "(nat \<Rightarrow> bool) \<Rightarrow> time \<Rightarrow> world \<Rightarrow> (string \<times> nat) list" where
  "health_queue pg now w = map snd (takeWhile (\<lambda>(i, _). pg i) (zip [3..<7] (queue_counts now w)))"

record health_report =
  hr_status :: string
  hr_timestamp :: string
  hr_postgres :: string
  hr_redis :: string
  hr_poller :: string
  hr_worker :: string
  hr_poller_info :: poller_info
  hr_workers_info :: workers_info
  hr_queue :: "(string \<times> nat) list"

definition health_check :: "(nat \<Rightarrow> bool) \<Rightarrow> (nat \<Rightarrow> bool) \<Rightarrow> time \<Rightarrow> world \<Rightarrow> health_report" where
  "health_check pg up now w =
     (let db_ok = pg 0; redis_ok = up 0;
          (poller, info) = (if redis_ok then health_poller (up 1) now (redis w) else (''unknown'', no_poller_info));
          (worker, winfo) = (if db_ok then health_workers pg now w else (''unknown'', \<lparr>wi_active_count = None, wi_last_heartbeat = None\<rparr>))
      in \<lparr>hr_status = (if \<not> db_ok \<or> \<not> redis_ok \<or> poller = ''stale'' then ''degraded'' else ''healthy''),
          hr_timestamp = isoformat now,
          hr_postgres = (if db_ok then ''ok'' else ''error''),
          hr_redis = (if redis_ok then ''ok'' else ''error''),
          hr_poller = poller, hr_worker = worker, hr_poller_info = info, hr_workers_info = winfo,
          hr_queue = (if db_ok then health_queue pg now w else [])\<rparr>)"

subsection \<open>\<open>GET /status\<close>\<close>

text \<open>The HTTP status, the word and the reason.\<close>

definition status_check :: "(nat \<Rightarrow> bool) \<Rightarrow> (nat \<Rightarrow> bool) \<Rightarrow> time \<Rightarrow> world \<Rightarrow> int \<times> string \<times> string option" where
  "status_check pg up now w =
     (if \<not> pg 0 then (503, ''down'', Some ''postgres unreachable'')
      else if \<not> up 0 then (503, ''down'', Some ''redis unreachable'')
      else if up 1 \<and> (case redis_get (redis w) now KPollerLastRun of Some (RTime t) \<Rightarrow> seconds 30 < now - t | _ \<Rightarrow> False)
        then (200, ''degraded'', Some ''poller stale'')
      else (200, ''healthy'', None))"

subsection \<open>\<open>GET /v1/info\<close>\<close>

record info_settings =
  in_DISABLE_CUE_PRIMITIVE :: bool
  in_DISABLE_QUOTA_ENFORCEMENT :: bool
  in_DISABLE_DEVICE_CODE :: bool
  in_EXTERNAL_AUTH_BACKEND :: bool
  in_INTERNAL_AUTH_TOKEN :: string

text \<open>\<open>file\<close> is the text of the VERSION file, \<open>None\<close> when it can not be read.\<close>

definition read_version :: "string option \<Rightarrow> string" where
  "read_version file = (case file of None \<Rightarrow> ''unknown'' | Some t \<Rightarrow> if strip t = [] then ''unknown'' else strip t)"

definition disabled_primitives :: "info_settings \<Rightarrow> string list" where
  "disabled_primitives s =
     (if in_DISABLE_CUE_PRIMITIVE s then [''cues''] else []) @ (if in_DISABLE_QUOTA_ENFORCEMENT s then [''quotas''] else [])
     @ (if in_DISABLE_DEVICE_CODE s then [''device_code''] else [])"

definition authentication_paths :: "info_settings \<Rightarrow> (string \<times> bool) list" where
  "authentication_paths s =
     [(''per_user_api_key'', True), (''internal_token_with_on_behalf_of'', in_EXTERNAL_AUTH_BACKEND s \<and> in_INTERNAL_AUTH_TOKEN s \<noteq> [])]"

fun backend_name :: "authz_backend \<Rightarrow> string" where
  "backend_name SameTenant = ''SameTenantAuthorizationBackend''"
| "backend_name Everyone = ''EveryoneAuthorizationBackend''"
| "backend_name (Allowlist _) = ''AllowlistAuthorizationBackend''"
| "backend_name (AuthzHook _ _) = ''WebhookAuthorizationBackend''"

definition get_info :: "info_settings \<Rightarrow> string option \<Rightarrow> authz_backend \<Rightarrow> string \<times> string \<times> (string \<times> bool) list \<times> string list" where
  "get_info s file backend = (read_version file, backend_name backend, authentication_paths s, disabled_primitives s)"

subsection \<open>The echo endpoint\<close>

definition ECHO_TTL_SECONDS :: int where
  "ECHO_TTL_SECONDS = 300"

definition ECHO_MAX_PAYLOAD :: int where
  "ECHO_MAX_PAYLOAD = 1000000"

text \<open>\<open>loads\<close> is \<open>json.loads\<close>, \<open>None\<close> when it raises; the third use of Redis is the SET.\<close>

definition echo_data :: "json \<Rightarrow> (string \<times> string) list \<Rightarrow> time \<Rightarrow> json" where
  "echo_data payload headers now =
     JObj [(''payload'', payload), (''headers'', JObj (map (\<lambda>(k, v). (k, JStr v)) headers)), (''received_at'', JStr (isoformat now))]"

definition echo_store ::
  "auth_env \<Rightarrow> (string \<Rightarrow> json option) \<Rightarrow> string \<Rightarrow> string \<Rightarrow> string option \<Rightarrow> (string \<times> string) list \<Rightarrow> time \<Rightarrow> world \<Rightarrow> bool reply \<times> world" where
  "echo_store env loads token body client headers now w =
     (if length token < 16 then (Refused ''invalid_token'' 400, w)
      else if ECHO_MAX_PAYLOAD < int (length body) then (Refused ''payload_too_large'' 413, w)
      else limited env 0 (KAuthLimit ''echo_rl'' (case client of None \<Rightarrow> ''unknown'' | Some h \<Rightarrow> h)) 10 3600 now
        (\<lambda>w1. case loads body of
           None \<Rightarrow> (Raised ValueError, w1)
         | Some payload \<Rightarrow>
             if \<not> ae_up env 2 then (Raised RedisError, w1)
             else (Reply True, w1\<lparr>redis := redis_set_ex (KEcho token) (RStr (json_dumps True False (echo_data payload headers now)))
               ECHO_TTL_SECONDS now (redis w1)\<rparr>)) w)"

datatype echo_answer = EchoWaiting | EchoDelivered json json json

definition obj_field :: "string \<Rightarrow> json \<Rightarrow> json option" where
  "obj_field k j = (case j of JObj kvs \<Rightarrow> map_of kvs k | _ \<Rightarrow> None)"

text \<open>Who asks must be signed in; any user may ask for any token.\<close>

definition echo_retrieve :: "auth_env \<Rightarrow> (string \<Rightarrow> json option) \<Rightarrow> string \<Rightarrow> time \<Rightarrow> world \<Rightarrow> echo_answer reply" where
  "echo_retrieve env loads token now w =
     (if \<not> ae_up env 0 then Raised RedisError
      else (case redis_get (redis w) now (KEcho token) of
          None \<Rightarrow> Reply EchoWaiting
        | Some (RStr data) \<Rightarrow>
            if data = [] then Reply EchoWaiting
            else (case loads data of
                None \<Rightarrow> Raised ValueError
              | Some j \<Rightarrow>
                  (case (obj_field ''payload'' j, obj_field ''received_at'' j) of
                     (Some p, Some t) \<Rightarrow> Reply (EchoDelivered p (case obj_field ''headers'' j of None \<Rightarrow> JObj [] | Some h \<Rightarrow> h) t)
                   | _ \<Rightarrow> Raised KeyError))
        | Some _ \<Rightarrow> Raised ValueError))"

subsection \<open>Error answers (\<open>src/app/main.py\<close>)\<close>

definition error_body :: "string \<Rightarrow> string \<Rightarrow> int \<Rightarrow> json" where
  "error_body code message status = JObj [(''error'', JObj [(''code'', JStr code), (''message'', JStr message), (''status'', JInt status)])]"

definition http_exception_handler :: "int \<Rightarrow> json \<Rightarrow> int \<times> json" where
  "http_exception_handler status detail =
     (case detail of
        JObj kvs \<Rightarrow> if ''error'' \<in> fst ` set kvs then (status, detail) else (status, JObj [(''detail'', detail)])
      | JStr t \<Rightarrow> (status, error_body ''http_error'' t status)
      | _ \<Rightarrow> (status, JObj [(''detail'', detail)]))"

text \<open>An entry of \<open>exc.errors()\<close>; absent keys read as empty.\<close>

record validation_error =
  ve_type :: string
  ve_loc :: "string list"
  ve_msg :: "string option"

definition dotted :: "string list \<Rightarrow> string" where
  "dotted ps = concat (case ps of [] \<Rightarrow> [] | q # qs \<Rightarrow> q # concat (map (\<lambda>x. [''.'', x]) qs))"

definition validation_error_handler :: "validation_error list \<Rightarrow> int \<times> json" where
  "validation_error_handler errors =
     (case errors of
        e # _ \<Rightarrow>
          if ve_type e = ''json_invalid'' then (400, error_body ''invalid_json'' ''Request body is not valid JSON'' 400)
          else
            (let details = map (\<lambda>x. JObj [(''field'', JStr (dotted (ve_loc x))), (''message'', JStr (case ve_msg x of None \<Rightarrow> [] | Some m \<Rightarrow> m))]) errors;
                 field = dotted (ve_loc e); msg = (case ve_msg e of None \<Rightarrow> ''Validation error'' | Some m \<Rightarrow> m)
             in (422, JObj [(''error'', JObj [(''code'', JStr ''validation_error''),
                   (''message'', JStr (if field \<noteq> [] then field @ '': '' @ msg else msg)), (''status'', JInt 422), (''details'', JList details)])]))
      | [] \<Rightarrow> (422, JObj [(''error'', JObj [(''code'', JStr ''validation_error''), (''message'', JStr ''Validation error''),
            (''status'', JInt 422), (''details'', JList [])])]))"

definition generic_error_handler :: "int \<times> json" where
  "generic_error_handler = (500, error_body ''internal_error'' ''An internal error occurred'' 500)"

text \<open>The routers that are mounted, in order.\<close>

definition mounted_routers :: "info_settings \<Rightarrow> string list" where
  "mounted_routers s =
     [''health'', ''info'', ''auth_routes'', ''usage'', ''echo'', ''webhook_secret'', ''alerts'', ''agents'', ''agent_live_sessions'',
      ''ipc_attachments'', ''ipc_attachments.reconcile'', ''events'', ''messages'']
     @ (if in_EXTERNAL_AUTH_BACKEND s then [''internal_users''] else [])
     @ (if in_DISABLE_DEVICE_CODE s then [] else [''device_code'', ''device_code.page''])
     @ (if in_DISABLE_CUE_PRIMITIVE s then [] else [''cues'', ''executions'', ''workers'', ''workers.list''])"

text \<open>
  Every error of a handler reaches the client in one of two shapes, with the status in the body: \<open>error\<close>
  with code, message and status, or \<open>detail\<close> for a detail that is neither a text nor such an object.
\<close>

lemma http_exception_shape:
  "fst (http_exception_handler st d) = st"
  "snd (http_exception_handler st d) \<in> {d, JObj [(''detail'', d)]} \<or> (\<exists>t. d = JStr t \<and> snd (http_exception_handler st d) = error_body ''http_error'' t st)"
  by (auto simp: http_exception_handler_def split: json.splits)

lemma validation_error_shape:
  "fst (validation_error_handler es) \<in> {400, 422}"
  "fst (validation_error_handler es) = 400 \<longleftrightarrow> (\<exists>e r. es = e # r \<and> ve_type e = ''json_invalid'')"
  by (auto simp: validation_error_handler_def Let_def split: list.splits)

subsection \<open>What the reports tell\<close>

definition POLLER_HEARTBEAT_TTL_SECONDS :: int where
  "POLLER_HEARTBEAT_TTL_SECONDS = 120"

lemma heartbeat_read:
  "redis_get (write_poller_heartbeat ttl c d t r) now KPollerLastRun = (if now < t + seconds ttl then Some (RTime t) else None)"
  "redis_get (write_poller_heartbeat ttl c d t r) now KPollerCuesProcessed = (if now < t + seconds ttl then Some (RInt c) else None)"
  "redis_get (write_poller_heartbeat ttl c d t r) now KPollerCycleDurationMs = (if now < t + seconds ttl then Some (RInt d) else None)"
  by (simp_all add: write_poller_heartbeat_def redis_set_ex_def redis_get_def)

text \<open>
  C31. What \<open>/health\<close> and \<open>/status\<close> say about a poller whose last heartbeat was at \<open>t\<close> when the database and
  Redis answer: for 30 seconds all is well, then the poller is reported stale and the system
  degraded, and as soon as the heartbeat has expired, after 120 seconds, both endpoints report a healthy
  system again, for as long as the poller stays dead.
\<close>

theorem dead_poller_reported_healthy:
  assumes "\<forall>i. pg i \<and> up i" and "t \<le> now"
    and "redis w = write_poller_heartbeat POLLER_HEARTBEAT_TTL_SECONDS c d t r"
  shows "(now - t \<le> seconds 30 \<longrightarrow>
        hr_status (health_check pg up now w) = ''healthy'' \<and> hr_poller (health_check pg up now w) = ''ok''
        \<and> status_check pg up now w = (200, ''healthy'', None))
    \<and> (seconds 30 < now - t \<and> now - t < seconds 120 \<longrightarrow>
        hr_status (health_check pg up now w) = ''degraded'' \<and> hr_poller (health_check pg up now w) = ''stale''
        \<and> status_check pg up now w = (200, ''degraded'', Some ''poller stale''))
    \<and> (seconds 120 \<le> now - t \<longrightarrow>
        hr_status (health_check pg up now w) = ''healthy'' \<and> hr_poller (health_check pg up now w) = ''unknown''
        \<and> status_check pg up now w = (200, ''healthy'', None))"
proof -
  have up: "pg i" "up i" for i using assms(1) by simp_all
  obtain wk wi where wk: "health_workers pg now w = (wk, wi)" by force
  have hp: "health_poller True now (redis w) =
      (if now < t + seconds 120
       then (if seconds 30 < now - t then ''stale'' else ''ok'',
         no_poller_info\<lparr>pi_last_run := Some t, pi_seconds_ago := Some (whole_seconds (now - t)), pi_cues_last_cycle := Some c, pi_cycle_duration_ms := Some d\<rparr>)
       else (''unknown'', no_poller_info\<lparr>pi_status := Some ''unknown''\<rparr>))"
    unfolding assms(3) health_poller_def heartbeat_read POLLER_HEARTBEAT_TTL_SECONDS_def by (simp add: int_value_def Let_def)
  have st: "status_check pg up now w =
      (if now < t + seconds 120 \<and> seconds 30 < now - t then (200, ''degraded'', Some ''poller stale'') else (200, ''healthy'', None))"
    unfolding assms(3) status_check_def heartbeat_read POLLER_HEARTBEAT_TTL_SECONDS_def using up by simp
  show ?thesis unfolding st health_check_def Let_def wk using up hp by (auto simp: seconds_def)
qed

theorem dead_poller_reported_healthy_witness:
  "status_check (\<lambda>_. True) (\<lambda>_. True) (seconds 3600) (empty_world\<lparr>redis := write_poller_heartbeat POLLER_HEARTBEAT_TTL_SECONDS 1 5 0 (\<lambda>_. None)\<rparr>)
     = (200, ''healthy'', None)"
proof -
  have "seconds 120 \<le> seconds 3600 - 0" by (simp add: seconds_def)
  with dead_poller_reported_healthy [of "\<lambda>_. True" "\<lambda>_. True" 0 "seconds 3600"
      "empty_world\<lparr>redis := write_poller_heartbeat POLLER_HEARTBEAT_TTL_SECONDS 1 5 0 (\<lambda>_. None)\<rparr>" 1 5 "\<lambda>_. None"]
  show ?thesis by (simp add: seconds_def)
qed

text \<open>
  What was stored under a token comes back to whoever asks within five minutes, and after that the
  endpoint answers that it waits; \<open>json.loads\<close> is taken to read back what \<open>json.dumps\<close> wrote.
\<close>

lemma echo_round_trip:
  assumes st: "echo_store env loads token body client headers now w = (Reply True, w')"
    and loads: "loads (json_dumps True False (echo_data p headers now)) = Some (echo_data p headers now)" and p: "loads body = Some p"
    and up: "ae_up env' 0"
  shows "echo_retrieve env' loads token t w' =
    (if t < now + seconds ECHO_TTL_SECONDS
     then Reply (EchoDelivered p (JObj (map (\<lambda>(k, v). (k, JStr v)) headers)) (JStr (isoformat now))) else Reply EchoWaiting)"
proof -
  obtain w1 where "w' = w1\<lparr>redis := redis_set_ex (KEcho token) (RStr (json_dumps True False (echo_data p headers now))) ECHO_TTL_SECONDS now (redis w1)\<rparr>"
    using st p by (auto simp: echo_store_def limited_def split: if_splits prod.splits sum.splits bool.splits)
  moreover have "json_dumps True False (echo_data p headers now) \<noteq> []" by (simp add: echo_data_def)
  ultimately show ?thesis
    using loads up by (auto simp: echo_retrieve_def redis_get_def redis_set_ex_def echo_data_def obj_field_def)
qed

end
