(* ===== verification/Schema.thy ===== *)
theory Schema
  imports Json
begin

section \<open>Schema statements: tables, constraints, indexes and the DDL of the migrations\<close>

text \<open>
  The migrations of \<open>src/alembic/versions\<close> are sequences of schema statements. A database is a list of
  tables with columns, named constraints and rows, and a list of named indexes. Every statement the
  migrations use is one case of \<open>run_op\<close>, with the errors PostgreSQL raises, also those that depend on
  the rows (a NOT NULL that is set while a row has NULL, a CHECK or UNIQUE that the rows violate).
  The main result is that a statement that succeeds keeps the database well-typed.
\<close>

subsection \<open>Types, values and rows\<close>

datatype sql_type = UUID_T | VARCHAR int | TEXT_T | INTEGER_T | BIGINT_T | SMALLINT_T | BOOLEAN_T | TIMESTAMPTZ | DATE_T | JSONB_T | TEXT_ARRAY

datatype sql_value = SNull | SUuid nat | SText string | SInt int | SBool bool | STime time | SDate int | SJson json | SArray "string list"

fun fits :: "sql_type \<Rightarrow> sql_value \<Rightarrow> bool" where
  "fits _ SNull = True"
| "fits UUID_T (SUuid n) = (int n < 2 ^ 128)"
| "fits (VARCHAR k) (SText s) = (int (length s) \<le> k)"
| "fits TEXT_T (SText s) = True"
| "fits INTEGER_T (SInt i) = (- (2 ^ 31) \<le> i \<and> i < 2 ^ 31)"
| "fits BIGINT_T (SInt i) = (- (2 ^ 63) \<le> i \<and> i < 2 ^ 63)"
| "fits SMALLINT_T (SInt i) = (- (2 ^ 15) \<le> i \<and> i < 2 ^ 15)"
| "fits BOOLEAN_T (SBool b) = True"
| "fits TIMESTAMPTZ (STime t) = True"
| "fits DATE_T (SDate d) = True"
| "fits JSONB_T (SJson j) = True"
| "fits TEXT_ARRAY (SArray xs) = True"
| "fits _ _ = False"

text \<open>A foreign key may link texts with and without a length.\<close>

fun kind_of :: "sql_type \<Rightarrow> sql_type" where
  "kind_of (VARCHAR _) = TEXT_T"
| "kind_of ty = ty"

datatype sql_default = NoDefault | Lit sql_value | GenRandomUuid | Now | NowPlusDays int | Serial

record column =
  c_name :: string
  c_type :: sql_type
  c_null :: bool
  c_default :: sql_default

type_synonym row = "(string \<times> sql_value) list"

definition cell :: "row \<Rightarrow> string \<Rightarrow> sql_value" where
  "cell r c = (case map_of r c of None \<Rightarrow> SNull | Some v \<Rightarrow> v)"

text \<open>Conditions of CHECK constraints and partial indexes, with SQL's third truth value \<open>None\<close>.\<close>

datatype cond =
    CIn string "string list"
  | CIsNull string
  | CNotNull string
  | CBool string bool
  | CBetween string int int
  | COctets string int
  | CSamePresence string string
  | CHasKey string string
  | CAnd cond cond
  | COr cond cond

fun cond_cols :: "cond \<Rightarrow> string list" where
  "cond_cols (CIn c _) = [c]"
| "cond_cols (CIsNull c) = [c]"
| "cond_cols (CNotNull c) = [c]"
| "cond_cols (CBool c _) = [c]"
| "cond_cols (CBetween c _ _) = [c]"
| "cond_cols (COctets c _) = [c]"
| "cond_cols (CSamePresence c d) = [c, d]"
| "cond_cols (CHasKey c _) = [c]"
| "cond_cols (CAnd a b) = cond_cols a @ cond_cols b"
| "cond_cols (COr a b) = cond_cols a @ cond_cols b"

fun eval_cond :: "cond \<Rightarrow> row \<Rightarrow> bool option" where
  "eval_cond (CIn c vs) r = (case cell r c of SText s \<Rightarrow> Some (s \<in> set vs) | SNull \<Rightarrow> None | _ \<Rightarrow> Some False)"
| "eval_cond (CIsNull c) r = Some (cell r c = SNull)"
| "eval_cond (CNotNull c) r = Some (cell r c \<noteq> SNull)"
| "eval_cond (CBool c b) r = (case cell r c of SBool x \<Rightarrow> Some (x = b) | SNull \<Rightarrow> None | _ \<Rightarrow> Some False)"
| "eval_cond (CBetween c a b) r = (case cell r c of SInt i \<Rightarrow> Some (a \<le> i \<and> i \<le> b) | SNull \<Rightarrow> None | _ \<Rightarrow> Some False)"
| "eval_cond (COctets c n) r = (case cell r c of SText s \<Rightarrow> Some (int (utf8_len s) \<le> n) | SNull \<Rightarrow> None | _ \<Rightarrow> Some False)"
| "eval_cond (CSamePresence c d) r = Some ((cell r c = SNull) = (cell r d = SNull))"
| "eval_cond (CHasKey c k) r = (case cell r c of SJson (JObj kvs) \<Rightarrow> Some (k \<in> fst ` set kvs) | SNull \<Rightarrow> None | _ \<Rightarrow> Some False)"
| "eval_cond (CAnd a b) r =
     (case (eval_cond a r, eval_cond b r) of
        (Some False, _) \<Rightarrow> Some False | (_, Some False) \<Rightarrow> Some False | (Some True, Some True) \<Rightarrow> Some True | _ \<Rightarrow> None)"
| "eval_cond (COr a b) r =
     (case (eval_cond a r, eval_cond b r) of
        (Some True, _) \<Rightarrow> Some True | (_, Some True) \<Rightarrow> Some True | (Some False, Some False) \<Rightarrow> Some False | _ \<Rightarrow> None)"

subsection \<open>Tables and databases\<close>

datatype constr =
    PrimaryKey "string list"
  | Unique "string list"
  | Check cond
  | ForeignKey string string string string \<comment> \<open>column, table and column it refers to, ON DELETE\<close>

fun constr_cols :: "constr \<Rightarrow> string list" where
  "constr_cols (PrimaryKey cs) = cs"
| "constr_cols (Unique cs) = cs"
| "constr_cols (Check e) = cond_cols e"
| "constr_cols (ForeignKey c _ _ _) = [c]"

record table =
  tb_cols :: "column list"
  tb_cons :: "(string \<times> constr) list"
  tb_rows :: "row list"

record index =
  ix_table :: string
  ix_cols :: "string list"
  ix_desc :: "string list" \<comment> \<open>the columns in descending order\<close>
  ix_unique :: bool
  ix_where :: "cond option"

record db =
  db_tables :: "(string \<times> table) list"
  db_indexes :: "(string \<times> index) list"

definition empty_db :: db where
  "empty_db = \<lparr>db_tables = [], db_indexes = []\<rparr>"

abbreviation table_of :: "db \<Rightarrow> string \<Rightarrow> table option" where
  "table_of db n \<equiv> map_of (db_tables db) n"

definition col_names :: "table \<Rightarrow> string list" where
  "col_names t = map c_name (tb_cols t)"

definition col_of :: "table \<Rightarrow> string \<Rightarrow> column option" where
  "col_of t c = find (\<lambda>x. c_name x = c) (tb_cols t)"

definition set_table :: "string \<Rightarrow> table \<Rightarrow> db \<Rightarrow> db" where
  "set_table n t db = db\<lparr>db_tables := map (\<lambda>(k, x). (k, if k = n then t else x)) (db_tables db)\<rparr>"

text \<open>Primary keys and UNIQUE constraints are backed by an index of their name, and index and table names share one space.\<close>

fun is_fk :: "constr \<Rightarrow> bool" where
  "is_fk (ForeignKey _ _ _ _) = True"
| "is_fk _ = False"

fun key_constr :: "constr \<Rightarrow> bool" where
  "key_constr (PrimaryKey _) = True"
| "key_constr (Unique _) = True"
| "key_constr _ = False"

definition key_names :: "table \<Rightarrow> string list" where
  "key_names t = map fst (filter (\<lambda>(_, k). key_constr k) (tb_cons t))"

definition relation_names :: "db \<Rightarrow> string list" where
  "relation_names db = map fst (db_tables db) @ concat (map (\<lambda>(_, t). key_names t) (db_tables db)) @ map fst (db_indexes db)"

subsection \<open>Well-typed databases\<close>

definition value_ok :: "column \<Rightarrow> sql_value \<Rightarrow> bool" where
  "value_ok c v \<longleftrightarrow> fits (c_type c) v \<and> (v = SNull \<longrightarrow> c_null c)"

definition row_typed :: "column list \<Rightarrow> row \<Rightarrow> bool" where
  "row_typed cols r \<longleftrightarrow> map fst r = map c_name cols \<and> list_all (\<lambda>c. value_ok c (cell r (c_name c))) cols"

text \<open>Rows with NULL in a key column, or outside a partial index, do not collide.\<close>

definition unique_on :: "string list \<Rightarrow> cond option \<Rightarrow> row list \<Rightarrow> bool" where
  "unique_on cs p rows \<longleftrightarrow>
     distinct (filter (\<lambda>k. SNull \<notin> set k)
       (map (\<lambda>r. map (cell r) cs) (filter (\<lambda>r. case p of None \<Rightarrow> True | Some e \<Rightarrow> eval_cond e r = Some True) rows)))"

fun constr_holds :: "constr \<Rightarrow> row list \<Rightarrow> bool" where
  "constr_holds (PrimaryKey cs) rows = unique_on cs None rows"
| "constr_holds (Unique cs) rows = unique_on cs None rows"
| "constr_holds (Check e) rows = list_all (\<lambda>r. eval_cond e r \<noteq> Some False) rows"
| "constr_holds (ForeignKey _ _ _ _) rows = True"

definition constr_ok :: "table \<Rightarrow> constr \<Rightarrow> bool" where
  "constr_ok t k \<longleftrightarrow> set (constr_cols k) \<subseteq> set (col_names t) \<and> constr_holds k (tb_rows t)
     \<and> (case k of PrimaryKey cs \<Rightarrow> list_all (\<lambda>c. c_name c \<in> set cs \<longrightarrow> \<not> c_null c) (tb_cols t) | _ \<Rightarrow> True)"

definition table_ok :: "table \<Rightarrow> bool" where
  "table_ok t \<longleftrightarrow> distinct (col_names t) \<and> distinct (map fst (tb_cons t)) \<and> list_all (row_typed (tb_cols t)) (tb_rows t)
     \<and> list_all (\<lambda>(_, k). constr_ok t k) (tb_cons t)"

definition index_fits :: "table \<Rightarrow> index \<Rightarrow> bool" where
  "index_fits t i \<longleftrightarrow> set (ix_cols i) \<union> set (case ix_where i of None \<Rightarrow> [] | Some e \<Rightarrow> cond_cols e) \<subseteq> set (col_names t)
     \<and> (ix_unique i \<longrightarrow> unique_on (ix_cols i) (ix_where i) (tb_rows t))"

definition index_ok :: "db \<Rightarrow> index \<Rightarrow> bool" where
  "index_ok db i \<longleftrightarrow> (case table_of db (ix_table i) of None \<Rightarrow> False | Some t \<Rightarrow> index_fits t i)"

text \<open>A foreign key refers to a key column of the same kind, and every value occurs there.\<close>

definition key_column :: "table \<Rightarrow> string \<Rightarrow> bool" where
  "key_column t c \<longleftrightarrow> list_ex (\<lambda>(_, k). k = PrimaryKey [c] \<or> k = Unique [c]) (tb_cons t)"

definition fk_ok :: "db \<Rightarrow> table \<Rightarrow> constr \<Rightarrow> bool" where
  "fk_ok db t k = (case k of
      ForeignKey c rt rc _ \<Rightarrow>
        (case table_of db rt of
           None \<Rightarrow> False
         | Some t' \<Rightarrow>
             (case (col_of t c, col_of t' rc) of
                (Some x, Some y) \<Rightarrow> kind_of (c_type x) = kind_of (c_type y) \<and> key_column t' rc
                  \<and> list_all (\<lambda>r. cell r c = SNull \<or> cell r c \<in> set (map (\<lambda>r'. cell r' rc) (tb_rows t'))) (tb_rows t)
              | _ \<Rightarrow> False))
    | _ \<Rightarrow> True)"

definition db_ok :: "db \<Rightarrow> bool" where
  "db_ok db \<longleftrightarrow> distinct (relation_names db)
     \<and> list_all (\<lambda>(_, t). table_ok t \<and> list_all (\<lambda>(_, k). fk_ok db t k) (tb_cons t)) (db_tables db)
     \<and> list_all (\<lambda>(_, i). index_ok db i) (db_indexes db)"

subsection \<open>Statements\<close>

datatype ddl_error = DuplicateTable | UndefinedTable | DuplicateColumn | UndefinedColumn | DuplicateObject | UndefinedObject
  | DependentObjects | DatatypeMismatch | NotNullViolation | CheckViolation | UniqueViolation | InvalidForeignKey
  | InvalidTableDefinition | FeatureNotSupported

datatype attr = PK | UQ | IX | FK string string string

datatype item = Col column "attr list" | Con string constr

text \<open>\<open>Backfill\<close> is an UPDATE of one column of all rows; the new values are computed from the whole table.\<close>

datatype ddl =
    CreateTable string "item list"
  | DropTable string
  | AddColumn string column
  | DropColumn string string
  | AlterNull string string bool
  | AlterType string string sql_type
  | CreateConstraint string string constr
  | DropConstraint string string
  | CreateIndex string index bool
  | DropIndex string bool
  | Backfill string string "row list \<Rightarrow> sql_value list"

text \<open>The names SQLAlchemy and PostgreSQL give to what a column declares.\<close>

definition item_cols :: "item list \<Rightarrow> column list" where
  "item_cols items = concat (map (\<lambda>i. case i of Col c _ \<Rightarrow> [c] | Con _ _ \<Rightarrow> []) items)"

definition primary_cols :: "item list \<Rightarrow> string list" where
  "primary_cols items = concat (map (\<lambda>i. case i of Col c as \<Rightarrow> if PK \<in> set as then [c_name c] else [] | Con _ _ \<Rightarrow> []) items)"

fun attr_cons :: "string \<Rightarrow> string \<Rightarrow> attr \<Rightarrow> (string \<times> constr) list" where
  "attr_cons n c UQ = [(n @ ''_'' @ c @ ''_key'', Unique [c])]"
| "attr_cons n c (FK rt rc ond) = [(n @ ''_'' @ c @ ''_fkey'', ForeignKey c rt rc ond)]"
| "attr_cons n c _ = []"

definition item_cons :: "string \<Rightarrow> item list \<Rightarrow> (string \<times> constr) list" where
  "item_cons n items =
     (if primary_cols items = [] then [] else [(n @ ''_pkey'', PrimaryKey (primary_cols items))])
     @ concat (map (\<lambda>i. case i of Col c as \<Rightarrow> concat (map (attr_cons n (c_name c)) as) | Con k x \<Rightarrow> [(k, x)]) items)"

definition item_indexes :: "string \<Rightarrow> item list \<Rightarrow> (string \<times> index) list" where
  "item_indexes n items =
     concat (map (\<lambda>i. case i of
        Col c as \<Rightarrow> if IX \<in> set as then [(''ix_'' @ n @ ''_'' @ c_name c,
            \<lparr>ix_table = n, ix_cols = [c_name c], ix_desc = [], ix_unique = False, ix_where = None\<rparr>)] else []
      | Con _ _ \<Rightarrow> []) items)"

definition create_table :: "string \<Rightarrow> item list \<Rightarrow> db \<Rightarrow> ddl_error + db" where
  "create_table n items db =
     (let t = \<lparr>tb_cols = item_cols items, tb_cons = item_cons n items, tb_rows = []\<rparr>;
          fresh = key_names t @ map fst (item_indexes n items);
          db' = db\<lparr>db_tables := db_tables db @ [(n, t)], db_indexes := db_indexes db @ item_indexes n items\<rparr>
      in if n \<in> set (relation_names db) then Inl DuplicateTable
         else if \<not> distinct (col_names t) then Inl DuplicateColumn
         else if \<not> distinct (map fst (tb_cons t)) \<or> \<not> distinct (n # fresh) \<or> list_ex (\<lambda>x. x \<in> set (relation_names db)) fresh
           then Inl DuplicateObject
         else if \<not> list_all (\<lambda>(_, k). set (constr_cols k) \<subseteq> set (col_names t)) (tb_cons t) then Inl UndefinedColumn
         else if \<not> list_all (\<lambda>(_, k). constr_ok t k) (tb_cons t) then Inl InvalidTableDefinition
         else if \<not> list_all (\<lambda>(_, k). fk_ok db' t k) (tb_cons t) then Inl InvalidForeignKey
         else Inr db')"

definition referenced :: "db \<Rightarrow> string \<Rightarrow> string \<Rightarrow> bool" where
  "referenced db n c \<longleftrightarrow>
     list_ex (\<lambda>(_, t). list_ex (\<lambda>(_, k). case k of ForeignKey _ rt rc _ \<Rightarrow> rt = n \<and> rc = c | _ \<Rightarrow> False) (tb_cons t)) (db_tables db)"

definition referenced_table :: "db \<Rightarrow> string \<Rightarrow> bool" where
  "referenced_table db n \<longleftrightarrow>
     list_ex (\<lambda>(m, t). m \<noteq> n \<and> list_ex (\<lambda>(_, k). case k of ForeignKey _ rt _ _ \<Rightarrow> rt = n | _ \<Rightarrow> False) (tb_cons t)) (db_tables db)"

definition drop_table :: "string \<Rightarrow> db \<Rightarrow> ddl_error + db" where
  "drop_table n db =
     (if table_of db n = None then Inl UndefinedTable
      else if referenced_table db n then Inl DependentObjects
      else Inr \<lparr>db_tables = filter (\<lambda>(k, _). k \<noteq> n) (db_tables db), db_indexes = filter (\<lambda>(_, i). ix_table i \<noteq> n) (db_indexes db)\<rparr>)"

text \<open>The rows get the default; the migrations add columns with a constant default or none.\<close>

definition add_column :: "string \<Rightarrow> column \<Rightarrow> db \<Rightarrow> ddl_error + db" where
  "add_column n c db =
     (case table_of db n of
        None \<Rightarrow> Inl UndefinedTable
      | Some t \<Rightarrow>
          if c_name c \<in> set (col_names t) then Inl DuplicateColumn
          else
            (let fill = (\<lambda>v. Inr (set_table n (t\<lparr>tb_cols := tb_cols t @ [c], tb_rows := map (\<lambda>r. r @ [(c_name c, v)]) (tb_rows t)\<rparr>) db))
             in case c_default c of
                  NoDefault \<Rightarrow> if \<not> c_null c \<and> tb_rows t \<noteq> [] then Inl NotNullViolation else fill SNull
                | Lit v \<Rightarrow> if \<not> fits (c_type c) v then Inl DatatypeMismatch
                           else if v = SNull \<and> \<not> c_null c \<and> tb_rows t \<noteq> [] then Inl NotNullViolation else fill v
                | _ \<Rightarrow> if tb_rows t \<noteq> [] then Inl FeatureNotSupported else fill SNull))"

definition index_uses :: "string \<Rightarrow> index \<Rightarrow> bool" where
  "index_uses c i \<longleftrightarrow> c \<in> set (ix_cols i) \<or> c \<in> set (case ix_where i of None \<Rightarrow> [] | Some e \<Rightarrow> cond_cols e)"

text \<open>Constraints and indexes that use the column go with it.\<close>

definition without_column :: "string \<Rightarrow> table \<Rightarrow> table" where
  "without_column c t =
     \<lparr>tb_cols = filter (\<lambda>x. c_name x \<noteq> c) (tb_cols t),
      tb_cons = filter (\<lambda>(_, k). c \<notin> set (constr_cols k)) (tb_cons t),
      tb_rows = map (filter (\<lambda>(k, _). k \<noteq> c)) (tb_rows t)\<rparr>"

definition drop_column :: "string \<Rightarrow> string \<Rightarrow> db \<Rightarrow> ddl_error + db" where
  "drop_column n c db =
     (case table_of db n of
        None \<Rightarrow> Inl UndefinedTable
      | Some t \<Rightarrow>
          if c \<notin> set (col_names t) then Inl UndefinedColumn
          else if referenced db n c then Inl DependentObjects
          else Inr ((set_table n (without_column c t) db)\<lparr>db_indexes :=
                 filter (\<lambda>(_, i). \<not> (ix_table i = n \<and> index_uses c i)) (db_indexes db)\<rparr>))"

definition alter_column :: "(column \<Rightarrow> column) \<Rightarrow> string \<Rightarrow> table \<Rightarrow> table" where
  "alter_column f c t = t\<lparr>tb_cols := map (\<lambda>x. if c_name x = c then f x else x) (tb_cols t)\<rparr>"

definition alter_null :: "string \<Rightarrow> string \<Rightarrow> bool \<Rightarrow> db \<Rightarrow> ddl_error + db" where
  "alter_null n c b db =
     (case table_of db n of
        None \<Rightarrow> Inl UndefinedTable
      | Some t \<Rightarrow>
          if c \<notin> set (col_names t) then Inl UndefinedColumn
          else if b \<and> list_ex (\<lambda>(_, k). case k of PrimaryKey cs \<Rightarrow> c \<in> set cs | _ \<Rightarrow> False) (tb_cons t) then Inl InvalidTableDefinition
          else if \<not> b \<and> list_ex (\<lambda>r. cell r c = SNull) (tb_rows t) then Inl NotNullViolation
          else Inr (set_table n (alter_column (\<lambda>x. x\<lparr>c_null := b\<rparr>) c t) db))"

definition alter_type :: "string \<Rightarrow> string \<Rightarrow> sql_type \<Rightarrow> db \<Rightarrow> ddl_error + db" where
  "alter_type n c ty db =
     (case table_of db n of
        None \<Rightarrow> Inl UndefinedTable
      | Some t \<Rightarrow>
          (case col_of t c of
             None \<Rightarrow> Inl UndefinedColumn
           | Some x \<Rightarrow>
               if kind_of (c_type x) \<noteq> kind_of ty then Inl FeatureNotSupported
               else if \<not> list_all (\<lambda>r. fits ty (cell r c)) (tb_rows t) then Inl DatatypeMismatch
               else Inr (set_table n (alter_column (\<lambda>x. x\<lparr>c_type := ty\<rparr>) c t) db)))"

definition create_constraint :: "string \<Rightarrow> string \<Rightarrow> constr \<Rightarrow> db \<Rightarrow> ddl_error + db" where
  "create_constraint k n x db =
     (case table_of db n of
        None \<Rightarrow> Inl UndefinedTable
      | Some t \<Rightarrow>
          (let db' = set_table n (t\<lparr>tb_cons := tb_cons t @ [(k, x)]\<rparr>) db
           in if k \<in> set (map fst (tb_cons t)) \<or> key_constr x \<and> k \<in> set (relation_names db) then Inl DuplicateObject
              else if \<not> set (constr_cols x) \<subseteq> set (col_names t) then Inl UndefinedColumn
              else (case x of
                  Check e \<Rightarrow> if constr_ok t x then Inr db' else Inl CheckViolation
                | Unique cs \<Rightarrow> if constr_ok t x then Inr db' else Inl UniqueViolation
                | _ \<Rightarrow> Inl FeatureNotSupported)))"

definition drop_constraint :: "string \<Rightarrow> string \<Rightarrow> db \<Rightarrow> ddl_error + db" where
  "drop_constraint k n db =
     (case table_of db n of
        None \<Rightarrow> Inl UndefinedTable
      | Some t \<Rightarrow>
          (case map_of (tb_cons t) k of
             None \<Rightarrow> Inl UndefinedObject
           | Some x \<Rightarrow>
               if key_constr x \<and> (case constr_cols x of [c] \<Rightarrow> referenced db n c | _ \<Rightarrow> False) then Inl DependentObjects
               else Inr (set_table n (t\<lparr>tb_cons := filter (\<lambda>(j, _). j \<noteq> k) (tb_cons t)\<rparr>) db)))"

definition create_index :: "string \<Rightarrow> index \<Rightarrow> bool \<Rightarrow> db \<Rightarrow> ddl_error + db" where
  "create_index k i if_not_exists db =
     (if k \<in> set (relation_names db) then (if if_not_exists then Inr db else Inl DuplicateObject)
      else (case table_of db (ix_table i) of
          None \<Rightarrow> Inl UndefinedTable
        | Some t \<Rightarrow>
            if \<not> set (ix_cols i) \<union> set (case ix_where i of None \<Rightarrow> [] | Some e \<Rightarrow> cond_cols e) \<subseteq> set (col_names t) then Inl UndefinedColumn
            else if ix_unique i \<and> \<not> unique_on (ix_cols i) (ix_where i) (tb_rows t) then Inl UniqueViolation
            else Inr (db\<lparr>db_indexes := db_indexes db @ [(k, i)]\<rparr>)))"

definition drop_index :: "string \<Rightarrow> bool \<Rightarrow> db \<Rightarrow> ddl_error + db" where
  "drop_index k if_exists db =
     (if k \<in> set (map fst (db_indexes db)) then Inr (db\<lparr>db_indexes := filter (\<lambda>(j, _). j \<noteq> k) (db_indexes db)\<rparr>)
      else if if_exists then Inr db else Inl UndefinedObject)"

definition set_cell :: "string \<Rightarrow> sql_value \<Rightarrow> row \<Rightarrow> row" where
  "set_cell c v r = map (\<lambda>(k, x). (k, if k = c then v else x)) r"

definition backfill :: "string \<Rightarrow> string \<Rightarrow> (row list \<Rightarrow> sql_value list) \<Rightarrow> db \<Rightarrow> ddl_error + db" where
  "backfill n c f db =
     (case table_of db n of
        None \<Rightarrow> Inl UndefinedTable
      | Some t \<Rightarrow>
          (let t' = t\<lparr>tb_rows := map2 (set_cell c) (f (tb_rows t)) (tb_rows t)\<rparr>;
               db' = set_table n t' db
           in if c \<notin> set (col_names t) then Inl UndefinedColumn
              else if referenced db n c \<or> list_ex (\<lambda>(_, k). is_fk k \<and> c \<in> set (constr_cols k)) (tb_cons t)
                \<or> length (f (tb_rows t)) \<noteq> length (tb_rows t) then Inl FeatureNotSupported
              else if \<not> list_all (row_typed (tb_cols t)) (tb_rows t') then Inl DatatypeMismatch
              else if \<not> list_all (\<lambda>(_, k). constr_ok t' k) (tb_cons t) then Inl CheckViolation
              else if \<not> list_all (\<lambda>(_, i). ix_table i = n \<longrightarrow> index_fits t' i) (db_indexes db) then Inl UniqueViolation
              else Inr db'))"

fun run_op :: "ddl \<Rightarrow> db \<Rightarrow> ddl_error + db" where
  "run_op (CreateTable n items) db = create_table n items db"
| "run_op (DropTable n) db = drop_table n db"
| "run_op (AddColumn n c) db = add_column n c db"
| "run_op (DropColumn n c) db = drop_column n c db"
| "run_op (AlterNull n c b) db = alter_null n c b db"
| "run_op (AlterType n c ty) db = alter_type n c ty db"
| "run_op (CreateConstraint k n x) db = create_constraint k n x db"
| "run_op (DropConstraint k n) db = drop_constraint k n db"
| "run_op (CreateIndex k i e) db = create_index k i e db"
| "run_op (DropIndex k e) db = drop_index k e db"
| "run_op (Backfill n c f) db = backfill n c f db"

subsection \<open>Lookup lemmas\<close>

lemma fits_null [simp]: "fits ty SNull"
  by (cases ty) simp_all

lemma cell_append: "c \<in> fst ` set r \<Longrightarrow> cell (r @ r') c = cell r c"
  by (auto simp: cell_def map_add_def dest!: weak_map_of_SomeI split: option.split)

lemma cell_new: "c \<notin> fst ` set r \<Longrightarrow> cell (r @ [(c, v)]) c = v"
  by (induction r) (auto simp: cell_def)

lemma col_of_Some: "col_of t c = Some x \<Longrightarrow> x \<in> set (tb_cols t) \<and> c_name x = c"
  by (metis (mono_tags) col_of_def find_Some_iff nth_mem)

lemma col_of_iff: "col_of t c = None \<longleftrightarrow> c \<notin> set (col_names t)"
  by (auto simp: col_of_def find_None_iff col_names_def)

lemma cell_filter: "d \<noteq> c \<Longrightarrow> cell (filter (\<lambda>(k, _). k \<noteq> c) r) d = cell r d"
  by (induction r) (auto simp: cell_def)

lemma find_filter_kept: "d \<noteq> c \<Longrightarrow> find (\<lambda>x. c_name x = d) (filter (\<lambda>x. c_name x \<noteq> c) cols) = find (\<lambda>x. c_name x = d) cols"
  by (induction cols) auto

lemma cell_set_cell: "d \<noteq> c \<Longrightarrow> cell (set_cell c v r) d = cell r d"
  by (induction r) (auto simp: cell_def set_cell_def)

lemma eval_cond_cong:
  "(\<And>c. c \<in> set (cond_cols e) \<Longrightarrow> cell r c = cell s c) \<Longrightarrow> eval_cond e r = eval_cond e s"
  by (induction e) simp_all

lemma unique_on_map:
  assumes "\<And>r c. r \<in> set rows \<Longrightarrow> c \<in> set cs \<union> set (case p of None \<Rightarrow> [] | Some e \<Rightarrow> cond_cols e) \<Longrightarrow> cell (f r) c = cell r c"
  shows "unique_on cs p (map f rows) = unique_on cs p rows"
proof -
  let ?P = "\<lambda>r. case p of None \<Rightarrow> True | Some e \<Rightarrow> eval_cond e r = Some True"
  have "map (\<lambda>r. map (cell r) cs) (filter ?P (map f rows)) = map (\<lambda>r. map (cell r) cs) (filter ?P rows)"
    using assms
  proof (induction rows)
    case (Cons r rows)
    have "?P (f r) = ?P r" using Cons.prems [of r] by (auto split: option.split intro!: arg_cong [where f = "\<lambda>x. x = Some True"] eval_cond_cong)
    then show ?case using Cons by (auto intro!: map_cong)
  qed simp
  then show ?thesis by (simp add: unique_on_def)
qed

lemma constr_holds_map:
  assumes "\<And>r c. r \<in> set rows \<Longrightarrow> c \<in> set (constr_cols k) \<Longrightarrow> cell (f r) c = cell r c"
  shows "constr_holds k (map f rows) = constr_holds k rows"
proof (cases k)
  case (Check e)
  then have "eval_cond e (f r) = eval_cond e r" if "r \<in> set rows" for r using assms that by (intro eval_cond_cong) auto
  with Check show ?thesis by (simp add: list_all_iff)
qed (use assms in \<open>auto intro!: unique_on_map\<close>)

lemma map_of_replace:
  "map_of (map (\<lambda>(k, x). (k, if k = n then t else x)) xs) m = (if m = n then map_option (\<lambda>_. t) (map_of xs n) else map_of xs m)"
  by (induction xs) auto

lemma set_table_tables [simp]:
  "table_of (set_table n t db) m = (if m = n then map_option (\<lambda>_. t) (table_of db n) else table_of db m)"
  by (simp add: set_table_def map_of_replace)

lemma set_table_indexes [simp]: "db_indexes (set_table n t db) = db_indexes db"
  by (simp add: set_table_def)

lemma table_split:
  assumes "distinct (map fst xs)" and "map_of xs n = Some t"
  obtains ys zs where "xs = ys @ (n, t) # zs" and "n \<notin> fst ` set ys" and "n \<notin> fst ` set zs"
proof -
  obtain ys zs where "xs = ys @ (n, t) # zs" using map_of_SomeD [OF assms(2)] by (auto dest: split_list)
  with that assms(1) show thesis by auto
qed

lemma set_table_split:
  "db_tables db = ys @ (n, t) # zs \<Longrightarrow> n \<notin> fst ` set ys \<Longrightarrow> n \<notin> fst ` set zs \<Longrightarrow>
   db_tables (set_table n s db) = ys @ (n, s) # zs"
  by (force simp: set_table_def intro!: map_idI)

subsection \<open>What a statement may change of one table\<close>

text \<open>All that foreign keys see of a column: the kind of its type and its values.\<close>

definition col_view :: "table \<Rightarrow> string \<Rightarrow> sql_type option \<times> sql_value list" where
  "col_view t c = (map_option (\<lambda>x. kind_of (c_type x)) (col_of t c), map (\<lambda>r. cell r c) (tb_rows t))"

lemma fk_ok_iff:
  "fk_ok db t (ForeignKey c rt rc d) \<longleftrightarrow>
     (\<exists>t'. table_of db rt = Some t' \<and> fst (col_view t c) \<noteq> None \<and> fst (col_view t c) = fst (col_view t' rc) \<and> key_column t' rc
        \<and> set (snd (col_view t c)) \<subseteq> insert SNull (set (snd (col_view t' rc))))"
  by (auto simp: fk_ok_def col_view_def list_all_iff split: option.split)

lemma fk_ok_other: "\<not> is_fk k \<Longrightarrow> fk_ok db t k"
  by (cases k) (simp_all add: fk_ok_def)

lemma referenced_iff:
  "referenced db n c \<longleftrightarrow> (\<exists>m t k a d. (m, t) \<in> set (db_tables db) \<and> (k, ForeignKey a n c d) \<in> set (tb_cons t))"
  by (force simp: referenced_def list_ex_iff split: constr.splits)

lemma db_okD:
  assumes "db_ok db"
  shows "distinct (relation_names db)" "distinct (map fst (db_tables db))"
    and "(m, t) \<in> set (db_tables db) \<Longrightarrow> table_ok t"
    and "(m, t) \<in> set (db_tables db) \<Longrightarrow> (k, x) \<in> set (tb_cons t) \<Longrightarrow> fk_ok db t x"
    and "(j, i) \<in> set (db_indexes db) \<Longrightarrow> index_ok db i"
  using assms by (auto simp: db_ok_def list_all_iff relation_names_def)

lemma distinct_replace:
  assumes "distinct (A @ K @ B @ I)" and "distinct K'" and "set K' \<inter> (set (A @ K @ B @ I) - set K) = {}"
    and "distinct I'" and "set I' \<subseteq> set I"
  shows "distinct (A @ K' @ B @ I')"
  using assms unfolding distinct_append set_append by blast

lemma key_names_distinct: "table_ok t \<Longrightarrow> distinct (key_names t)"
  by (simp add: table_ok_def key_names_def distinct_map_filter)

lemma table_change:
  assumes ok: "db_ok db" and t: "table_of db n = Some t" and s: "table_ok s"
    and names: "set (key_names s) \<inter> (set (relation_names db) - set (key_names t)) = {}"
    and fks: "\<And>k x. (k, x) \<in> set (tb_cons s) \<Longrightarrow> is_fk x \<Longrightarrow> x \<in> snd ` set (tb_cons t) \<and> (\<forall>c \<in> set (constr_cols x). col_view s c = col_view t c)"
    and refs: "\<And>c. referenced db n c \<Longrightarrow> col_view s c = col_view t c \<and> (key_column t c \<longrightarrow> key_column s c)"
    and ixs: "ixs = filter P (db_indexes db)" "\<And>j i. (j, i) \<in> set ixs \<Longrightarrow> ix_table i = n \<Longrightarrow> index_fits s i"
  shows "db_ok ((set_table n s db)\<lparr>db_indexes := ixs\<rparr>)"
proof -
  let ?db = "(set_table n s db)\<lparr>db_indexes := ixs\<rparr>"
  note okD = db_okD [OF ok]
  obtain ys zs where sp: "db_tables db = ys @ (n, t) # zs" "n \<notin> fst ` set ys" "n \<notin> fst ` set zs"
    using table_split [OF okD(2) t] .
  have tabs: "db_tables ?db = ys @ (n, s) # zs" using set_table_split [OF sp] by simp
  have look: "table_of ?db m = (if m = n then Some s else table_of db m)" for m using t by simp
  let ?pre = "map fst ys @ [n] @ map fst zs @ concat (map (\<lambda>(_, t). key_names t) ys)" and ?post = "concat (map (\<lambda>(_, t). key_names t) zs)"
  have r: "relation_names db = ?pre @ key_names t @ ?post @ map fst (db_indexes db)"
    "relation_names ?db = ?pre @ key_names s @ ?post @ map fst ixs"
    using sp tabs by (simp_all add: relation_names_def)
  have "distinct (map fst ixs)" "set (map fst ixs) \<subseteq> set (map fst (db_indexes db))"
    using okD(1) unfolding ixs(1) by (auto simp: relation_names_def distinct_map_filter)
  then have rel: "distinct (relation_names ?db)"
    unfolding r(2) by (rule distinct_replace [OF okD(1) [unfolded r(1)] key_names_distinct [OF s] names [unfolded r(1)]])
  have fk: "fk_ok ?db s' x" if in_s': "(m, s') \<in> set (db_tables ?db)" "(k, x) \<in> set (tb_cons s')" for m s' k x
  proof (cases "is_fk x")
    case True
    then obtain c rt rc d where x: "x = ForeignKey c rt rc d" by (cases x) auto
    obtain t' k' where t': "(m, t') \<in> set (db_tables db)" "(k', x) \<in> set (tb_cons t')" "col_view s' c = col_view t' c"
    proof (cases "s' = s \<and> m = n")
      case s': True
      then have "x \<in> snd ` set (tb_cons t) \<and> col_view s c = col_view t c" using fks [OF _ True] in_s'(2) x by auto
      with s' sp(1) that [of t] show ?thesis by force
    next
      case False
      with in_s' sp tabs that [of s' k] show ?thesis by auto
    qed
    obtain u where u: "table_of db rt = Some u" "fst (col_view t' c) \<noteq> None" "fst (col_view t' c) = fst (col_view u rc)"
        "key_column u rc" "set (snd (col_view t' c)) \<subseteq> insert SNull (set (snd (col_view u rc)))"
      using okD(4) [OF t'(1,2)] unfolding x fk_ok_iff by blast
    have ref: "referenced db rt rc" unfolding referenced_iff using t'(1,2) x by blast
    show ?thesis
    proof (cases "rt = n")
      case True
      with u(1) t have "u = t" by simp
      with True ref refs [of rc] u t'(3) look show ?thesis unfolding x fk_ok_iff by auto
    next
      case False
      with u t'(3) look show ?thesis unfolding x fk_ok_iff by auto
    qed
  qed (rule fk_ok_other)
  have "table_ok s'" if "(m, s') \<in> set (db_tables ?db)" for m s' using that tabs sp(1) s okD(3) by auto
  moreover have "index_ok ?db i" if "(j, i) \<in> set ixs" for j i
  proof (cases "ix_table i = n")
    case False
    from that ixs(1) have "(j, i) \<in> set (db_indexes db)" by simp
    with okD(5) False look show ?thesis by (fastforce simp: index_ok_def)
  qed (use ixs(2) that t in \<open>auto simp: index_ok_def\<close>)
  ultimately show ?thesis using rel fk by (auto simp: db_ok_def list_all_iff)
qed

text \<open>A change that keeps the constraints and the columns' names, and the cells up to one column.\<close>

lemma table_change_same:
  assumes "db_ok db" and "table_of db n = Some t" and "table_ok s"
    and "set (key_names s) \<inter> (set (relation_names db) - set (key_names t)) = {}"
    and "\<And>k x. (k, x) \<in> set (tb_cons s) \<Longrightarrow> is_fk x \<Longrightarrow> x \<in> snd ` set (tb_cons t) \<and> (\<forall>c \<in> set (constr_cols x). col_view s c = col_view t c)"
    and "\<And>c. referenced db n c \<Longrightarrow> col_view s c = col_view t c \<and> (key_column t c \<longrightarrow> key_column s c)"
    and "\<And>j i. (j, i) \<in> set (db_indexes db) \<Longrightarrow> ix_table i = n \<Longrightarrow> index_fits s i"
  shows "db_ok (set_table n s db)"
proof -
  have "db_ok ((set_table n s db)\<lparr>db_indexes := db_indexes db\<rparr>)"
    by (rule table_change [where P = "\<lambda>_. True", OF assms(1-6)]) (use assms(7) in simp_all)
  then show ?thesis by (simp add: set_table_def)
qed

lemma table_index: "db_ok db \<Longrightarrow> table_of db n = Some t \<Longrightarrow> (j, i) \<in> set (db_indexes db) \<Longrightarrow> ix_table i = n \<Longrightarrow> index_fits t i"
  using db_okD(5) by (fastforce simp: index_ok_def)

lemma index_fits_map:
  assumes "index_fits t i" and "set (col_names t) \<subseteq> set (col_names s)" and "tb_rows s = map f (tb_rows t)"
    and "\<And>r d. r \<in> set (tb_rows t) \<Longrightarrow> d \<in> set (col_names t) \<Longrightarrow> index_uses d i \<Longrightarrow> cell (f r) d = cell r d"
  shows "index_fits s i"
proof -
  have "unique_on (ix_cols i) (ix_where i) (map f (tb_rows t)) = unique_on (ix_cols i) (ix_where i) (tb_rows t)"
    using assms(1,4) by (intro unique_on_map) (fastforce simp: index_fits_def index_uses_def)
  with assms(1-3) show ?thesis by (auto simp: index_fits_def)
qed

lemma col_view_cong:
  "map_option (\<lambda>x. kind_of (c_type x)) (col_of s c) = map_option (\<lambda>x. kind_of (c_type x)) (col_of t c) \<Longrightarrow>
   map (\<lambda>r. cell r c) (tb_rows s) = map (\<lambda>r. cell r c) (tb_rows t) \<Longrightarrow> col_view s c = col_view t c"
  by (simp add: col_view_def)

lemma table_okD:
  assumes "table_ok t"
  shows "distinct (col_names t)" "distinct (map fst (tb_cons t))"
    and "r \<in> set (tb_rows t) \<Longrightarrow> row_typed (tb_cols t) r"
    and "(k, x) \<in> set (tb_cons t) \<Longrightarrow> constr_ok t x"
    and "(k, x) \<in> set (tb_cons t) \<Longrightarrow> c \<in> set (constr_cols x) \<Longrightarrow> c \<in> set (col_names t)"
  using assms by (auto simp: table_ok_def list_all_iff constr_ok_def)

lemma row_typed_names: "row_typed (tb_cols t) r \<Longrightarrow> fst ` set r = set (col_names t)"
  by (metis col_names_def image_set row_typed_def)

lemma fk_cols: "db_ok db \<Longrightarrow> table_of db n = Some t \<Longrightarrow> referenced db n c \<Longrightarrow> c \<in> set (col_names t)"
proof -
  assume a: "db_ok db" "table_of db n = Some t" "referenced db n c"
  then obtain m t' k b d where "(m, t') \<in> set (db_tables db)" "(k, ForeignKey b n c d) \<in> set (tb_cons t')" by (auto simp: referenced_iff)
  with db_okD(4) [OF a(1)] have "fk_ok db t' (ForeignKey b n c d)" by blast
  then have "col_of t c \<noteq> None" using a(2) unfolding fk_ok_iff by (cases "col_of t c") (auto simp: col_view_def)
  then show ?thesis by (simp add: col_of_iff)
qed

lemma add_column_ok:
  assumes ok: "db_ok db" and "add_column n c db = Inr db'"
  shows "db_ok db'"
proof -
  define v where "v = (case c_default c of Lit v \<Rightarrow> v | _ \<Rightarrow> SNull)"
  obtain t where t: "table_of db n = Some t" and new: "c_name c \<notin> set (col_names t)"
    using assms(2) by (auto simp: add_column_def split: option.splits if_splits)
  have v: "value_ok c v" if "tb_rows t \<noteq> []"
    using assms(2) that by (auto simp: add_column_def Let_def value_ok_def v_def t split: if_splits sql_default.splits)
  have db': "db' = set_table n (t\<lparr>tb_cols := tb_cols t @ [c], tb_rows := map (\<lambda>r. r @ [(c_name c, v)]) (tb_rows t)\<rparr>) db"
    using assms(2) by (auto simp: add_column_def Let_def v_def t split: if_splits sql_default.splits)
  let ?s = "t\<lparr>tb_cols := tb_cols t @ [c], tb_rows := map (\<lambda>r. r @ [(c_name c, v)]) (tb_rows t)\<rparr>"
  have tok: "table_ok t" using db_okD(3) [OF ok] map_of_SomeD [OF t] by blast
  note tD = table_okD [OF tok]
  have cell: "cell (r @ [(c_name c, v)]) d = cell r d" if "r \<in> set (tb_rows t)" "d \<in> set (col_names t)" for r d
    using that row_typed_names [OF tD(3) [OF that(1)]] by (intro cell_append) simp
  have names: "col_names ?s = col_names t @ [c_name c]" by (simp add: col_names_def)
  have row: "row_typed (tb_cols ?s) (r @ [(c_name c, v)])" if r: "r \<in> set (tb_rows t)" for r
  proof -
    have "cell (r @ [(c_name c, v)]) (c_name c) = v"
      using new row_typed_names [OF tD(3) [OF r]] by (intro cell_new) simp
    moreover have "value_ok c v" using r by (intro v) auto
    ultimately show ?thesis using tD(3) [OF r] cell [OF r] by (auto simp: row_typed_def list_all_iff col_names_def)
  qed
  have con: "constr_ok ?s x" if x: "(k, x) \<in> set (tb_cons t)" for k x
  proof -
    have "constr_holds x (map (\<lambda>r. r @ [(c_name c, v)]) (tb_rows t)) = constr_holds x (tb_rows t)"
      using cell tD(5) [OF x] by (intro constr_holds_map) blast
    with tD(4,5) [OF x] new show ?thesis unfolding constr_ok_def names by (auto simp: subset_iff split: constr.split)
  qed
  have s: "table_ok ?s"
    using tD(1,2) new row con by (auto simp: table_ok_def names list_all_iff)
  have view: "col_view ?s d = col_view t d" if "d \<in> set (col_names t)" for d
    using that cell new by (intro col_view_cong) (auto simp: col_of_def col_names_def find_append split: option.split)
  show ?thesis unfolding db'
  proof (rule table_change_same [OF ok t s])
    show "index_fits ?s i" if "(j, i) \<in> set (db_indexes db)" "ix_table i = n" for j i
      by (rule index_fits_map [OF table_index [OF ok t that], where f = "\<lambda>r. r @ [(c_name c, v)]"]) (auto simp: names cell)
    show "col_view ?s d = col_view t d \<and> (key_column t d \<longrightarrow> key_column ?s d)" if "referenced db n d" for d
      using view [OF fk_cols [OF ok t that]] by (simp add: key_column_def)
    show "x \<in> snd ` set (tb_cons t) \<and> (\<forall>c \<in> set (constr_cols x). col_view ?s c = col_view t c)"
      if "(k, x) \<in> set (tb_cons ?s)" for k x using that tD(5) [of k x] view by force
  qed (auto simp: key_names_def)
qed

lemma drop_column_ok:
  assumes ok: "db_ok db" and "drop_column n c db = Inr db'"
  shows "db_ok db'"
proof -
  obtain t where t: "table_of db n = Some t" and unref: "\<not> referenced db n c"
    and db': "db' = (set_table n (without_column c t) db)\<lparr>db_indexes := filter (\<lambda>(_, i). \<not> (ix_table i = n \<and> index_uses c i)) (db_indexes db)\<rparr>"
    using assms(2) by (auto simp: drop_column_def split: option.splits if_splits)
  let ?s = "without_column c t" and ?f = "filter (\<lambda>(k, _). k \<noteq> c)"
  have tok: "table_ok t" using db_okD(3) [OF ok] map_of_SomeD [OF t] by blast
  note tD = table_okD [OF tok]
  have cell: "cell (?f r) d = cell r d" if "d \<noteq> c" for r d using cell_filter [OF that, of r] by simp
  have names: "col_names ?s = filter (\<lambda>x. x \<noteq> c) (col_names t)"
    by (simp add: without_column_def col_names_def filter_map comp_def)
  have row: "row_typed (tb_cols ?s) (?f r)" if r: "r \<in> set (tb_rows t)" for r
  proof -
    have "map fst (?f r) = filter (\<lambda>x. x \<noteq> c) (map fst r)" by (simp add: filter_map comp_def case_prod_unfold)
    with tD(3) [OF r] show ?thesis
      by (auto simp: row_typed_def without_column_def list_all_iff cell filter_map comp_def)
  qed
  have con: "constr_ok ?s x" if x: "(k, x) \<in> set (tb_cons ?s)" for k x
  proof -
    have x': "(k, x) \<in> set (tb_cons t)" "c \<notin> set (constr_cols x)" using x by (auto simp: without_column_def)
    have "constr_holds x (map ?f (tb_rows t)) = constr_holds x (tb_rows t)" using x'(2) by (intro constr_holds_map cell) auto
    then have "constr_holds x (tb_rows ?s)" using tD(4) [OF x'(1)] by (simp add: without_column_def constr_ok_def)
    moreover have "set (constr_cols x) \<subseteq> set (col_names ?s)" using tD(5) [OF x'(1)] x'(2) by (auto simp: names)
    moreover have "case x of PrimaryKey cs \<Rightarrow> list_all (\<lambda>c. c_name c \<in> set cs \<longrightarrow> \<not> c_null c) (tb_cols ?s) | _ \<Rightarrow> True"
      using tD(4) [OF x'(1)] by (cases x) (simp_all add: constr_ok_def without_column_def list_all_iff)
    ultimately show ?thesis unfolding constr_ok_def by blast
  qed
  have "distinct (map fst (tb_cons ?s))" using tD(2) by (simp add: without_column_def distinct_map_filter)
  moreover have "row_typed (tb_cols ?s) r" if "r \<in> set (tb_rows ?s)" for r using that row by (auto simp: without_column_def)
  ultimately have s: "table_ok ?s" using tD(1) con by (auto simp: table_ok_def names list_all_iff)
  have view: "col_view ?s d = col_view t d" if "d \<noteq> c" for d
    using that cell by (intro col_view_cong) (auto simp: without_column_def col_of_def find_filter_kept)
  have sub: "set (key_names ?s) \<subseteq> set (key_names t)" by (auto simp: key_names_def without_column_def)
  show ?thesis unfolding db'
  proof (rule table_change [OF ok t s])
    show "index_fits ?s i"
      if "(j, i) \<in> set (filter (\<lambda>(_, i). \<not> (ix_table i = n \<and> index_uses c i)) (db_indexes db))" "ix_table i = n" for j i
    proof -
      have i: "index_fits t i" "\<not> index_uses c i" using table_index [OF ok t] that by auto
      then have "unique_on (ix_cols i) (ix_where i) (map ?f (tb_rows t)) = unique_on (ix_cols i) (ix_where i) (tb_rows t)"
        by (intro unique_on_map cell) (auto simp: index_uses_def)
      moreover have "tb_rows ?s = map ?f (tb_rows t)" by (simp add: without_column_def)
      ultimately show ?thesis using i by (auto simp: index_fits_def names index_uses_def)
    qed
    show "col_view ?s d = col_view t d \<and> (key_column t d \<longrightarrow> key_column ?s d)" if "referenced db n d" for d
    proof -
      have "d \<noteq> c" using that unref by auto
      with view [of d] show ?thesis by (auto simp: key_column_def without_column_def list_ex_iff) force+
    qed
    show "x \<in> snd ` set (tb_cons t) \<and> (\<forall>c \<in> set (constr_cols x). col_view ?s c = col_view t c)"
      if "(k, x) \<in> set (tb_cons ?s)" for k x
    proof -
      have x: "(k, x) \<in> set (tb_cons t)" "c \<notin> set (constr_cols x)" using that by (auto simp: without_column_def)
      then have "col_view ?s d = col_view t d" if "d \<in> set (constr_cols x)" for d using that by (intro view) auto
      with x(1) show ?thesis by (metis image_eqI snd_conv)
    qed
  qed (use sub in auto)
qed

lemma alter_column_ok:
  assumes ok: "db_ok db" and t: "table_of db n = Some t"
    and f: "\<And>x. c_name (f x) = c_name x" "\<And>x. x \<in> set (tb_cols t) \<Longrightarrow> c_name x = c \<Longrightarrow> kind_of (c_type (f x)) = kind_of (c_type x)"
    and vals: "\<And>r x. r \<in> set (tb_rows t) \<Longrightarrow> x \<in> set (tb_cols t) \<Longrightarrow> c_name x = c \<Longrightarrow> value_ok x (cell r c) \<Longrightarrow> value_ok (f x) (cell r c)"
    and pk: "\<And>k cs x. (k, PrimaryKey cs) \<in> set (tb_cons t) \<Longrightarrow> c \<in> set cs \<Longrightarrow> c_null (f x) \<longrightarrow> c_null x"
  shows "db_ok (set_table n (alter_column f c t) db)"
proof -
  let ?s = "alter_column f c t"
  have tok: "table_ok t" using db_okD(3) [OF ok] map_of_SomeD [OF t] by blast
  note tD = table_okD [OF tok]
  have names: "col_names ?s = col_names t" using f(1) by (simp add: col_names_def alter_column_def)
  have same: "tb_rows ?s = tb_rows t" "tb_cons ?s = tb_cons t" by (simp_all add: alter_column_def)
  have row: "row_typed (tb_cols ?s) r" if "r \<in> set (tb_rows t)" for r
    using tD(3) [OF that] vals [OF that] names by (auto simp: row_typed_def list_all_iff alter_column_def f(1) col_names_def)
  have con: "constr_ok ?s x" if x: "(k, x) \<in> set (tb_cons t)" for k x
  proof -
    have "case x of PrimaryKey cs \<Rightarrow> list_all (\<lambda>c. c_name c \<in> set cs \<longrightarrow> \<not> c_null c) (tb_cols ?s) | _ \<Rightarrow> True"
      using tD(4) [OF x] pk x by (cases x) (auto simp: constr_ok_def alter_column_def list_all_iff f(1))
    with tD(4) [OF x] names same show ?thesis by (simp add: constr_ok_def)
  qed
  have s: "table_ok ?s" using tD(1,2) row con by (auto simp: table_ok_def names same list_all_iff)
  have find: "find (\<lambda>x. c_name x = d) (map (\<lambda>x. if c_name x = c then f x else x) cols) =
      map_option (\<lambda>x. if c_name x = c then f x else x) (find (\<lambda>x. c_name x = d) cols)" for d cols
    by (induction cols) (auto simp: f(1))
  have "col_of ?s d = map_option (\<lambda>x. if c_name x = c then f x else x) (col_of t d)" for d
    by (simp add: col_of_def alter_column_def find)
  then have "map_option (\<lambda>x. kind_of (c_type x)) (col_of ?s d) = map_option (\<lambda>x. kind_of (c_type x)) (col_of t d)" for d
    using col_of_Some [of t d] f(2) by (cases "col_of t d") simp_all
  then have view: "col_view ?s d = col_view t d" for d by (rule col_view_cong) (simp add: same)
  show ?thesis
  proof (rule table_change_same [OF ok t s])
    show "index_fits ?s i" if "(j, i) \<in> set (db_indexes db)" "ix_table i = n" for j i
      using table_index [OF ok t that] by (simp add: index_fits_def names same)
  qed (use view in \<open>auto simp: key_names_def key_column_def same intro: rev_image_eqI\<close>)
qed

lemma alter_null_ok:
  assumes "db_ok db" and "alter_null n c b db = Inr db'"
  shows "db_ok db'"
proof -
  obtain t where t: "table_of db n = Some t" and db': "db' = set_table n (alter_column (\<lambda>x. x\<lparr>c_null := b\<rparr>) c t) db"
    and pk: "\<And>k cs. b \<Longrightarrow> (k, PrimaryKey cs) \<in> set (tb_cons t) \<Longrightarrow> c \<notin> set cs"
    and nn: "\<And>r. \<not> b \<Longrightarrow> r \<in> set (tb_rows t) \<Longrightarrow> cell r c \<noteq> SNull"
    using assms(2) by (force simp: alter_null_def list_ex_iff split: option.splits if_splits)
  show ?thesis unfolding db' by (rule alter_column_ok [OF assms(1) t]) (use pk nn in \<open>auto simp: value_ok_def\<close>)
qed

lemma alter_type_ok:
  assumes "db_ok db" and "alter_type n c ty db = Inr db'"
  shows "db_ok db'"
proof -
  obtain t y where t: "table_of db n = Some t" and db': "db' = set_table n (alter_column (\<lambda>x. x\<lparr>c_type := ty\<rparr>) c t) db"
    and y: "col_of t c = Some y" "kind_of (c_type y) = kind_of ty" and fit: "\<And>r. r \<in> set (tb_rows t) \<Longrightarrow> fits ty (cell r c)"
    using assms(2) by (auto simp: alter_type_def list_all_iff split: option.splits if_splits)
  have "distinct (col_names t)" using db_okD(3) [OF assms(1)] map_of_SomeD [OF t] table_okD(1) by blast
  then have "x = y" if "x \<in> set (tb_cols t)" "c_name x = c" for x
    using col_of_Some [OF y(1)] that by (auto simp: col_names_def distinct_map inj_on_def)
  then show ?thesis unfolding db' by (intro alter_column_ok [OF assms(1) t]) (use y fit in \<open>auto simp: value_ok_def\<close>)
qed

lemma constr_ok_same: "tb_cols s = tb_cols t \<Longrightarrow> tb_rows s = tb_rows t \<Longrightarrow> constr_ok s = constr_ok t"
  unfolding constr_ok_def [abs_def] col_names_def by metis

lemma fk_ok_same: "db_tables db' = db_tables db \<Longrightarrow> fk_ok db' = fk_ok db"
  unfolding fk_ok_def [abs_def] by metis

lemma index_ok_same: "db_tables db' = db_tables db \<Longrightarrow> index_ok db' = index_ok db"
  by (simp add: index_ok_def [abs_def])

lemma create_constraint_ok:
  assumes ok: "db_ok db" and "create_constraint k n x db = Inr db'"
  shows "db_ok db'"
proof -
  obtain t where t: "table_of db n = Some t" and db': "db' = set_table n (t\<lparr>tb_cons := tb_cons t @ [(k, x)]\<rparr>) db"
    and new: "k \<notin> set (map fst (tb_cons t))" "key_constr x \<Longrightarrow> k \<notin> set (relation_names db)"
    and x: "constr_ok t x" "\<not> is_fk x"
    using assms(2) by (auto simp: create_constraint_def Let_def split: option.splits if_splits constr.splits)
  let ?s = "t\<lparr>tb_cons := tb_cons t @ [(k, x)]\<rparr>"
  have tok: "table_ok t" using db_okD(3) [OF ok] map_of_SomeD [OF t] by blast
  have same: "col_names ?s = col_names t" "col_view ?s = col_view t" by (simp_all add: col_names_def col_view_def col_of_def fun_eq_iff)
  have con: "constr_ok ?s = constr_ok t" by (rule constr_ok_same) simp_all
  have s: "table_ok ?s" using tok new(1) x(1) by (auto simp: table_ok_def same con)
  show ?thesis unfolding db'
  proof (rule table_change_same [OF ok t s])
    show "set (key_names ?s) \<inter> (set (relation_names db) - set (key_names t)) = {}" using new(2) by (auto simp: key_names_def)
    show "index_fits ?s i" if "(j, i) \<in> set (db_indexes db)" "ix_table i = n" for j i
      using table_index [OF ok t that] by (simp add: index_fits_def same)
  qed (use x(2) in \<open>auto simp: same key_column_def intro: rev_image_eqI\<close>)
qed

lemma drop_constraint_ok:
  assumes ok: "db_ok db" and "drop_constraint k n db = Inr db'"
  shows "db_ok db'"
proof -
  obtain t x where t: "table_of db n = Some t" and db': "db' = set_table n (t\<lparr>tb_cons := filter (\<lambda>(j, _). j \<noteq> k) (tb_cons t)\<rparr>) db"
    and found: "map_of (tb_cons t) k = Some x" "\<not> (key_constr x \<and> (case constr_cols x of [c] \<Rightarrow> referenced db n c | _ \<Rightarrow> False))"
    using assms(2) by (auto simp: drop_constraint_def split: option.splits if_splits)
  have x: "map_of (tb_cons t) k = Some x" "\<And>c. key_constr x \<Longrightarrow> constr_cols x = [c] \<Longrightarrow> \<not> referenced db n c"
    using found by auto
  let ?s = "t\<lparr>tb_cons := filter (\<lambda>(j, _). j \<noteq> k) (tb_cons t)\<rparr>"
  have tok: "table_ok t" using db_okD(3) [OF ok] map_of_SomeD [OF t] by blast
  have same: "col_names ?s = col_names t" "col_view ?s = col_view t" by (simp_all add: col_names_def col_view_def col_of_def fun_eq_iff)
  have con: "constr_ok ?s = constr_ok t" by (rule constr_ok_same) simp_all
  have s: "table_ok ?s" using tok by (auto simp: table_ok_def same con list_all_iff distinct_map_filter)
  have key: "key_column ?s c" if ref: "referenced db n c" and "key_column t c" for c
  proof -
    obtain j y where y: "(j, y) \<in> set (tb_cons t)" "y = PrimaryKey [c] \<or> y = Unique [c]"
      using \<open>key_column t c\<close> by (auto simp: key_column_def list_ex_iff)
    have "j \<noteq> k"
    proof
      assume "j = k"
      with x(1) y(1) table_okD(2) [OF tok] have "y = x" by (metis eq_key_imp_eq_value map_of_SomeD)
      with y(2) x(2) [of c] ref show False by auto
    qed
    with y show ?thesis by (auto simp: key_column_def list_ex_iff)
  qed
  show ?thesis unfolding db'
  proof (rule table_change_same [OF ok t s])
    show "index_fits ?s i" if "(j, i) \<in> set (db_indexes db)" "ix_table i = n" for j i
      using table_index [OF ok t that] by (simp add: index_fits_def same)
  qed (use key in \<open>auto simp: same key_names_def intro: rev_image_eqI\<close>)
qed

lemma create_index_ok:
  assumes ok: "db_ok db" and "create_index k i e db = Inr db'"
  shows "db_ok db'"
proof (cases "k \<in> set (relation_names db)")
  case False
  then obtain t where t: "table_of db (ix_table i) = Some t" "index_fits t i" and db': "db' = db\<lparr>db_indexes := db_indexes db @ [(k, i)]\<rparr>"
    using assms(2) by (auto simp: create_index_def index_fits_def split: option.splits if_splits)
  have "fk_ok db' = fk_ok db" "index_ok db' = index_ok db" by (rule fk_ok_same index_ok_same, simp add: db')+
  moreover have "distinct (relation_names db')" using db_okD(1) [OF ok] False by (auto simp: db' relation_names_def)
  moreover have "index_ok db i" using t by (simp add: index_ok_def)
  ultimately show ?thesis using ok by (simp add: db_ok_def db')
qed (use assms in \<open>auto simp: create_index_def split: if_splits\<close>)

lemma distinct_filter_indexes: "distinct (A @ map fst I) \<Longrightarrow> distinct (A @ map fst (filter P I))"
  by (auto simp: distinct_map_filter)

lemma drop_index_ok:
  assumes ok: "db_ok db" and "drop_index k e db = Inr db'"
  shows "db_ok db'"
proof (cases "k \<in> set (map fst (db_indexes db))")
  case True
  then have db': "db' = db\<lparr>db_indexes := filter (\<lambda>(j, _). j \<noteq> k) (db_indexes db)\<rparr>" using assms(2) by (simp add: drop_index_def)
  have "fk_ok db' = fk_ok db" "index_ok db' = index_ok db" by (rule fk_ok_same index_ok_same, simp add: db')+
  moreover have "distinct (relation_names db')"
    using distinct_filter_indexes [OF db_okD(1) [OF ok, unfolded relation_names_def, folded append_assoc]]
    by (simp add: db' relation_names_def)
  ultimately show ?thesis using ok by (auto simp: db_ok_def db' list_all_iff)
qed (use assms in \<open>auto simp: drop_index_def split: if_splits\<close>)

lemma backfill_ok:
  assumes ok: "db_ok db" and "backfill n c f db = Inr db'"
  shows "db_ok db'"
proof -
  obtain t where t: "table_of db n = Some t" by (use assms(2) in \<open>auto simp: backfill_def split: option.splits\<close>)
  let ?s = "t\<lparr>tb_rows := map2 (set_cell c) (f (tb_rows t)) (tb_rows t)\<rparr>"
  have db': "db' = set_table n ?s db" and len: "length (f (tb_rows t)) = length (tb_rows t)"
    and free: "\<not> referenced db n c" "\<And>k x. (k, x) \<in> set (tb_cons t) \<Longrightarrow> is_fk x \<Longrightarrow> c \<notin> set (constr_cols x)"
    and rows: "list_all (row_typed (tb_cols t)) (tb_rows ?s)" and cons: "list_all (\<lambda>(_, k). constr_ok ?s k) (tb_cons t)"
    and idx: "\<And>j i. (j, i) \<in> set (db_indexes db) \<Longrightarrow> ix_table i = n \<Longrightarrow> index_fits ?s i"
    using assms(2) t by (auto simp: backfill_def Let_def list_ex_iff list_all_iff split: if_splits)
  have tok: "table_ok t" using db_okD(3) [OF ok] map_of_SomeD [OF t] by blast
  have s: "table_ok ?s" using tok rows cons by (simp add: table_ok_def col_names_def)
  have "map (\<lambda>r. cell r d) (map2 (set_cell c) vs rs) = map (\<lambda>r. cell r d) rs" if "d \<noteq> c" "length vs = length rs" for d vs rs
    using that(2) by (induction vs rs rule: list_induct2) (simp_all add: cell_set_cell [OF that(1)])
  then have view: "col_view ?s d = col_view t d" if "d \<noteq> c" for d
    using that len by (intro col_view_cong) (simp_all add: col_of_def)
  show ?thesis unfolding db'
  proof (rule table_change_same [OF ok t s _ _ _ idx])
    show "col_view ?s d = col_view t d \<and> (key_column t d \<longrightarrow> key_column ?s d)" if "referenced db n d" for d
      using view [of d] that free(1) by (auto simp: key_column_def)
    show "x \<in> snd ` set (tb_cons t) \<and> (\<forall>c \<in> set (constr_cols x). col_view ?s c = col_view t c)"
      if "(k, x) \<in> set (tb_cons ?s)" "is_fk x" for k x
    proof -
      have x: "(k, x) \<in> set (tb_cons t)" using that(1) by simp
      then have "col_view ?s d = col_view t d" if "d \<in> set (constr_cols x)" for d
        using that free(2) [OF x \<open>is_fk x\<close>] by (intro view) auto
      with x show ?thesis by (metis image_eqI snd_conv)
    qed
  qed (auto simp: key_names_def)
qed

lemma distinct_remove:
  assumes "distinct (A @ n # B @ C @ K @ D @ I)" and "distinct I'" and "set I' \<subseteq> set I"
  shows "distinct (A @ B @ C @ D @ I')"
  using assms unfolding distinct_append distinct.simps set_append list.set by blast

lemma drop_table_ok:
  assumes ok: "db_ok db" and "drop_table n db = Inr db'"
  shows "db_ok db'"
proof -
  obtain t where t: "table_of db n = Some t" and unref: "\<not> referenced_table db n"
    and db': "db' = \<lparr>db_tables = filter (\<lambda>(k, _). k \<noteq> n) (db_tables db), db_indexes = filter (\<lambda>(_, i). ix_table i \<noteq> n) (db_indexes db)\<rparr>"
    using assms(2) by (auto simp: drop_table_def split: if_splits)
  note okD = db_okD [OF ok]
  obtain ys zs where sp: "db_tables db = ys @ (n, t) # zs" "n \<notin> fst ` set ys" "n \<notin> fst ` set zs"
    using table_split [OF okD(2) t] .
  have "filter (\<lambda>(k, _). k \<noteq> n) xs = xs" if "n \<notin> fst ` set xs" for xs :: "(string \<times> table) list"
    using that by (induction xs) auto
  then have tabs: "db_tables db' = ys @ zs" using sp by (simp add: db')
  have look: "table_of db' m = (if m = n then None else table_of db m)" for m
    using sp(2,3) [folded map_of_eq_None_iff] by (simp add: tabs sp(1) map_add_def split: option.split)
  let ?ixs = "map fst (filter (\<lambda>(_, i). ix_table i \<noteq> n) (db_indexes db))" and ?keys = "\<lambda>ts. concat (map (\<lambda>(_, t). key_names t) ts)"
  have ixs: "distinct ?ixs" "set ?ixs \<subseteq> set (map fst (db_indexes db))" using okD(1) by (auto simp: relation_names_def distinct_map_filter)
  have "relation_names db = map fst ys @ n # map fst zs @ ?keys ys @ key_names t @ ?keys zs @ map fst (db_indexes db)"
    and r: "relation_names db' = map fst ys @ map fst zs @ ?keys ys @ ?keys zs @ ?ixs"
    unfolding relation_names_def tabs sp(1) by (simp_all add: db')
  with okD(1) have "distinct (map fst ys @ n # map fst zs @ ?keys ys @ key_names t @ ?keys zs @ map fst (db_indexes db))" by metis
  from distinct_remove [OF this ixs] have rel: "distinct (relation_names db')" unfolding r .
  have fk: "fk_ok db' s x" if in_s: "(m, s) \<in> set (db_tables db')" "(k, x) \<in> set (tb_cons s)" for m s k x
  proof (cases "is_fk x")
    case True
    then obtain c rt rc d where x: "x = ForeignKey c rt rc d" by (cases x) auto
    have m: "(m, s) \<in> set (db_tables db)" "m \<noteq> n" using in_s(1) sp tabs by force+
    have "rt \<noteq> n"
    proof
      assume "rt = n"
      then have "list_ex (\<lambda>(_, k). case k of ForeignKey _ rt _ _ \<Rightarrow> rt = n | _ \<Rightarrow> False) (tb_cons s)"
        using in_s(2) unfolding x list_ex_iff by (intro bexI [of _ "(k, ForeignKey c rt rc d)"]) simp_all
      with m have "referenced_table db n" unfolding referenced_table_def list_ex_iff [of _ "db_tables db"] by (intro bexI [of _ "(m, s)"]) simp_all
      with unref show False ..
    qed
    then show ?thesis using okD(4) [OF m(1) in_s(2)] look unfolding x fk_ok_iff by simp
  qed (rule fk_ok_other)
  have "table_ok s" if "(m, s) \<in> set (db_tables db')" for m s using that tabs sp(1) okD(3) by auto
  moreover have "index_ok db' i" if "(j, i) \<in> set (db_indexes db')" for j i
    using that okD(5) look by (auto simp: db' index_ok_def)
  ultimately show ?thesis using rel fk by (auto simp: db_ok_def list_all_iff)
qed

lemma distinct_insert:
  "distinct (A @ B @ C) \<Longrightarrow> n \<notin> set (A @ B @ C) \<Longrightarrow> distinct (n # K @ I) \<Longrightarrow> set (K @ I) \<inter> set (A @ B @ C) = {}
   \<Longrightarrow> distinct ((A @ [n]) @ (B @ K) @ C @ I)"
  by (simp only: distinct_append distinct.simps set_append list.set) blast

lemma create_table_ok:
  assumes ok: "db_ok db" and "create_table n items db = Inr db'"
  shows "db_ok db'"
proof -
  let ?t = "\<lparr>tb_cols = item_cols items, tb_cons = item_cons n items, tb_rows = []\<rparr>"
  let ?new = "key_names ?t @ map fst (item_indexes n items)"
  have db': "db' = db\<lparr>db_tables := db_tables db @ [(n, ?t)], db_indexes := db_indexes db @ item_indexes n items\<rparr>"
    and new: "n \<notin> set (relation_names db)" "distinct (n # ?new)" "set ?new \<inter> set (relation_names db) = {}"
    and t: "distinct (col_names ?t)" "distinct (map fst (tb_cons ?t))" "list_all (\<lambda>(_, k). constr_ok ?t k) (tb_cons ?t)"
      "list_all (\<lambda>(_, k). fk_ok db' ?t k) (tb_cons ?t)"
    using assms(2) by (auto simp: create_table_def Let_def list_ex_iff split: if_splits)
  note okD = db_okD [OF ok]
  have rel: "distinct (relation_names db')"
    using distinct_insert [OF okD(1) [unfolded relation_names_def] new(1) [unfolded relation_names_def] new(2)
      new(3) [unfolded relation_names_def]] by (simp add: relation_names_def db')
  have fresh: "table_of db n = None" using new(1) by (auto simp: relation_names_def map_of_eq_None_iff)
  have look: "table_of db' m = (if m = n then Some ?t else table_of db m)" for m
    using fresh by (auto simp: db' map_add_def split: option.split)
  have tok: "table_ok ?t" using t(1-3) by (simp add: table_ok_def)
  have fk: "fk_ok db' s x" if "(m, s) \<in> set (db_tables db)" "(k, x) \<in> set (tb_cons s)" for m s k x
  proof (cases "is_fk x")
    case True
    then obtain c rt rc d where x: "x = ForeignKey c rt rc d" by (cases x) auto
    show ?thesis using okD(4) [OF that] look fresh unfolding x fk_ok_iff by auto
  qed (rule fk_ok_other)
  have "index_ok db' i" if "(j, i) \<in> set (db_indexes db)" for j i
    using okD(5) [OF that] look fresh by (auto simp: index_ok_def split: option.splits)
  moreover have "index_ok db' i" if "(j, i) \<in> set (item_indexes n items)" for j i
    using that look by (auto simp: item_indexes_def index_ok_def index_fits_def col_names_def item_cols_def split: item.splits if_splits) force
  ultimately show ?thesis using rel fk tok t(4) okD(3) by (auto simp: db_ok_def list_all_iff db')
qed

text \<open>Every statement that succeeds keeps the database well-typed.\<close>

lemma run_op_ok: "db_ok db \<Longrightarrow> run_op p db = Inr db' \<Longrightarrow> db_ok db'"
  by (cases p) (auto intro: create_table_ok drop_table_ok add_column_ok drop_column_ok alter_null_ok alter_type_ok
      create_constraint_ok drop_constraint_ok create_index_ok drop_index_ok backfill_ok)

lemma empty_db_ok: "db_ok empty_db"
  by (simp add: db_ok_def empty_db_def relation_names_def)

end
