(* ===== verification/Revisions.thy ===== *)
theory Revisions
  imports Schema LiveSessions
begin

section \<open>The migrations of \<open>src/alembic/versions\<close>\<close>

text \<open>
  One pair of definitions per revision. A step is a statement in the transaction of the run, or an
  \<open>autocommit_block\<close>, whose statements commit one by one. \<open>CREATE INDEX CONCURRENTLY\<close> is the same
  statement as without it. Columns are nullable without a default unless \<open>nn\<close> or \<open>dflt\<close> says so.
\<close>

datatype step = Do ddl | Auto "ddl list"

definition col :: "string \<Rightarrow> sql_type \<Rightarrow> column" where
  "col n ty = \<lparr>c_name = n, c_type = ty, c_null = True, c_default = NoDefault\<rparr>"

definition nn :: "column \<Rightarrow> column" where
  "nn c = c\<lparr>c_null := False\<rparr>"

definition dflt :: "sql_default \<Rightarrow> column \<Rightarrow> column" where
  "dflt d c = c\<lparr>c_default := d\<rparr>"

definition idx :: "string \<Rightarrow> string list \<Rightarrow> string list \<Rightarrow> bool \<Rightarrow> cond option \<Rightarrow> index" where
  "idx n cs desc u w = \<lparr>ix_table = n, ix_cols = cs, ix_desc = desc, ix_unique = u, ix_where = w\<rparr>"

subsection \<open>\<open>001_initial_tables.py\<close>\<close>

definition upgrade_001 :: "step list" where
  "upgrade_001 =
  [Do (CreateTable ''users''
     [Col (dflt GenRandomUuid (nn (col ''id'' UUID_T))) [PK],
      Col (nn (col ''email'' (VARCHAR 255))) [UQ],
      Col (nn (col ''api_key_hash'' (VARCHAR 64))) [],
      Col (nn (col ''api_key_prefix'' (VARCHAR 12))) [],
      Col (dflt (Lit (SText ''free'')) (nn (col ''plan'' (VARCHAR 20)))) [],
      Col (dflt (Lit (SText ''monthly'')) (col ''plan_interval'' (VARCHAR 10))) [],
      Col (col ''plan_period_end'' TIMESTAMPTZ) [],
      Col (col ''stripe_customer_id'' (VARCHAR 64)) [],
      Col (col ''stripe_subscription_id'' (VARCHAR 64)) [],
      Col (dflt (Lit (SInt 10)) (nn (col ''active_cue_limit'' INTEGER_T))) [],
      Col (dflt (Lit (SInt 300)) (nn (col ''monthly_execution_limit'' INTEGER_T))) [],
      Col (dflt (Lit (SInt 60)) (nn (col ''rate_limit_per_minute'' INTEGER_T))) [],
      Col (dflt Now (nn (col ''created_at'' TIMESTAMPTZ))) [],
      Col (dflt Now (nn (col ''updated_at'' TIMESTAMPTZ))) []]),
   Do (CreateIndex ''idx_users_api_key_hash'' (idx ''users'' [''api_key_hash''] [] True None) False),
   Do (CreateIndex ''idx_users_api_key_prefix'' (idx ''users'' [''api_key_prefix''] [] False None) False),
   Do (CreateIndex ''idx_users_email'' (idx ''users'' [''email''] [] False None) False),
   Do (CreateTable ''cues''
     [Col (nn (col ''id'' (VARCHAR 20))) [PK],
      Col (nn (col ''user_id'' UUID_T)) [FK ''users'' ''id'' ''CASCADE''],
      Col (nn (col ''name'' (VARCHAR 255))) [],
      Col (col ''description'' TEXT_T) [],
      Col (dflt (Lit (SText ''active'')) (nn (col ''status'' (VARCHAR 20)))) [],
      Col (nn (col ''schedule_type'' (VARCHAR 10))) [],
      Col (col ''schedule_cron'' (VARCHAR 100)) [],
      Col (col ''schedule_at'' TIMESTAMPTZ) [],
      Col (dflt (Lit (SText ''UTC'')) (nn (col ''schedule_timezone'' (VARCHAR 50)))) [],
      Col (nn (col ''callback_url'' TEXT_T)) [],
      Col (dflt (Lit (SText ''POST'')) (nn (col ''callback_method'' (VARCHAR 10)))) [],
      Col (dflt (Lit (SJson (JObj []))) (col ''callback_headers'' JSONB_T)) [],
      Col (dflt (Lit (SJson (JObj []))) (col ''payload'' JSONB_T)) [],
      Col (dflt (Lit (SInt 3)) (nn (col ''retry_max_attempts'' INTEGER_T))) [],
      Col (dflt (Lit (SJson (JList [JInt 1, JInt 5, JInt 15]))) (nn (col ''retry_backoff_minutes'' JSONB_T))) [],
      Col (col ''next_run'' TIMESTAMPTZ) [],
      Col (col ''last_run'' TIMESTAMPTZ) [],
      Col (dflt (Lit (SInt 0)) (nn (col ''run_count'' INTEGER_T))) [],
      Col (dflt Now (nn (col ''created_at'' TIMESTAMPTZ))) [],
      Col (dflt Now (nn (col ''updated_at'' TIMESTAMPTZ))) [],
      Con ''valid_status'' (Check (CIn ''status'' [''active'', ''paused'', ''completed'', ''failed''])),
      Con ''valid_schedule_type'' (Check (CIn ''schedule_type'' [''once'', ''recurring''])),
      Con ''valid_callback_method'' (Check (CIn ''callback_method'' [''POST'', ''GET'', ''PUT'', ''PATCH'']))]),
   Do (CreateIndex ''idx_cues_user_id'' (idx ''cues'' [''user_id''] [] False None) False),
   Do (CreateIndex ''idx_cues_status'' (idx ''cues'' [''status''] [] False None) False),
   Do (CreateIndex ''idx_cues_due'' (idx ''cues'' [''next_run''] [] False (Some (CAnd (CIn ''status'' [''active'']) (CNotNull ''next_run'')))) False)]"

definition downgrade_001 :: "step list" where
  "downgrade_001 =
  [Do (DropTable ''cues''),
   Do (DropTable ''users'')]"

subsection \<open>\<open>002_executions_and_outbox.py\<close>\<close>

definition upgrade_002 :: "step list" where
  "upgrade_002 =
  [Do (CreateTable ''executions''
     [Col (dflt GenRandomUuid (nn (col ''id'' UUID_T))) [PK],
      Col (nn (col ''cue_id'' (VARCHAR 20))) [FK ''cues'' ''id'' ''CASCADE''],
      Col (nn (col ''scheduled_for'' TIMESTAMPTZ)) [],
      Col (dflt (Lit (SText ''pending'')) (nn (col ''status'' (VARCHAR 20)))) [],
      Col (col ''http_status'' INTEGER_T) [],
      Col (col ''response_body'' TEXT_T) [],
      Col (dflt (Lit (SInt 0)) (nn (col ''attempts'' INTEGER_T))) [],
      Col (col ''next_retry'' TIMESTAMPTZ) [],
      Col (col ''error_message'' TEXT_T) [],
      Col (col ''started_at'' TIMESTAMPTZ) [],
      Col (col ''delivered_at'' TIMESTAMPTZ) [],
      Col (col ''last_attempt_at'' TIMESTAMPTZ) [],
      Col (dflt Now (nn (col ''created_at'' TIMESTAMPTZ))) [],
      Col (dflt Now (nn (col ''updated_at'' TIMESTAMPTZ))) [],
      Con ''valid_exec_status'' (Check (CIn ''status'' [''pending'', ''delivering'', ''success'', ''failed'', ''retrying'']))]),
   Do (CreateIndex ''idx_executions_dedup'' (idx ''executions'' [''cue_id'', ''scheduled_for''] [] True None) False),
   Do (CreateIndex ''idx_executions_cue_id'' (idx ''executions'' [''cue_id''] [] False None) False),
   Do (CreateIndex ''idx_executions_created_at'' (idx ''executions'' [''created_at''] [] False None) False),
   Do (CreateIndex ''idx_executions_retries'' (idx ''executions'' [''next_retry''] [] False (Some (CAnd (CIn ''status'' [''retrying'']) (CNotNull
       ''next_retry'')))) False),
   Do (CreateTable ''dispatch_outbox''
     [Col (dflt Serial (nn (col ''id'' BIGINT_T))) [PK],
      Col (nn (col ''execution_id'' UUID_T)) [FK ''executions'' ''id'' ''CASCADE''],
      Col (nn (col ''cue_id'' (VARCHAR 20))) [],
      Col (dflt (Lit (SText ''deliver'')) (nn (col ''task_type'' (VARCHAR 20)))) [],
      Col (dflt (Lit (SJson (JObj []))) (nn (col ''payload'' JSONB_T))) [],
      Col (dflt (Lit (SBool False)) (nn (col ''dispatched'' BOOLEAN_T))) [],
      Col (dflt (Lit (SInt 0)) (nn (col ''dispatch_attempts'' INTEGER_T))) [],
      Col (col ''last_dispatch_error'' TEXT_T) [],
      Col (dflt Now (nn (col ''created_at'' TIMESTAMPTZ))) [],
      Con ''valid_task_type'' (Check (CIn ''task_type'' [''deliver'', ''retry'']))]),
   Do (CreateIndex ''idx_outbox_pending'' (idx ''dispatch_outbox'' [''created_at''] [] False (Some (CBool ''dispatched'' False))) False)]"

definition downgrade_002 :: "step list" where
  "downgrade_002 =
  [Do (DropTable ''dispatch_outbox''),
   Do (DropTable ''executions'')]"

subsection \<open>\<open>003_usage_monthly.py\<close>\<close>

definition upgrade_003 :: "step list" where
  "upgrade_003 =
  [Do (CreateTable ''usage_monthly''
     [Col (dflt Serial (nn (col ''id'' INTEGER_T))) [PK],
      Col (nn (col ''user_id'' UUID_T)) [],
      Col (nn (col ''month_start'' DATE_T)) [],
      Col (dflt (Lit (SInt 0)) (nn (col ''execution_count'' INTEGER_T))) [],
      Con ''unique_user_month'' (Unique [''user_id'', ''month_start''])]),
   Do (CreateIndex ''idx_usage_monthly_user'' (idx ''usage_monthly'' [''user_id'', ''month_start''] [] False None) False)]"

definition downgrade_003 :: "step list" where
  "downgrade_003 =
  [Do (DropIndex ''idx_usage_monthly_user'' False),
   Do (DropTable ''usage_monthly'')]"

subsection \<open>\<open>004_device_codes.py\<close>\<close>

definition upgrade_004 :: "step list" where
  "upgrade_004 =
  [Do (CreateTable ''device_codes''
     [Col (dflt GenRandomUuid (nn (col ''id'' UUID_T))) [PK],
      Col (nn (col ''device_code'' (VARCHAR 10))) [UQ],
      Col (col ''email'' (VARCHAR 255)) [],
      Col (dflt (Lit (SText ''pending'')) (nn (col ''status'' (VARCHAR 20)))) [],
      Col (col ''api_key_plaintext'' (VARCHAR 64)) [],
      Col (col ''verification_token'' (VARCHAR 64)) [],
      Col (nn (col ''expires_at'' TIMESTAMPTZ)) [],
      Col (dflt Now (nn (col ''created_at'' TIMESTAMPTZ))) [],
      Con ''valid_dc_status'' (Check (CIn ''status'' [''pending'', ''email_sent'', ''approved'', ''expired'', ''claimed'']))]),
   Do (CreateIndex ''idx_device_codes_code'' (idx ''device_codes'' [''device_code''] [] False None) False),
   Do (CreateIndex ''idx_device_codes_token'' (idx ''device_codes'' [''verification_token''] [] False None) False)]"

definition downgrade_004 :: "step list" where
  "downgrade_004 =
  [Do (DropTable ''device_codes'')]"

subsection \<open>\<open>005_add_retry_ready_status.py\<close>\<close>

definition upgrade_005 :: "step list" where
  "upgrade_005 =
  [Do (DropConstraint ''valid_exec_status'' ''executions''),
   Do (CreateConstraint ''valid_exec_status'' ''executions'' (Check (CIn ''status'' [''pending'', ''delivering'', ''success'', ''failed'',
       ''retrying'', ''retry_ready''])))]"

definition downgrade_005 :: "step list" where
  "downgrade_005 =
  [Do (DropConstraint ''valid_exec_status'' ''executions''),
   Do (CreateConstraint ''valid_exec_status'' ''executions'' (Check (CIn ''status'' [''pending'', ''delivering'', ''success'', ''failed'',
       ''retrying''])))]"

subsection \<open>\<open>006_add_outcome_columns.py\<close>\<close>

definition upgrade_006 :: "step list" where
  "upgrade_006 =
  [Do (AddColumn ''executions'' (col ''outcome_success'' BOOLEAN_T)),
   Do (AddColumn ''executions'' (col ''outcome_result'' TEXT_T)),
   Do (AddColumn ''executions'' (col ''outcome_error'' TEXT_T)),
   Do (AddColumn ''executions'' (col ''outcome_metadata'' JSONB_T)),
   Do (AddColumn ''executions'' (col ''outcome_recorded_at'' TIMESTAMPTZ))]"

definition downgrade_006 :: "step list" where
  "downgrade_006 =
  [Do (DropColumn ''executions'' ''outcome_recorded_at''),
   Do (DropColumn ''executions'' ''outcome_metadata''),
   Do (DropColumn ''executions'' ''outcome_error''),
   Do (DropColumn ''executions'' ''outcome_result''),
   Do (DropColumn ''executions'' ''outcome_success'')]"

subsection \<open>\<open>007_worker_transport.py\<close>\<close>

definition upgrade_007 :: "step list" where
  "upgrade_007 =
  [Do (AddColumn ''cues'' (dflt (Lit (SText ''webhook'')) (nn (col ''callback_transport'' (VARCHAR 10))))),
   Do (CreateConstraint ''valid_callback_transport'' ''cues'' (Check (CIn ''callback_transport'' [''webhook'', ''worker'']))),
   Do (AlterNull ''cues'' ''callback_url'' True),
   Do (AddColumn ''executions'' (col ''claimed_by_worker'' (VARCHAR 255))),
   Do (AddColumn ''executions'' (col ''claimed_at'' TIMESTAMPTZ)),
   Do (CreateTable ''workers''
     [Col (dflt GenRandomUuid (nn (col ''id'' UUID_T))) [PK],
      Col (nn (col ''user_id'' UUID_T)) [IX],
      Col (nn (col ''worker_id'' (VARCHAR 255))) [],
      Col (col ''handlers'' JSONB_T) [],
      Col (dflt Now (nn (col ''last_heartbeat'' TIMESTAMPTZ))) [],
      Col (dflt Now (nn (col ''created_at'' TIMESTAMPTZ))) [],
      Con ''unique_user_worker'' (Unique [''user_id'', ''worker_id''])])]"

definition downgrade_007 :: "step list" where
  "downgrade_007 =
  [Do (DropTable ''workers''),
   Do (DropColumn ''executions'' ''claimed_at''),
   Do (DropColumn ''executions'' ''claimed_by_worker''),
   Do (DropConstraint ''valid_callback_transport'' ''cues''),
   Do (DropColumn ''cues'' ''callback_transport''),
   Do (AlterNull ''cues'' ''callback_url'' False)]"

subsection \<open>\<open>008_add_webhook_secret.py\<close>\<close>

text \<open>
  The secrets of revision 008: \<open>token\<close> is the random text of the n-th row.
\<close>

definition fill_secrets :: "(nat \<Rightarrow> string) \<Rightarrow> row list \<Rightarrow> sql_value list" where
  "fill_secrets token rows =
     map2 (\<lambda>i r. if cell r ''webhook_secret'' = SNull then SText (''whsec_'' @ token i) else cell r ''webhook_secret'') [0..<length rows] rows"

definition upgrade_008 :: "(nat \<Rightarrow> string) \<Rightarrow> step list" where
  "upgrade_008 token =
  [Do (AddColumn ''users'' (col ''webhook_secret'' (VARCHAR 80))),
   Do (Backfill ''users'' ''webhook_secret'' (fill_secrets token)),
   Do (AlterNull ''users'' ''webhook_secret'' False)]"

definition downgrade_008 :: "step list" where
  "downgrade_008 =
  [Do (DropColumn ''users'' ''webhook_secret'')]"

subsection \<open>\<open>009_fired_count_and_missed_status.py\<close>\<close>

definition upgrade_009 :: "step list" where
  "upgrade_009 =
  [Do (AddColumn ''cues'' (dflt (Lit (SInt 0)) (nn (col ''fired_count'' INTEGER_T)))),
   Do (DropConstraint ''valid_exec_status'' ''executions''),
   Do (CreateConstraint ''valid_exec_status'' ''executions'' (Check (CIn ''status'' [''pending'', ''delivering'', ''success'', ''failed'',
       ''retrying'', ''retry_ready'', ''missed''])))]"

definition downgrade_009 :: "step list" where
  "downgrade_009 =
  [Do (DropColumn ''cues'' ''fired_count''),
   Do (DropConstraint ''valid_exec_status'' ''executions''),
   Do (CreateConstraint ''valid_exec_status'' ''executions'' (Check (CIn ''status'' [''pending'', ''delivering'', ''success'', ''failed'',
       ''retrying'', ''retry_ready''])))]"

subsection \<open>\<open>010_unique_user_cue_name.py\<close>\<close>

definition upgrade_010 :: "step list" where
  "upgrade_010 =
  [Do (CreateConstraint ''unique_user_cue_name'' ''cues'' (Unique [''user_id'', ''name'']))]"

definition downgrade_010 :: "step list" where
  "downgrade_010 =
  [Do (DropConstraint ''unique_user_cue_name'' ''cues'')]"

subsection \<open>\<open>011_add_blog_posts.py\<close>\<close>

definition upgrade_011 :: "step list" where
  "upgrade_011 =
  [Do (CreateTable ''blog_posts''
     [Col (dflt GenRandomUuid (nn (col ''id'' UUID_T))) [],
      Col (nn (col ''title'' TEXT_T)) [],
      Col (nn (col ''slug'' TEXT_T)) [],
      Col (nn (col ''content'' TEXT_T)) [],
      Col (col ''description'' TEXT_T) [],
      Col (col ''seo_title'' TEXT_T) [],
      Col (col ''seo_description'' TEXT_T) [],
      Col (col ''category'' TEXT_T) [],
      Col (dflt (Lit (SText ''Govind Kavaturi'')) (col ''author'' TEXT_T)) [],
      Col (col ''date'' DATE_T) [],
      Col (col ''read_time'' TEXT_T) [],
      Col (col ''image_url'' TEXT_T) [],
      Col (col ''image_alt'' TEXT_T) [],
      Col (col ''tags'' TEXT_ARRAY) [],
      Col (col ''keywords'' TEXT_ARRAY) [],
      Col (dflt (Lit (SBool False)) (nn (col ''published'' BOOLEAN_T))) [],
      Col (dflt Now (nn (col ''created_at'' TIMESTAMPTZ))) [],
      Con ''blog_posts_pkey'' (PrimaryKey [''id'']),
      Con ''unique_blog_slug'' (Unique [''slug'']),
      Con ''valid_blog_category'' (Check (COr (CIsNull ''category'') (CIn ''category'' [''tutorial'', ''guide'', ''blog''])))]),
   Do (CreateIndex ''ix_blog_posts_slug'' (idx ''blog_posts'' [''slug''] [] False None) False),
   Do (CreateIndex ''ix_blog_posts_published'' (idx ''blog_posts'' [''published''] [] False None) False)]"

definition downgrade_011 :: "step list" where
  "downgrade_011 =
  [Do (DropIndex ''ix_blog_posts_published'' False),
   Do (DropIndex ''ix_blog_posts_slug'' False),
   Do (DropTable ''blog_posts'')]"

subsection \<open>\<open>012_add_content_trends.py\<close>\<close>

definition upgrade_012 :: "step list" where
  "upgrade_012 =
  [Do (CreateTable ''content_trends''
     [Col (dflt GenRandomUuid (nn (col ''id'' UUID_T))) [PK],
      Col (nn (col ''scan_date'' DATE_T)) [],
      Col (nn (col ''topics'' JSONB_T)) [],
      Col (col ''backlog_pick'' JSONB_T) [],
      Col (dflt (Lit (SText ''pending'')) (nn (col ''status'' TEXT_T))) [],
      Col (dflt Now (nn (col ''created_at'' TIMESTAMPTZ))) []]),
   Do (CreateIndex ''ix_content_trends_scan_date'' (idx ''content_trends'' [''scan_date''] [] True None) False)]"

definition downgrade_012 :: "step list" where
  "downgrade_012 =
  [Do (DropIndex ''ix_content_trends_scan_date'' False),
   Do (DropTable ''content_trends'')]"

subsection \<open>\<open>013_add_blog_image_data.py\<close>\<close>

definition upgrade_013 :: "step list" where
  "upgrade_013 =
  [Do (AddColumn ''blog_posts'' (col ''image_data'' TEXT_T))]"

definition downgrade_013 :: "step list" where
  "downgrade_013 =
  [Do (DropColumn ''blog_posts'' ''image_data'')]"

subsection \<open>\<open>014_add_support_tickets.py\<close>\<close>

definition upgrade_014 :: "step list" where
  "upgrade_014 =
  [Do (CreateTable ''support_tickets''
     [Col (dflt GenRandomUuid (nn (col ''id'' UUID_T))) [PK],
      Col (nn (col ''user_id'' UUID_T)) [IX, FK ''users'' ''id'' ''NO ACTION''],
      Col (col ''github_issue_number'' INTEGER_T) [],
      Col (col ''github_issue_url'' TEXT_T) [],
      Col (nn (col ''subject'' TEXT_T)) [],
      Col (nn (col ''message'' TEXT_T)) [],
      Col (dflt (Lit (SText ''medium'')) (nn (col ''severity'' TEXT_T))) [],
      Col (dflt (Lit (SText ''bug'')) (nn (col ''type'' TEXT_T))) [],
      Col (dflt (Lit (SText ''open'')) (nn (col ''status'' TEXT_T))) [],
      Col (dflt Now (nn (col ''created_at'' TIMESTAMPTZ))) []])]"

definition downgrade_014 :: "step list" where
  "downgrade_014 =
  [Do (DropTable ''support_tickets'')]"

subsection \<open>\<open>015_widen_device_code_column.py\<close>\<close>

definition upgrade_015 :: "step list" where
  "upgrade_015 =
  [Do (AlterType ''device_codes'' ''device_code'' (VARCHAR 128))]"

definition downgrade_015 :: "step list" where
  "downgrade_015 =
  [Do (AlterType ''device_codes'' ''device_code'' (VARCHAR 10))]"

subsection \<open>\<open>016_add_on_failure_column.py\<close>\<close>

definition upgrade_016 :: "step list" where
  "upgrade_016 =
  [Do (AddColumn ''cues'' (dflt (Lit (SJson (JObj [(''email'', JBool True), (''webhook'', JNull), (''pause'', JBool False)]))) (col ''on_failure''
       JSONB_T)))]"

definition downgrade_016 :: "step list" where
  "downgrade_016 =
  [Do (DropColumn ''cues'' ''on_failure'')]"

subsection \<open>\<open>017_add_verification_mode.py\<close>\<close>

definition upgrade_017 :: "step list" where
  "upgrade_017 =
  [Do (AddColumn ''cues'' (col ''verification_mode'' (VARCHAR 50))),
   Do (CreateConstraint ''valid_verification_mode'' ''cues'' (Check (COr (CIsNull ''verification_mode'') (CIn ''verification_mode'' [''none'',
       ''require_external_id'', ''require_result_url'', ''require_artifacts'', ''manual'']))))]"

definition downgrade_017 :: "step list" where
  "downgrade_017 =
  [Do (DropConstraint ''valid_verification_mode'' ''cues''),
   Do (DropColumn ''cues'' ''verification_mode'')]"

subsection \<open>\<open>018_add_alerts_table.py\<close>\<close>

definition upgrade_018 :: "step list" where
  "upgrade_018 =
  [Do (CreateTable ''alerts''
     [Col (nn (col ''id'' UUID_T)) [PK],
      Col (nn (col ''user_id'' UUID_T)) [],
      Col (col ''cue_id'' (VARCHAR 20)) [],
      Col (col ''execution_id'' UUID_T) [],
      Col (nn (col ''alert_type'' (VARCHAR 50))) [],
      Col (dflt (Lit (SText ''warning'')) (nn (col ''severity'' (VARCHAR 20)))) [],
      Col (nn (col ''message'' TEXT_T)) [],
      Col (col ''metadata'' JSONB_T) [],
      Col (dflt (Lit (SBool False)) (nn (col ''acknowledged'' BOOLEAN_T))) [],
      Col (dflt Now (nn (col ''created_at'' TIMESTAMPTZ))) [],
      Con ''valid_alert_type'' (Check (CIn ''alert_type'' [''outcome_timeout'', ''verification_failed'', ''consecutive_failures''])),
      Con ''valid_alert_severity'' (Check (CIn ''severity'' [''info'', ''warning'', ''critical'']))]),
   Do (CreateIndex ''ix_alerts_user_id'' (idx ''alerts'' [''user_id''] [] False None) False),
   Do (CreateIndex ''ix_alerts_user_created'' (idx ''alerts'' [''user_id'', ''created_at''] [] False None) False),
   Do (CreateIndex ''ix_alerts_execution_id'' (idx ''alerts'' [''execution_id''] [] False None) False)]"

definition downgrade_018 :: "step list" where
  "downgrade_018 =
  [Do (DropIndex ''ix_alerts_execution_id'' False),
   Do (DropIndex ''ix_alerts_user_created'' False),
   Do (DropIndex ''ix_alerts_user_id'' False),
   Do (DropTable ''alerts'')]"

subsection \<open>\<open>019_add_user_alert_webhook.py\<close>\<close>

definition upgrade_019 :: "step list" where
  "upgrade_019 =
  [Do (AddColumn ''users'' (col ''alert_webhook_url'' (VARCHAR 2048))),
   Do (AddColumn ''users'' (col ''alert_webhook_secret'' (VARCHAR 64)))]"

definition downgrade_019 :: "step list" where
  "downgrade_019 =
  [Do (DropColumn ''users'' ''alert_webhook_secret''),
   Do (DropColumn ''users'' ''alert_webhook_url'')]"

subsection \<open>\<open>020_messaging_identity.py\<close>\<close>

text \<open>
  The slugs of revision 020: the first user of a base slug, by creation time and id, keeps it; the
  others get the first four digits of their id.
\<close>

definition base_slug :: "row \<Rightarrow> string" where
  "base_slug r = (case cell r ''email'' of SText e \<Rightarrow> normalize (takeWhile (\<lambda>c. c \<noteq> CHR ''@'') e) ''user'' | _ \<Rightarrow> ''user'')"

definition sort_value :: "sql_value \<Rightarrow> int" where
  "sort_value v = (case v of STime t \<Rightarrow> t | SUuid n \<Rightarrow> int n | _ \<Rightarrow> 0)"

definition before_row :: "row \<Rightarrow> row \<Rightarrow> bool" where
  "before_row r s \<longleftrightarrow>
     (let a = sort_value (cell r ''created_at''); b = sort_value (cell s ''created_at'')
      in a < b \<or> a = b \<and> sort_value (cell r ''id'') < sort_value (cell s ''id''))"

definition id_prefix :: "row \<Rightarrow> string" where
  "id_prefix r = (case cell r ''id'' of SUuid n \<Rightarrow> take 4 (uuid_str n) | _ \<Rightarrow> [])"

definition fill_slugs :: "row list \<Rightarrow> sql_value list" where
  "fill_slugs rows =
     map (\<lambda>r. SText (if list_ex (\<lambda>s. base_slug s = base_slug r \<and> before_row s r) rows
       then base_slug r @ ''-'' @ id_prefix r else base_slug r)) rows"

definition upgrade_020 :: "step list" where
  "upgrade_020 =
  [Do (AddColumn ''users'' (col ''slug'' (VARCHAR 64))),
   Do (Backfill ''users'' ''slug'' fill_slugs),
   Do (AlterNull ''users'' ''slug'' False),
   Do (CreateConstraint ''unique_user_slug'' ''users'' (Unique [''slug''])),
   Do (CreateTable ''agents''
     [Col (nn (col ''id'' (VARCHAR 20))) [PK],
      Col (nn (col ''user_id'' UUID_T)) [IX, FK ''users'' ''id'' ''CASCADE''],
      Col (nn (col ''slug'' (VARCHAR 64))) [],
      Col (nn (col ''display_name'' (VARCHAR 255))) [],
      Col (col ''webhook_url'' TEXT_T) [],
      Col (col ''webhook_secret'' (VARCHAR 80)) [],
      Col (dflt (Lit (SJson (JObj []))) (nn (col ''agent_metadata'' JSONB_T))) [],
      Col (dflt (Lit (SText ''online'')) (nn (col ''status'' (VARCHAR 16)))) [],
      Col (col ''deleted_at'' TIMESTAMPTZ) [],
      Col (dflt Now (nn (col ''created_at'' TIMESTAMPTZ))) [],
      Col (dflt Now (nn (col ''updated_at'' TIMESTAMPTZ))) [],
      Con ''unique_user_agent_slug'' (Unique [''user_id'', ''slug'']),
      Con ''valid_agent_status'' (Check (CIn ''status'' [''online'', ''offline'', ''away''])),
      Con ''agent_webhook_url_secret_paired'' (Check (CSamePresence ''webhook_url'' ''webhook_secret''))]),
   Do (CreateIndex ''ix_agents_user_status_active'' (idx ''agents'' [''user_id'', ''status''] [] False (Some (CIsNull ''deleted_at''))) False),
   Do (CreateIndex ''ix_agents_slug'' (idx ''agents'' [''slug''] [] False None) False)]"

definition downgrade_020 :: "step list" where
  "downgrade_020 =
  [Do (DropIndex ''ix_agents_slug'' False),
   Do (DropIndex ''ix_agents_user_status_active'' True),
   Do (DropTable ''agents''),
   Do (DropConstraint ''unique_user_slug'' ''users''),
   Do (AlterNull ''users'' ''slug'' True),
   Do (DropColumn ''users'' ''slug'')]"

subsection \<open>\<open>021_messaging_messages.py\<close>\<close>

definition upgrade_021 :: "step list" where
  "upgrade_021 =
  [Do (AddColumn ''users'' (dflt (Lit (SInt 300)) (nn (col ''monthly_message_limit'' INTEGER_T)))),
   Do (CreateTable ''usage_messages_monthly''
     [Col (dflt Serial (nn (col ''id'' INTEGER_T))) [PK],
      Col (nn (col ''user_id'' UUID_T)) [IX, FK ''users'' ''id'' ''CASCADE''],
      Col (nn (col ''month_start'' DATE_T)) [],
      Col (dflt (Lit (SInt 0)) (nn (col ''message_count'' INTEGER_T))) [],
      Con ''unique_user_month_messages'' (Unique [''user_id'', ''month_start''])]),
   Do (CreateTable ''messages''
     [Col (nn (col ''id'' (VARCHAR 20))) [PK],
      Col (nn (col ''user_id'' UUID_T)) [IX, FK ''users'' ''id'' ''CASCADE''],
      Col (nn (col ''from_agent_id'' (VARCHAR 20))) [IX, FK ''agents'' ''id'' ''SET NULL''],
      Col (nn (col ''to_agent_id'' (VARCHAR 20))) [IX, FK ''agents'' ''id'' ''SET NULL''],
      Col (nn (col ''thread_id'' (VARCHAR 20))) [IX],
      Col (col ''reply_to'' (VARCHAR 20)) [FK ''messages'' ''id'' ''SET NULL''],
      Col (col ''subject'' (VARCHAR 255)) [],
      Col (nn (col ''body'' TEXT_T)) [],
      Col (dflt (Lit (SText '''')) (nn (col ''preview'' (VARCHAR 256)))) [],
      Col (dflt (Lit (SInt 3)) (nn (col ''priority'' SMALLINT_T))) [],
      Col (dflt (Lit (SBool False)) (nn (col ''expects_reply'' BOOLEAN_T))) [],
      Col (col ''reply_to_agent_id'' (VARCHAR 20)) [FK ''agents'' ''id'' ''SET NULL''],
      Col (dflt (Lit (SText ''queued'')) (nn (col ''delivery_state'' (VARCHAR 16)))) [],
      Col (dflt (Lit (SJson (JObj []))) (nn (col ''message_metadata'' JSONB_T))) [],
      Col (col ''idempotency_key'' (VARCHAR 255)) [],
      Col (col ''idempotency_fingerprint'' (VARCHAR 64)) [],
      Col (dflt Now (nn (col ''created_at'' TIMESTAMPTZ))) [],
      Col (col ''delivered_at'' TIMESTAMPTZ) [],
      Col (col ''read_at'' TIMESTAMPTZ) [],
      Col (col ''acked_at'' TIMESTAMPTZ) [],
      Col (col ''failed_at'' TIMESTAMPTZ) [],
      Col (dflt (NowPlusDays 30) (nn (col ''expires_at'' TIMESTAMPTZ))) [],
      Con ''valid_priority'' (Check (CBetween ''priority'' 1 5)),
      Con ''valid_delivery_state'' (Check (CIn ''delivery_state'' [''queued'', ''delivering'', ''retry_ready'', ''delivered'', ''read'', ''claimed'',
          ''acked'', ''expired'', ''failed''])),
      Con ''body_size_limit'' (Check (COctets ''body'' 32768))]),
   Do (CreateIndex ''ix_messages_inbox'' (idx ''messages'' [''to_agent_id'', ''delivery_state'', ''created_at''] [''created_at''] False None) False),
   Do (CreateIndex ''ix_messages_sent'' (idx ''messages'' [''from_agent_id'', ''created_at''] [''created_at''] False None) False),
   Do (CreateIndex ''ix_messages_thread'' (idx ''messages'' [''thread_id'', ''created_at''] [] False None) False),
   Do (CreateIndex ''unique_user_idempotency_key'' (idx ''messages'' [''user_id'', ''idempotency_key''] [] True (Some (CNotNull ''idempotency_key'')))
       False),
   Do (AlterNull ''dispatch_outbox'' ''execution_id'' True),
   Do (AlterNull ''dispatch_outbox'' ''cue_id'' True),
   Do (DropConstraint ''valid_task_type'' ''dispatch_outbox''),
   Do (CreateConstraint ''valid_task_type'' ''dispatch_outbox'' (Check (CIn ''task_type'' [''deliver'', ''retry'', ''deliver_message'',
       ''retry_message'']))),
   Do (CreateConstraint ''task_payload_shape'' ''dispatch_outbox'' (Check (COr (CAnd (CIn ''task_type'' [''deliver'', ''retry'']) (CNotNull
       ''execution_id'')) (CAnd (CIn ''task_type'' [''deliver_message'', ''retry_message'']) (CHasKey ''payload'' ''message_id'')))))]"

definition downgrade_021 :: "step list" where
  "downgrade_021 =
  [Do (DropConstraint ''task_payload_shape'' ''dispatch_outbox''),
   Do (DropConstraint ''valid_task_type'' ''dispatch_outbox''),
   Do (CreateConstraint ''valid_task_type'' ''dispatch_outbox'' (Check (CIn ''task_type'' [''deliver'', ''retry'']))),
   Do (AlterNull ''dispatch_outbox'' ''execution_id'' False),
   Do (AlterNull ''dispatch_outbox'' ''cue_id'' False),
   Do (DropIndex ''unique_user_idempotency_key'' True),
   Do (DropIndex ''ix_messages_thread'' False),
   Do (DropIndex ''ix_messages_sent'' False),
   Do (DropIndex ''ix_messages_inbox'' False),
   Do (DropTable ''messages''),
   Do (DropTable ''usage_messages_monthly''),
   Do (DropColumn ''users'' ''monthly_message_limit'')]"

subsection \<open>\<open>022_messaging_push_retry_columns.py\<close>\<close>

definition upgrade_022 :: "step list" where
  "upgrade_022 =
  [Do (AddColumn ''dispatch_outbox'' (col ''scheduled_at'' TIMESTAMPTZ)),
   Do (CreateIndex ''idx_outbox_scheduled'' (idx ''dispatch_outbox'' [''scheduled_at''] [] False (Some (CAnd (CBool ''dispatched'' False) (CNotNull
       ''scheduled_at'')))) False),
   Do (AddColumn ''messages'' (col ''delivering_started_at'' TIMESTAMPTZ)),
   Do (CreateIndex ''idx_messages_delivering_started'' (idx ''messages'' [''delivering_started_at''] [] False (Some (CAnd (CIn ''delivery_state''
       [''delivering'']) (CNotNull ''delivering_started_at'')))) False)]"

definition downgrade_022 :: "step list" where
  "downgrade_022 =
  [Do (DropIndex ''idx_messages_delivering_started'' False),
   Do (DropColumn ''messages'' ''delivering_started_at''),
   Do (DropIndex ''idx_outbox_scheduled'' False),
   Do (DropColumn ''dispatch_outbox'' ''scheduled_at'')]"

subsection \<open>\<open>023_messaging_primitive_multi_shell.py\<close>\<close>

definition upgrade_023 :: "step list" where
  "upgrade_023 =
  [Do (CreateTable ''agent_shells''
     [Col (nn (col ''id'' (VARCHAR 20))) [PK],
      Col (nn (col ''agent_id'' (VARCHAR 20))) [IX, FK ''agents'' ''id'' ''CASCADE''],
      Col (nn (col ''user_id'' UUID_T)) [IX, FK ''users'' ''id'' ''CASCADE''],
      Col (col ''webhook_url'' TEXT_T) [],
      Col (col ''webhook_secret'' (VARCHAR 80)) [],
      Col (col ''label'' (VARCHAR 128)) [],
      Col (dflt (Lit (SText ''online'')) (nn (col ''status'' (VARCHAR 16)))) [],
      Col (dflt Now (nn (col ''last_heartbeat_at'' TIMESTAMPTZ))) [],
      Col (dflt Now (nn (col ''registered_at'' TIMESTAMPTZ))) [],
      Con ''valid_shell_status'' (Check (CIn ''status'' [''online'', ''offline'', ''away''])),
      Con ''shell_webhook_url_secret_paired'' (Check (CSamePresence ''webhook_url'' ''webhook_secret''))]),
   Do (CreateIndex ''ix_agent_shells_active'' (idx ''agent_shells'' [''agent_id'', ''status'', ''last_heartbeat_at''] [] False None) False)]"

definition downgrade_023 :: "step list" where
  "downgrade_023 =
  [Do (DropIndex ''ix_agent_shells_active'' False),
   Do (DropTable ''agent_shells'')]"

subsection \<open>\<open>024_messaging_counterpart_indexes.py\<close>\<close>

definition upgrade_024 :: "step list" where
  "upgrade_024 =
  [Auto
     [CreateIndex ''idx_messages_inbox_counterpart'' (idx ''messages'' [''to_agent_id'', ''from_agent_id'', ''created_at''] [] False None) True,
      CreateIndex ''idx_messages_sent_counterpart'' (idx ''messages'' [''from_agent_id'', ''to_agent_id'', ''created_at''] [] False None) True]]"

definition downgrade_024 :: "step list" where
  "downgrade_024 =
  [Auto
     [DropIndex ''idx_messages_sent_counterpart'' True,
      DropIndex ''idx_messages_inbox_counterpart'' True]]"

subsection \<open>\<open>025_users_external_owner.py\<close>\<close>

definition upgrade_025 :: "step list" where
  "upgrade_025 =
  [Do (AddColumn ''users'' (col ''external_owner'' (VARCHAR 64)))]"

definition downgrade_025 :: "step list" where
  "downgrade_025 =
  [Do (DropColumn ''users'' ''external_owner'')]"

subsection \<open>\<open>026_agent_live_sessions_replaces_shells.py\<close>\<close>

definition upgrade_026 :: "step list" where
  "upgrade_026 =
  [Do (DropIndex ''ix_agent_shells_active'' False),
   Do (DropTable ''agent_shells''),
   Do (CreateTable ''agent_live_sessions''
     [Col (dflt GenRandomUuid (nn (col ''id'' UUID_T))) [PK],
      Col (nn (col ''agent_id'' (VARCHAR 20))) [FK ''agents'' ''id'' ''CASCADE''],
      Col (nn (col ''label'' TEXT_T)) [],
      Col (nn (col ''cue_id'' TEXT_T)) [],
      Col (nn (col ''task_name'' TEXT_T)) [],
      Col (dflt (Lit (SBool False)) (nn (col ''is_default'' BOOLEAN_T))) [],
      Col (col ''attached_at'' TIMESTAMPTZ) [],
      Col (col ''detached_at'' TIMESTAMPTZ) [],
      Col (col ''last_heartbeat'' TIMESTAMPTZ) [],
      Col (col ''last_claim_at'' TIMESTAMPTZ) [],
      Col (col ''monitor_version'' TEXT_T) [],
      Col (col ''session_token'' (VARCHAR 80)) [],
      Col (dflt Now (nn (col ''created_at'' TIMESTAMPTZ))) []]),
   Auto
     [CreateIndex ''ix_agent_live_sessions_cue_id'' (idx ''agent_live_sessions'' [''cue_id''] [] True None) True,
      CreateIndex ''ix_agent_live_sessions_active'' (idx ''agent_live_sessions'' [''agent_id'', ''last_heartbeat''] [] False (Some (CIsNull
          ''detached_at''))) True,
      CreateIndex ''ux_agent_live_sessions_one_default_per_agent'' (idx ''agent_live_sessions'' [''agent_id''] [] True (Some (CAnd (CBool
          ''is_default'' True) (CIsNull ''detached_at'')))) True,
      CreateIndex ''ux_agent_live_sessions_label_per_agent'' (idx ''agent_live_sessions'' [''agent_id'', ''label''] [] True (Some (CIsNull
          ''detached_at''))) True]]"

definition downgrade_026 :: "step list" where
  "downgrade_026 =
  [Auto
     [DropIndex ''ux_agent_live_sessions_label_per_agent'' True,
      DropIndex ''ux_agent_live_sessions_one_default_per_agent'' True,
      DropIndex ''ix_agent_live_sessions_active'' True,
      DropIndex ''ix_agent_live_sessions_cue_id'' True],
   Do (DropTable ''agent_live_sessions''),
   Do (CreateTable ''agent_shells''
     [Col (nn (col ''id'' (VARCHAR 20))) [PK],
      Col (nn (col ''agent_id'' (VARCHAR 20))) [IX, FK ''agents'' ''id'' ''CASCADE''],
      Col (nn (col ''user_id'' UUID_T)) [IX, FK ''users'' ''id'' ''CASCADE''],
      Col (col ''webhook_url'' TEXT_T) [],
      Col (col ''webhook_secret'' (VARCHAR 80)) [],
      Col (col ''label'' (VARCHAR 128)) [],
      Col (dflt (Lit (SText ''online'')) (nn (col ''status'' (VARCHAR 16)))) [],
      Col (dflt Now (nn (col ''last_heartbeat_at'' TIMESTAMPTZ))) [],
      Col (dflt Now (nn (col ''registered_at'' TIMESTAMPTZ))) [],
      Con ''valid_shell_status'' (Check (CIn ''status'' [''online'', ''offline'', ''away''])),
      Con ''shell_webhook_url_secret_paired'' (Check (CSamePresence ''webhook_url'' ''webhook_secret''))]),
   Do (CreateIndex ''ix_agent_shells_active'' (idx ''agent_shells'' [''agent_id'', ''status'', ''last_heartbeat_at''] [] False None) False)]"

subsection \<open>\<open>027_executions_live_claim_attestation.py\<close>\<close>

definition upgrade_027 :: "step list" where
  "upgrade_027 =
  [Do (AddColumn ''executions'' (col ''live_claim_session_token'' (VARCHAR 128))),
   Do (AddColumn ''executions'' (col ''live_claimed_at'' TIMESTAMPTZ))]"

definition downgrade_027 :: "step list" where
  "downgrade_027 =
  [Do (DropColumn ''executions'' ''live_claimed_at''),
   Do (DropColumn ''executions'' ''live_claim_session_token'')]"

subsection \<open>\<open>028_event_emit_primitive.py\<close>\<close>

definition upgrade_028 :: "step list" where
  "upgrade_028 =
  [Do (CreateTable ''events''
     [Col (dflt Serial (nn (col ''id'' BIGINT_T))) [PK],
      Col (nn (col ''event_type'' TEXT_T)) [],
      Col (nn (col ''recipient_agent_id'' (VARCHAR 20))) [FK ''agents'' ''id'' ''CASCADE''],
      Col (dflt (Lit (SJson (JObj []))) (nn (col ''payload'' JSONB_T))) [],
      Col (dflt Now (nn (col ''emitted_at'' TIMESTAMPTZ))) [],
      Col (col ''idempotency_key'' TEXT_T) []]),
   Do (CreateTable ''subscriptions''
     [Col (dflt GenRandomUuid (nn (col ''id'' UUID_T))) [PK],
      Col (nn (col ''subscriber_agent_id'' (VARCHAR 20))) [FK ''agents'' ''id'' ''CASCADE''],
      Col (nn (col ''event_type'' TEXT_T)) [],
      Col (nn (col ''delivery_target'' TEXT_T)) [],
      Col (col ''webhook_url'' TEXT_T) [],
      Col (col ''webhook_secret'' TEXT_T) [],
      Col (col ''last_dispatched_event_id'' BIGINT_T) [],
      Col (col ''last_dispatched_at'' TIMESTAMPTZ) [],
      Col (dflt (Lit (SInt 0)) (nn (col ''consecutive_failures'' INTEGER_T))) [],
      Col (col ''paused_until'' TIMESTAMPTZ) [],
      Col (dflt Now (nn (col ''created_at'' TIMESTAMPTZ))) [],
      Col (col ''detached_at'' TIMESTAMPTZ) [],
      Con ''subscriptions_delivery_target_check'' (Check (CIn ''delivery_target'' [''pull'', ''webhook''])),
      Con ''subscriptions_webhook_url_check'' (Check (COr (CAnd (CIn ''delivery_target'' [''pull'']) (CIsNull ''webhook_url'')) (CAnd (CIn
          ''delivery_target'' [''webhook'']) (CNotNull ''webhook_url''))))]),
   Auto
     [CreateIndex ''ix_events_recipient_id_cursor'' (idx ''events'' [''recipient_agent_id'', ''id''] [] False None) True,
      CreateIndex ''ux_events_idempotency_key'' (idx ''events'' [''event_type'', ''idempotency_key''] [] True (Some (CNotNull ''idempotency_key'')))
          True,
      CreateIndex ''ix_events_emitted_at'' (idx ''events'' [''emitted_at''] [] False None) True,
      CreateIndex ''ux_subscriptions_active_unique'' (idx ''subscriptions'' [''subscriber_agent_id'', ''event_type'', ''delivery_target''] [] True
          (Some (CIsNull ''detached_at''))) True,
      CreateIndex ''ix_subscriptions_dispatch_due'' (idx ''subscriptions'' [''last_dispatched_event_id''] [] False (Some (CAnd (CIn
          ''delivery_target'' [''webhook'']) (CIsNull ''detached_at'')))) True]]"

definition downgrade_028 :: "step list" where
  "downgrade_028 =
  [Auto
     [DropIndex ''ix_subscriptions_dispatch_due'' True,
      DropIndex ''ux_subscriptions_active_unique'' True,
      DropIndex ''ix_events_emitted_at'' True,
      DropIndex ''ux_events_idempotency_key'' True,
      DropIndex ''ix_events_recipient_id_cursor'' True],
   Do (DropTable ''subscriptions''),
   Do (DropTable ''events'')]"

subsection \<open>\<open>029_messaging_emission_columns.py\<close>\<close>

definition upgrade_029 :: "step list" where
  "upgrade_029 =
  [Do (AddColumn ''messages'' (dflt (Lit (SInt 3)) (nn (col ''dispatch_priority_bucket'' SMALLINT_T)))),
   Do (AddColumn ''messages'' (col ''message_dispatch_error'' TEXT_T)),
   Do (AddColumn ''messages'' (col ''correlation_id'' (VARCHAR 255))),
   Auto
     [CreateIndex ''ix_messages_correlation_id'' (idx ''messages'' [''correlation_id''] [] False (Some (CNotNull ''correlation_id''))) True]]"

definition downgrade_029 :: "step list" where
  "downgrade_029 =
  [Auto
     [DropIndex ''ix_messages_correlation_id'' True],
   Do (DropColumn ''messages'' ''correlation_id''),
   Do (DropColumn ''messages'' ''message_dispatch_error''),
   Do (DropColumn ''messages'' ''dispatch_priority_bucket'')]"

subsection \<open>\<open>030_message_send_at.py\<close>\<close>

definition upgrade_030 :: "step list" where
  "upgrade_030 =
  [Do (AddColumn ''messages'' (col ''send_at'' TIMESTAMPTZ)),
   Auto
     [CreateIndex ''ix_messages_send_at'' (idx ''messages'' [''send_at''] [] False (Some (CNotNull ''send_at''))) True]]"

definition downgrade_030 :: "step list" where
  "downgrade_030 =
  [Auto
     [DropIndex ''ix_messages_send_at'' True],
   Do (DropColumn ''messages'' ''send_at'')]"

subsection \<open>\<open>031_agents_last_seen_at.py\<close>\<close>

definition upgrade_031 :: "step list" where
  "upgrade_031 =
  [Do (AddColumn ''agents'' (col ''last_seen_at'' TIMESTAMPTZ))]"

definition downgrade_031 :: "step list" where
  "downgrade_031 =
  [Do (DropColumn ''agents'' ''last_seen_at'')]"

subsection \<open>\<open>032_events_digested_at.py\<close>\<close>

definition upgrade_032 :: "step list" where
  "upgrade_032 =
  [Do (AddColumn ''events'' (col ''digested_at'' TIMESTAMPTZ)),
   Auto
     [CreateIndex ''ix_events_undigested'' (idx ''events'' [''recipient_agent_id''] [] False (Some (CIsNull ''digested_at''))) True]]"

definition downgrade_032 :: "step list" where
  "downgrade_032 =
  [Auto
     [DropIndex ''ix_events_undigested'' True],
   Do (DropColumn ''events'' ''digested_at'')]"

subsection \<open>\<open>033_subscriptions_inline_body.py\<close>\<close>

definition upgrade_033 :: "step list" where
  "upgrade_033 =
  [Do (AddColumn ''subscriptions'' (dflt (Lit (SBool False)) (nn (col ''inline_body'' BOOLEAN_T))))]"

definition downgrade_033 :: "step list" where
  "downgrade_033 =
  [Do (DropColumn ''subscriptions'' ''inline_body'')]"

subsection \<open>\<open>034_subscriptions_last_acked_event_id.py\<close>\<close>

definition upgrade_034 :: "step list" where
  "upgrade_034 =
  [Do (AddColumn ''subscriptions'' (col ''last_acked_event_id'' BIGINT_T))]"

definition downgrade_034 :: "step list" where
  "downgrade_034 =
  [Do (DropColumn ''subscriptions'' ''last_acked_event_id'')]"

subsection \<open>\<open>035_agent_live_sessions_ipc_attachment.py\<close>\<close>

definition upgrade_035 :: "step list" where
  "upgrade_035 =
  [Do (AddColumn ''agent_live_sessions'' (col ''ipc_session_token'' (VARCHAR 32))),
   Do (AddColumn ''agent_live_sessions'' (dflt (Lit (SText ''poll'')) (nn (col ''transport'' (VARCHAR 8))))),
   Do (AddColumn ''agent_live_sessions'' (col ''daemon_id'' UUID_T)),
   Do (AddColumn ''agent_live_sessions'' (col ''last_reconciled_at'' TIMESTAMPTZ)),
   Do (CreateConstraint ''valid_transport'' ''agent_live_sessions'' (Check (CIn ''transport'' [''ipc'', ''poll'']))),
   Do (CreateIndex ''ix_agent_live_sessions_daemon'' (idx ''agent_live_sessions'' [''daemon_id''] [] False None) False),
   Do (CreateIndex ''ix_agent_live_sessions_transport'' (idx ''agent_live_sessions'' [''transport'', ''last_reconciled_at''] [] False None) False)]"

definition downgrade_035 :: "step list" where
  "downgrade_035 =
  [Do (DropIndex ''ix_agent_live_sessions_transport'' False),
   Do (DropIndex ''ix_agent_live_sessions_daemon'' False),
   Do (DropConstraint ''valid_transport'' ''agent_live_sessions''),
   Do (DropColumn ''agent_live_sessions'' ''last_reconciled_at''),
   Do (DropColumn ''agent_live_sessions'' ''daemon_id''),
   Do (DropColumn ''agent_live_sessions'' ''transport''),
   Do (DropColumn ''agent_live_sessions'' ''ipc_session_token'')]"

subsection \<open>The chain of revisions\<close>

record revision =
  rv_revision :: string
  rv_down :: "string option"
  rv_upgrade :: "step list"
  rv_downgrade :: "step list"

definition revision :: "string \<Rightarrow> string option \<Rightarrow> step list \<Rightarrow> step list \<Rightarrow> revision" where
  "revision r d u dn = \<lparr>rv_revision = r, rv_down = d, rv_upgrade = u, rv_downgrade = dn\<rparr>"

definition revisions :: "(nat \<Rightarrow> string) \<Rightarrow> revision list" where
  "revisions token =
    [revision ''001'' None upgrade_001 downgrade_001,
     revision ''002'' (Some ''001'') upgrade_002 downgrade_002,
     revision ''003'' (Some ''002'') upgrade_003 downgrade_003,
     revision ''004'' (Some ''003'') upgrade_004 downgrade_004,
     revision ''005'' (Some ''004'') upgrade_005 downgrade_005,
     revision ''006'' (Some ''005'') upgrade_006 downgrade_006,
     revision ''007'' (Some ''006'') upgrade_007 downgrade_007,
     revision ''008'' (Some ''007'') (upgrade_008 token) downgrade_008,
     revision ''009'' (Some ''008'') upgrade_009 downgrade_009,
     revision ''010'' (Some ''009'') upgrade_010 downgrade_010,
     revision ''011'' (Some ''010'') upgrade_011 downgrade_011,
     revision ''012'' (Some ''011'') upgrade_012 downgrade_012,
     revision ''013'' (Some ''012'') upgrade_013 downgrade_013,
     revision ''014'' (Some ''013'') upgrade_014 downgrade_014,
     revision ''015'' (Some ''014'') upgrade_015 downgrade_015,
     revision ''016'' (Some ''015'') upgrade_016 downgrade_016,
     revision ''017'' (Some ''016'') upgrade_017 downgrade_017,
     revision ''018'' (Some ''017'') upgrade_018 downgrade_018,
     revision ''019'' (Some ''018'') upgrade_019 downgrade_019,
     revision ''020'' (Some ''019'') upgrade_020 downgrade_020,
     revision ''021'' (Some ''020'') upgrade_021 downgrade_021,
     revision ''022'' (Some ''021'') upgrade_022 downgrade_022,
     revision ''023'' (Some ''022'') upgrade_023 downgrade_023,
     revision ''024'' (Some ''023'') upgrade_024 downgrade_024,
     revision ''025'' (Some ''024'') upgrade_025 downgrade_025,
     revision ''026'' (Some ''025'') upgrade_026 downgrade_026,
     revision ''027'' (Some ''026'') upgrade_027 downgrade_027,
     revision ''028'' (Some ''027'') upgrade_028 downgrade_028,
     revision ''029'' (Some ''028'') upgrade_029 downgrade_029,
     revision ''030'' (Some ''029'') upgrade_030 downgrade_030,
     revision ''031'' (Some ''030'') upgrade_031 downgrade_031,
     revision ''032'' (Some ''031'') upgrade_032 downgrade_032,
     revision ''033'' (Some ''032'') upgrade_033 downgrade_033,
     revision ''034'' (Some ''033'') upgrade_034 downgrade_034,
     revision ''035'' (Some ''034'') upgrade_035 downgrade_035]"

end
