(* ===== verification/Migrations.thy ===== *)
theory Migrations
  imports Revisions
begin

section \<open>Running the migrations\<close>

text \<open>
  \<open>src/alembic/env.py\<close> runs the pending revisions in one transaction. Each revision ends with the
  update of \<open>alembic_version\<close>; an \<open>autocommit_block\<close> commits what was done before it, the version of
  the preceding revision included, and every statement in it. The run is a list of actions, so that a
  process that is killed (the start-up of the API gives it 60 seconds) has run a prefix of it.
\<close>

subsection \<open>Actions, commits and the two stores\<close>

datatype action = Exec ddl | Commit | Stamp "string option"

record store =
  st_version :: "string option"
  st_db :: db

fun step_actions :: "step \<Rightarrow> action list" where
  "step_actions (Do p) = [Exec p]"
| "step_actions (Auto ps) = Commit # concat (map (\<lambda>p. [Exec p, Commit]) ps)"

definition upgrade_actions :: "revision \<Rightarrow> action list" where
  "upgrade_actions r = concat (map step_actions (rv_upgrade r)) @ [Stamp (Some (rv_revision r))]"

definition downgrade_actions :: "revision \<Rightarrow> action list" where
  "downgrade_actions r = concat (map step_actions (rv_downgrade r)) @ [Stamp (rv_down r)]"

definition run_migrations :: "action list list \<Rightarrow> action list" where
  "run_migrations ass = concat ass @ [Commit]"

text \<open>
  The first store is what is committed, the second what the transaction sees; a failing statement rolls
  back to the first.
\<close>

fun run_actions :: "action list \<Rightarrow> store \<Rightarrow> store \<Rightarrow> ddl_error option \<times> store" where
  "run_actions [] c w = (None, c)"
| "run_actions (Exec p # as) c w =
     (case run_op p (st_db w) of Inl e \<Rightarrow> (Some e, c) | Inr d \<Rightarrow> run_actions as c (w\<lparr>st_db := d\<rparr>))"
| "run_actions (Commit # as) c w = run_actions as w w"
| "run_actions (Stamp v # as) c w = run_actions as c (w\<lparr>st_version := v\<rparr>)"

datatype outcome = Applied | Failed ddl_error | Killed | UnknownRevision

definition run_killed :: "nat \<Rightarrow> action list \<Rightarrow> store \<Rightarrow> outcome \<times> store" where
  "run_killed n as s =
     (case run_actions (take n as) s s of
        (Some e, s') \<Rightarrow> (Failed e, s')
      | (None, s') \<Rightarrow> (if n < length as then Killed else Applied, s'))"

fun pending :: "revision list \<Rightarrow> string option \<Rightarrow> revision list option" where
  "pending rs None = Some rs"
| "pending [] (Some v) = None"
| "pending (r # rs) (Some v) = (if rv_revision r = v then Some rs else pending rs (Some v))"

text \<open>\<open>alembic upgrade head\<close>, killed after \<open>n\<close> actions, and the commands \<open>upgrade +1\<close> and \<open>downgrade -1\<close>.\<close>

definition upgrade_head :: "revision list \<Rightarrow> nat \<Rightarrow> store \<Rightarrow> outcome \<times> store" where
  "upgrade_head rs n s =
     (case pending rs (st_version s) of
        None \<Rightarrow> (UnknownRevision, s)
      | Some ps \<Rightarrow> run_killed n (run_migrations (map upgrade_actions ps)) s)"

definition upgrade_one :: "revision list \<Rightarrow> nat \<Rightarrow> store \<Rightarrow> outcome \<times> store" where
  "upgrade_one rs n s =
     (case pending rs (st_version s) of
        None \<Rightarrow> (UnknownRevision, s)
      | Some ps \<Rightarrow> run_killed n (run_migrations (map upgrade_actions (take 1 ps))) s)"

definition downgrade_one :: "revision list \<Rightarrow> nat \<Rightarrow> store \<Rightarrow> outcome \<times> store" where
  "downgrade_one rs n s =
     (case find (\<lambda>r. Some (rv_revision r) = st_version s) rs of
        None \<Rightarrow> (UnknownRevision, s)
      | Some r \<Rightarrow> run_killed n (run_migrations [downgrade_actions r]) s)"

text \<open>
  The start-up of the API logs the outcome and serves in every case: the result is the log level, and
  the store the requests run on.
\<close>

datatype log_level = LogInfo | LogError

definition lifespan :: "revision list \<Rightarrow> nat \<Rightarrow> store \<Rightarrow> log_level \<times> store" where
  "lifespan rs n s =
     (let (res, s') = upgrade_head rs n s in (if res = Applied then LogInfo else LogError, s'))"

definition fresh_store :: store where
  "fresh_store = \<lparr>st_version = None, st_db = empty_db\<rparr>"

subsection \<open>Well-typed at every commit\<close>

lemma run_actions_ok:
  "db_ok (st_db c) \<Longrightarrow> db_ok (st_db w) \<Longrightarrow> db_ok (st_db (snd (run_actions as c w)))"
proof (induction as c w rule: run_actions.induct)
  case (2 p as c w)
  show ?case
  proof (cases "run_op p (st_db w)")
    case (Inr d)
    with 2 run_op_ok show ?thesis by simp
  qed (use 2 in simp)
qed simp_all

lemma run_killed_ok: "db_ok (st_db s) \<Longrightarrow> db_ok (st_db (snd (run_killed n as s)))"
  using run_actions_ok [of s s "take n as"] by (auto simp: run_killed_def split: prod.splits option.splits)

lemma upgrade_head_ok: "db_ok (st_db s) \<Longrightarrow> db_ok (st_db (snd (upgrade_head rs n s)))"
  by (auto simp: upgrade_head_def run_killed_ok split: option.splits)

lemma downgrade_one_ok: "db_ok (st_db s) \<Longrightarrow> db_ok (st_db (snd (downgrade_one rs n s)))"
  by (auto simp: downgrade_one_def run_killed_ok split: option.splits)

subsection \<open>Committed prefixes\<close>

text \<open>Without a commit on the way nothing is kept.\<close>

lemma run_actions_uncommitted: "Commit \<notin> set as \<Longrightarrow> snd (run_actions as c w) = c"
  by (induction as c w rule: run_actions.induct) (auto split: sum.splits)

definition no_autocommit :: "revision \<Rightarrow> bool" where
  "no_autocommit r \<longleftrightarrow> list_all (\<lambda>s. case s of Do _ \<Rightarrow> True | Auto _ \<Rightarrow> False) (rv_upgrade r)"

lemma no_autocommit_actions: "no_autocommit r \<Longrightarrow> Commit \<notin> set (upgrade_actions r)"
proof -
  assume "no_autocommit r"
  then have "Commit \<notin> set (step_actions x)" if "x \<in> set (rv_upgrade r)" for x
    using that by (cases x) (auto simp: no_autocommit_def list_all_iff)
  then show ?thesis by (auto simp: upgrade_actions_def)
qed

lemma run_actions_snoc:
  "Commit \<notin> set as \<Longrightarrow> fst (run_actions (as @ [Commit]) c w) \<noteq> None \<Longrightarrow> snd (run_actions (as @ [Commit]) c w) = c"
  by (induction as c w rule: run_actions.induct) (auto split: sum.splits)

lemma upgrade_head_atomic_lemma:
  assumes "pending rs (st_version s) = Some ps" and "list_all no_autocommit ps" and "fst (upgrade_head rs n s) \<noteq> Applied"
  shows "snd (upgrade_head rs n s) = s"
proof -
  define as where "as = concat (map upgrade_actions ps)"
  have no: "Commit \<notin> set as" using assms(2) no_autocommit_actions by (auto simp: as_def list_all_iff)
  have up: "upgrade_head rs n s = run_killed n (as @ [Commit]) s" by (simp add: upgrade_head_def assms(1) run_migrations_def as_def)
  show ?thesis
  proof (cases "n < length (as @ [Commit])")
    case True
    then have "take n (as @ [Commit]) = take n as" by simp
    moreover have "Commit \<notin> set (take n as)" using no by (meson in_set_takeD)
    ultimately show ?thesis
      using run_actions_uncommitted [of "take n as" s s] by (auto simp: up run_killed_def split: prod.splits option.splits)
  next
    case False
    then show ?thesis
      using assms(3) run_actions_snoc [OF no, of s s] by (auto simp: up run_killed_def split: prod.splits option.splits)
  qed
qed

text \<open>The version of an applied run is the last revision, and then there is nothing to do.\<close>

lemma run_actions_version:
  "run_actions (as @ [Stamp v, Commit]) c w = (None, s) \<Longrightarrow> st_version s = v"
  by (induction as c w rule: run_actions.induct) (auto split: sum.splits)

lemma pending_last:
  "distinct (map rv_revision rs) \<Longrightarrow> rs \<noteq> [] \<Longrightarrow> pending rs (Some (rv_revision (last rs))) = Some []"
proof (induction rs)
  case (Cons r rs)
  show ?case
  proof (cases "rs = []")
    case False
    then have "rv_revision (last rs) \<in> rv_revision ` set rs" by simp
    with Cons.prems(1) have "rv_revision r \<noteq> rv_revision (last rs)" by auto
    with Cons False show ?thesis by simp
  qed simp
qed simp

lemma pending_suffix: "pending rs v = Some ps \<Longrightarrow> ps \<noteq> [] \<Longrightarrow> last ps = last rs"
  by (induction rs v rule: pending.induct) (auto split: if_splits)

lemma pending_empty: "pending rs (Some v) = Some [] \<Longrightarrow> v = rv_revision (last rs)"
  by (induction rs "Some v" rule: pending.induct) (auto split: if_splits)

lemma applied_version:
  assumes "distinct (map rv_revision rs)" and "rs \<noteq> []" and "upgrade_head rs n s = (Applied, s')"
  shows "st_version s' = Some (rv_revision (last rs))"
proof -
  obtain ps where ps: "pending rs (st_version s) = Some ps" and run: "run_killed n (run_migrations (map upgrade_actions ps)) s = (Applied, s')"
    using assms(3) by (auto simp: upgrade_head_def split: option.splits)
  let ?as = "run_migrations (map upgrade_actions ps)"
  have "\<not> n < length ?as" using run by (auto simp: run_killed_def split: prod.splits option.splits if_splits)
  then have r: "run_actions ?as s s = (None, s')" using run by (auto simp: run_killed_def split: prod.splits option.splits)
  show ?thesis
  proof (cases ps rule: rev_cases)
    case Nil
    with r have "s' = s" by (simp add: run_migrations_def)
    moreover obtain v where "st_version s = Some v" using ps Nil assms(2) by (cases "st_version s") auto
    ultimately show ?thesis using ps Nil pending_empty by metis
  next
    case (snoc qs q)
    then have "?as = (concat (map upgrade_actions qs) @ concat (map step_actions (rv_upgrade q))) @ [Stamp (Some (rv_revision q)), Commit]"
      by (simp add: run_migrations_def upgrade_actions_def)
    with r have "st_version s' = Some (rv_revision q)" using run_actions_version by metis
    moreover have "q = last rs" using pending_suffix [OF ps] snoc by simp
    ultimately show ?thesis by simp
  qed
qed

lemma upgrade_head_again:
  assumes "distinct (map rv_revision rs)" and "rs \<noteq> []" and "upgrade_head rs n s = (Applied, s')" and "0 < m"
  shows "upgrade_head rs m s' = (Applied, s')"
proof -
  have "pending rs (st_version s') = Some []" using applied_version [OF assms(1-3)] pending_last [OF assms(1,2)] by simp
  then show ?thesis using assms(4) by (simp add: upgrade_head_def run_killed_def run_migrations_def)
qed

subsection \<open>Runs without a failure\<close>

fun run_ops :: "ddl list \<Rightarrow> db \<Rightarrow> ddl_error + db" where
  "run_ops [] db = Inr db"
| "run_ops (p # ps) db = (case run_op p db of Inl e \<Rightarrow> Inl e | Inr d \<Rightarrow> run_ops ps d)"

fun step_ops :: "step \<Rightarrow> ddl list" where
  "step_ops (Do p) = [p]"
| "step_ops (Auto ps) = ps"

definition ops_of :: "step list \<Rightarrow> ddl list" where
  "ops_of ss = concat (map step_ops ss)"

lemma run_ops_append: "run_ops (ps @ qs) db = (case run_ops ps db of Inl e \<Rightarrow> Inl e | Inr d \<Rightarrow> run_ops qs d)"
  by (induction ps arbitrary: db) (auto split: sum.splits)

lemma run_ops_ok: "db_ok db \<Longrightarrow> run_ops ps db = Inr d \<Longrightarrow> db_ok d"
  by (induction ps arbitrary: db) (auto split: sum.splits intro: run_op_ok)

abbreviation store_at :: "string option \<Rightarrow> db \<Rightarrow> store" where
  "store_at v d \<equiv> \<lparr>st_version = v, st_db = d\<rparr>"

lemma run_auto_actions:
  "\<exists>c'. run_actions (concat (map (\<lambda>p. [Exec p, Commit]) ps) @ as) c (store_at v db) =
     (case run_ops ps db of Inl e \<Rightarrow> (Some e, c') | Inr d \<Rightarrow> run_actions as c' (store_at v d))"
proof (induction ps arbitrary: c db)
  case (Cons p ps)
  show ?case
  proof (cases "run_op p db")
    case (Inr d)
    then show ?thesis using Cons.IH [of "store_at v d" d] by simp
  qed auto
qed (auto intro: exI [of _ c])

text \<open>Commits change which store a failure leaves, not whether the run fails.\<close>

lemma run_steps_actions:
  "\<exists>c'. run_actions (concat (map step_actions ss) @ as) c (store_at v db) =
     (case run_ops (ops_of ss) db of Inl e \<Rightarrow> (Some e, c') | Inr d \<Rightarrow> run_actions as c' (store_at v d))"
proof (induction ss arbitrary: c db)
  case (Cons s ss)
  show ?case
  proof (cases s)
    case (Do p)
    then show ?thesis
    proof (cases "run_op p db")
      case (Inr d)
      with Do show ?thesis using Cons.IH [of c d] by (simp add: ops_of_def)
    qed (auto simp: ops_of_def)
  next
    case (Auto ps)
    obtain c1 where c1: "run_actions (concat (map (\<lambda>p. [Exec p, Commit]) ps) @ concat (map step_actions ss) @ as) (store_at v db) (store_at v db) =
      (case run_ops ps db of Inl e \<Rightarrow> (Some e, c1) | Inr d \<Rightarrow> run_actions (concat (map step_actions ss) @ as) c1 (store_at v d))"
      using run_auto_actions by blast
    show ?thesis
    proof (cases "run_ops ps db")
      case (Inr d)
      with Auto c1 show ?thesis using Cons.IH [of c1 d] by (simp add: ops_of_def run_ops_append)
    qed (use Auto c1 in \<open>auto simp: ops_of_def run_ops_append\<close>)
  qed
qed (auto simp: ops_of_def intro: exI [of _ c])

lemma run_revision:
  "run_actions (concat (map step_actions ss) @ [Stamp v, Commit]) c w = (None, s)
     \<longleftrightarrow> (\<exists>d. run_ops (ops_of ss) (st_db w) = Inr d \<and> s = store_at v d)"
proof -
  obtain u db where w: "w = store_at u db" by (cases w) simp
  obtain c' where "run_actions (concat (map step_actions ss) @ [Stamp v, Commit]) c w =
     (case run_ops (ops_of ss) db of Inl e \<Rightarrow> (Some e, c') | Inr d \<Rightarrow> run_actions [Stamp v, Commit] c' (store_at u d))"
    using run_steps_actions unfolding w by blast
  then show ?thesis by (auto simp: w split: sum.splits)
qed

lemma run_revisions:
  "\<exists>c'. run_actions (concat (map upgrade_actions ps) @ as) c (store_at v db) =
     (case run_ops (concat (map (ops_of \<circ> rv_upgrade) ps)) db of
        Inl e \<Rightarrow> (Some e, c')
      | Inr d \<Rightarrow> run_actions as c' (store_at (foldl (\<lambda>_ r. Some (rv_revision r)) v ps) d))"
proof (induction ps arbitrary: c v db)
  case (Cons r ps)
  let ?rest = "Stamp (Some (rv_revision r)) # concat (map upgrade_actions ps) @ as"
  obtain c1 where c1: "run_actions (concat (map step_actions (rv_upgrade r)) @ ?rest) c (store_at v db) =
     (case run_ops (ops_of (rv_upgrade r)) db of Inl e \<Rightarrow> (Some e, c1) | Inr d \<Rightarrow> run_actions ?rest c1 (store_at v d))"
    using run_steps_actions by blast
  show ?case
  proof (cases "run_ops (ops_of (rv_upgrade r)) db")
    case (Inr d)
    with c1 show ?thesis using Cons.IH [of c1 "Some (rv_revision r)" d]
      by (simp add: upgrade_actions_def [of r] run_ops_append cong: sum.case_cong)
  qed (use c1 in \<open>auto simp: upgrade_actions_def [of r] run_ops_append\<close>)
qed (auto intro: exI [of _ c])

lemma run_killed_all:
  "length as \<le> n \<Longrightarrow> run_actions as s s = (None, s') \<Longrightarrow> run_killed n as s = (Applied, s')"
  by (simp add: run_killed_def)

lemma run_killed_applied:
  "run_killed n as s = (Applied, s') \<Longrightarrow> length as \<le> n \<and> run_actions as s s = (None, s')"
  by (auto simp: run_killed_def not_less split: prod.splits option.splits if_splits)

subsection \<open>Downgrades that undo their upgrade\<close>

text \<open>
  A downgrade script that takes the statements of the upgrade back in reverse order, each by its
  inverse; a dropped table also takes the indexes created on it.
\<close>

fun undoes :: "ddl \<Rightarrow> ddl \<Rightarrow> bool" where
  "undoes (CreateTable n _) (DropTable m) = (m = n)"
| "undoes (AddColumn n c) (DropColumn m b) = (m = n \<and> b = c_name c)"
| "undoes (CreateConstraint k n x) (DropConstraint j m) = (j = k \<and> m = n \<and> (key_constr x \<longrightarrow> length (constr_cols x) \<noteq> 1))"
| "undoes (CreateIndex k _ _) (DropIndex j _) = (j = k)"
| "undoes _ _ = False"

fun swallowed :: "ddl \<Rightarrow> ddl list \<Rightarrow> bool" where
  "swallowed (CreateIndex _ i _) (DropTable n # _) = (ix_table i = n)"
| "swallowed _ _ = False"

fun cancels :: "ddl list \<Rightarrow> ddl list \<Rightarrow> bool" where
  "cancels [] qs = (qs = [])"
| "cancels (p # ps) qs =
     (swallowed p qs \<and> cancels ps qs \<or> (case qs of [] \<Rightarrow> False | q # qs' \<Rightarrow> undoes p q \<and> cancels ps qs'))"

text \<open>\<open>CREATE INDEX IF NOT EXISTS\<close> can only be taken back when it did create the index.\<close>

fun creates_indexes :: "ddl list \<Rightarrow> db \<Rightarrow> bool" where
  "creates_indexes [] db = True"
| "creates_indexes (p # ps) db =
     ((case p of CreateIndex k _ _ \<Rightarrow> k \<notin> set (relation_names db) | _ \<Rightarrow> True)
      \<and> (case run_op p db of Inl _ \<Rightarrow> True | Inr d \<Rightarrow> creates_indexes ps d))"

lemma set_table_same: "distinct (map fst (db_tables db)) \<Longrightarrow> table_of db n = Some t \<Longrightarrow> set_table n t db = db"
proof -
  assume d: "distinct (map fst (db_tables db))" and t: "table_of db n = Some t"
  have "(k, if k = n then t else x) = (k, x)" if "(k, x) \<in> set (db_tables db)" for k x
    using map_of_is_SomeI [OF d that] t by auto
  then have "map (\<lambda>(k, x). (k, if k = n then t else x)) (db_tables db) = db_tables db" by (intro map_idI) auto
  then show ?thesis by (simp add: set_table_def)
qed

lemma set_table_twice: "set_table n t (set_table n s db) = set_table n t db"
  by (simp add: set_table_def comp_def case_prod_beta)

lemma drop_new_table:
  assumes ok: "db_ok db" and fresh: "table_of db n = None" and new: "\<And>k i. (k, i) \<in> set I \<Longrightarrow> ix_table i = n"
  shows "drop_table n (db\<lparr>db_tables := db_tables db @ [(n, t)], db_indexes := db_indexes db @ I\<rparr>) = Inr db"
proof -
  let ?d = "db\<lparr>db_tables := db_tables db @ [(n, t)], db_indexes := db_indexes db @ I\<rparr>"
  have "\<not> (case x of ForeignKey _ rt _ _ \<Rightarrow> rt = n | _ \<Rightarrow> False)" if "(m, s) \<in> set (db_tables db)" "(k, x) \<in> set (tb_cons s)" for m s k x
    using db_okD(4) [OF ok that] fresh by (auto simp: fk_ok_def split: constr.splits option.splits)
  then have "\<not> referenced_table ?d n" by (force simp: referenced_table_def list_ex_iff)
  moreover have "filter (\<lambda>(k, _). k \<noteq> n) (db_tables db) = db_tables db"
    using fresh by (force simp: map_of_eq_None_iff filter_id_conv)
  moreover have "filter (\<lambda>(_, i). ix_table i \<noteq> n) (db_indexes db) = db_indexes db"
    using db_okD(5) [OF ok] fresh by (fastforce simp: index_ok_def filter_id_conv)
  moreover have "filter (\<lambda>(_, i). ix_table i \<noteq> n) I = []" using new by (auto simp: filter_empty_conv)
  ultimately show ?thesis using fresh by (cases db) (auto simp: drop_table_def map_add_def)
qed

lemma undo_create_table:
  assumes ok: "db_ok db" and up: "create_table n items db = Inr d"
  shows "drop_table n d = Inr db"
proof -
  have new: "n \<notin> set (relation_names db)" and d: "d = db\<lparr>db_tables := db_tables db @ [(n, \<lparr>tb_cols = item_cols items, tb_cons = item_cons n items,
      tb_rows = []\<rparr>)], db_indexes := db_indexes db @ item_indexes n items\<rparr>"
    using up by (auto simp: create_table_def Let_def split: if_splits)
  have "table_of db n = None" using new by (auto simp: relation_names_def map_of_eq_None_iff)
  moreover have "ix_table i = n" if "(k, i) \<in> set (item_indexes n items)" for k i
    using that by (auto simp: item_indexes_def split: item.splits if_splits)
  ultimately show ?thesis unfolding d by (rule drop_new_table [OF ok])
qed

lemma undo_add_column:
  assumes ok: "db_ok db" and up: "add_column n c db = Inr d"
  shows "drop_column n (c_name c) d = Inr db"
proof -
  obtain t v where t: "table_of db n = Some t" and c: "c_name c \<notin> set (col_names t)"
    and d: "d = set_table n (t\<lparr>tb_cols := tb_cols t @ [c], tb_rows := map (\<lambda>r. r @ [(c_name c, v)]) (tb_rows t)\<rparr>) db" (is "_ = set_table n ?t _")
    using up by (auto simp: add_column_def Let_def split: option.splits if_splits sql_default.splits)
  note okD = db_okD [OF ok]
  have tok: "table_ok t" using okD(3) map_of_SomeD [OF t] by blast
  have unref: "\<not> referenced db n (c_name c)" using fk_cols [OF ok t] c by blast
  have "\<not> referenced d n (c_name c)"
    using unref map_of_SomeD [OF t] by (force simp: referenced_iff d set_table_def split: if_splits)
  moreover have "without_column (c_name c) ?t = t"
  proof -
    have "filter (\<lambda>x. c_name x \<noteq> c_name c) (tb_cols t) = tb_cols t" by (intro filter_True) (metis c col_names_def image_eqI set_map)
    moreover have "filter (\<lambda>(_, k). c_name c \<notin> set (constr_cols k)) (tb_cons t) = tb_cons t"
      using tok c by (auto simp: table_ok_def list_all_iff constr_ok_def filter_id_conv)
    moreover have "filter (\<lambda>(k, _). k \<noteq> c_name c) r = r" if "r \<in> set (tb_rows t)" for r
    proof -
      have "map fst r = col_names t" using tok that by (auto simp: table_ok_def list_all_iff row_typed_def col_names_def)
      with c have "c_name c \<notin> fst ` set r" by (metis set_map)
      then show ?thesis by (auto simp: filter_id_conv rev_image_eqI)
    qed
    then have "map (filter (\<lambda>(k, _). k \<noteq> c_name c)) (map (\<lambda>r. r @ [(c_name c, v)]) (tb_rows t)) = tb_rows t"
      by (simp add: comp_def map_idI)
    ultimately show ?thesis by (cases t) (simp add: without_column_def)
  qed
  moreover have "filter (\<lambda>(_, i). \<not> (ix_table i = n \<and> index_uses (c_name c) i)) (db_indexes db) = db_indexes db"
  proof -
    have "\<not> index_uses (c_name c) i" if "(k, i) \<in> set (db_indexes db)" "ix_table i = n" for k i
      using table_index [OF ok t that] c by (auto simp: index_fits_def index_uses_def)
    then show ?thesis by (auto simp: filter_id_conv)
  qed
  moreover have "c_name c \<in> set (col_names ?t)" by (simp add: col_names_def)
  ultimately show ?thesis using t set_table_same [OF okD(2) t]
    by (simp add: drop_column_def d set_table_twice)
qed

lemma undo_create_constraint:
  assumes ok: "db_ok db" and up: "create_constraint k n x db = Inr d" and key: "key_constr x \<Longrightarrow> length (constr_cols x) \<noteq> 1"
  shows "drop_constraint k n d = Inr db"
proof -
  obtain t where t: "table_of db n = Some t" and k: "k \<notin> fst ` set (tb_cons t)" and d: "d = set_table n (t\<lparr>tb_cons := tb_cons t @ [(k, x)]\<rparr>) db"
    using up by (auto simp: create_constraint_def Let_def split: option.splits if_splits constr.splits)
  have "map_of (tb_cons t @ [(k, x)]) k = Some x" using k by (auto simp: map_add_def map_of_eq_None_iff [symmetric])
  moreover have "filter (\<lambda>(j, _). j \<noteq> k) (tb_cons t) = tb_cons t" using k by (force simp: filter_id_conv)
  moreover have "\<not> (key_constr x \<and> (case constr_cols x of [c] \<Rightarrow> referenced e n c | _ \<Rightarrow> False))" for e
    using key by (auto split: list.splits)
  ultimately show ?thesis using t set_table_same [OF db_okD(2) [OF ok] t]
    by (simp add: drop_constraint_def d set_table_twice)
qed

lemma undo_create_index:
  assumes "create_index k i e db = Inr d" and "k \<notin> set (relation_names db)"
  shows "drop_index k b d = Inr db"
proof -
  have d: "d = db\<lparr>db_indexes := db_indexes db @ [(k, i)]\<rparr>"
    using assms by (auto simp: create_index_def split: if_splits option.splits)
  have "filter (\<lambda>(j, _). j \<noteq> k) (db_indexes db) = db_indexes db"
    using assms(2) by (force simp: relation_names_def filter_id_conv)
  then show ?thesis by (cases db) (simp add: d drop_index_def)
qed

lemma drop_table_index:
  assumes "create_index k i e db = Inr d"
  shows "drop_table (ix_table i) d = drop_table (ix_table i) db"
  using assms by (auto simp: create_index_def drop_table_def referenced_table_def split: if_splits option.splits)

lemma creates_indexes_append:
  "run_ops ps db = Inr d \<Longrightarrow> creates_indexes (ps @ qs) db = (creates_indexes ps db \<and> creates_indexes qs d)"
  by (induction ps arbitrary: db) (auto split: sum.splits)

lemma undoes_run:
  assumes "db_ok db" and "run_op p db = Inr d" and "undoes p q" and "creates_indexes [p] db"
  shows "run_op q d = Inr db"
  using assms
  by (cases "(p, q)" rule: undoes.cases) (auto intro: undo_create_table undo_add_column undo_create_constraint undo_create_index)

lemma cancels_run:
  assumes "db_ok db"
  shows "run_ops (rev ps) db = Inr d \<Longrightarrow> creates_indexes (rev ps) db \<Longrightarrow> cancels ps qs \<Longrightarrow> run_ops qs d = Inr db"
proof (induction ps arbitrary: d qs)
  case (Cons p ps)
  obtain d1 where d1: "run_ops (rev ps) db = Inr d1" "run_op p d1 = Inr d"
    using Cons.prems(1) by (auto simp: run_ops_append split: sum.splits)
  have cr: "creates_indexes (rev ps) db" "creates_indexes [p] d1"
    using Cons.prems(2) creates_indexes_append [OF d1(1)] by auto
  note IH = Cons.IH [OF d1(1) cr(1)]
  consider "swallowed p qs" "cancels ps qs" | q qs' where "qs = q # qs'" "undoes p q" "cancels ps qs'"
    using Cons.prems(3) by (auto split: list.splits)
  then show ?case
  proof cases
    case 1
    then obtain k i e qs' where p: "p = CreateIndex k i e" and qs: "qs = DropTable (ix_table i) # qs'"
      by (cases "(p, qs)" rule: swallowed.cases) auto
    show ?thesis using IH [OF 1(2)] drop_table_index [of k i e d1 d] d1(2) by (simp add: p qs)
  next
    case 2
    with undoes_run [OF run_ops_ok [OF assms d1(1)] d1(2) 2(2) cr(2)] IH show ?thesis by simp
  qed
qed simp

lemma upgrade_one_applied:
  assumes "upgrade_one rs n s = (Applied, s')" and "pending rs (st_version s) = Some (r # ps)"
  shows "\<exists>d. run_ops (ops_of (rv_upgrade r)) (st_db s) = Inr d \<and> s' = store_at (Some (rv_revision r)) d"
proof -
  have "run_actions (concat (map step_actions (rv_upgrade r)) @ [Stamp (Some (rv_revision r)), Commit]) s s = (None, s')"
    using assms run_killed_applied by (simp add: upgrade_one_def run_migrations_def upgrade_actions_def)
  then show ?thesis unfolding run_revision .
qed

lemma find_distinct:
  "distinct (map f xs) \<Longrightarrow> x \<in> set xs \<Longrightarrow> find (\<lambda>y. Some (f y) = Some (f x)) xs = Some x"
  by (induction xs) (auto simp: rev_image_eqI)

lemma downgrade_one_applied:
  assumes "distinct (map rv_revision rs)" and "r \<in> set rs" and "run_ops (ops_of (rv_downgrade r)) d = Inr db"
    and "length (downgrade_actions r) < m"
  shows "downgrade_one rs m (store_at (Some (rv_revision r)) d) = (Applied, store_at (rv_down r) db)"
proof -
  have "run_actions (concat (map step_actions (rv_downgrade r)) @ [Stamp (rv_down r), Commit]) s s = (None, store_at (rv_down r) db)"
    if "st_db s = d" for s unfolding run_revision using assms(3) that by simp
  with assms(4) show ?thesis using find_distinct [OF assms(1,2)]
    by (simp add: downgrade_one_def run_migrations_def downgrade_actions_def run_killed_all)
qed

definition restores :: "revision \<Rightarrow> bool" where
  "restores r \<longleftrightarrow> cancels (rev (ops_of (rv_upgrade r))) (ops_of (rv_downgrade r))"

subsection \<open>The mapped classes of \<open>src/app/models\<close>\<close>

text \<open>Name, type and nullability of the columns each class declares.\<close>

type_synonym model_column = "string \<times> sql_type \<times> bool"

definition model_user :: "string \<times> model_column list" where
  "model_user = (''users'',
    [(''id'', UUID_T, False), (''email'', VARCHAR 255, False), (''api_key_hash'', VARCHAR 64, False), (''api_key_prefix'', VARCHAR 12, False),
     (''plan'', VARCHAR 20, False), (''active_cue_limit'', INTEGER_T, False), (''monthly_execution_limit'', INTEGER_T, False),
     (''monthly_message_limit'', INTEGER_T, False), (''rate_limit_per_minute'', INTEGER_T, False), (''slug'', VARCHAR 64, False),
     (''webhook_secret'', VARCHAR 80, False), (''api_key_encrypted'', VARCHAR 256, True), (''alert_webhook_url'', VARCHAR 2048, True),
     (''alert_webhook_secret'', VARCHAR 64, True), (''external_owner'', VARCHAR 64, True), (''created_at'', TIMESTAMPTZ, False),
     (''updated_at'', TIMESTAMPTZ, False)])"

definition model_cue :: "string \<times> model_column list" where
  "model_cue = (''cues'',
    [(''id'', VARCHAR 20, False), (''user_id'', UUID_T, False), (''name'', VARCHAR 255, False), (''description'', TEXT_T, True),
     (''status'', VARCHAR 20, False), (''schedule_type'', VARCHAR 10, False), (''schedule_cron'', VARCHAR 100, True),
     (''schedule_at'', TIMESTAMPTZ, True), (''schedule_timezone'', VARCHAR 50, False), (''callback_url'', TEXT_T, True),
     (''callback_method'', VARCHAR 10, False), (''callback_transport'', VARCHAR 10, False), (''callback_headers'', JSONB_T, True),
     (''payload'', JSONB_T, True), (''retry_max_attempts'', INTEGER_T, False), (''retry_backoff_minutes'', JSONB_T, False),
     (''next_run'', TIMESTAMPTZ, True), (''last_run'', TIMESTAMPTZ, True), (''run_count'', INTEGER_T, False), (''fired_count'', INTEGER_T, False),
     (''on_failure'', JSONB_T, True), (''verification_mode'', VARCHAR 50, True), (''created_at'', TIMESTAMPTZ, False),
     (''updated_at'', TIMESTAMPTZ, False)])"

definition model_execution :: "string \<times> model_column list" where
  "model_execution = (''executions'',
    [(''id'', UUID_T, False), (''cue_id'', VARCHAR 20, False), (''scheduled_for'', TIMESTAMPTZ, False), (''status'', VARCHAR 20, False),
     (''http_status'', INTEGER_T, True), (''response_body'', TEXT_T, True), (''attempts'', INTEGER_T, False), (''next_retry'', TIMESTAMPTZ, True),
     (''error_message'', TEXT_T, True), (''started_at'', TIMESTAMPTZ, True), (''delivered_at'', TIMESTAMPTZ, True),
     (''last_attempt_at'', TIMESTAMPTZ, True), (''claimed_by_worker'', VARCHAR 255, True), (''claimed_at'', TIMESTAMPTZ, True),
     (''outcome_success'', BOOLEAN_T, True), (''outcome_result'', TEXT_T, True), (''outcome_error'', TEXT_T, True),
     (''outcome_metadata'', JSONB_T, True), (''outcome_recorded_at'', TIMESTAMPTZ, True), (''outcome_deadline_seconds'', INTEGER_T, True),
     (''outcome_deadline_at'', TIMESTAMPTZ, True), (''outcome_state'', TEXT_T, True), (''last_heartbeat_at'', TIMESTAMPTZ, True),
     (''live_claim_session_token'', VARCHAR 128, True), (''live_claimed_at'', TIMESTAMPTZ, True), (''triggered_by'', VARCHAR 50, True),
     (''evidence_external_id'', VARCHAR 255, True), (''evidence_result_url'', TEXT_T, True), (''evidence_result_ref'', VARCHAR 255, True),
     (''evidence_result_type'', VARCHAR 50, True), (''evidence_summary'', TEXT_T, True), (''evidence_validation_state'', VARCHAR 20, True),
     (''evidence_produced_at'', TIMESTAMPTZ, True), (''evidence_artifacts'', JSONB_T, True), (''evidence_metadata'', JSONB_T, True),
     (''created_at'', TIMESTAMPTZ, False), (''updated_at'', TIMESTAMPTZ, False)])"

definition model_dispatch_outbox :: "string \<times> model_column list" where
  "model_dispatch_outbox = (''dispatch_outbox'',
    [(''id'', INTEGER_T, False), (''execution_id'', UUID_T, True), (''cue_id'', VARCHAR 20, True), (''task_type'', VARCHAR 20, False),
     (''payload'', JSONB_T, False), (''dispatched'', BOOLEAN_T, False), (''dispatch_attempts'', INTEGER_T, False),
     (''last_dispatch_error'', TEXT_T, True), (''scheduled_at'', TIMESTAMPTZ, True), (''created_at'', TIMESTAMPTZ, False)])"

definition model_usage_monthly :: "string \<times> model_column list" where
  "model_usage_monthly = (''usage_monthly'',
    [(''id'', INTEGER_T, False), (''user_id'', UUID_T, False), (''month_start'', DATE_T, False), (''execution_count'', INTEGER_T, False)])"

definition model_device_code :: "string \<times> model_column list" where
  "model_device_code = (''device_codes'',
    [(''id'', UUID_T, False), (''device_code'', VARCHAR 128, False), (''email'', VARCHAR 255, True), (''status'', VARCHAR 20, False),
     (''api_key_plaintext'', VARCHAR 64, True), (''verification_token'', VARCHAR 64, True), (''session_token'', VARCHAR 64, True),
     (''user_id'', UUID_T, True), (''expires_at'', TIMESTAMPTZ, False), (''created_at'', TIMESTAMPTZ, False)])"

definition model_worker :: "string \<times> model_column list" where
  "model_worker = (''workers'',
    [(''id'', UUID_T, False), (''user_id'', UUID_T, False), (''worker_id'', VARCHAR 255, False), (''handlers'', JSONB_T, True),
     (''last_heartbeat'', TIMESTAMPTZ, False), (''created_at'', TIMESTAMPTZ, False)])"

definition model_alert :: "string \<times> model_column list" where
  "model_alert = (''alerts'',
    [(''id'', UUID_T, False), (''user_id'', UUID_T, False), (''cue_id'', VARCHAR 20, True), (''execution_id'', UUID_T, True),
     (''alert_type'', VARCHAR 50, False), (''severity'', VARCHAR 20, False), (''message'', TEXT_T, False), (''metadata'', JSONB_T, True),
     (''acknowledged'', BOOLEAN_T, False), (''created_at'', TIMESTAMPTZ, False)])"

definition model_agent :: "string \<times> model_column list" where
  "model_agent = (''agents'',
    [(''id'', VARCHAR 20, False), (''user_id'', UUID_T, False), (''slug'', VARCHAR 64, False), (''display_name'', VARCHAR 255, False),
     (''webhook_url'', TEXT_T, True), (''webhook_secret'', VARCHAR 80, True), (''agent_metadata'', JSONB_T, False),
     (''status'', VARCHAR 16, False), (''last_seen_at'', TIMESTAMPTZ, True), (''deleted_at'', TIMESTAMPTZ, True),
     (''created_at'', TIMESTAMPTZ, False), (''updated_at'', TIMESTAMPTZ, False)])"

definition model_agent_live_session :: "string \<times> model_column list" where
  "model_agent_live_session = (''agent_live_sessions'',
    [(''id'', UUID_T, False), (''agent_id'', VARCHAR 20, False), (''label'', TEXT_T, False), (''cue_id'', TEXT_T, False),
     (''task_name'', TEXT_T, False), (''is_default'', BOOLEAN_T, False), (''attached_at'', TIMESTAMPTZ, True),
     (''detached_at'', TIMESTAMPTZ, True), (''last_heartbeat'', TIMESTAMPTZ, True), (''last_claim_at'', TIMESTAMPTZ, True),
     (''monitor_version'', TEXT_T, True), (''session_token'', VARCHAR 80, True), (''ipc_session_token'', VARCHAR 32, True),
     (''transport'', VARCHAR 8, False), (''daemon_id'', UUID_T, True), (''last_reconciled_at'', TIMESTAMPTZ, True),
     (''created_at'', TIMESTAMPTZ, False)])"

definition model_message :: "string \<times> model_column list" where
  "model_message = (''messages'',
    [(''id'', VARCHAR 20, False), (''user_id'', UUID_T, False), (''from_agent_id'', VARCHAR 20, False), (''to_agent_id'', VARCHAR 20, False),
     (''thread_id'', VARCHAR 20, False), (''reply_to'', VARCHAR 20, True), (''subject'', VARCHAR 255, True), (''body'', TEXT_T, False),
     (''preview'', VARCHAR 256, False), (''priority'', SMALLINT_T, False), (''expects_reply'', BOOLEAN_T, False),
     (''reply_to_agent_id'', VARCHAR 20, True), (''delivery_state'', VARCHAR 16, False), (''message_metadata'', JSONB_T, False),
     (''idempotency_key'', VARCHAR 255, True), (''idempotency_fingerprint'', VARCHAR 64, True), (''created_at'', TIMESTAMPTZ, False),
     (''delivered_at'', TIMESTAMPTZ, True), (''read_at'', TIMESTAMPTZ, True), (''acked_at'', TIMESTAMPTZ, True),
     (''failed_at'', TIMESTAMPTZ, True), (''delivering_started_at'', TIMESTAMPTZ, True), (''send_at'', TIMESTAMPTZ, True),
     (''expires_at'', TIMESTAMPTZ, False), (''dispatch_priority_bucket'', SMALLINT_T, False), (''message_dispatch_error'', TEXT_T, True),
     (''correlation_id'', VARCHAR 255, True)])"

definition model_usage_messages_monthly :: "string \<times> model_column list" where
  "model_usage_messages_monthly = (''usage_messages_monthly'',
    [(''id'', INTEGER_T, False), (''user_id'', UUID_T, False), (''month_start'', DATE_T, False), (''message_count'', INTEGER_T, False)])"

definition model_event :: "string \<times> model_column list" where
  "model_event = (''events'',
    [(''id'', BIGINT_T, False), (''event_type'', TEXT_T, False), (''recipient_agent_id'', VARCHAR 20, False), (''payload'', JSONB_T, False),
     (''emitted_at'', TIMESTAMPTZ, False), (''idempotency_key'', TEXT_T, True), (''digested_at'', TIMESTAMPTZ, True)])"

definition model_subscription :: "string \<times> model_column list" where
  "model_subscription = (''subscriptions'',
    [(''id'', UUID_T, False), (''subscriber_agent_id'', VARCHAR 20, False), (''event_type'', TEXT_T, False), (''delivery_target'', TEXT_T, False),
     (''webhook_url'', TEXT_T, True), (''webhook_secret'', TEXT_T, True), (''last_dispatched_event_id'', BIGINT_T, True),
     (''last_dispatched_at'', TIMESTAMPTZ, True), (''last_acked_event_id'', BIGINT_T, True), (''consecutive_failures'', INTEGER_T, False),
     (''paused_until'', TIMESTAMPTZ, True), (''inline_body'', BOOLEAN_T, False), (''created_at'', TIMESTAMPTZ, False),
     (''detached_at'', TIMESTAMPTZ, True)])"

definition metadata :: "(string \<times> model_column list) list" where
  "metadata =
    [model_user, model_cue, model_execution, model_dispatch_outbox, model_usage_monthly, model_device_code, model_worker,
     model_alert, model_agent, model_agent_live_session, model_message, model_usage_messages_monthly, model_event, model_subscription]"

datatype drift = MissingTable string | MissingColumn string string | TypeDiffers string string sql_type | NullDiffers string string

definition column_drift :: "string \<Rightarrow> table \<Rightarrow> model_column \<Rightarrow> drift list" where
  "column_drift n t mc =
     (case mc of (c, ty, nu) \<Rightarrow>
        (case col_of t c of
           None \<Rightarrow> [MissingColumn n c]
         | Some x \<Rightarrow> (if c_type x = ty then [] else [TypeDiffers n c (c_type x)]) @ (if c_null x = nu then [] else [NullDiffers n c])))"

definition schema_drift :: "db \<Rightarrow> (string \<times> model_column list) list \<Rightarrow> drift list" where
  "schema_drift db ms =
     concat (map (\<lambda>(n, cs). case table_of db n of None \<Rightarrow> [MissingTable n] | Some t \<Rightarrow> concat (map (column_drift n t) cs)) ms)"

definition all_ops :: "revision list \<Rightarrow> ddl list" where
  "all_ops rs = concat (map (ops_of \<circ> rv_upgrade) rs)"

text \<open>The whole chain on an empty database, evaluated once.\<close>

lemma chain_evaluated:
  "case run_ops (all_ops (revisions token)) empty_db of
     Inl _ \<Rightarrow> False
   | Inr d \<Rightarrow>
       schema_drift d metadata =
         [MissingColumn ''users'' ''api_key_encrypted'',
          MissingColumn ''executions'' ''outcome_deadline_seconds'', MissingColumn ''executions'' ''outcome_deadline_at'',
          MissingColumn ''executions'' ''outcome_state'', MissingColumn ''executions'' ''last_heartbeat_at'',
          MissingColumn ''executions'' ''triggered_by'', MissingColumn ''executions'' ''evidence_external_id'',
          MissingColumn ''executions'' ''evidence_result_url'', MissingColumn ''executions'' ''evidence_result_ref'',
          MissingColumn ''executions'' ''evidence_result_type'', MissingColumn ''executions'' ''evidence_summary'',
          MissingColumn ''executions'' ''evidence_validation_state'', MissingColumn ''executions'' ''evidence_produced_at'',
          MissingColumn ''executions'' ''evidence_artifacts'', MissingColumn ''executions'' ''evidence_metadata'',
          TypeDiffers ''dispatch_outbox'' ''id'' BIGINT_T,
          MissingColumn ''device_codes'' ''session_token'', MissingColumn ''device_codes'' ''user_id'']
       \<and> map_option (\<lambda>t. map_of (tb_cons t) ''valid_exec_status'') (table_of d ''executions'') =
         Some (Some (Check (CIn ''status'' [''pending'', ''delivering'', ''success'', ''failed'', ''retrying'', ''retry_ready'', ''missed''])))"
  by code_simp

subsection \<open>The chain\<close>

lemma revisions_ids:
  "map rv_revision (revisions token) =
    [''001'', ''002'', ''003'', ''004'', ''005'', ''006'', ''007'', ''008'', ''009'', ''010'', ''011'', ''012'', ''013'', ''014'', ''015'',
     ''016'', ''017'', ''018'', ''019'', ''020'', ''021'', ''022'', ''023'', ''024'', ''025'', ''026'', ''027'', ''028'', ''029'', ''030'',
     ''031'', ''032'', ''033'', ''034'', ''035'']"
  by (simp add: revisions_def revision_def)

lemma revisions_distinct: "distinct (map rv_revision (revisions token))"
  unfolding revisions_ids by simp

lemma revisions_last: "rv_revision (last (revisions token)) = ''035''" "revisions token \<noteq> []"
  by (simp_all add: revisions_def revision_def)

fun chained :: "string option \<Rightarrow> revision list \<Rightarrow> bool" where
  "chained v [] = True"
| "chained v (r # rs) = (rv_down r = v \<and> chained (Some (rv_revision r)) rs)"

lemma revisions_chained: "chained None (revisions token)"
  by (simp add: revisions_def revision_def)

lemma chained_pending_some:
  "chained u rs \<Longrightarrow> pending rs (Some v) = Some (r # ps) \<Longrightarrow> rv_down r = Some v \<and> r \<in> set rs"
proof (induction rs arbitrary: u)
  case (Cons q rs)
  then show ?case by (cases rs) (auto split: if_splits)
qed simp

lemma pending_revision:
  assumes "pending (revisions token) v = Some (r # ps)"
  shows "rv_down r = v" and "r \<in> set (revisions token)"
proof -
  have "rv_down r = v \<and> r \<in> set (revisions token)"
  proof (cases v)
    case None
    then show ?thesis using assms revisions_chained [of token] by auto
  next
    case (Some x)
    then show ?thesis using chained_pending_some [OF revisions_chained] assms by metis
  qed
  then show "rv_down r = v" and "r \<in> set (revisions token)" by auto
qed

lemma revisions_restore:
  "list_all (\<lambda>r. rv_revision r \<in> set [''005'', ''007'', ''008'', ''009'', ''015'', ''020'', ''021'', ''026''] \<or> restores r) (revisions token)"
  by code_simp

lemma restores_run:
  assumes "restores r" and "db_ok db" and "run_ops (ops_of (rv_upgrade r)) db = Inr d" and "creates_indexes (ops_of (rv_upgrade r)) db"
  shows "run_ops (ops_of (rv_downgrade r)) d = Inr db"
  using cancels_run [OF assms(2), of "rev (ops_of (rv_upgrade r))"] assms by (simp add: restores_def)

lemma fresh_run:
  assumes "run_ops (all_ops rs) empty_db = Inr d" and "rs \<noteq> []" and "length (run_migrations (map upgrade_actions rs)) \<le> n"
  shows "upgrade_head rs n fresh_store = (Applied, store_at (Some (rv_revision (last rs))) d)"
proof -
  have "foldl (\<lambda>_ r. Some (rv_revision r)) v rs = Some (rv_revision (last rs))" for v using assms(2) by (induction rs rule: rev_induct) auto
  then have "run_actions (run_migrations (map upgrade_actions rs)) fresh_store fresh_store = (None, store_at (Some (rv_revision (last rs))) d)"
    using run_revisions [of rs "[Commit]" fresh_store None empty_db] assms(1)
    by (auto simp: run_migrations_def fresh_store_def all_ops_def)
  then show ?thesis using assms(3) by (simp add: upgrade_head_def fresh_store_def run_killed_all)
qed

text \<open>
  The slugs of revision 020 are not always distinct: the suffix of one user can make the base slug of
  another. Then the unique constraint fails and with it the whole upgrade.
\<close>

definition colliding_users :: db where
  "colliding_users =
    \<lparr>db_tables =
      [(''users'',
        \<lparr>tb_cols = [nn (col ''id'' UUID_T), nn (col ''email'' (VARCHAR 255)), nn (col ''created_at'' TIMESTAMPTZ)],
         tb_cons = [(''users_pkey'', PrimaryKey [''id'']), (''users_email_key'', Unique [''email''])],
         tb_rows =
          [[(''id'', SUuid 1), (''email'', SText ''a@x.com''), (''created_at'', STime 1)],
           [(''id'', SUuid 2), (''email'', SText ''a@y.com''), (''created_at'', STime 2)],
           [(''id'', SUuid 3), (''email'', SText ''a-0000@x.com''), (''created_at'', STime 3)]]\<rparr>)],
     db_indexes = []\<rparr>"

lemma slug_backfill_collides:
  "run_ops (ops_of upgrade_020) colliding_users = Inl UniqueViolation"
  by code_simp

text \<open>The downgrade of revision 021 needs an outbox without message tasks.\<close>

lemma drop_check:
  "table_of db n = Some t \<Longrightarrow> map_of (tb_cons t) k = Some (Check e) \<Longrightarrow>
   drop_constraint k n db = Inr (set_table n (t\<lparr>tb_cons := filter (\<lambda>(j, _). j \<noteq> k) (tb_cons t)\<rparr>) db)"
  by (simp add: drop_constraint_def)

lemma create_check_fails:
  "table_of db n = Some t \<Longrightarrow> k \<notin> fst ` set (tb_cons t) \<Longrightarrow> set (cond_cols e) \<subseteq> set (col_names t) \<Longrightarrow> \<not> constr_ok t (Check e) \<Longrightarrow>
   create_constraint k n (Check e) db = Inl CheckViolation"
  by (simp add: create_constraint_def)

lemma map_of_filter_other: "a \<noteq> b \<Longrightarrow> map_of (filter (\<lambda>(j, _). j \<noteq> a) xs) b = map_of xs b"
  by (induction xs) auto

lemma downgrade_021_needs_empty_outbox:
  assumes t: "table_of db ''dispatch_outbox'' = Some t"
    and cons: "map_of (tb_cons t) ''task_payload_shape'' = Some (Check e1)" "map_of (tb_cons t) ''valid_task_type'' = Some (Check e2)"
    and row: "r \<in> set (tb_rows t)" "cell r ''task_type'' = SText ''deliver_message''" and col: "''task_type'' \<in> set (col_names t)"
  shows "run_ops (ops_of downgrade_021) db = Inl CheckViolation"
proof -
  let ?n = "''dispatch_outbox''" and ?e = "CIn ''task_type'' [''deliver'', ''retry'']"
  let ?t1 = "t\<lparr>tb_cons := filter (\<lambda>(j, _). j \<noteq> ''task_payload_shape'') (tb_cons t)\<rparr>"
  let ?t2 = "?t1\<lparr>tb_cons := filter (\<lambda>(j, _). j \<noteq> ''valid_task_type'') (tb_cons ?t1)\<rparr>"
  have 1: "drop_constraint ''task_payload_shape'' ?n db = Inr (set_table ?n ?t1 db)" using drop_check [OF t cons(1)] .
  have 2: "drop_constraint ''valid_task_type'' ?n (set_table ?n ?t1 db) = Inr (set_table ?n ?t2 (set_table ?n ?t1 db))"
    by (rule drop_check) (simp_all add: t cons map_of_filter_other)
  have "\<not> constr_ok ?t2 (Check ?e)"
    using row by (auto simp: constr_ok_def list_all_iff intro!: bexI [of _ r])
  then have 3: "create_constraint ''valid_task_type'' ?n (Check ?e) (set_table ?n ?t2 (set_table ?n ?t1 db)) = Inl CheckViolation"
    using col by (intro create_check_fails [of _ _ ?t2]) (auto simp: t col_names_def)
  show ?thesis unfolding ops_of_def downgrade_021_def by (simp only: list.map step_ops.simps concat.simps append.simps run_ops.simps run_op.simps 1 2 3 sum.case)
qed

subsection \<open>Runs that stop inside a block\<close>

definition has_column :: "db \<Rightarrow> string \<Rightarrow> string \<Rightarrow> bool" where
  "has_column db n c \<longleftrightarrow> (case table_of db n of None \<Rightarrow> False | Some t \<Rightarrow> c \<in> set (col_names t))"

lemma add_column_has:
  assumes "add_column n c db = Inr d"
  shows "has_column d n (c_name c)" and "has_column db n b \<Longrightarrow> has_column d n b"
proof -
  obtain t v where "table_of db n = Some t"
    "d = set_table n (t\<lparr>tb_cols := tb_cols t @ [c], tb_rows := map (\<lambda>r. r @ [(c_name c, v)]) (tb_rows t)\<rparr>) db"
    using assms by (auto simp: add_column_def Let_def split: option.splits if_splits sql_default.splits)
  then show "has_column d n (c_name c)" and "has_column db n b \<Longrightarrow> has_column d n b" by (auto simp: has_column_def col_names_def)
qed

lemma create_index_has: "create_index k i e db = Inr d \<Longrightarrow> has_column d n b = has_column db n b"
  by (auto simp: create_index_def has_column_def split: option.splits if_splits)

lemma add_column_again: "has_column db n (c_name c) \<Longrightarrow> add_column n c db = Inl DuplicateColumn"
  by (auto simp: has_column_def add_column_def split: option.splits)

text \<open>Three new columns of one table, then the block with one index; the run stops before the new version.\<close>

lemma killed_in_block:
  assumes as: "as = [Exec (AddColumn t a), Exec (AddColumn t b), Exec (AddColumn t c), Commit, Exec (CreateIndex k i e), Commit] @ rest"
    and n: "n \<in> {4, 5, 6}" and run: "run_killed n as s = (Killed, s')"
  shows "has_column (st_db s') t (c_name a) \<and> st_version s' = st_version s"
proof -
  have none: "run_actions (take n as) s s = (None, s')"
    using run by (auto simp: run_killed_def split: prod.splits option.splits if_splits)
  obtain d3 where d3: "has_column d3 t (c_name a)"
    "run_actions (take (n - 4) (Exec (CreateIndex k i e) # Commit # rest)) (s\<lparr>st_db := d3\<rparr>) (s\<lparr>st_db := d3\<rparr>) = (None, s')"
  proof -
    have tk: "take n as = Exec (AddColumn t a) # Exec (AddColumn t b) # Exec (AddColumn t c) # Commit
        # take (n - 4) (Exec (CreateIndex k i e) # Commit # rest)"
      using n as by auto
    obtain d1 where 1: "add_column t a (st_db s) = Inr d1" using none unfolding tk by (auto split: sum.splits)
    obtain d2 where 2: "add_column t b d1 = Inr d2" using none 1 unfolding tk by (auto split: sum.splits)
    obtain d3 where 3: "add_column t c d2 = Inr d3" using none 1 2 unfolding tk by (auto split: sum.splits)
    show thesis
      using that [of d3] none 1 2 3 add_column_has(1) [OF 1] add_column_has(2) [OF 2] add_column_has(2) [OF 3] unfolding tk by simp
  qed
  then show ?thesis using n create_index_has [of k i e d3] by (auto split: sum.splits)
qed

lemma pending_028:
  "pending (revisions token) (Some ''028'') = Some (revision ''029'' (Some ''028'') upgrade_029 downgrade_029 # drop 29 (revisions token))"
  by (simp add: revisions_def revision_def)

subsection \<open>What the migrations guarantee\<close>



text \<open>
  C11. On an empty database \<open>alembic upgrade head\<close>, given the time, applies all 35 revisions and commits a
  well-typed database of version 035, on which every later start-up changes nothing and logs no error.
\<close>

theorem fresh_upgrade_reaches_head:
  assumes "length (run_migrations (map upgrade_actions (revisions token))) \<le> n" and "0 < m"
  shows "\<exists>d. upgrade_head (revisions token) n fresh_store = (Applied, store_at (Some ''035'') d) \<and> db_ok d
    \<and> lifespan (revisions token) m (store_at (Some ''035'') d) = (LogInfo, store_at (Some ''035'') d)"
proof -
  obtain d where d: "run_ops (all_ops (revisions token)) empty_db = Inr d"
    using chain_evaluated [of token] by (auto split: sum.splits)
  have up: "upgrade_head (revisions token) n fresh_store = (Applied, store_at (Some ''035'') d)"
    using fresh_run [OF d revisions_last(2) assms(1)] revisions_last(1) by simp
  moreover have "upgrade_head (revisions token) m (store_at (Some ''035'') d) = (Applied, store_at (Some ''035'') d)"
    by (rule upgrade_head_again [OF revisions_distinct revisions_last(2) up assms(2)])
  ultimately show ?thesis using run_ops_ok [OF empty_db_ok d] by (simp add: lifespan_def)
qed

theorem fresh_upgrade_reaches_head_witness:
  "\<exists>d. upgrade_head (revisions (\<lambda>_. ''s'')) (length (run_migrations (map upgrade_actions (revisions (\<lambda>_. ''s''))))) fresh_store
     = (Applied, store_at (Some ''035'') d)"
  using fresh_upgrade_reaches_head [of "\<lambda>_. ''s''", OF order_refl, of 1] by auto



text \<open>
  C12. For 27 of the 35 revisions, on every well-typed database, rows included: if the upgrade of the
  revision applies (and its \<open>CREATE INDEX IF NOT EXISTS\<close> did create the indexes), then the downgrade
  applies too and gives back exactly the version and the database there was before.
\<close>

theorem downgrade_restores:
  assumes "db_ok (st_db s)" and "pending (revisions token) (st_version s) = Some (r # ps)"
    and "rv_revision r \<notin> set [''005'', ''007'', ''008'', ''009'', ''015'', ''020'', ''021'', ''026'']"
    and "upgrade_one (revisions token) n s = (Applied, s')" and "creates_indexes (ops_of (rv_upgrade r)) (st_db s)"
    and "length (downgrade_actions r) < m"
  shows "downgrade_one (revisions token) m s' = (Applied, s)"
proof -
  obtain d where d: "run_ops (ops_of (rv_upgrade r)) (st_db s) = Inr d" and s': "s' = store_at (Some (rv_revision r)) d"
    using upgrade_one_applied [OF assms(4,2)] by blast
  note r = pending_revision [OF assms(2)]
  have "restores r" using revisions_restore [of token] r(2) assms(3) by (auto simp: list_all_iff)
  from restores_run [OF this assms(1) d assms(5)] have "run_ops (ops_of (rv_downgrade r)) d = Inr (st_db s)" .
  from downgrade_one_applied [OF revisions_distinct r(2) this assms(6)] show ?thesis using r(1) by (simp add: s')
qed

theorem downgrade_restores_witness:
  "downgrade_one (revisions (\<lambda>_. ''s'')) 9 (snd (upgrade_one (revisions (\<lambda>_. ''s'')) 30 fresh_store)) = (Applied, fresh_store)"
proof -
  let ?rs = "revisions (\<lambda>_. ''s'')" and ?r = "revision ''001'' None upgrade_001 downgrade_001"
  have p: "pending ?rs (st_version fresh_store) = Some (?r # tl ?rs)" by (simp add: fresh_store_def revisions_def)
  have a: "fst (upgrade_one ?rs 30 fresh_store) = Applied" by code_simp
  have c: "creates_indexes (ops_of (rv_upgrade ?r)) (st_db fresh_store)" by code_simp
  have l: "length (downgrade_actions ?r) < 9" by code_simp
  show ?thesis
    by (rule downgrade_restores [OF _ p _ _ c l])
      (use a empty_db_ok in \<open>simp_all add: fresh_store_def prod_eq_iff revision_def\<close>)
qed



text \<open>
  C14. Revision 029 has such a block: an upgrade from version 028 that is killed after the commit that
  opens the block and before the new version is stored can not be repeated. Every later run, the one of
  each start-up included, fails at the first column and changes nothing.
\<close>

theorem interrupted_029_never_resumes:
  assumes "st_version s = Some ''028''" and "n \<in> {4, 5, 6}" and "upgrade_head (revisions token) n s = (Killed, s')" and "0 < m"
  shows "upgrade_head (revisions token) m s' = (Failed DuplicateColumn, s') \<and> lifespan (revisions token) m s' = (LogError, s')"
proof -
  let ?a = "dflt (Lit (SInt 3)) (nn (col ''dispatch_priority_bucket'' SMALLINT_T))"
  have r: "upgrade_actions (revision ''029'' (Some ''028'') upgrade_029 downgrade_029) =
      [Exec (AddColumn ''messages'' ?a), Exec (AddColumn ''messages'' (col ''message_dispatch_error'' TEXT_T)),
       Exec (AddColumn ''messages'' (col ''correlation_id'' (VARCHAR 255))), Commit,
       Exec (CreateIndex ''ix_messages_correlation_id'' (idx ''messages'' [''correlation_id''] [] False (Some (CNotNull ''correlation_id''))) True), Commit]
      @ [Stamp (Some ''029'')]"
    by (simp add: upgrade_actions_def revision_def upgrade_029_def)
  obtain b c k i e rest where script: "run_migrations (map upgrade_actions (revision ''029'' (Some ''028'') upgrade_029 downgrade_029 # drop 29 (revisions token))) =
      [Exec (AddColumn ''messages'' ?a), Exec (AddColumn ''messages'' b), Exec (AddColumn ''messages'' c), Commit, Exec (CreateIndex k i e), Commit] @ rest"
    unfolding run_migrations_def list.map concat.simps r append_assoc by blast
  have head: "upgrade_head (revisions token) j x = run_killed j ([Exec (AddColumn ''messages'' ?a), Exec (AddColumn ''messages'' b),
      Exec (AddColumn ''messages'' c), Commit, Exec (CreateIndex k i e), Commit] @ rest) x" if "st_version x = Some ''028''" for j x
    unfolding upgrade_head_def that pending_028 option.case script ..
  from killed_in_block [OF refl assms(2)] assms(3) head [OF assms(1)]
  have s': "has_column (st_db s') ''messages'' (c_name ?a)" "st_version s' = Some ''028''" by (metis assms(1))+
  obtain j where m: "m = Suc j" using assms(4) by (cases m) auto
  have "upgrade_head (revisions token) m s' = (Failed DuplicateColumn, s')"
    unfolding head [OF s'(2)] run_killed_def m using add_column_again [OF s'(1)] by simp
  then show ?thesis by (simp add: lifespan_def)
qed

theorem interrupted_029_never_resumes_witness:
  "let db = \<lparr>db_tables = [(''messages'', \<lparr>tb_cols = [nn (col ''id'' (VARCHAR 20))], tb_cons = [], tb_rows = []\<rparr>)], db_indexes = []\<rparr>;
       s = snd (upgrade_head (revisions (\<lambda>_. ''s'')) 4 (store_at (Some ''028'') db))
   in upgrade_head (revisions (\<lambda>_. ''s'')) 200 s = (Failed DuplicateColumn, s)"
proof -
  let ?db = "\<lparr>db_tables = [(''messages'', \<lparr>tb_cols = [nn (col ''id'' (VARCHAR 20))], tb_cons = [], tb_rows = []\<rparr>)], db_indexes = []\<rparr>"
  have "fst (upgrade_head (revisions (\<lambda>_. ''s'')) 4 (store_at (Some ''028'') ?db)) = Killed" by code_simp
  then have "upgrade_head (revisions (\<lambda>_. ''s'')) 4 (store_at (Some ''028'') ?db) =
      (Killed, snd (upgrade_head (revisions (\<lambda>_. ''s'')) 4 (store_at (Some ''028'') ?db)))" by (simp add: prod_eq_iff)
  from interrupted_029_never_resumes [OF _ _ this, of 200] show ?thesis by (simp add: Let_def)
qed

end
