(* ===== verification/Spec2Isabelle.thy ===== *)
theory Spec2Isabelle
  imports Poller Middleware UsageStats Diagnostics Migrations
begin

text \<open>
  \<^bold>\<open>CueAPI: a verification development.\<close>

  CueAPI is a scheduler and a message server for agents. Users register \<^emph>\<open>cues\<close> (one-time or recurring
  schedules); a poller turns every due cue into an \<^emph>\<open>execution\<close> and, for the webhook transport, a row of
  the transactional outbox; the outbox is dispatched to a job queue, whose tasks deliver the webhook,
  retry with backoff and notify about failures. For the worker transport a worker process claims
  executions over HTTP. Either side reports an \<^emph>\<open>outcome\<close>, which a verification policy judges, and
  failures raise alerts. \<^emph>\<open>Agents\<close> of a user send each other messages, which are polled from an inbox or
  pushed to a webhook through the same outbox, and emit events, which subscribers pull or get posted.
  Users sign in with API keys, session tokens or device codes.

  \<^bold>\<open>The model.\<close> The database, Redis, the job queue and the effects sent to the outside are one record
  \<open>world\<close> (\<open>Datamodel\<close>): one list of records per table, in insertion order. A request handler, a
  poller cycle or a task is a function on \<open>world\<close>, one transaction at a time, with the same guards and
  early returns in the same order as the source. Errors are values: \<open>Refused code status\<close> is an HTTP
  error answer, \<open>Raised\<close> and \<open>Inl\<close> an exception that leaves the handler (the transaction is rolled
  back, so the world is the old one, except for what was sent or written to Redis before). Times are
  integers (microseconds); the clock, fresh ids and random text, the rows locked by other sessions, the
  resolver, the cron library, hashing and signing, and the HTTP clients are arguments. Third-party
  code is never defined: what a theorem relies on (for instance that the cron library answers with a
  later time) is a hypothesis of it.

  \<^bold>\<open>The theories\<close>, in the order of the data flow:

  \<^item> \<open>Prelude\<close>: list, option and keyed-update lemmas; the locales \<open>keyed_update\<close> and \<open>row_batch\<close> (updating
    rows one after another by id is one simultaneous map over the table) that the batch proofs of
    the poller rest on.
  \<^item> \<open>Datamodel\<close>: the tables of \<open>src/app/models\<close>, their constraints, the locale \<open>exec_update\<close> for updates
    that keep the keys of the executions, and \<open>world_preorder\<close>, the base of the frame locales.
  \<^item> \<open>Redis\<close>, \<open>PyText\<close>, \<open>Json\<close>: the parts of Redis (expiry, SET NX, INCRBY), Python strings and \<open>json.dumps\<close>
    that the code uses.
  \<^item> \<open>LeaderLock\<close>: leader election of \<open>src/worker/poller.py\<close> as a step relation of replicas: at most one
    leader, and failover.
  \<^item> \<open>Scheduler\<close>: \<open>poll_due_cues\<close>, \<open>poll_retries\<close>, \<open>dispatch_outbox\<close>, \<open>cleanup_outbox\<close>. Firing is deduplicated
    and advances the schedule; every pending webhook execution has its outbox row; retries and
    dispatches happen exactly once. The drain loop of \<open>poll_due_cues\<close> is bounded by the constant of the
    source (20 batches), which is the recursion depth of the model.
  \<^item> \<open>ExecTasks\<close>: the delivery and retry tasks of \<open>src/worker/tasks.py\<close>, refined from an abstract
    specification of one delivery attempt; the attempt budget.
  \<^item> \<open>WebhookDelivery\<close>, \<open>UrlSafety\<close>, \<open>Usage\<close>: one HTTP delivery with its signature, the address check
    against server-side request forgery, and the monthly quota.
  \<^item> \<open>Recovery\<close>: the safety nets of the poller for stuck executions, lost workers and unclaimed
    executions.
  \<^item> \<open>Alerts\<close>, \<open>Outcome\<close>: alerts with their deduplication window, and the outcome report with the
    verification policy.
  \<^item> \<open>ExecutionApi\<close>, \<open>CueService\<close>: the request handlers of \<open>src/app/routers/executions.py\<close>, \<open>workers.py\<close>,
    \<open>cues.py\<close> and \<open>src/app/services/cue_service.py\<close>.
  \<^item> \<open>Lifecycle\<close>: all of these as one transition system (\<open>api_step\<close> for the requests of a user,
    \<open>system_step\<close> for the poller and the tasks) with the invariants of whole runs; the locale
    \<open>lifecycle_update\<close> has one interpretation per kind of row update the program does.
  \<^item> \<open>Agents\<close>, \<open>Authz\<close>, \<open>MessageQuota\<close>, \<open>Events\<close>: agents with slugs, addresses and the roster
    (\<open>agent_service.py\<close>, \<open>slug.py\<close>); the authorization backend with its HTTP hook, which fails closed;
    the rate limits and the monthly count of messages; the event log with cursors, long poll,
    subscriptions and acknowledgements (\<open>events_service.py\<close>).
  \<^item> \<open>LiveSessions\<close>: the live sessions of an agent and the attachments of daemons
    (\<open>agent_live_sessions.py\<close>, \<open>ipc_attachments.py\<close>, \<open>ipc_attachment_service.py\<close>) with the partial unique
    indexes of the table, which PostgreSQL checks row by row; the locales \<open>session_update\<close> and
    \<open>session_quiet_update\<close> have one interpretation per kind of update.
  \<^item> \<open>Messages\<close>, \<open>MessageTasks\<close>, \<open>MessageCleanup\<close>: sending, the inbox, reading and acknowledging; the push
    tasks with the classification of their outcome and the recovery of stuck ones; expiry and
    deletion, whose loop ends.
  \<^item> \<open>SubscriptionDispatcher\<close>, \<open>DigestEmitter\<close>: the posting of events to webhook subscriptions with
    debouncing, watermark and circuit breaker, and the digests of low-priority events.
  \<^item> \<open>Auth\<close>, \<open>Accounts\<close>, \<open>DeviceCodes\<close>, \<open>AccountSteps\<close>: the current user of a request, accounts and key
    rotation, sign-in by device code, and their runs.
  \<^item> \<open>System\<close>: everything as one transition system \<open>sys_step\<close>. The locales \<open>scheduler_frame\<close>, \<open>posting_frame\<close>,
    \<open>event_frame\<close>, \<open>messaging_frame\<close> and (in \<open>AccountSteps\<close>) \<open>profile_side\<close> and \<open>account_frame\<close> say what one part
    leaves alone of the others; each is interpreted on the tables of the other parts.

  \<^item> \<open>Poller\<close>: one iteration of \<open>run_poller\<close> with its leader gate, stages, timers and exception handler; it
    is a run of the transition system whatever other sessions do between the stages.
  \<^item> \<open>SlidingWindow\<close>, \<open>Middleware\<close>: the window of a sorted set, as a locale interpreted for the limit of
    messages (\<open>MessageQuota\<close>) and for the limit of requests; the rate limit, the body limit and the
    verify-echo wrapper of \<open>src/app/middleware\<close> around an arbitrary application.
  \<^item> \<open>UsageStats\<close>, \<open>Diagnostics\<close>: the usage report with doubles as exactly rounded rationals (its numbers are
    nearest integers of the exact values), the health and status reports composed with the heartbeat of
    the poller, the configuration report, the echo endpoint, the error answers and the mounted routers.
  \<^item> \<open>Schema\<close>, \<open>Revisions\<close>, \<open>Migrations\<close>: a database with rows, constraints and indexes and the schema
    statements on it, with PostgreSQL's errors; the 35 revisions of \<open>src/alembic/versions\<close> as lists of
    statements; the runner of \<open>src/alembic/env.py\<close> with its transaction, autocommit blocks and kills, and
    the start-up of \<open>src/app/main.py\<close>. Every committed database is well-typed, the chain reaches its head
    on an empty database, most downgrades are exact inverses on every database, and the declared
    columns of \<open>src/app/models\<close> are compared with the result. A killed run is a prefix of the list of
    actions; its bound is the number of actions that were done.

  \<^bold>\<open>What the theorems show\<close>: the properties of whole runs are in this theory (unique keys, final
  outcomes, isolation of users, the life of a message); the properties of one component stand at
  the end of its theory, each after a text block that states it. Some properties record that the
  code behaves differently from what a comment or a document says; they hold of the code as it is.

  \<^bold>\<open>What is not modelled\<close>: the rendering of HTML pages and e-mails (fixed text around values; an e-mail is an
  effect of the model), the request id header, logging, the parsing of settings, connection pools, the
  offline mode of the migrations, and the dispatch of the web framework between routes. Concurrency is
  modelled where the code argues about it: the conditional UPDATE of a claim, SKIP LOCKED selections
  (a predicate argument), the leader lock, the steps of others between the two transactions of a push
  and between the stages of the poller, and the order in which a statement meets its rows; other
  transactions are taken one after another.
\<close>

section \<open>Properties of whole runs\<close>

text \<open>
  C1. Table invariants: in every state reachable from empty tables by any sequence of requests,
  poller cycles, delivery and push tasks and housekeeping steps, execution ids are unique, no cue
  has two executions for one firing time, cue ids are unique, no user has two cues of one name,
  no attempt counter is negative, message ids and idempotency keys per user are unique, agent ids
  and addresses are unique, no push task has an attempt number beyond the budget, the e-mail
  addresses, slugs and key hashes of users are unique, no sign-in attempt holds a key that was
  collected or has expired unapproved, and an agent has at most one live session per label and at
  most one default session.
\<close>

theorem reachable_tables_ok:
  assumes "sys_reachable w"
  shows "exec_keys_ok w \<and> attempts_ok w \<and> cue_keys_ok w \<and> message_keys_ok w \<and> agent_keys_ok w
    \<and> (\<forall>p \<in> message_tasks w. within_budget p) \<and> users_unique (users w)
    \<and> (\<forall>d \<in> set (device_codes w). dev_status d \<in> {DevClaimed, DevExpired} \<longrightarrow> dev_api_key_plaintext d = None)
    \<and> (\<forall>r \<in> set (live_sessions w). \<forall>s \<in> set (live_sessions w). ls_detached_at r = None \<and> ls_detached_at s = None
         \<and> ls_agent_id r = ls_agent_id s \<and> (ls_label r = ls_label s \<or> ls_is_default r \<and> ls_is_default s) \<longrightarrow> r = s)"
proof -
  have "system_ok w" using assms by (rule sys_reachable_ok)
  moreover have "dev_api_key_plaintext d = None" if "device_row_ok d" "dev_status d \<in> {DevClaimed, DevExpired}" for d
    using that by (auto simp: device_row_ok_def)
  moreover have "r = s"
    if "session_indexes_ok rows" "r \<in> set rows" "s \<in> set rows" "ls_detached_at r = None" "ls_detached_at s = None"
      "ls_agent_id r = ls_agent_id s" "ls_label r = ls_label s \<or> ls_is_default r \<and> ls_is_default s" for rows r s
    using that by (auto simp: session_indexes_iff session_active_def session_default_def inj_on_def)
  ultimately show ?thesis by (auto simp: system_ok_def messaging_ok_def accounts_ok_def devices_ok_def sessions_ok_def)
qed

theorem reachable_tables_ok_witness:
  "\<exists>c w'. create_cue example_site (hd (users two_tenants)) ''cue_9'' example_request 100 two_tenants = (Reply (c, False), w')
     \<and> sys_reachable w' \<and> exec_keys_ok w' \<and> cue_keys_ok w' \<and> message_keys_ok w'"
proof -
  from example_created obtain c w' where
    e: "create_cue example_site (hd (users two_tenants)) ''cue_9'' example_request 100 two_tenants = (Reply (c, False), w')"
    by blast
  have "sys_reachable two_tenants" by (rule sys_reachable.start) (simp_all add: two_tenants_def empty_world_def users_unique_def)
  moreover have "sys_step two_tenants w'"
    unfolding sys_step_def quiet_step_def step_def
    using api_step.create [where s = example_site and usr = "hd (users two_tenants)" and w = two_tenants
        and c = "''cue_9''" and d = example_request and now = 100] e by auto
  ultimately have "sys_reachable w'" by (rule sys_reachable.next_state)
  with reachable_tables_ok [OF this] e show ?thesis by blast
qed

text \<open>
  C2. A recorded outcome is final: once the outcome of an execution is recorded, its success flag,
  result, error, metadata and time are the same after any sequence of requests (of any user),
  poller cycles and delivery tasks, retries and recoveries included, and the execution never
  disappears.
\<close>

theorem recorded_outcome_immutable:
  assumes "sys_step\<^sup>*\<^sup>* w w'" and "system_ok w"
    and "get_exec_row w e = Some r" and "ex_outcome_recorded_at r \<noteq> None"
  shows "\<exists>r'. get_exec_row w' e = Some r' \<and> outcome_of r' = outcome_of r"
proof -
  from assms(1) have "system_ok w' \<and> (\<exists>r'. get_exec_row w' e = Some r' \<and> row_evolves r r')"
  proof (induction rule: rtranclp_induct)
    case base
    then show ?case using assms(2,3) by auto
  next
    case (step y z)
    then obtain s where s: "get_exec_row y e = Some s" "row_evolves r s" by blast
    with sys_step_row_kept [OF step.hyps(2) _ s(1)] step.IH show ?case
      using sys_step_keeps [OF step.hyps(2)] row_evolves_trans by blast
  qed
  with assms(4) show ?thesis by (auto simp: row_evolves_def)
qed

definition recorded_world :: world where
  "recorded_world = empty_world\<lparr>cues := [worker_cue],
     executions := [(new_execution 11 ''cue_1'' 50 None None 0)\<lparr>ex_outcome_success := Some True,
       ex_outcome_recorded_at := Some 90\<rparr>]\<rparr>"

theorem recorded_outcome_immutable_witness:
  "map_option ex_outcome_success
     (get_exec_row (snd (claim_one_execution 7 11 ''wk'' 100 recorded_world)) 11) = Some (Some True)"
proof -
  let ?w' = "snd (claim_one_execution 7 11 ''wk'' 100 recorded_world)"
  have run: "sys_step\<^sup>*\<^sup>* recorded_world ?w'"
    by (rule r_into_rtranclp) (auto simp: sys_step_def quiet_step_def step_def intro: api_step.claim_one)
  have ok: "system_ok recorded_world"
    by (simp add: recorded_world_def system_ok_def messaging_ok_def exec_keys_ok_def attempts_ok_def cue_keys_ok_def
        message_keys_ok_def agent_keys_ok_def events_ok_def message_tasks_def empty_world_def accounts_ok_def devices_ok_def
        users_unique_def sessions_ok_def session_indexes_ok_def)
  let ?r = "(new_execution 11 ''cue_1'' 50 None None 0)\<lparr>ex_outcome_success := Some True, ex_outcome_recorded_at := Some 90\<rparr>"
  have row: "get_exec_row recorded_world 11 = Some ?r" by (simp add: recorded_world_def get_exec_row_def)
  have "ex_outcome_recorded_at ?r \<noteq> None" by simp
  from recorded_outcome_immutable [OF run ok row this] show ?thesis by (auto simp: outcome_of_def)
qed

text \<open>
  C3. Tenants are isolated: whatever a user requests, every cue of another user, every execution
  of such a cue, every message that the user neither sent nor received, every agent of another
  user and every subscription and live session of such an agent is exactly as before. (The
  reconciliation of a daemon is not among these requests; it is not limited to the user's agents.)
\<close>

theorem tenant_isolation:
  assumes "api_step u w w' \<or> message_request u w w' \<or> session_request u w w'" and "system_ok w"
  shows "(\<forall>i c. get_cue_row w i = Some c \<and> cue_user_id c \<noteq> u \<longrightarrow> get_cue_row w' i = Some c)
    \<and> (\<forall>e r c. get_exec_row w e = Some r \<and> get_cue_row w (ex_cue_id r) = Some c \<and> cue_user_id c \<noteq> u \<longrightarrow>
         get_exec_row w' e = Some r)
    \<and> (\<forall>m \<in> set (messages w). msg_user_id m \<noteq> u \<and> \<not> agent_owner_is w u (msg_to_agent_id m) \<longrightarrow> m \<in> set (messages w'))
    \<and> (\<forall>a \<in> set (agents w). ag_user_id a \<noteq> u \<longrightarrow> a \<in> set (agents w'))
    \<and> (\<forall>s \<in> set (subscriptions w). \<not> agent_owner_is w u (sub_subscriber_agent_id s) \<longrightarrow> s \<in> set (subscriptions w'))
    \<and> (\<forall>s \<in> set (live_sessions w). \<not> agent_owner_is w u (ls_agent_id s) \<longrightarrow> s \<in> set (live_sessions w'))"
  using assms(1)
proof (elim disjE)
  assume a: "api_step u w w'"
  have keys: "exec_keys_ok w" using assms(2) by (simp add: system_ok_def)
  have "get_exec_row w' e = Some r"
    if "get_exec_row w e = Some r" "get_cue_row w (ex_cue_id r) = Some c" "cue_user_id c \<noteq> u" for e r c
    using exec_evolves_row_kept [OF api_step_evolves [OF a keys] keys that(1)] that(2,3)
    by (auto simp: own_row_def)
  moreover have "messages w' = messages w" "agents w' = agents w" "subscriptions w' = subscriptions w"
    using msg_side.request_frame [OF a] by (simp_all add: keeps_messaging_def)
  moreover have "live_sessions w' = live_sessions w" using session_side.request_frame [OF a] by (simp add: keeps_sessions_def)
  ultimately show ?thesis using api_step_cues [OF a] unfolding foreign_cues_kept_def by auto
next
  assume m: "message_request u w w'"
  have "cues w' = cues w" "executions w' = executions w"
    using cue_side.message_request_frame [OF m] by (simp_all add: keeps_scheduler_def)
  moreover have "foreign_messaging_kept u w w'" using request_foreign [OF m] assms(2) by (simp add: system_ok_def)
  moreover have "live_sessions w' = live_sessions w"
    using session_msg_side.message_request_frame [OF m] by (simp add: keeps_sessions_def)
  ultimately show ?thesis by (simp add: foreign_messaging_kept_def get_cue_row_def get_exec_row_def)
next
  assume r: "session_request u w w'"
  have keys: "agent_keys_ok w" "sessions_ok (live_sessions w)" using assms(2) by (simp_all add: system_ok_def messaging_ok_def)
  from session_request_write [OF r] show ?thesis
    unfolding session_write_def
  proof (elim disjE exE conjE)
    fix a rows
    assume a: "a \<in> set (agents w)" "ag_user_id a = u" and rows: "agent_rows_write (ag_id a) (live_sessions w) rows"
      and w': "w' = w\<lparr>live_sessions := rows\<rparr>"
    have "agent_owner_is w u (ag_id a)" using get_agent_row_mem [OF keys(1) a(1)] a(2) by (simp add: agent_owner_is_def)
    then show ?thesis
      using rows keys(2) by (auto simp: w' agent_rows_write_def get_cue_row_def get_exec_row_def)
  qed simp
qed

theorem tenant_isolation_witness:
  "get_exec_row (snd (claim_next_execution 8 ''wk'' 100 worker_world)) 12 =
     Some (new_execution 12 ''cue_1'' 50 None None 0)"
proof -
  have ok: "system_ok worker_world"
    by (simp add: system_ok_def messaging_ok_def exec_keys_ok_def attempts_ok_def cue_keys_ok_def worker_world_def
        message_keys_ok_def agent_keys_ok_def events_ok_def message_tasks_def empty_world_def worker_cue_def example_cue_def
        accounts_ok_def devices_ok_def users_unique_def sessions_ok_def session_indexes_ok_def)
  have st: "api_step 8 worker_world (snd (claim_next_execution 8 ''wk'' 100 worker_world))"
    by (rule api_step.claim_next)
  have "get_exec_row worker_world 12 = Some (new_execution 12 ''cue_1'' 50 None None 0)"
    "get_cue_row worker_world ''cue_1'' = Some worker_cue" "cue_user_id worker_cue \<noteq> 8"
    by (simp_all add: worker_world_def get_exec_row_def get_cue_row_def worker_cue_def example_cue_def)
  with tenant_isolation [OF disjI1 [OF st] ok] show ?thesis by auto
qed

text \<open>
  C4. The life of a message: in one step of anybody, the content of a message never changes, and
  its delivery state moves only along the edges of the state machine (queued or retry_ready to
  delivering; delivering to retry_ready or failed; queued to delivered; anything unfinished to
  read, acked or expired); it disappears only when acked or expired. The one exception is the
  outcome of a push, which sets the state of its own message whatever it is by then.
\<close>

theorem message_state_machine:
  assumes "sys_step w w'" and "system_ok w" and "get_message_row w i = Some m"
  shows "(get_message_row w' i = None \<and> msg_delivery_state m \<in> {MAcked, MExpired})
    \<or> (\<exists>m'. get_message_row w' i = Some m' \<and> letter m' = letter m
         \<and> (state_edge (msg_delivery_state m) (msg_delivery_state m')
            \<or> push_outcome i w w' \<and> msg_delivery_state m' \<in> {MDelivered, MRetryReady, MFailed}))"
proof -
  have keys: "message_keys_ok w" "message_keys_ok w'"
    using assms(2) sys_step_keeps [OF assms(1,2)] by (simp_all add: system_ok_def messaging_ok_def)
  from assms(1) show ?thesis
    unfolding sys_step_def
  proof (elim disjE exE)
    assume "quiet_step w w'"
    from messages_move_row [OF quiet_moves [OF this keys(1)] keys(2,1) assms(3)] show ?thesis by (auto simp: moves_on_def)
  next
    fix j
    assume out: "push_outcome j w w'"
    from outcome_row [OF this assms(3)] out show ?thesis by (cases "i = j") (auto simp: state_edge_def)
  qed
qed

theorem message_state_machine_witness:
  "\<exists>m'. get_message_row (snd (mark_acked 7 ''msg_000000000001'' 500 sent_world)) ''msg_000000000001'' = Some m'
     \<and> letter m' = letter example_message"
proof -
  let ?w' = "snd (mark_acked 7 ''msg_000000000001'' 500 sent_world)"
  have st: "sys_step sent_world ?w'"
    unfolding sys_step_def quiet_step_def using message_request.ack [of 7 sent_world "''msg_000000000001''" 500] by blast
  have row: "get_message_row sent_world ''msg_000000000001'' = Some example_message"
    by (simp add: get_message_row_def sent_world_def example_message_columns)
  from message_state_machine [OF st sent_world_ok row] example_message_columns(7) show ?thesis by auto
qed

end
